(* ===== verification/Prelude.thy ===== *)
theory Prelude
  imports Main "HOL-Library.Word"
begin

text \<open>
  Shared vocabulary of the development: the C integer types as words, the error
  codes the firmware returns, the automation collections, and the generic lemmas
  on words and lists that the component theories share.

  A C function that returns \<open>int\<close> is modelled as returning an \<open>int\<close>, so that
  \<open>return -EINVAL\<close> is \<open>- EINVAL\<close> and a status that a driver returned is passed
  on as it is. Machine counters and wire fields keep their width.
\<close>

unbundle bit_operations_syntax

type_synonym u8 = "8 word"
type_synonym u16 = "16 word"
type_synonym u32 = "32 word"
type_synonym u64 = "64 word"
type_synonym i16 = "16 word"
type_synonym i32 = "32 word"

section \<open>Error codes of errno.h\<close>

text \<open>
  The values are those of the C library the SDK builds with. The proofs only use
  that they are positive and different from each other.
\<close>

abbreviation (input) ENXIO :: int where "ENXIO \<equiv> 6"
abbreviation (input) EIO :: int where "EIO \<equiv> 5"
abbreviation (input) EAGAIN :: int where "EAGAIN \<equiv> 11"
abbreviation (input) ENOMEM :: int where "ENOMEM \<equiv> 12"
abbreviation (input) EBUSY :: int where "EBUSY \<equiv> 16"
abbreviation (input) ENODEV :: int where "ENODEV \<equiv> 19"
abbreviation (input) EINVAL :: int where "EINVAL \<equiv> 22"
abbreviation (input) ENOSPC :: int where "ENOSPC \<equiv> 28"
abbreviation (input) ERANGE :: int where "ERANGE \<equiv> 34"
abbreviation (input) ENODATA :: int where "ENODATA \<equiv> 61"
abbreviation (input) EBADMSG :: int where "EBADMSG \<equiv> 77"
abbreviation (input) ENOMSG :: int where "ENOMSG \<equiv> 35"
abbreviation (input) ENOBUFS :: int where "ENOBUFS \<equiv> 105"
abbreviation (input) ETIMEDOUT :: int where "ETIMEDOUT \<equiv> 116"
abbreviation (input) EINPROGRESS :: int where "EINPROGRESS \<equiv> 119"
abbreviation (input) EALREADY :: int where "EALREADY \<equiv> 120"
abbreviation (input) EMSGSIZE :: int where "EMSGSIZE \<equiv> 122"
abbreviation (input) ESTALE :: int where "ESTALE \<equiv> 133"
abbreviation (input) ENOTSUP :: int where "ENOTSUP \<equiv> 134"
abbreviation (input) ECANCELED :: int where "ECANCELED \<equiv> 140"

section \<open>Automation collections\<close>

named_theorems wire_const \<open>constants of the wire formats\<close>
named_theorems op_defs \<open>definitions of the operations of a component\<close>
named_theorems inv_intro \<open>preservation of component invariants\<close>

section \<open>Words\<close>

lemma unat_inc:
  fixes w :: "'a::len word"
  assumes "unat w < 2 ^ LENGTH('a) - 1"
  shows "unat (w + 1) = Suc (unat w)"
  using assms by (simp add: unat_word_ariths)

lemma unat_sub_le:
  fixes a b :: "'a::len word"
  assumes "unat b \<le> unat a"
  shows "unat (a - b) = unat a - unat b"
  using assms by (simp add: unat_sub word_le_nat_alt)

lemma unat_add_small:
  fixes a b :: "'a::len word"
  assumes "unat a + unat b < 2 ^ LENGTH('a)"
  shows "unat (a + b) = unat a + unat b"
  using assms by (simp add: unat_word_ariths)

lemma of_nat_unat_small [simp]:
  "n < 2 ^ LENGTH('a) \<Longrightarrow> unat (of_nat n :: 'a::len word) = n"
  by (simp add: unat_of_nat)

lemma unat_neg_of_nat:
  assumes "0 < k" "k < 2 ^ LENGTH('a)"
  shows "unat (- of_nat k :: 'a::len word) = 2 ^ LENGTH('a) - k"
proof -
  have "(- of_nat k :: 'a word) = of_nat (2 ^ LENGTH('a) - k)"
    using assms by (subst of_nat_diff) simp_all
  with assms show ?thesis
    by (simp only:) (rule of_nat_unat_small, simp)
qed

lemma sint_u32:
  "sint (v :: 32 word) = (if uint v < 2 ^ 31 then uint v else uint v - 2 ^ 32)"
proof -
  have lt: "uint v < 2 ^ 32"
    using uint_lt2p [of v] by simp
  have pos: "0 \<le> uint v" by simp
  have "bit (uint v) 31 \<longleftrightarrow> \<not> uint v < 2 ^ 31"
  proof (cases "uint v < 2 ^ 31")
    case True
    then show ?thesis using pos by (simp add: bit_iff_odd)
  next
    case False
    then have "uint v div 2 ^ 31 = 1"
      using lt by (simp add: div_pos_geq div_pos_pos_trivial)
    then show ?thesis using False by (simp add: bit_iff_odd)
  qed
  then have "sint v = uint v - 2 ^ 32 * of_bool (\<not> uint v < 2 ^ 31)"
    using lt pos by (simp add: sint_uint signed_take_bit_eq_take_bit_minus take_bit_int_eq_self)
  then show ?thesis
    by (cases "uint v < 2 ^ 31") simp_all
qed

lemma unat_ucast_up:
  fixes w :: "'a::len word"
  assumes "LENGTH('a) \<le> LENGTH('b::len)"
  shows "unat (ucast w :: 'b word) = unat w"
proof -
  have "unat w < 2 ^ LENGTH('b)"
    using assms by (metis less_le_trans one_le_numeral power_increasing unsigned_less)
  then show ?thesis
    by (simp add: unsigned_ucast_eq take_bit_nat_eq_self)
qed

lemma unat_ucast_widths [simp]:
  "unat (ucast (b :: u8) :: u16) = unat b" "unat (ucast (b :: u8) :: u32) = unat b"
  "unat (ucast (h :: u16) :: u32) = unat h" "unat (ucast (h :: u16) :: u64) = unat h"
  "unat (ucast (w :: u32) :: u64) = unat w"
  by (simp_all add: unat_ucast_up)

section \<open>Lists\<close>

lemma nth_append_left: "i < length xs \<Longrightarrow> (xs @ ys) ! i = xs ! i"
  by (simp add: nth_append)

lemma take_drop_append [simp]:
  "length xs = n \<Longrightarrow> take n (xs @ ys) = xs"
  "length xs = n \<Longrightarrow> drop n (xs @ ys) = ys"
  by simp_all

lemma hd_tl_append: "xs \<noteq> [] \<Longrightarrow> hd (xs @ ys) = hd xs"
  by simp

section \<open>Reachable states\<close>

text \<open>
  The interface of a step relation with its reachable states: the closure laws a
  component provides, and what every proof about its runs uses.
\<close>

locale reach_system =
  fixes step :: "'s \<Rightarrow> 's \<Rightarrow> bool" and reach :: "'s \<Rightarrow> 's \<Rightarrow> bool"
  assumes reach_start: "reach s s"
    and reach_next: "reach s t \<Longrightarrow> step t u \<Longrightarrow> reach s u"
    and reach_ind: "reach s t \<Longrightarrow> P s \<Longrightarrow> (\<And>t u. reach s t \<Longrightarrow> P t \<Longrightarrow> step t u \<Longrightarrow> P u) \<Longrightarrow> P t"
begin

lemma one: "step s t \<Longrightarrow> reach s t"
  by (rule reach_next [OF reach_start])

lemma trans: "reach s t \<Longrightarrow> reach t u \<Longrightarrow> reach s u"
  by (rule reach_ind [of t u "\<lambda>v. reach s v"]) (auto intro: reach_next)

lemma first: "step s t \<Longrightarrow> reach t u \<Longrightarrow> reach s u"
  by (rule trans [OF one])

lemma invariant:
  "reach s t \<Longrightarrow> Inv s \<Longrightarrow> (\<And>t u. Inv t \<Longrightarrow> step t u \<Longrightarrow> Inv u) \<Longrightarrow> Inv t"
  by (rule reach_ind [of s t Inv]) auto

text \<open>A quantity that every step keeps or increases only grows.\<close>

lemma grows:
  fixes measured :: "'s \<Rightarrow> 'm::preorder"
  shows "reach s t \<Longrightarrow> (\<And>t u. step t u \<Longrightarrow> measured t \<le> measured u) \<Longrightarrow> measured s \<le> measured t"
  by (rule reach_ind [of s t "\<lambda>v. measured s \<le> measured v"]) (auto intro: order_trans)

end

end
