(* ===== verification/Bytes.thy ===== *)
theory Bytes
  imports Prelude
begin

text \<open>
  The memory image of C integers and packed structs on the little-endian
  nRF54L15. \<open>le_bytes n w\<close> is the image of an \<open>n\<close>-byte integer, \<open>of_le\<close> reads it
  back; \<open>field bs off n\<close> is the integer a packed struct holds at byte offset
  \<open>off\<close>. The lemmas are the round trips every wire format of the program uses.
\<close>

fun le_bytes :: "nat \<Rightarrow> 'a::len word \<Rightarrow> u8 list" where
  "le_bytes 0 w = []"
| "le_bytes (Suc n) w = ucast w # le_bytes n (drop_bit 8 w)"

fun of_le :: "u8 list \<Rightarrow> 'a::len word" where
  "of_le [] = 0"
| "of_le (b # bs) = ucast b OR push_bit 8 (of_le bs)"

definition le16 :: "u16 \<Rightarrow> u8 list" where
  "le16 w = le_bytes 2 w"

definition le32 :: "u32 \<Rightarrow> u8 list" where
  "le32 w = le_bytes 4 w"

definition le64 :: "u64 \<Rightarrow> u8 list" where
  "le64 w = le_bytes 8 w"

definition field :: "u8 list \<Rightarrow> nat \<Rightarrow> nat \<Rightarrow> 'a::len word" where
  "field bs off n = of_le (take n (drop off bs))"

lemma length_le_bytes [simp]: "length (le_bytes n w) = n"
  by (induction n w rule: le_bytes.induct) auto

lemma length_le [simp]:
  "length (le16 a) = 2" "length (le32 b) = 4" "length (le64 c) = 8"
  by (simp_all add: le16_def le32_def le64_def)

lemma bit_of_le:
  "bit (of_le bs :: 'a::len word) k \<longleftrightarrow>
    k < LENGTH('a) \<and> k div 8 < length bs \<and> bit (bs ! (k div 8)) (k mod 8)"
proof (induction bs arbitrary: k)
  case Nil
  then show ?case by simp
next
  case (Cons b bs)
  show ?case
  proof (cases "k < 8")
    case True
    then show ?thesis
      by (auto simp: bit_or_iff bit_push_bit_iff bit_unsigned_iff)
  next
    case False
    then obtain j where k: "k = j + 8"
      by (metis add.commute le_Suc_ex not_less)
    then have "\<not> bit b k" "(j + 8) div 8 = Suc (j div 8)"
      using False by (auto dest: bit_imp_le_length)
    then show ?thesis
      by (auto simp: k bit_or_iff bit_push_bit_iff bit_unsigned_iff Cons.IH)
  qed
qed

lemma nth_le_bytes: "i < n \<Longrightarrow> le_bytes n w ! i = ucast (drop_bit (8 * i) w)"
proof (induction n w arbitrary: i rule: le_bytes.induct)
  case (2 n w)
  then show ?case
    by (cases i) (simp_all add: add.commute)
qed simp

lemma of_le_le_bytes_bit:
  "of_le (le_bytes n (w :: 'a::len word)) = take_bit (8 * n) w"
proof (rule bit_word_eqI)
  fix k
  assume "k < LENGTH('a)"
  have "8 * (k div 8) + k mod 8 = k" "k div 8 < n \<longleftrightarrow> k < 8 * n"
    by (simp_all add: less_mult_imp_div_less div_less_iff_less_mult mult.commute)
  with \<open>k < LENGTH('a)\<close>
  show "bit (of_le (le_bytes n w) :: 'a word) k \<longleftrightarrow> bit (take_bit (8 * n) w) k"
    by (auto simp: bit_of_le nth_le_bytes bit_take_bit_iff bit_unsigned_iff bit_drop_bit_eq)
qed

lemma of_le_le_bytes:
  assumes "LENGTH('a) \<le> 8 * n"
  shows "of_le (le_bytes n (w :: 'a::len word)) = w"
  using assms by (simp add: of_le_le_bytes_bit take_bit_word_eq_self)

lemma of_le_le [simp]:
  "of_le (le16 a) = a" "of_le (le32 b) = b" "of_le (le64 c) = c"
  by (simp_all add: le16_def le32_def le64_def of_le_le_bytes)

lemma le_bytes_of_le:
  assumes "8 * length bs \<le> LENGTH('a)"
  shows "le_bytes (length bs) (of_le bs :: 'a::len word) = bs"
proof (rule nth_equalityI)
  fix i
  assume "i < length (le_bytes (length bs) (of_le bs :: 'a word))"
  then have i: "i < length bs" by simp
  show "le_bytes (length bs) (of_le bs :: 'a word) ! i = bs ! i"
  proof (rule bit_word_eqI)
    fix k :: nat
    assume k: "k < LENGTH(8)"
    then have "(8 * i + k) div 8 = i" "(8 * i + k) mod 8 = k"
      by simp_all
    with i k assms
    show "bit (le_bytes (length bs) (of_le bs :: 'a word) ! i) k \<longleftrightarrow> bit (bs ! i) k"
      by (auto simp: nth_le_bytes bit_unsigned_iff bit_drop_bit_eq bit_of_le)
  qed
qed simp

lemma le_of_le:
  "length bs = 2 \<Longrightarrow> le16 (of_le bs) = bs"
  "length bs = 4 \<Longrightarrow> le32 (of_le bs) = bs"
  "length bs = 8 \<Longrightarrow> le64 (of_le bs) = bs"
  using le_bytes_of_le [of bs, where 'a = 16] le_bytes_of_le [of bs, where 'a = 32]
    le_bytes_of_le [of bs, where 'a = 64]
  by (simp_all add: le16_def le32_def le64_def)

section \<open>Reading a packed struct\<close>

lemma field_append_left [simp]:
  "off + n \<le> length xs \<Longrightarrow> field (xs @ ys) off n = field xs off n"
  by (simp add: field_def)

lemma field_append_right [simp]:
  "length xs \<le> off \<Longrightarrow> field (xs @ ys) off n = field ys (off - length xs) n"
  by (simp add: field_def)

lemma field_le [simp]:
  "field (le16 a) 0 2 = a" "field (le32 b) 0 4 = b" "field (le64 c) 0 8 = c"
  by (simp_all add: field_def)

lemma field_byte [simp]: "field [b] 0 (Suc 0) = (b :: u8)"
  by (simp add: field_def)

lemma field_Cons [simp]: "0 < off \<Longrightarrow> field (b # bs) off n = field bs (off - 1) n"
  by (cases off) (simp_all add: field_def)

lemma field_byte_Cons [simp]: "field (b # bs) 0 (Suc 0) = (b :: u8)"
  by (simp add: field_def)

section \<open>Arrays of int16\<close>

definition le16s :: "u16 list \<Rightarrow> u8 list" where
  "le16s xs = concat (map le16 xs)"

fun of_le16s :: "nat \<Rightarrow> u8 list \<Rightarrow> u16 list" where
  "of_le16s 0 bs = []"
| "of_le16s (Suc n) bs = of_le (take 2 bs) # of_le16s n (drop 2 bs)"

lemma length_le16s [simp]: "length (le16s xs) = 2 * length xs"
  by (induction xs) (simp_all add: le16s_def)

lemma length_of_le16s [simp]: "length (of_le16s n bs) = n"
  by (induction n bs rule: of_le16s.induct) simp_all

lemma of_le16s_le16s [simp]: "of_le16s (length xs) (le16s xs) = xs"
  by (induction xs) (simp_all add: le16s_def)

lemma of_le16s_append: "of_le16s (length xs) (le16s xs @ ys) = xs"
  by (induction xs) (simp_all add: le16s_def)

lemma le16s_of_le16s: "length bs = 2 * n \<Longrightarrow> le16s (of_le16s n bs) = bs"
proof (induction n bs rule: of_le16s.induct)
  case (2 n bs)
  then have "le16 (of_le (take 2 bs)) = take 2 bs"
    by (intro le_of_le) simp
  with 2 show ?case
    by (simp add: le16s_def)
qed (simp add: le16s_def)

lemma le16s_append: "le16s (xs @ ys) = le16s xs @ le16s ys"
  by (simp add: le16s_def)

lemma le16s_inject: "le16s xs = le16s ys \<longleftrightarrow> xs = ys"
  by (metis length_le16s mult_cancel1 of_le16s_le16s zero_neq_numeral)

lemma le_inject [simp]:
  "le16 a = le16 a' \<longleftrightarrow> a = a'" "le32 b = le32 b' \<longleftrightarrow> b = b'" "le64 c = le64 c' \<longleftrightarrow> c = c'"
  by (metis of_le_le(1)) (metis of_le_le(2), metis of_le_le(3))

end
