(* ===== verification/Wire_Formats.thy ===== *)
theory Wire_Formats
  imports Bytes
begin

text \<open>
  The structs that cross the radio, the SPI bus and the receiver's queues, and
  their byte images: \<open>rf_link_proto.h\<close> (the 204-byte radio frame),
  \<open>rf_link_future.h\<close> (the receiver's record and the 248-byte FPGA record) and
  \<open>fpga_spi_transport.h\<close> (the 8-byte request and the 260-byte response). A C
  array of fixed length is a list with that length, stated by the \<open>wf_\<close> predicates.
\<close>

section \<open>The radio frame\<close>

definition RF_LINK_MAGIC :: u16 where [wire_const]: "RF_LINK_MAGIC = 0xA55A"
definition RF_LINK_FRAME_SAMPLE_COUNT :: nat where [wire_const]: "RF_LINK_FRAME_SAMPLE_COUNT = 96"
definition RF_LINK_FRAME_FLAGS_MEMS :: u16 where [wire_const]: "RF_LINK_FRAME_FLAGS_MEMS = 2"
definition RF_LINK_FRAME_FLAGS_BATCH_START :: u16 where
  [wire_const]: "RF_LINK_FRAME_FLAGS_BATCH_START = 4"
definition RF_LINK_FRAME_FLAGS_BATCH_END :: u16 where
  [wire_const]: "RF_LINK_FRAME_FLAGS_BATCH_END = 8"
definition RF_LINK_CHANNEL :: u32 where [wire_const]: "RF_LINK_CHANNEL = 40"
definition RF_LINK_PIPE :: u32 where [wire_const]: "RF_LINK_PIPE = 0"
definition RF_LINK_PIPE_PREFIX :: u8 where [wire_const]: "RF_LINK_PIPE_PREFIX = 0x54"
definition RF_LINK_MEMS_AXIS_COUNT :: u32 where [wire_const]: "RF_LINK_MEMS_AXIS_COUNT = 3"
definition RF_LINK_MEMS_ODR_HZ :: u32 where [wire_const]: "RF_LINK_MEMS_ODR_HZ = 4000"
definition RF_LINK_TARGET_SAMPLE_HZ :: u32 where
  [wire_const]: "RF_LINK_TARGET_SAMPLE_HZ = RF_LINK_MEMS_AXIS_COUNT * RF_LINK_MEMS_ODR_HZ"
definition RF_LINK_STATUS_PERIOD_MS :: u32 where [wire_const]: "RF_LINK_STATUS_PERIOD_MS = 1000"
definition RF_LINK_NOACK_STREAM :: u32 where [wire_const]: "RF_LINK_NOACK_STREAM = 1"
definition RF_LINK_FRAME_WIRE_SIZE :: nat where [wire_const]: "RF_LINK_FRAME_WIRE_SIZE = 204"

record rf_frame =
  frame_magic :: u16
  frame_seq :: u16
  frame_sample_count :: u16
  frame_flags :: u16
  frame_timestamp_ms :: u32
  frame_samples :: "i16 list"

definition wf_frame :: "rf_frame \<Rightarrow> bool" where
  "wf_frame f \<longleftrightarrow> length (frame_samples f) = RF_LINK_FRAME_SAMPLE_COUNT"

definition zero_frame :: rf_frame where
  "zero_frame = \<lparr>frame_magic = 0, frame_seq = 0, frame_sample_count = 0, frame_flags = 0,
     frame_timestamp_ms = 0, frame_samples = replicate RF_LINK_FRAME_SAMPLE_COUNT 0\<rparr>"

definition rf_frame_bytes :: "rf_frame \<Rightarrow> u8 list" where
  "rf_frame_bytes f = le16 (frame_magic f) @ le16 (frame_seq f) @ le16 (frame_sample_count f) @
     le16 (frame_flags f) @ le32 (frame_timestamp_ms f) @ le16s (frame_samples f)"

definition rf_frame_of_bytes :: "u8 list \<Rightarrow> rf_frame" where
  "rf_frame_of_bytes bs = \<lparr>frame_magic = field bs 0 2, frame_seq = field bs 2 2,
     frame_sample_count = field bs 4 2, frame_flags = field bs 6 2,
     frame_timestamp_ms = field bs 8 4,
     frame_samples = of_le16s RF_LINK_FRAME_SAMPLE_COUNT (drop 12 bs)\<rparr>"

lemma wf_zero_frame [simp]: "wf_frame zero_frame"
  by (simp add: wf_frame_def zero_frame_def)

lemma wf_frame_of_bytes [simp]: "wf_frame (rf_frame_of_bytes bs)"
  by (simp add: wf_frame_def rf_frame_of_bytes_def)

lemma length_rf_frame_bytes [simp]:
  "wf_frame f \<Longrightarrow> length (rf_frame_bytes f) = RF_LINK_FRAME_WIRE_SIZE"
  by (simp add: rf_frame_bytes_def wf_frame_def wire_const)

lemma rf_frame_of_bytes_bytes:
  assumes "wf_frame f"
  shows "rf_frame_of_bytes (rf_frame_bytes f) = f"
proof -
  have "of_le16s RF_LINK_FRAME_SAMPLE_COUNT (le16s (frame_samples f)) = frame_samples f"
    using assms of_le16s_le16s [of "frame_samples f"] by (simp add: wf_frame_def)
  then show ?thesis
    by (simp add: rf_frame_of_bytes_def rf_frame_bytes_def)
qed

lemma rf_frame_bytes_inject:
  "wf_frame f \<Longrightarrow> wf_frame g \<Longrightarrow> rf_frame_bytes f = rf_frame_bytes g \<longleftrightarrow> f = g"
  by (metis rf_frame_of_bytes_bytes)

section \<open>The receiver's frame record\<close>

definition RF_LINK_PROTOCOL_VERSION_V1 :: u8 where [wire_const]: "RF_LINK_PROTOCOL_VERSION_V1 = 1"
definition FPGA_RECORD_MAGIC :: u32 where [wire_const]: "FPGA_RECORD_MAGIC = 0x3146524e"
definition FPGA_RECORD_VERSION :: u8 where [wire_const]: "FPGA_RECORD_VERSION = 1"

definition RX_FRAME_STATUS_VALID :: u32 where [wire_const]: "RX_FRAME_STATUS_VALID = 1"
definition RX_FRAME_STATUS_GAP_BEFORE :: u32 where [wire_const]: "RX_FRAME_STATUS_GAP_BEFORE = 2"
definition RX_FRAME_STATUS_INDEX_ESTIMATED :: u32 where
  [wire_const]: "RX_FRAME_STATUS_INDEX_ESTIMATED = 4"
definition RX_FRAME_STATUS_BATCH_START :: u32 where [wire_const]: "RX_FRAME_STATUS_BATCH_START = 8"
definition RX_FRAME_STATUS_BATCH_END :: u32 where [wire_const]: "RX_FRAME_STATUS_BATCH_END = 16"
definition RX_FRAME_STATUS_SYNCED :: u32 where [wire_const]: "RX_FRAME_STATUS_SYNCED = 32"
definition RX_FRAME_STATUS_SYNC_DEGRADED :: u32 where
  [wire_const]: "RX_FRAME_STATUS_SYNC_DEGRADED = 64"

record rx_missing_range =
  miss_first_extended_frame_seq :: u32
  miss_frame_count :: u32
  miss_first_logical_sample_index :: u64
  miss_estimated_sample_count :: u64

record rx_frame_record =
  rec_node_id :: u8
  rec_protocol_version :: u8
  rec_reserved :: u16
  rec_extended_frame_seq :: u32
  rec_sync_epoch :: u32
  rec_rx_tick :: u64
  rec_logical_sample_index :: u64
  rec_status_flags :: u32
  rec_frame :: rf_frame

definition zero_rx_record :: rx_frame_record where
  "zero_rx_record = \<lparr>rec_node_id = 0, rec_protocol_version = 0, rec_reserved = 0,
     rec_extended_frame_seq = 0, rec_sync_epoch = 0, rec_rx_tick = 0,
     rec_logical_sample_index = 0, rec_status_flags = 0, rec_frame = zero_frame\<rparr>"

section \<open>The FPGA record\<close>

record fpga_record_header =
  hdr_magic :: u32
  hdr_version :: u8
  hdr_node_id :: u8
  hdr_record_type :: u16
  hdr_transport_seq :: u32
  hdr_sync_epoch :: u32
  hdr_rx_tick :: u64
  hdr_logical_sample_index :: u64
  hdr_status_flags :: u32
  hdr_payload_len :: u16
  hdr_header_crc16 :: u16

record fpga_record =
  fpga_header :: fpga_record_header
  fpga_frame :: rf_frame
  fpga_payload_crc32 :: u32

definition zero_fpga_record :: fpga_record where
  "zero_fpga_record = \<lparr>fpga_header = \<lparr>hdr_magic = 0, hdr_version = 0, hdr_node_id = 0,
       hdr_record_type = 0, hdr_transport_seq = 0, hdr_sync_epoch = 0, hdr_rx_tick = 0,
       hdr_logical_sample_index = 0, hdr_status_flags = 0, hdr_payload_len = 0,
       hdr_header_crc16 = 0\<rparr>,
     fpga_frame = zero_frame, fpga_payload_crc32 = 0\<rparr>"

text \<open>
  \<open>header_prefix_bytes\<close> are the 38 bytes before \<open>header_crc16\<close>, the bytes the
  header CRC covers (\<open>offsetof(struct fpga_record_header, header_crc16)\<close>).
\<close>

definition header_prefix_bytes :: "fpga_record_header \<Rightarrow> u8 list" where
  "header_prefix_bytes h = le32 (hdr_magic h) @ [hdr_version h] @ [hdr_node_id h] @
     le16 (hdr_record_type h) @ le32 (hdr_transport_seq h) @ le32 (hdr_sync_epoch h) @
     le64 (hdr_rx_tick h) @ le64 (hdr_logical_sample_index h) @ le32 (hdr_status_flags h) @
     le16 (hdr_payload_len h)"

definition header_bytes :: "fpga_record_header \<Rightarrow> u8 list" where
  "header_bytes h = header_prefix_bytes h @ le16 (hdr_header_crc16 h)"

definition fpga_record_bytes :: "fpga_record \<Rightarrow> u8 list" where
  "fpga_record_bytes r =
     header_bytes (fpga_header r) @ rf_frame_bytes (fpga_frame r) @ le32 (fpga_payload_crc32 r)"

definition header_of_bytes :: "u8 list \<Rightarrow> fpga_record_header" where
  "header_of_bytes bs = \<lparr>hdr_magic = field bs 0 4, hdr_version = field bs 4 1,
     hdr_node_id = field bs 5 1, hdr_record_type = field bs 6 2,
     hdr_transport_seq = field bs 8 4, hdr_sync_epoch = field bs 12 4,
     hdr_rx_tick = field bs 16 8, hdr_logical_sample_index = field bs 24 8,
     hdr_status_flags = field bs 32 4, hdr_payload_len = field bs 36 2,
     hdr_header_crc16 = field bs 38 2\<rparr>"

definition fpga_record_of_bytes :: "u8 list \<Rightarrow> fpga_record" where
  "fpga_record_of_bytes bs = \<lparr>fpga_header = header_of_bytes bs,
     fpga_frame = rf_frame_of_bytes (take RF_LINK_FRAME_WIRE_SIZE (drop 40 bs)),
     fpga_payload_crc32 = field bs 244 4\<rparr>"

definition wf_fpga_record :: "fpga_record \<Rightarrow> bool" where
  "wf_fpga_record r \<longleftrightarrow> wf_frame (fpga_frame r)"

lemma length_header_prefix_bytes [simp]: "length (header_prefix_bytes h) = 38"
  by (simp add: header_prefix_bytes_def)

lemma length_header_bytes [simp]: "length (header_bytes h) = 40"
  by (simp add: header_bytes_def)

lemma length_fpga_record_bytes [simp]:
  "wf_fpga_record r \<Longrightarrow> length (fpga_record_bytes r) = 248"
  by (simp add: fpga_record_bytes_def wf_fpga_record_def wire_const)

lemma header_of_bytes_bytes: "header_of_bytes (header_bytes h @ bs) = h"
  by (simp add: header_of_bytes_def header_bytes_def header_prefix_bytes_def)

lemma fpga_record_of_bytes_bytes:
  assumes "wf_fpga_record r"
  shows "fpga_record_of_bytes (fpga_record_bytes r) = r"
proof -
  have f: "wf_frame (fpga_frame r)" "length (rf_frame_bytes (fpga_frame r)) = 204"
    using assms by (simp_all add: wf_fpga_record_def wire_const)
  have "take RF_LINK_FRAME_WIRE_SIZE (drop 40 (fpga_record_bytes r)) = rf_frame_bytes (fpga_frame r)"
    using f by (simp add: fpga_record_bytes_def wire_const)
  moreover have "field (fpga_record_bytes r) 244 4 = fpga_payload_crc32 r"
    using f by (simp add: fpga_record_bytes_def)
  moreover have "header_of_bytes (fpga_record_bytes r) = fpga_header r"
    by (simp add: fpga_record_bytes_def header_of_bytes_bytes)
  ultimately show ?thesis
    using f by (simp add: fpga_record_of_bytes_def rf_frame_of_bytes_bytes)
qed

section \<open>Properties\<close>

lemma slice_drop: "b = a + n \<Longrightarrow> take n (drop a bs) @ drop b bs = drop a bs"
  by (metis add.commute append_take_drop_id drop_drop)

lemma rf_frame_wire_aux:
  assumes "length bs = 204"
  shows "rf_frame_bytes (rf_frame_of_bytes bs) = bs"
proof -
  have "rf_frame_bytes (rf_frame_of_bytes bs) =
      take 2 (drop 0 bs) @ take 2 (drop 2 bs) @ take 2 (drop 4 bs) @ take 2 (drop 6 bs) @
      take 4 (drop 8 bs) @ drop 12 bs"
    using assms by (simp add: rf_frame_bytes_def rf_frame_of_bytes_def field_def le_of_le
        le16s_of_le16s wire_const)
  also have "\<dots> = bs"
    by (simp add: slice_drop del: drop_0 drop_drop)
  finally show ?thesis .
qed

text \<open>
  The radio frame's wire image is exact in both directions: every frame with
  96 sample slots encodes to 204 bytes that decode to it, and every 204 bytes a
  radio packet can hold are the image of the frame the receiver reads from them.
\<close>

theorem rf_frame_wire_bijection:
  "(wf_frame f \<longrightarrow> length (rf_frame_bytes f) = RF_LINK_FRAME_WIRE_SIZE \<and>
      rf_frame_of_bytes (rf_frame_bytes f) = f) \<and>
   (length bs = RF_LINK_FRAME_WIRE_SIZE \<longrightarrow> rf_frame_bytes (rf_frame_of_bytes bs) = bs)"
  using rf_frame_wire_aux [of bs]
  by (simp add: rf_frame_of_bytes_bytes) (simp add: wire_const)

lemma rf_frame_wire_bijection_witness:
  "rf_frame_of_bytes (rf_frame_bytes zero_frame) = zero_frame \<and>
   rf_frame_bytes (rf_frame_of_bytes (replicate 204 7)) = replicate 204 7"
  using rf_frame_wire_bijection [of zero_frame "replicate 204 7"]
  by (simp add: RF_LINK_FRAME_WIRE_SIZE_def)

end
