(* ===== verification/Rx_Config.thy ===== *)
theory Rx_Config
  imports Prelude
begin

text \<open>
  The receiver's build configuration (\<open>applications/rf_link_rx/Kconfig\<close> and the
  \<open>.conf\<close> files) and the two checksum functions it takes from the SDK. The code of
  \<open>crc16\<close> and \<open>crc32_ieee\<close> is not part of the repository, so they are parameters
  of the model; no proof assumes anything of them unless its statement says so.
\<close>

record rx_config =
  RF_LINK_FUTURE_MODE :: bool
  RF_LINK_NODE_ID :: u8
  RF_LINK_SYNC_TIMEOUT_MS :: u64
  RF_LINK_SYNC_LARGE_GAP_FRAMES :: u32
  RF_LINK_SYNC_HW_CAPTURE :: bool
  RF_LINK_FPGA_TRANSPORT :: bool
  RF_LINK_FPGA_SPIS :: bool
  RF_LINK_DEBUG_UART_TRANSPORT :: bool
  hw_cycles_per_sec :: u32
  crc16 :: "u16 \<Rightarrow> u16 \<Rightarrow> u8 list \<Rightarrow> u16"
  crc32_ieee :: "u8 list \<Rightarrow> u32"

text \<open>
  The two configurations the repository builds: \<open>future.conf\<close> (diagnostic
  backend that commits each record itself) and \<open>ch0_spis.conf\<close> (SPIS backend), with
  the checksum functions as arguments.
\<close>

definition future_conf ::
  "(u16 \<Rightarrow> u16 \<Rightarrow> u8 list \<Rightarrow> u16) \<Rightarrow> (u8 list \<Rightarrow> u32) \<Rightarrow> rx_config" where
  "future_conf c16 c32 = \<lparr>RF_LINK_FUTURE_MODE = True, RF_LINK_NODE_ID = 0,
     RF_LINK_SYNC_TIMEOUT_MS = 1500, RF_LINK_SYNC_LARGE_GAP_FRAMES = 256,
     RF_LINK_SYNC_HW_CAPTURE = False, RF_LINK_FPGA_TRANSPORT = True,
     RF_LINK_FPGA_SPIS = False, RF_LINK_DEBUG_UART_TRANSPORT = True,
     hw_cycles_per_sec = 1000000, crc16 = c16, crc32_ieee = c32\<rparr>"

definition ch0_spis_conf ::
  "(u16 \<Rightarrow> u16 \<Rightarrow> u8 list \<Rightarrow> u16) \<Rightarrow> (u8 list \<Rightarrow> u32) \<Rightarrow> rx_config" where
  "ch0_spis_conf c16 c32 = (future_conf c16 c32)\<lparr>RF_LINK_SYNC_HW_CAPTURE := True,
     RF_LINK_FPGA_SPIS := True, RF_LINK_DEBUG_UART_TRANSPORT := False\<rparr>"

text \<open>A concrete pair of checksum functions for the witnesses: additive sums.\<close>

definition sum16 :: "u16 \<Rightarrow> u16 \<Rightarrow> u8 list \<Rightarrow> u16" where
  "sum16 poly seed bs = foldl (\<lambda>a b. a + ucast b) seed bs"

definition sum32 :: "u8 list \<Rightarrow> u32" where
  "sum32 bs = foldl (\<lambda>a b. a + ucast b) 0 bs"

end
