(* ===== verification/Rx_Reorder.thy ===== *)
theory Rx_Reorder
  imports Wire_Formats Rx_Config
begin

text \<open>
  \<open>rx_reorder.c\<close>: validation of a received frame, extension of the 16-bit radio
  sequence to 32 bits, loss accounting and the logical sample index. The state is
  the file's static variables (the \<open>atomic_t\<close> counters are 32-bit).
\<close>

record rx_reorder_state =
  ro_frames :: u32
  ro_samples :: u32
  ro_bytes :: u32
  ro_lost_frames :: u32
  ro_lost_samples :: u32
  ro_duplicates :: u32
  ro_late_frames :: u32
  ro_index_estimated :: u32
  ro_bad_magic :: u32
  ro_bad_size :: u32
  ro_bad_sample_count :: u32
  ro_last_seq :: u16
  ro_extended_frame_seq :: u32
  ro_local_sample_index :: u64
  ro_last_missing :: rx_missing_range
  ro_last_first_sample :: i16
  ro_last_last_sample :: i16
  ro_have_seq :: bool

record rx_reorder_stats =
  rs_frames :: u32
  rs_samples :: u32
  rs_bytes :: u32
  rs_lost_frames :: u32
  rs_lost_samples :: u32
  rs_duplicates :: u32
  rs_late_frames :: u32
  rs_index_estimated :: u32
  rs_bad_magic :: u32
  rs_bad_size :: u32
  rs_bad_sample_count :: u32
  rs_extended_frame_seq :: u32
  rs_last_seq :: u16
  rs_last_first_sample :: i16
  rs_last_last_sample :: i16
  rs_last_missing :: rx_missing_range

definition zero_missing :: rx_missing_range where
  "zero_missing = \<lparr>miss_first_extended_frame_seq = 0, miss_frame_count = 0,
     miss_first_logical_sample_index = 0, miss_estimated_sample_count = 0\<rparr>"

definition rx_reorder_init :: rx_reorder_state where
  [op_defs]: "rx_reorder_init = \<lparr>ro_frames = 0, ro_samples = 0, ro_bytes = 0, ro_lost_frames = 0,
     ro_lost_samples = 0, ro_duplicates = 0, ro_late_frames = 0, ro_index_estimated = 0,
     ro_bad_magic = 0, ro_bad_size = 0, ro_bad_sample_count = 0, ro_last_seq = 0,
     ro_extended_frame_seq = 0, ro_local_sample_index = 0, ro_last_missing = zero_missing,
     ro_last_first_sample = 0, ro_last_last_sample = 0, ro_have_seq = False\<rparr>"

text \<open>
  The part of \<open>rx_reorder_process_packet\<close> under \<open>state_lock\<close> that classifies the
  sequence number: the error it returns, or the status flags of an accepted frame,
  with the updated state.
\<close>

definition classify_seq :: "u16 \<Rightarrow> rx_reorder_state \<Rightarrow> (int + u32) \<times> rx_reorder_state" where
  [op_defs]: "classify_seq seq st =
     (if \<not> ro_have_seq st then
        (Inr RX_FRAME_STATUS_VALID,
         st\<lparr>ro_have_seq := True, ro_extended_frame_seq := ucast seq\<rparr>)
      else
        let expected_seq = ro_last_seq st + 1;
            forward_gap = seq - expected_seq
        in if forward_gap = 0 then
             (Inr RX_FRAME_STATUS_VALID,
              st\<lparr>ro_extended_frame_seq := ro_extended_frame_seq st + 1\<rparr>)
           else if forward_gap < 0x8000 then
             let estimated = ucast forward_gap * of_nat RF_LINK_FRAME_SAMPLE_COUNT :: u32
             in (Inr (RX_FRAME_STATUS_VALID OR
                   (RX_FRAME_STATUS_GAP_BEFORE OR RX_FRAME_STATUS_INDEX_ESTIMATED)),
                 st\<lparr>ro_last_missing :=
                      \<lparr>miss_first_extended_frame_seq = ro_extended_frame_seq st + 1,
                       miss_frame_count = ucast forward_gap,
                       miss_first_logical_sample_index = ro_local_sample_index st,
                       miss_estimated_sample_count = ucast estimated\<rparr>,
                    ro_extended_frame_seq := ro_extended_frame_seq st + (ucast forward_gap + 1),
                    ro_local_sample_index := ro_local_sample_index st + ucast estimated,
                    ro_lost_frames := ro_lost_frames st + ucast forward_gap,
                    ro_lost_samples := ro_lost_samples st + estimated,
                    ro_index_estimated := ro_index_estimated st + 1\<rparr>)
           else if seq = ro_last_seq st then
             (Inl (- EALREADY), st\<lparr>ro_duplicates := ro_duplicates st + 1\<rparr>)
           else
             (Inl (- ERANGE), st\<lparr>ro_late_frames := ro_late_frames st + 1\<rparr>))"

definition make_record ::
  "rx_config \<Rightarrow> rf_frame \<Rightarrow> u64 \<Rightarrow> u32 \<Rightarrow> rx_reorder_state \<Rightarrow> rx_frame_record" where
  [op_defs]: "make_record cfg frame rx_tick flags st =
     (let f1 = (if frame_flags frame AND RF_LINK_FRAME_FLAGS_BATCH_START \<noteq> 0
                then flags OR RX_FRAME_STATUS_BATCH_START else flags);
          f2 = (if frame_flags frame AND RF_LINK_FRAME_FLAGS_BATCH_END \<noteq> 0
                then f1 OR RX_FRAME_STATUS_BATCH_END else f1)
      in zero_rx_record\<lparr>rec_node_id := (if RF_LINK_FUTURE_MODE cfg then RF_LINK_NODE_ID cfg else 0),
           rec_protocol_version := RF_LINK_PROTOCOL_VERSION_V1,
           rec_extended_frame_seq := ro_extended_frame_seq st,
           rec_rx_tick := rx_tick,
           rec_logical_sample_index := ro_local_sample_index st,
           rec_status_flags := f2,
           rec_frame := frame\<rparr>)"

definition accept_frame :: "rf_frame \<Rightarrow> rx_reorder_state \<Rightarrow> rx_reorder_state" where
  [op_defs]: "accept_frame frame st =
     st\<lparr>ro_last_seq := frame_seq frame,
        ro_last_first_sample := frame_samples frame ! 0,
        ro_last_last_sample := frame_samples frame ! (unat (frame_sample_count frame) - 1),
        ro_local_sample_index := ro_local_sample_index st + ucast (frame_sample_count frame),
        ro_frames := ro_frames st + 1,
        ro_samples := ro_samples st + ucast (frame_sample_count frame),
        ro_bytes := ro_bytes st + ucast (frame_sample_count frame) * 2\<rparr>"

definition rx_reorder_process_packet ::
  "rx_config \<Rightarrow> rf_frame option \<Rightarrow> u16 \<Rightarrow> u64 \<Rightarrow> bool \<Rightarrow> rx_reorder_state \<Rightarrow>
   (int + rx_frame_record) \<times> rx_reorder_state" where
  [op_defs]: "rx_reorder_process_packet cfg fp len rx_tick record_null st =
     (case fp of
        None \<Rightarrow> (Inl (- EINVAL), st\<lparr>ro_bad_size := ro_bad_size st + 1\<rparr>)
      | Some frame \<Rightarrow>
          if record_null \<or> unat len \<noteq> RF_LINK_FRAME_WIRE_SIZE then
            (Inl (- EINVAL), st\<lparr>ro_bad_size := ro_bad_size st + 1\<rparr>)
          else if frame_magic frame \<noteq> RF_LINK_MAGIC then
            (Inl (- EBADMSG), st\<lparr>ro_bad_magic := ro_bad_magic st + 1\<rparr>)
          else if frame_sample_count frame = 0 \<or>
                  unat (frame_sample_count frame) > RF_LINK_FRAME_SAMPLE_COUNT then
            (Inl (- EMSGSIZE), st\<lparr>ro_bad_sample_count := ro_bad_sample_count st + 1\<rparr>)
          else
            (case classify_seq (frame_seq frame) st of
               (Inl e, st') \<Rightarrow> (Inl e, st')
             | (Inr flags, st') \<Rightarrow>
                 (Inr (make_record cfg frame rx_tick flags st'), accept_frame frame st')))"

definition rx_reorder_stats_get :: "rx_reorder_state \<Rightarrow> rx_reorder_stats" where
  [op_defs]: "rx_reorder_stats_get st = \<lparr>rs_frames = ro_frames st, rs_samples = ro_samples st,
     rs_bytes = ro_bytes st, rs_lost_frames = ro_lost_frames st,
     rs_lost_samples = ro_lost_samples st, rs_duplicates = ro_duplicates st,
     rs_late_frames = ro_late_frames st, rs_index_estimated = ro_index_estimated st,
     rs_bad_magic = ro_bad_magic st, rs_bad_size = ro_bad_size st,
     rs_bad_sample_count = ro_bad_sample_count st,
     rs_extended_frame_seq = ro_extended_frame_seq st, rs_last_seq = ro_last_seq st,
     rs_last_first_sample = ro_last_first_sample st, rs_last_last_sample = ro_last_last_sample st,
     rs_last_missing = ro_last_missing st\<rparr>"

section \<open>Sequence arithmetic\<close>

text \<open>
  The transmitter numbers its frames 0, 1, 2, \<dots> without bound; a frame carries the
  number modulo 65536. \<open>seq_gap\<close> computes the code's \<open>forward_gap\<close> from the true
  numbers of the last and the new frame.
\<close>

lemma seq_gap_forward:
  assumes "n < m" "m \<le> n + 65536"
  shows "unat ((of_nat m :: u16) - (of_nat n + 1)) = m - n - 1"
proof -
  define d where "d = m - n - 1"
  with assms have d: "m = n + 1 + d" "d < 65536" by simp_all
  then have "(of_nat m :: u16) - (of_nat n + 1) = of_nat d" by simp
  with d show ?thesis by simp
qed

lemma seq_gap_backward:
  assumes "m \<le> n" "n < m + 65536"
  shows "unat ((of_nat m :: u16) - (of_nat n + 1)) = 65535 - (n - m)"
proof -
  define d where "d = n - m"
  with assms have d: "n = m + d" "d < 65536" by simp_all
  have "(of_nat (65535 - d) :: u16) = of_nat 65535 - of_nat d"
    using d by (subst of_nat_diff) simp_all
  also have "\<dots> = (of_nat m :: u16) - (of_nat n + 1)"
    using d by simp
  finally have eq: "(of_nat m :: u16) - (of_nat n + 1) = of_nat (65535 - d)" ..
  have "unat ((of_nat m :: u16) - (of_nat n + 1)) = 65535 - d"
    unfolding eq by (rule of_nat_unat_small) simp
  then show ?thesis
    by (simp only: d_def)
qed

lemma seq_eq_iff_close:
  assumes "m \<le> n" "n < m + 65536"
  shows "(of_nat m :: u16) = of_nat n \<longleftrightarrow> m = n"
proof -
  define d where "d = n - m"
  with assms have d: "n = m + d" "d < 65536" by simp_all
  have "(of_nat d :: u16) = 0 \<longleftrightarrow> d = 0"
    using d by (auto simp: word_of_nat_eq_0_iff dest: dvd_imp_le)
  with d show ?thesis by auto
qed

text \<open>
  \<open>tracks n0 n st\<close>: the first frame accepted since initialisation was number
  \<open>n0\<close> and the last one number \<open>n\<close>.
\<close>

definition tracks :: "nat \<Rightarrow> nat \<Rightarrow> rx_reorder_state \<Rightarrow> bool" where
  "tracks n0 n st \<longleftrightarrow> n0 \<le> n \<and> ro_have_seq st \<and> ro_last_seq st = of_nat n \<and>
     ro_extended_frame_seq st = of_nat (n0 mod 65536 + (n - n0))"

lemma classify_first:
  assumes "\<not> ro_have_seq st" "classify_seq (of_nat n) st = (r, st')"
  shows "r = Inr RX_FRAME_STATUS_VALID" "ro_have_seq st'"
    "ro_extended_frame_seq st' = of_nat (n mod 65536)"
    "ro_lost_frames st' = ro_lost_frames st" "ro_lost_samples st' = ro_lost_samples st"
    "ro_local_sample_index st' = ro_local_sample_index st"
  using assms
  by (auto simp: classify_seq_def unsigned_of_nat take_bit_eq_mod)

text \<open>
  A later frame, at most 32768 numbers ahead, is accepted; the frames skipped are
  counted and the logical index moves past their estimated samples.
\<close>

lemma classify_forward:
  assumes tr: "tracks n0 n st" and fwd: "n < m" "m \<le> n + 32768"
    and c: "classify_seq (of_nat m) st = (r, st')"
  shows "r = Inr (if m = n + 1 then RX_FRAME_STATUS_VALID else RX_FRAME_STATUS_VALID OR
      (RX_FRAME_STATUS_GAP_BEFORE OR RX_FRAME_STATUS_INDEX_ESTIMATED))"
    and "ro_have_seq st'"
    and "ro_extended_frame_seq st' = of_nat (n0 mod 65536 + (m - n0))"
    and "ro_lost_frames st' = ro_lost_frames st + of_nat (m - n - 1)"
    and "ro_lost_samples st' = ro_lost_samples st + of_nat (96 * (m - n - 1))"
    and "ro_local_sample_index st' = ro_local_sample_index st + of_nat (96 * (m - n - 1))"
proof -
  define d where "d = m - n - 1"
  have md: "m = n + 1 + d" "d < 32768"
    using fwd by (simp_all add: d_def)
  define g where "g = (of_nat m :: u16) - (ro_last_seq st + 1)"
  have g: "unat g = d"
    using seq_gap_forward [of n m] tr fwd by (simp add: g_def d_def tracks_def)
  have small: "g < 0x8000"
    using g md by (simp add: word_less_nat_alt)
  have zero: "g = 0 \<longleftrightarrow> d = 0"
    using g by (simp flip: unat_eq_0)
  have gw: "(ucast g :: u32) = of_nat d"
    using g by (metis of_nat_unat)
  have est: "of_nat d * of_nat RF_LINK_FRAME_SAMPLE_COUNT = (of_nat (96 * d) :: u32)"
    by (simp add: wire_const mult.commute)
  have "unat (of_nat (96 * d) :: u32) = 96 * d"
    using md by (intro of_nat_unat_small) simp
  then have est64: "ucast (of_nat (96 * d) :: u32) = (of_nat (96 * d) :: u64)"
    by (metis of_nat_unat)
  have "n0 mod 65536 + (m - n0) = (n0 mod 65536 + (n - n0)) + (d + 1)"
    using tr md unfolding tracks_def by linarith
  then have ext: "of_nat (n0 mod 65536 + (m - n0)) =
      (ro_extended_frame_seq st + (of_nat d + 1) :: u32)"
    using tr unfolding tracks_def by (metis of_nat_add of_nat_1)
  have have_seq: "ro_have_seq st"
    using tr by (simp add: tracks_def)
  have unfolded: "(r, st') = (if d = 0 then
        (Inr RX_FRAME_STATUS_VALID, st\<lparr>ro_extended_frame_seq := ro_extended_frame_seq st + 1\<rparr>)
      else (Inr (RX_FRAME_STATUS_VALID OR
              (RX_FRAME_STATUS_GAP_BEFORE OR RX_FRAME_STATUS_INDEX_ESTIMATED)),
        st\<lparr>ro_last_missing := \<lparr>miss_first_extended_frame_seq = ro_extended_frame_seq st + 1,
             miss_frame_count = of_nat d,
             miss_first_logical_sample_index = ro_local_sample_index st,
             miss_estimated_sample_count = of_nat (96 * d)\<rparr>,
           ro_extended_frame_seq := ro_extended_frame_seq st + (of_nat d + 1),
           ro_local_sample_index := ro_local_sample_index st + of_nat (96 * d),
           ro_lost_frames := ro_lost_frames st + of_nat d,
           ro_lost_samples := ro_lost_samples st + of_nat (96 * d),
           ro_index_estimated := ro_index_estimated st + 1\<rparr>))"
    using c have_seq small
    unfolding classify_seq_def Let_def g_def [symmetric] est zero gw est64
    by (cases "d = 0") (simp_all del: of_nat_mult)
  have m1: "m = n + 1 \<longleftrightarrow> d = 0"
    using md by simp
  show "r = Inr (if m = n + 1 then RX_FRAME_STATUS_VALID else RX_FRAME_STATUS_VALID OR
      (RX_FRAME_STATUS_GAP_BEFORE OR RX_FRAME_STATUS_INDEX_ESTIMATED))"
    "ro_have_seq st'"
    "ro_extended_frame_seq st' = of_nat (n0 mod 65536 + (m - n0))"
    "ro_lost_frames st' = ro_lost_frames st + of_nat (m - n - 1)"
    "ro_lost_samples st' = ro_lost_samples st + of_nat (96 * (m - n - 1))"
    "ro_local_sample_index st' = ro_local_sample_index st + of_nat (96 * (m - n - 1))"
    using unfolded have_seq unfolding ext m1 d_def [symmetric]
    by (cases "d = 0"; simp del: of_nat_mult)+
qed

text \<open>
  A frame at most 32767 numbers behind the last one is refused: as a duplicate
  when it is that frame again, as late otherwise. Only its counter changes.
\<close>

lemma classify_backward:
  assumes tr: "tracks n0 n st" and bwd: "m \<le> n" "n < m + 32768"
  shows "classify_seq (of_nat m) st =
    (if m = n then (Inl (- EALREADY), st\<lparr>ro_duplicates := ro_duplicates st + 1\<rparr>)
     else (Inl (- ERANGE), st\<lparr>ro_late_frames := ro_late_frames st + 1\<rparr>))"
proof -
  define g where "g = (of_nat m :: u16) - (ro_last_seq st + 1)"
  have "unat g = 65535 - (n - m)"
    using seq_gap_backward [of m n] tr bwd by (simp add: g_def tracks_def)
  then have g: "\<not> g < 0x8000" "g \<noteq> 0"
    using bwd by (auto simp: word_less_nat_alt simp flip: unat_eq_0)
  have "(of_nat m = ro_last_seq st) \<longleftrightarrow> m = n"
    using seq_eq_iff_close [of m n] tr bwd by (simp add: tracks_def)
  then show ?thesis
    using tr g unfolding classify_seq_def Let_def g_def [symmetric]
    by (simp add: tracks_def)
qed

section \<open>Frames the validation lets through\<close>

definition valid_packet :: "rf_frame \<Rightarrow> u16 \<Rightarrow> bool" where
  "valid_packet frame len \<longleftrightarrow> len = 204 \<and> frame_magic frame = RF_LINK_MAGIC \<and>
     0 < unat (frame_sample_count frame) \<and>
     unat (frame_sample_count frame) \<le> RF_LINK_FRAME_SAMPLE_COUNT"

lemma process_valid:
  "valid_packet frame len \<Longrightarrow> rx_reorder_process_packet cfg (Some frame) len t False st =
     (case classify_seq (frame_seq frame) st of
        (Inl e, st') \<Rightarrow> (Inl e, st')
      | (Inr flags, st') \<Rightarrow>
          (Inr (make_record cfg frame t flags st'), accept_frame frame st'))"
  by (auto simp: rx_reorder_process_packet_def valid_packet_def wire_const)

text \<open>
  A run of the receiver over the frames that arrive: the accepted records, oldest
  first, and the final state.
\<close>

fun reorder_run ::
  "rx_config \<Rightarrow> (rf_frame \<times> u64) list \<Rightarrow> rx_reorder_state \<Rightarrow> rx_frame_record list \<times> rx_reorder_state" where
  "reorder_run cfg [] st = ([], st)"
| "reorder_run cfg ((f, t) # fs) st =
     (let (r, st') = rx_reorder_process_packet cfg (Some f) 204 t False st;
          (rs, st'') = reorder_run cfg fs st'
      in ((case r of Inr rec \<Rightarrow> rec # rs | Inl _ \<Rightarrow> rs), st''))"

text \<open>
  \<open>numbered n ms fs\<close>: the frames \<open>fs\<close> are well formed and carry the true numbers
  \<open>ms\<close>, each at most 32768 after the one before, the first after \<open>n\<close>.
\<close>

fun numbered :: "nat \<Rightarrow> nat list \<Rightarrow> (rf_frame \<times> u64) list \<Rightarrow> bool" where
  "numbered n [] fs \<longleftrightarrow> fs = []"
| "numbered n (m # ms) fs \<longleftrightarrow> (case fs of
     [] \<Rightarrow> False
   | (f, t) # fs' \<Rightarrow> valid_packet f 204 \<and> frame_seq f = of_nat m \<and> n < m \<and> m \<le> n + 32768 \<and>
       numbered m ms fs')"

lemma process_forward:
  assumes "tracks n0 n st" "n < m" "m \<le> n + 32768" "valid_packet f 204" "frame_seq f = of_nat m"
    and "rx_reorder_process_packet cfg (Some f) 204 t False st = (r, st')"
  obtains rec where "r = Inr rec" "tracks n0 m st'"
    and "rec_extended_frame_seq rec = of_nat (n0 mod 65536 + (m - n0))"
    and "rec_frame rec = f" "rec_rx_tick rec = t"
    and "rec_logical_sample_index rec = ro_local_sample_index st + of_nat (96 * (m - n - 1))"
    and "ro_local_sample_index st' =
      ro_local_sample_index st + of_nat (96 * (m - n - 1) + unat (frame_sample_count f))"
    and "ro_lost_frames st' = ro_lost_frames st + of_nat (m - n - 1)"
proof -
  obtain c st1 where c: "classify_seq (of_nat m) st = (c, st1)"
    by fastforce
  note fw = classify_forward [OF assms(1,2,3) c]
  from assms(4-6) c fw(1) show thesis
    using assms(1,2) fw(2-6)
    by (intro that [of "make_record cfg f t (projr c) st1"])
      (auto simp: process_valid tracks_def make_record_def accept_frame_def Let_def)
qed


lemma run_forward:
  assumes "tracks n0 n st" "numbered n ms fs" "reorder_run cfg fs st = (recs, st')"
  shows "map rec_frame recs = map fst fs \<and> map rec_rx_tick recs = map snd fs \<and>
    map rec_extended_frame_seq recs = map (\<lambda>m. of_nat (n0 mod 65536 + (m - n0))) ms \<and>
    tracks n0 (last (n # ms)) st' \<and> n + length ms \<le> last (n # ms) \<and>
    ro_lost_frames st' = ro_lost_frames st + of_nat (last (n # ms) - n - length ms) \<and>
    ro_local_sample_index st' = ro_local_sample_index st +
      of_nat (sum_list (map (\<lambda>(f, _). unat (frame_sample_count f)) fs) +
              96 * (last (n # ms) - n - length ms))"
  using assms
proof (induction n ms fs arbitrary: st recs rule: numbered.induct)
  case (2 n m ms fs)
  obtain f t fs' where fs: "fs = (f, t) # fs'"
    using "2.prems"(2) by (auto split: list.splits)
  obtain r st1 where p: "rx_reorder_process_packet cfg (Some f) 204 t False st = (r, st1)"
    by fastforce
  have num: "valid_packet f 204" "frame_seq f = of_nat m" "n < m" "m \<le> n + 32768" "numbered m ms fs'"
    using "2.prems"(2) by (auto simp: fs)
  obtain rec where rec: "r = Inr rec" "tracks n0 m st1"
    "rec_extended_frame_seq rec = of_nat (n0 mod 65536 + (m - n0))" "rec_frame rec = f"
    "rec_rx_tick rec = t"
    "ro_local_sample_index st1 =
      ro_local_sample_index st + of_nat (96 * (m - n - 1) + unat (frame_sample_count f))"
    "ro_lost_frames st1 = ro_lost_frames st + of_nat (m - n - 1)"
    by (rule process_forward [OF "2.prems"(1) num(3,4,1,2) p])
  obtain recs' where run: "reorder_run cfg fs' st1 = (recs', st')" "recs = rec # recs'"
    using "2.prems"(3) by (auto simp: fs p rec(1) split: prod.splits)
  note IH = "2.IH" [OF fs refl rec(2) num(5) run(1)]
  define k where "k = last (m # ms)"
  have k: "last (n # m # ms) = k" "m + length ms \<le> k"
    using IH by (simp_all add: k_def)
  define a where "a = m - n - 1"
  define b where "b = k - m - length ms"
  define c where "c = sum_list (map (\<lambda>(f, _). unat (frame_sample_count f)) fs')"
  have split: "k - n - length (m # ms) = a + b"
    using k num(3) by (simp add: a_def b_def)
  have lost: "ro_lost_frames st' = ro_lost_frames st + of_nat (k - n - length (m # ms))"
    using IH rec(7)
    unfolding k_def [symmetric] split a_def [symmetric] b_def [symmetric] by simp
  have idx: "ro_local_sample_index st' = ro_local_sample_index st +
      of_nat (sum_list (map (\<lambda>(f, _). unat (frame_sample_count f)) fs) +
              96 * (k - n - length (m # ms)))"
    using IH rec(6)
    unfolding k_def [symmetric] split a_def [symmetric] b_def [symmetric] c_def [symmetric] fs
    by (simp add: c_def [symmetric])
  show ?case
    using IH rec(3-5) k num(3) lost idx unfolding k(1) by (simp add: fs run(2) k_def)
qed (auto simp: tracks_def)

text \<open>The first frame after initialisation fixes the base of the extended sequence.\<close>

lemma process_first:
  assumes "\<not> ro_have_seq st" "valid_packet f 204" "frame_seq f = of_nat n0"
    and "rx_reorder_process_packet cfg (Some f) 204 t False st = (r, st')"
  obtains rec where "r = Inr rec" "tracks n0 n0 st'"
    and "rec_extended_frame_seq rec = of_nat (n0 mod 65536)" "rec_frame rec = f"
    and "rec_rx_tick rec = t" "rec_logical_sample_index rec = ro_local_sample_index st"
    and "ro_local_sample_index st' =
      ro_local_sample_index st + of_nat (unat (frame_sample_count f))"
    and "ro_lost_frames st' = ro_lost_frames st"
proof -
  obtain c st1 where c: "classify_seq (of_nat n0) st = (c, st1)"
    by fastforce
  note fst = classify_first [OF assms(1) c]
  from assms(2-4) c fst(1) show thesis
    using fst(2-6)
    by (intro that [of "make_record cfg f t (projr c) st1"])
      (auto simp: process_valid tracks_def make_record_def accept_frame_def Let_def)
qed

lemma run_from_init:
  assumes v: "valid_packet f 204" "frame_seq f = of_nat n0" and num: "numbered n0 ms fs"
    and run: "reorder_run cfg ((f, t) # fs) rx_reorder_init = (recs, st')"
  shows "map rec_frame recs = f # map fst fs \<and>
    map rec_extended_frame_seq recs = map (\<lambda>m. of_nat (n0 mod 65536 + (m - n0))) (n0 # ms) \<and>
    ro_lost_frames st' = of_nat (last (n0 # ms) - n0 - length ms) \<and>
    ro_local_sample_index st' =
      of_nat (sum_list (map (\<lambda>(f, _). unat (frame_sample_count f)) ((f, t) # fs)) +
              96 * (last (n0 # ms) - n0 - length ms)) \<and>
    tracks n0 (last (n0 # ms)) st'"
proof -
  obtain r st1 where p: "rx_reorder_process_packet cfg (Some f) 204 t False rx_reorder_init = (r, st1)"
    by fastforce
  obtain rec where rec: "r = Inr rec" "tracks n0 n0 st1"
    "rec_extended_frame_seq rec = of_nat (n0 mod 65536)" "rec_frame rec = f"
    "ro_local_sample_index st1 =
      ro_local_sample_index rx_reorder_init + of_nat (unat (frame_sample_count f))"
    "ro_lost_frames st1 = ro_lost_frames rx_reorder_init"
    by (rule process_first [OF _ v p]) (simp_all add: rx_reorder_init_def)
  obtain recs' where run': "reorder_run cfg fs st1 = (recs', st')" "recs = rec # recs'"
    using run by (auto simp: p rec(1) split: prod.splits)
  have z: "ro_lost_frames rx_reorder_init = 0" "ro_local_sample_index rx_reorder_init = 0"
    by (simp_all add: rx_reorder_init_def)
  from run_forward [OF rec(2) num run'(1)] rec(3-6) show ?thesis
    unfolding z run'(2) by (simp del: of_nat_diff of_nat_mult add: add.assoc)
qed

section \<open>Properties\<close>

definition sample_frame :: "u16 \<Rightarrow> rf_frame" where
  "sample_frame seq = zero_frame\<lparr>frame_magic := RF_LINK_MAGIC, frame_seq := seq,
     frame_sample_count := 96\<rparr>"

lemma valid_sample_frame [simp]: "valid_packet (sample_frame s) 204"
  "frame_seq (sample_frame s) = s"
  by (simp_all add: valid_packet_def sample_frame_def wire_const)

text \<open>
  C7. Whatever well-formed frames arrive after initialisation, as long as no gap
  exceeds 32767 frames: every frame is accepted unchanged and in order, its record
  carries the transmitter's frame number counted from the first one (the 16-bit
  number never wraps to a wrong epoch), the lost-frame counter is exactly the
  number of frames that did not arrive, and the logical index is the samples
  received plus 96 for every frame lost.
\<close>

theorem reorder_run_exact:
  assumes "valid_packet f 204" "frame_seq f = of_nat n0" "numbered n0 ms fs"
    and "reorder_run cfg ((f, t) # fs) rx_reorder_init = (recs, st')"
  shows "map rec_frame recs = f # map fst fs \<and>
    map rec_extended_frame_seq recs = map (\<lambda>m. of_nat (n0 mod 65536 + (m - n0))) (n0 # ms) \<and>
    ro_lost_frames st' = of_nat (last (n0 # ms) - n0 - length ms) \<and>
    ro_local_sample_index st' =
      of_nat (sum_list (map (\<lambda>(f, _). unat (frame_sample_count f)) ((f, t) # fs)) +
              96 * (last (n0 # ms) - n0 - length ms))"
  using run_from_init [OF assms] by blast

text \<open>The sequence wraps from 65535 to 1 here, with frames 65536 and 65538 lost.\<close>

lemma reorder_run_exact_witness:
  "let (recs, st') = reorder_run (future_conf sum16 sum32)
       [(sample_frame 65534, 10), (sample_frame 65535, 20), (sample_frame 1, 30),
        (sample_frame 3, 40)] rx_reorder_init
   in map rec_extended_frame_seq recs = [65534, 65535, 65537, 65539] \<and>
     ro_lost_frames st' = 2 \<and> ro_local_sample_index st' = 576"
proof -
  let ?fs = "[(sample_frame 65535, 20), (sample_frame 1, 30), (sample_frame 3, 40 :: u64)]"
  obtain recs st' where r: "reorder_run (future_conf sum16 sum32)
      ((sample_frame 65534, 10) # ?fs) rx_reorder_init = (recs, st')"
    by (cases "reorder_run (future_conf sum16 sum32)
      ((sample_frame 65534, 10) # ?fs) rx_reorder_init")
  have "numbered 65534 [65535, 65537, 65539] ?fs"
    by simp
  from reorder_run_exact [OF valid_sample_frame(1) _ this r] show ?thesis
    unfolding r Let_def by (simp add: sample_frame_def)
qed

text \<open>
  A frame that is at most 32767 numbers old is refused: \<open>-EALREADY\<close> for the
  last frame again, \<open>-ERANGE\<close> for an older one, and nothing but that counter
  changes, so a duplicate or late frame never disturbs the stream. In particular a
  transmitter that restarts its numbering stays refused until it passes the last
  number seen.
\<close>

theorem reorder_old_frame_refused:
  assumes "tracks n0 n st" "m \<le> n" "n < m + 32768"
    and "valid_packet f len" "frame_seq f = of_nat m"
  shows "rx_reorder_process_packet cfg (Some f) len t False st =
    (if m = n then (Inl (- EALREADY), st\<lparr>ro_duplicates := ro_duplicates st + 1\<rparr>)
     else (Inl (- ERANGE), st\<lparr>ro_late_frames := ro_late_frames st + 1\<rparr>))"
  using classify_backward [OF assms(1-3)] assms(4,5) by (simp add: process_valid)

lemma reorder_old_frame_refused_witness:
  "tracks 0 5 (rx_reorder_init\<lparr>ro_have_seq := True, ro_last_seq := 5, ro_extended_frame_seq := 5\<rparr>) \<and>
   fst (rx_reorder_process_packet (future_conf sum16 sum32) (Some (sample_frame 0)) 204 9 False
     (rx_reorder_init\<lparr>ro_have_seq := True, ro_last_seq := 5, ro_extended_frame_seq := 5\<rparr>)) =
   Inl (- ERANGE)"
proof -
  let ?st = "rx_reorder_init\<lparr>ro_have_seq := True, ro_last_seq := 5, ro_extended_frame_seq := 5\<rparr>"
  have "tracks 0 5 ?st"
    by (simp add: tracks_def)
  with reorder_old_frame_refused [OF this, of 0 "sample_frame 0" 204 "future_conf sum16 sum32" 9]
  show ?thesis by simp
qed

text \<open>
  A malformed frame (null pointer, wrong length, wrong magic, sample count
  zero or above 96) is refused with its own error before the sequence state is
  looked at, and nothing but its counter changes.
\<close>

theorem reorder_malformed_refused:
  "rx_reorder_process_packet cfg None len t null st =
     (Inl (- EINVAL), st\<lparr>ro_bad_size := ro_bad_size st + 1\<rparr>) \<and>
   (unat len \<noteq> RF_LINK_FRAME_WIRE_SIZE \<longrightarrow> rx_reorder_process_packet cfg (Some f) len t null st =
     (Inl (- EINVAL), st\<lparr>ro_bad_size := ro_bad_size st + 1\<rparr>)) \<and>
   (len = 204 \<longrightarrow> frame_magic f \<noteq> RF_LINK_MAGIC \<longrightarrow>
     rx_reorder_process_packet cfg (Some f) len t False st =
     (Inl (- EBADMSG), st\<lparr>ro_bad_magic := ro_bad_magic st + 1\<rparr>)) \<and>
   (len = 204 \<longrightarrow> frame_magic f = RF_LINK_MAGIC \<longrightarrow> unat (frame_sample_count f) \<notin> {1..96} \<longrightarrow>
     rx_reorder_process_packet cfg (Some f) len t False st =
     (Inl (- EMSGSIZE), st\<lparr>ro_bad_sample_count := ro_bad_sample_count st + 1\<rparr>))"
  by (auto simp: rx_reorder_process_packet_def wire_const unat_eq_0 Suc_le_eq unat_gt_0)

lemma reorder_malformed_refused_witness:
  "fst (rx_reorder_process_packet (future_conf sum16 sum32) (Some zero_frame) 204 0 False
     rx_reorder_init) = Inl (- EBADMSG)"
  using reorder_malformed_refused [of "future_conf sum16 sum32" 204 0 False rx_reorder_init zero_frame]
  by (simp add: zero_frame_def wire_const)

end
