(* ===== verification/Kernel.thy ===== *)
theory Kernel
  imports Prelude
begin

text \<open>
  What the firmware uses of the Zephyr kernel and is not part of the repository:
  message queues, as a record of operations on an abstract queue that the
  components take as an argument. \<open>msgq_spec\<close> states the documented behaviour of
  \<open>k_msgq_put\<close> with \<open>K_NO_WAIT\<close>, \<open>k_msgq_get\<close>, \<open>k_msgq_num_used_get\<close> and
  \<open>k_msgq_purge\<close>; theorems that need it name it as a hypothesis. \<open>list_msgq\<close> is a
  concrete queue that satisfies it.
\<close>

record ('m, 'q) msgq_ops =
  msgq_put :: "'m \<Rightarrow> 'q \<Rightarrow> int \<times> 'q"
  msgq_get :: "'q \<Rightarrow> (int + 'm) \<times> 'q"
  msgq_used :: "'q \<Rightarrow> nat"
  msgq_purge :: "'q \<Rightarrow> 'q"

definition msgq_spec :: "('m, 'q) msgq_ops \<Rightarrow> ('q \<Rightarrow> 'm list) \<Rightarrow> nat \<Rightarrow> bool" where
  "msgq_spec mq contents depth \<longleftrightarrow>
     (\<forall>m q. (if length (contents q) < depth
             then fst (msgq_put mq m q) = 0 \<and> contents (snd (msgq_put mq m q)) = contents q @ [m]
             else fst (msgq_put mq m q) \<noteq> 0 \<and> contents (snd (msgq_put mq m q)) = contents q)) \<and>
     (\<forall>q. (case contents q of
             [] \<Rightarrow> (\<exists>e. e \<noteq> 0 \<and> fst (msgq_get mq q) = Inl e) \<and> contents (snd (msgq_get mq q)) = []
           | m # ms \<Rightarrow> fst (msgq_get mq q) = Inr m \<and> contents (snd (msgq_get mq q)) = ms)) \<and>
     (\<forall>q. msgq_used mq q = length (contents q)) \<and>
     (\<forall>q. contents (msgq_purge mq q) = [])"

definition list_msgq :: "nat \<Rightarrow> ('m, 'm list) msgq_ops" where
  "list_msgq depth = \<lparr>
     msgq_put = (\<lambda>m q. if length q < depth then (0, q @ [m]) else (- ENOMSG, q)),
     msgq_get = (\<lambda>q. case q of [] \<Rightarrow> (Inl (- ENOMSG), []) | m # ms \<Rightarrow> (Inr m, ms)),
     msgq_used = length,
     msgq_purge = (\<lambda>_. [])\<rparr>"

lemma list_msgq_spec: "msgq_spec (list_msgq depth) (\<lambda>q. q) depth"
  by (auto simp: msgq_spec_def list_msgq_def split: list.split)

lemma msgq_put_ok:
  assumes "msgq_spec mq contents depth" "msgq_put mq m q = (r, q')"
  shows "r = 0 \<longleftrightarrow> length (contents q) < depth"
    and "contents q' = (if r = 0 then contents q @ [m] else contents q)"
proof -
  have "if length (contents q) < depth
        then fst (msgq_put mq m q) = 0 \<and> contents (snd (msgq_put mq m q)) = contents q @ [m]
        else fst (msgq_put mq m q) \<noteq> 0 \<and> contents (snd (msgq_put mq m q)) = contents q"
    using assms(1) unfolding msgq_spec_def by blast
  then show "r = 0 \<longleftrightarrow> length (contents q) < depth"
    "contents q' = (if r = 0 then contents q @ [m] else contents q)"
    using assms(2) by (auto split: if_splits)
qed

lemma msgq_get_ok:
  assumes "msgq_spec mq contents depth" "msgq_get mq q = (r, q')"
  shows "r = Inr m \<longleftrightarrow> (\<exists>ms. contents q = m # ms)"
    and "contents q' = tl (contents q)"
proof -
  have "case contents q of
             [] \<Rightarrow> (\<exists>e. e \<noteq> 0 \<and> fst (msgq_get mq q) = Inl e) \<and> contents (snd (msgq_get mq q)) = []
           | m # ms \<Rightarrow> fst (msgq_get mq q) = Inr m \<and> contents (snd (msgq_get mq q)) = ms"
    using assms(1) unfolding msgq_spec_def by blast
  then show "r = Inr m \<longleftrightarrow> (\<exists>ms. contents q = m # ms)" "contents q' = tl (contents q)"
    using assms(2) by (auto split: list.splits)
qed

lemma msgq_used_ok: "msgq_spec mq contents depth \<Longrightarrow> msgq_used mq q = length (contents q)"
  by (simp add: msgq_spec_def)

lemma msgq_purge_ok: "msgq_spec mq contents depth \<Longrightarrow> contents (msgq_purge mq q) = []"
  by (simp add: msgq_spec_def)

section \<open>Sequences of driver calls\<close>

text \<open>
  A function that makes driver calls one after the other and returns the first
  error: \<open>ret\<close> is what each call returns; the result is the value returned and the
  calls made.
\<close>

fun first_error :: "('c \<Rightarrow> int) \<Rightarrow> 'c list \<Rightarrow> int \<times> 'c list" where
  "first_error ret [] = (0, [])"
| "first_error ret (c # cs) =
     (if ret c \<noteq> 0 then (ret c, [c])
      else let (r, made) = first_error ret cs in (r, c # made))"

lemma first_error_ok: "fst (first_error ret cs) = 0 \<longleftrightarrow> (\<forall>c\<in>set cs. ret c = 0)"
  by (induction cs) (auto split: prod.splits)

lemma first_error_all: "fst (first_error ret cs) = 0 \<Longrightarrow> snd (first_error ret cs) = cs"
  by (induction cs) (auto split: prod.splits if_splits)

lemma first_error_prefix:
  "snd (first_error ret cs) = take (length (snd (first_error ret cs))) cs"
  by (induction cs) (auto split: prod.splits)

text \<open>
  Starting the high-frequency clock and waiting for it: \<open>polls\<close> are the pairs of
  error and result that \<open>sys_notify_fetch_result\<close> yields, one per pass of the loop;
  \<open>None\<close> means that the clock has not answered yet.
\<close>

fun clock_wait :: "(int \<Rightarrow> bool) \<Rightarrow> (int \<times> int) list \<Rightarrow> int option" where
  "clock_wait again [] = None"
| "clock_wait again ((err, res) # ps) =
     (if err = 0 \<and> res \<noteq> 0 then Some res
      else if again err then clock_wait again ps else Some 0)"

definition clocks_start_nrf :: "bool \<Rightarrow> int \<Rightarrow> (int \<times> int) list \<Rightarrow> int option" where
  "clocks_start_nrf mgr_null request polls =
     (if mgr_null then Some (- ENXIO)
      else if request < 0 then Some request
      else clock_wait (\<lambda>err. err \<noteq> 0) polls)"

definition clocks_start_nrf2 :: "bool \<Rightarrow> int \<Rightarrow> (int \<times> int) list \<Rightarrow> int option" where
  "clocks_start_nrf2 dev_null request polls =
     (if dev_null then Some (- ENODEV)
      else if request < 0 \<and> request \<noteq> - EALREADY then Some request
      else clock_wait (\<lambda>err. err = - EAGAIN) polls)"

lemma clock_wait_ready:
  "again e \<Longrightarrow> e \<noteq> 0 \<Longrightarrow> \<not> again 0 \<Longrightarrow>
    clock_wait again (replicate n (e, r) @ (0, res) # ps) = Some res"
  by (induction n) auto

end
