(* ===== verification/Esb.thy ===== *)
theory Esb
  imports Wire_Formats Kernel
begin

text \<open>
  The radio's Enhanced ShockBurst configuration, common to both
  \<open>radio_link_init\<close> functions: the fields they set and the calls they make, in
  order. The fields they leave at \<open>ESB_DEFAULT_CONFIG\<close> are not listed, or \<open>None\<close>.
\<close>

datatype esb_mode = ESB_MODE_PTX | ESB_MODE_PRX
datatype esb_bitrate = ESB_BITRATE_2MBPS | ESB_BITRATE_4MBPS

datatype esb_tx_mode = ESB_TXMODE_AUTO

record esb_config =
  esb_mode :: esb_mode
  esb_bitrate :: esb_bitrate
  esb_retransmit :: "(nat \<times> nat) option"
  esb_payload_length :: nat
  esb_selective_auto_ack :: bool
  esb_crc_16bit :: bool
  esb_protocol_dpl :: bool
  esb_tx_mode :: "esb_tx_mode option"

datatype esb_call =
  Esb_Init esb_config
| Esb_Set_Address_Length nat
| Esb_Set_Base_Address_0 "u8 list"
| Esb_Set_Base_Address_1 "u8 list"
| Esb_Set_Prefixes "u8 list"
| Esb_Set_Rf_Channel u32
| Esb_Flush_Rx
| Esb_Flush_Tx
| Esb_Start_Rx

definition base_addr_0 :: "u8 list" where "base_addr_0 = [0x52, 0x46, 0x4c, 0x31]"
definition base_addr_1 :: "u8 list" where "base_addr_1 = [0xc2, 0xc2, 0xc2, 0xc2]"
definition addr_prefix :: "u8 list" where
  "addr_prefix = [RF_LINK_PIPE_PREFIX, 0xc2, 0xc3, 0xc4, 0xc5, 0xc6, 0xc7, 0xc8]"

definition address_calls :: "esb_config \<Rightarrow> esb_call list" where
  "address_calls c = [Esb_Init c, Esb_Set_Address_Length 5, Esb_Set_Base_Address_0 base_addr_0,
     Esb_Set_Base_Address_1 base_addr_1, Esb_Set_Prefixes addr_prefix,
     Esb_Set_Rf_Channel RF_LINK_CHANNEL]"

definition rx_config_esb :: "esb_bitrate \<Rightarrow> esb_config" where
  "rx_config_esb rate = \<lparr>esb_mode = ESB_MODE_PRX, esb_bitrate = rate, esb_retransmit = None,
     esb_payload_length = RF_LINK_FRAME_WIRE_SIZE, esb_selective_auto_ack = True,
     esb_crc_16bit = True, esb_protocol_dpl = True, esb_tx_mode = None\<rparr>"

definition tx_config_esb :: "esb_bitrate \<Rightarrow> esb_config" where
  "tx_config_esb rate = \<lparr>esb_mode = ESB_MODE_PTX, esb_bitrate = rate, esb_retransmit = Some (600, 0),
     esb_payload_length = RF_LINK_FRAME_WIRE_SIZE, esb_selective_auto_ack = True,
     esb_crc_16bit = True, esb_protocol_dpl = True, esb_tx_mode = Some ESB_TXMODE_AUTO\<rparr>"

text \<open>\<open>clocks\<close> is what \<open>clocks_start\<close> returned.\<close>

definition rx_radio_link_init ::
  "int \<Rightarrow> esb_bitrate \<Rightarrow> (esb_call \<Rightarrow> int) \<Rightarrow> int \<times> esb_call list" where
  "rx_radio_link_init clocks rate ret =
     (if clocks \<noteq> 0 then (clocks, [])
      else first_error ret (address_calls (rx_config_esb rate) @ [Esb_Flush_Rx, Esb_Start_Rx]))"

definition tx_radio_link_init ::
  "int \<Rightarrow> esb_bitrate \<Rightarrow> (esb_call \<Rightarrow> int) \<Rightarrow> int \<times> esb_call list" where
  "tx_radio_link_init clocks rate ret =
     (if clocks \<noteq> 0 then (clocks, [])
      else first_error ret (address_calls (tx_config_esb rate) @ [Esb_Flush_Tx]))"

text \<open>The settings that must be the same at both ends for a frame to be received.\<close>

fun air_setting :: "esb_call \<Rightarrow> esb_call option" where
  "air_setting (Esb_Init c) =
     Some (Esb_Init (c\<lparr>esb_mode := ESB_MODE_PTX, esb_retransmit := None, esb_tx_mode := None\<rparr>))"
| "air_setting Esb_Flush_Rx = None"
| "air_setting Esb_Flush_Tx = None"
| "air_setting Esb_Start_Rx = None"
| "air_setting c = Some c"

lemma address_calls_agree:
  "List.map_filter air_setting (address_calls (rx_config_esb rate) @ [Esb_Flush_Rx, Esb_Start_Rx]) =
   List.map_filter air_setting (address_calls (tx_config_esb rate) @ [Esb_Flush_Tx])"
  by (simp add: address_calls_def rx_config_esb_def tx_config_esb_def List.map_filter_def)

section \<open>Properties\<close>

text \<open>
  When both radio initialisations succeed with the same bit rate, the
  transmitter and the receiver have made the same settings of everything that
  matters on the air: protocol, CRC, payload length, addresses, prefixes and
  channel.
\<close>

theorem radio_settings_agree:
  assumes "rx_radio_link_init 0 rate rx_ret = (0, rx_calls)"
    and "tx_radio_link_init 0 rate tx_ret = (0, tx_calls)"
  shows "List.map_filter air_setting rx_calls = List.map_filter air_setting tx_calls \<and>
    Esb_Start_Rx \<in> set rx_calls"
proof -
  have rx: "first_error rx_ret (address_calls (rx_config_esb rate) @ [Esb_Flush_Rx, Esb_Start_Rx]) =
      (0, rx_calls)"
    and tx: "first_error tx_ret (address_calls (tx_config_esb rate) @ [Esb_Flush_Tx]) = (0, tx_calls)"
    using assms by (simp_all add: rx_radio_link_init_def tx_radio_link_init_def)
  have "rx_calls = address_calls (rx_config_esb rate) @ [Esb_Flush_Rx, Esb_Start_Rx]"
    using first_error_all [of rx_ret "address_calls (rx_config_esb rate) @ [Esb_Flush_Rx, Esb_Start_Rx]"]
      rx by simp
  moreover have "tx_calls = address_calls (tx_config_esb rate) @ [Esb_Flush_Tx]"
    using first_error_all [of tx_ret "address_calls (tx_config_esb rate) @ [Esb_Flush_Tx]"] tx by simp
  ultimately show ?thesis
    using address_calls_agree [of rate] by simp
qed

lemma radio_settings_agree_witness:
  "List.map_filter air_setting (snd (rx_radio_link_init 0 ESB_BITRATE_4MBPS (\<lambda>_. 0))) =
   List.map_filter air_setting (snd (tx_radio_link_init 0 ESB_BITRATE_4MBPS (\<lambda>_. 0)))"
proof -
  obtain a b where "rx_radio_link_init 0 ESB_BITRATE_4MBPS (\<lambda>_. 0) = (0, a)"
    "tx_radio_link_init 0 ESB_BITRATE_4MBPS (\<lambda>_. 0) = (0, b)"
    by (simp add: rx_radio_link_init_def tx_radio_link_init_def address_calls_def)
  with radio_settings_agree [OF this] show ?thesis by simp
qed

end
