(* ===== verification/Timebase.thy ===== *)
theory Timebase
  imports Rx_Config
begin

text \<open>
  \<open>timebase.c\<close>: the receiver's 64-bit tick. With \<open>CONFIG_RF_LINK_SYNC_HW_CAPTURE\<close>
  it extends a free-running 32-bit 1 MHz timer; otherwise it is the kernel's cycle
  counter. The values the timer hardware captures and the results of the driver
  calls are inputs; everything the file computes from them is here.
\<close>

record timebase_state =
  last_timer_raw :: u32
  timer_epoch :: u64
  last_sync_capture :: u64

definition extend_timer_value :: "u32 \<Rightarrow> timebase_state \<Rightarrow> u64 \<times> timebase_state" where
  [op_defs]: "extend_timer_value raw tb =
     (let epoch = (if raw < last_timer_raw tb \<and> last_timer_raw tb - raw > push_bit 31 1
                   then timer_epoch tb + push_bit 32 1 else timer_epoch tb)
      in (epoch OR ucast raw, tb\<lparr>timer_epoch := epoch, last_timer_raw := raw\<rparr>))"

text \<open>What the driver calls of \<open>hardware_timebase_init\<close> answer, and the calls that
  follow when all succeed.\<close>

record timebase_drivers =
  timer_init_ok :: bool
  gpiote_ready :: bool
  gpiote_channel_ok :: bool
  gpiote_input_ok :: bool
  gppi_channel_ok :: bool

datatype timebase_action =
  Gppi_Endpoints_Setup | Gppi_Channels_Enable | Timer_Enable | Gpiote_Trigger_Enable

definition hardware_timebase_init :: "timebase_drivers \<Rightarrow> int \<times> timebase_action list" where
  [op_defs]: "hardware_timebase_init d =
     (if \<not> timer_init_ok d then (- EIO, [])
      else if \<not> gpiote_ready d then (- ENODEV, [])
      else if \<not> gpiote_channel_ok d then (- ENOMEM, [])
      else if \<not> gpiote_input_ok d then (- EIO, [])
      else if \<not> gppi_channel_ok d then (- ENOMEM, [])
      else (0, [Gppi_Endpoints_Setup, Gppi_Channels_Enable, Timer_Enable, Gpiote_Trigger_Enable]))"

definition timebase_init ::
  "rx_config \<Rightarrow> timebase_drivers \<Rightarrow> timebase_state \<Rightarrow> (int \<times> timebase_action list) \<times> timebase_state" where
  [op_defs]: "timebase_init cfg d tb =
     (let tb1 = tb\<lparr>last_sync_capture := 0\<rparr>
      in if RF_LINK_SYNC_HW_CAPTURE cfg
         then (hardware_timebase_init d, tb1\<lparr>last_timer_raw := 0, timer_epoch := 0\<rparr>)
         else ((0, []), tb1))"

text \<open>\<open>raw\<close> is what capturing channel 0 returned, \<open>cycles\<close> is \<open>k_cycle_get_64()\<close>.\<close>

definition timebase_now_ticks ::
  "rx_config \<Rightarrow> u32 \<Rightarrow> u64 \<Rightarrow> timebase_state \<Rightarrow> u64 \<times> timebase_state" where
  [op_defs]: "timebase_now_ticks cfg raw cycles tb =
     (if RF_LINK_SYNC_HW_CAPTURE cfg then extend_timer_value raw tb else (cycles, tb))"

definition timebase_frequency_hz :: "rx_config \<Rightarrow> u32" where
  [op_defs]: "timebase_frequency_hz cfg =
     (if RF_LINK_SYNC_HW_CAPTURE cfg then 1000000 else hw_cycles_per_sec cfg)"

definition timebase_on_sync_capture :: "u64 \<Rightarrow> timebase_state \<Rightarrow> timebase_state" where
  [op_defs]: "timebase_on_sync_capture t tb = tb\<lparr>last_sync_capture := t\<rparr>"

definition timebase_last_sync_capture :: "timebase_state \<Rightarrow> u64" where
  [op_defs]: "timebase_last_sync_capture tb = last_sync_capture tb"

section \<open>The clock contract\<close>

text \<open>
  A clock that is read through \<open>read\<close>: \<open>at_time T s\<close> means that the last read
  happened at true time \<open>T\<close>, and \<open>raw T\<close> is what the hardware shows then. Reads
  less than \<open>span\<close> apart return the true time.
\<close>

text \<open>The values that reads at the true times \<open>ts\<close> return, and the state after them.\<close>

fun clock_reads ::
  "('r \<Rightarrow> 's \<Rightarrow> u64 \<times> 's) \<Rightarrow> (nat \<Rightarrow> 'r) \<Rightarrow> nat list \<Rightarrow> 's \<Rightarrow> u64 list \<times> 's" where
  "clock_reads read raw [] s = ([], s)"
| "clock_reads read raw (T # ts) s =
     (let (v, s') = read (raw T) s; (vs, s'') = clock_reads read raw ts s' in (v # vs, s''))"

fun steps_within :: "nat \<Rightarrow> nat \<Rightarrow> nat list \<Rightarrow> bool" where
  "steps_within span T [] \<longleftrightarrow> T < 2 ^ 64"
| "steps_within span T (T' # ts) \<longleftrightarrow> T \<le> T' \<and> T' < T + span \<and> steps_within span T' ts"

lemma steps_within_bound: "steps_within span T ts \<Longrightarrow> T < 2 ^ 64"
  by (induction ts arbitrary: T) (auto dest: le_less_trans)

locale tick_clock =
  fixes read :: "'r \<Rightarrow> 's \<Rightarrow> u64 \<times> 's"
    and raw :: "nat \<Rightarrow> 'r"
    and at_time :: "nat \<Rightarrow> 's \<Rightarrow> bool"
    and span :: nat
  assumes read_value: "at_time T s \<Longrightarrow> T \<le> T' \<Longrightarrow> T' < T + span \<Longrightarrow> T' < 2 ^ 64 \<Longrightarrow>
      fst (read (raw T') s) = of_nat T'"
    and read_state: "at_time T s \<Longrightarrow> T \<le> T' \<Longrightarrow> T' < T + span \<Longrightarrow> T' < 2 ^ 64 \<Longrightarrow>
      at_time T' (snd (read (raw T') s))"
begin

lemma two_reads:
  assumes "at_time T0 s" "T0 \<le> T" "T < T0 + span" "T \<le> T'" "T' < T + span" "T' < 2 ^ 64"
    and "read (raw T) s = (v, s1)" "read (raw T') s1 = (v', s2)"
  shows "unat (v' - v) = T' - T" "v \<le> v'" "at_time T' s2"
proof -
  have v: "v = of_nat T" "at_time T s1"
    using read_value [OF assms(1-3)] read_state [OF assms(1-3)] assms(4,6,7) by simp_all
  have v': "v' = of_nat T'" "at_time T' s2"
    using read_value [OF v(2) assms(4,5,6)] read_state [OF v(2) assms(4,5,6)] assms(8) by simp_all
  show "at_time T' s2" by (rule v'(2))
  have u: "unat v = T" "unat v' = T'"
    using v(1) v'(1) assms(4,6) by simp_all
  then show "v \<le> v'"
    using assms(4) by (simp add: word_le_nat_alt)
  show "unat (v' - v) = T' - T"
    using u assms(4) by (simp add: unat_sub_le)
qed

lemma reads_exact:
  "at_time T s \<Longrightarrow> steps_within span T ts \<Longrightarrow> clock_reads read raw ts s = (vs, s') \<Longrightarrow>
    vs = map of_nat ts \<and> at_time (last (T # ts)) s'"
proof (induction ts arbitrary: T s vs)
  case (Cons T' ts)
  have b: "T \<le> T'" "T' < T + span" "T' < 2 ^ 64"
    using Cons.prems(2) steps_within_bound [of span T' ts] by auto
  obtain v s1 where r: "read (raw T') s = (v, s1)"
    by fastforce
  obtain vs' where vs': "clock_reads read raw ts s1 = (vs', s')" "vs = v # vs'"
    using Cons.prems(3) by (auto simp: r split: prod.splits)
  have "v = of_nat T'" "at_time T' s1"
    using read_value [OF Cons.prems(1) b] read_state [OF Cons.prems(1) b] r by simp_all
  moreover have "steps_within span T' ts"
    using Cons.prems(2) by simp
  ultimately show ?case
    using Cons.IH [OF _ _ vs'(1), of T'] vs'(2) by simp
qed simp

end

section \<open>The extended timer is such a clock\<close>

definition timer_at :: "nat \<Rightarrow> timebase_state \<Rightarrow> bool" where
  "timer_at T tb \<longleftrightarrow> last_timer_raw tb = of_nat T \<and>
     timer_epoch tb = of_nat (T div 2 ^ 32 * 2 ^ 32)"

lemma epoch_or_raw:
  assumes "T < 2 ^ 64"
  shows "(of_nat (T div 2 ^ 32 * 2 ^ 32) :: u64) OR ucast (of_nat T :: u32) = of_nat T"
proof -
  have raw: "ucast (of_nat T :: u32) = (take_bit 32 (of_nat T) :: u64)"
    by (simp add: unsigned_of_nat take_bit_of_nat)
  have high: "(of_nat (T div 2 ^ 32 * 2 ^ 32) :: u64) = push_bit 32 (drop_bit 32 (of_nat T))"
  proof -
    have "T div 2 ^ 32 * 2 ^ 32 = push_bit 32 (drop_bit 32 T)"
      by (simp add: push_bit_eq_mult drop_bit_eq_div)
    moreover have "(of_nat (drop_bit 32 T) :: u64) = drop_bit 32 (of_nat T)"
      using assms by (intro word_unat_eq_iff [THEN iffD2])
        (simp add: unat_drop_bit_eq drop_bit_eq_div unat_of_nat unat_div)
    ultimately show ?thesis
      by (simp add: push_bit_of_nat [symmetric])
  qed
  show ?thesis
    unfolding raw high
    by (rule bit_word_eqI) (auto simp: bit_or_iff bit_push_bit_iff bit_drop_bit_eq bit_take_bit_iff)
qed

lemma timer_wraps:
  assumes "T \<le> T'" "T' < T + 2 ^ 31"
  shows "((of_nat T' :: u32) < of_nat T \<and> (of_nat T :: u32) - of_nat T' > push_bit 31 1)
    \<longleftrightarrow> T' div 2 ^ 32 = T div 2 ^ 32 + 1"
    and "T' div 2 ^ 32 = T div 2 ^ 32 + 1 \<or> T' div 2 ^ 32 = T div 2 ^ 32"
proof -
  define q r where "q = T div 2 ^ 32" and "r = T mod 2 ^ 32"
  define q' r' where "q' = T' div 2 ^ 32" and "r' = T' mod 2 ^ 32"
  have T: "T = q * 2 ^ 32 + r" "r < 2 ^ 32" and T': "T' = q' * 2 ^ 32 + r'" "r' < 2 ^ 32"
    by (simp_all add: q_def r_def q'_def r'_def)
  have u: "unat (of_nat T :: u32) = r" "unat (of_nat T' :: u32) = r'"
    by (simp_all add: unat_of_nat r_def r'_def)
  show two: "T' div 2 ^ 32 = T div 2 ^ 32 + 1 \<or> T' div 2 ^ 32 = T div 2 ^ 32"
  proof -
    have "T div 2 ^ 32 \<le> T' div 2 ^ 32" "T' div 2 ^ 32 \<le> (T + 2 ^ 32) div 2 ^ 32"
      using assms by (intro div_le_mono; simp)+
    then show ?thesis
      by simp linarith
  qed
  have "unat ((of_nat T :: u32) - of_nat T') = r - r'" if "r' \<le> r"
    using that u by (simp add: unat_sub_le)
  then show "((of_nat T' :: u32) < of_nat T \<and> (of_nat T :: u32) - of_nat T' > push_bit 31 1)
      \<longleftrightarrow> T' div 2 ^ 32 = T div 2 ^ 32 + 1"
    using u assms T T' two unfolding q_def [symmetric] q'_def [symmetric]
    by (auto simp: word_less_nat_alt)
qed

lemma extend_exact:
  assumes "timer_at T tb" "T \<le> T'" "T' < T + 2 ^ 31" "T' < 2 ^ 64"
  shows "fst (extend_timer_value (of_nat T') tb) = of_nat T'"
    and "timer_at T' (snd (extend_timer_value (of_nat T') tb))"
proof -
  have "(if (of_nat T' :: u32) < last_timer_raw tb \<and> last_timer_raw tb - of_nat T' > push_bit 31 1
      then timer_epoch tb + push_bit 32 1 else timer_epoch tb) = of_nat (T' div 2 ^ 32 * 2 ^ 32)"
    using assms(1) timer_wraps [OF assms(2,3)]
    by (auto simp: timer_at_def algebra_simps)
  then show "fst (extend_timer_value (of_nat T') tb) = of_nat T'"
    "timer_at T' (snd (extend_timer_value (of_nat T') tb))"
    using epoch_or_raw [OF assms(4)]
    by (simp_all add: extend_timer_value_def Let_def timer_at_def)
qed

interpretation hw: tick_clock extend_timer_value of_nat timer_at "2 ^ 31"
  by unfold_locales (auto intro: extend_exact)

section \<open>Properties\<close>

definition zero_timebase :: timebase_state where
  "zero_timebase = \<lparr>last_timer_raw = 0, timer_epoch = 0, last_sync_capture = 0\<rparr>"

text \<open>
  C36. With the hardware timer, reads that follow each other in time, less than
  2^31 microseconds (about 35 minutes) apart, return the true 64-bit time since
  initialisation, across any number of wraps of the 32-bit timer.
\<close>

theorem timebase_reads_exact:
  assumes "RF_LINK_SYNC_HW_CAPTURE cfg" "steps_within (2 ^ 31) 0 ts"
    and "clock_reads (\<lambda>raw. timebase_now_ticks cfg raw cycles) of_nat ts
      (snd (timebase_init cfg d tb)) = (vs, tb')"
  shows "vs = map of_nat ts"
proof -
  have "timer_at 0 (snd (timebase_init cfg d tb))"
    using assms(1) by (simp add: timebase_init_def timer_at_def Let_def)
  moreover have "(\<lambda>raw. timebase_now_ticks cfg raw cycles) = extend_timer_value"
    using assms(1) by (simp add: fun_eq_iff timebase_now_ticks_def)
  ultimately show ?thesis
    using hw.reads_exact [OF _ assms(2)] assms(3) by fastforce
qed

text \<open>Three reads, the last after the 32-bit timer wrapped.\<close>

lemma timebase_reads_exact_witness:
  "let d = \<lparr>timer_init_ok = True, gpiote_ready = True, gpiote_channel_ok = True,
       gpiote_input_ok = True, gppi_channel_ok = True\<rparr>
   in fst (clock_reads (\<lambda>raw. timebase_now_ticks (ch0_spis_conf sum16 sum32) raw 0) of_nat
     [2000000000, 4000000000, 5000000000]
     (snd (timebase_init (ch0_spis_conf sum16 sum32) d zero_timebase))) =
   [2000000000, 4000000000, 5000000000]"
  unfolding Let_def
  using timebase_reads_exact [of "ch0_spis_conf sum16 sum32" "[2000000000, 4000000000, 5000000000]",
      OF _ _ surjective_pairing]
  by (simp add: ch0_spis_conf_def)

text \<open>
  Reads handed to \<open>extend_timer_value\<close> out of order across a wrap are not
  recovered: when a capture taken just before the 32-bit timer wraps is extended
  after a reading taken just after it, its value is 2^32 ticks too large, and so
  is every later reading. The GPIOTE handler reads a latched capture and a thread
  reads the timer before it takes the lock, so both orders occur.
\<close>

theorem timebase_stale_capture_wrong:
  assumes "timer_at (2 ^ 32 + a) tb" "a < b" "b \<le> 2 ^ 30" "c < 2 ^ 30"
    and "extend_timer_value (of_nat (2 ^ 32 - b)) tb = (captured, tb1)"
    and "extend_timer_value (of_nat (2 ^ 32 + c)) tb1 = (later, tb2)"
  shows "captured = of_nat (2 ^ 32 - b + 2 ^ 32) \<and> later = of_nat (2 ^ 32 + c + 2 ^ 32)"
proof -
  define T where "T = 2 ^ 33 - b"
  have wrap: "(of_nat (n + 2 ^ 32) :: u32) = of_nat n" for n
    unfolding word_unat_eq_iff unat_of_nat by simp
  have "T = (2 ^ 32 - b) + 2 ^ 32" "2 ^ 33 + c = (2 ^ 32 + c) + 2 ^ 32"
    using assms(2,3) by (simp_all add: T_def)
  then have raw: "(of_nat (2 ^ 32 - b) :: u32) = of_nat T"
    "(of_nat (2 ^ 32 + c) :: u32) = of_nat (2 ^ 33 + c)"
    by (simp_all only: wrap)
  have "unat (of_nat T :: u32) = 2 ^ 32 - b"
    using assms(2,3) unfolding raw(1) [symmetric] by (intro of_nat_unat_small) simp
  moreover have "last_timer_raw tb = of_nat (a + 2 ^ 32)"
    using assms(1) by (simp add: timer_at_def add.commute)
  then have "unat (last_timer_raw tb) = a"
    unfolding wrap using assms(2,3) by simp
  ultimately have keep: "\<not> (of_nat T :: u32) < last_timer_raw tb"
    using assms(2,3) by (simp add: word_less_nat_alt)
  have "T div 2 ^ 32 = 1" "(2 ^ 32 + a) div 2 ^ 32 = 1"
    using assms(2,3) by (simp_all add: T_def div_nat_eqI)
  then have ep: "timer_epoch tb = of_nat (T div 2 ^ 32 * 2 ^ 32)"
    using assms(1) by (simp add: timer_at_def)
  have "T < 2 ^ 64"
    by (simp add: T_def)
  then have first: "captured = of_nat T" "timer_at T tb1"
    using assms(5) keep epoch_or_raw [of T] ep unfolding raw(1)
    by (auto simp: extend_timer_value_def Let_def timer_at_def)
  have "later = of_nat (2 ^ 33 + c)"
    using extend_exact(1) [OF first(2), of "2 ^ 33 + c"] assms(2-4,6) unfolding raw(2)
    by (simp add: T_def)
  then show ?thesis
    using first(1) assms(2,3) by (simp add: T_def)
qed

lemma timebase_stale_capture_wrong_witness:
  "timer_at (2 ^ 32 + 5) \<lparr>last_timer_raw = 5, timer_epoch = 2 ^ 32, last_sync_capture = 0\<rparr> \<and>
   fst (extend_timer_value (of_nat (2 ^ 32 - 10))
     \<lparr>last_timer_raw = 5, timer_epoch = 2 ^ 32, last_sync_capture = 0\<rparr>) = of_nat (2 ^ 33 - 10)"
proof -
  have t: "timer_at (2 ^ 32 + 5) \<lparr>last_timer_raw = 5, timer_epoch = 2 ^ 32, last_sync_capture = 0\<rparr>"
    by (simp add: timer_at_def)
  show ?thesis
    using t timebase_stale_capture_wrong [OF t _ _ _ surjective_pairing surjective_pairing, of 10 7]
    by simp
qed

end
