(* ===== verification/Rx_Radio.thy ===== *)
theory Rx_Radio
  imports Esb Timebase
begin

text \<open>
  \<open>rf_link_rx/src/radio_link.c\<close>: the radio event handler that timestamps received
  payloads and puts them on the packet queue, and its statistics. The queue is the
  kernel's, with its operations as an argument; the payloads that
  \<open>esb_read_rx_payload\<close> delivers until it fails are a list.
\<close>

record radio_link_rx_packet =
  pkt_rx_tick :: u64
  pkt_length :: u16
  pkt_reserved :: u16
  pkt_frame :: rf_frame

record radio_link_stats =
  rls_rx_events :: u32
  rls_rx_frames :: u32
  rls_rx_read_errors :: u32
  rls_rx_queue_overflow :: u32
  rls_rx_queue_high_water :: u32

record 'q rx_radio =
  rr_stats :: radio_link_stats
  rr_queue :: 'q
  rr_timebase :: timebase_state

record esb_payload =
  pl_length :: u8
  pl_data :: "u8 list"

datatype esb_evt_id = ESB_EVENT_TX_SUCCESS | ESB_EVENT_TX_FAILED | ESB_EVENT_RX_RECEIVED | Esb_Event_Other

text \<open>
  The compare-and-swap loop of \<open>update_queue_high_water\<close>: it ends with the larger of
  the two values stored.
\<close>

definition update_queue_high_water ::
  "(radio_link_rx_packet, 'q) msgq_ops \<Rightarrow> 'q rx_radio \<Rightarrow> 'q rx_radio" where
  "update_queue_high_water mq s =
     (let used = of_nat (msgq_used mq (rr_queue s)); st = rr_stats s
      in if used > rls_rx_queue_high_water st
         then s\<lparr>rr_stats := st\<lparr>rls_rx_queue_high_water := used\<rparr>\<rparr> else s)"

text \<open>The frame after \<open>memset\<close> and \<open>memcpy\<close> of at most 204 bytes of the payload.\<close>

definition payload_frame :: "esb_payload \<Rightarrow> rf_frame" where
  "payload_frame p =
     (let n = min (unat (pl_length p)) RF_LINK_FRAME_WIRE_SIZE
      in rf_frame_of_bytes (take n (pl_data p) @ replicate (RF_LINK_FRAME_WIRE_SIZE - n) 0))"

definition receive_payload ::
  "rx_config \<Rightarrow> (radio_link_rx_packet, 'q) msgq_ops \<Rightarrow> u32 \<Rightarrow> u64 \<Rightarrow> esb_payload \<Rightarrow> 'q rx_radio \<Rightarrow>
   'q rx_radio" where
  "receive_payload cfg mq raw cycles p s =
     (let (tick, tb) = timebase_now_ticks cfg raw cycles (rr_timebase s);
          packet = \<lparr>pkt_rx_tick = tick, pkt_length = ucast (pl_length p), pkt_reserved = 0,
                    pkt_frame = payload_frame p\<rparr>;
          (ret, q) = msgq_put mq packet (rr_queue s);
          s1 = s\<lparr>rr_timebase := tb, rr_queue := q\<rparr>;
          s2 = (if ret \<noteq> 0
                then s1\<lparr>rr_stats := (rr_stats s1)\<lparr>rls_rx_queue_overflow :=
                          rls_rx_queue_overflow (rr_stats s1) + 1\<rparr>\<rparr>
                else update_queue_high_water mq s1)
      in s2\<lparr>rr_stats := (rr_stats s2)\<lparr>rls_rx_frames := rls_rx_frames (rr_stats s2) + 1\<rparr>\<rparr>)"

text \<open>One payload after the other, with the clock inputs of each.\<close>

fun receive_all ::
  "rx_config \<Rightarrow> (radio_link_rx_packet, 'q) msgq_ops \<Rightarrow> (esb_payload \<times> u32 \<times> u64) list \<Rightarrow> 'q rx_radio \<Rightarrow>
   'q rx_radio" where
  "receive_all cfg mq [] s = s"
| "receive_all cfg mq ((p, raw, cyc) # ps) s =
     receive_all cfg mq ps (receive_payload cfg mq raw cyc p s)"

definition radio_event_handler ::
  "rx_config \<Rightarrow> (radio_link_rx_packet, 'q) msgq_ops \<Rightarrow> esb_evt_id \<Rightarrow>
   (esb_payload \<times> u32 \<times> u64) list \<Rightarrow> 'q rx_radio \<Rightarrow> 'q rx_radio" where
  "radio_event_handler cfg mq ev payloads s =
     (case ev of
        ESB_EVENT_TX_SUCCESS \<Rightarrow> s
      | ESB_EVENT_TX_FAILED \<Rightarrow> s
      | ESB_EVENT_RX_RECEIVED \<Rightarrow>
          receive_all cfg mq payloads
            (s\<lparr>rr_stats := (rr_stats s)\<lparr>rls_rx_events := rls_rx_events (rr_stats s) + 1\<rparr>\<rparr>)
      | Esb_Event_Other \<Rightarrow>
          s\<lparr>rr_stats := (rr_stats s)\<lparr>rls_rx_read_errors := rls_rx_read_errors (rr_stats s) + 1\<rparr>\<rparr>)"

definition radio_link_receive ::
  "(radio_link_rx_packet, 'q) msgq_ops \<Rightarrow> bool \<Rightarrow> 'q rx_radio \<Rightarrow>
   (int + radio_link_rx_packet) \<times> 'q rx_radio" where
  "radio_link_receive mq packet_null s =
     (if packet_null then (Inl (- EINVAL), s)
      else let (r, q) = msgq_get mq (rr_queue s) in (r, s\<lparr>rr_queue := q\<rparr>))"

definition radio_link_stats_get :: "'q rx_radio \<Rightarrow> radio_link_stats" where
  "radio_link_stats_get s = rr_stats s"

lemma receive_payload_effect:
  assumes mq: "msgq_spec mq contents depth"
  shows "\<exists>tick. contents (rr_queue (receive_payload cfg mq raw cyc p s)) =
      contents (rr_queue s) @ (if length (contents (rr_queue s)) < depth
        then [\<lparr>pkt_rx_tick = tick, pkt_length = ucast (pl_length p), pkt_reserved = 0,
               pkt_frame = payload_frame p\<rparr>] else [])"
    and "rls_rx_frames (rr_stats (receive_payload cfg mq raw cyc p s)) =
      rls_rx_frames (rr_stats s) + 1"
    and "rls_rx_queue_overflow (rr_stats (receive_payload cfg mq raw cyc p s)) =
      rls_rx_queue_overflow (rr_stats s) + (if length (contents (rr_queue s)) < depth then 0 else 1)"
proof -
  obtain tick tb where t: "timebase_now_ticks cfg raw cyc (rr_timebase s) = (tick, tb)"
    by (cases "timebase_now_ticks cfg raw cyc (rr_timebase s)")
  define pkt where "pkt = \<lparr>pkt_rx_tick = tick, pkt_length = ucast (pl_length p), pkt_reserved = 0,
               pkt_frame = payload_frame p\<rparr>"
  obtain ret q where put: "msgq_put mq pkt (rr_queue s) = (ret, q)"
    by (cases "msgq_put mq pkt (rr_queue s)")
  note ok = msgq_put_ok [OF mq put]
  have hw: "rr_queue (update_queue_high_water mq s) = rr_queue s"
    "rls_rx_frames (rr_stats (update_queue_high_water mq s)) = rls_rx_frames (rr_stats s)"
    "rls_rx_queue_overflow (rr_stats (update_queue_high_water mq s)) = rls_rx_queue_overflow (rr_stats s)"
    for s
    by (simp_all add: update_queue_high_water_def Let_def)
  show "\<exists>tick. contents (rr_queue (receive_payload cfg mq raw cyc p s)) =
      contents (rr_queue s) @ (if length (contents (rr_queue s)) < depth
        then [\<lparr>pkt_rx_tick = tick, pkt_length = ucast (pl_length p), pkt_reserved = 0,
               pkt_frame = payload_frame p\<rparr>] else [])"
    using t put [unfolded pkt_def] ok pkt_def
    by (intro exI [of _ tick]) (auto simp: receive_payload_def Let_def hw)
  show "rls_rx_frames (rr_stats (receive_payload cfg mq raw cyc p s)) =
      rls_rx_frames (rr_stats s) + 1"
    "rls_rx_queue_overflow (rr_stats (receive_payload cfg mq raw cyc p s)) =
      rls_rx_queue_overflow (rr_stats s) + (if length (contents (rr_queue s)) < depth then 0 else 1)"
    using t put [unfolded pkt_def] ok
    by (auto simp: receive_payload_def Let_def hw)
qed

lemma payload_frame_exact:
  "pl_length p = 204 \<Longrightarrow> length (pl_data p) \<ge> 204 \<Longrightarrow> rf_frame_bytes (payload_frame p) = take 204 (pl_data p)"
  using rf_frame_wire_aux [of "take 204 (pl_data p)"]
  by (simp add: payload_frame_def Let_def RF_LINK_FRAME_WIRE_SIZE_def)

lemma receive_all_accounts:
  assumes mq: "msgq_spec mq contents depth"
  shows "length (contents (rr_queue s)) \<le> depth \<Longrightarrow>
    (\<exists>pkts. contents (rr_queue (receive_all cfg mq ps s)) = contents (rr_queue s) @ pkts \<and>
      map pkt_frame pkts = map (payload_frame \<circ> fst)
        (take (min (length ps) (depth - length (contents (rr_queue s)))) ps) \<and>
      map pkt_length pkts = map (ucast \<circ> pl_length \<circ> fst)
        (take (min (length ps) (depth - length (contents (rr_queue s)))) ps)) \<and>
    rls_rx_frames (rr_stats (receive_all cfg mq ps s)) = rls_rx_frames (rr_stats s) + of_nat (length ps) \<and>
    rls_rx_queue_overflow (rr_stats (receive_all cfg mq ps s)) = rls_rx_queue_overflow (rr_stats s) +
      of_nat (length ps - min (length ps) (depth - length (contents (rr_queue s))))"
proof (induction ps arbitrary: s)
  case (Cons x ps)
  obtain p raw cyc where x: "x = (p, raw, cyc)" by (cases x)
  define s1 where "s1 = receive_payload cfg mq raw cyc p s"
  note eff = receive_payload_effect [OF mq, of cfg raw cyc p s, folded s1_def]
  obtain tick where c1: "contents (rr_queue s1) = contents (rr_queue s) @
      (if length (contents (rr_queue s)) < depth
       then [\<lparr>pkt_rx_tick = tick, pkt_length = ucast (pl_length p), pkt_reserved = 0,
              pkt_frame = payload_frame p\<rparr>] else [])"
    using eff(1) by blast
  then have le: "length (contents (rr_queue s1)) \<le> depth"
    using Cons.prems by simp
  note IH = Cons.IH [OF le]
  have run: "receive_all cfg mq (x # ps) s = receive_all cfg mq ps s1"
    by (simp add: x s1_def)
  show ?case
  proof (cases "length (contents (rr_queue s)) < depth")
    case True
    have m: "min (length (x # ps)) (depth - length (contents (rr_queue s))) =
        Suc (min (length ps) (depth - length (contents (rr_queue s1))))"
      using True c1 by simp
    show ?thesis
      using IH True c1 eff(2,3) unfolding run m by (auto simp: x)
  next
    case False
    have m: "min (length (x # ps)) (depth - length (contents (rr_queue s))) = 0"
      "min (length ps) (depth - length (contents (rr_queue s1))) = 0"
      using False c1 by simp_all
    show ?thesis
      using IH False c1 eff(2,3) unfolding run m by (auto simp: x)
  qed
qed simp

section \<open>Properties\<close>

text \<open>
  Every payload the radio delivers is either queued, timestamped and unchanged,
  in the order of arrival, or counted as an overflow: a receive event with \<open>n\<close>
  payloads queues as many as there is room for, and the frame counter grows by
  \<open>n\<close>, the overflow counter by the rest.
\<close>

theorem radio_receive_accounts:
  assumes "msgq_spec mq contents depth" "length (contents (rr_queue s)) \<le> depth"
    and "s' = radio_event_handler cfg mq ESB_EVENT_RX_RECEIVED payloads s"
    and "k = min (length payloads) (depth - length (contents (rr_queue s)))"
  shows "(\<exists>pkts. contents (rr_queue s') = contents (rr_queue s) @ pkts \<and>
      map pkt_frame pkts = map (payload_frame \<circ> fst) (take k payloads) \<and>
      map pkt_length pkts = map (ucast \<circ> pl_length \<circ> fst) (take k payloads)) \<and>
    rls_rx_frames (rr_stats s') = rls_rx_frames (rr_stats s) + of_nat (length payloads) \<and>
    rls_rx_queue_overflow (rr_stats s') =
      rls_rx_queue_overflow (rr_stats s) + of_nat (length payloads - k)"
proof -
  from receive_all_accounts [OF assms(1), where cfg = cfg and ps = payloads and
      s = "s\<lparr>rr_stats := (rr_stats s)\<lparr>rls_rx_events := rls_rx_events (rr_stats s) + 1\<rparr>\<rparr>"]
  show ?thesis
    using assms(2) unfolding assms(3,4) by (simp add: radio_event_handler_def)
qed

definition sample_payload :: esb_payload where
  "sample_payload = \<lparr>pl_length = 204, pl_data = replicate 204 7\<rparr>"

text \<open>A queue of two packets and an event with three.\<close>

lemma radio_receive_accounts_witness:
  "let s = \<lparr>rr_stats = \<lparr>rls_rx_events = 0, rls_rx_frames = 0, rls_rx_read_errors = 0,
         rls_rx_queue_overflow = 0, rls_rx_queue_high_water = 0\<rparr>, rr_queue = [],
         rr_timebase = zero_timebase\<rparr>;
       s' = radio_event_handler (ch0_spis_conf sum16 sum32) (list_msgq 2) ESB_EVENT_RX_RECEIVED
         (replicate 3 (sample_payload, 5, 0)) s
   in length (rr_queue s') = 2 \<and> rls_rx_queue_overflow (rr_stats s') = 1"
proof -
  let ?s = "\<lparr>rr_stats = \<lparr>rls_rx_events = 0, rls_rx_frames = 0, rls_rx_read_errors = 0,
         rls_rx_queue_overflow = 0, rls_rx_queue_high_water = 0\<rparr>, rr_queue = [],
         rr_timebase = zero_timebase\<rparr>"
  from radio_receive_accounts [OF list_msgq_spec [of 2] _ refl refl, of ?s
      "ch0_spis_conf sum16 sum32" "replicate 3 (sample_payload, 5, 0)"]
  show ?thesis
    unfolding Let_def by (auto dest: arg_cong [where f = length])
qed

end
