(* ===== verification/Rx_Stream.thy ===== *)
theory Rx_Stream
  imports Wire_Formats Kernel
begin

text \<open>
  \<open>rx_sample_stream.c\<close>: records of received frames for a host, through a kernel
  queue to a thread that writes them to the UART. The results of the drivers and
  the UART events of a transfer are inputs.
\<close>

definition RF_LINK_RX_STREAM_MAGIC :: u32 where [wire_const]: "RF_LINK_RX_STREAM_MAGIC = 0x31535852"
definition RF_LINK_RX_STREAM_VERSION :: u8 where [wire_const]: "RF_LINK_RX_STREAM_VERSION = 1"
definition RX_STREAM_RECORD_SIZE :: nat where [wire_const]: "RX_STREAM_RECORD_SIZE = 224"

record rx_sample_stream_record =
  strm_magic :: u32
  strm_record_len :: u16
  strm_version :: u8
  strm_reserved :: u8
  strm_frame_index :: u32
  strm_drop_total :: u32
  strm_uptime_ms :: u32
  strm_frame :: rf_frame

definition stream_record_bytes :: "rx_sample_stream_record \<Rightarrow> u8 list" where
  "stream_record_bytes r = le32 (strm_magic r) @ le16 (strm_record_len r) @ [strm_version r] @
     [strm_reserved r] @ le32 (strm_frame_index r) @ le32 (strm_drop_total r) @
     le32 (strm_uptime_ms r) @ rf_frame_bytes (strm_frame r)"

definition stream_record_of_bytes :: "u8 list \<Rightarrow> rx_sample_stream_record" where
  "stream_record_of_bytes bs = \<lparr>strm_magic = field bs 0 4, strm_record_len = field bs 4 2,
     strm_version = field bs 6 1, strm_reserved = field bs 7 1, strm_frame_index = field bs 8 4,
     strm_drop_total = field bs 12 4, strm_uptime_ms = field bs 16 4,
     strm_frame = rf_frame_of_bytes (drop 20 bs)\<rparr>"

lemma length_stream_record_bytes [simp]:
  "wf_frame (strm_frame r) \<Longrightarrow> length (stream_record_bytes r) = RX_STREAM_RECORD_SIZE"
  by (simp add: stream_record_bytes_def wire_const)

lemma stream_record_of_bytes_bytes:
  "wf_frame (strm_frame r) \<Longrightarrow> stream_record_of_bytes (stream_record_bytes r) = r"
  by (simp add: stream_record_of_bytes_def stream_record_bytes_def rf_frame_of_bytes_bytes)

record 'q rx_stream =
  stream_drop_total :: u32
  stream_tx_failed :: bool
  stream_active :: bool
  stream_frame_index :: u32
  stream_thread_started :: bool
  stream_queue :: 'q
  stream_tx_done :: bool
  stream_out :: "u8 list"

datatype uart_event_type = UART_TX_DONE | UART_TX_ABORTED | Uart_Event_Other

text \<open>\<open>stream_tx_done\<close> is the binary semaphore.\<close>

definition uart_event_handler :: "uart_event_type \<Rightarrow> 'q rx_stream \<Rightarrow> 'q rx_stream" where
  "uart_event_handler ev s =
     (case ev of
        UART_TX_DONE \<Rightarrow> s\<lparr>stream_tx_done := True\<rparr>
      | UART_TX_ABORTED \<Rightarrow> s\<lparr>stream_tx_failed := True, stream_tx_done := True\<rparr>
      | Uart_Event_Other \<Rightarrow> s)"

text \<open>
  Waiting for the semaphore: the events come in one by one; \<open>None\<close> when it is not
  given by any of them.
\<close>

fun wait_tx_done :: "uart_event_type list \<Rightarrow> 'q rx_stream \<Rightarrow> 'q rx_stream option" where
  "wait_tx_done evs s =
     (if stream_tx_done s then Some (s\<lparr>stream_tx_done := False\<rparr>)
      else case evs of [] \<Rightarrow> None | ev # evs' \<Rightarrow> wait_tx_done evs' (uart_event_handler ev s))"

declare wait_tx_done.simps [simp del]

text \<open>
  \<open>tx_ret\<close> is the result of \<open>uart_tx\<close>; a transfer it accepts sends the bytes.
\<close>

definition uart_write_buf ::
  "int \<Rightarrow> uart_event_type list \<Rightarrow> u8 list option \<Rightarrow> 'q rx_stream \<Rightarrow> (int \<times> 'q rx_stream) option" where
  "uart_write_buf tx_ret evs buf s =
     (case buf of
        None \<Rightarrow> Some (- EINVAL, s)
      | Some bs \<Rightarrow>
          if \<not> stream_active s then Some (- EINVAL, s)
          else
            let s1 = s\<lparr>stream_tx_failed := False\<rparr>
            in if tx_ret \<noteq> 0 then Some (tx_ret, s1)
               else
                 (case wait_tx_done evs (s1\<lparr>stream_out := stream_out s1 @ bs\<rparr>) of
                    None \<Rightarrow> None
                  | Some s2 \<Rightarrow> Some (if stream_tx_failed s2 then - EIO else 0, s2)))"

text \<open>One pass of the thread's loop, once \<open>k_msgq_get\<close> has returned a record.\<close>

definition stream_thread_pass ::
  "(rx_sample_stream_record, 'q) msgq_ops \<Rightarrow> int \<Rightarrow> uart_event_type list \<Rightarrow> 'q rx_stream \<Rightarrow>
   'q rx_stream option" where
  "stream_thread_pass mq tx_ret evs s =
     (case msgq_get mq (stream_queue s) of
        (Inl _, q) \<Rightarrow> None
      | (Inr r, q) \<Rightarrow>
          (case uart_write_buf tx_ret evs (Some (stream_record_bytes r)) (s\<lparr>stream_queue := q\<rparr>) of
             None \<Rightarrow> None
           | Some (ret, s1) \<Rightarrow>
               Some (if ret \<noteq> 0 then s1\<lparr>stream_drop_total := stream_drop_total s1 + 1\<rparr> else s1)))"

definition rx_sample_stream_init ::
  "bool \<Rightarrow> bool \<Rightarrow> int \<Rightarrow> 'q rx_stream \<Rightarrow> int \<times> 'q rx_stream" where
  "rx_sample_stream_init dev_exists dev_ready callback_ret s =
     (if stream_active s then (0, s)
      else if \<not> dev_exists \<or> \<not> dev_ready then (- ENODEV, s)
      else if callback_ret \<noteq> 0 then (- ENOTSUP, s)
      else (0, s\<lparr>stream_drop_total := 0, stream_tx_failed := False, stream_frame_index := 0,
                 stream_active := True, stream_thread_started := True\<rparr>))"

definition rx_sample_stream_active :: "'q rx_stream \<Rightarrow> bool" where
  "rx_sample_stream_active s = stream_active s"

definition rx_sample_stream_submit_frame ::
  "(rx_sample_stream_record, 'q) msgq_ops \<Rightarrow> u32 \<Rightarrow> rf_frame option \<Rightarrow> 'q rx_stream \<Rightarrow> 'q rx_stream" where
  "rx_sample_stream_submit_frame mq uptime fp s =
     (case fp of
        None \<Rightarrow> s
      | Some frame \<Rightarrow>
          if \<not> stream_active s then s
          else
            let r = \<lparr>strm_magic = RF_LINK_RX_STREAM_MAGIC,
                     strm_record_len = of_nat RX_STREAM_RECORD_SIZE,
                     strm_version = RF_LINK_RX_STREAM_VERSION, strm_reserved = 0,
                     strm_frame_index = stream_frame_index s,
                     strm_drop_total = stream_drop_total s, strm_uptime_ms = uptime,
                     strm_frame = frame\<rparr>;
                s1 = s\<lparr>stream_frame_index := stream_frame_index s + 1\<rparr>;
                (ret, q) = msgq_put mq r (stream_queue s1);
                s2 = s1\<lparr>stream_queue := q\<rparr>
            in if ret \<noteq> 0 then s2\<lparr>stream_drop_total := stream_drop_total s2 + 1\<rparr> else s2)"

section \<open>Submitting frames\<close>

fun submit_all ::
  "(rx_sample_stream_record, 'q) msgq_ops \<Rightarrow> (rf_frame \<times> u32) list \<Rightarrow> 'q rx_stream \<Rightarrow> 'q rx_stream" where
  "submit_all mq [] s = s"
| "submit_all mq ((f, t) # fs) s = submit_all mq fs (rx_sample_stream_submit_frame mq t (Some f) s)"

lemma submit_effect:
  assumes mq: "msgq_spec mq contents depth" and act: "stream_active s"
  shows "stream_active (rx_sample_stream_submit_frame mq t (Some f) s)"
    and "stream_frame_index (rx_sample_stream_submit_frame mq t (Some f) s) = stream_frame_index s + 1"
    and "\<exists>r. strm_frame r = f \<and> strm_frame_index r = stream_frame_index s \<and>
      contents (stream_queue (rx_sample_stream_submit_frame mq t (Some f) s)) =
        contents (stream_queue s) @ (if length (contents (stream_queue s)) < depth then [r] else [])"
    and "stream_drop_total (rx_sample_stream_submit_frame mq t (Some f) s) =
      stream_drop_total s + (if length (contents (stream_queue s)) < depth then 0 else 1)"
proof -
  define r where "r = \<lparr>strm_magic = RF_LINK_RX_STREAM_MAGIC,
                     strm_record_len = of_nat RX_STREAM_RECORD_SIZE,
                     strm_version = RF_LINK_RX_STREAM_VERSION, strm_reserved = 0,
                     strm_frame_index = stream_frame_index s,
                     strm_drop_total = stream_drop_total s, strm_uptime_ms = t,
                     strm_frame = f\<rparr>"
  obtain ret q where put: "msgq_put mq r (stream_queue s) = (ret, q)"
    by (cases "msgq_put mq r (stream_queue s)")
  note ok = msgq_put_ok [OF mq put]
  have eq: "rx_sample_stream_submit_frame mq t (Some f) s =
      (let s2 = s\<lparr>stream_frame_index := stream_frame_index s + 1, stream_queue := q\<rparr>
       in if ret \<noteq> 0 then s2\<lparr>stream_drop_total := stream_drop_total s2 + 1\<rparr> else s2)"
    using act put [unfolded r_def] by (simp add: rx_sample_stream_submit_frame_def Let_def)
  show "stream_active (rx_sample_stream_submit_frame mq t (Some f) s)"
    "stream_frame_index (rx_sample_stream_submit_frame mq t (Some f) s) = stream_frame_index s + 1"
    "stream_drop_total (rx_sample_stream_submit_frame mq t (Some f) s) =
      stream_drop_total s + (if length (contents (stream_queue s)) < depth then 0 else 1)"
    using act ok by (auto simp: eq Let_def)
  show "\<exists>r. strm_frame r = f \<and> strm_frame_index r = stream_frame_index s \<and>
      contents (stream_queue (rx_sample_stream_submit_frame mq t (Some f) s)) =
        contents (stream_queue s) @ (if length (contents (stream_queue s)) < depth then [r] else [])"
    using ok by (intro exI [of _ r]) (auto simp: eq r_def Let_def)
qed

lemma submit_all_effect:
  assumes mq: "msgq_spec mq contents depth"
  shows "stream_active s \<Longrightarrow> length (contents (stream_queue s)) \<le> depth \<Longrightarrow>
    k = min (length fs) (depth - length (contents (stream_queue s))) \<Longrightarrow>
    (\<exists>rs. contents (stream_queue (submit_all mq fs s)) = contents (stream_queue s) @ rs \<and>
      map strm_frame rs = map fst (take k fs) \<and>
      map strm_frame_index rs = map (\<lambda>i. stream_frame_index s + of_nat i) [0..<k]) \<and>
    stream_frame_index (submit_all mq fs s) = stream_frame_index s + of_nat (length fs) \<and>
    stream_drop_total (submit_all mq fs s) = stream_drop_total s + of_nat (length fs - k)"
proof (induction fs arbitrary: s k)
  case (Cons x fs)
  obtain f t where x: "x = (f, t)" by (cases x)
  define s1 where "s1 = rx_sample_stream_submit_frame mq t (Some f) s"
  note eff = submit_effect [OF mq Cons.prems(1), where t = t and f = f, folded s1_def]
  obtain r where r: "strm_frame r = f" "strm_frame_index r = stream_frame_index s"
    "contents (stream_queue s1) = contents (stream_queue s) @
      (if length (contents (stream_queue s)) < depth then [r] else [])"
    using eff(3) by blast
  define k1 where "k1 = min (length fs) (depth - length (contents (stream_queue s1)))"
  have IH: "(\<exists>rs. contents (stream_queue (submit_all mq fs s1)) = contents (stream_queue s1) @ rs \<and>
      map strm_frame rs = map fst (take k1 fs) \<and>
      map strm_frame_index rs = map (\<lambda>i. stream_frame_index s1 + of_nat i) [0..<k1]) \<and>
    stream_frame_index (submit_all mq fs s1) = stream_frame_index s1 + of_nat (length fs) \<and>
    stream_drop_total (submit_all mq fs s1) = stream_drop_total s1 + of_nat (length fs - k1)"
    using Cons.prems r by (intro Cons.IH [OF eff(1) _ k1_def]) simp
  have run: "submit_all mq (x # fs) s = submit_all mq fs s1"
    by (simp add: x s1_def)
  show ?case
  proof (cases "length (contents (stream_queue s)) < depth")
    case True
    have k: "k = Suc k1"
      using True r(3) Cons.prems(3) by (simp add: k1_def)
    obtain rs where rs: "contents (stream_queue (submit_all mq fs s1)) = contents (stream_queue s1) @ rs"
      "map strm_frame rs = map fst (take k1 fs)"
      "map strm_frame_index rs = map (\<lambda>i. stream_frame_index s1 + of_nat i) [0..<k1]"
      using IH by blast
    have "map strm_frame_index (r # rs) = map (\<lambda>i. stream_frame_index s + of_nat i) [0..<Suc k1]"
      using rs(3) r(2) eff(2) by (simp add: upt_conv_Cons map_Suc_upt [symmetric] add.assoc
          del: upt_Suc map_Suc_upt)
    then show ?thesis
      using rs IH True r eff(2,4) unfolding run k
      by (intro conjI exI [of _ "r # rs"]) (simp_all add: x del: upt_Suc)
  next
    case False
    have k: "k = 0" "k1 = 0"
      using False r(3) Cons.prems(3) by (simp_all add: k1_def)
    show ?thesis
      using IH False r(3) eff(2,4) unfolding run k by auto
  qed
qed simp

section \<open>Properties\<close>

text \<open>
  While streaming, every submitted frame gets the next stream index, whether it
  is queued or dropped: the queued records carry the frames in order, and the
  frames that found the queue full are counted, so the host sees every loss as a
  jump of the index.
\<close>

theorem stream_submit_accounts:
  assumes "msgq_spec mq contents depth" "stream_active s"
    and "length (contents (stream_queue s)) \<le> depth"
    and "k = min (length fs) (depth - length (contents (stream_queue s)))"
  shows "(\<exists>rs. contents (stream_queue (submit_all mq fs s)) = contents (stream_queue s) @ rs \<and>
      map strm_frame rs = map fst (take k fs) \<and>
      map strm_frame_index rs = map (\<lambda>i. stream_frame_index s + of_nat i) [0..<k]) \<and>
    stream_frame_index (submit_all mq fs s) = stream_frame_index s + of_nat (length fs) \<and>
    stream_drop_total (submit_all mq fs s) = stream_drop_total s + of_nat (length fs - k)"
  by (rule submit_all_effect [OF assms])

definition sample_stream :: "rx_sample_stream_record list rx_stream" where
  "sample_stream = snd (rx_sample_stream_init True True 0
     \<lparr>stream_drop_total = 3, stream_tx_failed = True, stream_active = False, stream_frame_index = 9,
      stream_thread_started = False, stream_queue = [], stream_tx_done = False, stream_out = []\<rparr>)"

lemma stream_submit_accounts_witness:
  "stream_drop_total (submit_all (list_msgq 1) [(zero_frame, 10), (zero_frame, 20)] sample_stream) = 1"
proof -
  have s: "stream_active sample_stream" "stream_queue sample_stream = []"
    "stream_drop_total sample_stream = 0"
    by (simp_all add: sample_stream_def rx_sample_stream_init_def)
  from stream_submit_accounts [OF list_msgq_spec [of 1] s(1) _ refl, of "[(zero_frame, 10), (zero_frame, 20)]"]
  show ?thesis
    by (simp add: s)
qed

end
