(* ===== verification/Spi_Wire.thy ===== *)
theory Spi_Wire
  imports Wire_Formats
begin

text \<open>
  \<open>fpga_spi_transport.h\<close>: the command codes, the 8-byte request, the 260-byte
  response with its record/payload union (the union is its 248 bytes), and the
  GET_INFO and GET_STATUS payloads, each with its byte image.
\<close>

datatype fpga_command_code =
  FPGA_CMD_GET_INFO | FPGA_CMD_GET_STATUS | FPGA_CMD_PEEK_RECORD | FPGA_CMD_READ_RECORD
| FPGA_CMD_COMMIT_RECORD | FPGA_CMD_DROP_RECORD | FPGA_CMD_CLEAR_STATS | FPGA_CMD_ARM_SYNC
| FPGA_CMD_START_STREAM | FPGA_CMD_STOP_STREAM | FPGA_CMD_RESET_LINK
| Fpga_Cmd_Other u8

text \<open>The conversion \<open>(enum fpga_command_code)code\<close>: other values fall into the
  \<open>default\<close> branch of each \<open>switch\<close>.\<close>

definition command_code :: "u8 \<Rightarrow> fpga_command_code" where
  "command_code c =
     (if c = 1 then FPGA_CMD_GET_INFO else if c = 2 then FPGA_CMD_GET_STATUS
      else if c = 3 then FPGA_CMD_PEEK_RECORD else if c = 4 then FPGA_CMD_READ_RECORD
      else if c = 5 then FPGA_CMD_COMMIT_RECORD else if c = 6 then FPGA_CMD_DROP_RECORD
      else if c = 7 then FPGA_CMD_CLEAR_STATS else if c = 8 then FPGA_CMD_ARM_SYNC
      else if c = 9 then FPGA_CMD_START_STREAM else if c = 10 then FPGA_CMD_STOP_STREAM
      else if c = 11 then FPGA_CMD_RESET_LINK else Fpga_Cmd_Other c)"

fun command_value :: "fpga_command_code \<Rightarrow> u8" where
  "command_value FPGA_CMD_GET_INFO = 1"
| "command_value FPGA_CMD_GET_STATUS = 2"
| "command_value FPGA_CMD_PEEK_RECORD = 3"
| "command_value FPGA_CMD_READ_RECORD = 4"
| "command_value FPGA_CMD_COMMIT_RECORD = 5"
| "command_value FPGA_CMD_DROP_RECORD = 6"
| "command_value FPGA_CMD_CLEAR_STATS = 7"
| "command_value FPGA_CMD_ARM_SYNC = 8"
| "command_value FPGA_CMD_START_STREAM = 9"
| "command_value FPGA_CMD_STOP_STREAM = 10"
| "command_value FPGA_CMD_RESET_LINK = 11"
| "command_value (Fpga_Cmd_Other c) = c"

lemma command_value_code [simp]: "command_value (command_code c) = c"
  by (simp add: command_code_def)

definition FPGA_INFO_MAGIC :: u32 where [wire_const]: "FPGA_INFO_MAGIC = 0x3149464e"
definition FPGA_STATUS_MAGIC :: u32 where [wire_const]: "FPGA_STATUS_MAGIC = 0x3153464e"
definition FPGA_SPI_CONTRACT_VERSION :: u16 where [wire_const]: "FPGA_SPI_CONTRACT_VERSION = 1"
definition FPGA_SPI_BIT_ORDER_MSB_FIRST :: u8 where [wire_const]: "FPGA_SPI_BIT_ORDER_MSB_FIRST = 0"
definition FPGA_CAP_PEEK_COMMIT :: u16 where [wire_const]: "FPGA_CAP_PEEK_COMMIT = 1"
definition FPGA_CAP_LEVEL_DRDY :: u16 where [wire_const]: "FPGA_CAP_LEVEL_DRDY = 2"
definition FPGA_CAP_HW_SYNC_CAPTURE :: u16 where [wire_const]: "FPGA_CAP_HW_SYNC_CAPTURE = 4"
definition FPGA_SPI_REQUEST_SIZE :: nat where [wire_const]: "FPGA_SPI_REQUEST_SIZE = 8"
definition FPGA_SPI_RESPONSE_SIZE :: nat where [wire_const]: "FPGA_SPI_RESPONSE_SIZE = 260"
definition FPGA_RECORD_SIZE :: nat where [wire_const]: "FPGA_RECORD_SIZE = 248"

record fpga_command =
  cmd_code :: u8
  cmd_reserved :: "u8 list"
  cmd_argument :: u32

definition fpga_command_bytes :: "fpga_command \<Rightarrow> u8 list" where
  "fpga_command_bytes c = [cmd_code c] @ cmd_reserved c @ le32 (cmd_argument c)"

definition fpga_command_of_bytes :: "u8 list \<Rightarrow> fpga_command" where
  "fpga_command_of_bytes bs = \<lparr>cmd_code = field bs 0 1, cmd_reserved = take 3 (drop 1 bs),
     cmd_argument = field bs 4 4\<rparr>"

lemma fpga_command_bytes_length [simp]:
  "length (cmd_reserved c) = 3 \<Longrightarrow> length (fpga_command_bytes c) = FPGA_SPI_REQUEST_SIZE"
  by (simp add: fpga_command_bytes_def wire_const)

lemma fpga_command_of_bytes_bytes:
  "length (cmd_reserved c) = 3 \<Longrightarrow> fpga_command_of_bytes (fpga_command_bytes c) = c"
  by (simp add: fpga_command_of_bytes_def fpga_command_bytes_def)

record fpga_response =
  resp_status :: i32
  resp_transport_seq :: u32
  resp_record_valid :: u8
  resp_reserved :: "u8 list"
  resp_payload :: "u8 list"

definition zero_response :: fpga_response where
  "zero_response = \<lparr>resp_status = 0, resp_transport_seq = 0, resp_record_valid = 0,
     resp_reserved = replicate 3 0, resp_payload = replicate FPGA_RECORD_SIZE 0\<rparr>"

definition wf_response :: "fpga_response \<Rightarrow> bool" where
  "wf_response r \<longleftrightarrow> length (resp_reserved r) = 3 \<and> length (resp_payload r) = FPGA_RECORD_SIZE"

definition fpga_response_bytes :: "fpga_response \<Rightarrow> u8 list" where
  "fpga_response_bytes r = le32 (resp_status r) @ le32 (resp_transport_seq r) @
     [resp_record_valid r] @ resp_reserved r @ resp_payload r"

definition fpga_response_of_bytes :: "u8 list \<Rightarrow> fpga_response" where
  "fpga_response_of_bytes bs = \<lparr>resp_status = field bs 0 4, resp_transport_seq = field bs 4 4,
     resp_record_valid = field bs 8 1, resp_reserved = take 3 (drop 9 bs),
     resp_payload = take FPGA_RECORD_SIZE (drop 12 bs)\<rparr>"

text \<open>Storing to the union's first bytes, as \<open>response->record = ...\<close> and
  \<open>memcpy(response->payload, ...)\<close> do.\<close>

definition put_payload :: "u8 list \<Rightarrow> fpga_response \<Rightarrow> fpga_response" where
  "put_payload bs r = r\<lparr>resp_payload := bs @ drop (length bs) (resp_payload r)\<rparr>"

lemma wf_zero_response [simp]: "wf_response zero_response"
  by (simp add: wf_response_def zero_response_def)

lemma wf_put_payload [simp]:
  "wf_response r \<Longrightarrow> length bs \<le> FPGA_RECORD_SIZE \<Longrightarrow> wf_response (put_payload bs r)"
  by (simp add: wf_response_def put_payload_def)

lemma fpga_response_bytes_length [simp]:
  "wf_response r \<Longrightarrow> length (fpga_response_bytes r) = FPGA_SPI_RESPONSE_SIZE"
  by (simp add: fpga_response_bytes_def wf_response_def wire_const)

lemma fpga_response_of_bytes_bytes:
  "wf_response r \<Longrightarrow> fpga_response_of_bytes (fpga_response_bytes r) = r"
  by (simp add: fpga_response_of_bytes_def fpga_response_bytes_def wf_response_def wire_const)

record fpga_info_payload =
  info_magic :: u32
  info_contract_version :: u16
  info_capabilities :: u16
  info_request_size :: u16
  info_response_size :: u16
  info_record_size :: u16
  info_spi_mode :: u8
  info_bit_order :: u8
  info_max_sclk_hz :: u32
  info_initial_sclk_hz :: u32
  info_min_request_response_gap_us :: u32

definition info_bytes :: "fpga_info_payload \<Rightarrow> u8 list" where
  "info_bytes i = le32 (info_magic i) @ le16 (info_contract_version i) @
     le16 (info_capabilities i) @ le16 (info_request_size i) @ le16 (info_response_size i) @
     le16 (info_record_size i) @ [info_spi_mode i] @ [info_bit_order i] @
     le32 (info_max_sclk_hz i) @ le32 (info_initial_sclk_hz i) @
     le32 (info_min_request_response_gap_us i)"

definition info_of_bytes :: "u8 list \<Rightarrow> fpga_info_payload" where
  "info_of_bytes bs = \<lparr>info_magic = field bs 0 4, info_contract_version = field bs 4 2,
     info_capabilities = field bs 6 2, info_request_size = field bs 8 2,
     info_response_size = field bs 10 2, info_record_size = field bs 12 2,
     info_spi_mode = field bs 14 1, info_bit_order = field bs 15 1,
     info_max_sclk_hz = field bs 16 4, info_initial_sclk_hz = field bs 20 4,
     info_min_request_response_gap_us = field bs 24 4\<rparr>"

lemma length_info_bytes [simp]: "length (info_bytes i) = 28"
  by (simp add: info_bytes_def)

lemma info_of_bytes_bytes: "info_of_bytes (info_bytes i @ bs) = i"
  by (simp add: info_of_bytes_def info_bytes_def)

record fpga_status_payload =
  stat_magic :: u32
  stat_contract_version :: u16
  stat_sync_state :: u16
  stat_queue_level :: u32
  stat_queue_high_water :: u32
  stat_sync_epoch :: u32
  stat_sync_tick :: u64
  stat_pending_transport_seq :: u32
  stat_crc_errors :: u32
  stat_invalid_cmd :: u32
  stat_duplicate_commit :: u32
  stat_spi_errors :: u32
  stat_parser_errors :: u32
  stat_short_transfers :: u32

definition status_bytes :: "fpga_status_payload \<Rightarrow> u8 list" where
  "status_bytes s = le32 (stat_magic s) @ le16 (stat_contract_version s) @
     le16 (stat_sync_state s) @ le32 (stat_queue_level s) @ le32 (stat_queue_high_water s) @
     le32 (stat_sync_epoch s) @ le64 (stat_sync_tick s) @ le32 (stat_pending_transport_seq s) @
     le32 (stat_crc_errors s) @ le32 (stat_invalid_cmd s) @ le32 (stat_duplicate_commit s) @
     le32 (stat_spi_errors s) @ le32 (stat_parser_errors s) @ le32 (stat_short_transfers s)"

definition status_of_bytes :: "u8 list \<Rightarrow> fpga_status_payload" where
  "status_of_bytes bs = \<lparr>stat_magic = field bs 0 4, stat_contract_version = field bs 4 2,
     stat_sync_state = field bs 6 2, stat_queue_level = field bs 8 4,
     stat_queue_high_water = field bs 12 4, stat_sync_epoch = field bs 16 4,
     stat_sync_tick = field bs 20 8, stat_pending_transport_seq = field bs 28 4,
     stat_crc_errors = field bs 32 4, stat_invalid_cmd = field bs 36 4,
     stat_duplicate_commit = field bs 40 4, stat_spi_errors = field bs 44 4,
     stat_parser_errors = field bs 48 4, stat_short_transfers = field bs 52 4\<rparr>"

lemma length_status_bytes [simp]: "length (status_bytes s) = 56"
  by (simp add: status_bytes_def)

lemma status_of_bytes_bytes: "status_of_bytes (status_bytes s @ bs) = s"
  by (simp add: status_of_bytes_def status_bytes_def)

end
