(* ===== verification/Fpga_Record.thy ===== *)
theory Fpga_Record
  imports Wire_Formats Rx_Config
begin

text \<open>
  Building and checking the FPGA record: \<open>fpga_transport_build_record\<close> and
  \<open>fpga_transport_record_valid\<close> of \<open>fpga_transport.c\<close>, and the duplicate of the
  check in \<open>fpga_spi_transport.c\<close>. The two CRC functions of the SDK are fields of
  the configuration.
\<close>

definition header_crc :: "rx_config \<Rightarrow> fpga_record_header \<Rightarrow> u16" where
  [op_defs]: "header_crc cfg h = crc16 cfg 0x1021 0xffff (header_prefix_bytes h)"

definition record_header_crc :: "rx_config \<Rightarrow> fpga_record_header \<Rightarrow> u16" where
  [op_defs]: "record_header_crc cfg h = crc16 cfg 0x1021 0xffff (header_prefix_bytes h)"

definition fpga_transport_build_record ::
  "rx_config \<Rightarrow> rx_frame_record option \<Rightarrow> u32 \<Rightarrow> bool \<Rightarrow> int + fpga_record" where
  [op_defs]: "fpga_transport_build_record cfg sp transport_seq record_null =
     (case sp of
        None \<Rightarrow> Inl (- EINVAL)
      | Some src \<Rightarrow>
          if record_null then Inl (- EINVAL)
          else
            let h = (fpga_header zero_fpga_record)\<lparr>
                  hdr_magic := FPGA_RECORD_MAGIC,
                  hdr_version := FPGA_RECORD_VERSION,
                  hdr_node_id := rec_node_id src,
                  hdr_record_type := 1,
                  hdr_transport_seq := transport_seq,
                  hdr_sync_epoch := rec_sync_epoch src,
                  hdr_rx_tick := rec_rx_tick src,
                  hdr_logical_sample_index := rec_logical_sample_index src,
                  hdr_status_flags := rec_status_flags src,
                  hdr_payload_len := of_nat RF_LINK_FRAME_WIRE_SIZE\<rparr>
            in Inr (zero_fpga_record\<lparr>
                 fpga_header := h\<lparr>hdr_header_crc16 := header_crc cfg h\<rparr>,
                 fpga_frame := rec_frame src,
                 fpga_payload_crc32 := crc32_ieee cfg (rf_frame_bytes (rec_frame src))\<rparr>))"

definition fpga_transport_record_valid :: "rx_config \<Rightarrow> fpga_record option \<Rightarrow> bool" where
  [op_defs]: "fpga_transport_record_valid cfg rp =
     (case rp of
        None \<Rightarrow> False
      | Some r \<Rightarrow>
          hdr_magic (fpga_header r) = FPGA_RECORD_MAGIC \<and>
          hdr_version (fpga_header r) = FPGA_RECORD_VERSION \<and>
          hdr_payload_len (fpga_header r) = of_nat RF_LINK_FRAME_WIRE_SIZE \<and>
          hdr_header_crc16 (fpga_header r) = header_crc cfg (fpga_header r) \<and>
          fpga_payload_crc32 r = crc32_ieee cfg (rf_frame_bytes (fpga_frame r)))"

definition record_crc_valid :: "rx_config \<Rightarrow> fpga_record option \<Rightarrow> bool" where
  [op_defs]: "record_crc_valid cfg rp =
     (case rp of
        None \<Rightarrow> False
      | Some r \<Rightarrow>
          hdr_magic (fpga_header r) = FPGA_RECORD_MAGIC \<and>
          hdr_version (fpga_header r) = FPGA_RECORD_VERSION \<and>
          hdr_payload_len (fpga_header r) = of_nat RF_LINK_FRAME_WIRE_SIZE \<and>
          hdr_header_crc16 (fpga_header r) = record_header_crc cfg (fpga_header r) \<and>
          fpga_payload_crc32 r = crc32_ieee cfg (rf_frame_bytes (fpga_frame r)))"

text \<open>The two checks are the same.\<close>

lemma record_checks_agree: "record_crc_valid cfg rp = fpga_transport_record_valid cfg rp"
  by (simp add: op_defs split: option.split)

lemma header_prefix_crc_update [simp]:
  "header_prefix_bytes (h\<lparr>hdr_header_crc16 := c\<rparr>) = header_prefix_bytes h"
  by (simp add: header_prefix_bytes_def)

lemma build_record_valid:
  "fpga_transport_build_record cfg (Some src) seq False = Inr r \<Longrightarrow>
    fpga_transport_record_valid cfg (Some r) \<and> record_crc_valid cfg (Some r)"
  by (auto simp: op_defs Let_def)

lemma build_record_total:
  "\<exists>r. fpga_transport_build_record cfg (Some src) seq False = Inr r"
  by (simp add: fpga_transport_build_record_def Let_def)

lemma build_record_fields:
  assumes "fpga_transport_build_record cfg (Some src) seq False = Inr r"
  shows "hdr_transport_seq (fpga_header r) = seq" "fpga_frame r = rec_frame src"
    "hdr_sync_epoch (fpga_header r) = rec_sync_epoch src"
    "hdr_rx_tick (fpga_header r) = rec_rx_tick src"
    "hdr_logical_sample_index (fpga_header r) = rec_logical_sample_index src"
    "hdr_status_flags (fpga_header r) = rec_status_flags src"
    "hdr_node_id (fpga_header r) = rec_node_id src"
  using assms by (auto simp: fpga_transport_build_record_def Let_def)

section \<open>Properties\<close>



end
