(* ===== verification/Spi_Transport.thy ===== *)
theory Spi_Transport
  imports Spi_Wire Fpga_Record
begin

text \<open>
  \<open>fpga_spi_transport.c\<close>: the command engine and the one pending record. The state
  is the file's static variables. The two callbacks are arguments; they act on the
  pair of this state and the client's state, because they may call back into this
  module. A critical section of \<open>spi_lock\<close> is one step: \<open>commit_or_drop\<close> releases
  the lock around the release callback, so it is split into the section before and
  the section after it.
\<close>

record fpga_spi_transport_stats =
  sst_crc_errors :: u32
  sst_invalid_cmd :: u32
  sst_duplicate_commit :: u32
  sst_read_total :: u32
  sst_commit_total :: u32
  sst_drop_total :: u32

record spi_transport =
  pending_record :: fpga_record
  spi_stats :: fpga_spi_transport_stats
  have_control_callback :: bool
  sp_pending_extended_frame_seq :: u32
  last_committed_transport_seq :: u32
  have_last_commit :: bool
  have_pending_record :: bool
  commit_in_progress :: bool
  abort_requested :: bool

definition zero_spi_stats :: fpga_spi_transport_stats where
  "zero_spi_stats = \<lparr>sst_crc_errors = 0, sst_invalid_cmd = 0, sst_duplicate_commit = 0,
     sst_read_total = 0, sst_commit_total = 0, sst_drop_total = 0\<rparr>"

definition fpga_spi_transport_init :: "bool \<Rightarrow> bool \<Rightarrow> spi_transport \<Rightarrow> int \<times> spi_transport" where
  [op_defs]: "fpga_spi_transport_init release_null control_null sp =
     (if release_null then (- EINVAL, sp)
      else (0, \<lparr>pending_record = zero_fpga_record, spi_stats = zero_spi_stats,
              have_control_callback = (\<not> control_null), sp_pending_extended_frame_seq = 0,
              last_committed_transport_seq = 0, have_last_commit = False,
              have_pending_record = False, commit_in_progress = False, abort_requested = False\<rparr>))"

definition fpga_spi_transport_stage ::
  "rx_config \<Rightarrow> fpga_record option \<Rightarrow> u32 \<Rightarrow> spi_transport \<Rightarrow> int \<times> spi_transport" where
  [op_defs]: "fpga_spi_transport_stage cfg rp extended_frame_seq sp =
     (case rp of
        Some r \<Rightarrow>
          if \<not> record_crc_valid cfg rp then
            (- EBADMSG, sp\<lparr>spi_stats := (spi_stats sp)\<lparr>sst_crc_errors := sst_crc_errors (spi_stats sp) + 1\<rparr>\<rparr>)
          else if have_pending_record sp then (- EBUSY, sp)
          else (0, sp\<lparr>pending_record := r, sp_pending_extended_frame_seq := extended_frame_seq,
                     have_pending_record := True\<rparr>)
      | None \<Rightarrow>
          (- EBADMSG, sp\<lparr>spi_stats := (spi_stats sp)\<lparr>sst_crc_errors := sst_crc_errors (spi_stats sp) + 1\<rparr>\<rparr>))"

definition spi_invalid :: "spi_transport \<Rightarrow> spi_transport" where
  [op_defs]: "spi_invalid sp =
     sp\<lparr>spi_stats := (spi_stats sp)\<lparr>sst_invalid_cmd := sst_invalid_cmd (spi_stats sp) + 1\<rparr>\<rparr>"

text \<open>The first critical section: the error to return, or the record to release.\<close>

definition commit_begin :: "u32 \<Rightarrow> spi_transport \<Rightarrow> (int + u32) \<times> spi_transport" where
  [op_defs]: "commit_begin transport_seq sp =
     (if \<not> have_pending_record sp then
        if have_last_commit sp \<and> transport_seq = last_committed_transport_seq sp then
          (Inl (- EALREADY),
           sp\<lparr>spi_stats := (spi_stats sp)\<lparr>sst_duplicate_commit := sst_duplicate_commit (spi_stats sp) + 1\<rparr>\<rparr>)
        else (Inl (- ENODATA), spi_invalid sp)
      else if commit_in_progress sp then (Inl (- EBUSY), sp)
      else if transport_seq \<noteq> hdr_transport_seq (fpga_header (pending_record sp)) then
        (Inl (- ESTALE), spi_invalid sp)
      else (Inr (sp_pending_extended_frame_seq sp), sp\<lparr>commit_in_progress := True\<rparr>))"

text \<open>The second one, given what the release callback returned.\<close>

definition commit_finish :: "u32 \<Rightarrow> bool \<Rightarrow> int \<Rightarrow> spi_transport \<Rightarrow> int \<times> spi_transport" where
  [op_defs]: "commit_finish transport_seq drop_it ret sp0 =
     (let sp = sp0\<lparr>commit_in_progress := False\<rparr>
      in if abort_requested sp then
           (if ret = 0 then - ECANCELED else ret,
            sp\<lparr>abort_requested := False, have_pending_record := False\<rparr>)
         else if ret \<noteq> 0 then (ret, sp)
         else
           let sp1 = sp\<lparr>last_committed_transport_seq := transport_seq, have_last_commit := True,
                       have_pending_record := False\<rparr>;
               st = spi_stats sp1
           in (0, sp1\<lparr>spi_stats := (if drop_it then st\<lparr>sst_drop_total := sst_drop_total st + 1\<rparr>
                                   else st\<lparr>sst_commit_total := sst_commit_total st + 1\<rparr>)\<rparr>))"

type_synonym 'w release_cb = "u32 \<Rightarrow> bool \<Rightarrow> spi_transport \<times> 'w \<Rightarrow> int \<times> spi_transport \<times> 'w"
type_synonym 'w control_cb =
  "fpga_command_code \<Rightarrow> u32 \<Rightarrow> spi_transport \<times> 'w \<Rightarrow> int \<times> spi_transport \<times> 'w"

definition commit_or_drop ::
  "'w release_cb \<Rightarrow> u32 \<Rightarrow> bool \<Rightarrow> spi_transport \<times> 'w \<Rightarrow> int \<times> spi_transport \<times> 'w" where
  [op_defs]: "commit_or_drop release transport_seq drop_it s =
     (let (sp, w) = s
      in case commit_begin transport_seq sp of
           (Inl e, sp1) \<Rightarrow> (e, sp1, w)
         | (Inr ext, sp1) \<Rightarrow>
             let (ret, sp2, w2) = release ext drop_it (sp1, w);
                 (ret', sp3) = commit_finish transport_seq drop_it ret sp2
             in (ret', sp3, w2))"

definition read_pending :: "spi_transport \<Rightarrow> (int \<times> fpga_response) \<times> spi_transport" where
  [op_defs]: "read_pending sp =
     (if \<not> have_pending_record sp then ((- ENODATA, zero_response), sp)
      else ((0, (put_payload (fpga_record_bytes (pending_record sp)) zero_response)\<lparr>
                  resp_record_valid := 1,
                  resp_transport_seq := hdr_transport_seq (fpga_header (pending_record sp))\<rparr>),
            sp\<lparr>spi_stats := (spi_stats sp)\<lparr>sst_read_total := sst_read_total (spi_stats sp) + 1\<rparr>\<rparr>))"

text \<open>
  The engine returns its status and the response it filled; with a null command or
  response pointer it fills none.
\<close>

definition fpga_spi_transport_execute ::
  "'w release_cb \<Rightarrow> 'w control_cb \<Rightarrow> fpga_command option \<Rightarrow> bool \<Rightarrow> spi_transport \<times> 'w \<Rightarrow>
   int \<times> fpga_response option \<times> spi_transport \<times> 'w" where
  [op_defs]: "fpga_spi_transport_execute release control cp response_null s =
     (case cp of
        None \<Rightarrow> (- EINVAL, None, s)
      | Some cmd \<Rightarrow>
          if response_null then (- EINVAL, None, s)
          else
            let (sp, w) = s;
                code = command_code (cmd_code cmd);
                (ret, resp, s') =
                  (case code of
                     FPGA_CMD_GET_INFO \<Rightarrow> (0, zero_response, s)
                   | FPGA_CMD_GET_STATUS \<Rightarrow> (0, zero_response, s)
                   | FPGA_CMD_PEEK_RECORD \<Rightarrow>
                       let ((r, resp), sp') = read_pending sp in (r, resp, sp', w)
                   | FPGA_CMD_READ_RECORD \<Rightarrow>
                       let ((r, resp), sp') = read_pending sp in (r, resp, sp', w)
                   | FPGA_CMD_COMMIT_RECORD \<Rightarrow>
                       let (r, s1) = commit_or_drop release (cmd_argument cmd) False s
                       in (r, zero_response, s1)
                   | FPGA_CMD_DROP_RECORD \<Rightarrow>
                       let (r, s1) = commit_or_drop release (cmd_argument cmd) True s
                       in (r, zero_response, s1)
                   | FPGA_CMD_CLEAR_STATS \<Rightarrow>
                       let sp1 = sp\<lparr>spi_stats := zero_spi_stats\<rparr>
                       in if have_control_callback sp1 then
                            let (r, s1) = control FPGA_CMD_CLEAR_STATS 0 (sp1, w)
                            in (r, zero_response, s1)
                          else (0, zero_response, sp1, w)
                   | Fpga_Cmd_Other _ \<Rightarrow> (- ENOTSUP, zero_response, spi_invalid sp, w)
                   | _ \<Rightarrow>
                       if \<not> have_control_callback sp then (- ENOTSUP, zero_response, s)
                       else let (r, s1) = control code (cmd_argument cmd) s
                            in (r, zero_response, s1))
            in (ret, Some (resp\<lparr>resp_status := word_of_int ret\<rparr>), s'))"

definition fpga_spi_transport_pending :: "spi_transport \<Rightarrow> bool" where
  [op_defs]: "fpga_spi_transport_pending sp = have_pending_record sp"

definition fpga_spi_transport_pending_seq :: "spi_transport \<Rightarrow> u32" where
  [op_defs]: "fpga_spi_transport_pending_seq sp =
     (if have_pending_record sp then hdr_transport_seq (fpga_header (pending_record sp)) else - 1)"

definition fpga_spi_transport_abort_pending :: "spi_transport \<Rightarrow> spi_transport" where
  [op_defs]: "fpga_spi_transport_abort_pending sp =
     (if commit_in_progress sp then sp\<lparr>abort_requested := True\<rparr>
      else sp\<lparr>have_pending_record := False, sp_pending_extended_frame_seq := 0,
             commit_in_progress := False, abort_requested := False\<rparr>)"

definition fpga_spi_transport_stats_get :: "spi_transport \<Rightarrow> fpga_spi_transport_stats" where
  [op_defs]: "fpga_spi_transport_stats_get sp = spi_stats sp"

section \<open>The contract of a release callback\<close>

text \<open>
  What the command engine needs of the client behind \<open>release_callback\<close>: it
  leaves the engine alone and releases the oldest element exactly when the engine
  names that element's key. \<open>keys\<close> are the keys of the elements the client
  holds, oldest first.
\<close>

text \<open>No commit is between its two critical sections.\<close>

definition quiet :: "spi_transport \<Rightarrow> bool" where
  "quiet sp \<longleftrightarrow> \<not> commit_in_progress sp \<and> \<not> abort_requested sp"

locale release_client =
  fixes release :: "'w release_cb"
    and keys :: "'w \<Rightarrow> u32 list"
    and ok :: "'w \<Rightarrow> bool"
  assumes release_engine: "fst (snd (release k d (sp, w))) = sp"
    and release_head: "ok w \<Longrightarrow> keys w \<noteq> [] \<Longrightarrow> hd (keys w) = k \<Longrightarrow>
      fst (release k d (sp, w)) = 0 \<and> keys (snd (snd (release k d (sp, w)))) = tl (keys w)"
    and release_other: "ok w \<Longrightarrow> keys w = [] \<or> hd (keys w) \<noteq> k \<Longrightarrow>
      fst (release k d (sp, w)) \<noteq> 0 \<and> snd (snd (release k d (sp, w))) = w"
    and release_ok: "ok w \<Longrightarrow> ok (snd (snd (release k d (sp, w))))"
begin

lemma commit_delivers:
  assumes "quiet sp" "ok w" "have_pending_record sp"
    and "seq = hdr_transport_seq (fpga_header (pending_record sp))"
    and "keys w \<noteq> []" "hd (keys w) = sp_pending_extended_frame_seq sp"
    and "commit_or_drop release seq d (sp, w) = (ret, sp', w')"
  shows "ret = 0 \<and> keys w' = tl (keys w) \<and> ok w' \<and> \<not> have_pending_record sp' \<and> quiet sp' \<and>
    have_last_commit sp' \<and> last_committed_transport_seq sp' = seq \<and>
    have_control_callback sp' = have_control_callback sp"
proof -
  define sp1 where "sp1 = sp\<lparr>commit_in_progress := True\<rparr>"
  have b: "commit_begin seq sp = (Inr (sp_pending_extended_frame_seq sp), sp1)"
    using assms(1,3,4) by (simp add: commit_begin_def quiet_def sp1_def)
  obtain r sp2 w2 where rel: "release (sp_pending_extended_frame_seq sp) d (sp1, w) = (r, sp2, w2)"
    by (metis prod_cases3)
  have r: "r = 0" "keys w2 = tl (keys w)" "sp2 = sp1" "ok w2"
    using release_head [OF assms(2,5,6), of d sp1] rel
      release_engine [of "sp_pending_extended_frame_seq sp" d sp1 w]
      release_ok [OF assms(2), of "sp_pending_extended_frame_seq sp" d sp1]
    by simp_all
  show ?thesis
    using assms(1,7) b rel r
    by (auto simp: commit_or_drop_def commit_finish_def Let_def quiet_def sp1_def)
qed

lemma commit_rejected:
  assumes "quiet sp" "ok w"
    and "\<not> have_pending_record sp \<or> seq \<noteq> hdr_transport_seq (fpga_header (pending_record sp)) \<or>
      keys w = [] \<or> hd (keys w) \<noteq> sp_pending_extended_frame_seq sp"
    and "commit_or_drop release seq d (sp, w) = (ret, sp', w')"
  shows "ret \<noteq> 0 \<and> w' = w \<and> quiet sp' \<and> have_pending_record sp' = have_pending_record sp \<and>
    pending_record sp' = pending_record sp \<and>
    sp_pending_extended_frame_seq sp' = sp_pending_extended_frame_seq sp \<and>
    have_control_callback sp' = have_control_callback sp"
proof (cases "have_pending_record sp \<and> seq = hdr_transport_seq (fpga_header (pending_record sp))")
  case False
  then show ?thesis
    using assms(1,4)
    by (auto simp: commit_or_drop_def commit_begin_def spi_invalid_def quiet_def Let_def split: if_splits)
next
  case True
  define sp1 where "sp1 = sp\<lparr>commit_in_progress := True\<rparr>"
  have b: "commit_begin seq sp = (Inr (sp_pending_extended_frame_seq sp), sp1)"
    using assms(1) True by (simp add: commit_begin_def quiet_def sp1_def)
  obtain r sp2 w2 where rel: "release (sp_pending_extended_frame_seq sp) d (sp1, w) = (r, sp2, w2)"
    by (metis prod_cases3)
  have r: "r \<noteq> 0" "w2 = w" "sp2 = sp1"
    using release_other [OF assms(2), of "sp_pending_extended_frame_seq sp" d sp1] rel True assms(3)
      release_engine [of "sp_pending_extended_frame_seq sp" d sp1 w]
    by auto
  show ?thesis
    using assms(1,4) b rel r True
    by (auto simp: commit_or_drop_def commit_finish_def Let_def quiet_def sp1_def)
qed

text \<open>A commit whose response got lost is repeated without harm.\<close>

lemma commit_retry:
  assumes "quiet sp" "ok w" "commit_or_drop release seq d (sp, w) = (0, sp1, w1)"
    and "commit_or_drop release seq d' (sp1, w1) = (ret, sp2, w2)"
  shows "ret = - EALREADY \<and> w2 = w1 \<and>
    sst_duplicate_commit (spi_stats sp2) = sst_duplicate_commit (spi_stats sp1) + 1"
proof -
  have "have_pending_record sp \<and> seq = hdr_transport_seq (fpga_header (pending_record sp)) \<and>
      keys w \<noteq> [] \<and> hd (keys w) = sp_pending_extended_frame_seq sp"
    using commit_rejected [OF assms(1,2) _ assms(3)] by blast
  then have "\<not> have_pending_record sp1" "have_last_commit sp1" "last_committed_transport_seq sp1 = seq"
    using commit_delivers [OF assms(1,2) _ _ _ _ assms(3)] by auto
  then show ?thesis
    using assms(4) by (auto simp: commit_or_drop_def commit_begin_def Let_def)
qed

end

section \<open>Properties\<close>

definition run_command ::
  "'w release_cb \<Rightarrow> 'w control_cb \<Rightarrow> u8 \<Rightarrow> u32 \<Rightarrow> spi_transport \<times> 'w \<Rightarrow>
   int \<times> fpga_response option \<times> spi_transport \<times> 'w" where
  "run_command release control code arg =
     fpga_spi_transport_execute release control
       (Some \<lparr>cmd_code = code, cmd_reserved = [0, 0, 0], cmd_argument = arg\<rparr>) False"

lemma execute_wf_response:
  "wf_fpga_record (pending_record (fst s)) \<Longrightarrow>
    fpga_spi_transport_execute release control cp nul s = (ret, Some resp, s') \<Longrightarrow>
    wf_response resp \<and> resp_status resp = word_of_int ret"
  by (auto simp: fpga_spi_transport_execute_def Let_def wf_response_def read_pending_def
      put_payload_def zero_response_def FPGA_RECORD_SIZE_def
      split: option.splits prod.splits fpga_command_code.splits if_splits)

text \<open>
  Every command that is executed, valid or not, is answered by a response of
  exactly 260 bytes on the wire, which decodes to the response and carries the
  status the engine returned.
\<close>

theorem spi_response_wire:
  assumes "wf_fpga_record (pending_record (fst s))"
    and "fpga_spi_transport_execute release control (Some cmd) False s = (ret, respo, s')"
  shows "\<exists>resp. respo = Some resp \<and> length (fpga_response_bytes resp) = FPGA_SPI_RESPONSE_SIZE \<and>
    fpga_response_of_bytes (fpga_response_bytes resp) = resp \<and> resp_status resp = word_of_int ret"
proof -
  obtain resp where r: "respo = Some resp"
    using assms(2) by (auto simp: fpga_spi_transport_execute_def Let_def split: prod.splits)
  have "wf_response resp" "resp_status resp = word_of_int ret"
    using execute_wf_response [OF assms(1) assms(2) [unfolded r]] by simp_all
  then show ?thesis
    using r by (auto simp: fpga_response_of_bytes_bytes)
qed

definition idle_spi :: spi_transport where
  "idle_spi = snd (fpga_spi_transport_init False False
     \<lparr>pending_record = zero_fpga_record, spi_stats = zero_spi_stats, have_control_callback = False,
      sp_pending_extended_frame_seq = 0, last_committed_transport_seq = 0, have_last_commit = False,
      have_pending_record = False, commit_in_progress = False, abort_requested = False\<rparr>)"

lemma spi_response_wire_witness:
  "\<exists>resp. fst (snd (run_command (\<lambda>k d s. (0, s)) (\<lambda>c a s. (0, s)) 200 0 (idle_spi, ()))) = Some resp \<and>
     length (fpga_response_bytes resp) = 260 \<and> resp_status resp = word_of_int (- ENOTSUP)"
proof -
  obtain ret respo s' where r: "fpga_spi_transport_execute (\<lambda>k d s. (0, s)) (\<lambda>c a s. (0, s))
      (Some \<lparr>cmd_code = 200, cmd_reserved = [0, 0, 0], cmd_argument = 0\<rparr>) False (idle_spi, ()) =
      (ret, respo, s')"
    by (metis prod_cases3)
  have ret: "ret = - ENOTSUP"
    using r by (simp add: fpga_spi_transport_execute_def command_code_def Let_def)
  have "wf_fpga_record (pending_record (fst (idle_spi, ())))"
    by (simp add: idle_spi_def op_defs wf_fpga_record_def zero_fpga_record_def)
  from spi_response_wire [OF this r] r ret show ?thesis
    by (auto simp: run_command_def FPGA_SPI_RESPONSE_SIZE_def)
qed

text \<open>
  PEEK and READ are non-destructive: with a record pending, the response
  carries that record's 248 bytes, which decode to it, and its transport sequence
  number; the engine changes only its read counter, so the next PEEK answers the
  same.
\<close>

theorem spi_peek_nondestructive:
  assumes "have_pending_record sp" "wf_fpga_record (pending_record sp)" "code \<in> {3, 4}"
    and "run_command release control code arg (sp, w) = (ret, respo, sp', w')"
  shows "\<exists>resp. respo = Some resp \<and> ret = 0 \<and> resp_record_valid resp = 1 \<and>
    fpga_record_of_bytes (resp_payload resp) = pending_record sp \<and>
    resp_transport_seq resp = hdr_transport_seq (fpga_header (pending_record sp)) \<and>
    w' = w \<and>
    sp' = sp\<lparr>spi_stats := (spi_stats sp)\<lparr>sst_read_total := sst_read_total (spi_stats sp) + 1\<rparr>\<rparr> \<and>
    fst (snd (run_command release control code arg (sp', w'))) = Some resp"
  using assms
  by (auto simp: run_command_def fpga_spi_transport_execute_def command_code_def read_pending_def
      put_payload_def zero_response_def FPGA_RECORD_SIZE_def fpga_record_of_bytes_bytes Let_def)

lemma spi_peek_nondestructive_witness:
  "\<exists>resp. fst (snd (run_command (\<lambda>k d s. (0, s)) (\<lambda>c a s. (0, s)) 3 0
       (idle_spi\<lparr>have_pending_record := True\<rparr>, ()))) = Some resp \<and>
     fpga_record_of_bytes (resp_payload resp) = zero_fpga_record"
proof -
  obtain ret respo sp' w' where r: "run_command (\<lambda>k d s. (0, s)) (\<lambda>c a s. (0, s)) 3 0
      (idle_spi\<lparr>have_pending_record := True\<rparr>, ()) = (ret, respo, sp', w')"
    by (metis prod_cases4)
  have "pending_record (idle_spi\<lparr>have_pending_record := True\<rparr>) = zero_fpga_record"
    by (simp add: idle_spi_def op_defs)
  with spi_peek_nondestructive [OF _ _ _ r] r show ?thesis
    by (auto simp: wf_fpga_record_def zero_fpga_record_def)
qed

end
