(* ===== verification/Spis_Backend.thy ===== *)
theory Spis_Backend
  imports Spi_Transport
begin

text \<open>
  \<open>fpga_spis_backend.c\<close>, the part the transport calls: the backend's state, its
  initialisation, submission and statistics. The worker thread, which calls the
  transport back, is in \<open>Spis_Worker\<close>. The results of the device and GPIO drivers
  are inputs; the DRDY pin is a field of the state.
\<close>

record fpga_spis_backend_stats =
  bst_request_transactions :: u32
  bst_response_transactions :: u32
  bst_spi_errors :: u32
  bst_parser_errors :: u32
  bst_short_transfers :: u32

record spis_backend =
  backend_stats :: fpga_spis_backend_stats
  backend_ready :: bool
  drdy_level :: bool
  worker_started :: bool

record backend_drivers =
  bd_spis_ready :: bool
  bd_drdy_ready :: bool
  bd_configure_result :: int

definition zero_backend_stats :: fpga_spis_backend_stats where
  "zero_backend_stats = \<lparr>bst_request_transactions = 0, bst_response_transactions = 0,
     bst_spi_errors = 0, bst_parser_errors = 0, bst_short_transfers = 0\<rparr>"

definition update_drdy :: "spi_transport \<Rightarrow> spis_backend \<Rightarrow> spis_backend" where
  [op_defs]: "update_drdy sp b = b\<lparr>drdy_level := fpga_spi_transport_pending sp\<rparr>"

definition fpga_spis_backend_init :: "backend_drivers \<Rightarrow> spis_backend \<Rightarrow> int \<times> spis_backend" where
  [op_defs]: "fpga_spis_backend_init d b =
     (if \<not> bd_spis_ready d \<or> \<not> bd_drdy_ready d then (- ENODEV, b)
      else
        let b1 = b\<lparr>backend_stats := zero_backend_stats\<rparr>
        in if bd_configure_result d \<noteq> 0 then (bd_configure_result d, b1)
           else (0, b1\<lparr>drdy_level := False, backend_ready := True, worker_started := True\<rparr>))"

definition fpga_spis_backend_ready :: "spis_backend \<Rightarrow> bool" where
  [op_defs]: "fpga_spis_backend_ready b = backend_ready b"

definition fpga_spis_backend_submit ::
  "rx_config \<Rightarrow> fpga_record option \<Rightarrow> u32 \<Rightarrow> spi_transport \<times> spis_backend \<Rightarrow>
   int \<times> spi_transport \<times> spis_backend" where
  [op_defs]: "fpga_spis_backend_submit cfg rp extended_frame_seq s =
     (let (sp, b) = s;
          (ret, sp1) = fpga_spi_transport_stage cfg rp extended_frame_seq sp
      in (ret, sp1, if ret = 0 then update_drdy sp1 b else b))"

definition fpga_spis_backend_get_stats :: "spis_backend \<Rightarrow> fpga_spis_backend_stats" where
  [op_defs]: "fpga_spis_backend_get_stats b = backend_stats b"

end
