(* ===== verification/Fifo_Interface.thy ===== *)
theory Fifo_Interface
  imports Prelude
begin

text \<open>
  The contract of a bounded first-in first-out store with explicit commit, as the
  receiver's transport relies on it: a push either appends or fails and changes
  nothing, a peek shows the oldest element, a commit names the key of the element
  it releases and fails when that is not the oldest one. The locale states the
  laws and proves once what every client of such a store needs.
\<close>

datatype ('a, 'k) fifo_op = Push_Op 'a | Commit_Op 'k

text \<open>
  A client's history: the elements accepted so far, the elements released so far,
  and the store after them.
\<close>

fun fifo_step ::
  "('a \<Rightarrow> 'q \<Rightarrow> int \<times> 'q) \<Rightarrow> ('q \<Rightarrow> int + 'a) \<Rightarrow> ('k \<Rightarrow> 'q \<Rightarrow> int \<times> 'q) \<Rightarrow>
   ('a, 'k) fifo_op \<Rightarrow> 'a list \<times> 'a list \<times> 'q \<Rightarrow> 'a list \<times> 'a list \<times> 'q" where
  "fifo_step push peek commit (Push_Op x) (acc, rel, q) =
     (let (r, q') = push x q in (if r = 0 then acc @ [x] else acc, rel, q'))"
| "fifo_step push peek commit (Commit_Op k) (acc, rel, q) =
     (let (r, q') = commit k q in
       (acc, (case peek q of Inr x \<Rightarrow> (if r = 0 then rel @ [x] else rel) | Inl _ \<Rightarrow> rel), q'))"

fun fifo_run ::
  "('a \<Rightarrow> 'q \<Rightarrow> int \<times> 'q) \<Rightarrow> ('q \<Rightarrow> int + 'a) \<Rightarrow> ('k \<Rightarrow> 'q \<Rightarrow> int \<times> 'q) \<Rightarrow>
   ('a, 'k) fifo_op list \<Rightarrow> 'a list \<times> 'a list \<times> 'q \<Rightarrow> 'a list \<times> 'a list \<times> 'q" where
  "fifo_run push peek commit [] st = st"
| "fifo_run push peek commit (x # xs) st =
     fifo_run push peek commit xs (fifo_step push peek commit x st)"

locale bounded_fifo =
  fixes push :: "'a \<Rightarrow> 'q \<Rightarrow> int \<times> 'q"
    and peek :: "'q \<Rightarrow> int + 'a"
    and commit :: "'k \<Rightarrow> 'q \<Rightarrow> int \<times> 'q"
    and key :: "'a \<Rightarrow> 'k"
    and contents :: "'q \<Rightarrow> 'a list"
    and valid :: "'q \<Rightarrow> bool"
    and cap :: nat
  assumes push_space: "valid q \<Longrightarrow> length (contents q) < cap \<Longrightarrow>
      fst (push x q) = 0 \<and> contents (snd (push x q)) = contents q @ [x]"
    and push_full: "valid q \<Longrightarrow> \<not> length (contents q) < cap \<Longrightarrow>
      fst (push x q) \<noteq> 0 \<and> contents (snd (push x q)) = contents q"
    and push_valid: "valid q \<Longrightarrow> valid (snd (push x q))"
    and peek_some: "valid q \<Longrightarrow> contents q \<noteq> [] \<Longrightarrow> peek q = Inr (hd (contents q))"
    and peek_none: "valid q \<Longrightarrow> contents q = [] \<Longrightarrow> \<exists>e. peek q = Inl e"
    and commit_head: "valid q \<Longrightarrow> contents q \<noteq> [] \<Longrightarrow> key (hd (contents q)) = k \<Longrightarrow>
      fst (commit k q) = 0 \<and> contents (snd (commit k q)) = tl (contents q)"
    and commit_other: "valid q \<Longrightarrow> contents q = [] \<or> key (hd (contents q)) \<noteq> k \<Longrightarrow>
      fst (commit k q) \<noteq> 0 \<and> snd (commit k q) = q"
    and commit_valid: "valid q \<Longrightarrow> valid (snd (commit k q))"
begin

lemma peek_iff: "valid q \<Longrightarrow> peek q = Inr x \<longleftrightarrow> contents q \<noteq> [] \<and> x = hd (contents q)"
  using peek_some [of q] peek_none [of q] by (cases "contents q = []") auto

lemma peek_then_commit:
  assumes "valid q" "peek q = Inr x"
  shows "fst (commit (key x) q) = 0" "contents q = x # contents (snd (commit (key x) q))"
  using assms commit_head [of q "key x"] by (auto simp: peek_iff)

lemma commit_result:
  assumes "valid q" "fst (commit k q) = 0"
  shows "contents q \<noteq> []" "key (hd (contents q)) = k"
    "contents (snd (commit k q)) = tl (contents q)"
  using assms commit_other [of q k] commit_head [of q k] by auto

lemma push_result:
  "valid q \<Longrightarrow> contents (snd (push x q)) =
    (if fst (push x q) = 0 then contents q @ [x] else contents q)"
  using push_space [of q x] push_full [of q x] by (cases "length (contents q) < cap") auto

definition history_ok :: "'a list \<times> 'a list \<times> 'q \<Rightarrow> bool" where
  "history_ok st \<longleftrightarrow> (case st of (acc, rel, q) \<Rightarrow> valid q \<and> acc = rel @ contents q)"

lemma history_step: "history_ok st \<Longrightarrow> history_ok (fifo_step push peek commit a st)"
proof (cases st)
  case (fields acc rel q)
  assume ok: "history_ok st"
  then have q: "valid q" and acc: "acc = rel @ contents q"
    by (auto simp: fields history_ok_def)
  show ?thesis
  proof (cases a)
    case (Push_Op x)
    then show ?thesis
      using q acc push_result [of q x] push_valid [of q x]
      by (auto simp: fields history_ok_def split: prod.splits)
  next
    case (Commit_Op k)
    show ?thesis
    proof (cases "fst (commit k q) = 0")
      case True
      note r = commit_result [OF q True]
      with q have "peek q = Inr (hd (contents q))" by (simp add: peek_some)
      with r True show ?thesis
        using q acc commit_valid [OF q, of k]
        by (auto simp: fields Commit_Op history_ok_def split: prod.splits)
    next
      case False
      then have "snd (commit k q) = q"
        using q commit_other [of q k] commit_head [of q k] by auto
      with False show ?thesis
        using q acc
        by (auto simp: fields Commit_Op history_ok_def split: prod.splits sum.splits)
    qed
  qed
qed

lemma history_run: "history_ok st \<Longrightarrow> history_ok (fifo_run push peek commit ops st)"
  by (induction ops arbitrary: st) (simp_all add: history_step)

text \<open>Nothing is lost, duplicated or reordered between acceptance and release.\<close>

lemma fifo_order:
  assumes "valid q" "contents q = []"
    and "fifo_run push peek commit ops ([], [], q) = (acc, rel, q')"
  shows "acc = rel @ contents q' \<and> valid q'"
  using history_run [of "([], [], q)" ops] assms by (simp add: history_ok_def)

end

end
