(* ===== verification/Frame_Queue.thy ===== *)
theory Frame_Queue
  imports Wire_Formats Fifo_Interface
begin

text \<open>
  \<open>frame_queue.c\<close>: the statically allocated ring of receiver records between the
  radio thread and the FPGA transport. The state is the file's static variables;
  every function runs in one critical section of \<open>queue_lock\<close>, so it is one step.
  \<open>CONFIG_RF_LINK_FRAME_QUEUE_DEPTH\<close> is the length of \<open>fq_records\<close>. The indices
  are \<open>size_t\<close> values below that depth.
\<close>

record frame_queue_stats =
  push_total :: u32
  pop_total :: u32
  overflow :: u32
  high_water :: u32

record frame_queue =
  fq_records :: "rx_frame_record list"
  fq_stats :: frame_queue_stats
  read_index :: nat
  write_index :: nat
  record_count :: nat

definition zero_queue_stats :: frame_queue_stats where
  "zero_queue_stats = \<lparr>push_total = 0, pop_total = 0, overflow = 0, high_water = 0\<rparr>"

definition frame_queue_init :: "frame_queue \<Rightarrow> frame_queue" where
  [op_defs]: "frame_queue_init q = q\<lparr>read_index := 0, write_index := 0, record_count := 0,
     fq_stats := zero_queue_stats\<rparr>"

text \<open>A record pointer is an option, \<open>None\<close> for \<open>NULL\<close>.\<close>

definition frame_queue_push :: "rx_frame_record option \<Rightarrow> frame_queue \<Rightarrow> int \<times> frame_queue" where
  [op_defs]: "frame_queue_push rp q =
     (case rp of
        None \<Rightarrow> (- EINVAL, q)
      | Some r \<Rightarrow>
          if record_count q = length (fq_records q) then
            (- ENOSPC, q\<lparr>fq_stats := (fq_stats q)\<lparr>overflow := overflow (fq_stats q) + 1\<rparr>\<rparr>)
          else
            let n = record_count q + 1;
                st = (fq_stats q)\<lparr>push_total := push_total (fq_stats q) + 1\<rparr>;
                st' = (if n > unat (high_water st) then st\<lparr>high_water := of_nat n\<rparr> else st)
            in (0, q\<lparr>fq_records := (fq_records q)[write_index q := r],
                     write_index := (write_index q + 1) mod length (fq_records q),
                     record_count := n, fq_stats := st'\<rparr>))"

definition frame_queue_peek :: "bool \<Rightarrow> frame_queue \<Rightarrow> int + rx_frame_record" where
  [op_defs]: "frame_queue_peek dst_null q =
     (if dst_null then Inl (- EINVAL)
      else if record_count q = 0 then Inl (- ENODATA)
      else Inr (fq_records q ! read_index q))"

definition frame_queue_commit :: "u32 \<Rightarrow> frame_queue \<Rightarrow> int \<times> frame_queue" where
  [op_defs]: "frame_queue_commit expected q =
     (if record_count q = 0 then (- ENODATA, q)
      else if rec_extended_frame_seq (fq_records q ! read_index q) \<noteq> expected then (- ESTALE, q)
      else (0, q\<lparr>read_index := (read_index q + 1) mod length (fq_records q),
                 record_count := record_count q - 1,
                 fq_stats := (fq_stats q)\<lparr>pop_total := pop_total (fq_stats q) + 1\<rparr>\<rparr>))"

definition frame_queue_clear :: "frame_queue \<Rightarrow> frame_queue" where
  [op_defs]: "frame_queue_clear q = q\<lparr>read_index := 0, write_index := 0, record_count := 0\<rparr>"

definition frame_queue_level :: "frame_queue \<Rightarrow> nat" where
  [op_defs]: "frame_queue_level q = record_count q"

definition frame_queue_high_water :: "frame_queue \<Rightarrow> u32" where
  [op_defs]: "frame_queue_high_water q = high_water (fq_stats q)"

definition frame_queue_stats_get :: "frame_queue \<Rightarrow> frame_queue_stats" where
  [op_defs]: "frame_queue_stats_get q = fq_stats q"

section \<open>Invariant and abstraction\<close>

text \<open>The records still queued, oldest first.\<close>

definition fq_list :: "frame_queue \<Rightarrow> rx_frame_record list" where
  "fq_list q = map (\<lambda>i. fq_records q ! ((read_index q + i) mod length (fq_records q)))
     [0..<record_count q]"

definition fq_inv :: "nat \<Rightarrow> frame_queue \<Rightarrow> bool" where
  "fq_inv depth q \<longleftrightarrow> length (fq_records q) = depth \<and> 0 < depth \<and> depth < 2 ^ 32 \<and>
     read_index q < depth \<and> record_count q \<le> depth \<and>
     write_index q = (read_index q + record_count q) mod depth \<and>
     record_count q \<le> unat (high_water (fq_stats q)) \<and> unat (high_water (fq_stats q)) \<le> depth"

lemma length_fq_list [simp]: "length (fq_list q) = record_count q"
  by (simp add: fq_list_def)

lemma fq_list_empty_iff: "fq_list q = [] \<longleftrightarrow> record_count q = 0"
  by (metis length_0_conv length_fq_list)

lemma hd_fq_list:
  "fq_inv depth q \<Longrightarrow> record_count q \<noteq> 0 \<Longrightarrow> hd (fq_list q) = fq_records q ! read_index q"
  by (simp add: fq_inv_def fq_list_def hd_map)

lemma mod_inj_below:
  fixes i j n r :: nat
  assumes "i < n" "j < n" "(r + i) mod n = (r + j) mod n"
  shows "i = j"
proof -
  have "x = y" if "x \<le> y" "y < n" "(r + x) mod n = (r + y) mod n" for x y
  proof -
    have "n dvd (r + y) - (r + x)"
      using that mod_eq_dvd_iff_nat [of "r + x" "r + y" n] by simp
    with that show ?thesis
      by (auto dest: dvd_imp_le)
  qed
  with assms show ?thesis
    by (metis nat_le_linear)
qed

lemma fq_list_push:
  assumes inv: "fq_inv depth q" and space: "record_count q < depth"
  shows "fq_list (q\<lparr>fq_records := (fq_records q)[write_index q := r], write_index := w,
           record_count := record_count q + 1, fq_stats := st\<rparr>) = fq_list q @ [r]"
proof -
  let ?rs = "(fq_records q)[write_index q := r]"
  have w: "write_index q = (read_index q + record_count q) mod depth"
    and len: "length (fq_records q) = depth" and pos: "0 < depth"
    using inv by (simp_all add: fq_inv_def)
  have "?rs ! ((read_index q + i) mod depth) = fq_records q ! ((read_index q + i) mod depth)"
    if "i < record_count q" for i
  proof -
    have "(read_index q + record_count q) mod depth \<noteq> (read_index q + i) mod depth"
      using that space mod_inj_below [of i depth "record_count q" "read_index q"] by auto
    then show ?thesis
      by (simp add: w)
  qed
  moreover have "?rs ! ((read_index q + record_count q) mod depth) = r"
    using len pos by (simp add: w)
  ultimately show ?thesis
    by (simp add: fq_list_def len)
qed

lemma fq_list_pop:
  assumes inv: "fq_inv depth q" and ne: "record_count q \<noteq> 0"
  shows "fq_list (q\<lparr>read_index := (read_index q + 1) mod length (fq_records q),
           record_count := record_count q - 1, fq_stats := st\<rparr>) = tl (fq_list q)"
proof (rule nth_equalityI)
  fix i
  assume "i < length (fq_list (q\<lparr>read_index := (read_index q + 1) mod length (fq_records q),
           record_count := record_count q - 1, fq_stats := st\<rparr>))"
  then show "fq_list (q\<lparr>read_index := (read_index q + 1) mod length (fq_records q),
           record_count := record_count q - 1, fq_stats := st\<rparr>) ! i = tl (fq_list q) ! i"
    using ne by (simp add: fq_list_def nth_tl mod_add_left_eq)
qed simp

section \<open>Every operation keeps the invariant\<close>

lemma fq_inv_init:
  "0 < length (fq_records q) \<Longrightarrow> length (fq_records q) < 2 ^ 32 \<Longrightarrow>
    fq_inv (length (fq_records q)) (frame_queue_init q)"
  by (simp add: frame_queue_init_def fq_inv_def zero_queue_stats_def)

lemma fq_inv_push [inv_intro]: "fq_inv depth q \<Longrightarrow> fq_inv depth (snd (frame_queue_push rp q))"
  by (auto simp: frame_queue_push_def fq_inv_def Let_def mod_Suc_eq of_nat_unat_small
      simp del: of_nat_Suc split: option.split)

lemma pop_write_index:
  fixes r n d :: nat
  assumes "n \<noteq> 0"
  shows "(r + n) mod d = (Suc r mod d + n - Suc 0) mod d"
proof -
  have "(Suc r mod d + (n - 1)) mod d = (Suc r + (n - 1)) mod d"
    by (rule mod_add_left_eq)
  with assms show ?thesis
    by simp
qed

lemma fq_inv_commit [inv_intro]: "fq_inv depth q \<Longrightarrow> fq_inv depth (snd (frame_queue_commit k q))"
  using pop_write_index [of "record_count q" "read_index q" depth]
  by (auto simp: frame_queue_commit_def fq_inv_def)

lemma fq_inv_clear [inv_intro]: "fq_inv depth q \<Longrightarrow> fq_inv depth (frame_queue_clear q)"
  by (simp add: frame_queue_clear_def fq_inv_def)

section \<open>The queue is a bounded FIFO\<close>

lemma push_some_list:
  assumes "fq_inv depth q"
  shows "fst (frame_queue_push (Some r) q) = (if record_count q < depth then 0 else - ENOSPC)"
    and "fq_list (snd (frame_queue_push (Some r) q)) =
      (if record_count q < depth then fq_list q @ [r] else fq_list q)"
proof -
  have d: "length (fq_records q) = depth" "record_count q \<le> depth"
    using assms by (simp_all add: fq_inv_def)
  show "fst (frame_queue_push (Some r) q) = (if record_count q < depth then 0 else - ENOSPC)"
    using d by (simp add: frame_queue_push_def Let_def)
  show "fq_list (snd (frame_queue_push (Some r) q)) =
      (if record_count q < depth then fq_list q @ [r] else fq_list q)"
    using d fq_list_push [OF assms, where r = r]
    by (simp add: frame_queue_push_def Let_def) (simp add: fq_list_def)
qed

lemma commit_list:
  assumes "fq_inv depth q" "fq_list q \<noteq> []" "rec_extended_frame_seq (hd (fq_list q)) = k"
  shows "fst (frame_queue_commit k q) = 0"
    and "fq_list (snd (frame_queue_commit k q)) = tl (fq_list q)"
  using assms fq_list_pop [OF assms(1)]
  by (simp_all add: frame_queue_commit_def fq_list_empty_iff hd_fq_list)

lemma commit_refused:
  assumes "fq_inv depth q" "fq_list q = [] \<or> rec_extended_frame_seq (hd (fq_list q)) \<noteq> k"
  shows "fst (frame_queue_commit k q) = (if fq_list q = [] then - ENODATA else - ESTALE)"
    and "snd (frame_queue_commit k q) = q"
  using assms by (cases "record_count q = 0";
      simp add: frame_queue_commit_def fq_list_empty_iff hd_fq_list)+

lemma fq_list_clear [simp]: "fq_list (frame_queue_clear q) = []"
  by (simp add: frame_queue_clear_def fq_list_def)

lemma fq_list_init [simp]: "fq_list (frame_queue_init q) = []"
  by (simp add: frame_queue_init_def fq_list_def)

lemma peek_list:
  "fq_inv depth q \<Longrightarrow> frame_queue_peek False q =
    (if fq_list q = [] then Inl (- ENODATA) else Inr (hd (fq_list q)))"
  by (simp add: frame_queue_peek_def fq_list_empty_iff hd_fq_list)

interpretation rxq: bounded_fifo "\<lambda>r. frame_queue_push (Some r)" "frame_queue_peek False"
    frame_queue_commit rec_extended_frame_seq fq_list "fq_inv depth" depth for depth
  by unfold_locales
    (auto simp: push_some_list peek_list commit_list commit_refused inv_intro)

section \<open>Properties\<close>

abbreviation queue_history ::
  "(rx_frame_record, u32) fifo_op list \<Rightarrow> frame_queue \<Rightarrow>
   rx_frame_record list \<times> rx_frame_record list \<times> frame_queue" where
  "queue_history ops q \<equiv> fifo_run (\<lambda>r. frame_queue_push (Some r)) (frame_queue_peek False)
     frame_queue_commit ops ([], [], q)"

text \<open>A queue of two slots and records to put in it, for the witnesses.\<close>

definition sample_queue :: frame_queue where
  "sample_queue = \<lparr>fq_records = replicate 2 zero_rx_record, fq_stats = zero_queue_stats,
     read_index = 0, write_index = 0, record_count = 0\<rparr>"

lemma sample_queue_inv: "fq_inv 2 sample_queue"
  by (simp add: fq_inv_def sample_queue_def zero_queue_stats_def)

definition sample_record :: "u32 \<Rightarrow> rx_frame_record" where
  "sample_record k = zero_rx_record\<lparr>rec_extended_frame_seq := k\<rparr>"

text \<open>
  C8. In every history of pushes and commits after \<open>frame_queue_init\<close>, the records
  accepted are, in order, the records released followed by the records still
  queued: the ring loses, duplicates and reorders nothing, whatever wraps around
  and whatever commits are refused.
\<close>

theorem frame_queue_fifo_order:
  assumes "0 < length (fq_records q)" "length (fq_records q) < 2 ^ 32"
    and "queue_history ops (frame_queue_init q) = (accepted, released, q')"
  shows "accepted = released @ fq_list q' \<and> length (fq_list q') \<le> length (fq_records q)"
  using rxq.fifo_order [OF fq_inv_init [OF assms(1,2)] fq_list_init assms(3)]
  by (auto simp: fq_inv_def)

text \<open>The ring wraps in this history, one push is refused, one commit names the wrong record.\<close>

lemma frame_queue_fifo_order_witness:
  "let ops = [Push_Op (sample_record 1), Push_Op (sample_record 2), Push_Op (sample_record 3),
       Commit_Op 2, Commit_Op 1, Push_Op (sample_record 4)];
     (acc, rel, q') = queue_history ops (frame_queue_init sample_queue)
   in acc = rel @ fq_list q' \<and> acc = [sample_record 1, sample_record 2, sample_record 4] \<and>
     rel = [sample_record 1]"
proof -
  let ?ops = "[Push_Op (sample_record 1), Push_Op (sample_record 2), Push_Op (sample_record 3),
       Commit_Op 2, Commit_Op 1, Push_Op (sample_record 4)]"
  obtain acc rel q' where r: "queue_history ?ops (frame_queue_init sample_queue) = (acc, rel, q')"
    by (cases "queue_history ?ops (frame_queue_init sample_queue)")
  have "acc = rel @ fq_list q'"
    using frame_queue_fifo_order [OF _ _ r] by (simp add: sample_queue_def)
  moreover have "acc = [sample_record 1, sample_record 2, sample_record 4]" "rel = [sample_record 1]"
    using r by (simp_all add: op_defs sample_queue_def sample_record_def zero_queue_stats_def Let_def)
  ultimately show ?thesis
    unfolding Let_def r by simp
qed

text \<open>
  A push either appends the record and counts it, or, exactly when every slot
  is taken, returns \<open>-ENOSPC\<close>, counts the overflow and leaves the queued records
  untouched: the queue never overwrites. Both keep the invariant, and the
  high-water mark never falls below the level.
\<close>

theorem frame_queue_push_outcome:
  assumes "fq_inv depth q" "frame_queue_push (Some r) q = (res, q')"
  shows "fq_inv depth q' \<and>
    (if length (fq_list q) < depth
     then res = 0 \<and> fq_list q' = fq_list q @ [r] \<and>
       push_total (fq_stats q') = push_total (fq_stats q) + 1 \<and>
       overflow (fq_stats q') = overflow (fq_stats q)
     else res = - ENOSPC \<and> fq_list q' = fq_list q \<and>
       overflow (fq_stats q') = overflow (fq_stats q) + 1 \<and>
       push_total (fq_stats q') = push_total (fq_stats q))"
proof -
  have "record_count q < depth \<longleftrightarrow> record_count q \<noteq> length (fq_records q)"
    using assms(1) by (auto simp: fq_inv_def)
  then show ?thesis
    using fq_inv_push [OF assms(1), of "Some r"] push_some_list [OF assms(1), of r] assms(2)
    by (auto simp: frame_queue_push_def Let_def)
qed

lemma frame_queue_push_outcome_witness:
  "fq_inv 2 sample_queue \<and>
   fq_list (snd (frame_queue_push (Some (sample_record 7)) sample_queue)) = [sample_record 7]"
proof -
  note inv = sample_queue_inv
  have "fq_list sample_queue = []"
    by (simp add: fq_list_def sample_queue_def)
  then show ?thesis
    using inv frame_queue_push_outcome [OF inv surjective_pairing, of "sample_record 7"] by simp
qed

text \<open>
  Peek shows the oldest record without changing anything, and a commit
  succeeds exactly when it names that record's extended sequence number: then it
  releases that record only, otherwise it changes nothing.
\<close>

theorem frame_queue_commit_exact:
  assumes "fq_inv depth q"
  shows "frame_queue_commit k q = (res, q') \<Longrightarrow>
    (res = 0 \<longleftrightarrow> (\<exists>r. frame_queue_peek False q = Inr r \<and> rec_extended_frame_seq r = k)) \<and>
    (res = 0 \<longrightarrow> frame_queue_peek False q = Inr (hd (fq_list q)) \<and> fq_list q' = tl (fq_list q)) \<and>
    (res \<noteq> 0 \<longrightarrow> q' = q \<and> res = (if fq_list q = [] then - ENODATA else - ESTALE))"
  using commit_list [OF assms, of k] commit_refused [OF assms, of k] peek_list [OF assms]
  by (cases "fq_list q = [] \<or> rec_extended_frame_seq (hd (fq_list q)) \<noteq> k") auto

lemma frame_queue_commit_exact_witness:
  "fq_inv 2 (snd (frame_queue_push (Some (sample_record 7)) sample_queue)) \<and>
   fst (frame_queue_commit 7 (snd (frame_queue_push (Some (sample_record 7)) sample_queue))) = 0 \<and>
   fst (frame_queue_commit 8 (snd (frame_queue_push (Some (sample_record 7)) sample_queue))) \<noteq> 0"
proof -
  let ?q = "snd (frame_queue_push (Some (sample_record 7)) sample_queue)"
  have inv: "fq_inv 2 ?q"
    by (rule fq_inv_push [OF sample_queue_inv])
  have p: "frame_queue_peek False ?q = Inr (sample_record 7)"
    by (simp add: op_defs sample_queue_def zero_queue_stats_def Let_def)
  have k: "rec_extended_frame_seq (sample_record 7) = 7"
    by (simp add: sample_record_def)
  define q where "q = ?q"
  have "fst (frame_queue_commit 7 q) = 0" "fst (frame_queue_commit 8 q) \<noteq> 0"
    using frame_queue_commit_exact [OF inv [folded q_def] surjective_pairing, of 7]
      frame_queue_commit_exact [OF inv [folded q_def] surjective_pairing, of 8]
      p [folded q_def] k by simp_all
  then show ?thesis
    using inv unfolding q_def by blast
qed

text \<open>
  The level is always the difference of the push and pop counters (as 32-bit
  counters), in every history of pushes and commits since initialisation.
\<close>

definition counters_balance :: "frame_queue \<Rightarrow> bool" where
  "counters_balance q \<longleftrightarrow>
     of_nat (record_count q) = push_total (fq_stats q) - pop_total (fq_stats q)"

lemma counters_push: "counters_balance q \<Longrightarrow> counters_balance (snd (frame_queue_push rp q))"
  by (auto simp: counters_balance_def frame_queue_push_def Let_def split: option.split)

lemma counters_commit: "counters_balance q \<Longrightarrow> counters_balance (snd (frame_queue_commit k q))"
  by (auto simp: counters_balance_def frame_queue_commit_def of_nat_diff)

lemma counters_run:
  "fifo_run (\<lambda>r. frame_queue_push (Some r)) pk frame_queue_commit ops (a, r, q) = (a', r', q') \<Longrightarrow>
    counters_balance q \<Longrightarrow> counters_balance q'"
proof (induction ops arbitrary: a r q)
  case (Cons x xs)
  show ?case
  proof (cases x)
    case (Push_Op y)
    then show ?thesis
      using Cons.prems Cons.IH [OF _ counters_push [OF Cons.prems(2), of "Some y"]]
      by (auto split: prod.splits)
  next
    case (Commit_Op k)
    then show ?thesis
      using Cons.prems Cons.IH [OF _ counters_commit [OF Cons.prems(2), of k]]
      by (auto split: prod.splits)
  qed
qed simp

theorem frame_queue_counters:
  assumes "queue_history ops (frame_queue_init q) = (accepted, released, q')"
  shows "(of_nat (frame_queue_level q') :: u32) =
    push_total (frame_queue_stats_get q') - pop_total (frame_queue_stats_get q')"
proof -
  have "counters_balance (frame_queue_init q)"
    by (simp add: counters_balance_def frame_queue_init_def zero_queue_stats_def)
  from counters_run [OF assms this] show ?thesis
    by (simp add: counters_balance_def frame_queue_level_def frame_queue_stats_get_def)
qed

lemma frame_queue_counters_witness:
  "let (acc, rel, q') = queue_history [Push_Op (sample_record 1)] (frame_queue_init sample_queue)
   in (of_nat (frame_queue_level q') :: u32) =
    push_total (frame_queue_stats_get q') - pop_total (frame_queue_stats_get q')"
proof -
  obtain acc rel q' where
    r: "queue_history [Push_Op (sample_record 1)] (frame_queue_init sample_queue) = (acc, rel, q')"
    by (cases "queue_history [Push_Op (sample_record 1)] (frame_queue_init sample_queue)")
  show ?thesis
    unfolding r Let_def using frame_queue_counters [OF r] by simp
qed

end
