(* ===== verification/Sync_Manager.thy ===== *)
theory Sync_Manager
  imports Wire_Formats Timebase "HOL-Library.Sublist"
begin

text \<open>
  \<open>sync_manager.c\<close>: alignment of the sample stream to a hardware sync pulse. The
  state is the file's static variables together with the timebase the file calls;
  every function runs under \<open>sync_lock\<close>, so it is one step.
\<close>

datatype sync_state =
  SYNC_IDLE | SYNC_ARMED | SYNC_WAIT_START | SYNC_ALIGNING | SYNC_LOCKED | SYNC_DEGRADED | SYNC_ERROR

fun sync_state_code :: "sync_state \<Rightarrow> u16" where
  "sync_state_code SYNC_IDLE = 0"
| "sync_state_code SYNC_ARMED = 1"
| "sync_state_code SYNC_WAIT_START = 2"
| "sync_state_code SYNC_ALIGNING = 3"
| "sync_state_code SYNC_LOCKED = 4"
| "sync_state_code SYNC_DEGRADED = 5"
| "sync_state_code SYNC_ERROR = 6"

record sync_status =
  state :: sync_state
  sync_capture_count :: u32
  sync_timeout :: u32
  sync_epoch :: u32
  resync_count :: u32
  sync_tick :: u64
  start_sample_index :: u64
  sync_locked :: bool

record sync_manager =
  sync_status_data :: sync_status
  arm_tick :: u64
  have_armed_once :: bool

definition zero_sync_status :: sync_status where
  "zero_sync_status = \<lparr>state = SYNC_IDLE, sync_capture_count = 0, sync_timeout = 0,
     sync_epoch = 0, resync_count = 0, sync_tick = 0, start_sample_index = 0,
     sync_locked = False\<rparr>"

definition sync_manager_init :: "int \<times> sync_manager" where
  [op_defs]: "sync_manager_init =
     (0, \<lparr>sync_status_data = zero_sync_status, arm_tick = 0, have_armed_once = False\<rparr>)"

text \<open>\<open>raw\<close> and \<open>cycles\<close> are what the hardware shows when \<open>timebase_now_ticks\<close> reads it.\<close>

definition sync_manager_arm ::
  "rx_config \<Rightarrow> u32 \<Rightarrow> u32 \<Rightarrow> u64 \<Rightarrow> sync_manager \<times> timebase_state \<Rightarrow>
   int \<times> sync_manager \<times> timebase_state" where
  [op_defs]: "sync_manager_arm cfg epoch raw cycles s =
     (let (sm, tb) = s;
          st = sync_status_data sm;
          st1 = (if have_armed_once sm then st\<lparr>resync_count := resync_count st + 1\<rparr> else st);
          (now, tb') = timebase_now_ticks cfg raw cycles tb
      in (0, sm\<lparr>have_armed_once := True,
                sync_status_data := st1\<lparr>state := SYNC_ARMED, sync_epoch := epoch, sync_tick := 0,
                  start_sample_index := 0, sync_locked := False\<rparr>,
                arm_tick := now\<rparr>, tb'))"

definition sync_manager_on_sync_capture ::
  "u64 \<Rightarrow> sync_manager \<times> timebase_state \<Rightarrow> sync_manager \<times> timebase_state" where
  [op_defs]: "sync_manager_on_sync_capture tick s =
     (let (sm, tb) = s; st = sync_status_data sm
      in if state st \<noteq> SYNC_ARMED then (sm, tb)
         else (sm\<lparr>sync_status_data := st\<lparr>sync_tick := tick,
                 sync_capture_count := sync_capture_count st + 1, state := SYNC_WAIT_START\<rparr>\<rparr>,
               timebase_on_sync_capture tick tb))"

text \<open>
  The record pointer is an option; the record it points to is updated in place, so
  it is returned. The state \<open>SYNC_ALIGNING\<close>, which the source stores and
  overwrites before it releases the lock, is stored and overwritten here too.
\<close>

definition sync_manager_on_frame ::
  "rx_frame_record option \<Rightarrow> sync_manager \<Rightarrow> rx_frame_record option \<times> sync_manager" where
  [op_defs]: "sync_manager_on_frame rp sm =
     (case rp of
        None \<Rightarrow> (None, sm)
      | Some r0 \<Rightarrow>
          let st = sync_status_data sm;
              r = r0\<lparr>rec_sync_epoch := sync_epoch st\<rparr>
          in if state st = SYNC_WAIT_START \<and>
                rec_status_flags r AND RX_FRAME_STATUS_BATCH_START \<noteq> 0 then
               let st1 = st\<lparr>state := SYNC_ALIGNING,
                           start_sample_index := rec_logical_sample_index r\<rparr>;
                   r1 = r\<lparr>rec_logical_sample_index := 0,
                          rec_status_flags := rec_status_flags r OR RX_FRAME_STATUS_SYNCED\<rparr>
               in (Some r1, sm\<lparr>sync_status_data := st1\<lparr>sync_locked := True, state := SYNC_LOCKED\<rparr>\<rparr>)
             else if state st = SYNC_LOCKED then
               if start_sample_index st \<le> rec_logical_sample_index r then
                 (Some (r\<lparr>rec_logical_sample_index :=
                            rec_logical_sample_index r - start_sample_index st,
                          rec_status_flags := rec_status_flags r OR RX_FRAME_STATUS_SYNCED\<rparr>), sm)
               else (Some r, sm\<lparr>sync_status_data := st\<lparr>state := SYNC_ERROR, sync_locked := False\<rparr>\<rparr>)
             else if state st = SYNC_DEGRADED then
               (Some (r\<lparr>rec_status_flags := rec_status_flags r OR RX_FRAME_STATUS_SYNC_DEGRADED\<rparr>), sm)
             else (Some r, sm))"

definition degrade :: "sync_manager \<Rightarrow> sync_manager" where
  [op_defs]: "degrade sm = sm\<lparr>sync_status_data :=
     (sync_status_data sm)\<lparr>state := SYNC_DEGRADED, sync_locked := False\<rparr>\<rparr>"

definition sync_manager_on_sequence_gap :: "rx_config \<Rightarrow> u32 \<Rightarrow> sync_manager \<Rightarrow> sync_manager" where
  [op_defs]: "sync_manager_on_sequence_gap cfg lost sm =
     (if RF_LINK_SYNC_LARGE_GAP_FRAMES cfg \<le> lost then degrade sm else sm)"

definition sync_manager_on_queue_overflow :: "sync_manager \<Rightarrow> sync_manager" where
  [op_defs]: "sync_manager_on_queue_overflow sm = degrade sm"

definition sync_manager_poll :: "rx_config \<Rightarrow> u64 \<Rightarrow> sync_manager \<Rightarrow> sync_manager" where
  [op_defs]: "sync_manager_poll cfg now_tick sm =
     (let st = sync_status_data sm
      in if state st \<noteq> SYNC_ARMED \<and> state st \<noteq> SYNC_WAIT_START then sm
         else
           let elapsed_ticks = now_tick - arm_tick sm;
               frequency = timebase_frequency_hz cfg;
               elapsed_ms = (if frequency = 0 then - 1
                             else (elapsed_ticks * 1000) div ucast frequency)
           in if RF_LINK_SYNC_TIMEOUT_MS cfg \<le> elapsed_ms then
                sm\<lparr>sync_status_data := st\<lparr>sync_timeout := sync_timeout st + 1,
                  sync_locked := False, state := SYNC_DEGRADED\<rparr>\<rparr>
              else sm)"

definition sync_manager_stop :: "sync_manager \<Rightarrow> sync_manager" where
  [op_defs]: "sync_manager_stop sm = sm\<lparr>sync_status_data :=
     (sync_status_data sm)\<lparr>state := SYNC_IDLE, sync_locked := False\<rparr>\<rparr>"

definition sync_manager_get_status :: "sync_manager \<Rightarrow> sync_status" where
  [op_defs]: "sync_manager_get_status sm = sync_status_data sm"

section \<open>The state machine\<close>

text \<open>The calls other parts of the receiver make, in the order \<open>sync_lock\<close> gives them.\<close>

datatype sync_event =
  Arm u32 u32 u64 | Capture u64 | Frame "rx_frame_record option" | Gap u32 | Overflow
| Poll u64 | Stop

inductive sync_step ::
  "rx_config \<Rightarrow> sync_manager \<times> timebase_state \<Rightarrow> sync_event \<Rightarrow> sync_manager \<times> timebase_state \<Rightarrow> bool"
  for cfg where
  Arm_step: "sync_step cfg s (Arm e raw cyc) (snd (sync_manager_arm cfg e raw cyc s))"
| Capture_step: "sync_step cfg s (Capture t) (sync_manager_on_sync_capture t s)"
| Frame_step: "sync_step cfg (sm, tb) (Frame rp) (snd (sync_manager_on_frame rp sm), tb)"
| Gap_step: "sync_step cfg (sm, tb) (Gap n) (sync_manager_on_sequence_gap cfg n sm, tb)"
| Overflow_step: "sync_step cfg (sm, tb) Overflow (sync_manager_on_queue_overflow sm, tb)"
| Poll_step: "sync_step cfg (sm, tb) (Poll now) (sync_manager_poll cfg now sm, tb)"
| Stop_step: "sync_step cfg (sm, tb) Stop (sync_manager_stop sm, tb)"

inductive_cases sync_stepE: "sync_step cfg s ev s'"

inductive sync_reach ::
  "rx_config \<Rightarrow> sync_event list \<Rightarrow> sync_manager \<times> timebase_state \<Rightarrow> bool"
  for cfg where
  reach_init: "sync_reach cfg [] (snd sync_manager_init, tb)"
| reach_step: "sync_reach cfg h s \<Longrightarrow> sync_step cfg s ev s' \<Longrightarrow> sync_reach cfg (h @ [ev]) s'"

abbreviation sync_of :: "sync_manager \<times> timebase_state \<Rightarrow> sync_status" where
  "sync_of s \<equiv> sync_status_data (fst s)"

definition sync_inv :: "sync_event list \<Rightarrow> sync_manager \<times> timebase_state \<Rightarrow> bool" where
  "sync_inv h s \<longleftrightarrow>
     (sync_locked (sync_of s) \<longleftrightarrow> state (sync_of s) = SYNC_LOCKED) \<and>
     state (sync_of s) \<noteq> SYNC_ALIGNING \<and>
     (state (sync_of s) = SYNC_ARMED \<longrightarrow>
        (\<exists>raw cyc. subseq [Arm (sync_epoch (sync_of s)) raw cyc] h)) \<and>
     (state (sync_of s) = SYNC_WAIT_START \<longrightarrow>
        (\<exists>raw cyc. subseq [Arm (sync_epoch (sync_of s)) raw cyc, Capture (sync_tick (sync_of s))] h) \<and>
        last_sync_capture (snd s) = sync_tick (sync_of s)) \<and>
     (state (sync_of s) = SYNC_LOCKED \<longrightarrow>
        (\<exists>raw cyc r. subseq [Arm (sync_epoch (sync_of s)) raw cyc,
             Capture (sync_tick (sync_of s)), Frame (Some r)] h \<and>
           rec_status_flags r AND RX_FRAME_STATUS_BATCH_START \<noteq> 0 \<and>
           start_sample_index (sync_of s) = rec_logical_sample_index r) \<and>
        last_sync_capture (snd s) = sync_tick (sync_of s))"

lemma subseq_snoc: "subseq xs h \<Longrightarrow> subseq xs (h @ [ev])"
  by (simp add: subseq_rev_drop_many list_emb_append2)

lemma subseq_snoc2: "subseq xs h \<Longrightarrow> subseq (xs @ [ev]) (h @ [ev])"
  by (simp add: list_emb_append_mono)

lemma inv_other_state:
  assumes "sync_inv h s" "sync_locked (sync_of s') \<longleftrightarrow> state (sync_of s') = SYNC_LOCKED"
    and "state (sync_of s') \<in> {SYNC_IDLE, SYNC_DEGRADED, SYNC_ERROR}"
  shows "sync_inv (h @ [ev]) s'"
  using assms by (auto simp: sync_inv_def)

lemma inv_same:
  assumes "sync_inv h s" "sync_of s' = sync_of s" "snd s' = snd s"
  shows "sync_inv (h @ [ev]) s'"
  using assms unfolding sync_inv_def by (auto intro!: subseq_snoc)

lemma inv_arm: "sync_inv (h @ [Arm e raw cyc]) (snd (sync_manager_arm cfg e raw cyc s))"
  using subseq_snoc2 [of "[]" h "Arm e raw cyc"]
  by (auto simp: sync_inv_def sync_manager_arm_def Let_def split: prod.split)

lemma inv_capture:
  assumes "sync_inv h s"
  shows "sync_inv (h @ [Capture t]) (sync_manager_on_sync_capture t s)"
proof (cases "state (sync_of s) = SYNC_ARMED")
  case True
  then obtain raw cyc where "subseq [Arm (sync_epoch (sync_of s)) raw cyc] h"
    "\<not> sync_locked (sync_of s)"
    using assms by (auto simp: sync_inv_def)
  with subseq_snoc2 [OF this(1), of "Capture t"] True
  have "\<exists>raw cyc. subseq [Arm (sync_epoch (sync_of s)) raw cyc, Capture t] (h @ [Capture t])"
    by auto
  with \<open>\<not> sync_locked (sync_of s)\<close> True show ?thesis
    by (cases s) (simp add: sync_inv_def sync_manager_on_sync_capture_def
        timebase_on_sync_capture_def Let_def)
next
  case False
  then show ?thesis
    by (intro inv_same [OF assms])
      (auto simp: sync_manager_on_sync_capture_def Let_def split: prod.split)
qed

lemma inv_frame:
  assumes "sync_inv h (sm, tb)"
  shows "sync_inv (h @ [Frame rp]) (snd (sync_manager_on_frame rp sm), tb)"
proof (cases rp)
  case (Some r)
  let ?st = "sync_status_data sm"
  consider (lock) "state ?st = SYNC_WAIT_START" "rec_status_flags r AND RX_FRAME_STATUS_BATCH_START \<noteq> 0"
    | (error) "state ?st = SYNC_LOCKED" "\<not> start_sample_index ?st \<le> rec_logical_sample_index r"
    | (keep) "sync_status_data (snd (sync_manager_on_frame rp sm)) = ?st"
  proof -
    have "sync_status_data (snd (sync_manager_on_frame rp sm)) = ?st"
      if "\<not> (state ?st = SYNC_WAIT_START \<and> rec_status_flags r AND RX_FRAME_STATUS_BATCH_START \<noteq> 0)"
        "\<not> (state ?st = SYNC_LOCKED \<and> \<not> start_sample_index ?st \<le> rec_logical_sample_index r)"
      using that by (auto simp: sync_manager_on_frame_def Some Let_def)
    then show thesis
      using lock error keep by blast
  qed
  then show ?thesis
  proof cases
    case lock
    then obtain raw cyc where
      "subseq [Arm (sync_epoch ?st) raw cyc, Capture (sync_tick ?st)] h"
      "last_sync_capture tb = sync_tick ?st"
      using assms by (auto simp: sync_inv_def)
    moreover from subseq_snoc2 [OF this(1), of "Frame rp"]
    have "\<exists>raw cyc. subseq [Arm (sync_epoch ?st) raw cyc, Capture (sync_tick ?st), Frame (Some r)]
        (h @ [Frame rp])"
      by (auto simp: Some)
    ultimately show ?thesis
      using lock by (auto simp: sync_inv_def sync_manager_on_frame_def Some Let_def)
  next
    case error
    then show ?thesis
      by (intro inv_other_state [OF assms]) (auto simp: sync_manager_on_frame_def Some Let_def)
  next
    case keep
    then show ?thesis
      by (intro inv_same [OF assms]) auto
  qed
qed (auto intro: inv_same [OF assms] simp: sync_manager_on_frame_def)

lemma inv_degrade: "sync_inv h (sm, tb) \<Longrightarrow> sync_inv (h @ [ev]) (degrade sm, tb)"
  by (rule inv_other_state) (auto simp: degrade_def)

lemma inv_poll:
  assumes "sync_inv h (sm, tb)"
  shows "sync_inv (h @ [ev]) (sync_manager_poll cfg now sm, tb)"
proof (cases "sync_manager_poll cfg now sm = sm")
  case True
  with assms show ?thesis by (auto intro: inv_same)
next
  case False
  then show ?thesis
    by (intro inv_other_state [OF assms]) (auto simp: sync_manager_poll_def Let_def split: if_splits)
qed

lemma sync_inv_step: "sync_inv h s \<Longrightarrow> sync_step cfg s ev s' \<Longrightarrow> sync_inv (h @ [ev]) s'"
  by (erule sync_stepE)
    (auto simp: inv_arm inv_capture inv_frame inv_degrade inv_poll sync_manager_on_sequence_gap_def
      sync_manager_on_queue_overflow_def sync_manager_stop_def
      intro: inv_same inv_other_state)

lemma sync_inv_reach: "sync_reach cfg h s \<Longrightarrow> sync_inv h s"
proof (induction rule: sync_reach.induct)
  case (reach_init tb)
  then show ?case
    by (simp add: sync_inv_def sync_manager_init_def zero_sync_status_def)
next
  case (reach_step h s ev s')
  then show ?case by (simp add: sync_inv_step)
qed

section \<open>Aligning a stream of records\<close>

fun frames_run ::
  "rx_frame_record list \<Rightarrow> sync_manager \<Rightarrow> rx_frame_record option list \<times> sync_manager" where
  "frames_run [] sm = ([], sm)"
| "frames_run (r # rs) sm =
     (let (r', sm') = sync_manager_on_frame (Some r) sm; (rs', sm'') = frames_run rs sm'
      in (r' # rs', sm''))"

definition aligned :: "u32 \<Rightarrow> u64 \<Rightarrow> rx_frame_record \<Rightarrow> rx_frame_record" where
  "aligned epoch start r = r\<lparr>rec_sync_epoch := epoch,
     rec_logical_sample_index := rec_logical_sample_index r - start,
     rec_status_flags := rec_status_flags r OR RX_FRAME_STATUS_SYNCED\<rparr>"

lemma locked_run:
  assumes "state (sync_status_data sm) = SYNC_LOCKED"
    and "list_all (\<lambda>r. start_sample_index (sync_status_data sm) \<le> rec_logical_sample_index r) rs"
  shows "frames_run rs sm = (map (Some \<circ> aligned (sync_epoch (sync_status_data sm))
      (start_sample_index (sync_status_data sm))) rs, sm)"
  using assms(2)
  by (induction rs)
    (simp_all add: assms(1) sync_manager_on_frame_def aligned_def Let_def)

text \<open>A poll reads the clock after an arming that read the same clock.\<close>

lemma poll_elapsed:
  assumes f: "timebase_frequency_hz cfg = f" "f \<noteq> 0"
    and e: "unat (now - arm_tick sm) * 1000 < 2 ^ 64"
    and st: "state (sync_status_data sm) = SYNC_ARMED \<or> state (sync_status_data sm) = SYNC_WAIT_START"
  shows "sync_manager_poll cfg now sm =
    (if unat (RF_LINK_SYNC_TIMEOUT_MS cfg) \<le> unat (now - arm_tick sm) * 1000 div unat f
     then sm\<lparr>sync_status_data := (sync_status_data sm)\<lparr>
            sync_timeout := sync_timeout (sync_status_data sm) + 1,
            sync_locked := False, state := SYNC_DEGRADED\<rparr>\<rparr>
     else sm)"
proof -
  have "unat ((now - arm_tick sm) * 1000 div ucast f) = unat (now - arm_tick sm) * 1000 div unat f"
  proof -
    have "unat (w * 1000) = unat w * 1000" if "unat w * 1000 < 2 ^ 64" for w :: u64
      unfolding unat_word_ariths using that by simp
    from this [OF e] have "unat ((now - arm_tick sm) * 1000) = unat (now - arm_tick sm) * 1000" .
    moreover have "unat (ucast f :: u64) = unat f"
      by simp
    ultimately show ?thesis
      unfolding unat_div by simp
  qed
  with f st show ?thesis
    by (auto simp: sync_manager_poll_def Let_def word_le_nat_alt)
qed

section \<open>Properties\<close>

text \<open>
  C11. In every state reachable from \<open>sync_manager_init\<close> through any order of calls,
  \<open>sync_locked\<close> holds exactly in \<open>SYNC_LOCKED\<close>, \<open>SYNC_ALIGNING\<close> is never visible
  outside the lock, and lock was earned: an ARM of the reported epoch, then a
  capture at the reported tick (also the timebase's last capture), then a
  BATCH_START record whose index is the reported start index, in this order.
\<close>

theorem sync_lock_provenance:
  assumes "sync_reach cfg h s"
  shows "(sync_locked (sync_of s) \<longleftrightarrow> state (sync_of s) = SYNC_LOCKED) \<and>
    state (sync_of s) \<noteq> SYNC_ALIGNING \<and>
    (sync_locked (sync_of s) \<longrightarrow>
      (\<exists>raw cyc r. subseq [Arm (sync_epoch (sync_of s)) raw cyc,
           Capture (sync_tick (sync_of s)), Frame (Some r)] h \<and>
         rec_status_flags r AND RX_FRAME_STATUS_BATCH_START \<noteq> 0 \<and>
         start_sample_index (sync_of s) = rec_logical_sample_index r) \<and>
      timebase_last_sync_capture (snd s) = sync_tick (sync_of s))"
  using sync_inv_reach [OF assms] unfolding sync_inv_def timebase_last_sync_capture_def by blast

definition batch_start_record :: "u64 \<Rightarrow> rx_frame_record" where
  "batch_start_record i = zero_rx_record\<lparr>rec_status_flags := RX_FRAME_STATUS_BATCH_START,
     rec_logical_sample_index := i\<rparr>"

lemma sync_lock_provenance_witness:
  "\<exists>s. sync_reach (ch0_spis_conf sum16 sum32)
      [Arm 3 100 0, Capture 500, Frame (Some (batch_start_record 960))] s \<and>
    sync_locked (sync_of s) \<and> start_sample_index (sync_of s) = 960 \<and>
    timebase_last_sync_capture (snd s) = sync_tick (sync_of s)"
proof -
  let ?cfg = "ch0_spis_conf sum16 sum32"
  let ?s0 = "(snd sync_manager_init, zero_timebase)"
  let ?s1 = "snd (sync_manager_arm ?cfg 3 100 0 ?s0)"
  let ?s2 = "sync_manager_on_sync_capture 500 ?s1"
  let ?s3 = "(snd (sync_manager_on_frame (Some (batch_start_record 960)) (fst ?s2)), snd ?s2)"
  have "sync_reach ?cfg ([] @ [Arm 3 100 0]) ?s1"
    by (rule reach_step [OF reach_init Arm_step])
  from reach_step [OF this Capture_step]
  have "sync_reach ?cfg (([] @ [Arm 3 100 0]) @ [Capture 500]) (fst ?s2, snd ?s2)"
    by simp
  from reach_step [OF this Frame_step]
  have r: "sync_reach ?cfg [Arm 3 100 0, Capture 500, Frame (Some (batch_start_record 960))] ?s3"
    by simp
  have st: "sync_locked (sync_of ?s3)" "start_sample_index (sync_of ?s3) = 960"
    by (simp_all add: op_defs batch_start_record_def zero_rx_record_def wire_const Let_def
        split: prod.split)
  with r sync_lock_provenance [OF r] show ?thesis
    by blast
qed

text \<open>
  After the capture, the first BATCH_START record becomes sample 0 of the
  epoch, and every later record whose index has not gone backwards is shifted by
  the same amount, marked SYNCED and stamped with the armed epoch; the lock is kept.
\<close>

theorem sync_alignment:
  assumes "state (sync_status_data sm) = SYNC_WAIT_START"
    and "rec_status_flags r AND RX_FRAME_STATUS_BATCH_START \<noteq> 0"
    and "list_all (\<lambda>r'. rec_logical_sample_index r \<le> rec_logical_sample_index r') rs"
  shows "fst (frames_run (r # rs) sm) =
      map (Some \<circ> aligned (sync_epoch (sync_status_data sm)) (rec_logical_sample_index r)) (r # rs) \<and>
    state (sync_status_data (snd (frames_run (r # rs) sm))) = SYNC_LOCKED"
proof -
  define sm' where "sm' = snd (sync_manager_on_frame (Some r) sm)"
  have first: "sync_manager_on_frame (Some r) sm =
      (Some (aligned (sync_epoch (sync_status_data sm)) (rec_logical_sample_index r) r), sm')"
    and sm': "state (sync_status_data sm') = SYNC_LOCKED"
      "start_sample_index (sync_status_data sm') = rec_logical_sample_index r"
      "sync_epoch (sync_status_data sm') = sync_epoch (sync_status_data sm)"
    using assms(1,2) by (simp_all add: sm'_def sync_manager_on_frame_def aligned_def Let_def)
  show ?thesis
    using locked_run [of sm' rs] assms(3) sm' by (simp add: first)
qed

definition waiting_manager :: "u32 \<Rightarrow> sync_manager" where
  "waiting_manager e = \<lparr>sync_status_data = zero_sync_status\<lparr>state := SYNC_WAIT_START, sync_epoch := e\<rparr>,
     arm_tick = 0, have_armed_once = True\<rparr>"

lemma sync_alignment_witness:
  "fst (frames_run [batch_start_record 960, batch_start_record 1056] (waiting_manager 3)) =
    [Some (aligned 3 960 (batch_start_record 960)), Some (aligned 3 960 (batch_start_record 1056))]"
  using sync_alignment [of "waiting_manager 3" "batch_start_record 960" "[batch_start_record 1056]"]
  by (simp add: batch_start_record_def waiting_manager_def wire_const)

text \<open>
  With the hardware clock, a poll that reads the clock at time \<open>P\<close> times an
  arming at time \<open>A \<le> P\<close> out exactly when the configured number of milliseconds
  has passed, across wraps of the 32-bit timer.
\<close>

theorem sync_timeout_exact:
  assumes hw: "RF_LINK_SYNC_HW_CAPTURE cfg" and t0: "timer_at T0 tb"
    and times: "T0 \<le> A" "A < T0 + 2 ^ 31" "A \<le> P" "P < A + 2 ^ 31" "P < 2 ^ 64"
    and arm: "sync_manager_arm cfg e (of_nat A) cyc (sm, tb) = (r, sm1, tb1)"
    and now: "timebase_now_ticks cfg (of_nat P) cyc' tb1 = (now, tb2)"
  shows "state (sync_status_data (sync_manager_poll cfg now sm1)) =
    (if unat (RF_LINK_SYNC_TIMEOUT_MS cfg) \<le> (P - A) div 1000 then SYNC_DEGRADED else SYNC_ARMED)"
proof -
  have rd: "extend_timer_value (of_nat A) tb = (arm_tick sm1, tb1)"
    "extend_timer_value (of_nat P) tb1 = (now, tb2)"
    using arm now hw by (auto simp: sync_manager_arm_def timebase_now_ticks_def Let_def split: prod.splits)
  have el: "unat (now - arm_tick sm1) = P - A"
    by (rule hw.two_reads(1) [OF t0 times rd])
  have f: "timebase_frequency_hz cfg = 1000000"
    using hw by (simp add: timebase_frequency_hz_def)
  have st: "state (sync_status_data sm1) = SYNC_ARMED"
    using arm by (auto simp: sync_manager_arm_def Let_def split: prod.splits)
  have "(P - A) * 1000 < 2 ^ 64"
    using times by simp
  from poll_elapsed [OF f _ this [folded el]] st el show ?thesis
    by (simp add: div_mult2_eq)
qed

lemma sync_timeout_exact_witness:
  "state (sync_status_data (sync_manager_poll (ch0_spis_conf sum16 sum32) 1500007
     (fst (snd (sync_manager_arm (ch0_spis_conf sum16 sum32) 3 (of_nat 7) 0
       (snd sync_manager_init, zero_timebase)))))) = SYNC_DEGRADED"
proof -
  let ?cfg = "ch0_spis_conf sum16 sum32"
  obtain r sm1 tb1 where arm: "sync_manager_arm ?cfg 3 (of_nat 7) 0
      (snd sync_manager_init, zero_timebase) = (r, sm1, tb1)"
    by (metis prod_cases3)
  obtain now tb2 where now: "timebase_now_ticks ?cfg (of_nat 1500007) 0 tb1 = (now, tb2)"
    by fastforce
  have "timer_at 7 tb1"
    using arm extend_exact(2) [of 0 zero_timebase 7]
    by (auto simp: sync_manager_arm_def timebase_now_ticks_def ch0_spis_conf_def timer_at_def
        zero_timebase_def Let_def split: prod.splits)
  then have "now = 1500007"
    using now extend_exact(1) [of 7 tb1 1500007]
    by (simp add: timebase_now_ticks_def ch0_spis_conf_def)
  moreover have "timer_at 0 zero_timebase"
    by (simp add: timer_at_def zero_timebase_def)
  ultimately show ?thesis
    using sync_timeout_exact [OF _ _ _ _ _ _ _ arm now, of 0] arm
    by (simp add: ch0_spis_conf_def future_conf_def)
qed

text \<open>
  A poll whose clock reading was taken before the arming it races with
  degrades the sync at once: the unsigned difference underflows, so up to 2^53
  ticks before the arming count as a timeout (with the 1500 ms of the repository's
  configuration).
\<close>

theorem sync_poll_before_arm_degrades:
  assumes "state (sync_status_data sm) = SYNC_ARMED"
    and "RF_LINK_SYNC_HW_CAPTURE cfg" "RF_LINK_SYNC_TIMEOUT_MS cfg = 1500"
    and "0 < d" "d < 2 ^ 53" "now = arm_tick sm - of_nat d"
  shows "state (sync_status_data (sync_manager_poll cfg now sm)) = SYNC_DEGRADED"
proof -
  have "(now - arm_tick sm) * 1000 = - of_nat (d * 1000)"
    using assms(6) by simp
  moreover have "unat (- of_nat (d * 1000) :: u64) = 2 ^ 64 - d * 1000"
    using assms(4,5) unat_neg_of_nat [of "d * 1000", where 'a = 64] by simp
  ultimately have "unat ((now - arm_tick sm) * 1000 div ucast (1000000 :: u32)) =
      (2 ^ 64 - d * 1000) div 1000000"
    by (simp only: unat_div unat_ucast_widths) simp
  moreover have "1500 \<le> (2 ^ 64 - d * 1000) div 1000000"
    using assms(5) by simp
  ultimately have "1500 \<le> (now - arm_tick sm) * 1000 div ucast (1000000 :: u32)"
    by (simp only: word_le_nat_alt) simp
  then show ?thesis
    using assms(1-3)
    by (simp add: sync_manager_poll_def timebase_frequency_hz_def Let_def)
qed

lemma sync_poll_before_arm_degrades_witness:
  "state (sync_status_data (sync_manager_poll (ch0_spis_conf sum16 sum32) 999
     ((waiting_manager 3)\<lparr>sync_status_data := zero_sync_status\<lparr>state := SYNC_ARMED\<rparr>,
        arm_tick := 1000\<rparr>))) = SYNC_DEGRADED"
  using sync_poll_before_arm_degrades [of "(waiting_manager 3)\<lparr>sync_status_data :=
      zero_sync_status\<lparr>state := SYNC_ARMED\<rparr>, arm_tick := 1000\<rparr>" "ch0_spis_conf sum16 sum32" 1 999]
  by (simp add: ch0_spis_conf_def future_conf_def)

end
