(* ===== verification/Link_Control.thy ===== *)
theory Link_Control
  imports Spi_Wire Frame_Queue Sync_Manager
begin

text \<open>
  \<open>link_control.c\<close>: the FPGA's control commands. The state joins the file's status
  with the modules it drives: the frame queue, the sync manager and the timebase.
  Each critical section of \<open>control_lock\<close> is one update.
\<close>

record link_control_status =
  streaming :: bool
  arm_commands :: u32
  start_commands :: u32
  stop_commands :: u32
  reset_commands :: u32
  invalid_commands :: u32

record link_state =
  lk_control :: link_control_status
  lk_queue :: frame_queue
  lk_sync :: sync_manager
  lk_timebase :: timebase_state

text \<open>What the two time sources show when the code reads the clock.\<close>

record clock_input =
  ci_raw :: u32
  ci_cycles :: u64

definition link_control_init :: "rx_config \<Rightarrow> link_control_status" where
  [op_defs]: "link_control_init cfg =
     \<lparr>streaming = RF_LINK_DEBUG_UART_TRANSPORT cfg, arm_commands = 0, start_commands = 0,
      stop_commands = 0, reset_commands = 0, invalid_commands = 0\<rparr>"

definition link_control_handle_command ::
  "rx_config \<Rightarrow> clock_input \<Rightarrow> fpga_command_code \<Rightarrow> u32 \<Rightarrow> link_state \<Rightarrow> int \<times> link_state" where
  [op_defs]: "link_control_handle_command cfg ci command argument s =
     (case command of
        FPGA_CMD_ARM_SYNC \<Rightarrow>
          let s1 = s\<lparr>lk_queue := frame_queue_clear (lk_queue s)\<rparr>;
              (ret, sm, tb) = sync_manager_arm cfg argument (ci_raw ci) (ci_cycles ci)
                                (lk_sync s1, lk_timebase s1);
              c = lk_control s1
          in (ret, s1\<lparr>lk_sync := sm, lk_timebase := tb,
                lk_control := c\<lparr>arm_commands := arm_commands c + 1, streaming := False\<rparr>\<rparr>)
      | FPGA_CMD_START_STREAM \<Rightarrow>
          let c = lk_control s
          in (0, s\<lparr>lk_control := c\<lparr>start_commands := start_commands c + 1, streaming := True\<rparr>\<rparr>)
      | FPGA_CMD_STOP_STREAM \<Rightarrow>
          let c = lk_control s
          in (0, s\<lparr>lk_control := c\<lparr>stop_commands := stop_commands c + 1, streaming := False\<rparr>\<rparr>)
      | FPGA_CMD_RESET_LINK \<Rightarrow>
          let s1 = s\<lparr>lk_queue := frame_queue_clear (lk_queue s), lk_sync := sync_manager_stop (lk_sync s)\<rparr>;
              c = lk_control s1
          in (0, s1\<lparr>lk_control := c\<lparr>reset_commands := reset_commands c + 1, streaming := False\<rparr>\<rparr>)
      | FPGA_CMD_CLEAR_STATS \<Rightarrow> (0, s)
      | _ \<Rightarrow>
          let c = lk_control s
          in (- ENOTSUP, s\<lparr>lk_control := c\<lparr>invalid_commands := invalid_commands c + 1\<rparr>\<rparr>))"

definition link_control_streaming :: "link_control_status \<Rightarrow> bool" where
  [op_defs]: "link_control_streaming c = streaming c"

definition link_control_get_status :: "link_control_status \<Rightarrow> link_control_status" where
  [op_defs]: "link_control_get_status c = c"

lemma handle_command_queue_inv [inv_intro]:
  "fq_inv depth (lk_queue s) \<Longrightarrow>
    fq_inv depth (lk_queue (snd (link_control_handle_command cfg ci cmd arg s)))"
  by (cases cmd) (simp_all add: link_control_handle_command_def Let_def inv_intro split: prod.split)

section \<open>Properties\<close>

text \<open>
  ARM_SYNC and RESET_LINK discard the queued records and stop streaming, so no
  record of the old epoch is delivered under the new one: ARM leaves the sync
  manager armed for the given epoch, RESET leaves it idle. Streaming starts only
  by START_STREAM, and a code that is no control command changes only its counter.
\<close>

theorem link_control_effects:
  assumes "link_control_handle_command cfg ci cmd arg s = (ret, s')"
  shows "(cmd \<in> {FPGA_CMD_ARM_SYNC, FPGA_CMD_RESET_LINK} \<longrightarrow>
      ret = 0 \<and> fq_list (lk_queue s') = [] \<and> \<not> link_control_streaming (lk_control s') \<and>
      state (sync_status_data (lk_sync s')) =
        (if cmd = FPGA_CMD_ARM_SYNC then SYNC_ARMED else SYNC_IDLE)) \<and>
    (cmd = FPGA_CMD_ARM_SYNC \<longrightarrow> sync_epoch (sync_status_data (lk_sync s')) = arg) \<and>
    (link_control_streaming (lk_control s') \<longrightarrow>
      link_control_streaming (lk_control s) \<or> cmd = FPGA_CMD_START_STREAM) \<and>
    (ret \<noteq> 0 \<longrightarrow> s' = s\<lparr>lk_control := (lk_control s)\<lparr>
        invalid_commands := invalid_commands (lk_control s) + 1\<rparr>\<rparr>)"
  using assms
  by (cases cmd)
    (auto simp: link_control_handle_command_def link_control_streaming_def sync_manager_arm_def
      sync_manager_stop_def Let_def split: prod.splits)

definition sample_link :: link_state where
  "sample_link = \<lparr>lk_control = link_control_init (future_conf sum16 sum32),
     lk_queue = snd (frame_queue_push (Some (sample_record 7)) sample_queue),
     lk_sync = snd sync_manager_init, lk_timebase = zero_timebase\<rparr>"

lemma link_control_effects_witness:
  "fq_list (lk_queue (snd (link_control_handle_command (future_conf sum16 sum32)
     \<lparr>ci_raw = 5, ci_cycles = 9\<rparr> FPGA_CMD_ARM_SYNC 4 sample_link))) = [] \<and>
   sync_epoch (sync_status_data (lk_sync (snd (link_control_handle_command
     (future_conf sum16 sum32) \<lparr>ci_raw = 5, ci_cycles = 9\<rparr> FPGA_CMD_ARM_SYNC 4 sample_link)))) = 4"
  using link_control_effects [OF surjective_pairing, where cmd = FPGA_CMD_ARM_SYNC and arg = 4
      and s = sample_link and cfg = "future_conf sum16 sum32"
      and ci = "\<lparr>ci_raw = 5, ci_cycles = 9\<rparr>"]
  by simp

end
