(* ===== verification/Fpga_Transport.thy ===== *)
theory Fpga_Transport
  imports Spis_Backend Link_Control
begin

text \<open>
  \<open>fpga_transport.c\<close>: the records' way from the frame queue to the backend. The
  engine's state and the client's state are a pair; the client state joins the
  file's static variables, the backend and the modules behind \<open>link_control\<close>. The
  clock inputs are a function of the number of the read within the call.
\<close>

record transport_stats =
  tst_records :: u32
  tst_crc_errors :: u32
  tst_invalid_cmd :: u32
  tst_duplicate_commit :: u32
  tst_submit_errors :: u32
  tst_stall_ms :: u32
  tst_request_transactions :: u32
  tst_response_transactions :: u32
  tst_spi_errors :: u32
  tst_parser_errors :: u32
  tst_short_transfers :: u32

record fpga_transport =
  transport_stats_data :: transport_stats
  next_transport_seq :: u32
  pending_extended_frame_seq :: u32
  pending_since_tick :: u64
  transport_initialized :: bool

record rx_client =
  cl_link :: link_state
  cl_transport :: fpga_transport
  cl_backend :: spis_backend

type_synonym rx_core = "spi_transport \<times> rx_client"

definition zero_transport_stats :: transport_stats where
  "zero_transport_stats = \<lparr>tst_records = 0, tst_crc_errors = 0, tst_invalid_cmd = 0,
     tst_duplicate_commit = 0, tst_submit_errors = 0, tst_stall_ms = 0,
     tst_request_transactions = 0, tst_response_transactions = 0, tst_spi_errors = 0,
     tst_parser_errors = 0, tst_short_transfers = 0\<rparr>"

definition map_queue :: "(frame_queue \<Rightarrow> frame_queue) \<Rightarrow> rx_client \<Rightarrow> rx_client" where
  "map_queue f w = w\<lparr>cl_link := (cl_link w)\<lparr>lk_queue := f (lk_queue (cl_link w))\<rparr>\<rparr>"

definition map_transport :: "(fpga_transport \<Rightarrow> fpga_transport) \<Rightarrow> rx_client \<Rightarrow> rx_client" where
  "map_transport f w = w\<lparr>cl_transport := f (cl_transport w)\<rparr>"

abbreviation queue_of :: "rx_client \<Rightarrow> frame_queue" where
  "queue_of w \<equiv> lk_queue (cl_link w)"

section \<open>The callbacks\<close>

definition release_record :: "rx_client release_cb" where
  [op_defs]: "release_record extended_frame_seq drop_it s =
     (let (sp, w) = s;
          (ret, q) = frame_queue_commit extended_frame_seq (queue_of w);
          w1 = map_queue (\<lambda>_. q) w
      in (ret, sp, if ret = 0
                   then map_transport (\<lambda>t. t\<lparr>next_transport_seq := next_transport_seq t + 1,
                                             pending_since_tick := 0\<rparr>) w1
                   else w1))"

definition transport_control_command :: "rx_config \<Rightarrow> clock_input \<Rightarrow> rx_client control_cb" where
  [op_defs]: "transport_control_command cfg ci command argument s =
     (let (sp, w) = s;
          arm = command = FPGA_CMD_ARM_SYNC \<or> command = FPGA_CMD_RESET_LINK;
          sp1 = (if arm then fpga_spi_transport_abort_pending sp else sp);
          w1 = (if arm then map_transport (\<lambda>t. t\<lparr>pending_since_tick := 0\<rparr>) w else w);
          w2 = (if command = FPGA_CMD_CLEAR_STATS
                then map_transport (\<lambda>t. t\<lparr>transport_stats_data := zero_transport_stats\<rparr>) w1 else w1);
          (ret, l) = link_control_handle_command cfg ci command argument (cl_link w2)
      in (ret, sp1, w2\<lparr>cl_link := l\<rparr>))"

section \<open>The backends\<close>

definition debug_backend_submit :: "rx_config \<Rightarrow> fpga_record option \<Rightarrow> int" where
  [op_defs]: "debug_backend_submit cfg rp =
     (if fpga_transport_record_valid cfg rp then 0 else - EBADMSG)"

definition backend_init ::
  "rx_config \<Rightarrow> backend_drivers \<Rightarrow> spis_backend \<Rightarrow> int \<times> spis_backend" where
  [op_defs]: "backend_init cfg d b =
     (if RF_LINK_FPGA_SPIS cfg then fpga_spis_backend_init d b else (0, b))"

definition backend_is_ready :: "rx_config \<Rightarrow> spis_backend \<Rightarrow> bool" where
  [op_defs]: "backend_is_ready cfg b =
     (if RF_LINK_FPGA_SPIS cfg then fpga_spis_backend_ready b else True)"

definition backend_submit :: "rx_config \<Rightarrow> fpga_record \<Rightarrow> rx_core \<Rightarrow> int \<times> rx_core" where
  [op_defs]: "backend_submit cfg r s =
     (let (sp, w) = s
      in if RF_LINK_FPGA_SPIS cfg then
           let (ret, sp1, b) = fpga_spis_backend_submit cfg (Some r)
                 (pending_extended_frame_seq (cl_transport w)) (sp, cl_backend w)
           in (ret, sp1, w\<lparr>cl_backend := b\<rparr>)
         else (debug_backend_submit cfg (Some r), s))"

definition backend_add_stats ::
  "rx_config \<Rightarrow> rx_core \<Rightarrow> transport_stats \<Rightarrow> transport_stats" where
  [op_defs]: "backend_add_stats cfg s st =
     (let (sp, w) = s
      in if RF_LINK_FPGA_SPIS cfg then
           let e = fpga_spi_transport_stats_get sp; p = fpga_spis_backend_get_stats (cl_backend w)
           in st\<lparr>tst_crc_errors := tst_crc_errors st + sst_crc_errors e,
                 tst_invalid_cmd := tst_invalid_cmd st + sst_invalid_cmd e,
                 tst_duplicate_commit := tst_duplicate_commit st + sst_duplicate_commit e,
                 tst_request_transactions := tst_request_transactions st + bst_request_transactions p,
                 tst_response_transactions := tst_response_transactions st + bst_response_transactions p,
                 tst_spi_errors := tst_spi_errors st + bst_spi_errors p,
                 tst_parser_errors := tst_parser_errors st + bst_parser_errors p,
                 tst_short_transfers := tst_short_transfers st + bst_short_transfers p\<rparr>
         else st)"

section \<open>Initialisation and service\<close>

definition fpga_transport_init :: "rx_config \<Rightarrow> backend_drivers \<Rightarrow> rx_core \<Rightarrow> int \<times> rx_core" where
  [op_defs]: "fpga_transport_init cfg d s =
     (let (sp, w) = s;
          w1 = w\<lparr>cl_transport := \<lparr>transport_stats_data = zero_transport_stats, next_transport_seq = 0,
                  pending_extended_frame_seq = 0, pending_since_tick = 0,
                  transport_initialized = False\<rparr>\<rparr>;
          (ret, sp1) = fpga_spi_transport_init False False sp
      in if ret \<noteq> 0 then (ret, sp1, w1)
         else
           let (ret', b) = backend_init cfg d (cl_backend w1); w2 = w1\<lparr>cl_backend := b\<rparr>
           in if ret' \<noteq> 0 then (ret', sp1, w2)
              else (0, sp1, map_transport (\<lambda>t. t\<lparr>transport_initialized := True\<rparr>) w2))"

text \<open>The bookkeeping after a submission that failed, and after one that succeeded.\<close>

definition count_submit_error :: "int \<Rightarrow> fpga_transport \<Rightarrow> fpga_transport" where
  [op_defs]: "count_submit_error ret t =
     (let st = transport_stats_data t;
          st1 = st\<lparr>tst_submit_errors := tst_submit_errors st + 1\<rparr>
      in t\<lparr>transport_stats_data :=
            (if ret = - EBADMSG then st1\<lparr>tst_crc_errors := tst_crc_errors st1 + 1\<rparr> else st1)\<rparr>)"

definition count_submitted :: "rx_config \<Rightarrow> clock_input \<Rightarrow> rx_client \<Rightarrow> rx_client" where
  [op_defs]: "count_submitted cfg ci w =
     (let t = cl_transport w; st = transport_stats_data t;
          t1 = t\<lparr>transport_stats_data := st\<lparr>tst_records := tst_records st + 1\<rparr>\<rparr>
      in if pending_since_tick t1 = 0 then
           let (now, tb) = timebase_now_ticks cfg (ci_raw ci) (ci_cycles ci) (lk_timebase (cl_link w))
           in w\<lparr>cl_transport := t1\<lparr>pending_since_tick := now\<rparr>,
                cl_link := (cl_link w)\<lparr>lk_timebase := tb\<rparr>\<rparr>
         else w\<lparr>cl_transport := t1\<rparr>)"

text \<open>
  One pass of the service loop: \<open>Inl\<close> the value it leaves the loop with (an error
  or the number of records processed), \<open>Inr\<close> the new number to go on with.
\<close>

definition service_pass ::
  "rx_config \<Rightarrow> clock_input \<Rightarrow> nat \<Rightarrow> rx_core \<Rightarrow> (int + nat) \<times> rx_core" where
  [op_defs]: "service_pass cfg ci processed s =
     (let (sp, w) = s
      in case frame_queue_peek False (queue_of w) of
           Inl _ \<Rightarrow> (Inl (int processed), s)
         | Inr source \<Rightarrow>
             if RF_LINK_FPGA_SPIS cfg \<and> fpga_spi_transport_pending sp then (Inl (int processed), s)
             else
               let w1 = map_transport (\<lambda>t. t\<lparr>pending_extended_frame_seq :=
                          rec_extended_frame_seq source\<rparr>) w
               in case fpga_transport_build_record cfg (Some source)
                         (next_transport_seq (cl_transport w1)) False of
                    Inl e \<Rightarrow> (Inl e, sp, w1)
                  | Inr r \<Rightarrow>
                      let (ret, sp2, w2) = backend_submit cfg r (sp, w1)
                      in if ret \<noteq> 0 then (Inl ret, sp2, map_transport (count_submit_error ret) w2)
                         else
                           let w3 = count_submitted cfg ci w2
                           in if RF_LINK_FPGA_SPIS cfg then (Inl (int (processed + 1)), sp2, w3)
                              else
                                let (ret', s4) =
                                      release_record (rec_extended_frame_seq source) False (sp2, w3)
                                in (if ret' \<noteq> 0 then Inl ret' else Inr (processed + 1), s4))"

lemma release_record_count:
  "fst (release_record k d (sp, w)) = 0 \<Longrightarrow>
    record_count (queue_of (snd (snd (release_record k d (sp, w))))) < record_count (queue_of w)"
  by (auto simp: release_record_def map_queue_def map_transport_def frame_queue_commit_def Let_def
      split: prod.splits if_splits)

lemma count_submitted_queue [simp]: "queue_of (count_submitted cfg ci w) = queue_of w"
  by (simp add: count_submitted_def Let_def split: prod.split)

lemma backend_submit_link [simp]: "cl_link (snd (snd (backend_submit cfg r (sp, w)))) = cl_link w"
  by (simp add: backend_submit_def Let_def split: prod.split)

lemma service_pass_decreases:
  assumes "service_pass cfg ci n s = (Inr n', s')"
  shows "record_count (queue_of (snd s')) < record_count (queue_of (snd s))"
proof -
  obtain sp w where s: "s = (sp, w)" by (cases s)
  obtain source where src: "frame_queue_peek False (queue_of w) = Inr source"
    using assms by (auto simp: s service_pass_def Let_def split: sum.splits)
  define w1 where
    "w1 = map_transport (\<lambda>t. t\<lparr>pending_extended_frame_seq := rec_extended_frame_seq source\<rparr>) w"
  obtain r where r: "fpga_transport_build_record cfg (Some source)
      (next_transport_seq (cl_transport w1)) False = Inr r"
    using build_record_total by blast
  obtain ret sp2 w2 where sub: "backend_submit cfg r (sp, w1) = (ret, sp2, w2)"
    by (metis prod_cases3)
  have q: "queue_of w2 = queue_of w"
  proof -
    have "cl_link w2 = cl_link w1"
      using backend_submit_link [of cfg r sp w1] unfolding sub by simp
    then show ?thesis
      by (simp add: w1_def map_transport_def)
  qed
  let ?rel = "release_record (rec_extended_frame_seq source) False (sp2, count_submitted cfg ci w2)"
  have "fst ?rel = 0 \<and> s' = snd ?rel"
    using assms src r sub unfolding s service_pass_def Let_def w1_def
    by (auto simp: Let_def split: if_splits prod.splits)
  with release_record_count [of "rec_extended_frame_seq source" False sp2 "count_submitted cfg ci w2"] q
  show ?thesis
    by (simp add: s)
qed

text \<open>
  The loop. It ends because every pass that goes on has released a record: the
  measure is the queue level.
\<close>

function service_loop ::
  "rx_config \<Rightarrow> (nat \<Rightarrow> clock_input) \<Rightarrow> nat \<Rightarrow> rx_core \<Rightarrow> int \<times> rx_core" where
  "service_loop cfg clk processed s =
     (case service_pass cfg (clk processed) processed s of
        (Inl result, s') \<Rightarrow> (result, s')
      | (Inr processed', s') \<Rightarrow> service_loop cfg clk processed' s')"
  by pat_completeness auto

termination
  by (relation "measure (\<lambda>(cfg, clk, n, s). record_count (queue_of (snd s)))")
    (simp, metis (no_types, lifting) case_prod_conv in_measure service_pass_decreases)

declare service_loop.simps [simp del]

text \<open>\<open>lock_ret\<close> is the result of \<open>k_mutex_lock\<close>.\<close>

definition fpga_transport_service ::
  "rx_config \<Rightarrow> (nat \<Rightarrow> clock_input) \<Rightarrow> int \<Rightarrow> rx_core \<Rightarrow> int \<times> rx_core" where
  [op_defs]: "fpga_transport_service cfg clk lock_ret s =
     (if lock_ret \<noteq> 0 then (lock_ret, s)
      else if \<not> transport_initialized (cl_transport (snd s)) \<or> \<not> backend_is_ready cfg (cl_backend (snd s))
      then (- EAGAIN, s)
      else service_loop cfg clk 0 s)"

definition fpga_transport_get_stats ::
  "rx_config \<Rightarrow> clock_input \<Rightarrow> rx_core \<Rightarrow> transport_stats \<times> rx_core" where
  [op_defs]: "fpga_transport_get_stats cfg ci s =
     (let (sp, w) = s; t = cl_transport w; st = transport_stats_data t;
          (st1, w1) =
            (if pending_since_tick t \<noteq> 0 then
               let (now, tb) = timebase_now_ticks cfg (ci_raw ci) (ci_cycles ci)
                                 (lk_timebase (cl_link w));
                   elapsed_ticks = now - pending_since_tick t;
                   frequency = timebase_frequency_hz cfg
               in (if frequency \<noteq> 0
                   then st\<lparr>tst_stall_ms :=
                          ucast (min ((elapsed_ticks * 1000) div ucast frequency) 0xffffffff :: u64)\<rparr>
                   else st,
                   w\<lparr>cl_link := (cl_link w)\<lparr>lk_timebase := tb\<rparr>\<rparr>)
             else (st, w))
      in (backend_add_stats cfg (sp, w1) st1, sp, w1))"

end
