(* ===== verification/Delivery.thy ===== *)
theory Delivery
  imports Fpga_Transport
begin

text \<open>
  The delivery contract of the receiver's transport with the SPIS backend: the
  commands of the FPGA, the service calls and the radio thread's pushes as
  operations on one state, the invariant that ties the pending record to the head
  of the queue, and exactly-once in-order delivery.
\<close>

interpretation eng: release_client release_record
    "\<lambda>w. map rec_extended_frame_seq (fq_list (queue_of w))" "\<lambda>w. fq_inv depth (queue_of w)" for depth
proof
  fix k d sp and w :: rx_client
  show "fst (snd (release_record k d (sp, w))) = sp"
    by (simp add: release_record_def Let_def split: prod.split)
next
  fix w :: rx_client and k d sp
  assume inv: "fq_inv depth (queue_of w)" and ne: "map rec_extended_frame_seq (fq_list (queue_of w)) \<noteq> []"
    and hd: "hd (map rec_extended_frame_seq (fq_list (queue_of w))) = k"
  have "fst (frame_queue_commit k (queue_of w)) = 0"
    "fq_list (snd (frame_queue_commit k (queue_of w))) = tl (fq_list (queue_of w))"
    using rxq.commit_head [OF inv, of k] ne hd by (simp_all add: hd_map)
  then show "fst (release_record k d (sp, w)) = 0 \<and>
      map rec_extended_frame_seq (fq_list (queue_of (snd (snd (release_record k d (sp, w)))))) =
      tl (map rec_extended_frame_seq (fq_list (queue_of w)))"
    by (auto simp: release_record_def map_queue_def map_transport_def Let_def map_tl split: prod.split)
next
  fix w :: rx_client and k d sp
  assume inv: "fq_inv depth (queue_of w)"
    and o: "map rec_extended_frame_seq (fq_list (queue_of w)) = [] \<or>
      hd (map rec_extended_frame_seq (fq_list (queue_of w))) \<noteq> k"
  then have "fq_list (queue_of w) = [] \<or> rec_extended_frame_seq (hd (fq_list (queue_of w))) \<noteq> k"
    by (cases "fq_list (queue_of w) = []") (auto simp: hd_map)
  from rxq.commit_other [OF inv this] show "fst (release_record k d (sp, w)) \<noteq> 0 \<and>
      snd (snd (release_record k d (sp, w))) = w"
    by (cases "frame_queue_commit k (queue_of w)") (simp add: release_record_def map_queue_def)
next
  fix w :: rx_client and k d sp
  assume "fq_inv depth (queue_of w)"
  from rxq.commit_valid [OF this, of k] show "fq_inv depth (queue_of (snd (snd (release_record k d (sp, w)))))"
    by (auto simp: release_record_def map_queue_def map_transport_def Let_def split: prod.split)
qed

section \<open>The operations and the invariant\<close>

datatype core_op =
  Push_Record rx_frame_record
| Service "nat \<Rightarrow> clock_input"
| Command clock_input u8 u32

definition push_record :: "rx_frame_record \<Rightarrow> rx_core \<Rightarrow> int \<times> rx_core" where
  "push_record r s =
     (let (ret, q) = frame_queue_push (Some r) (queue_of (snd s))
      in (ret, fst s, map_queue (\<lambda>_. q) (snd s)))"

definition spi_command :: "rx_config \<Rightarrow> clock_input \<Rightarrow> u8 \<Rightarrow> u32 \<Rightarrow> rx_core \<Rightarrow> int \<times> rx_core" where
  "spi_command cfg ci code arg s =
     (let (ret, _, s') = run_command release_record (transport_control_command cfg ci) code arg s
      in (ret, s'))"

definition staged :: "rx_config \<Rightarrow> rx_core \<Rightarrow> bool" where
  "staged cfg s \<longleftrightarrow> (case s of (sp, w) \<Rightarrow> have_pending_record sp \<longrightarrow>
     fq_list (queue_of w) \<noteq> [] \<and>
     sp_pending_extended_frame_seq sp = rec_extended_frame_seq (hd (fq_list (queue_of w))) \<and>
     fpga_transport_build_record cfg (Some (hd (fq_list (queue_of w))))
       (next_transport_seq (cl_transport w)) False = Inr (pending_record sp))"

definition core_inv :: "rx_config \<Rightarrow> nat \<Rightarrow> rx_core \<Rightarrow> bool" where
  "core_inv cfg depth s \<longleftrightarrow>
     fq_inv depth (queue_of (snd s)) \<and> quiet (fst s) \<and> have_control_callback (fst s) \<and>
     staged cfg s"

lemma map_queue_simps [simp]:
  "queue_of (map_queue f w) = f (queue_of w)" "cl_transport (map_queue f w) = cl_transport w"
  "cl_backend (map_queue f w) = cl_backend w"
  "queue_of (map_transport g w) = queue_of w" "cl_transport (map_transport g w) = g (cl_transport w)"
  "cl_link (map_transport g w) = cl_link w" "cl_backend (map_transport g w) = cl_backend w"
  by (simp_all add: map_queue_def map_transport_def)

lemma push_record_inv:
  assumes "core_inv cfg depth s" "push_record r s = (ret, s')"
  shows "core_inv cfg depth s' \<and>
    fq_list (queue_of (snd s')) = (if ret = 0 then fq_list (queue_of (snd s)) @ [r]
      else fq_list (queue_of (snd s))) \<and>
    cl_transport (snd s') = cl_transport (snd s)"
proof -
  have inv: "fq_inv depth (queue_of (snd s))"
    using assms(1) by (simp add: core_inv_def)
  have l: "fq_list (queue_of (snd s')) = (if ret = 0 then fq_list (queue_of (snd s)) @ [r]
      else fq_list (queue_of (snd s)))"
    using rxq.push_result [OF inv, of r] assms(2)
    by (auto simp: push_record_def Let_def split: prod.splits)
  have "fq_inv depth (queue_of (snd s'))"
    using fq_inv_push [OF inv, of "Some r"] assms(2)
    by (auto simp: push_record_def Let_def split: prod.splits)
  moreover have "fst s' = fst s" "cl_transport (snd s') = cl_transport (snd s)"
    using assms(2) by (auto simp: push_record_def Let_def split: prod.splits)
  ultimately show ?thesis
    using assms(1) l by (auto simp: core_inv_def staged_def split: prod.splits if_splits)
qed

text \<open>With the SPIS backend, a service call stages the head of the queue, or does nothing.\<close>

definition stages :: "rx_config \<Rightarrow> rx_core \<Rightarrow> bool" where
  "stages cfg s \<longleftrightarrow> transport_initialized (cl_transport (snd s)) \<and> backend_ready (cl_backend (snd s)) \<and>
     fq_list (queue_of (snd s)) \<noteq> [] \<and> \<not> have_pending_record (fst s)"

lemma service_spis:
  assumes spis: "RF_LINK_FPGA_SPIS cfg" and inv: "core_inv cfg depth s"
    and run: "fpga_transport_service cfg clk 0 s = (ret, s')"
  shows "if stages cfg s
    then ret = 1 \<and> have_pending_record (fst s') \<and> core_inv cfg depth s' \<and>
      queue_of (snd s') = queue_of (snd s) \<and> drdy_level (cl_backend (snd s')) \<and>
      next_transport_seq (cl_transport (snd s')) = next_transport_seq (cl_transport (snd s))
    else s' = s \<and> ret \<in> {0, - EAGAIN}"
proof -
  obtain sp w where s: "s = (sp, w)" by (cases s)
  have q: "fq_inv depth (queue_of w)" and quiet: "quiet sp" "have_control_callback sp"
    using inv by (simp_all add: core_inv_def s)
  show ?thesis
  proof (cases "stages cfg s")
    case False
    then show ?thesis
      using run spis peek_list [OF q]
      by (auto simp: s stages_def fpga_transport_service_def service_loop.simps service_pass_def
          backend_is_ready_def fpga_spis_backend_ready_def fpga_spi_transport_pending_def Let_def
          split: if_splits)
  next
    case True
    define h where "h = hd (fq_list (queue_of w))"
    define w1 where "w1 = map_transport (\<lambda>t. t\<lparr>pending_extended_frame_seq := rec_extended_frame_seq h\<rparr>) w"
    obtain r where r: "fpga_transport_build_record cfg (Some h)
        (next_transport_seq (cl_transport w1)) False = Inr r"
      using build_record_total by blast
    have np: "\<not> have_pending_record sp" "fq_list (queue_of w) \<noteq> []"
      using True by (simp_all add: stages_def s)
    define sp2 where "sp2 = sp\<lparr>pending_record := r,
      sp_pending_extended_frame_seq := rec_extended_frame_seq h, have_pending_record := True\<rparr>"
    define w2 where "w2 = w1\<lparr>cl_backend := update_drdy sp2 (cl_backend w1)\<rparr>"
    have sub: "backend_submit cfg r (sp, w1) = (0, sp2, w2)"
      using spis np(1) build_record_valid [OF r]
      by (simp add: backend_submit_def fpga_spis_backend_submit_def fpga_spi_transport_stage_def
          sp2_def w2_def w1_def Let_def)
    have "service_pass cfg (clk 0) 0 s = (Inl 1, sp2, count_submitted cfg (clk 0) w2)"
      using spis np peek_list [OF q] r sub
      by (simp add: s service_pass_def fpga_spi_transport_pending_def Let_def flip: h_def w1_def)
    then have res: "ret = 1" "s' = (sp2, count_submitted cfg (clk 0) w2)"
      using run True spis
      by (simp_all add: s stages_def fpga_transport_service_def service_loop.simps backend_is_ready_def
          fpga_spis_backend_ready_def)
    have w': "queue_of (count_submitted cfg (clk 0) w2) = queue_of w"
      "cl_backend (count_submitted cfg (clk 0) w2) = cl_backend w2"
      "next_transport_seq (cl_transport (count_submitted cfg (clk 0) w2)) =
        next_transport_seq (cl_transport w)"
      by (simp_all add: count_submitted_def w2_def w1_def Let_def split: prod.split)
    show ?thesis
      using True res w' np(2) q quiet r
      by (auto simp: core_inv_def staged_def quiet_def sp2_def w2_def s h_def w1_def
          update_drdy_def fpga_spi_transport_pending_def)
  qed
qed

lemma commit_step:
  assumes inv: "core_inv cfg depth s" and c: "commit_or_drop release_record seq d s = (ret, s')"
  shows "core_inv cfg depth s' \<and>
    (if ret = 0
     then have_pending_record (fst s) \<and> seq = hdr_transport_seq (fpga_header (pending_record (fst s))) \<and>
       fq_list (queue_of (snd s)) \<noteq> [] \<and>
       fpga_transport_build_record cfg (Some (hd (fq_list (queue_of (snd s)))))
         (next_transport_seq (cl_transport (snd s))) False = Inr (pending_record (fst s)) \<and>
       fq_list (queue_of (snd s')) = tl (fq_list (queue_of (snd s))) \<and>
       next_transport_seq (cl_transport (snd s')) = next_transport_seq (cl_transport (snd s)) + 1 \<and>
       \<not> have_pending_record (fst s')
     else snd s' = snd s \<and> have_pending_record (fst s') = have_pending_record (fst s))"
proof -
  obtain sp w where s: "s = (sp, w)" by (cases s)
  obtain sp' w' where s': "s' = (sp', w')" by (cases s')
  have i: "fq_inv depth (queue_of w)" "quiet sp" "staged cfg (sp, w)"
    using inv by (simp_all add: core_inv_def s)
  note c' = c [unfolded s s']
  have keys: "map rec_extended_frame_seq (fq_list (queue_of w)) \<noteq> []"
    "hd (map rec_extended_frame_seq (fq_list (queue_of w))) = sp_pending_extended_frame_seq sp"
    if "have_pending_record sp"
    using i(3) that by (auto simp: staged_def hd_map)
  show ?thesis
  proof (cases "have_pending_record sp \<and> seq = hdr_transport_seq (fpga_header (pending_record sp))")
    case True
    note d = eng.commit_delivers [OF i(2,1) _ _ keys c']
    have ctl: "have_control_callback sp' = have_control_callback sp"
      using d True by auto
    have del: "ret = 0" "map rec_extended_frame_seq (fq_list (queue_of w')) =
        tl (map rec_extended_frame_seq (fq_list (queue_of w)))" "fq_inv depth (queue_of w')"
      "\<not> have_pending_record sp'" "quiet sp'"
      using d True by auto
    have "sp_pending_extended_frame_seq sp = rec_extended_frame_seq (hd (fq_list (queue_of w)))"
      using i(3) True by (simp add: staged_def)
    moreover have ne: "fq_list (queue_of w) \<noteq> []"
      using keys True by auto
    ultimately have "fst (frame_queue_commit (sp_pending_extended_frame_seq sp) (queue_of w)) = 0"
      "fq_list (snd (frame_queue_commit (sp_pending_extended_frame_seq sp) (queue_of w))) =
        tl (fq_list (queue_of w))"
      using rxq.commit_head [OF i(1)] by simp_all
    then have rel: "fq_list (queue_of w') = tl (fq_list (queue_of w))"
      "next_transport_seq (cl_transport w') = next_transport_seq (cl_transport w) + 1"
      using c' True i(2)
      by (auto simp: commit_or_drop_def commit_begin_def commit_finish_def release_record_def
          quiet_def Let_def split: prod.splits if_splits)
    show ?thesis
      using del rel True i ne ctl inv by (auto simp: core_inv_def staged_def s s')
  next
    case False
    then have "ret \<noteq> 0 \<and> w' = w \<and> quiet sp' \<and> have_pending_record sp' = have_pending_record sp \<and>
      pending_record sp' = pending_record sp \<and>
      sp_pending_extended_frame_seq sp' = sp_pending_extended_frame_seq sp \<and>
      have_control_callback sp' = have_control_callback sp"
      using eng.commit_rejected [OF i(2,1) _ c'] by blast
    then show ?thesis
      using i inv by (auto simp: core_inv_def staged_def s s')
  qed
qed

lemma handle_command_queue:
  "lk_queue (snd (link_control_handle_command cfg ci cmd arg l)) =
    (if cmd = FPGA_CMD_ARM_SYNC \<or> cmd = FPGA_CMD_RESET_LINK then frame_queue_clear (lk_queue l)
     else lk_queue l)"
  by (cases cmd) (simp_all add: link_control_handle_command_def Let_def split: prod.split)

text \<open>The control commands keep the invariant; only ARM and RESET touch the queue.\<close>

lemma control_step:
  assumes inv: "core_inv cfg depth s"
    and c: "transport_control_command cfg ci cmd arg s = (ret, s')"
  shows "core_inv cfg depth s' \<and>
    next_transport_seq (cl_transport (snd s')) = next_transport_seq (cl_transport (snd s)) \<and>
    (if cmd = FPGA_CMD_ARM_SYNC \<or> cmd = FPGA_CMD_RESET_LINK
     then fq_list (queue_of (snd s')) = [] \<and> \<not> have_pending_record (fst s')
     else fq_list (queue_of (snd s')) = fq_list (queue_of (snd s)) \<and> fst s' = fst s)"
proof -
  obtain sp w where s: "s = (sp, w)" by (cases s)
  have i: "fq_inv depth (queue_of w)" "quiet sp" "staged cfg (sp, w)"
    using inv by (simp_all add: core_inv_def s)
  have q: "queue_of (snd s') = (if cmd = FPGA_CMD_ARM_SYNC \<or> cmd = FPGA_CMD_RESET_LINK
      then frame_queue_clear (queue_of w) else queue_of w)"
    and e: "fst s' = (if cmd = FPGA_CMD_ARM_SYNC \<or> cmd = FPGA_CMD_RESET_LINK
      then fpga_spi_transport_abort_pending sp else sp)"
    and t: "next_transport_seq (cl_transport (snd s')) = next_transport_seq (cl_transport w)"
    using arg_cong [OF c, of snd]
    by (auto simp: s transport_control_command_def Let_def prod.case_eq_if handle_command_queue)
  have a: "have_control_callback (fpga_spi_transport_abort_pending sp)" "quiet (fpga_spi_transport_abort_pending sp)"
    "\<not> have_pending_record (fpga_spi_transport_abort_pending sp)"
    using i(2) inv by (simp_all add: quiet_def fpga_spi_transport_abort_pending_def core_inv_def s)
  show ?thesis
    using i a inv q e t
    by (cases "cmd = FPGA_CMD_ARM_SYNC \<or> cmd = FPGA_CMD_RESET_LINK")
      (simp_all add: s core_inv_def staged_def inv_intro case_prod_beta)
qed

section \<open>Histories\<close>

text \<open>
  The history keeps the records the queue accepted and the FPGA records that were
  pending when a COMMIT or DROP succeeded, both oldest first.
\<close>

type_synonym history = "rx_frame_record list \<times> fpga_record list \<times> rx_core"

definition commits :: "u8 \<Rightarrow> bool" where
  "commits code \<longleftrightarrow> command_code code = FPGA_CMD_COMMIT_RECORD \<or> command_code code = FPGA_CMD_DROP_RECORD"

fun core_step :: "rx_config \<Rightarrow> core_op \<Rightarrow> history \<Rightarrow> history" where
  "core_step cfg (Push_Record r) (acc, log, s) =
     (let (ret, s') = push_record r s in (if ret = 0 then acc @ [r] else acc, log, s'))"
| "core_step cfg (Service clk) (acc, log, s) =
     (let (ret, s') = fpga_transport_service cfg clk 0 s in (acc, log, s'))"
| "core_step cfg (Command ci code arg) (acc, log, s) =
     (let (ret, s') = spi_command cfg ci code arg s
      in (acc, if commits code \<and> ret = 0 then log @ [pending_record (fst s)] else log, s'))"

definition core_run :: "rx_config \<Rightarrow> core_op list \<Rightarrow> history \<Rightarrow> history" where
  "core_run cfg ops h = foldl (\<lambda>h op. core_step cfg op h) h ops"

fun flushes :: "core_op \<Rightarrow> bool" where
  "flushes (Command ci code arg) \<longleftrightarrow>
     command_code code = FPGA_CMD_ARM_SYNC \<or> command_code code = FPGA_CMD_RESET_LINK"
| "flushes _ \<longleftrightarrow> False"

definition images :: "rx_config \<Rightarrow> rx_frame_record list \<Rightarrow> (int + fpga_record) list" where
  "images cfg rel =
     map (\<lambda>(i, r). fpga_transport_build_record cfg (Some r) (of_nat i) False) (enumerate 0 rel)"

lemma images_snoc:
  "images cfg (rel @ [r]) =
    images cfg rel @ [fpga_transport_build_record cfg (Some r) (of_nat (length rel)) False]"
  by (simp add: images_def enumerate_append_eq)

lemma length_images [simp]: "length (images cfg rel) = length rel"
  by (simp add: images_def)

text \<open>\<open>exact\<close>: no ARM or RESET has discarded anything so far.\<close>

definition related :: "bool \<Rightarrow> 'a list \<Rightarrow> 'a list \<Rightarrow> bool" where
  "related exact xs ys \<longleftrightarrow> (if exact then xs = ys else subseq xs ys)"

definition delivery_ok :: "rx_config \<Rightarrow> nat \<Rightarrow> bool \<Rightarrow> history \<Rightarrow> bool" where
  "delivery_ok cfg depth exact h \<longleftrightarrow> (case h of (acc, log, s) \<Rightarrow>
     core_inv cfg depth s \<and> next_transport_seq (cl_transport (snd s)) = of_nat (length log) \<and>
     (\<exists>rel. related exact (rel @ fq_list (queue_of (snd s))) acc \<and> map Inr log = images cfg rel))"

lemma related_snoc: "related exact xs ys \<Longrightarrow> related exact (xs @ [z]) (ys @ [z])"
  by (simp add: related_def subseq_snoc2)

lemma related_drop: "related exact (xs @ zs) ys \<Longrightarrow> related False xs ys"
  by (auto simp: related_def split: if_splits dest: list_emb_appendD subseq_order.order_trans)

lemma spi_command_cases:
  assumes inv: "core_inv cfg depth s" and c: "spi_command cfg ci code arg s = (ret, s')"
  shows "core_inv cfg depth s' \<and>
    (if commits code \<and> ret = 0
     then fq_list (queue_of (snd s)) \<noteq> [] \<and>
       fpga_transport_build_record cfg (Some (hd (fq_list (queue_of (snd s)))))
         (next_transport_seq (cl_transport (snd s))) False = Inr (pending_record (fst s)) \<and>
       fq_list (queue_of (snd s')) = tl (fq_list (queue_of (snd s))) \<and>
       next_transport_seq (cl_transport (snd s')) = next_transport_seq (cl_transport (snd s)) + 1
     else next_transport_seq (cl_transport (snd s')) = next_transport_seq (cl_transport (snd s)) \<and>
       fq_list (queue_of (snd s')) = (if flushes (Command ci code arg) then []
         else fq_list (queue_of (snd s))))"
proof -
  obtain sp w where s: "s = (sp, w)" by (cases s)
  have upd: "core_inv cfg depth (sp\<lparr>spi_stats := st\<rparr>, w)" for st
    using inv by (simp add: s core_inv_def quiet_def staged_def)
  note ex = run_command_def spi_command_def fpga_spi_transport_execute_def Let_def
  show ?thesis
  proof (cases "command_code code")
    case FPGA_CMD_COMMIT_RECORD
    then have "commit_or_drop release_record arg False s = (ret, s')"
      using c by (auto simp: s ex split: prod.splits)
    from commit_step [OF inv this] FPGA_CMD_COMMIT_RECORD show ?thesis
      by (auto simp: commits_def split: if_splits)
  next
    case FPGA_CMD_DROP_RECORD
    then have "commit_or_drop release_record arg True s = (ret, s')"
      using c by (auto simp: s ex split: prod.splits)
    from commit_step [OF inv this] FPGA_CMD_DROP_RECORD show ?thesis
      by (auto simp: commits_def split: if_splits)
  next
    case FPGA_CMD_CLEAR_STATS
    then have "transport_control_command cfg ci FPGA_CMD_CLEAR_STATS 0
        (sp\<lparr>spi_stats := zero_spi_stats\<rparr>, w) = (ret, s')"
      using c inv by (auto simp: s ex core_inv_def split: prod.splits)
    from control_step [OF upd this] FPGA_CMD_CLEAR_STATS show ?thesis
      by (simp add: commits_def s)
  next
    case FPGA_CMD_ARM_SYNC
    then have "transport_control_command cfg ci FPGA_CMD_ARM_SYNC arg s = (ret, s')"
      using c inv by (auto simp: s ex core_inv_def split: prod.splits)
    from control_step [OF inv this] FPGA_CMD_ARM_SYNC show ?thesis
      by (simp add: commits_def)
  next
    case FPGA_CMD_RESET_LINK
    then have "transport_control_command cfg ci FPGA_CMD_RESET_LINK arg s = (ret, s')"
      using c inv by (auto simp: s ex core_inv_def split: prod.splits)
    from control_step [OF inv this] FPGA_CMD_RESET_LINK show ?thesis
      by (simp add: commits_def)
  next
    case FPGA_CMD_START_STREAM
    then have "transport_control_command cfg ci FPGA_CMD_START_STREAM arg s = (ret, s')"
      using c inv by (auto simp: s ex core_inv_def split: prod.splits)
    from control_step [OF inv this] FPGA_CMD_START_STREAM show ?thesis
      by (simp add: commits_def)
  next
    case FPGA_CMD_STOP_STREAM
    then have "transport_control_command cfg ci FPGA_CMD_STOP_STREAM arg s = (ret, s')"
      using c inv by (auto simp: s ex core_inv_def split: prod.splits)
    from control_step [OF inv this] FPGA_CMD_STOP_STREAM show ?thesis
      by (simp add: commits_def)
  qed (use c inv upd in \<open>auto simp: s ex commits_def read_pending_def spi_invalid_def
      split: prod.splits if_splits\<close>)
qed

lemma delivery_step:
  assumes spis: "RF_LINK_FPGA_SPIS cfg" and ok: "delivery_ok cfg depth exact h"
  shows "delivery_ok cfg depth (exact \<and> \<not> flushes op) (core_step cfg op h)"
proof -
  obtain acc log s where h: "h = (acc, log, s)" by (cases h)
  obtain rel where inv: "core_inv cfg depth s"
    and seq: "next_transport_seq (cl_transport (snd s)) = of_nat (length log)"
    and rel: "related exact (rel @ fq_list (queue_of (snd s))) acc" "map Inr log = images cfg rel"
    using ok by (auto simp: delivery_ok_def h)
  have len: "length log = length rel"
    using arg_cong [OF rel(2), of length] by simp
  show ?thesis
  proof (cases op)
    case (Push_Record r)
    obtain ret s' where p: "push_record r s = (ret, s')"
      by (cases "push_record r s")
    show ?thesis
      using push_record_inv [OF inv p] seq rel related_snoc [OF rel(1), of r]
      by (auto simp: Push_Record h p delivery_ok_def)
  next
    case (Service clk)
    obtain ret s' where p: "fpga_transport_service cfg clk 0 s = (ret, s')"
      by (cases "fpga_transport_service cfg clk 0 s")
    show ?thesis
      using service_spis [OF spis inv p] inv seq rel
      by (cases "stages cfg s") (auto simp: Service h p delivery_ok_def)
  next
    case (Command ci code arg)
    obtain ret s' where p: "spi_command cfg ci code arg s = (ret, s')"
      by (cases "spi_command cfg ci code arg s")
    note c = spi_command_cases [OF inv p]
    show ?thesis
    proof (cases "commits code \<and> ret = 0")
      case True
      define r where "r = hd (fq_list (queue_of (snd s)))"
      have "fq_list (queue_of (snd s)) = r # fq_list (queue_of (snd s'))"
        using c True by (simp add: r_def)
      then have "related exact ((rel @ [r]) @ fq_list (queue_of (snd s'))) acc"
        using rel(1) by simp
      moreover have "map Inr (log @ [pending_record (fst s)]) = images cfg (rel @ [r])"
        using c True rel(2) seq len by (simp add: images_snoc r_def)
      moreover have "\<not> flushes op"
        using True by (auto simp: Command commits_def)
      moreover have "core_inv cfg depth s'"
        "next_transport_seq (cl_transport (snd s')) = of_nat (length (log @ [pending_record (fst s)]))"
        using c True seq by simp_all
      ultimately have "delivery_ok cfg depth (exact \<and> \<not> flushes op)
          (acc, log @ [pending_record (fst s)], s')"
        unfolding delivery_ok_def by (simp only: prod.case simp_thms) blast
      then show ?thesis
        using True by (simp add: h Command p)
    next
      case False
      then have "related (exact \<and> \<not> flushes op) (rel @ fq_list (queue_of (snd s'))) acc"
        using c rel(1) related_drop [of exact rel "fq_list (queue_of (snd s))" acc]
        by (simp add: Command del: flushes.simps)
      with c False seq rel(2) show ?thesis
        unfolding h by (auto simp: Command p delivery_ok_def simp del: flushes.simps)
    qed
  qed
qed

lemma delivery_run:
  "RF_LINK_FPGA_SPIS cfg \<Longrightarrow> delivery_ok cfg depth exact h \<Longrightarrow>
    delivery_ok cfg depth (exact \<and> \<not> list_ex flushes ops) (core_run cfg ops h)"
proof (induction ops arbitrary: h exact)
  case (Cons op ops)
  from Cons.IH [OF Cons.prems(1) delivery_step [OF Cons.prems, of op]] show ?case
    by (simp add: core_run_def)
qed (simp add: core_run_def)

section \<open>Properties\<close>

lemma transport_init_link:
  "fpga_transport_init cfg d (sp, w) = (0, s0) \<Longrightarrow> cl_link (snd s0) = cl_link w"
  by (auto simp: fpga_transport_init_def Let_def split: prod.splits if_splits)

lemma init_delivery_ok:
  assumes "fpga_transport_init cfg d (sp, w) = (0, s0)" "queue_of w = frame_queue_init q"
    and "0 < length (fq_records q)" "length (fq_records q) < 2 ^ 32"
  shows "delivery_ok cfg (length (fq_records q)) True ([], [], s0)"
proof -
  have q: "queue_of (snd s0) = frame_queue_init q"
    and e: "quiet (fst s0)" "have_control_callback (fst s0)" "\<not> have_pending_record (fst s0)"
    and t: "next_transport_seq (cl_transport (snd s0)) = 0"
    using assms(1,2)
    by (auto simp: fpga_transport_init_def fpga_spi_transport_init_def quiet_def Let_def
        split: prod.splits if_splits)
  have "fq_inv (length (fq_records q)) (queue_of (snd s0))"
    unfolding q by (rule fq_inv_init [OF assms(3,4)])
  then show ?thesis
    using q e t by (auto simp: delivery_ok_def core_inv_def staged_def related_def images_def
        split: prod.split)
qed

text \<open>
  C1. Exactly once, in order: in every history of radio pushes, service calls and
  FPGA commands after initialisation with the SPIS backend, the records whose
  COMMIT or DROP succeeded are the valid images of the oldest accepted records, in
  the order they were accepted, each once, with transport sequence numbers 0, 1,
  2, \<dots>; the rest is still queued. ARM_SYNC and RESET_LINK may only discard records
  (the delivered and queued records are then a subsequence of the accepted ones);
  they never repeat or reorder one or leave a hole in the transport numbering.
\<close>

theorem delivery_exactly_once:
  assumes "RF_LINK_FPGA_SPIS cfg"
    and "fpga_transport_init cfg d (sp, w) = (0, s0)" "queue_of w = frame_queue_init q"
    and "0 < length (fq_records q)" "length (fq_records q) < 2 ^ 32"
    and "core_run cfg ops ([], [], s0) = (accepted, delivered, s)"
  shows "\<exists>released. map Inr delivered = images cfg released \<and>
    map (hdr_transport_seq \<circ> fpga_header) delivered = map of_nat [0..<length delivered] \<and>
    list_all (\<lambda>r. record_crc_valid cfg (Some r)) delivered \<and>
    subseq (released @ fq_list (queue_of (snd s))) accepted \<and>
    (list_ex flushes ops \<or> released @ fq_list (queue_of (snd s)) = accepted)"
proof -
  have "delivery_ok cfg (length (fq_records q)) (True \<and> \<not> list_ex flushes ops)
      (accepted, delivered, s)"
    using delivery_run [OF assms(1) init_delivery_ok [OF assms(2-5)], of ops] unfolding assms(6) .
  then obtain rel where rel: "related (\<not> list_ex flushes ops) (rel @ fq_list (queue_of (snd s))) accepted"
    and im: "map Inr delivered = images cfg rel"
    by (auto simp: delivery_ok_def)
  have len: "length delivered = length rel"
    using arg_cong [OF im, of length] by simp
  have nth: "fpga_transport_build_record cfg (Some (rel ! i)) (of_nat i) False = Inr (delivered ! i)"
    if "i < length delivered" for i
  proof -
    have "map Inr delivered ! i = images cfg rel ! i"
      by (simp only: im)
    then show ?thesis
      using that len by (simp add: images_def nth_enumerate_eq)
  qed
  have "map (hdr_transport_seq \<circ> fpga_header) delivered = map of_nat [0..<length delivered]"
    by (rule nth_equalityI) (simp_all add: build_record_fields(1) [OF nth])
  moreover have "list_all (\<lambda>r. record_crc_valid cfg (Some r)) delivered"
    using build_record_valid [OF nth] by (simp add: list_all_length)
  ultimately show ?thesis
    using rel im by (auto simp: related_def split: if_splits)
qed

definition sample_client :: rx_client where
  "sample_client = \<lparr>cl_link = sample_link\<lparr>lk_queue := frame_queue_init sample_queue\<rparr>,
     cl_transport = \<lparr>transport_stats_data = zero_transport_stats, next_transport_seq = 0,
       pending_extended_frame_seq = 0, pending_since_tick = 0, transport_initialized = False\<rparr>,
     cl_backend = \<lparr>backend_stats = zero_backend_stats, backend_ready = False, drdy_level = False,
       worker_started = False\<rparr>\<rparr>"

definition good_drivers :: backend_drivers where
  "good_drivers = \<lparr>bd_spis_ready = True, bd_drdy_ready = True, bd_configure_result = 0\<rparr>"

definition sample_clock :: clock_input where
  "sample_clock = \<lparr>ci_raw = 5, ci_cycles = 9\<rparr>"

lemma sample_init:
  "fst (fpga_transport_init (ch0_spis_conf sum16 sum32) good_drivers (idle_spi, sample_client)) = 0"
  by (simp add: fpga_transport_init_def fpga_spi_transport_init_def backend_init_def
      fpga_spis_backend_init_def good_drivers_def ch0_spis_conf_def Let_def)

definition sample_start :: rx_core where
  "sample_start =
     snd (fpga_transport_init (ch0_spis_conf sum16 sum32) good_drivers (idle_spi, sample_client))"

definition sample_ops :: "core_op list" where
  "sample_ops = [Push_Record (sample_record 1), Push_Record (sample_record 2),
     Service (\<lambda>_. sample_clock), Command sample_clock 5 0, Command sample_clock 5 0]"

lemma sample_delivered:
  "length (fst (snd (core_run (ch0_spis_conf sum16 sum32) sample_ops ([], [], sample_start)))) = 1"
  by code_simp

text \<open>Two records pushed, one staged and committed, and its COMMIT repeated.\<close>

lemma delivery_exactly_once_witness:
  "\<exists>accepted delivered s. core_run (ch0_spis_conf sum16 sum32) sample_ops ([], [], sample_start) =
      (accepted, delivered, s) \<and> length delivered = 1 \<and>
     map (hdr_transport_seq \<circ> fpga_header) delivered = [0] \<and>
     (\<exists>released. map Inr delivered = images (ch0_spis_conf sum16 sum32) released \<and>
        released @ fq_list (queue_of (snd s)) = accepted)"
proof -
  let ?cfg = "ch0_spis_conf sum16 sum32"
  obtain accepted delivered s where
    run: "core_run ?cfg sample_ops ([], [], sample_start) = (accepted, delivered, s)"
    by (metis prod_cases3)
  have len: "length delivered = 1"
    using sample_delivered unfolding run by simp
  have init: "fpga_transport_init ?cfg good_drivers (idle_spi, sample_client) = (0, sample_start)"
    using sample_init by (simp add: sample_start_def prod_eq_iff)
  have "\<not> list_ex flushes sample_ops"
    by (simp add: sample_ops_def command_code_def)
  with delivery_exactly_once [OF _ init _ _ _ run, of sample_queue] run len show ?thesis
    by (auto simp: ch0_spis_conf_def sample_client_def sample_queue_def)
qed

lemma service_stages_frame:
  assumes "RF_LINK_FPGA_SPIS cfg" "core_inv cfg depth s"
    and "fpga_transport_service cfg clk 0 s = (ret, s')"
  shows "core_inv cfg depth s' \<and> queue_of (snd s') = queue_of (snd s) \<and>
    (if stages cfg s
     then ret = 1 \<and> have_pending_record (fst s') \<and> drdy_level (cl_backend (snd s')) \<and>
       fpga_transport_build_record cfg (Some (hd (fq_list (queue_of (snd s)))))
         (next_transport_seq (cl_transport (snd s))) False = Inr (pending_record (fst s'))
     else s' = s)"
  using service_spis [OF assms] assms(2)
  by (auto simp: core_inv_def staged_def split: if_splits)

text \<open>
  A service call with the SPIS backend stages exactly the oldest queued record
  when none is pending, raises DRDY and leaves the queue as it is; with a record
  pending, with an empty queue or before initialisation it changes nothing. So a
  record leaves the queue only when the FPGA commits it.
\<close>

theorem service_stages_head:
  assumes "RF_LINK_FPGA_SPIS cfg" "core_inv cfg depth s"
    and "fpga_transport_service cfg clk 0 s = (ret, s')"
  shows "core_inv cfg depth s' \<and> queue_of (snd s') = queue_of (snd s) \<and>
    (if stages cfg s
     then ret = 1 \<and> have_pending_record (fst s') \<and> drdy_level (cl_backend (snd s')) \<and>
       fpga_transport_build_record cfg (Some (hd (fq_list (queue_of (snd s)))))
         (next_transport_seq (cl_transport (snd s))) False = Inr (pending_record (fst s'))
     else s' = s)"
  by (rule service_stages_frame [OF assms])

lemma service_stages_head_witness:
  "core_inv (ch0_spis_conf sum16 sum32) 2 sample_start \<and>
   snd (fpga_transport_service (ch0_spis_conf sum16 sum32) (\<lambda>_. sample_clock) 0 sample_start) =
     sample_start"
proof -
  let ?cfg = "ch0_spis_conf sum16 sum32"
  have init: "fpga_transport_init ?cfg good_drivers (idle_spi, sample_client) = (0, sample_start)"
    using sample_init by (simp add: sample_start_def prod_eq_iff)
  have "delivery_ok ?cfg 2 True ([], [], sample_start)"
    using init_delivery_ok [OF init, of sample_queue] by (simp add: sample_client_def sample_queue_def)
  then have inv: "core_inv ?cfg 2 sample_start"
    by (simp add: delivery_ok_def)
  have "queue_of (snd sample_start) = frame_queue_init sample_queue"
    using transport_init_link [OF init] by (simp add: sample_client_def)
  then have "\<not> stages ?cfg sample_start"
    by (simp add: stages_def)
  then show ?thesis
    using service_stages_head [OF _ inv surjective_pairing, of "\<lambda>_. sample_clock"] inv
    by (simp add: ch0_spis_conf_def)
qed

section \<open>The diagnostic backend\<close>

lemma debug_pass:
  assumes "\<not> RF_LINK_FPGA_SPIS cfg" "fq_inv depth (queue_of w)" "fq_list (queue_of w) \<noteq> []"
  obtains w' where "service_pass cfg ci n (sp, w) = (Inr (n + 1), sp, w')"
    and "fq_inv depth (queue_of w')" "fq_list (queue_of w') = tl (fq_list (queue_of w))"
    and "next_transport_seq (cl_transport w') = next_transport_seq (cl_transport w) + 1"
    and "tst_records (transport_stats_data (cl_transport w')) =
      tst_records (transport_stats_data (cl_transport w)) + 1"
proof -
  define h where "h = hd (fq_list (queue_of w))"
  define w1 where "w1 = map_transport (\<lambda>t. t\<lparr>pending_extended_frame_seq := rec_extended_frame_seq h\<rparr>) w"
  obtain r where r: "fpga_transport_build_record cfg (Some h)
      (next_transport_seq (cl_transport w1)) False = Inr r"
    using build_record_total by blast
  have sub: "backend_submit cfg r (sp, w1) = (0, sp, w1)"
    using assms(1) build_record_valid [OF r] by (simp add: backend_submit_def debug_backend_submit_def)
  define w3 where "w3 = count_submitted cfg ci w1"
  have w3: "queue_of w3 = queue_of w"
    "next_transport_seq (cl_transport w3) = next_transport_seq (cl_transport w)"
    "tst_records (transport_stats_data (cl_transport w3)) =
      tst_records (transport_stats_data (cl_transport w)) + 1"
    by (simp_all add: w3_def count_submitted_def w1_def Let_def split: prod.split)
  obtain ret sp4 w4 where rel: "release_record (rec_extended_frame_seq h) False (sp, w3) = (ret, sp4, w4)"
    by (metis prod_cases3)
  have q3: "fq_inv depth (queue_of w3)"
    using assms(2) w3 by simp
  have c: "fst (frame_queue_commit (rec_extended_frame_seq h) (queue_of w3)) = 0"
    "fq_list (snd (frame_queue_commit (rec_extended_frame_seq h) (queue_of w3))) =
      tl (fq_list (queue_of w))"
    using rxq.commit_head [OF q3, of "rec_extended_frame_seq h"] assms(3) w3 by (simp_all add: h_def)
  have rel': "ret = 0" "sp4 = sp" "queue_of w4 = snd (frame_queue_commit (rec_extended_frame_seq h) (queue_of w3))"
    "next_transport_seq (cl_transport w4) = next_transport_seq (cl_transport w) + 1"
    "tst_records (transport_stats_data (cl_transport w4)) =
      tst_records (transport_stats_data (cl_transport w)) + 1"
    using rel c w3 by (auto simp: release_record_def Let_def split: prod.splits)
  have "service_pass cfg ci n (sp, w) = (Inr (n + 1), sp, w4)"
    using assms peek_list [OF assms(2)] r sub rel rel'(1,2)
    by (simp add: service_pass_def Let_def flip: h_def w1_def w3_def)
  moreover have "fq_inv depth (queue_of w4)"
    unfolding rel'(3) by (rule fq_inv_commit [OF q3])
  ultimately show thesis
    using that rel' c(2) by simp
qed

lemma debug_loop:
  assumes "\<not> RF_LINK_FPGA_SPIS cfg" "fq_inv depth (queue_of w)"
    and "service_loop cfg clk n (sp, w) = (ret, sp', w')"
  shows "ret = int (n + record_count (queue_of w)) \<and> fq_list (queue_of w') = [] \<and> sp' = sp \<and>
    next_transport_seq (cl_transport w') =
      next_transport_seq (cl_transport w) + of_nat (record_count (queue_of w)) \<and>
    tst_records (transport_stats_data (cl_transport w')) =
      tst_records (transport_stats_data (cl_transport w)) + of_nat (record_count (queue_of w))"
  using assms(2,3)
proof (induction "record_count (queue_of w)" arbitrary: w n)
  case 0
  then have "fq_list (queue_of w) = []"
    by (simp add: fq_list_empty_iff)
  with 0 show ?case
    using peek_list [OF "0.prems"(1)] by (auto simp: service_loop.simps service_pass_def)
next
  case (Suc k)
  then have "fq_list (queue_of w) \<noteq> []"
    by (simp add: fq_list_empty_iff)
  from debug_pass [OF assms(1) Suc.prems(1) this, of "clk n" n sp]
  obtain w1 where p: "service_pass cfg (clk n) n (sp, w) = (Inr (n + 1), sp, w1)"
    and w1: "fq_inv depth (queue_of w1)" "fq_list (queue_of w1) = tl (fq_list (queue_of w))"
      "next_transport_seq (cl_transport w1) = next_transport_seq (cl_transport w) + 1"
      "tst_records (transport_stats_data (cl_transport w1)) =
        tst_records (transport_stats_data (cl_transport w)) + 1"
    by blast
  have k: "record_count (queue_of w1) = k"
    using arg_cong [OF w1(2), of length] Suc.hyps(2) by simp
  have "service_loop cfg clk (n + 1) (sp, w1) = (ret, sp', w')"
    using Suc.prems(2) by (simp add: service_loop.simps [of cfg clk n "(sp, w)"] p)
  from Suc.hyps(1) [OF k [symmetric] w1(1) this] k Suc.hyps(2) w1(3,4) show ?case
    by (simp flip: Suc.hyps(2))
qed

text \<open>
  With the diagnostic backend, one service call delivers and commits every
  queued record: it returns their number, empties the queue, and advances the
  transport numbering and the record counter by that number.
\<close>

theorem debug_service_drains:
  assumes "\<not> RF_LINK_FPGA_SPIS cfg" "fq_inv depth (queue_of w)"
    and "transport_initialized (cl_transport w)"
    and "fpga_transport_service cfg clk 0 (sp, w) = (ret, sp', w')"
  shows "ret = int (length (fq_list (queue_of w))) \<and> fq_list (queue_of w') = [] \<and> sp' = sp \<and>
    next_transport_seq (cl_transport w') =
      next_transport_seq (cl_transport w) + of_nat (length (fq_list (queue_of w))) \<and>
    tst_records (transport_stats_data (cl_transport w')) =
      tst_records (transport_stats_data (cl_transport w)) + of_nat (length (fq_list (queue_of w)))"
proof -
  have "service_loop cfg clk 0 (sp, w) = (ret, sp', w')"
    using assms(1,3,4) by (simp add: fpga_transport_service_def backend_is_ready_def)
  from debug_loop [OF assms(1,2) this] show ?thesis
    by simp
qed

definition debug_client :: rx_client where
  "debug_client = map_queue (\<lambda>_. snd (frame_queue_push (Some (sample_record 7)) sample_queue))
     (map_transport (\<lambda>t. t\<lparr>transport_initialized := True\<rparr>) sample_client)"

lemma debug_service_drains_witness:
  "fst (fpga_transport_service (future_conf sum16 sum32) (\<lambda>_. sample_clock) 0
     (idle_spi, debug_client)) = 1"
proof -
  obtain ret sp' w' where run: "fpga_transport_service (future_conf sum16 sum32) (\<lambda>_. sample_clock) 0
      (idle_spi, debug_client) = (ret, sp', w')"
    by (metis prod_cases3)
  have "fq_inv 2 (queue_of debug_client)"
    using fq_inv_push [OF sample_queue_inv] by (simp add: debug_client_def)
  moreover have "record_count (queue_of debug_client) = 1" "transport_initialized (cl_transport debug_client)"
    by (simp_all add: debug_client_def frame_queue_push_def sample_queue_def Let_def)
  ultimately show ?thesis
    using debug_service_drains [OF _ _ _ run, of 2] run by (simp add: future_conf_def)
qed

section \<open>A state with a staged record, for the witnesses\<close>

text \<open>Two records queued and the first one staged.\<close>

definition staged_start :: rx_core where
  "staged_start = snd (snd (core_run (ch0_spis_conf sum16 sum32)
     [Push_Record (sample_record 1), Push_Record (sample_record 2), Service (\<lambda>_. sample_clock)]
     ([], [], sample_start)))"

lemma sample_start_init:
  "fpga_transport_init (ch0_spis_conf sum16 sum32) good_drivers (idle_spi, sample_client) =
    (0, sample_start)"
  using sample_init by (simp add: sample_start_def prod_eq_iff)

lemma staged_start_inv: "core_inv (ch0_spis_conf sum16 sum32) 2 staged_start"
proof -
  have "delivery_ok (ch0_spis_conf sum16 sum32) 2 True ([], [], sample_start)"
    using init_delivery_ok [OF sample_start_init, of sample_queue]
    by (simp add: sample_client_def sample_queue_def)
  from delivery_run [OF _ this, of "[Push_Record (sample_record 1), Push_Record (sample_record 2),
      Service (\<lambda>_. sample_clock)]"]
  show ?thesis
    by (cases "core_run (ch0_spis_conf sum16 sum32)
      [Push_Record (sample_record 1), Push_Record (sample_record 2), Service (\<lambda>_. sample_clock)]
      ([], [], sample_start)") (simp add: staged_start_def delivery_ok_def ch0_spis_conf_def)
qed

lemma staged_start_facts:
  "have_pending_record (fst staged_start) \<and>
   hdr_transport_seq (fpga_header (pending_record (fst staged_start))) = 0 \<and>
   transport_initialized (cl_transport (snd staged_start)) \<and>
   backend_ready (cl_backend (snd staged_start)) \<and>
   length (fq_list (queue_of (snd staged_start))) = 2"
  by code_simp

end
