(* ===== verification/Spis_Worker.thy ===== *)
theory Spis_Worker
  imports Delivery
begin

text \<open>
  \<open>spis_worker\<close> of \<open>fpga_spis_backend.c\<close>: one pass of its endless loop is a function
  of what the two \<open>spi_transceive\<close> calls return and receive and of the clock. The
  result is the response handed to the second call, if the pass reaches it, and
  the new state.
\<close>

record worker_io =
  io_request_result :: int
  io_request_bytes :: "u8 list"
  io_response_result :: int
  io_clock :: "nat \<Rightarrow> clock_input"
  io_lock_result :: int

definition map_bstats ::
  "(fpga_spis_backend_stats \<Rightarrow> fpga_spis_backend_stats) \<Rightarrow> rx_core \<Rightarrow> rx_core" where
  "map_bstats f s = (fst s, (snd s)\<lparr>cl_backend :=
     (cl_backend (snd s))\<lparr>backend_stats := f (backend_stats (cl_backend (snd s)))\<rparr>\<rparr>)"

definition inc_spi_errors :: "rx_core \<Rightarrow> rx_core" where
  "inc_spi_errors = map_bstats (\<lambda>b. b\<lparr>bst_spi_errors := bst_spi_errors b + 1\<rparr>)"

definition inc_requests :: "rx_core \<Rightarrow> rx_core" where
  "inc_requests = map_bstats (\<lambda>b. b\<lparr>bst_request_transactions := bst_request_transactions b + 1\<rparr>)"

definition inc_responses :: "rx_core \<Rightarrow> rx_core" where
  "inc_responses = map_bstats (\<lambda>b. b\<lparr>bst_response_transactions := bst_response_transactions b + 1\<rparr>)"

definition inc_short :: "rx_core \<Rightarrow> rx_core" where
  "inc_short = map_bstats (\<lambda>b. b\<lparr>bst_short_transfers := bst_short_transfers b + 1\<rparr>)"

definition inc_parser_errors :: "rx_core \<Rightarrow> rx_core" where
  "inc_parser_errors = map_bstats (\<lambda>b. b\<lparr>bst_parser_errors := bst_parser_errors b + 1\<rparr>)"

definition info_payload :: fpga_info_payload where
  "info_payload = \<lparr>info_magic = FPGA_INFO_MAGIC, info_contract_version = FPGA_SPI_CONTRACT_VERSION,
     info_capabilities = FPGA_CAP_PEEK_COMMIT OR FPGA_CAP_LEVEL_DRDY OR FPGA_CAP_HW_SYNC_CAPTURE,
     info_request_size = of_nat FPGA_SPI_REQUEST_SIZE,
     info_response_size = of_nat FPGA_SPI_RESPONSE_SIZE,
     info_record_size = of_nat FPGA_RECORD_SIZE, info_spi_mode = 0,
     info_bit_order = FPGA_SPI_BIT_ORDER_MSB_FIRST, info_max_sclk_hz = 8000000,
     info_initial_sclk_hz = 1000000, info_min_request_response_gap_us = 1000\<rparr>"

definition fill_info_response :: "fpga_response \<Rightarrow> fpga_response" where
  [op_defs]: "fill_info_response r = put_payload (info_bytes info_payload) r"

definition status_payload :: "rx_core \<Rightarrow> fpga_status_payload" where
  [op_defs]: "status_payload s =
     (let (sp, w) = s;
          command_stats = fpga_spi_transport_stats_get sp;
          physical_stats = fpga_spis_backend_get_stats (cl_backend w);
          queue_stats = frame_queue_stats_get (queue_of w);
          sync_st = sync_manager_get_status (lk_sync (cl_link w))
      in \<lparr>stat_magic = FPGA_STATUS_MAGIC, stat_contract_version = FPGA_SPI_CONTRACT_VERSION,
          stat_sync_state = sync_state_code (state sync_st),
          stat_queue_level = of_nat (frame_queue_level (queue_of w)),
          stat_queue_high_water = high_water queue_stats,
          stat_sync_epoch = sync_epoch sync_st, stat_sync_tick = sync_tick sync_st,
          stat_pending_transport_seq = fpga_spi_transport_pending_seq sp,
          stat_crc_errors = sst_crc_errors command_stats,
          stat_invalid_cmd = sst_invalid_cmd command_stats,
          stat_duplicate_commit = sst_duplicate_commit command_stats,
          stat_spi_errors = bst_spi_errors physical_stats,
          stat_parser_errors = bst_parser_errors physical_stats,
          stat_short_transfers = bst_short_transfers physical_stats\<rparr>)"

definition fill_status_response :: "rx_core \<Rightarrow> fpga_response \<Rightarrow> fpga_response" where
  [op_defs]: "fill_status_response s r = put_payload (status_bytes (status_payload s)) r"

definition request_reserved_valid :: "fpga_command \<Rightarrow> bool" where
  [op_defs]: "request_reserved_valid c \<longleftrightarrow>
     cmd_reserved c ! 0 = 0 \<and> cmd_reserved c ! 1 = 0 \<and> cmd_reserved c ! 2 = 0"

text \<open>The branch for a request that parses: execute, then serve or fill.\<close>

definition worker_execute ::
  "rx_config \<Rightarrow> worker_io \<Rightarrow> fpga_command \<Rightarrow> rx_core \<Rightarrow> fpga_response \<times> rx_core" where
  [op_defs]: "worker_execute cfg io command s =
     (let (ret, respo, s1) = fpga_spi_transport_execute release_record
            (transport_control_command cfg (io_clock io 0)) (Some command) False s;
          resp = (case respo of Some r \<Rightarrow> r | None \<Rightarrow> zero_response);
          code = command_code (cmd_code command);
          s2 = (if (code = FPGA_CMD_COMMIT_RECORD \<or> code = FPGA_CMD_DROP_RECORD) \<and> ret = 0
                then snd (fpga_transport_service cfg (io_clock io) (io_lock_result io) s1) else s1)
      in (if code = FPGA_CMD_GET_INFO \<and> ret = 0 then fill_info_response resp
          else if code = FPGA_CMD_GET_STATUS \<and> ret = 0 then fill_status_response s2 resp
          else resp, s2))"

definition worker_update_drdy :: "rx_core \<Rightarrow> rx_core" where
  [op_defs]: "worker_update_drdy s =
     (fst s, (snd s)\<lparr>cl_backend := update_drdy (fst s) (cl_backend (snd s))\<rparr>)"

definition worker_pass ::
  "rx_config \<Rightarrow> worker_io \<Rightarrow> rx_core \<Rightarrow> fpga_response option \<times> rx_core" where
  [op_defs]: "worker_pass cfg io s =
     (if io_request_result io < 0 then (None, inc_spi_errors s)
      else
        let s1 = inc_requests s
        in if io_request_result io \<noteq> int FPGA_SPI_REQUEST_SIZE then (None, inc_short s1)
           else
             let command = fpga_command_of_bytes (io_request_bytes io);
                 (resp, s2) =
                   (if \<not> request_reserved_valid command
                    then (zero_response\<lparr>resp_status := word_of_int (- EBADMSG)\<rparr>, inc_parser_errors s1)
                    else worker_execute cfg io command s1);
                 s3 = worker_update_drdy s2
             in if io_response_result io < 0 then (Some resp, inc_spi_errors s3)
                else
                  let s4 = inc_responses s3
                  in (Some resp, if io_response_result io \<noteq> int FPGA_SPI_RESPONSE_SIZE
                                 then inc_short s4 else s4))"

section \<open>Counters do not touch the protocol state\<close>

lemma map_bstats_simps [simp]:
  "fst (map_bstats f s) = fst s" "cl_link (snd (map_bstats f s)) = cl_link (snd s)"
  "cl_transport (snd (map_bstats f s)) = cl_transport (snd s)"
  "drdy_level (cl_backend (snd (map_bstats f s))) = drdy_level (cl_backend (snd s))"
  "backend_ready (cl_backend (snd (map_bstats f s))) = backend_ready (cl_backend (snd s))"
  by (simp_all add: map_bstats_def)

lemma core_inv_cong:
  assumes "fst s' = fst s" "queue_of (snd s') = queue_of (snd s)"
    and "next_transport_seq (cl_transport (snd s')) = next_transport_seq (cl_transport (snd s))"
  shows "core_inv cfg depth s' = core_inv cfg depth s"
  using assms by (cases s; cases s') (simp add: core_inv_def staged_def)

lemmas inc_defs = inc_spi_errors_def inc_requests_def inc_responses_def inc_short_def
  inc_parser_errors_def

lemma inc_inv [simp]:
  "core_inv cfg depth (inc_spi_errors s) = core_inv cfg depth s"
  "core_inv cfg depth (inc_requests s) = core_inv cfg depth s"
  "core_inv cfg depth (inc_responses s) = core_inv cfg depth s"
  "core_inv cfg depth (inc_short s) = core_inv cfg depth s"
  "core_inv cfg depth (inc_parser_errors s) = core_inv cfg depth s"
  "core_inv cfg depth (worker_update_drdy s) = core_inv cfg depth s"
  unfolding inc_defs worker_update_drdy_def by (rule core_inv_cong; simp)+

lemma inc_simps [simp]:
  "fst (inc_spi_errors s) = fst s" "fst (inc_requests s) = fst s" "fst (inc_responses s) = fst s"
  "fst (inc_short s) = fst s" "fst (inc_parser_errors s) = fst s" "fst (worker_update_drdy s) = fst s"
  "drdy_level (cl_backend (snd (inc_spi_errors s))) = drdy_level (cl_backend (snd s))"
  "drdy_level (cl_backend (snd (inc_responses s))) = drdy_level (cl_backend (snd s))"
  "drdy_level (cl_backend (snd (inc_short s))) = drdy_level (cl_backend (snd s))"
  "drdy_level (cl_backend (snd (worker_update_drdy s))) = have_pending_record (fst s)"
  "queue_of (snd (worker_update_drdy s)) = queue_of (snd s)"
  "queue_of (snd (inc_requests s)) = queue_of (snd s)"
  "queue_of (snd (inc_spi_errors s)) = queue_of (snd s)"
  "queue_of (snd (inc_responses s)) = queue_of (snd s)"
  "queue_of (snd (inc_short s)) = queue_of (snd s)"
  "queue_of (snd (inc_parser_errors s)) = queue_of (snd s)"
  "cl_transport (snd (inc_requests s)) = cl_transport (snd s)"
  "backend_ready (cl_backend (snd (inc_requests s))) = backend_ready (cl_backend (snd s))"
  by (simp_all add: inc_defs worker_update_drdy_def update_drdy_def fpga_spi_transport_pending_def)

lemma execute_run_command:
  "fpga_spi_transport_execute release control (Some c) False s =
    run_command release control (cmd_code c) (cmd_argument c) s"
  unfolding run_command_def fpga_spi_transport_execute_def
  by (simp only: fpga_command.simps option.simps)

lemma worker_execute_command:
  assumes c: "spi_command cfg (io_clock io 0) (cmd_code cmd) (cmd_argument cmd) s = (ret, s1)"
  shows "snd (worker_execute cfg io cmd s) =
    (if commits (cmd_code cmd) \<and> ret = 0
     then snd (fpga_transport_service cfg (io_clock io) (io_lock_result io) s1) else s1)"
  using c
  by (auto simp: worker_execute_def execute_run_command spi_command_def commits_def Let_def
      split: prod.splits)

lemma worker_execute_inv:
  assumes "RF_LINK_FPGA_SPIS cfg" "core_inv cfg depth s" "io_lock_result io = 0"
  shows "core_inv cfg depth (snd (worker_execute cfg io cmd s))"
proof -
  obtain ret s1 where c: "spi_command cfg (io_clock io 0) (cmd_code cmd) (cmd_argument cmd) s = (ret, s1)"
    by (cases "spi_command cfg (io_clock io 0) (cmd_code cmd) (cmd_argument cmd) s")
  have i: "core_inv cfg depth s1"
    using spi_command_cases [OF assms(2) c] by blast
  have "core_inv cfg depth (snd (fpga_transport_service cfg (io_clock io) 0 s1))"
    using service_stages_frame [OF assms(1) i surjective_pairing] by blast
  with i assms(3) show ?thesis
    by (simp add: worker_execute_command [OF c])
qed

section \<open>Properties\<close>

text \<open>
  C32. Whatever the FPGA sends and however its transfers fail, one pass of the SPI
  worker keeps the delivery invariant, and after every request of the right
  length DRDY is high exactly when a record is pending.
\<close>

theorem worker_pass_invariant:
  assumes "RF_LINK_FPGA_SPIS cfg" "core_inv cfg depth s" "io_lock_result io = 0"
    and "worker_pass cfg io s = (resp, s')"
  shows "core_inv cfg depth s' \<and>
    (io_request_result io = 8 \<longrightarrow> resp \<noteq> None \<and>
       drdy_level (cl_backend (snd s')) = have_pending_record (fst s'))"
proof -
  have e: "core_inv cfg depth (snd (worker_execute cfg io cmd (inc_requests s)))" for cmd
    using assms by (intro worker_execute_inv) simp_all
  show ?thesis
    using assms e
    by (auto simp: worker_pass_def FPGA_SPI_REQUEST_SIZE_def Let_def split: if_splits prod.splits)
      (metis snd_conv inc_inv)+
qed

lemma commit_frame:
  "commit_or_drop release_record seq d s = (ret, s') \<Longrightarrow>
    cl_backend (snd s') = cl_backend (snd s) \<and>
    transport_initialized (cl_transport (snd s')) = transport_initialized (cl_transport (snd s))"
  by (cases s) (auto simp: commit_or_drop_def release_record_def Let_def
      split: prod.splits sum.splits if_splits)

lemma commit_pending_succeeds:
  assumes inv: "core_inv cfg depth s" and p: "have_pending_record (fst s)"
    and seq: "seq = hdr_transport_seq (fpga_header (pending_record (fst s)))"
    and c: "commit_or_drop release_record seq d s = (ret, s')"
  shows "ret = 0"
proof -
  obtain sp w where s: "s = (sp, w)" by (cases s)
  obtain sp' w' where s': "s' = (sp', w')" by (cases s')
  have i: "fq_inv depth (queue_of w)" "quiet sp" "staged cfg (sp, w)"
    using inv by (simp_all add: core_inv_def s)
  have "map rec_extended_frame_seq (fq_list (queue_of w)) \<noteq> []"
    "hd (map rec_extended_frame_seq (fq_list (queue_of w))) = sp_pending_extended_frame_seq sp"
    using i(3) p by (auto simp: staged_def hd_map s)
  from eng.commit_delivers [OF i(2,1) _ _ this c [unfolded s s']] p seq show ?thesis
    by (simp add: s)
qed

definition request_bytes :: "u8 \<Rightarrow> u32 \<Rightarrow> u8 list" where
  "request_bytes code arg =
     fpga_command_bytes \<lparr>cmd_code = code, cmd_reserved = [0, 0, 0], cmd_argument = arg\<rparr>"

lemma request_parses:
  "fpga_command_of_bytes (request_bytes code arg) =
     \<lparr>cmd_code = code, cmd_reserved = [0, 0, 0], cmd_argument = arg\<rparr>"
  "request_reserved_valid \<lparr>cmd_code = code, cmd_reserved = [0, 0, 0], cmd_argument = arg\<rparr>"
  by (simp_all add: request_bytes_def fpga_command_of_bytes_bytes request_reserved_valid_def)

lemma worker_pass_full:
  assumes "io_request_result io = 8" "io_request_bytes io = request_bytes code arg"
    and "worker_execute cfg io \<lparr>cmd_code = code, cmd_reserved = [0, 0, 0], cmd_argument = arg\<rparr>
      (inc_requests s) = (resp, s2)"
    and "worker_pass cfg io s = (respo, s')"
  shows "respo = Some resp \<and> fst s' = fst s2 \<and> queue_of (snd s') = queue_of (snd s2) \<and>
    drdy_level (cl_backend (snd s')) = have_pending_record (fst s2)"
  using assms
  by (auto simp: worker_pass_def FPGA_SPI_REQUEST_SIZE_def request_parses Let_def
      split: if_splits prod.splits)

text \<open>
  Committing the pending record through the SPI worker answers status 0,
  releases exactly that record, and before the answer is sent the next queued
  record, if there is one, is staged with the next transport sequence number and
  announced by DRDY; with no record left DRDY is low.
\<close>

theorem worker_commit_stages_next:
  assumes cfg: "RF_LINK_FPGA_SPIS cfg" and inv: "core_inv cfg depth s"
    and ready: "transport_initialized (cl_transport (snd s))" "backend_ready (cl_backend (snd s))"
    and io: "io_request_result io = 8" "io_request_bytes io = request_bytes 5 seq"
      "io_lock_result io = 0"
    and pend: "have_pending_record (fst s)"
      "seq = hdr_transport_seq (fpga_header (pending_record (fst s)))"
    and run: "worker_pass cfg io s = (respo, s')"
  shows "(\<exists>resp. respo = Some resp \<and> resp_status resp = 0) \<and>
    fq_list (queue_of (snd s')) = tl (fq_list (queue_of (snd s))) \<and>
    drdy_level (cl_backend (snd s')) = (tl (fq_list (queue_of (snd s))) \<noteq> []) \<and>
    have_pending_record (fst s') = (tl (fq_list (queue_of (snd s))) \<noteq> []) \<and>
    (tl (fq_list (queue_of (snd s))) \<noteq> [] \<longrightarrow>
      fpga_transport_build_record cfg (Some (hd (tl (fq_list (queue_of (snd s))))))
        (next_transport_seq (cl_transport (snd s)) + 1) False = Inr (pending_record (fst s')))"
proof -
  let ?cmd = "\<lparr>cmd_code = 5, cmd_reserved = [0, 0, 0], cmd_argument = seq\<rparr>"
  let ?s0 = "inc_requests s"
  obtain ret s1 where c: "commit_or_drop release_record seq False ?s0 = (ret, s1)"
    by (cases "commit_or_drop release_record seq False ?s0")
  have inv0: "core_inv cfg depth ?s0"
    using inv by simp
  have "ret = 0"
    using commit_pending_succeeds [OF inv0 _ _ c] pend by simp
  note st = commit_step [OF inv0 c] commit_frame [OF c] this
  have sc: "spi_command cfg (io_clock io 0) 5 seq ?s0 = (0, s1)"
    using c st(3) by (cases ?s0) (simp add: spi_command_def run_command_def
        fpga_spi_transport_execute_def command_code_def Let_def)
  obtain ret2 s2 where sv: "fpga_transport_service cfg (io_clock io) 0 s1 = (ret2, s2)"
    by (cases "fpga_transport_service cfg (io_clock io) 0 s1")
  obtain resp where ex: "worker_execute cfg io ?cmd ?s0 = (resp, s2)" "resp_status resp = 0"
  proof -
    have "run_command release_record (transport_control_command cfg (io_clock io 0)) 5 seq ?s0 =
        (0, Some zero_response, s1)"
      using c st(3) by (cases ?s0) (simp add: run_command_def
          fpga_spi_transport_execute_def command_code_def zero_response_def Let_def)
    then show thesis
      using that [of zero_response] sv io(3)
      by (simp add: worker_execute_def execute_run_command command_code_def zero_response_def)
  qed
  have inv1: "core_inv cfg depth s1" and q1: "fq_list (queue_of (snd s1)) = tl (fq_list (queue_of (snd s)))"
    and n1: "next_transport_seq (cl_transport (snd s1)) = next_transport_seq (cl_transport (snd s)) + 1"
    and p1: "\<not> have_pending_record (fst s1)"
    using st by simp_all
  have "stages cfg s1 \<longleftrightarrow> tl (fq_list (queue_of (snd s))) \<noteq> []"
    using st(2) ready q1 p1 by (simp add: stages_def)
  then show ?thesis
    using service_stages_frame [OF cfg inv1 sv] worker_pass_full [OF io(1,2) ex(1) run] ex(2) q1 n1 p1
    by auto
qed

definition sample_io :: "u8 list \<Rightarrow> worker_io" where
  "sample_io bs = \<lparr>io_request_result = 8, io_request_bytes = bs, io_response_result = 260,
     io_clock = (\<lambda>_. sample_clock), io_lock_result = 0\<rparr>"

lemma worker_pass_invariant_witness:
  "core_inv (ch0_spis_conf sum16 sum32) 2
     (snd (worker_pass (ch0_spis_conf sum16 sum32) (sample_io (request_bytes 1 0)) staged_start)) \<and>
   drdy_level (cl_backend (snd (snd (worker_pass (ch0_spis_conf sum16 sum32)
     (sample_io (request_bytes 1 0)) staged_start)))) =
   have_pending_record (fst (snd (worker_pass (ch0_spis_conf sum16 sum32)
     (sample_io (request_bytes 1 0)) staged_start)))"
  using worker_pass_invariant [OF _ staged_start_inv _ surjective_pairing,
      of "sample_io (request_bytes 1 0)"]
  by (simp add: sample_io_def ch0_spis_conf_def)

lemma worker_commit_stages_next_witness:
  "(\<exists>resp s'. worker_pass (ch0_spis_conf sum16 sum32) (sample_io (request_bytes 5 0)) staged_start =
     (Some resp, s') \<and> resp_status resp = 0 \<and> have_pending_record (fst s'))"
proof -
  obtain respo s' where run: "worker_pass (ch0_spis_conf sum16 sum32) (sample_io (request_bytes 5 0))
      staged_start = (respo, s')"
    by (cases "worker_pass (ch0_spis_conf sum16 sum32) (sample_io (request_bytes 5 0)) staged_start")
  have "tl (fq_list (queue_of (snd staged_start))) \<noteq> []"
    using staged_start_facts by (metis Nitpick.size_list_simp(2) One_nat_def Suc_1 length_0_conv length_tl
        diff_Suc_1 n_not_Suc_n)
  with worker_commit_stages_next [OF _ staged_start_inv _ _ _ _ _ _ _ run, of 0] staged_start_facts run
  show ?thesis
    by (auto simp: sample_io_def ch0_spis_conf_def)
qed

text \<open>
  A request that is short, fails or has a nonzero reserved byte is never
  executed: the protocol state is untouched apart from the backend's counters (and
  DRDY, which is refreshed); only a parser error is answered, with \<open>-EBADMSG\<close>.
\<close>

theorem worker_bad_request_refused:
  assumes "io_request_result io \<noteq> 8 \<or> \<not> request_reserved_valid (fpga_command_of_bytes (io_request_bytes io))"
    and "worker_pass cfg io s = (respo, s')"
  shows "fst s' = fst s \<and> cl_link (snd s') = cl_link (snd s) \<and>
    cl_transport (snd s') = cl_transport (snd s) \<and>
    respo \<in> {None, Some (zero_response\<lparr>resp_status := word_of_int (- EBADMSG)\<rparr>)}"
  using assms
  by (auto simp: worker_pass_def inc_defs worker_update_drdy_def FPGA_SPI_REQUEST_SIZE_def Let_def
      split: if_splits)

lemma worker_bad_request_refused_witness:
  "fst (worker_pass (ch0_spis_conf sum16 sum32) (sample_io [3, 1, 0, 0, 0, 0, 0, 0]) staged_start) \<noteq> None \<and>
   fst (snd (worker_pass (ch0_spis_conf sum16 sum32) (sample_io [3, 1, 0, 0, 0, 0, 0, 0]) staged_start)) =
     fst staged_start"
proof -
  have bad: "\<not> request_reserved_valid (fpga_command_of_bytes [3, 1, 0, 0, 0, 0, 0, 0])"
    by (simp add: fpga_command_of_bytes_def request_reserved_valid_def)
  then show ?thesis
    using worker_bad_request_refused [OF _ surjective_pairing, of "sample_io [3, 1, 0, 0, 0, 0, 0, 0]"
        "ch0_spis_conf sum16 sum32" staged_start]
    by (simp add: sample_io_def worker_pass_def FPGA_SPI_REQUEST_SIZE_def FPGA_SPI_RESPONSE_SIZE_def)
qed

text \<open>
  The GET_STATUS answer decodes, from the bytes on the wire, to the current
  state of every module: sync state, epoch and tick, queue level and high-water
  mark, pending transport sequence number and the error counters.
\<close>

theorem worker_status_report:
  assumes "io_request_result io = 8" "io_request_bytes io = request_bytes 2 arg"
    and "worker_pass cfg io s = (respo, s')"
  shows "\<exists>resp. respo = Some resp \<and> resp_status resp = 0 \<and> length (fpga_response_bytes resp) = 260 \<and>
    status_of_bytes (drop 12 (fpga_response_bytes resp)) = status_payload (inc_requests s)"
proof -
  define resp where "resp = fill_status_response (inc_requests s) zero_response"
  have ex: "worker_execute cfg io \<lparr>cmd_code = 2, cmd_reserved = [0, 0, 0], cmd_argument = arg\<rparr>
      (inc_requests s) = (resp, inc_requests s)"
    by (cases "inc_requests s") (simp add: worker_execute_def fpga_spi_transport_execute_def
        command_code_def resp_def zero_response_def)
  have r: "respo = Some resp"
    using worker_pass_full [OF assms(1,2) ex assms(3)] by simp
  have "wf_response resp"
    by (simp add: resp_def fill_status_response_def FPGA_RECORD_SIZE_def)
  moreover have "drop 12 (fpga_response_bytes resp) = resp_payload resp"
    using calculation by (simp add: fpga_response_bytes_def wf_response_def)
  moreover have "status_of_bytes (resp_payload resp) = status_payload (inc_requests s)"
    by (simp add: resp_def fill_status_response_def put_payload_def status_of_bytes_bytes)
  moreover have "resp_status resp = 0"
    by (simp add: resp_def fill_status_response_def put_payload_def zero_response_def)
  ultimately show ?thesis
    using r by (simp add: FPGA_SPI_RESPONSE_SIZE_def)
qed

lemma worker_status_report_witness:
  "\<exists>resp. fst (worker_pass (ch0_spis_conf sum16 sum32) (sample_io (request_bytes 2 0)) staged_start) =
      Some resp \<and> length (fpga_response_bytes resp) = 260"
  using worker_status_report [OF _ _ surjective_pairing, of "sample_io (request_bytes 2 0)" 0
      "ch0_spis_conf sum16 sum32" staged_start]
  by (auto simp: sample_io_def)

end
