(* ===== verification/Debug_Uart.thy ===== *)
theory Debug_Uart
  imports Prelude
begin

text \<open>
  \<open>debug_uart.c\<close> (the receiver's and the transmitter's are the same file): polled
  text output. The state is the \<open>ready\<close> flag and the characters sent so far; the
  driver's \<open>uart_poll_out\<close> appends one.
\<close>

record debug_uart =
  du_ready :: bool
  du_out :: string

definition debug_uart_init :: "bool \<Rightarrow> bool \<Rightarrow> debug_uart \<Rightarrow> bool \<times> debug_uart" where
  [op_defs]: "debug_uart_init dev_exists dev_ready u =
     (let r = dev_exists \<and> dev_ready in (r, u\<lparr>du_ready := r\<rparr>))"

definition debug_uart_ready :: "debug_uart \<Rightarrow> bool" where
  [op_defs]: "debug_uart_ready u = du_ready u"

definition uart_poll_out :: "char \<Rightarrow> debug_uart \<Rightarrow> debug_uart" where
  "uart_poll_out c u = u\<lparr>du_out := du_out u @ [c]\<rparr>"

definition debug_uart_putc :: "char \<Rightarrow> debug_uart \<Rightarrow> debug_uart" where
  [op_defs]: "debug_uart_putc c u = (if \<not> du_ready u then u else uart_poll_out c u)"

text \<open>The loop over a NUL-terminated string; a list without NUL ends at its end.\<close>

fun puts_loop :: "string \<Rightarrow> debug_uart \<Rightarrow> debug_uart" where
  "puts_loop [] u = u"
| "puts_loop (c # cs) u = (if c = CHR 0x00 then u else puts_loop cs (uart_poll_out c u))"

definition debug_uart_puts :: "string option \<Rightarrow> debug_uart \<Rightarrow> debug_uart" where
  [op_defs]: "debug_uart_puts s u =
     (case s of None \<Rightarrow> u | Some cs \<Rightarrow> if \<not> du_ready u then u else puts_loop cs u)"

definition digit :: "nat \<Rightarrow> char" where
  "digit n = char_of (48 + n)"

lemma unat_div_10: "unat ((v :: u32) div 10) = unat v div 10"
  by (simp add: unat_div)

text \<open>
  The do-while loop of \<open>debug_uart_u32\<close>, from position \<open>pos\<close> of the buffer down. It
  ends because the value is divided by ten.
\<close>

function u32_digits :: "u32 \<Rightarrow> nat \<Rightarrow> string \<Rightarrow> nat \<times> string" where
  "u32_digits value pos buf =
     (let pos' = pos - 1;
          buf' = buf[pos' := digit (unat (value mod 10))];
          value' = value div 10
      in if value' \<noteq> 0 then u32_digits value' pos' buf' else (pos', buf'))"
  by pat_completeness auto

termination
  by (relation "measure (\<lambda>(v, _, _). unat v)")
    (simp_all only: wf_measure in_measure case_prod_conv unat_div_10,
     metis div_less_dividend gr0I one_less_numeral_iff semiring_norm(76) unat_0 unat_div_10
       unat_eq_0 div_0)

declare u32_digits.simps [simp del]

definition debug_uart_u32 :: "u32 \<Rightarrow> debug_uart \<Rightarrow> debug_uart" where
  [op_defs]: "debug_uart_u32 value u =
     (let buf = (replicate 11 (CHR 0x00))[10 := CHR 0x00];
          (pos, buf') = u32_digits value 10 buf
      in debug_uart_puts (Some (drop pos buf')) u)"

definition debug_uart_i32 :: "i32 \<Rightarrow> debug_uart \<Rightarrow> debug_uart" where
  [op_defs]: "debug_uart_i32 value u =
     (if sint value < 0 then debug_uart_u32 (- value) (debug_uart_putc (CHR ''-'') u)
      else debug_uart_u32 value u)"

definition debug_uart_crlf :: "debug_uart \<Rightarrow> debug_uart" where
  [op_defs]: "debug_uart_crlf u = debug_uart_puts (Some [CHR 0x0D, CHR 0x0A]) u"

section \<open>Status lines\<close>

text \<open>A status line is a sequence of calls of this module.\<close>

datatype print_item = Puts string | U32 u32 | I32 i32 | Crlf

fun run_item :: "print_item \<Rightarrow> debug_uart \<Rightarrow> debug_uart" where
  "run_item (Puts s) u = debug_uart_puts (Some s) u"
| "run_item (U32 v) u = debug_uart_u32 v u"
| "run_item (I32 v) u = debug_uart_i32 v u"
| "run_item Crlf u = debug_uart_crlf u"

definition print_items :: "print_item list \<Rightarrow> debug_uart \<Rightarrow> debug_uart" where
  "print_items items u = fold run_item items u"

section \<open>Decimal notation\<close>

fun decimal :: "nat \<Rightarrow> string" where
  "decimal n = (if n < 10 then [digit n] else decimal (n div 10) @ [digit (n mod 10)])"

declare decimal.simps [simp del]

lemma digit_not_nul [simp]: "n < 10 \<Longrightarrow> digit n \<noteq> CHR 0x00"
  by (simp add: digit_def char_of_eq_iff take_bit_nat_eq_self)

lemma digit_mod_not_nul [simp]: "digit (n mod 10) \<noteq> CHR 0x00"
  by simp

lemma decimal_no_nul: "CHR 0x00 \<notin> set (decimal n)"
proof (induction n rule: decimal.induct)
  case (1 n)
  then show ?case
    by (subst decimal.simps) (auto dest: sym)
qed

lemma length_decimal: "n < 10 ^ Suc k \<Longrightarrow> length (decimal n) \<le> Suc k"
proof (induction k arbitrary: n)
  case 0
  then show ?case by (simp add: decimal.simps)
next
  case (Suc k)
  then have "n div 10 < 10 ^ Suc k"
    by (simp add: div_less_iff_less_mult)
  from Suc.IH [OF this] show ?case
    by (subst decimal.simps) simp
qed

lemma puts_loop_append:
  "CHR 0x00 \<notin> set xs \<Longrightarrow> puts_loop (xs @ CHR 0x00 # ys) u = u\<lparr>du_out := du_out u @ xs\<rparr>"
  by (induction xs arbitrary: u) (auto simp: uart_poll_out_def)

text \<open>
  The loop fills the buffer with the decimal digits, ending just before position
  \<open>pos\<close>, and never leaves it: each of its writes is below the position it had.
\<close>

lemma u32_digits_decimal:
  assumes "length (decimal (unat v)) \<le> pos" "pos \<le> length buf"
  shows "u32_digits v pos buf =
    (pos - length (decimal (unat v)),
     take (pos - length (decimal (unat v))) buf @ decimal (unat v) @ drop pos buf)"
  using assms
proof (induction v pos buf rule: u32_digits.induct)
  case (1 v pos buf)
  have lp: "decimal (unat v) \<noteq> []"
    by (subst decimal.simps) simp
  then obtain p where pos: "pos = Suc p"
    using 1(2) by (cases pos) auto
  have pl: "p < length buf"
    using 1(3) pos by simp
  have md: "unat (v mod 10) = unat v mod 10"
    by (simp add: unat_mod)
  define c where "c = digit (unat v mod 10)"
  have upd: "buf[p := c] = take p buf @ c # drop (Suc p) buf"
    using pl by (rule upd_conv_take_nth_drop)
  have unfold: "u32_digits v (Suc p) buf =
      (if v div 10 \<noteq> 0 then u32_digits (v div 10) p (buf[p := c]) else (p, buf[p := c]))"
    by (subst u32_digits.simps) (simp only: Let_def md c_def diff_Suc_1)
  show ?case
  proof (cases "v div 10 = 0")
    case True
    then have "unat v < 10"
      using unat_div_10 [of v] by simp
    then have d: "decimal (unat v) = [c]"
      by (simp add: decimal.simps c_def)
    show ?thesis
      using True unfolding unfold d pos by (simp add: upd)
  next
    case False
    then have "\<not> unat v < 10"
      using unat_div_10 [of v] by (auto simp: unat_eq_0 [symmetric])
    then have d: "decimal (unat v) = decimal (unat (v div 10)) @ [c]"
      by (subst decimal.simps) (simp add: unat_div_10 c_def)
    define ds where "ds = decimal (unat (v div 10))"
    have "length ds \<le> p"
      using 1(2) pos d by (simp add: ds_def)
    then have "u32_digits (v div 10) p (buf[p := c]) =
        (p - length ds, take (p - length ds) (buf[p := c]) @ ds @ drop p (buf[p := c]))"
      using 1(1) [OF refl refl refl False] pl by (simp add: ds_def pos md c_def)
    then show ?thesis
      using False pl unfolding unfold d pos ds_def [symmetric] by (simp add: upd)
  qed
qed

section \<open>Properties\<close>

text \<open>
  \<open>debug_uart_u32\<close> prints exactly the decimal digits of its argument and
  \<open>debug_uart_i32\<close> those of the signed value with its sign, for every 32-bit value,
  within the 11-character buffer; nothing is printed when the UART is not ready.
\<close>

theorem debug_uart_decimal:
  "debug_uart_u32 v u = (if du_ready u then u\<lparr>du_out := du_out u @ decimal (unat v)\<rparr> else u) \<and>
   debug_uart_i32 v u = (if du_ready u then u\<lparr>du_out := du_out u @
     (if sint v < 0 then ''-'' @ decimal (nat (- sint v)) else decimal (nat (sint v)))\<rparr> else u) \<and>
   length (decimal (unat v)) \<le> 10"
proof -
  have len: "length (decimal (unat w)) \<le> 10" for w :: u32
  proof -
    have "unat w < 2 ^ 32"
      using unsigned_less [of w] by simp
    then have "unat w < 10 ^ Suc 9"
      by simp
    from length_decimal [OF this] show ?thesis by simp
  qed
  have u32: "debug_uart_u32 w u = (if du_ready u then u\<lparr>du_out := du_out u @ decimal (unat w)\<rparr> else u)"
    for w u
    using len [of w] decimal_no_nul [of "unat w"]
    by (simp add: debug_uart_u32_def debug_uart_puts_def u32_digits_decimal puts_loop_append
        Let_def numeral_eq_Suc)
  have uv: "unat v = nat (uint v)" "uint v < 2 ^ 32"
    using uint_lt2p [of v] by simp_all
  have neg: "unat (- v) = nat (- sint v)" if "sint v < 0"
  proof -
    have big: "2 ^ 31 \<le> uint v" "sint v = uint v - 2 ^ 32"
      using that by (simp_all add: sint_u32 split: if_splits)
    have "0 < unat v"
      unfolding uv(1) by (subst zero_less_nat_eq) (rule less_le_trans [OF _ big(1)], simp)
    from unat_neg_of_nat [OF this unsigned_less] have "unat (- v) = 2 ^ 32 - unat v"
      by simp
    also have "\<dots> = nat (2 ^ 32 - uint v)"
      using uv by (simp add: nat_diff_distrib)
    finally show ?thesis
      using big(2) by simp
  qed
  have "unat v = nat (sint v)" if "\<not> sint v < 0"
    using that uv by (simp add: sint_u32 split: if_splits)
  then show ?thesis
    using neg len [of v]
    by (auto simp: u32 debug_uart_i32_def debug_uart_putc_def uart_poll_out_def)
qed

end
