(* ===== verification/Rx_Main.thy ===== *)
theory Rx_Main
  imports Rx_Reorder Rx_Radio Rx_Stream Spis_Worker Debug_Uart
begin

text \<open>
  \<open>rf_link_rx/src/main.c\<close>: the receiver's main thread. The state joins the modules;
  what the hardware and the kernel answer during one pass of the main loop is the
  record of inputs of that pass.
\<close>

record 'q rx_app =
  app_core :: rx_core
  app_reorder :: rx_reorder_state
  app_radio_stats :: radio_link_stats
  app_radio_queue :: 'q
  app_uart :: debug_uart
  app_stream :: "rx_sample_stream_record list rx_stream"
  app_stream_mode :: bool
  app_last_ms :: int
  app_last_bytes :: u32

definition set_core :: "rx_core \<Rightarrow> 'q rx_app \<Rightarrow> 'q rx_app" where
  "set_core c a = a\<lparr>app_core := c\<rparr>"

definition map_sync :: "(sync_manager \<Rightarrow> sync_manager) \<Rightarrow> rx_core \<Rightarrow> rx_core" where
  "map_sync f c = (fst c, (snd c)\<lparr>cl_link := (cl_link (snd c))\<lparr>lk_sync := f (lk_sync (cl_link (snd c)))\<rparr>\<rparr>)"

definition read_clock :: "rx_config \<Rightarrow> clock_input \<Rightarrow> rx_core \<Rightarrow> u64 \<times> rx_core" where
  "read_clock cfg ci c =
     (let (now, tb) = timebase_now_ticks cfg (ci_raw ci) (ci_cycles ci) (lk_timebase (cl_link (snd c)))
      in (now, fst c, (snd c)\<lparr>cl_link := (cl_link (snd c))\<lparr>lk_timebase := tb\<rparr>\<rparr>))"

abbreviation app_sync :: "rx_core \<Rightarrow> sync_manager" where
  "app_sync c \<equiv> lk_sync (cl_link (snd c))"

section \<open>The record pipeline\<close>

definition future_pipeline_init :: "rx_config \<Rightarrow> backend_drivers \<Rightarrow> rx_core \<Rightarrow> int \<times> rx_core" where
  "future_pipeline_init cfg d c =
     (let l = cl_link (snd c);
          (ret, sm) = sync_manager_init;
          c1 = (fst c, (snd c)\<lparr>cl_link := l\<lparr>lk_queue := frame_queue_init (lk_queue l),
                  lk_control := link_control_init cfg, lk_sync := sm\<rparr>\<rparr>)
      in if ret \<noteq> 0 then (ret, c1)
         else if RF_LINK_FPGA_TRANSPORT cfg then fpga_transport_init cfg d c1 else (0, c1))"

text \<open>\<open>clk\<close> are the clock readings of the service call.\<close>

definition future_process_record ::
  "rx_config \<Rightarrow> (nat \<Rightarrow> clock_input) \<Rightarrow> rx_reorder_state \<Rightarrow> rx_frame_record \<Rightarrow> rx_core \<Rightarrow> rx_core" where
  "future_process_record cfg clk ro record c =
     (let c1 = (if rec_status_flags record AND RX_FRAME_STATUS_GAP_BEFORE \<noteq> 0
                then map_sync (sync_manager_on_sequence_gap cfg
                       (miss_frame_count (rs_last_missing (rx_reorder_stats_get ro)))) c
                else c);
          (rp, sm) = sync_manager_on_frame (Some record) (app_sync c1);
          record' = (case rp of Some r \<Rightarrow> r | None \<Rightarrow> record);
          c2 = map_sync (\<lambda>_. sm) c1
      in if \<not> link_control_streaming (lk_control (cl_link (snd c2))) then c2
         else
           let (ret, c3) = push_record record' c2
           in if ret \<noteq> 0 then map_sync sync_manager_on_queue_overflow c3
              else if RF_LINK_FPGA_TRANSPORT cfg then snd (fpga_transport_service cfg clk 0 c3)
              else (fst c3, map_queue (\<lambda>q. snd (frame_queue_commit (rec_extended_frame_seq record') q))
                              (snd c3)))"

text \<open>\<open>rx_reorder_process_frame\<close>, the entry point without a timestamp of the caller's.\<close>

definition rx_reorder_process_frame ::
  "rx_config \<Rightarrow> (rx_sample_stream_record, 'q) msgq_ops \<Rightarrow> clock_input \<Rightarrow> u32 \<Rightarrow> rf_frame option \<Rightarrow> u8 \<Rightarrow>
   rx_reorder_state \<times> timebase_state \<times> 'q rx_stream \<Rightarrow>
   int \<times> rx_reorder_state \<times> timebase_state \<times> 'q rx_stream" where
  "rx_reorder_process_frame cfg smq ci uptime fp len s =
     (let (ro, tb, st) = s;
          (now, tb') = timebase_now_ticks cfg (ci_raw ci) (ci_cycles ci) tb;
          (r, ro') = rx_reorder_process_packet cfg fp (ucast len) now False ro
      in case r of
           Inl e \<Rightarrow> (e, ro', tb', st)
         | Inr _ \<Rightarrow> (0, ro', tb', rx_sample_stream_submit_frame smq uptime fp st))"

section \<open>Status output\<close>

definition rx_print_boot_line :: "rx_config \<Rightarrow> string \<Rightarrow> string \<Rightarrow> debug_uart \<Rightarrow> debug_uart" where
  "rx_print_boot_line cfg phy version =
     print_items ([Puts (CHR 0x0D # CHR 0x0A # ''rf_link_rx started''), Crlf,
       Puts ''mode=ESB_PRX,phy='', Puts phy, Puts '',ack='',
       Puts (if RF_LINK_NOACK_STREAM \<noteq> 0 then ''noack'' else ''ack''),
       Puts '',channel='', U32 RF_LINK_CHANNEL, Puts '',pipe='', U32 RF_LINK_PIPE,
       Puts '',prefix=0x54,fw='', Puts version,
       Puts '',samples_per_frame='', U32 (of_nat RF_LINK_FRAME_SAMPLE_COUNT)] @
       (if RF_LINK_FUTURE_MODE cfg
        then [Puts '',v2_preview=1,node_id='', U32 (ucast (RF_LINK_NODE_ID cfg))] else []) @
       [Crlf])"

text \<open>\<open>now\<close> is \<open>k_uptime_get()\<close>, a signed 64-bit number of milliseconds.\<close>

definition stat_bps :: "u32 \<Rightarrow> u32 \<Rightarrow> int \<Rightarrow> u32" where
  "stat_bps bytes last_bytes delta_ms =
     (if delta_ms > 0
      then ucast (((ucast (bytes - last_bytes) :: u64) * 8000) div (word_of_int delta_ms)) else 0)"

definition rx_print_stats ::
  "u32 \<Rightarrow> int \<Rightarrow> int \<Rightarrow> radio_link_stats \<Rightarrow> rx_reorder_stats \<Rightarrow> debug_uart \<Rightarrow> debug_uart" where
  "rx_print_stats last_bytes last_ms now rs st =
     print_items [Puts ''RX stat frames='', U32 (rs_frames st), Puts '' samples='', U32 (rs_samples st),
       Puts '' bps='', U32 (stat_bps (rs_bytes st) last_bytes (now - last_ms)),
       Puts '' lost='', U32 (rs_lost_frames st), Puts '' dup='', U32 (rs_duplicates st),
       Puts '' late='', U32 (rs_late_frames st),
       Puts '' bad='', U32 (rs_bad_magic st + rs_bad_size st + rs_bad_sample_count st),
       Puts '' rf_evt='', U32 (rls_rx_events rs), Puts '' rf_frames='', U32 (rls_rx_frames rs),
       Puts '' rf_read_err='', U32 (rls_rx_read_errors rs),
       Puts '' rf_q_ovf='', U32 (rls_rx_queue_overflow rs),
       Puts '' rf_q_hwm='', U32 (rls_rx_queue_high_water rs),
       Puts '' seq='', U32 (ucast (rs_last_seq st)),
       Puts '' first='', I32 (scast (rs_last_first_sample st)),
       Puts '' last='', I32 (scast (rs_last_last_sample st)), Crlf]"

definition print_future_stats ::
  "radio_link_stats \<Rightarrow> rx_reorder_stats \<Rightarrow> frame_queue_stats \<Rightarrow> nat \<Rightarrow> sync_status \<Rightarrow>
   transport_stats \<Rightarrow> link_control_status \<Rightarrow> debug_uart \<Rightarrow> debug_uart" where
  "print_future_stats rs st qs level sy ts cs =
     print_items [Puts ''RADIO events='', U32 (rls_rx_events rs), Puts '' frames='', U32 (rls_rx_frames rs),
       Puts '' read_errors='', U32 (rls_rx_read_errors rs),
       Puts '' queue_overflow='', U32 (rls_rx_queue_overflow rs),
       Puts '' queue_high_water='', U32 (rls_rx_queue_high_water rs), Crlf,
       Puts ''REORDER extended_frame_seq='', U32 (rs_extended_frame_seq st),
       Puts '' rf_lost_frames='', U32 (rs_lost_frames st),
       Puts '' rf_lost_samples='', U32 (rs_lost_samples st),
       Puts '' rf_duplicates='', U32 (rs_duplicates st),
       Puts '' rf_late_frames='', U32 (rs_late_frames st),
       Puts '' index_estimated='', U32 (rs_index_estimated st),
       Puts '' bad_magic='', U32 (rs_bad_magic st), Puts '' bad_size='', U32 (rs_bad_size st),
       Puts '' bad_sample_count='', U32 (rs_bad_sample_count st), Crlf,
       Puts ''SYNC state='', U32 (ucast (sync_state_code (state sy))),
       Puts '' sync_capture_count='', U32 (sync_capture_count sy),
       Puts '' sync_timeout='', U32 (sync_timeout sy), Puts '' sync_epoch='', U32 (sync_epoch sy),
       Puts '' sync_locked='', U32 (if sync_locked sy then 1 else 0),
       Puts '' resync_count='', U32 (resync_count sy), Crlf,
       Puts ''QUEUE push_total='', U32 (push_total qs), Puts '' pop_total='', U32 (pop_total qs),
       Puts '' overflow='', U32 (overflow qs), Puts '' high_water='', U32 (high_water qs),
       Puts '' level='', U32 (of_nat level), Crlf,
       Puts ''SPI_TRANSPORT records='', U32 (tst_records ts),
       Puts '' crc_errors='', U32 (tst_crc_errors ts), Puts '' invalid_cmd='', U32 (tst_invalid_cmd ts),
       Puts '' duplicate_commit='', U32 (tst_duplicate_commit ts),
       Puts '' submit_errors='', U32 (tst_submit_errors ts), Puts '' stall_ms='', U32 (tst_stall_ms ts),
       Puts '' req_xfer='', U32 (tst_request_transactions ts),
       Puts '' rsp_xfer='', U32 (tst_response_transactions ts),
       Puts '' spi_errors='', U32 (tst_spi_errors ts), Puts '' parser_errors='', U32 (tst_parser_errors ts),
       Puts '' short_xfer='', U32 (tst_short_transfers ts), Crlf,
       Puts ''CONTROL armed='', U32 (arm_commands cs), Puts '' started='', U32 (start_commands cs),
       Puts '' stopped='', U32 (stop_commands cs), Puts '' reset='', U32 (reset_commands cs),
       Puts '' invalid='', U32 (invalid_commands cs), Crlf]"

section \<open>The main thread\<close>

record main_start =
  ms_uart_exists :: bool
  ms_uart_ready :: bool
  ms_phy :: string
  ms_version :: string
  ms_timebase :: timebase_drivers
  ms_stream_mode :: bool
  ms_stream_baud :: u32
  ms_stream_exists :: bool
  ms_stream_ready :: bool
  ms_stream_callback :: int
  ms_backend :: backend_drivers
  ms_radio_ret :: int
  ms_uptime :: int

text \<open>
  \<open>main\<close> up to its loop: \<open>Inl\<close> the value it returns when an initialisation fails,
  \<open>Inr ()\<close> when it enters the loop. \<open>ms_stream_mode\<close> is
  \<open>CONFIG_RF_LINK_RX_SAMPLE_STREAM\<close>.
\<close>

definition start_stream :: "main_start \<Rightarrow> 'q rx_app \<Rightarrow> 'q rx_app" where
  "start_stream m a =
     (if \<not> ms_stream_mode m then a\<lparr>app_stream_mode := False\<rparr>
      else
        let u1 = (if debug_uart_ready (app_uart a)
                  then print_items [Puts ''rx_sample_stream enabled, switch host to baud='',
                         U32 (ms_stream_baud m), Crlf] (app_uart a)
                  else app_uart a);
            (ret, st) = rx_sample_stream_init (ms_stream_exists m) (ms_stream_ready m)
                          (ms_stream_callback m) (app_stream a);
            a1 = a\<lparr>app_uart := u1, app_stream := st\<rparr>
        in if ret \<noteq> 0
           then a1\<lparr>app_stream_mode := False,
                   app_uart := (if debug_uart_ready u1
                     then print_items [Puts ''rx_sample_stream init failed err='', I32 (word_of_int ret), Crlf,
                            Puts ''fall back to RX stat mode'', Crlf] u1 else u1)\<rparr>
           else a1\<lparr>app_stream_mode := True\<rparr>)"

definition start_pipeline :: "rx_config \<Rightarrow> main_start \<Rightarrow> 'q rx_app \<Rightarrow> int \<times> 'q rx_app" where
  "start_pipeline cfg m a =
     (if \<not> RF_LINK_FUTURE_MODE cfg then (0, a)
      else
        let (ret, c) = future_pipeline_init cfg (ms_backend m) (app_core a);
            a1 = set_core c a
        in if ret \<noteq> 0
           then (ret, a1\<lparr>app_uart := print_items ([Puts ''future pipeline init failed err='',
                     I32 (word_of_int ret), Crlf] @
                   (if RF_LINK_FPGA_SPIS cfg
                    then [Puts ''CH0 SPIS backend init failed; check reviewed overlay and wiring'', Crlf]
                    else [])) (app_uart a1)\<rparr>)
           else (0, a1))"

definition rx_main_start :: "rx_config \<Rightarrow> main_start \<Rightarrow> 'q rx_app \<Rightarrow> (int + unit) \<times> 'q rx_app" where
  "rx_main_start cfg m a =
     (let (_, u0) = debug_uart_init (ms_uart_exists m) (ms_uart_ready m) (app_uart a);
          u1 = rx_print_boot_line cfg (ms_phy m) (ms_version m) u0;
          c = app_core a; l = cl_link (snd c);
          ((ret, _), tb) = timebase_init cfg (ms_timebase m) (lk_timebase l);
          a1 = a\<lparr>app_uart := u1, app_core := (fst c, (snd c)\<lparr>cl_link := l\<lparr>lk_timebase := tb\<rparr>\<rparr>)\<rparr>
      in if ret \<noteq> 0
         then (Inl ret, a1\<lparr>app_uart := print_items [Puts ''timebase init failed err='',
                 I32 (word_of_int ret), Crlf] u1\<rparr>)
         else
           let a2 = (start_stream m a1)\<lparr>app_reorder := rx_reorder_init\<rparr>;
               (ret2, a3) = start_pipeline cfg m a2
           in if ret2 \<noteq> 0 then (Inl ret2, a3)
              else if ms_radio_ret m \<noteq> 0
              then (Inl (ms_radio_ret m),
                    if app_stream_mode a3 then a3
                    else a3\<lparr>app_uart := print_items [Puts ''radio init failed err='',
                           I32 (word_of_int (ms_radio_ret m)), Crlf] (app_uart a3)\<rparr>)
              else (Inr (), a3\<lparr>app_uart := (if app_stream_mode a3 then app_uart a3
                       else print_items [Puts ''radio ready, waiting packets'', Crlf] (app_uart a3)),
                     app_last_ms := ms_uptime m, app_last_bytes := 0\<rparr>))"

record main_input =
  mi_clock :: "nat \<Rightarrow> clock_input"
  mi_poll_clock :: clock_input
  mi_service_clock :: "nat \<Rightarrow> clock_input"
  mi_stats_clock :: clock_input
  mi_stream_uptime :: u32
  mi_uptime :: int
  mi_uptime_print :: int
  mi_uptime_after :: int

text \<open>
  What the loop does with a packet it received: the reorder stage, then the record
  pipeline or the sample stream, by the configuration.
\<close>

definition process_packet ::
  "rx_config \<Rightarrow> (rx_sample_stream_record, rx_sample_stream_record list) msgq_ops \<Rightarrow> main_input \<Rightarrow>
   radio_link_rx_packet \<Rightarrow> 'q rx_app \<Rightarrow> 'q rx_app" where
  "process_packet cfg smq i pkt a =
     (let (r, ro) = rx_reorder_process_packet cfg (Some (pkt_frame pkt)) (pkt_length pkt)
                      (pkt_rx_tick pkt) False (app_reorder a);
          a1 = a\<lparr>app_reorder := ro\<rparr>
      in case r of
           Inl _ \<Rightarrow> a1
         | Inr record \<Rightarrow>
             if RF_LINK_FUTURE_MODE cfg
             then set_core (future_process_record cfg (mi_clock i) ro record (app_core a1)) a1
             else a1\<lparr>app_stream := rx_sample_stream_submit_frame smq (mi_stream_uptime i)
                                     (Some (rec_frame record)) (app_stream a1)\<rparr>)"

definition main_poll :: "rx_config \<Rightarrow> main_input \<Rightarrow> 'q rx_app \<Rightarrow> 'q rx_app" where
  "main_poll cfg i a =
     (if \<not> RF_LINK_FUTURE_MODE cfg then a
      else
        let (now, c1) = read_clock cfg (mi_poll_clock i) (app_core a);
            c2 = map_sync (sync_manager_poll cfg now) c1
        in set_core (if RF_LINK_FPGA_TRANSPORT cfg
                     then snd (fpga_transport_service cfg (mi_service_clock i) 0 c2) else c2) a)"

definition main_status :: "rx_config \<Rightarrow> main_input \<Rightarrow> 'q rx_app \<Rightarrow> 'q rx_app" where
  "main_status cfg i a =
     (if app_stream_mode a \<or> mi_uptime i - app_last_ms a < uint RF_LINK_STATUS_PERIOD_MS then a
      else if RF_LINK_FUTURE_MODE cfg then
        let w = snd (app_core a);
            (ts, c) = (if RF_LINK_FPGA_TRANSPORT cfg
                       then fpga_transport_get_stats cfg (mi_stats_clock i) (app_core a)
                       else (zero_transport_stats, app_core a))
        in a\<lparr>app_core := c,
             app_uart := print_future_stats (app_radio_stats a) (rx_reorder_stats_get (app_reorder a))
               (frame_queue_stats_get (queue_of w)) (frame_queue_level (queue_of w))
               (sync_manager_get_status (lk_sync (cl_link w))) ts
               (link_control_get_status (lk_control (cl_link w))) (app_uart a),
             app_last_ms := mi_uptime_after i\<rparr>
      else
        let st = rx_reorder_stats_get (app_reorder a)
        in a\<lparr>app_uart := rx_print_stats (app_last_bytes a) (app_last_ms a) (mi_uptime_print i)
               (app_radio_stats a) st (app_uart a),
             app_last_bytes := rs_bytes st, app_last_ms := mi_uptime_after i\<rparr>)"

definition main_loop_pass ::
  "rx_config \<Rightarrow> (radio_link_rx_packet, 'q) msgq_ops \<Rightarrow>
   (rx_sample_stream_record, rx_sample_stream_record list) msgq_ops \<Rightarrow> main_input \<Rightarrow> 'q rx_app \<Rightarrow> 'q rx_app" where
  "main_loop_pass cfg mq smq i a =
     (let (r, rr) = radio_link_receive mq False \<lparr>rr_stats = app_radio_stats a,
                rr_queue = app_radio_queue a, rr_timebase = lk_timebase (cl_link (snd (app_core a)))\<rparr>;
          a1 = a\<lparr>app_radio_queue := rr_queue rr\<rparr>;
          a2 = (case r of Inl _ \<Rightarrow> a1 | Inr pkt \<Rightarrow> process_packet cfg smq i pkt a1)
      in main_status cfg i (main_poll cfg i a2))"

section \<open>The delivery invariant\<close>

lemma core_inv_map_sync [simp]: "core_inv cfg depth (map_sync f c) = core_inv cfg depth c"
  by (rule core_inv_cong) (simp_all add: map_sync_def)

lemma map_sync_simps [simp]:
  "fst (map_sync f c) = fst c" "queue_of (snd (map_sync f c)) = queue_of (snd c)"
  "app_sync (map_sync f c) = f (app_sync c)"
  "lk_control (cl_link (snd (map_sync f c))) = lk_control (cl_link (snd c))"
  "cl_transport (snd (map_sync f c)) = cl_transport (snd c)"
  by (simp_all add: map_sync_def)

lemma service_inv:
  "RF_LINK_FPGA_SPIS cfg \<Longrightarrow> core_inv cfg depth c \<Longrightarrow>
    core_inv cfg depth (snd (fpga_transport_service cfg clk 0 c)) \<and>
    queue_of (snd (snd (fpga_transport_service cfg clk 0 c))) = queue_of (snd c)"
  using service_stages_frame [OF _ _ surjective_pairing] by blast

lemma service_pass_sync:
  assumes "RF_LINK_FPGA_SPIS cfg" "service_pass cfg ci n s = (r, s')"
  shows "\<exists>ret. r = Inl ret" and "app_sync s' = app_sync s"
proof -
  obtain sp w where s: "s = (sp, w)" by (cases s)
  have "(\<exists>ret. r = Inl ret) \<and> app_sync s' = app_sync s"
  proof (cases "frame_queue_peek False (queue_of w)")
    case (Inl e)
    then show ?thesis
      using assms(2) by (auto simp: s service_pass_def Let_def)
  next
    case (Inr source)
    define w1 where
      "w1 = map_transport (\<lambda>t. t\<lparr>pending_extended_frame_seq := rec_extended_frame_seq source\<rparr>) w"
    obtain fr where fr: "fpga_transport_build_record cfg (Some source)
        (next_transport_seq (cl_transport w1)) False = Inr fr"
      using build_record_total by blast
    obtain e sp2 w2 where sub: "backend_submit cfg fr (sp, w1) = (e, sp2, w2)"
      using prod_cases3 by blast
    have l: "cl_link w2 = cl_link w1" "cl_link w1 = cl_link w"
      by (metis backend_submit_link sub snd_conv) (simp add: w1_def)
    have k: "lk_sync (cl_link (count_submitted cfg ci v)) = lk_sync (cl_link v)" for v
      by (simp add: count_submitted_def Let_def split: prod.split)
    show ?thesis
      using assms Inr fr sub l k [of w2] unfolding s service_pass_def Let_def w1_def
      by (auto simp: map_transport_def split: if_splits)
  qed
  then show "\<exists>ret. r = Inl ret" "app_sync s' = app_sync s" by auto
qed

lemma service_sync:
  "RF_LINK_FPGA_SPIS cfg \<Longrightarrow>
    app_sync (snd (fpga_transport_service cfg clk 0 c)) = app_sync c"
  by (auto simp: fpga_transport_service_def service_loop.simps [of cfg clk 0]
      dest: service_pass_sync split: sum.split prod.split)

text \<open>What the sync manager makes of a record before it is queued.\<close>

definition synced_record ::
  "rx_config \<Rightarrow> rx_reorder_state \<Rightarrow> rx_frame_record \<Rightarrow> sync_manager \<Rightarrow> rx_frame_record \<times> sync_manager" where
  "synced_record cfg ro record sm =
     (let sm1 = (if rec_status_flags record AND RX_FRAME_STATUS_GAP_BEFORE \<noteq> 0
                 then sync_manager_on_sequence_gap cfg (miss_frame_count (ro_last_missing ro)) sm else sm);
          (rp, sm2) = sync_manager_on_frame (Some record) sm1
      in (case rp of Some r \<Rightarrow> r | None \<Rightarrow> record, sm2))"

lemma future_process_cases:
  assumes spis: "RF_LINK_FPGA_SPIS cfg" "RF_LINK_FPGA_TRANSPORT cfg"
    and inv: "core_inv cfg depth c"
    and sr: "synced_record cfg ro record (app_sync c) = (record', sm)"
  shows "core_inv cfg depth (future_process_record cfg clk ro record c) \<and>
    fq_list (queue_of (snd (future_process_record cfg clk ro record c))) =
      fq_list (queue_of (snd c)) @
      (if streaming (lk_control (cl_link (snd c))) \<and> length (fq_list (queue_of (snd c))) < depth
       then [record'] else []) \<and>
    app_sync (future_process_record cfg clk ro record c) =
      (if streaming (lk_control (cl_link (snd c))) \<and> \<not> length (fq_list (queue_of (snd c))) < depth
       then sync_manager_on_queue_overflow sm else sm)"
proof -
  define c1 where "c1 = map_sync (\<lambda>_. sm)
    (if rec_status_flags record AND RX_FRAME_STATUS_GAP_BEFORE \<noteq> 0
     then map_sync (sync_manager_on_sequence_gap cfg (miss_frame_count (ro_last_missing ro))) c else c)"
  have c1: "core_inv cfg depth c1" "queue_of (snd c1) = queue_of (snd c)"
    "lk_control (cl_link (snd c1)) = lk_control (cl_link (snd c))"
    using inv by (simp_all add: c1_def)
  obtain ret c2 where p: "push_record record' c1 = (ret, c2)"
    by (cases "push_record record' c1")
  have eq: "future_process_record cfg clk ro record c =
      (if \<not> streaming (lk_control (cl_link (snd c))) then c1
       else if ret \<noteq> 0 then map_sync sync_manager_on_queue_overflow c2
       else snd (fpga_transport_service cfg clk 0 c2))"
    using sr p spis(2) c1(3)
    by (auto simp: future_process_record_def synced_record_def rx_reorder_stats_get_def
        link_control_streaming_def c1_def Let_def split: prod.splits if_splits)
  have fq: "fq_inv depth (queue_of (snd c1))"
    using c1(1) by (simp add: core_inv_def)
  have ret: "ret = 0 \<longleftrightarrow> length (fq_list (queue_of (snd c))) < depth"
    using push_some_list(1) [OF fq, of record'] p c1(2)
    by (auto simp: push_record_def Let_def split: prod.splits if_splits)
  note push = push_record_inv [OF c1(1) p]
  have sv: "core_inv cfg depth (snd (fpga_transport_service cfg clk 0 c2))"
    "queue_of (snd (snd (fpga_transport_service cfg clk 0 c2))) = queue_of (snd c2)"
    using service_inv [OF spis(1), of depth c2 clk] push by simp_all
  have sy: "app_sync c1 = sm" "app_sync c2 = sm"
    "app_sync (snd (fpga_transport_service cfg clk 0 c2)) = app_sync c2"
    using p service_sync [OF spis(1)]
    by (auto simp: c1_def push_record_def map_queue_def Let_def split: prod.splits)
  show ?thesis
    unfolding eq using push sv c1 ret sy by auto
qed

text \<open>
  C34. An in-order frame reaches the FPGA's queue in the form the sync manager gives
  it, behind everything already queued, exactly when acquisition streams and a slot
  is free; otherwise the queue keeps its records. A record refused for lack of room
  degrades the lock, and no outcome breaks the tie between the staged record and
  the head of the queue.
\<close>

theorem future_process_outcome:
  assumes "RF_LINK_FPGA_SPIS cfg" "RF_LINK_FPGA_TRANSPORT cfg" "core_inv cfg depth c"
    and "synced_record cfg ro record (app_sync c) = (record', sm)"
    and "future_process_record cfg clk ro record c = c'"
  shows "core_inv cfg depth c' \<and>
    (if \<not> streaming (lk_control (cl_link (snd c)))
     then fq_list (queue_of (snd c')) = fq_list (queue_of (snd c)) \<and> app_sync c' = sm
     else if length (fq_list (queue_of (snd c))) < depth
     then fq_list (queue_of (snd c')) = fq_list (queue_of (snd c)) @ [record'] \<and> app_sync c' = sm
     else fq_list (queue_of (snd c')) = fq_list (queue_of (snd c)) \<and>
       app_sync c' = sync_manager_on_queue_overflow sm)"
  using future_process_cases [OF assms(1-4), of clk] assms(5) by auto

definition streaming_start :: rx_core where
  "streaming_start = (fst staged_start, (snd staged_start)\<lparr>cl_link := (cl_link (snd staged_start))\<lparr>
     lk_control := (lk_control (cl_link (snd staged_start)))\<lparr>streaming := True\<rparr>\<rparr>\<rparr>)"

lemma streaming_start_inv: "core_inv (ch0_spis_conf sum16 sum32) 2 streaming_start"
  using staged_start_inv core_inv_cong [of streaming_start staged_start]
  by (simp add: streaming_start_def)

lemma spis_conf_facts:
  "RF_LINK_FPGA_SPIS (ch0_spis_conf sum16 sum32)" "RF_LINK_FPGA_TRANSPORT (ch0_spis_conf sum16 sum32)"
  by (simp_all add: ch0_spis_conf_def future_conf_def)

lemma degrade_state: "state (sync_status_data (degrade sm)) = SYNC_DEGRADED"
  by (simp add: degrade_def)

text \<open>The queue of two slots is full, so the third record is refused.\<close>

lemma future_process_outcome_witness:
  "let cfg = ch0_spis_conf sum16 sum32;
     c' = future_process_record cfg (\<lambda>_. sample_clock) rx_reorder_init (sample_record 3) streaming_start
   in core_inv cfg 2 c' \<and> length (fq_list (queue_of (snd c'))) = 2 \<and>
      state (sync_status_data (app_sync c')) = SYNC_DEGRADED"
proof -
  let ?cfg = "ch0_spis_conf sum16 sum32"
  obtain r' sm where r:
    "synced_record ?cfg rx_reorder_init (sample_record 3) (app_sync streaming_start) = (r', sm)"
    by (cases "synced_record ?cfg rx_reorder_init (sample_record 3) (app_sync streaming_start)")
  have s: "streaming (lk_control (cl_link (snd streaming_start)))"
    "length (fq_list (queue_of (snd streaming_start))) = 2"
    using staged_start_facts by (simp_all add: streaming_start_def)
  define c' where
    "c' = future_process_record ?cfg (\<lambda>_. sample_clock) rx_reorder_init (sample_record 3) streaming_start"
  from future_process_outcome [OF spis_conf_facts streaming_start_inv r c'_def [symmetric]] s
  have "core_inv ?cfg 2 c'" "fq_list (queue_of (snd c')) = fq_list (queue_of (snd streaming_start))"
    "app_sync c' = sync_manager_on_queue_overflow sm"
    by simp_all
  then show ?thesis
    using s unfolding Let_def c'_def
    by (metis degrade_state sync_manager_on_queue_overflow_def)
qed

lemma read_clock_core:
  assumes "read_clock cfg' ci c = (now, c')"
  shows "core_inv cfg depth c' = core_inv cfg depth c" and "queue_of (snd c') = queue_of (snd c)"
proof -
  have e: "fst c' = fst c" "queue_of (snd c') = queue_of (snd c)"
    "cl_transport (snd c') = cl_transport (snd c)"
    using assms by (auto simp: read_clock_def Let_def split: prod.splits)
  show "core_inv cfg depth c' = core_inv cfg depth c"
    by (rule core_inv_cong) (simp_all add: e)
  show "queue_of (snd c') = queue_of (snd c)" by (rule e)
qed

lemma get_stats_core:
  assumes "fpga_transport_get_stats cfg' ci c = (ts, c')"
  shows "core_inv cfg depth c' = core_inv cfg depth c" and "queue_of (snd c') = queue_of (snd c)"
proof -
  have e: "fst c' = fst c" "queue_of (snd c') = queue_of (snd c)"
    "cl_transport (snd c') = cl_transport (snd c)"
    using assms by (auto simp: fpga_transport_get_stats_def Let_def split: prod.splits if_splits)
  show "core_inv cfg depth c' = core_inv cfg depth c"
    by (rule core_inv_cong) (simp_all add: e)
  show "queue_of (snd c') = queue_of (snd c)" by (rule e)
qed

lemma main_status_app_core:
  "app_core (main_status cfg i a) = app_core a \<or>
   app_core (main_status cfg i a) = snd (fpga_transport_get_stats cfg (mi_stats_clock i) (app_core a))"
proof (cases "app_stream_mode a \<or> mi_uptime i - app_last_ms a < uint RF_LINK_STATUS_PERIOD_MS \<or>
    \<not> RF_LINK_FUTURE_MODE cfg \<or> \<not> RF_LINK_FPGA_TRANSPORT cfg")
  case True
  then show ?thesis
    by (simp add: main_status_def Let_def) blast
next
  case False
  then show ?thesis
    by (cases "fpga_transport_get_stats cfg (mi_stats_clock i) (app_core a)")
      (simp add: main_status_def Let_def)
qed

lemma main_status_core:
  "core_inv cfg depth (app_core (main_status cfg' i a)) = core_inv cfg depth (app_core a)"
  "queue_of (snd (app_core (main_status cfg' i a))) = queue_of (snd (app_core a))"
  using main_status_app_core [of cfg' i a]
    get_stats_core(1) [OF surjective_pairing, of cfg depth cfg' "mi_stats_clock i" "app_core a"]
    get_stats_core(2) [OF surjective_pairing, of cfg' "mi_stats_clock i" "app_core a"] by auto

lemma main_poll_core:
  assumes "RF_LINK_FPGA_SPIS cfg" "core_inv cfg depth (app_core a)"
  shows "core_inv cfg depth (app_core (main_poll cfg i a))"
    and "queue_of (snd (app_core (main_poll cfg i a))) = queue_of (snd (app_core a))"
proof -
  obtain now c1 where rc: "read_clock cfg (mi_poll_clock i) (app_core a) = (now, c1)"
    by (cases "read_clock cfg (mi_poll_clock i) (app_core a)")
  have c1: "core_inv cfg depth c1" "queue_of (snd c1) = queue_of (snd (app_core a))"
    using read_clock_core [OF rc] assms(2) by simp_all
  note sv = service_inv [OF assms(1), of depth "map_sync (sync_manager_poll cfg now) c1" "mi_service_clock i"]
  show "core_inv cfg depth (app_core (main_poll cfg i a))"
    "queue_of (snd (app_core (main_poll cfg i a))) = queue_of (snd (app_core a))"
    using sv c1 assms(2) by (auto simp: main_poll_def set_core_def rc Let_def)
qed

lemma process_packet_core:
  assumes "RF_LINK_FPGA_SPIS cfg" "RF_LINK_FPGA_TRANSPORT cfg" "core_inv cfg depth (app_core a)"
  shows "core_inv cfg depth (app_core (process_packet cfg smq i pkt a)) \<and>
    (\<exists>new. length new \<le> 1 \<and> fq_list (queue_of (snd (app_core (process_packet cfg smq i pkt a)))) =
      fq_list (queue_of (snd (app_core a))) @ new)"
proof -
  obtain r ro where p: "rx_reorder_process_packet cfg (Some (pkt_frame pkt)) (pkt_length pkt)
      (pkt_rx_tick pkt) False (app_reorder a) = (r, ro)"
    using prod.exhaust by blast
  show ?thesis
  proof (cases "\<exists>record. r = Inr record \<and> RF_LINK_FUTURE_MODE cfg")
    case True
    then obtain rcd where r: "r = Inr rcd" "RF_LINK_FUTURE_MODE cfg" by blast
    obtain rcd' sm where "synced_record cfg ro rcd (app_sync (app_core a)) = (rcd', sm)"
      by (cases "synced_record cfg ro rcd (app_sync (app_core a))")
    from future_process_cases [OF assms this, of "mi_clock i"] show ?thesis
      by (auto simp: process_packet_def p r set_core_def)
  next
    case False
    then have "app_core (process_packet cfg smq i pkt a) = app_core a"
      by (auto simp: process_packet_def p Let_def split: sum.split)
    then show ?thesis
      using assms(3) by auto
  qed
qed


definition sample_app :: "radio_link_rx_packet list rx_app" where
  "sample_app = \<lparr>app_core = staged_start, app_reorder = rx_reorder_init,
     app_radio_stats = \<lparr>rls_rx_events = 0, rls_rx_frames = 0, rls_rx_read_errors = 0,
       rls_rx_queue_overflow = 0, rls_rx_queue_high_water = 0\<rparr>,
     app_radio_queue = [], app_uart = \<lparr>du_ready = True, du_out = []\<rparr>, app_stream = sample_stream,
     app_stream_mode = False, app_last_ms = 0, app_last_bytes = 0\<rparr>"

definition sample_input :: main_input where
  "sample_input = \<lparr>mi_clock = \<lambda>_. sample_clock, mi_poll_clock = sample_clock,
     mi_service_clock = \<lambda>_. sample_clock, mi_stats_clock = sample_clock, mi_stream_uptime = 7,
     mi_uptime = 2000, mi_uptime_print = 2000, mi_uptime_after = 2001\<rparr>"


end
