(* ===== verification/Transport_Race.thy ===== *)
theory Transport_Race
  imports Delivery
begin

text \<open>
  The service call and the SPI worker as two threads that interleave at the
  granularity of the locks. The worker's COMMIT does not take
  \<open>transport_service_mutex\<close>, so it can run between two critical sections of a
  service call. \<open>Peek_First\<close> is the loop of \<open>applications/rf_link_rx\<close> (peek, then
  look for a pending record); \<open>Check_First\<close> is the loop of the 20261014 release.
  The configuration is the SPIS backend's.
\<close>

datatype service_order = Peek_First | Check_First

datatype svc_pc = Svc_Idle | Svc_Peeked rx_frame_record | Svc_Clear | Svc_Ready rx_frame_record

datatype wrk_pc =
  Wrk_Idle | Wrk_Begun u32 bool u32 | Wrk_Popped u32 bool | Wrk_Returned u32 bool int | Wrk_Flushing

record race_state =
  rc_sp :: spi_transport
  rc_w :: rx_client
  rc_svc :: svc_pc
  rc_wrk :: wrk_pc

definition stage_record :: "rx_config \<Rightarrow> clock_input \<Rightarrow> rx_frame_record \<Rightarrow> rx_core \<Rightarrow> rx_core" where
  "stage_record cfg ci source s =
     (let (sp, w) = s;
          w1 = map_transport (\<lambda>t. t\<lparr>pending_extended_frame_seq := rec_extended_frame_seq source\<rparr>) w
      in case fpga_transport_build_record cfg (Some source) (next_transport_seq (cl_transport w1)) False of
           Inl e \<Rightarrow> (sp, w1)
         | Inr r \<Rightarrow>
             let (ret, sp2, w2) = backend_submit cfg r (sp, w1)
             in if ret \<noteq> 0 then (sp2, map_transport (count_submit_error ret) w2)
                else (sp2, count_submitted cfg ci w2))"

datatype race_event =
  Ev_Push rx_frame_record
| Ev_Service clock_input
| Ev_Begin u32 bool
| Ev_Worker
| Ev_Flush

text \<open>One critical section of the service call.\<close>

fun service_section ::
  "service_order \<Rightarrow> rx_config \<Rightarrow> clock_input \<Rightarrow> race_state \<Rightarrow> race_state" where
  "service_section order cfg ci s =
     (case rc_svc s of
        Svc_Idle \<Rightarrow>
          (case order of
             Peek_First \<Rightarrow>
               (case frame_queue_peek False (queue_of (rc_w s)) of
                  Inl _ \<Rightarrow> s
                | Inr source \<Rightarrow> s\<lparr>rc_svc := Svc_Peeked source\<rparr>)
           | Check_First \<Rightarrow>
               if fpga_spi_transport_pending (rc_sp s) then s else s\<lparr>rc_svc := Svc_Clear\<rparr>)
      | Svc_Peeked source \<Rightarrow>
          if fpga_spi_transport_pending (rc_sp s) then s\<lparr>rc_svc := Svc_Idle\<rparr>
          else s\<lparr>rc_svc := Svc_Ready source\<rparr>
      | Svc_Clear \<Rightarrow>
          (case frame_queue_peek False (queue_of (rc_w s)) of
             Inl _ \<Rightarrow> s\<lparr>rc_svc := Svc_Idle\<rparr>
           | Inr source \<Rightarrow> s\<lparr>rc_svc := Svc_Ready source\<rparr>)
      | Svc_Ready source \<Rightarrow>
          let (sp, w) = stage_record cfg ci source (rc_sp s, rc_w s)
          in s\<lparr>rc_sp := sp, rc_w := w, rc_svc := Svc_Idle\<rparr>)"

text \<open>The worker's critical sections after the first one of a COMMIT, DROP, ARM or RESET.\<close>

fun worker_section :: "race_state \<Rightarrow> race_state" where
  "worker_section s =
     (case rc_wrk s of
        Wrk_Idle \<Rightarrow> s
      | Wrk_Begun seq d ext \<Rightarrow>
          let (ret, q) = frame_queue_commit ext (queue_of (rc_w s))
          in s\<lparr>rc_w := map_queue (\<lambda>_. q) (rc_w s),
               rc_wrk := (if ret = 0 then Wrk_Popped seq d else Wrk_Returned seq d ret)\<rparr>
      | Wrk_Popped seq d \<Rightarrow>
          s\<lparr>rc_w := map_transport (\<lambda>t. t\<lparr>next_transport_seq := next_transport_seq t + 1,
                                          pending_since_tick := 0\<rparr>) (rc_w s),
            rc_wrk := Wrk_Returned seq d 0\<rparr>
      | Wrk_Returned seq d ret \<Rightarrow>
          s\<lparr>rc_sp := snd (commit_finish seq d ret (rc_sp s)), rc_wrk := Wrk_Idle\<rparr>
      | Wrk_Flushing \<Rightarrow>
          s\<lparr>rc_w := map_queue frame_queue_clear (rc_w s), rc_wrk := Wrk_Idle\<rparr>)"

fun race_section :: "service_order \<Rightarrow> rx_config \<Rightarrow> race_event \<Rightarrow> race_state \<Rightarrow> race_state" where
  "race_section order cfg (Ev_Push r) s =
     s\<lparr>rc_w := map_queue (\<lambda>q. snd (frame_queue_push (Some r) q)) (rc_w s)\<rparr>"
| "race_section order cfg (Ev_Service ci) s = service_section order cfg ci s"
| "race_section order cfg (Ev_Begin seq d) s =
     (if rc_wrk s \<noteq> Wrk_Idle then s
      else let (r, sp) = commit_begin seq (rc_sp s)
           in s\<lparr>rc_sp := sp,
                rc_wrk := (case r of Inl _ \<Rightarrow> Wrk_Idle | Inr ext \<Rightarrow> Wrk_Begun seq d ext)\<rparr>)"
| "race_section order cfg Ev_Worker s = worker_section s"
| "race_section order cfg Ev_Flush s =
     (if rc_wrk s \<noteq> Wrk_Idle then s
      else s\<lparr>rc_sp := fpga_spi_transport_abort_pending (rc_sp s),
             rc_w := map_transport (\<lambda>t. t\<lparr>pending_since_tick := 0\<rparr>) (rc_w s),
             rc_wrk := Wrk_Flushing\<rparr>)"

inductive race_reach ::
  "service_order \<Rightarrow> rx_config \<Rightarrow> race_state \<Rightarrow> race_event list \<Rightarrow> race_state \<Rightarrow> bool"
  for order cfg s0 where
  race_start: "race_reach order cfg s0 [] s0"
| race_next: "race_reach order cfg s0 evs s \<Longrightarrow>
    race_reach order cfg s0 (evs @ [ev]) (race_section order cfg ev s)"

inductive_cases race_reach_snocE: "race_reach order cfg s0 (evs @ [ev]) s"

text \<open>A pending record that no COMMIT or DROP can release.\<close>

definition stuck :: "rx_core \<Rightarrow> bool" where
  "stuck s \<longleftrightarrow> have_pending_record (fst s) \<and> quiet (fst s) \<and>
     (fq_list (queue_of (snd s)) = [] \<or>
      rec_extended_frame_seq (hd (fq_list (queue_of (snd s)))) \<noteq> sp_pending_extended_frame_seq (fst s))"

definition race_core :: "race_state \<Rightarrow> rx_core" where
  "race_core s = (rc_sp s, rc_w s)"

definition at_rest :: "rx_core \<Rightarrow> race_state" where
  "at_rest s = \<lparr>rc_sp = fst s, rc_w = snd s, rc_svc = Svc_Idle, rc_wrk = Wrk_Idle\<rparr>"

section \<open>The invariant of the release's order\<close>

definition pending_matches :: "rx_config \<Rightarrow> race_state \<Rightarrow> bool" where
  "pending_matches cfg s \<longleftrightarrow> fq_list (queue_of (rc_w s)) \<noteq> [] \<and>
     sp_pending_extended_frame_seq (rc_sp s) =
       rec_extended_frame_seq (hd (fq_list (queue_of (rc_w s)))) \<and>
     fpga_transport_build_record cfg (Some (hd (fq_list (queue_of (rc_w s)))))
       (next_transport_seq (cl_transport (rc_w s))) False = Inr (pending_record (rc_sp s))"

fun wrk_ok :: "rx_config \<Rightarrow> race_state \<Rightarrow> wrk_pc \<Rightarrow> bool" where
  "wrk_ok cfg s Wrk_Idle \<longleftrightarrow> \<not> commit_in_progress (rc_sp s) \<and>
     (have_pending_record (rc_sp s) \<longrightarrow> pending_matches cfg s)"
| "wrk_ok cfg s (Wrk_Begun seq d ext) \<longleftrightarrow> have_pending_record (rc_sp s) \<and>
     commit_in_progress (rc_sp s) \<and> ext = sp_pending_extended_frame_seq (rc_sp s) \<and>
     pending_matches cfg s"
| "wrk_ok cfg s (Wrk_Popped seq d) \<longleftrightarrow> have_pending_record (rc_sp s) \<and> commit_in_progress (rc_sp s)"
| "wrk_ok cfg s (Wrk_Returned seq d ret) \<longleftrightarrow> have_pending_record (rc_sp s) \<and>
     commit_in_progress (rc_sp s) \<and> ret = 0"
| "wrk_ok cfg s Wrk_Flushing \<longleftrightarrow> False"

fun svc_ok :: "race_state \<Rightarrow> svc_pc \<Rightarrow> bool" where
  "svc_ok s Svc_Idle \<longleftrightarrow> True"
| "svc_ok s (Svc_Peeked src) \<longleftrightarrow> False"
| "svc_ok s Svc_Clear \<longleftrightarrow> \<not> have_pending_record (rc_sp s)"
| "svc_ok s (Svc_Ready src) \<longleftrightarrow> \<not> have_pending_record (rc_sp s) \<and>
     fq_list (queue_of (rc_w s)) \<noteq> [] \<and> src = hd (fq_list (queue_of (rc_w s)))"

definition race_inv :: "rx_config \<Rightarrow> nat \<Rightarrow> race_state \<Rightarrow> bool" where
  "race_inv cfg depth s \<longleftrightarrow> fq_inv depth (queue_of (rc_w s)) \<and> \<not> abort_requested (rc_sp s) \<and>
     wrk_ok cfg s (rc_wrk s) \<and> svc_ok s (rc_svc s)"

lemma stage_record_spis:
  assumes "RF_LINK_FPGA_SPIS cfg" "\<not> have_pending_record sp"
    and "stage_record cfg ci src (sp, w) = (sp', w')"
  shows "have_pending_record sp' \<and> sp_pending_extended_frame_seq sp' = rec_extended_frame_seq src \<and>
    fpga_transport_build_record cfg (Some src) (next_transport_seq (cl_transport w)) False =
      Inr (pending_record sp') \<and>
    queue_of w' = queue_of w \<and>
    next_transport_seq (cl_transport w') = next_transport_seq (cl_transport w) \<and>
    commit_in_progress sp' = commit_in_progress sp \<and> abort_requested sp' = abort_requested sp \<and>
    have_control_callback sp' = have_control_callback sp"
proof -
  obtain r where r: "fpga_transport_build_record cfg (Some src)
      (next_transport_seq (cl_transport w)) False = Inr r"
    using build_record_total by blast
  show ?thesis
    using assms build_record_valid [OF r] r
    by (auto simp: stage_record_def backend_submit_def fpga_spis_backend_submit_def
        fpga_spi_transport_stage_def count_submitted_def Let_def split: prod.splits if_splits)
qed

lemma race_inv_push:
  assumes "race_inv cfg depth s"
  shows "race_inv cfg depth (race_section order cfg (Ev_Push r) s)"
proof -
  define q where "q = queue_of (rc_w s)"
  define q' where "q' = snd (frame_queue_push (Some r) q)"
  have inv: "fq_inv depth q"
    using assms by (simp add: race_inv_def q_def)
  have q': "fq_inv depth q'" "fq_list q' = fq_list q \<or> fq_list q' = fq_list q @ [r]"
    using fq_inv_push [OF inv] push_some_list(2) [OF inv, of r] by (simp_all add: q'_def)
  then have hd: "fq_list q \<noteq> [] \<Longrightarrow> fq_list q' \<noteq> [] \<and> hd (fq_list q') = hd (fq_list q)"
    by auto
  define s' where "s' = s\<lparr>rc_w := map_queue (\<lambda>q. snd (frame_queue_push (Some r) q)) (rc_w s)\<rparr>"
  have s': "queue_of (rc_w s') = q'" "cl_transport (rc_w s') = cl_transport (rc_w s)"
    "rc_sp s' = rc_sp s" "rc_svc s' = rc_svc s" "rc_wrk s' = rc_wrk s"
    by (simp_all add: s'_def q'_def q_def)
  have "pending_matches cfg s \<Longrightarrow> pending_matches cfg s'"
    using hd by (auto simp: pending_matches_def s' q_def)
  then have "race_inv cfg depth s'"
    using assms q'(1) hd unfolding race_inv_def s'
    by (cases "rc_wrk s"; cases "rc_svc s") (auto simp: s' q_def)
  then show ?thesis
    by (simp add: s'_def)
qed

lemma race_inv_service:
  assumes spis: "RF_LINK_FPGA_SPIS cfg" and inv: "race_inv cfg depth s"
  shows "race_inv cfg depth (race_section Check_First cfg (Ev_Service ci) s)"
proof (cases "rc_svc s")
  case (Svc_Ready src)
  obtain sp' w' where st: "stage_record cfg ci src (rc_sp s, rc_w s) = (sp', w')"
    by (cases "stage_record cfg ci src (rc_sp s, rc_w s)")
  have np: "\<not> have_pending_record (rc_sp s)"
    and h: "fq_list (queue_of (rc_w s)) \<noteq> []" "src = hd (fq_list (queue_of (rc_w s)))"
    using inv by (simp_all add: race_inv_def Svc_Ready)
  then have idle: "rc_wrk s = Wrk_Idle" "\<not> commit_in_progress (rc_sp s)"
    using inv by (cases "rc_wrk s"; simp add: race_inv_def)+
  have step: "race_section Check_First cfg (Ev_Service ci) s =
      s\<lparr>rc_sp := sp', rc_w := w', rc_svc := Svc_Idle\<rparr>"
    by (simp add: Svc_Ready st)
  show ?thesis
    unfolding step using inv idle h stage_record_spis [OF spis np st]
    by (simp add: race_inv_def Svc_Ready pending_matches_def)
next
  case Svc_Clear
  then have "fq_inv depth (queue_of (rc_w s))" "\<not> have_pending_record (rc_sp s)"
    using inv by (simp_all add: race_inv_def)
  then show ?thesis
    using inv peek_list [of depth "queue_of (rc_w s)"]
    by (cases "rc_wrk s") (auto simp: race_inv_def Svc_Clear pending_matches_def)
next
  case Svc_Idle
  then show ?thesis
    using inv by (cases "rc_wrk s")
      (auto simp: race_inv_def fpga_spi_transport_pending_def pending_matches_def)
next
  case (Svc_Peeked src)
  then show ?thesis
    using inv by (simp add: race_inv_def)
qed

lemma race_inv_begin:
  assumes inv: "race_inv cfg depth s"
  shows "race_inv cfg depth (race_section order cfg (Ev_Begin seq d) s)"
proof (cases "rc_wrk s = Wrk_Idle")
  case True
  obtain r sp where b: "commit_begin seq (rc_sp s) = (r, sp)"
    by (cases "commit_begin seq (rc_sp s)")
  have c: "have_pending_record sp = have_pending_record (rc_sp s)"
    "pending_record sp = pending_record (rc_sp s)" "abort_requested sp = abort_requested (rc_sp s)"
    "sp_pending_extended_frame_seq sp = sp_pending_extended_frame_seq (rc_sp s)"
    "(\<exists>e. r = Inl e) \<and> commit_in_progress sp = commit_in_progress (rc_sp s) \<or>
     r = Inr (sp_pending_extended_frame_seq (rc_sp s)) \<and> commit_in_progress sp \<and> have_pending_record sp"
    using b by (auto simp: commit_begin_def spi_invalid_def split: if_splits)
  then show ?thesis
    using inv True b
    by (cases "rc_svc s") (auto simp: race_inv_def pending_matches_def)
qed (use inv in simp)

lemma race_inv_worker:
  assumes inv: "race_inv cfg depth s"
  shows "race_inv cfg depth (race_section order cfg Ev_Worker s)"
proof (cases "rc_wrk s")
  case (Wrk_Begun seq d ext)
  have q: "fq_inv depth (queue_of (rc_w s))"
    and m: "fq_list (queue_of (rc_w s)) \<noteq> []" "rec_extended_frame_seq (hd (fq_list (queue_of (rc_w s)))) = ext"
    using inv by (auto simp: race_inv_def Wrk_Begun pending_matches_def)
  obtain ret q' where c: "frame_queue_commit ext (queue_of (rc_w s)) = (ret, q')"
    by (cases "frame_queue_commit ext (queue_of (rc_w s))")
  have "ret = 0" "fq_inv depth q'"
    using rxq.commit_head [OF q m] rxq.commit_valid [OF q, of ext] c by simp_all
  then show ?thesis
    using inv c by (cases "rc_svc s") (auto simp: race_inv_def Wrk_Begun)
next
  case (Wrk_Popped seq d)
  then show ?thesis
    using inv by (cases "rc_svc s") (auto simp: race_inv_def)
next
  case (Wrk_Returned seq d ret)
  then show ?thesis
    using inv by (cases "rc_svc s") (auto simp: race_inv_def commit_finish_def Let_def)
qed (use inv in \<open>simp_all add: race_inv_def\<close>)

lemma race_inv_reach:
  assumes "race_reach Check_First cfg s0 evs s" "RF_LINK_FPGA_SPIS cfg" "race_inv cfg depth s0"
    and "Ev_Flush \<notin> set evs"
  shows "race_inv cfg depth s"
  using assms
proof (induction rule: race_reach.induct)
  case (race_next evs s ev)
  then have "race_inv cfg depth s" "ev \<noteq> Ev_Flush"
    by auto
  with race_next.prems(1) show ?case
    by (cases ev) (simp_all add: race_inv_push race_inv_service race_inv_begin race_inv_worker
        del: race_section.simps)
qed

section \<open>A stuck record stays stuck\<close>

lemma commit_of_stuck:
  assumes st: "stuck s" and inv: "fq_inv depth (queue_of (snd s))"
    and c: "commit_or_drop release_record seq d s = (ret, s')"
  shows "ret \<noteq> 0 \<and> stuck s' \<and> queue_of (snd s') = queue_of (snd s) \<and>
    sp_pending_extended_frame_seq (fst s') = sp_pending_extended_frame_seq (fst s) \<and>
    have_control_callback (fst s') = have_control_callback (fst s)"
proof -
  obtain sp w where s: "s = (sp, w)" by (cases s)
  obtain sp' w' where s': "s' = (sp', w')" by (cases s')
  have "map rec_extended_frame_seq (fq_list (queue_of w)) = [] \<or>
      hd (map rec_extended_frame_seq (fq_list (queue_of w))) \<noteq> sp_pending_extended_frame_seq sp"
    using st by (auto simp: stuck_def s hd_map)
  then have "ret \<noteq> 0 \<and> w' = w \<and> quiet sp' \<and> have_pending_record sp' = have_pending_record sp \<and>
      pending_record sp' = pending_record sp \<and>
      sp_pending_extended_frame_seq sp' = sp_pending_extended_frame_seq sp \<and>
      have_control_callback sp' = have_control_callback sp"
    using st inv eng.commit_rejected [OF _ _ _ c [unfolded s s']] unfolding s
    by (simp add: stuck_def)
  then show ?thesis
    using st by (simp add: stuck_def s s')
qed

definition stuck_with :: "nat \<Rightarrow> u32 \<Rightarrow> rx_core \<Rightarrow> bool" where
  "stuck_with depth k s \<longleftrightarrow> stuck s \<and> fq_inv depth (queue_of (snd s)) \<and>
     sp_pending_extended_frame_seq (fst s) = k \<and> have_control_callback (fst s)"

lemma stuck_with_cong:
  assumes "stuck_with depth k (sp, w)" "queue_of w' = queue_of w"
  shows "stuck_with depth k (sp\<lparr>spi_stats := st\<rparr>, w')" "stuck_with depth k (sp, w')"
  using assms by (auto simp: stuck_with_def stuck_def quiet_def)

lemma control_no_flush:
  "\<not> (cmd = FPGA_CMD_ARM_SYNC \<or> cmd = FPGA_CMD_RESET_LINK) \<Longrightarrow>
    transport_control_command cfg ci cmd arg (sp, w) = (ret, s') \<Longrightarrow>
    fst s' = sp \<and> queue_of (snd s') = queue_of w"
  using handle_command_queue [of cfg ci cmd arg]
  by (auto simp: transport_control_command_def Let_def prod.case_eq_if)

lemma stuck_command:
  assumes st: "stuck_with depth k s" and nf: "\<not> flushes (Command ci code arg)"
    and c: "spi_command cfg ci code arg s = (ret, s')"
  shows "stuck_with depth k s' \<and> \<not> (commits code \<and> ret = 0)"
proof -
  obtain sp w where s: "s = (sp, w)" by (cases s)
  note ex = run_command_def spi_command_def fpga_spi_transport_execute_def Let_def
  have st': "stuck s" "fq_inv depth (queue_of (snd s))"
    using st by (simp_all add: stuck_with_def)
  have ctl: "stuck_with depth k s'"
    if "transport_control_command cfg ci cmd a (sp\<lparr>spi_stats := x\<rparr>, w) = (ret, s')"
      "\<not> (cmd = FPGA_CMD_ARM_SYNC \<or> cmd = FPGA_CMD_RESET_LINK)" for cmd a x
    using control_no_flush [OF that(2,1)] stuck_with_cong(1) [OF st [unfolded s]]
    by (cases s') simp
  have same: "sp\<lparr>spi_stats := spi_stats sp\<rparr> = sp"
    by simp
  have cod: "stuck_with depth k s' \<and> ret \<noteq> 0"
    if "commit_or_drop release_record arg d s = (ret, s')" for d
    using commit_of_stuck [OF st' that] st by (simp add: stuck_with_def)
  show ?thesis
  proof (cases "command_code code")
    case FPGA_CMD_COMMIT_RECORD
    then have "commit_or_drop release_record arg False s = (ret, s')"
      using c by (auto simp: s ex split: prod.splits)
    with cod show ?thesis by blast
  next
    case FPGA_CMD_DROP_RECORD
    then have "commit_or_drop release_record arg True s = (ret, s')"
      using c by (auto simp: s ex split: prod.splits)
    with cod show ?thesis by blast
  next
    case FPGA_CMD_CLEAR_STATS
    then have "transport_control_command cfg ci FPGA_CMD_CLEAR_STATS 0
        (sp\<lparr>spi_stats := zero_spi_stats\<rparr>, w) = (ret, s')"
      using c st by (auto simp: s ex stuck_with_def split: prod.splits)
    from ctl [OF this] FPGA_CMD_CLEAR_STATS show ?thesis
      by (simp add: commits_def)
  next
    case FPGA_CMD_START_STREAM
    then have "transport_control_command cfg ci FPGA_CMD_START_STREAM arg
        (sp\<lparr>spi_stats := spi_stats sp\<rparr>, w) = (ret, s')"
      using c st by (auto simp: s ex stuck_with_def split: prod.splits)
    from ctl [OF this] FPGA_CMD_START_STREAM show ?thesis
      by (simp add: commits_def)
  next
    case FPGA_CMD_STOP_STREAM
    then have "transport_control_command cfg ci FPGA_CMD_STOP_STREAM arg
        (sp\<lparr>spi_stats := spi_stats sp\<rparr>, w) = (ret, s')"
      using c st by (auto simp: s ex stuck_with_def split: prod.splits)
    from ctl [OF this] FPGA_CMD_STOP_STREAM show ?thesis
      by (simp add: commits_def)
  qed (use c nf st stuck_with_cong [OF st [unfolded s] refl] in
      \<open>auto simp: s ex commits_def read_pending_def spi_invalid_def split: prod.splits if_splits\<close>)
qed

fun pushes_key :: "u32 \<Rightarrow> core_op \<Rightarrow> bool" where
  "pushes_key k (Push_Record r) \<longleftrightarrow> rec_extended_frame_seq r = k"
| "pushes_key k _ \<longleftrightarrow> False"

lemma stuck_core_step:
  assumes spis: "RF_LINK_FPGA_SPIS cfg" and st: "stuck_with depth k s"
    and op: "\<not> flushes op" "\<not> pushes_key k op"
    and step: "core_step cfg op (acc, log, s) = (acc', log', s')"
  shows "log' = log \<and> stuck_with depth k s'"
proof (cases op)
  case (Push_Record r)
  obtain ret t where p: "push_record r s = (ret, t)"
    by (cases "push_record r s")
  have inv: "fq_inv depth (queue_of (snd s))"
    using st by (simp add: stuck_with_def)
  have t: "fst t = fst s" "fq_inv depth (queue_of (snd t))"
    "fq_list (queue_of (snd t)) = fq_list (queue_of (snd s)) \<or>
     fq_list (queue_of (snd t)) = fq_list (queue_of (snd s)) @ [r]"
    using rxq.push_result [OF inv, of r] fq_inv_push [OF inv, of "Some r"] p
    by (auto simp: push_record_def Let_def split: prod.splits if_splits)
  then have "stuck_with depth k t"
    using st op(2) by (auto simp: stuck_with_def stuck_def Push_Record hd_append split: if_splits)
  then show ?thesis
    using step by (auto simp: Push_Record p)
next
  case (Service clk)
  have "have_pending_record (fst s)"
    using st by (simp add: stuck_with_def stuck_def)
  then have "snd (fpga_transport_service cfg clk 0 s) = s"
    using spis by (cases s) (simp add: fpga_transport_service_def service_loop.simps service_pass_def
        fpga_spi_transport_pending_def Let_def split: sum.split)
  then show ?thesis
    using step st by (auto simp: Service split: prod.splits)
next
  case (Command ci code arg)
  obtain ret t where p: "spi_command cfg ci code arg s = (ret, t)"
    by (cases "spi_command cfg ci code arg s")
  have nf: "\<not> flushes (Command ci code arg)"
    using op(1) by (simp add: Command)
  show ?thesis
    using step stuck_command [OF st nf p] by (auto simp: Command p)
qed

lemma stuck_run:
  "RF_LINK_FPGA_SPIS cfg \<Longrightarrow> stuck_with depth k s \<Longrightarrow>
    \<not> list_ex flushes ops \<Longrightarrow> \<not> list_ex (pushes_key k) ops \<Longrightarrow>
    core_run cfg ops (acc, log, s) = (acc', log', s') \<Longrightarrow> log' = log \<and> stuck_with depth k s'"
proof (induction ops arbitrary: acc log s)
  case (Cons op ops)
  obtain acc1 log1 s1 where step: "core_step cfg op (acc, log, s) = (acc1, log1, s1)"
    by (metis prod_cases3)
  have s1: "log1 = log" "stuck_with depth k s1"
    using stuck_core_step [OF Cons.prems(1,2) _ _ step] Cons.prems(3,4) by simp_all
  show ?case
    using Cons.IH [OF Cons.prems(1) s1(2), of acc1 log1] Cons.prems(3-5) s1(1)
    by (simp add: core_run_def step)
qed (simp add: core_run_def)

section \<open>Properties\<close>

text \<open>
  C4. With the release's order (look for a pending record, then peek), in every
  interleaving of the service call with pushes and the worker's commits, whenever
  no commit is between its sections a pending record is the image of the oldest
  queued record and names it, so the FPGA can always commit what it peeked.
\<close>

theorem release_order_safe:
  assumes "RF_LINK_FPGA_SPIS cfg" "core_inv cfg depth s0"
    and "race_reach Check_First cfg (at_rest s0) evs s" "Ev_Flush \<notin> set evs"
    and "rc_wrk s = Wrk_Idle"
  shows "\<not> stuck (race_core s) \<and> staged cfg (race_core s)"
proof -
  have "race_inv cfg depth (at_rest s0)"
    using assms(2) by (cases s0)
      (simp add: race_inv_def at_rest_def core_inv_def quiet_def staged_def pending_matches_def)
  from race_inv_reach [OF assms(3,1) this assms(4)] assms(5) show ?thesis
    by (auto simp: race_inv_def race_core_def stuck_def staged_def pending_matches_def quiet_def)
qed

lemma race_trace:
  "race_reach order cfg s0 evs (foldl (\<lambda>s ev. race_section order cfg ev s) s0 evs)"
proof (induction evs rule: rev_induct)
  case (snoc ev evs)
  from race_next [OF this, of ev] show ?case by simp
qed (simp add: race_start)

text \<open>
  The service call begins, the FPGA commits the pending record (or drops it), and the call
  goes on.
\<close>

definition commit_between :: "u32 \<Rightarrow> bool \<Rightarrow> clock_input \<Rightarrow> race_event list" where
  "commit_between seq d ci =
     [Ev_Service ci, Ev_Begin seq d, Ev_Worker, Ev_Worker, Ev_Worker, Ev_Service ci, Ev_Service ci]"

definition race_end :: "service_order \<Rightarrow> rx_core \<Rightarrow> race_state" where
  "race_end order s =
     foldl (\<lambda>s ev. race_section order (ch0_spis_conf sum16 sum32) ev s) (at_rest s) (commit_between 0 False sample_clock)"

lemma race_end_stuck:
  "have_pending_record (rc_sp (race_end Peek_First staged_start)) \<and>
   \<not> commit_in_progress (rc_sp (race_end Peek_First staged_start)) \<and>
   \<not> abort_requested (rc_sp (race_end Peek_First staged_start)) \<and>
   have_control_callback (rc_sp (race_end Peek_First staged_start)) \<and>
   sp_pending_extended_frame_seq (rc_sp (race_end Peek_First staged_start)) = 1 \<and>
   map rec_extended_frame_seq (fq_list (queue_of (rc_w (race_end Peek_First staged_start)))) = [2] \<and>
   rc_wrk (race_end Peek_First staged_start) = Wrk_Idle \<and>
   rc_svc (race_end Peek_First staged_start) = Svc_Idle"
  by code_simp

lemma race_end_inv:
  "length (fq_records (queue_of (rc_w (race_end Peek_First staged_start)))) = 2 \<and>
   read_index (queue_of (rc_w (race_end Peek_First staged_start))) = 1 \<and>
   write_index (queue_of (rc_w (race_end Peek_First staged_start))) = 0 \<and>
   record_count (queue_of (rc_w (race_end Peek_First staged_start))) = 1 \<and>
   unat (high_water (fq_stats (queue_of (rc_w (race_end Peek_First staged_start))))) = 2"
  by code_simp

lemma race_end_stuck_with: "stuck_with 2 1 (race_core (race_end Peek_First staged_start))"
  using race_end_stuck race_end_inv
  by (auto simp: stuck_with_def stuck_def quiet_def race_core_def fq_inv_def)

lemma commit_between_stages:
  fixes ci :: clock_input and d :: bool
  assumes "RF_LINK_FPGA_SPIS cfg" "core_inv cfg depth s" "have_pending_record (fst s)"
    "fq_list (queue_of (snd s)) = r # rs" "seq = next_transport_seq (cl_transport (snd s))"
  defines "t \<equiv> foldl (\<lambda>s ev. race_section Peek_First cfg ev s) (at_rest s) (commit_between seq d ci)"
  shows "rc_wrk t = Wrk_Idle \<and> rc_svc t = Svc_Idle \<and> fq_list (queue_of (rc_w t)) = rs \<and>
    fq_inv depth (queue_of (rc_w t)) \<and> have_pending_record (rc_sp t) \<and> quiet (rc_sp t) \<and>
    have_control_callback (rc_sp t) \<and> sp_pending_extended_frame_seq (rc_sp t) = rec_extended_frame_seq r \<and>
    fpga_transport_build_record cfg (Some r) (seq + 1) False = Inr (pending_record (rc_sp t))"
proof -
  obtain sp w where s: "s = (sp, w)" by (cases s)
  have inv: "fq_inv depth (queue_of w)" "quiet sp" "have_control_callback sp" "have_pending_record sp"
    "fq_list (queue_of w) = r # rs" "sp_pending_extended_frame_seq sp = rec_extended_frame_seq r"
    "fpga_transport_build_record cfg (Some r) seq False = Inr (pending_record sp)"
    using assms(2-5) by (auto simp: s core_inv_def staged_def)
  have seq: "hdr_transport_seq (fpga_header (pending_record sp)) = seq"
    by (rule build_record_fields(1) [OF inv(7)])
  have peek: "frame_queue_peek False (queue_of w) = Inr r"
    using peek_list [OF inv(1)] inv(5) by simp
  obtain ret q where commit: "frame_queue_commit (rec_extended_frame_seq r) (queue_of w) = (ret, q)"
    by (cases "frame_queue_commit (rec_extended_frame_seq r) (queue_of w)")
  have q: "ret = 0" "fq_list q = rs" "fq_inv depth q"
    using rxq.commit_head [OF inv(1), of "rec_extended_frame_seq r"] rxq.commit_valid [OF inv(1), of "rec_extended_frame_seq r"]
      commit inv(5) by simp_all
  define sp1 where "sp1 = snd (commit_finish seq d 0 (sp\<lparr>commit_in_progress := True\<rparr>))"
  define w1 where "w1 = map_transport (\<lambda>t. t\<lparr>next_transport_seq := next_transport_seq t + 1, pending_since_tick := 0\<rparr>)
      (map_queue (\<lambda>_. q) w)"
  have sp1: "\<not> have_pending_record sp1" "quiet sp1" "have_control_callback sp1"
    using inv(2,3) by (simp_all add: sp1_def commit_finish_def quiet_def Let_def)
  have w1: "queue_of w1 = q" "next_transport_seq (cl_transport w1) = seq + 1"
    using assms(5) by (simp_all add: w1_def s)
  obtain sp2 w2 where stage: "stage_record cfg ci r (sp1, w1) = (sp2, w2)"
    by (cases "stage_record cfg ci r (sp1, w1)")
  have t: "t = \<lparr>rc_sp = sp2, rc_w = w2, rc_svc = Svc_Idle, rc_wrk = Wrk_Idle\<rparr>"
    using inv(2) stage
    by (simp add: t_def commit_between_def at_rest_def s peek commit_begin_def quiet_def inv(4,6) seq commit q(1)
        fpga_spi_transport_pending_def sp1(1) flip: sp1_def w1_def)
  show ?thesis
    using stage_record_spis [OF assms(1) sp1(1) stage] q sp1 w1 by (simp add: t quiet_def)
qed

text \<open>
  C37. With the order of \<open>applications/rf_link_rx\<close> (peek, then look for a pending record)
  the lock structure does not prevent a record from being offered twice. From every
  consistent state with a record pending, and no next record or one with another frame
  number, when the FPGA commits (or drops) the pending record between the two sections of
  a service call, the call stages the same record once more, under the next transport
  sequence number, while the queue no longer holds it. The copy cannot be released:
  nothing is delivered any more, whatever is serviced and commanded and whatever else is
  pushed, until ARM_SYNC or RESET_LINK.
\<close>

theorem peek_first_order_unsafe:
  fixes ci :: clock_input and d :: bool
  assumes "RF_LINK_FPGA_SPIS cfg" "core_inv cfg depth s" "have_pending_record (fst s)"
    "fq_list (queue_of (snd s)) = r # rs" "seq = next_transport_seq (cl_transport (snd s))"
    "rs = [] \<or> rec_extended_frame_seq (hd rs) \<noteq> rec_extended_frame_seq r"
  shows "\<exists>t. race_reach Peek_First cfg (at_rest s) (commit_between seq d ci) t \<and>
    rc_wrk t = Wrk_Idle \<and> rc_svc t = Svc_Idle \<and> fq_list (queue_of (rc_w t)) = rs \<and>
    have_pending_record (rc_sp t) \<and>
    fpga_transport_build_record cfg (Some r) (seq + 1) False = Inr (pending_record (rc_sp t)) \<and>
    (\<forall>ops acc log acc' log' s'. \<not> list_ex flushes ops \<longrightarrow> \<not> list_ex (pushes_key (rec_extended_frame_seq r)) ops \<longrightarrow>
       core_run cfg ops (acc, log, race_core t) = (acc', log', s') \<longrightarrow> log' = log \<and> stuck s')"
proof -
  let ?t = "foldl (\<lambda>s ev. race_section Peek_First cfg ev s) (at_rest s) (commit_between seq d ci)"
  note t = commit_between_stages [OF assms(1-5), of d ci]
  have st: "stuck_with depth (rec_extended_frame_seq r) (race_core ?t)"
    using t assms(6) by (auto simp: stuck_with_def stuck_def race_core_def)
  have "log' = log \<and> stuck s'"
    if "\<not> list_ex flushes ops" "\<not> list_ex (pushes_key (rec_extended_frame_seq r)) ops"
      "core_run cfg ops (acc, log, race_core ?t) = (acc', log', s')" for ops acc log acc' log' s'
    using stuck_run [OF assms(1) st that] by (simp add: stuck_with_def)
  then show ?thesis
    using t race_trace [of Peek_First cfg "at_rest s" "commit_between seq d ci"] by blast
qed

text \<open>
  Such a record is never released: as long as the FPGA sends neither ARM_SYNC
  nor RESET_LINK, whatever it commits, drops, peeks or starts and whatever arrives
  by radio (with other sequence numbers), nothing is delivered any more and the
  same record stays pending.
\<close>

theorem stuck_record_blocks_delivery:
  assumes "RF_LINK_FPGA_SPIS cfg" "stuck_with depth k s"
    and "\<not> list_ex flushes ops" "\<not> list_ex (pushes_key k) ops"
    and "core_run cfg ops (accepted, delivered, s) = (accepted', delivered', s')"
  shows "delivered' = delivered \<and> stuck s' \<and> sp_pending_extended_frame_seq (fst s') = k"
  using stuck_run [OF assms] by (simp add: stuck_with_def)

lemma stuck_record_blocks_delivery_witness:
  "fst (snd (core_run (ch0_spis_conf sum16 sum32)
     [Command sample_clock 5 1, Service (\<lambda>_. sample_clock), Command sample_clock 6 1]
     ([], [], race_core (race_end Peek_First staged_start)))) = []"
proof -
  obtain a d s' where run: "core_run (ch0_spis_conf sum16 sum32)
     [Command sample_clock 5 1, Service (\<lambda>_. sample_clock), Command sample_clock 6 1]
     ([], [], race_core (race_end Peek_First staged_start)) = (a, d, s')"
    by (metis prod_cases3)
  show ?thesis
    using stuck_record_blocks_delivery [OF _ race_end_stuck_with _ _ run]
    unfolding run by (simp add: ch0_spis_conf_def command_code_def)
qed

lemma staged_start_queue:
  "map rec_extended_frame_seq (fq_list (queue_of (snd staged_start))) = [1, 2] \<and>
   next_transport_seq (cl_transport (snd staged_start)) = 0"
  by code_simp

lemma peek_first_order_unsafe_witness:
  "\<exists>r t. race_reach Peek_First (ch0_spis_conf sum16 sum32) (at_rest staged_start) (commit_between 0 False sample_clock) t \<and>
     rec_extended_frame_seq r = 1 \<and> map rec_extended_frame_seq (fq_list (queue_of (rc_w t))) = [2] \<and>
     fpga_transport_build_record (ch0_spis_conf sum16 sum32) (Some r) 1 False = Inr (pending_record (rc_sp t))"
proof -
  obtain r rs where q: "fq_list (queue_of (snd staged_start)) = r # rs" "rec_extended_frame_seq r = 1"
    "map rec_extended_frame_seq rs = [2]"
    using staged_start_queue by auto
  have "RF_LINK_FPGA_SPIS (ch0_spis_conf sum16 sum32)" "have_pending_record (fst staged_start)"
    "0 = next_transport_seq (cl_transport (snd staged_start))"
    "rs = [] \<or> rec_extended_frame_seq (hd rs) \<noteq> rec_extended_frame_seq r"
    using staged_start_facts staged_start_queue q(2,3) by (auto simp: ch0_spis_conf_def)
  from peek_first_order_unsafe [OF this(1) staged_start_inv this(2) q(1) this(3,4), of False sample_clock]
  obtain t where "race_reach Peek_First (ch0_spis_conf sum16 sum32) (at_rest staged_start) (commit_between 0 False sample_clock) t"
    "fq_list (queue_of (rc_w t)) = rs"
    "fpga_transport_build_record (ch0_spis_conf sum16 sum32) (Some r) (0 + 1) False = Inr (pending_record (rc_sp t))"
    by blast
  then show ?thesis
    using q by (intro exI [of _ r] exI [of _ t]) simp
qed

lemma release_order_safe_witness:
  "\<exists>s. race_reach Check_First (ch0_spis_conf sum16 sum32) (at_rest staged_start) [Ev_Service sample_clock] s \<and>
     \<not> stuck (race_core s) \<and> staged (ch0_spis_conf sum16 sum32) (race_core s)"
proof -
  let ?cfg = "ch0_spis_conf sum16 sum32"
  let ?s = "foldl (\<lambda>s ev. race_section Check_First ?cfg ev s) (at_rest staged_start) [Ev_Service sample_clock]"
  have r: "race_reach Check_First ?cfg (at_rest staged_start) [Ev_Service sample_clock] ?s"
    by (rule race_trace)
  have "rc_wrk ?s = Wrk_Idle"
    by (simp add: at_rest_def)
  with release_order_safe [OF _ staged_start_inv r] r show ?thesis
    by (auto simp: ch0_spis_conf_def)
qed

text \<open>One record queued and none staged.\<close>

definition queued_start :: rx_core where
  "queued_start = snd (snd (core_run (ch0_spis_conf sum16 sum32) [Push_Record (sample_record 1)]
     ([], [], sample_start)))"

lemma queued_start_inv: "core_inv (ch0_spis_conf sum16 sum32) 2 queued_start"
proof -
  have "delivery_ok (ch0_spis_conf sum16 sum32) 2 True ([], [], sample_start)"
    using init_delivery_ok [OF sample_start_init, of sample_queue]
    by (simp add: sample_client_def sample_queue_def)
  from delivery_run [OF _ this, of "[Push_Record (sample_record 1)]"]
  show ?thesis
    by (cases "core_run (ch0_spis_conf sum16 sum32) [Push_Record (sample_record 1)] ([], [], sample_start)")
      (simp add: queued_start_def delivery_ok_def ch0_spis_conf_def)
qed

definition flush_end :: race_state where
  "flush_end = foldl (\<lambda>s ev. race_section Check_First (ch0_spis_conf sum16 sum32) ev s)
     (at_rest queued_start)
     [Ev_Service sample_clock, Ev_Service sample_clock, Ev_Flush, Ev_Worker, Ev_Service sample_clock]"

lemma flush_end_stuck:
  "have_pending_record (rc_sp flush_end) \<and> \<not> commit_in_progress (rc_sp flush_end) \<and>
   \<not> abort_requested (rc_sp flush_end) \<and> fq_list (queue_of (rc_w flush_end)) = [] \<and>
   rc_wrk flush_end = Wrk_Idle \<and> rc_svc flush_end = Svc_Idle"
  by code_simp

text \<open>
  The release's order is not enough for ARM_SYNC and RESET_LINK: their handler
  clears the queue without \<open>transport_service_mutex\<close>, so when it runs between the
  peek and the staging of a service call, the call stages a record of the old
  epoch that is no longer queued, which no COMMIT can release.
\<close>

theorem release_order_flush_unsafe:
  "\<exists>evs s. core_inv (ch0_spis_conf sum16 sum32) 2 queued_start \<and>
     race_reach Check_First (ch0_spis_conf sum16 sum32) (at_rest queued_start) evs s \<and>
     rc_wrk s = Wrk_Idle \<and> rc_svc s = Svc_Idle \<and> stuck (race_core s)"
proof -
  have "race_reach Check_First (ch0_spis_conf sum16 sum32) (at_rest queued_start)
      [Ev_Service sample_clock, Ev_Service sample_clock, Ev_Flush, Ev_Worker, Ev_Service sample_clock]
      flush_end"
    unfolding flush_end_def by (rule race_trace)
  moreover have "stuck (race_core flush_end)"
    using flush_end_stuck by (simp add: stuck_def race_core_def quiet_def)
  ultimately show ?thesis
    using queued_start_inv flush_end_stuck by blast
qed

end
