(* ===== verification/Adc_Sampler.thy ===== *)
theory Adc_Sampler
  imports Wire_Formats
begin

text \<open>
  \<open>flpr_app/src/adc_sampler.c\<close>: the driver of the IIM-42352 accelerometer on the FLPR
  core. The sensor, its SPI bus and its interrupt line are a device of type \<open>'d\<close>
  behind \<open>mems_bus\<close>, whose behaviour is a parameter; what the driver relies on
  is named by \<open>fifo_bus\<close> and \<open>fifo_ready\<close>.
\<close>

section \<open>Registers\<close>

definition IIM42352_REG_INT_CONFIG :: u8 where [wire_const]: "IIM42352_REG_INT_CONFIG = 0x14"
definition IIM42352_REG_FIFO_CONFIG :: u8 where [wire_const]: "IIM42352_REG_FIFO_CONFIG = 0x16"
definition IIM42352_REG_INT_STATUS :: u8 where [wire_const]: "IIM42352_REG_INT_STATUS = 0x2d"
definition IIM42352_REG_FIFO_COUNTH :: u8 where [wire_const]: "IIM42352_REG_FIFO_COUNTH = 0x2e"
definition IIM42352_REG_FIFO_COUNTL :: u8 where [wire_const]: "IIM42352_REG_FIFO_COUNTL = 0x2f"
definition IIM42352_REG_FIFO_DATA :: u8 where [wire_const]: "IIM42352_REG_FIFO_DATA = 0x30"
definition IIM42352_REG_SIGNAL_PATH_RESET :: u8 where
  [wire_const]: "IIM42352_REG_SIGNAL_PATH_RESET = 0x4b"
definition IIM42352_REG_INTF_CONFIG0 :: u8 where [wire_const]: "IIM42352_REG_INTF_CONFIG0 = 0x4c"
definition IIM42352_REG_PWR_MGMT0 :: u8 where [wire_const]: "IIM42352_REG_PWR_MGMT0 = 0x4e"
definition IIM42352_REG_ACCEL_CONFIG0 :: u8 where [wire_const]: "IIM42352_REG_ACCEL_CONFIG0 = 0x50"
definition IIM42352_REG_FIFO_CONFIG1 :: u8 where [wire_const]: "IIM42352_REG_FIFO_CONFIG1 = 0x5f"
definition IIM42352_REG_FIFO_CONFIG2 :: u8 where [wire_const]: "IIM42352_REG_FIFO_CONFIG2 = 0x60"
definition IIM42352_REG_FIFO_CONFIG3 :: u8 where [wire_const]: "IIM42352_REG_FIFO_CONFIG3 = 0x61"
definition IIM42352_REG_INT_CONFIG1 :: u8 where [wire_const]: "IIM42352_REG_INT_CONFIG1 = 0x64"
definition IIM42352_REG_INT_SOURCE0 :: u8 where [wire_const]: "IIM42352_REG_INT_SOURCE0 = 0x65"
definition IIM42352_REG_WHO_AM_I :: u8 where [wire_const]: "IIM42352_REG_WHO_AM_I = 0x75"
definition IIM42352_WHO_AM_I_VALUE :: u8 where [wire_const]: "IIM42352_WHO_AM_I_VALUE = 0x6d"
definition IIM42352_SPI_READ :: u8 where [wire_const]: "IIM42352_SPI_READ = 0x80"
definition IIM42352_FIFO_PACKET_SIZE :: nat where [wire_const]: "IIM42352_FIFO_PACKET_SIZE = 8"
definition IIM42352_FIFO_WATERMARK_BYTES :: u32 where
  [wire_const]: "IIM42352_FIFO_WATERMARK_BYTES = 128 * 8"
definition IIM42352_FIFO_MAX_BYTES :: nat where [wire_const]: "IIM42352_FIFO_MAX_BYTES = 2080"
definition IIM42352_FIFO_MAX_SAMPLES :: nat where
  [wire_const]: "IIM42352_FIFO_MAX_SAMPLES = (2080 div 8) * 3"

section \<open>State\<close>

datatype sensor_gpio_call = Gpio_Configure_Input | Gpio_Add_Callback | Gpio_Interrupt_Edge

text \<open>
  \<open>bus_transceive\<close> gives the status and the bytes stored in the receive buffer,
  \<open>bus_wait\<close> the number of interrupts since the last wait, up to the end of this
  one, \<open>bus_sleep\<close> lets time pass.
\<close>

record 'd mems_bus =
  bus_ready :: "'d \<Rightarrow> bool \<times> bool"
  bus_transceive :: "u8 list \<Rightarrow> 'd \<Rightarrow> int \<times> u8 list \<times> 'd"
  bus_write :: "u8 list \<Rightarrow> 'd \<Rightarrow> int \<times> 'd"
  bus_gpio :: "sensor_gpio_call \<Rightarrow> 'd \<Rightarrow> int \<times> 'd"
  bus_wait :: "'d \<Rightarrow> nat \<times> 'd"
  bus_sleep :: "nat \<Rightarrow> 'd \<Rightarrow> 'd"

record adc_sampler_stats =
  irq_count :: u32
  poll_fallbacks :: u32
  fifo_reads :: u32
  fifo_packets :: u32
  samples_captured :: u32
  malformed_packets :: u32
  spi_errors :: u32
  fifo_flushes :: u32
  fifo_overflows :: u32
  last_error :: i32

record adc_sampler =
  as_stats :: adc_sampler_stats
  as_irq_sem :: bool
  as_fifo_rx :: "u8 list"
  as_pending :: "i16 list"

definition zero_adc_stats :: adc_sampler_stats where
  "zero_adc_stats = \<lparr>irq_count = 0, poll_fallbacks = 0, fifo_reads = 0, fifo_packets = 0,
     samples_captured = 0, malformed_packets = 0, spi_errors = 0, fifo_flushes = 0,
     fifo_overflows = 0, last_error = 0\<rparr>"

definition map_adc_stats :: "(adc_sampler_stats \<Rightarrow> adc_sampler_stats) \<Rightarrow> adc_sampler \<Rightarrow> adc_sampler" where
  "map_adc_stats f a = a\<lparr>as_stats := f (as_stats a)\<rparr>"

lemma map_adc_stats_simps [simp]:
  "as_pending (map_adc_stats f a) = as_pending a" "as_fifo_rx (map_adc_stats f a) = as_fifo_rx a"
  "as_irq_sem (map_adc_stats f a) = as_irq_sem a" "as_stats (map_adc_stats f a) = f (as_stats a)"
  by (simp_all add: map_adc_stats_def)

definition note_error :: "int \<Rightarrow> adc_sampler \<Rightarrow> int \<times> adc_sampler" where
  [op_defs]: "note_error error a =
     (let a1 = map_adc_stats (\<lambda>s. s\<lparr>last_error := word_of_int error\<rparr>) a
      in (error, if error \<noteq> 0 then map_adc_stats (\<lambda>s. s\<lparr>spi_errors := spi_errors s + 1\<rparr>) a1 else a1))"

section \<open>Register access\<close>

definition rx_byte :: "u8 list \<Rightarrow> nat \<Rightarrow> u8" where
  "rx_byte rx i = (if i < length rx then rx ! i else 0)"

definition iim42352_read_reg :: "'d mems_bus \<Rightarrow> u8 \<Rightarrow> bool \<Rightarrow> 'd \<Rightarrow> (int + u8) \<times> 'd" where
  [op_defs]: "iim42352_read_reg bus reg value_null d =
     (if value_null then (Inl (- EINVAL), d)
      else let (ret, rx, d') = bus_transceive bus [reg OR IIM42352_SPI_READ, 0] d
           in (if ret = 0 then Inr (rx_byte rx 1) else Inl ret, d'))"

definition iim42352_write_reg :: "'d mems_bus \<Rightarrow> u8 \<Rightarrow> u8 \<Rightarrow> 'd \<Rightarrow> int \<times> 'd" where
  [op_defs]: "iim42352_write_reg bus reg value d =
     bus_write bus [reg AND NOT IIM42352_SPI_READ, value] d"

definition iim42352_update_reg :: "'d mems_bus \<Rightarrow> u8 \<Rightarrow> u8 \<Rightarrow> u8 \<Rightarrow> 'd \<Rightarrow> int \<times> 'd" where
  [op_defs]: "iim42352_update_reg bus reg msk value d =
     (case iim42352_read_reg bus reg False d of
        (Inl ret, d1) \<Rightarrow> (ret, d1)
      | (Inr current, d1) \<Rightarrow>
          iim42352_write_reg bus reg ((current AND NOT msk) OR (value AND msk)) d1)"

definition iim42352_fifo_count_get :: "'d mems_bus \<Rightarrow> bool \<Rightarrow> 'd \<Rightarrow> (int + u16) \<times> 'd" where
  [op_defs]: "iim42352_fifo_count_get bus count_null d =
     (if count_null then (Inl (- EINVAL), d)
      else case iim42352_read_reg bus IIM42352_REG_FIFO_COUNTL False d of
             (Inl ret, d1) \<Rightarrow> (Inl ret, d1)
           | (Inr low, d1) \<Rightarrow>
               (case iim42352_read_reg bus IIM42352_REG_FIFO_COUNTH False d1 of
                  (Inl ret, d2) \<Rightarrow> (Inl ret, d2)
                | (Inr high, d2) \<Rightarrow> (Inr (push_bit 8 (ucast high) OR ucast low), d2)))"

definition iim42352_fifo_flush :: "'d mems_bus \<Rightarrow> adc_sampler \<times> 'd \<Rightarrow> int \<times> adc_sampler \<times> 'd" where
  [op_defs]: "iim42352_fifo_flush bus s =
     (let (ret, d) = iim42352_write_reg bus IIM42352_REG_SIGNAL_PATH_RESET (push_bit 1 1) (snd s)
      in if ret = 0
         then (ret, map_adc_stats (\<lambda>st. st\<lparr>fifo_flushes := fifo_flushes st + 1\<rparr>) (fst s), bus_sleep bus 1 d)
         else (ret, fst s, d))"

text \<open>The receive buffer is the static \<open>fifo_rx\<close>; the driver stores into its beginning.\<close>

definition iim42352_fifo_burst_read ::
  "'d mems_bus \<Rightarrow> u16 \<Rightarrow> adc_sampler \<times> 'd \<Rightarrow> int \<times> adc_sampler \<times> 'd" where
  [op_defs]: "iim42352_fifo_burst_read bus len s =
     (if len = 0 \<or> IIM42352_FIFO_MAX_BYTES < unat len then (- EINVAL, s)
      else
        let (ret, rx, d) = bus_transceive bus
              ((IIM42352_REG_FIFO_DATA OR IIM42352_SPI_READ) # replicate (unat len) 0) (snd s);
            a = fst s
        in (ret, a\<lparr>as_fifo_rx := rx @ drop (length rx) (as_fifo_rx a)\<rparr>, d))"

definition packet_valid :: "u8 list \<Rightarrow> bool" where
  "packet_valid packet \<longleftrightarrow> rx_byte packet 0 AND 0xfc = 0x40"

definition packet_samples :: "u8 list \<Rightarrow> i16 list" where
  "packet_samples packet =
     [push_bit 8 (ucast (rx_byte packet 1)) OR ucast (rx_byte packet 2),
      push_bit 8 (ucast (rx_byte packet 3)) OR ucast (rx_byte packet 4),
      push_bit 8 (ucast (rx_byte packet 5)) OR ucast (rx_byte packet 6)]"

definition parse_packet :: "i16 list \<times> adc_sampler \<Rightarrow> nat \<Rightarrow> i16 list \<times> adc_sampler" where
  "parse_packet s index =
     (let (parsed, a) = s;
          packet = take 8 (drop (1 + index * IIM42352_FIFO_PACKET_SIZE) (as_fifo_rx a))
      in if \<not> packet_valid packet
         then (parsed, map_adc_stats (\<lambda>st. st\<lparr>malformed_packets := malformed_packets st + 1\<rparr>) a)
         else (parsed @ packet_samples packet,
               map_adc_stats (\<lambda>st. st\<lparr>fifo_packets := fifo_packets st + 1\<rparr>) a))"

definition parse_fifo_packets :: "u16 \<Rightarrow> adc_sampler \<Rightarrow> i16 list \<times> adc_sampler" where
  [op_defs]: "parse_fifo_packets len a =
     foldl parse_packet ([], a) [0..<unat len div IIM42352_FIFO_PACKET_SIZE]"

section \<open>Interrupt and initialisation\<close>

definition fifo_interrupt_callback :: "adc_sampler \<Rightarrow> adc_sampler" where
  [op_defs]: "fifo_interrupt_callback a =
     (map_adc_stats (\<lambda>s. s\<lparr>irq_count := irq_count s + 1\<rparr>) a)\<lparr>as_irq_sem := True\<rparr>"

definition irq_sem_take :: "adc_sampler \<Rightarrow> int \<times> adc_sampler" where
  "irq_sem_take a = (if as_irq_sem a then (0, a\<lparr>as_irq_sem := False\<rparr>) else (- EAGAIN, a))"

text \<open>Steps until the first that fails.\<close>

fun run_steps :: "('s \<Rightarrow> int \<times> 's) list \<Rightarrow> 's \<Rightarrow> int \<times> 's" where
  "run_steps [] s = (0, s)"
| "run_steps (f # fs) s = (let (ret, s1) = f s in if ret \<noteq> 0 then (ret, s1) else run_steps fs s1)"

definition on_bus :: "('d \<Rightarrow> int \<times> 'd) \<Rightarrow> adc_sampler \<times> 'd \<Rightarrow> int \<times> adc_sampler \<times> 'd" where
  "on_bus f s = (let (ret, d) = f (snd s) in (ret, fst s, d))"

definition check_who_am_i :: "'d mems_bus \<Rightarrow> 'd \<Rightarrow> int \<times> 'd" where
  "check_who_am_i bus d =
     (case iim42352_read_reg bus IIM42352_REG_WHO_AM_I False d of
        (Inl ret, d1) \<Rightarrow> (ret, d1)
      | (Inr who, d1) \<Rightarrow> (if who \<noteq> IIM42352_WHO_AM_I_VALUE then - ENODEV else 0, d1))"

definition clear_int_status :: "'d mems_bus \<Rightarrow> 'd \<Rightarrow> int \<times> 'd" where
  "clear_int_status bus d =
     (case iim42352_read_reg bus IIM42352_REG_INT_STATUS False d of
        (Inl ret, d1) \<Rightarrow> (ret, d1) | (Inr _, d1) \<Rightarrow> (0, d1))"

definition init_steps :: "'d mems_bus \<Rightarrow> (adc_sampler \<times> 'd \<Rightarrow> int \<times> adc_sampler \<times> 'd) list" where
  "init_steps bus =
     [on_bus (check_who_am_i bus),
      on_bus (iim42352_write_reg bus IIM42352_REG_INT_CONFIG (push_bit 1 1)),
      iim42352_fifo_flush bus,
      on_bus (iim42352_update_reg bus IIM42352_REG_INTF_CONFIG0 (push_bit 6 1) 0),
      on_bus (iim42352_write_reg bus IIM42352_REG_FIFO_CONFIG (push_bit 6 1)),
      on_bus (iim42352_write_reg bus IIM42352_REG_FIFO_CONFIG1 (push_bit 5 1 OR 1)),
      on_bus (iim42352_write_reg bus IIM42352_REG_FIFO_CONFIG2
        (ucast (IIM42352_FIFO_WATERMARK_BYTES AND 0xff))),
      on_bus (iim42352_write_reg bus IIM42352_REG_FIFO_CONFIG3
        (ucast (drop_bit 8 IIM42352_FIFO_WATERMARK_BYTES))),
      on_bus (iim42352_write_reg bus IIM42352_REG_ACCEL_CONFIG0 4),
      on_bus (iim42352_write_reg bus IIM42352_REG_PWR_MGMT0 3),
      on_bus (\<lambda>d. (0, bus_sleep bus 30 d)),
      on_bus (iim42352_update_reg bus IIM42352_REG_INT_CONFIG1 (push_bit 6 1) (push_bit 6 1)),
      on_bus (bus_gpio bus Gpio_Configure_Input),
      on_bus (bus_gpio bus Gpio_Add_Callback),
      on_bus (bus_gpio bus Gpio_Interrupt_Edge),
      on_bus (clear_int_status bus),
      on_bus (iim42352_write_reg bus IIM42352_REG_INT_SOURCE0 (push_bit 2 1))]"

definition adc_sampler_init :: "'d mems_bus \<Rightarrow> adc_sampler \<times> 'd \<Rightarrow> int \<times> adc_sampler \<times> 'd" where
  [op_defs]: "adc_sampler_init bus s =
     (let (a, d) = s;
          a0 = a\<lparr>as_stats := zero_adc_stats, as_irq_sem := False, as_pending := []\<rparr>;
          (spi_ok, gpio_ok) = bus_ready bus d
      in if \<not> spi_ok \<or> \<not> gpio_ok then let (e, a1) = note_error (- ENODEV) a0 in (e, a1, d)
         else
           let (ret, a1, d1) = run_steps (init_steps bus) (a0, d)
           in if ret \<noteq> 0 then let (e, a2) = note_error ret a1 in (e, a2, d1) else (0, a1, d1))"

section \<open>Reading samples\<close>

definition fail_read :: "int \<Rightarrow> adc_sampler \<Rightarrow> 'd \<Rightarrow> (int + i16 list) \<times> adc_sampler \<times> 'd" where
  "fail_read ret a d = (let (e, a') = note_error ret a in (Inl e, a', d))"

text \<open>What a pass does once the FIFO holds \<open>fifo_bytes\<close>.\<close>

definition read_fifo ::
  "'d mems_bus \<Rightarrow> nat \<Rightarrow> u16 \<Rightarrow> adc_sampler \<times> 'd \<Rightarrow> (int + i16 list) \<times> adc_sampler \<times> 'd" where
  "read_fifo bus room fifo_bytes s =
     (if fifo_bytes = 0 then (Inr [], s)
      else if IIM42352_FIFO_MAX_BYTES < unat fifo_bytes \<or>
        unat fifo_bytes mod IIM42352_FIFO_PACKET_SIZE \<noteq> 0 then
        let (ret, a2, d2) = iim42352_fifo_flush bus
              (map_adc_stats (\<lambda>st. st\<lparr>malformed_packets := malformed_packets st + 1\<rparr>) (fst s), snd s)
        in if ret \<noteq> 0 then fail_read ret a2 d2 else (Inr [], a2, d2)
      else
        let (ret, a2, d2) = iim42352_fifo_burst_read bus fifo_bytes s
        in if ret \<noteq> 0 then fail_read ret a2 d2
           else
             let (parsed, a3) = parse_fifo_packets fifo_bytes
                   (map_adc_stats (\<lambda>st. st\<lparr>fifo_reads := fifo_reads st + 1\<rparr>) a2)
             in if parsed = [] then (Inr [], a3, d2)
                else
                  let copied = min room (length parsed)
                  in (Inr (take copied parsed),
                      (map_adc_stats (\<lambda>st. st\<lparr>samples_captured := samples_captured st + of_nat copied\<rparr>)
                        a3)\<lparr>as_pending := drop copied parsed\<rparr>, d2))"

text \<open>One pass of the loop: an error to return with, or the samples it adds.\<close>

definition read_pass ::
  "'d mems_bus \<Rightarrow> nat \<Rightarrow> adc_sampler \<times> 'd \<Rightarrow> (int + i16 list) \<times> adc_sampler \<times> 'd" where
  "read_pass bus room s =
     (let (n, d0) = bus_wait bus (snd s);
          (ret, a0) = irq_sem_take ((fifo_interrupt_callback ^^ n) (fst s));
          a1 = (if ret \<noteq> 0 then map_adc_stats (\<lambda>st. st\<lparr>poll_fallbacks := poll_fallbacks st + 1\<rparr>) a0
                else a0)
      in case iim42352_read_reg bus IIM42352_REG_INT_STATUS False d0 of
           (Inl e, d1) \<Rightarrow> fail_read e a1 d1
         | (Inr int_status, d1) \<Rightarrow>
             let a2 = (if int_status AND push_bit 1 1 \<noteq> 0
                       then map_adc_stats (\<lambda>st. st\<lparr>fifo_overflows := fifo_overflows st + 1\<rparr>) a1 else a1)
             in case iim42352_fifo_count_get bus False d1 of
                  (Inl e, d2) \<Rightarrow> fail_read e a2 d2
                | (Inr fifo_bytes, d2) \<Rightarrow> read_fifo bus room fifo_bytes (a2, d2))"

text \<open>
  The loop ends only when the sensor delivers or fails, so \<open>None\<close> stands for a call
  that does not return.
\<close>

partial_function (option) read_loop ::
  "'d mems_bus \<Rightarrow> nat \<Rightarrow> i16 list \<Rightarrow> adc_sampler \<times> 'd \<Rightarrow>
   ((int + i16 list) \<times> adc_sampler \<times> 'd) option" where
  "read_loop bus sample_count produced s =
     (if length produced < sample_count
      then case read_pass bus (sample_count - length produced) s of
             (Inl e, s') \<Rightarrow> Some (Inl e, s')
           | (Inr new, s') \<Rightarrow> read_loop bus sample_count (produced @ new) s'
      else Some (Inr produced, s))"

declare read_loop.simps [code]

definition adc_sampler_read_samples ::
  "'d mems_bus \<Rightarrow> bool \<Rightarrow> nat \<Rightarrow> adc_sampler \<times> 'd \<Rightarrow> ((int + i16 list) \<times> adc_sampler \<times> 'd) option" where
  [op_defs]: "adc_sampler_read_samples bus samples_null sample_count s =
     (if samples_null \<or> sample_count = 0 then Some (Inl (- EINVAL), s)
      else
        let (a, d) = s;
            copied = min sample_count (length (as_pending a));
            a1 = (if 0 < length (as_pending a)
                  then (map_adc_stats (\<lambda>st. st\<lparr>samples_captured := samples_captured st + of_nat copied\<rparr>)
                         a)\<lparr>as_pending := drop copied (as_pending a)\<rparr>
                  else a)
        in read_loop bus sample_count (take copied (as_pending a)) (a1, d))"

definition adc_sampler_stats_get :: "adc_sampler \<Rightarrow> adc_sampler_stats" where
  [op_defs]: "adc_sampler_stats_get a = as_stats a"

end
