(* ===== verification/Adc_Stream.thy ===== *)
theory Adc_Stream
  imports Adc_Sampler
begin

text \<open>
  What the sampler driver delivers: its calls cut the sensor's stream into pieces, of which only a failing call loses one,
  and it returns whenever the sensor delivers.
\<close>

section \<open>What the driver relies on\<close>

text \<open>
  The documented FIFO of the sensor: a successful burst read of whole packets takes
  the oldest packets out of the FIFO; no other transaction does. \<open>handed d\<close> are the
  packets taken out so far.
\<close>

definition fifo_bus :: "'d mems_bus \<Rightarrow> ('d \<Rightarrow> u8 list list) \<Rightarrow> bool" where
  "fifo_bus bus handed \<longleftrightarrow>
     (\<forall>tx d rx d'. bus_transceive bus tx d = (0, rx, d') \<longrightarrow>
        (hd tx \<noteq> 0xB0 \<longrightarrow> handed d' = handed d) \<and>
        (hd tx = 0xB0 \<and> tx \<noteq> [] \<and> 8 dvd length tx - 1 \<longrightarrow>
           (\<exists>x ps. rx = x # concat ps \<and> (\<forall>p\<in>set ps. length p = 8) \<and> length rx = length tx \<and>
              handed d' = handed d @ ps))) \<and>
     (\<forall>tx d ret d'. bus_write bus tx d = (ret, d') \<longrightarrow> handed d' = handed d) \<and>
     (\<forall>d. handed (snd (bus_wait bus d)) = handed d) \<and>
     (\<forall>n d. handed (bus_sleep bus n d) = handed d)"

text \<open>A transaction that fails hands nothing over: what it may have taken out is not in \<open>handed\<close>.\<close>

definition fifo_faults :: "'d mems_bus \<Rightarrow> ('d \<Rightarrow> u8 list list) \<Rightarrow> bool" where
  "fifo_faults bus handed \<longleftrightarrow>
     (\<forall>tx d ret rx d'. bus_transceive bus tx d = (ret, rx, d') \<and> ret \<noteq> 0 \<longrightarrow> handed d' = handed d)"

definition packet_stream :: "u8 list list \<Rightarrow> i16 list" where
  "packet_stream ps = concat (map packet_samples (filter packet_valid ps))"

lemma packet_stream_append: "packet_stream (ps @ qs) = packet_stream ps @ packet_stream qs"
  by (simp add: packet_stream_def)

lemma length_packet_stream: "length (packet_stream ps) \<le> 3 * length ps"
  by (induction ps) (auto simp: packet_stream_def packet_samples_def)

lemma reg_or_read [simp]:
  "IIM42352_REG_FIFO_DATA OR IIM42352_SPI_READ = 0xB0" "IIM42352_REG_INT_STATUS OR IIM42352_SPI_READ = 0xAD"
  "IIM42352_REG_FIFO_COUNTL OR IIM42352_SPI_READ = 0xAF" "IIM42352_REG_FIFO_COUNTH OR IIM42352_SPI_READ = 0xAE"
  by (simp_all add: wire_const)

section \<open>Parsing\<close>

abbreviation slot_packet :: "u8 list \<Rightarrow> nat \<Rightarrow> u8 list" where
  "slot_packet buf i \<equiv> take 8 (drop (1 + i * 8) buf)"

lemma parse_run:
  "foldl parse_packet ([], a) [0..<n] = (parsed, a') \<Longrightarrow>
    parsed = packet_stream (map (slot_packet (as_fifo_rx a)) [0..<n]) \<and>
    as_fifo_rx a' = as_fifo_rx a \<and> as_pending a' = as_pending a \<and>
    samples_captured (as_stats a') = samples_captured (as_stats a)"
proof (induction n arbitrary: parsed a')
  case (Suc n)
  obtain p1 a1 where r: "foldl parse_packet ([], a) [0..<n] = (p1, a1)"
    by (cases "foldl parse_packet ([], a) [0..<n]")
  have step: "parse_packet (p1, a1) n = (parsed, a')"
    using Suc.prems by (simp add: r)
  note IH = Suc.IH [OF r]
  then have fr: "slot_packet (as_fifo_rx a1) n = slot_packet (as_fifo_rx a) n"
    by simp
  show ?case
  proof (cases "packet_valid (slot_packet (as_fifo_rx a) n)")
    case True
    then have "parsed = p1 @ packet_samples (slot_packet (as_fifo_rx a) n)"
      "a' = map_adc_stats (\<lambda>st. st\<lparr>fifo_packets := fifo_packets st + 1\<rparr>) a1"
      using step fr by (auto simp: parse_packet_def IIM42352_FIFO_PACKET_SIZE_def Let_def)
    then show ?thesis
      using IH True by (simp add: packet_stream_append) (simp add: packet_stream_def)
  next
    case False
    then have "parsed = p1"
      "a' = map_adc_stats (\<lambda>st. st\<lparr>malformed_packets := malformed_packets st + 1\<rparr>) a1"
      using step fr by (auto simp: parse_packet_def IIM42352_FIFO_PACKET_SIZE_def Let_def)
    then show ?thesis
      using IH False by (simp add: packet_stream_append) (simp add: packet_stream_def)
  qed
qed (simp add: packet_stream_def)

lemma slots_of_packets:
  assumes "\<forall>p\<in>set ps. length p = 8"
  shows "map (\<lambda>i. take 8 (drop (i * 8) (concat ps @ rest))) [0..<length ps] = ps"
  using assms by (induction ps) (simp_all add: map_upt_Suc drop_append del: upt_Suc)

lemma parse_fifo_stream:
  assumes "as_fifo_rx a = x # concat ps @ rest" "\<forall>p\<in>set ps. length p = 8"
    and "unat len = 8 * length ps" "parse_fifo_packets len a = (parsed, a')"
  shows "parsed = packet_stream ps \<and> as_pending a' = as_pending a \<and>
    samples_captured (as_stats a') = samples_captured (as_stats a)"
proof -
  have "foldl parse_packet ([], a) [0..<length ps] = (parsed, a')"
    using assms(3,4) by (simp add: parse_fifo_packets_def IIM42352_FIFO_PACKET_SIZE_def)
  from parse_run [OF this] show ?thesis
    using slots_of_packets [OF assms(2), of rest] assms(1) by simp
qed

section \<open>One pass\<close>

definition sampled :: "adc_sampler \<Rightarrow> u32" where
  "sampled a = samples_captured (as_stats a)"

lemma bus_transceive_other:
  "fifo_bus bus handed \<Longrightarrow> bus_transceive bus tx d = (0, rx, d') \<Longrightarrow> hd tx \<noteq> 0xB0 \<Longrightarrow>
    handed d' = handed d"
  unfolding fifo_bus_def by blast

lemma read_reg_handed:
  assumes "fifo_bus bus handed" "iim42352_read_reg bus reg False d = (Inr v, d')"
    and "reg OR IIM42352_SPI_READ \<noteq> 0xB0"
  shows "handed d' = handed d"
proof -
  obtain ret rx d1 where t: "bus_transceive bus [reg OR IIM42352_SPI_READ, 0] d = (ret, rx, d1)"
    using prod_cases3 by blast
  with assms(2) have "ret = 0" "d1 = d'"
    by (auto simp: iim42352_read_reg_def split: if_splits)
  with bus_transceive_other [OF assms(1), of "[reg OR IIM42352_SPI_READ, 0]" d rx d1] t assms(3)
  show ?thesis by simp
qed

lemma fifo_count_handed:
  assumes "fifo_bus bus handed" "iim42352_fifo_count_get bus False d = (Inr n, d')"
  shows "handed d' = handed d"
proof -
  obtain r1 d1 where r1: "iim42352_read_reg bus IIM42352_REG_FIFO_COUNTL False d = (r1, d1)"
    by (cases "iim42352_read_reg bus IIM42352_REG_FIFO_COUNTL False d")
  obtain r2 d2 where r2: "iim42352_read_reg bus IIM42352_REG_FIFO_COUNTH False d1 = (r2, d2)"
    by (cases "iim42352_read_reg bus IIM42352_REG_FIFO_COUNTH False d1")
  obtain lo hi where "r1 = Inr lo" "r2 = Inr hi" "d' = d2"
    using assms(2) r1 r2 by (cases r1; cases r2) (auto simp: iim42352_fifo_count_get_def)
  then show ?thesis
    using read_reg_handed [OF assms(1) r1 [unfolded \<open>r1 = Inr lo\<close>]]
      read_reg_handed [OF assms(1) r2 [unfolded \<open>r2 = Inr hi\<close>]] by simp
qed

lemma flush_handed:
  assumes "fifo_bus bus handed" "iim42352_fifo_flush bus (a, d) = (ret, a', d')"
  shows "handed d' = handed d \<and> as_pending a' = as_pending a \<and> sampled a' = sampled a"
proof -
  have w: "handed d1 = handed d" if "bus_write bus tx d = (r, d1)" for tx r d1
    using assms(1) that unfolding fifo_bus_def by blast
  have sl: "handed (bus_sleep bus n d1) = handed d1" for n d1
    using assms(1) unfolding fifo_bus_def by blast
  show ?thesis
    using assms(2) w sl
    by (auto simp: iim42352_fifo_flush_def iim42352_write_reg_def sampled_def Let_def
        split: prod.splits if_splits)
qed

lemma burst_read_handed:
  assumes fb: "fifo_bus bus handed" and run: "iim42352_fifo_burst_read bus len (a, d) = (0, a', d')"
    and len: "len \<noteq> 0" "unat len \<le> 2080" "unat len mod 8 = 0"
  shows "\<exists>x ps rest. as_fifo_rx a' = x # concat ps @ rest \<and> (\<forall>p\<in>set ps. length p = 8) \<and>
    unat len = 8 * length ps \<and> handed d' = handed d @ ps \<and>
    as_pending a' = as_pending a \<and> sampled a' = sampled a"
proof -
  let ?tx = "0xB0 # replicate (unat len) 0 :: u8 list"
  obtain ret rx d1 where t: "bus_transceive bus ?tx d = (ret, rx, d1)"
    using prod_cases3 by blast
  with run len have r: "ret = 0" "d1 = d'" "a' = a\<lparr>as_fifo_rx := rx @ drop (length rx) (as_fifo_rx a)\<rparr>"
    by (auto simp: iim42352_fifo_burst_read_def IIM42352_FIFO_MAX_BYTES_def Let_def)
  have "8 dvd length ?tx - 1"
    using len(3) by (simp add: mod_eq_0_iff_dvd)
  then obtain x ps where p: "rx = x # concat ps" "\<forall>p\<in>set ps. length p = 8" "length rx = length ?tx"
      "handed d' = handed d @ ps"
    using fb t r(1,2) unfolding fifo_bus_def by (metis list.sel(1) list.distinct(1))
  have "length (concat ps) = 8 * length ps"
    using p(2) by (induction ps) auto
  then show ?thesis
    using p r(3) by (intro exI [of _ x] exI [of _ ps] exI [of _ "drop (length rx) (as_fifo_rx a)"])
      (simp add: sampled_def)
qed

lemma fail_read_no_samples: "fail_read e a d \<noteq> (Inr new, s)"
  by (simp add: fail_read_def note_error_def Let_def)

definition pass_effect :: "('d \<Rightarrow> u8 list list) \<Rightarrow> nat \<Rightarrow> adc_sampler \<times> 'd \<Rightarrow> i16 list \<Rightarrow> adc_sampler \<times> 'd \<Rightarrow> bool" where
  "pass_effect handed room s new s' \<longleftrightarrow>
     (\<exists>ps. handed (snd s') = handed (snd s) @ ps \<and> new @ as_pending (fst s') = packet_stream ps) \<and>
     length new \<le> room \<and> (as_pending (fst s') = [] \<or> length new = room) \<and>
     length (as_pending (fst s')) \<le> 780 \<and> sampled (fst s') = sampled (fst s) + of_nat (length new)"

lemma read_fifo_effect:
  assumes fb: "fifo_bus bus handed" and run: "read_fifo bus room n (a, d) = (Inr new, a', d')"
    and p: "as_pending a = []"
  shows "pass_effect handed room (a, d) new (a', d')"
proof (cases "n = 0")
  case True
  then show ?thesis
    using run p by (auto simp: read_fifo_def pass_effect_def packet_stream_def)
next
  case False
  note nz = this
  show ?thesis
  proof (cases "2080 < unat n \<or> unat n mod 8 \<noteq> 0")
    case True
    let ?a = "map_adc_stats (\<lambda>st. st\<lparr>malformed_packets := malformed_packets st + 1\<rparr>) a"
    obtain ret a2 d2 where f: "iim42352_fifo_flush bus (?a, d) = (ret, a2, d2)"
      using prod_cases3 by blast
    with run nz True have "new = []" "a2 = a'" "d2 = d'"
      by (auto simp: read_fifo_def wire_const fail_read_no_samples Let_def split: if_splits)
    then show ?thesis
      using flush_handed [OF fb f] p by (simp add: pass_effect_def packet_stream_def sampled_def)
  next
    case False
    obtain ret a2 d2 where f: "iim42352_fifo_burst_read bus n (a, d) = (ret, a2, d2)"
      using prod_cases3 by blast
    let ?a = "map_adc_stats (\<lambda>st. st\<lparr>fifo_reads := fifo_reads st + 1\<rparr>) a2"
    obtain parsed a3 where ps: "parse_fifo_packets n ?a = (parsed, a3)"
      by (cases "parse_fifo_packets n ?a")
    have ret: "ret = 0"
      using run nz False f
      by (auto simp: read_fifo_def wire_const fail_read_no_samples Let_def split: if_splits)
    have d: "d' = d2"
      using run nz False f ps ret by (auto simp: read_fifo_def wire_const Let_def split: if_splits)
    have le: "unat n \<le> 2080" "unat n mod 8 = 0"
      using False by simp_all
    from burst_read_handed [OF fb f [unfolded ret] nz le] obtain x qs rest where
      q: "as_fifo_rx ?a = x # concat qs @ rest" "\<forall>p\<in>set qs. length p = 8" "unat n = 8 * length qs"
        "handed d2 = handed d @ qs" "as_pending a2 = []" "sampled a2 = sampled a"
      using p by auto
    from parse_fifo_stream [OF q(1-3) ps] q(5,6)
    have r: "parsed = packet_stream qs" "as_pending a3 = []" "sampled a3 = sampled a"
      by (simp_all add: sampled_def)
    have l: "length parsed \<le> 780"
      using length_packet_stream [of qs] q(3) le by (simp add: r(1))
    show ?thesis
    proof (cases "parsed = []")
      case True
      then show ?thesis
        using run nz False f ps ret q r
        by (auto simp: read_fifo_def wire_const pass_effect_def Let_def)
    next
      case False2: False
      let ?c = "min room (length parsed)"
      have "new = take ?c parsed"
        "a' = (map_adc_stats (\<lambda>st. st\<lparr>samples_captured := samples_captured st + of_nat ?c\<rparr>)
                a3)\<lparr>as_pending := drop ?c parsed\<rparr>"
        using run nz False False2 f ps ret by (auto simp: read_fifo_def wire_const Let_def)
      then show ?thesis
        using r(1,3) l q(4) d by (auto simp: pass_effect_def sampled_def min_def)
    qed
  qed
qed

lemma interrupts_keep:
  "as_pending ((fifo_interrupt_callback ^^ n) a) = as_pending a \<and>
   sampled ((fifo_interrupt_callback ^^ n) a) = sampled a"
  by (induction n) (auto simp: fifo_interrupt_callback_def sampled_def map_adc_stats_def)

lemma sem_take_keep:
  "irq_sem_take a = (ret, a') \<Longrightarrow> as_pending a' = as_pending a \<and> sampled a' = sampled a"
  by (auto simp: irq_sem_take_def sampled_def split: if_splits)

lemma read_pass_effect:
  assumes fb: "fifo_bus bus handed" and run: "read_pass bus room (a, d) = (Inr new, a', d')"
    and p: "as_pending a = []"
  shows "pass_effect handed room (a, d) new (a', d')"
proof -
  obtain n d0 where w: "bus_wait bus d = (n, d0)" by (cases "bus_wait bus d")
  have hd0: "handed d0 = handed d"
    using fb w unfolding fifo_bus_def by (metis snd_conv)
  obtain ret a0 where t: "irq_sem_take ((fifo_interrupt_callback ^^ n) a) = (ret, a0)"
    by (cases "irq_sem_take ((fifo_interrupt_callback ^^ n) a)")
  define a1 where "a1 = (if ret \<noteq> 0
    then map_adc_stats (\<lambda>st. st\<lparr>poll_fallbacks := poll_fallbacks st + 1\<rparr>) a0 else a0)"
  obtain r1 d1 where s1: "iim42352_read_reg bus IIM42352_REG_INT_STATUS False d0 = (r1, d1)"
    by (cases "iim42352_read_reg bus IIM42352_REG_INT_STATUS False d0")
  obtain st where r1: "r1 = Inr st"
    using run w t s1 by (cases r1) (auto simp: read_pass_def fail_read_no_samples)
  define a2 where "a2 = (if st AND push_bit 1 1 \<noteq> 0
    then map_adc_stats (\<lambda>st. st\<lparr>fifo_overflows := fifo_overflows st + 1\<rparr>) a1 else a1)"
  obtain r2 d2 where s2: "iim42352_fifo_count_get bus False d1 = (r2, d2)"
    by (cases "iim42352_fifo_count_get bus False d1")
  obtain fb_n where r2: "r2 = Inr fb_n"
    using run w t s1 s2 r1 by (cases r2) (auto simp: read_pass_def fail_read_no_samples Let_def)
  have a2: "as_pending a2 = []" "sampled a2 = sampled a"
    using sem_take_keep [OF t] interrupts_keep [of n a] p
    by (auto simp: a2_def a1_def sampled_def)
  have "read_fifo bus room fb_n (a2, d2) = (Inr new, a', d')"
    using run w t s1 s2 r1 r2 unfolding a2_def a1_def by (simp add: read_pass_def Let_def)
  from read_fifo_effect [OF fb this a2(1)] a2(2) hd0
    read_reg_handed [OF fb s1 [unfolded r1]] fifo_count_handed [OF fb s2 [unfolded r2]]
  show ?thesis
    by (simp add: pass_effect_def)
qed

section \<open>A pass that fails\<close>

definition no_effect :: "('d \<Rightarrow> u8 list list) \<Rightarrow> adc_sampler \<times> 'd \<Rightarrow> adc_sampler \<times> 'd \<Rightarrow> bool" where
  "no_effect handed s s' \<longleftrightarrow> handed (snd s') = handed (snd s) \<and> as_pending (fst s') = as_pending (fst s) \<and>
     sampled (fst s') = sampled (fst s)"

lemma fail_read_keeps:
  "fail_read ret a d = (r, a', d') \<Longrightarrow> d' = d \<and> as_pending a' = as_pending a \<and> sampled a' = sampled a"
  by (auto simp: fail_read_def note_error_def sampled_def Let_def split: if_splits)

lemma read_reg_fails:
  assumes "fifo_faults bus handed" "iim42352_read_reg bus reg False d = (Inl e, d')"
  shows "handed d' = handed d"
  using assms unfolding fifo_faults_def
  by (auto simp: iim42352_read_reg_def split: prod.splits if_splits)

lemma fifo_count_fails:
  assumes "fifo_bus bus handed" "fifo_faults bus handed" "iim42352_fifo_count_get bus False d = (Inl e, d')"
  shows "handed d' = handed d"
proof -
  obtain r1 d1 where r1: "iim42352_read_reg bus IIM42352_REG_FIFO_COUNTL False d = (r1, d1)"
    by (cases "iim42352_read_reg bus IIM42352_REG_FIFO_COUNTL False d")
  obtain r2 d2 where r2: "iim42352_read_reg bus IIM42352_REG_FIFO_COUNTH False d1 = (r2, d2)"
    by (cases "iim42352_read_reg bus IIM42352_REG_FIFO_COUNTH False d1")
  show ?thesis
    using assms(3) r1 r2 read_reg_fails [OF assms(2)] read_reg_handed [OF assms(1)]
    by (cases r1; cases r2) (auto simp: iim42352_fifo_count_get_def)
qed

lemma burst_read_fails:
  assumes "fifo_faults bus handed" "iim42352_fifo_burst_read bus len (a, d) = (ret, a', d')" "ret \<noteq> 0"
  shows "handed d' = handed d \<and> as_pending a' = as_pending a \<and> sampled a' = sampled a"
  using assms unfolding fifo_faults_def
  by (auto simp: iim42352_fifo_burst_read_def sampled_def Let_def split: prod.splits if_splits)

lemma read_fifo_fails:
  assumes fb: "fifo_bus bus handed" "fifo_faults bus handed"
    and run: "read_fifo bus room n (a, d) = (Inl e, a', d')"
  shows "no_effect handed (a, d) (a', d')"
proof -
  have nz: "n \<noteq> 0"
    using run by (auto simp: read_fifo_def)
  show ?thesis
  proof (cases "2080 < unat n \<or> unat n mod 8 \<noteq> 0")
    case True
    let ?a = "map_adc_stats (\<lambda>st. st\<lparr>malformed_packets := malformed_packets st + 1\<rparr>) a"
    obtain ret a2 d2 where f: "iim42352_fifo_flush bus (?a, d) = (ret, a2, d2)"
      using prod_cases3 by blast
    have "fail_read ret a2 d2 = (Inl e, a', d')"
      using run nz True f by (auto simp: read_fifo_def wire_const Let_def split: if_splits)
    then show ?thesis
      using fail_read_keeps flush_handed [OF fb(1) f] by (fastforce simp: no_effect_def sampled_def)
  next
    case False
    obtain ret a2 d2 where f: "iim42352_fifo_burst_read bus n (a, d) = (ret, a2, d2)"
      using prod_cases3 by blast
    have "ret \<noteq> 0 \<and> fail_read ret a2 d2 = (Inl e, a', d')"
      using run nz False f by (auto simp: read_fifo_def wire_const Let_def split: if_splits prod.splits)
    then show ?thesis
      using fail_read_keeps burst_read_fails [OF fb(2) f] by (fastforce simp: no_effect_def)
  qed
qed

lemma read_pass_fails:
  assumes fb: "fifo_bus bus handed" "fifo_faults bus handed"
    and run: "read_pass bus room (a, d) = (Inl e, a', d')"
  shows "no_effect handed (a, d) (a', d')"
proof -
  obtain n d0 where w: "bus_wait bus d = (n, d0)" by (cases "bus_wait bus d")
  have hd0: "handed d0 = handed d"
    using fb(1) w unfolding fifo_bus_def by (metis snd_conv)
  obtain ret a0 where t: "irq_sem_take ((fifo_interrupt_callback ^^ n) a) = (ret, a0)"
    by (cases "irq_sem_take ((fifo_interrupt_callback ^^ n) a)")
  define a1 where "a1 = (if ret \<noteq> 0
    then map_adc_stats (\<lambda>st. st\<lparr>poll_fallbacks := poll_fallbacks st + 1\<rparr>) a0 else a0)"
  have a1: "as_pending a1 = as_pending a" "sampled a1 = sampled a"
    using sem_take_keep [OF t] interrupts_keep [of n a] by (auto simp: a1_def sampled_def)
  obtain r1 d1 where s1: "iim42352_read_reg bus IIM42352_REG_INT_STATUS False d0 = (r1, d1)"
    by (cases "iim42352_read_reg bus IIM42352_REG_INT_STATUS False d0")
  show ?thesis
  proof (cases r1)
    case (Inl e1)
    then have "fail_read e1 a1 d1 = (Inl e, a', d')"
      using run w t s1 Inl unfolding a1_def by (simp add: read_pass_def Let_def)
    then show ?thesis
      using fail_read_keeps read_reg_fails [OF fb(2) s1 [unfolded Inl]] a1 hd0 by (fastforce simp: no_effect_def)
  next
    case (Inr st)
    define a2 where "a2 = (if st AND push_bit 1 1 \<noteq> 0
      then map_adc_stats (\<lambda>st. st\<lparr>fifo_overflows := fifo_overflows st + 1\<rparr>) a1 else a1)"
    have a2: "as_pending a2 = as_pending a" "sampled a2 = sampled a"
      using a1 by (auto simp: a2_def sampled_def)
    have d1: "handed d1 = handed d"
      using read_reg_handed [OF fb(1) s1 [unfolded Inr]] hd0 by simp
    obtain r2 d2 where s2: "iim42352_fifo_count_get bus False d1 = (r2, d2)"
      by (cases "iim42352_fifo_count_get bus False d1")
    show ?thesis
    proof (cases r2)
      case (Inl e2)
      then have "fail_read e2 a2 d2 = (Inl e, a', d')"
        using run w t s1 s2 Inr unfolding a2_def a1_def by (simp add: read_pass_def Let_def)
      then show ?thesis
        using fail_read_keeps fifo_count_fails [OF fb s2 [unfolded Inl]] a2 d1 by (fastforce simp: no_effect_def)
    next
      case (Inr len)
      have "read_fifo bus room len (a2, d2) = (Inl e, a', d')"
        using run w t s1 s2 Inr \<open>r1 = Inr st\<close> unfolding a2_def a1_def by (simp add: read_pass_def Let_def)
      from read_fifo_fails [OF fb this] show ?thesis
        using a2 d1 fifo_count_handed [OF fb(1) s2 [unfolded Inr]] by (simp add: no_effect_def)
    qed
  qed
qed

section \<open>The loop and the calls\<close>

definition read_effect ::
  "('d \<Rightarrow> u8 list list) \<Rightarrow> i16 list \<Rightarrow> adc_sampler \<times> 'd \<Rightarrow> i16 list \<Rightarrow> adc_sampler \<times> 'd \<Rightarrow> bool" where
  "read_effect handed before s xs s' \<longleftrightarrow>
     (\<exists>ps. handed (snd s') = handed (snd s) @ ps \<and>
        xs @ as_pending (fst s') = before @ packet_stream ps) \<and>
     length (as_pending (fst s')) \<le> 780 \<and>
     sampled (fst s') + of_nat (length before) = sampled (fst s) + of_nat (length xs)"

lemma read_effect_last:
  assumes "pass_effect handed room s new s1"
  shows "read_effect handed produced s (produced @ new) s1"
proof -
  obtain ps where "handed (snd s1) = handed (snd s) @ ps" "new @ as_pending (fst s1) = packet_stream ps"
    using assms by (auto simp: pass_effect_def)
  then show ?thesis
    using assms by (auto simp: read_effect_def pass_effect_def ac_simps intro!: exI [of _ ps])
qed

lemma read_effect_step:
  assumes "pass_effect handed room s new s1" "as_pending (fst s1) = []"
    and "read_effect handed (produced @ new) s1 xs s2"
  shows "read_effect handed produced s xs s2"
proof -
  obtain ps where ps: "handed (snd s1) = handed (snd s) @ ps" "new = packet_stream ps"
    using assms(1,2) by (auto simp: pass_effect_def)
  obtain qs where qs: "handed (snd s2) = handed (snd s1) @ qs"
      "xs @ as_pending (fst s2) = (produced @ new) @ packet_stream qs"
    using assms(3) by (auto simp: read_effect_def)
  have "sampled (fst s2) + of_nat (length produced) + of_nat (length new) =
      sampled (fst s) + of_nat (length new) + of_nat (length xs)"
    using assms(1,3) by (simp add: read_effect_def pass_effect_def ac_simps)
  then have "sampled (fst s2) + of_nat (length produced) = sampled (fst s) + of_nat (length xs)"
    by (simp add: algebra_simps)
  then show ?thesis
    using ps qs assms(3)
    by (auto simp: read_effect_def packet_stream_append intro!: exI [of _ "ps @ qs"])
qed

lemma read_effect_stop:
  assumes "no_effect handed s s1" "as_pending (fst s) = []"
  shows "read_effect handed produced s produced s1"
  using assms by (simp add: read_effect_def no_effect_def packet_stream_def)

text \<open>
  What a call for \<open>n\<close> samples takes from the stream: the samples it returns, or when it
  fails the ones it had already copied, which are fewer.
\<close>

definition takes :: "nat \<Rightarrow> int + i16 list \<Rightarrow> i16 list \<Rightarrow> bool" where
  "takes n r xs \<longleftrightarrow> (case r of Inr ys \<Rightarrow> ys = xs \<and> length xs = n | Inl e \<Rightarrow> xs = [] \<or> length xs < n)"

lemma read_loop_effect_aux:
  "read_loop bus n produced s = Some y \<Longrightarrow> fifo_bus bus handed \<and> fifo_faults bus handed \<longrightarrow>
    (length produced < n \<longrightarrow> as_pending (fst s) = [] \<longrightarrow>
      (\<exists>xs. takes n (fst y) xs \<and> read_effect handed produced s xs (snd y))) \<and>
    (\<not> length produced < n \<longrightarrow> y = (Inr produced, s))"
proof (induction bus n produced s y rule: read_loop.raw_induct [rotated, consumes 1])
  case (1 rl bus n produced s y)
  have "(length produced < n \<longrightarrow> as_pending (fst s) = [] \<longrightarrow>
      (\<exists>xs. takes n (fst y) xs \<and> read_effect handed produced s xs (snd y))) \<and>
    (\<not> length produced < n \<longrightarrow> y = (Inr produced, s))" if fb: "fifo_bus bus handed \<and> fifo_faults bus handed"
  proof (cases "length produced < n")
    case True
    obtain r a1 d1 where p: "read_pass bus (n - length produced) s = (r, a1, d1)"
      using prod_cases3 by blast
    have "\<exists>xs. takes n (fst y) xs \<and> read_effect handed produced s xs (snd y)" if e: "as_pending (fst s) = []"
    proof (cases r)
      case (Inl err)
      then have "y = (Inl err, a1, d1)"
        using 1(2) True p by simp
      moreover have "no_effect handed s (a1, d1)"
        using read_pass_fails [of bus handed "n - length produced" "fst s" "snd s" err a1 d1] fb p Inl by simp
      ultimately show ?thesis
        using read_effect_stop [OF _ e] True by (auto simp: takes_def)
    next
      case (Inr new)
      then have rec: "rl bus n (produced @ new) (a1, d1) = Some y"
        using 1(2) True p by simp
      from read_pass_effect [of bus handed "n - length produced" "fst s" "snd s" new a1 d1] fb p Inr e
      have eff: "pass_effect handed (n - length produced) s new (a1, d1)" by simp
      note IH = mp [OF 1(1) [OF rec] fb]
      show ?thesis
      proof (cases "length (produced @ new) < n")
        case True
        then have e1: "as_pending (fst (a1, d1)) = []"
          using eff by (auto simp: pass_effect_def)
        then obtain xs where "takes n (fst y) xs" "read_effect handed (produced @ new) (a1, d1) xs (snd y)"
          using conjunct1 [OF IH] True by blast
        then show ?thesis
          using read_effect_step [OF eff e1] by blast
      next
        case False
        then have "y = (Inr (produced @ new), a1, d1)"
          using conjunct2 [OF IH] by blast
        moreover have "length new = n - length produced"
          using eff False by (auto simp: pass_effect_def)
        ultimately show ?thesis
          using read_effect_last [OF eff, of produced] \<open>length produced < n\<close> by (auto simp: takes_def)
      qed
    qed
    then show ?thesis
      using True by blast
  next
    case False
    then show ?thesis
      using 1(2) by simp
  qed
  then show ?case by blast
qed

lemma read_samples_effect:
  assumes fb: "fifo_bus bus handed" "fifo_faults bus handed"
    and run: "adc_sampler_read_samples bus False n s = Some (r, s')"
    and l: "length (as_pending (fst s)) \<le> 780"
  shows "\<exists>xs ps. takes n r xs \<and> handed (snd s') = handed (snd s) @ ps \<and>
      xs @ as_pending (fst s') = as_pending (fst s) @ packet_stream ps \<and>
    length (as_pending (fst s')) \<le> 780 \<and> sampled (fst s') = sampled (fst s) + of_nat (length xs)"
proof -
  obtain a d where s: "s = (a, d)" by (cases s)
  define c where "c = min n (length (as_pending a))"
  define a1 where "a1 = (if 0 < length (as_pending a)
    then (map_adc_stats (\<lambda>st. st\<lparr>samples_captured := samples_captured st + of_nat c\<rparr>) a)
           \<lparr>as_pending := drop c (as_pending a)\<rparr> else a)"
  show ?thesis
  proof (cases "n = 0")
    case True
    then show ?thesis
      using run l s by (intro exI [of _ "[]"]) (auto simp: adc_sampler_read_samples_def takes_def packet_stream_def)
  next
    case n: False
    have lp: "read_loop bus n (take c (as_pending a)) (a1, d) = Some (r, s')"
      using run n unfolding s a1_def c_def adc_sampler_read_samples_def Let_def by simp
    have a1: "as_pending a1 = drop c (as_pending a)" "sampled a1 = sampled a + of_nat c"
      by (auto simp: a1_def c_def sampled_def)
    note eff = mp [OF read_loop_effect_aux [OF lp] conjI [OF fb]]
    show ?thesis
    proof (cases "length (as_pending a) < n")
      case True
      then have c: "c = length (as_pending a)" by (simp add: c_def)
      then have t: "take c (as_pending a) = as_pending a" "as_pending a1 = []"
        using a1(1) by simp_all
      obtain xs where xs: "takes n r xs" "read_effect handed (as_pending a) (a1, d) xs s'"
        using conjunct1 [OF eff] True t(2) unfolding t(1) fst_conv snd_conv by blast
      then obtain ps where "handed (snd s') = handed d @ ps" "xs @ as_pending (fst s') = as_pending a @ packet_stream ps"
        by (auto simp: read_effect_def)
      moreover have "sampled (fst s') = sampled a + of_nat (length xs)"
        using xs(2) a1(2) c by (simp add: read_effect_def)
      ultimately show ?thesis
        using xs s by (auto simp: read_effect_def)
    next
      case False
      then have c: "c = n" by (simp add: c_def)
      then have "r = Inr (take n (as_pending a))" "s' = (a1, d)"
        using eff False by simp_all
      then show ?thesis
        using False a1 c s l by (intro exI [of _ "take n (as_pending a)"] exI [of _ "[]"])
          (simp add: packet_stream_def takes_def)
    qed
  qed
qed

section \<open>Initialisation\<close>

lemma flush_pending:
  "iim42352_fifo_flush bus (a, d) = (ret, a', d') \<Longrightarrow>
    as_pending a' = as_pending a \<and> sampled a' = sampled a"
  by (auto simp: iim42352_fifo_flush_def sampled_def Let_def split: prod.splits if_splits)

lemma run_steps_pending:
  assumes "run_steps fs (a, d) = (ret, a', d')"
    and "\<forall>f\<in>set fs. \<forall>a d ret a' d'. f (a, d) = (ret, a', d') \<longrightarrow>
      as_pending a' = as_pending a \<and> sampled a' = sampled a"
  shows "as_pending a' = as_pending a \<and> sampled a' = sampled a"
  using assms
proof (induction fs arbitrary: a d)
  case (Cons f fs)
  obtain r a1 d1 where f: "f (a, d) = (r, a1, d1)"
    using prod_cases3 by blast
  then have k: "as_pending a1 = as_pending a" "sampled a1 = sampled a"
    using Cons.prems(2) by (meson list.set_intros(1))+
  show ?case
  proof (cases "r = 0")
    case True
    then show ?thesis
      using Cons.IH [of a1 d1] Cons.prems f k by simp
  next
    case False
    then show ?thesis
      using Cons.prems(1) f k by simp
  qed
qed simp

lemma on_bus_keeps: "on_bus f (a, d) = (ret, a', d') \<Longrightarrow> a' = a"
  by (auto simp: on_bus_def split: prod.splits)

lemma init_steps_keep:
  "\<forall>f\<in>set (init_steps bus). \<forall>a d ret a' d'. f (a, d) = (ret, a', d') \<longrightarrow>
     as_pending a' = as_pending a \<and> sampled a' = sampled a"
  by (auto simp: init_steps_def dest!: on_bus_keeps dest: flush_pending)

lemma adc_init_clears:
  assumes "adc_sampler_init bus s0 = (0, a, d)"
  shows "as_pending a = [] \<and> sampled a = 0"
proof -
  obtain a0 d0 where s0: "s0 = (a0, d0)" by (cases s0)
  let ?a = "a0\<lparr>as_stats := zero_adc_stats, as_irq_sem := False, as_pending := []\<rparr>"
  obtain r a1 d1 where rs: "run_steps (init_steps bus) (?a, d0) = (r, a1, d1)"
    using prod_cases3 by blast
  have "a = a1"
    using assms rs by (auto simp: adc_sampler_init_def s0 note_error_def Let_def split: prod.splits if_splits)
  then show ?thesis
    using run_steps_pending [OF rs init_steps_keep]
    by (simp add: sampled_def zero_adc_stats_def)
qed

section \<open>Properties\<close>

text \<open>
  Successive calls, each with the number of samples it asks for, and their results;
  \<open>None\<close> when one of them does not return.
\<close>

fun adc_calls ::
  "'d mems_bus \<Rightarrow> nat list \<Rightarrow> adc_sampler \<times> 'd \<Rightarrow> ((int + i16 list) list \<times> adc_sampler \<times> 'd) option" where
  "adc_calls bus [] s = Some ([], s)"
| "adc_calls bus (n # ns) s =
     (case adc_sampler_read_samples bus False n s of
        None \<Rightarrow> None
      | Some (r, s1) \<Rightarrow> (case adc_calls bus ns s1 of None \<Rightarrow> None | Some (rs, s2) \<Rightarrow> Some (r # rs, s2)))"

text \<open>One piece of the stream per call.\<close>

definition pieces_of :: "nat list \<Rightarrow> (int + i16 list) list \<Rightarrow> i16 list list \<Rightarrow> bool" where
  "pieces_of ns rs xss \<longleftrightarrow> length rs = length ns \<and> list_all2 (\<lambda>(n, r). takes n r) (zip ns rs) xss"

lemma adc_calls_effect:
  assumes "fifo_bus bus handed" "fifo_faults bus handed" "adc_calls bus ns s = Some (rs, s')"
    "length (as_pending (fst s)) \<le> 780"
  shows "\<exists>xss ps. pieces_of ns rs xss \<and> handed (snd s') = handed (snd s) @ ps \<and>
      concat xss @ as_pending (fst s') = as_pending (fst s) @ packet_stream ps \<and>
    length (as_pending (fst s')) \<le> 780 \<and> sampled (fst s') = sampled (fst s) + of_nat (length (concat xss))"
  using assms
proof (induction ns arbitrary: s rs)
  case (Cons n ns)
  obtain r s1 rs1 where r: "adc_sampler_read_samples bus False n s = Some (r, s1)"
      "adc_calls bus ns s1 = Some (rs1, s')" "rs = r # rs1"
    using Cons.prems(3) by (auto split: option.splits)
  obtain xs ps where one: "takes n r xs" "handed (snd s1) = handed (snd s) @ ps"
      "xs @ as_pending (fst s1) = as_pending (fst s) @ packet_stream ps"
      "length (as_pending (fst s1)) \<le> 780" "sampled (fst s1) = sampled (fst s) + of_nat (length xs)"
    using read_samples_effect [OF Cons.prems(1,2) r(1) Cons.prems(4)] by blast
  obtain xss qs where rest: "pieces_of ns rs1 xss" "handed (snd s') = handed (snd s1) @ qs"
      "concat xss @ as_pending (fst s') = as_pending (fst s1) @ packet_stream qs"
      "length (as_pending (fst s')) \<le> 780" "sampled (fst s') = sampled (fst s1) + of_nat (length (concat xss))"
    using Cons.IH [OF Cons.prems(1,2) r(2) one(4)] by blast
  have "concat (xs # xss) @ as_pending (fst s') = as_pending (fst s) @ packet_stream (ps @ qs)"
    using one(3) rest(3) by (simp add: packet_stream_append)
  then show ?case
    using one rest r(3) by (intro exI [of _ "xs # xss"] exI [of _ "ps @ qs"])
      (simp add: pieces_of_def ac_simps)
qed (auto simp: packet_stream_def pieces_of_def intro!: exI [of _ "[]"])

text \<open>
  C17. From a successful initialisation on, any sequence of calls cuts the stream of
  samples of the well-formed packets that the sensor handed out into consecutive
  pieces, one per call, with nothing lost, doubled or reordered between them whatever
  the sizes. The piece of a call that succeeds is what it returns, with the number asked
  for. A call that fails loses its piece, which is shorter than what it asked for: the
  samples it had copied before the error are not delivered again, although the
  capture counter, which is the total length of the pieces, has counted them. What is
  left of the stream is carried over and fits its array of 780.
\<close>

theorem adc_stream_exact:
  assumes "fifo_bus bus handed" "fifo_faults bus handed" "adc_sampler_init bus s0 = (0, s)"
    and "adc_calls bus ns s = Some (rs, a, d)"
  shows "\<exists>xss ps. pieces_of ns rs xss \<and> handed d = handed (snd s) @ ps \<and>
    concat xss @ as_pending a = packet_stream ps \<and>
    length (as_pending a) \<le> IIM42352_FIFO_MAX_SAMPLES \<and>
    samples_captured (adc_sampler_stats_get a) = of_nat (length (concat xss))"
proof -
  have i: "as_pending (fst s) = []" "sampled (fst s) = 0"
    using adc_init_clears [of bus s0 "fst s" "snd s"] assms(3) by simp_all
  from adc_calls_effect [OF assms(1,2,4)] i show ?thesis
    by (simp add: adc_sampler_stats_get_def IIM42352_FIFO_MAX_SAMPLES_def flip: sampled_def)
qed

section \<open>Returning\<close>

text \<open>
  The sensor delivers: from a state in \<open>ok\<close> the status read succeeds, the count reads
  announce one to 260 whole packets, and the burst read of them succeeds and brings
  at least one well-formed packet.
\<close>

definition fifo_ready :: "'d mems_bus \<Rightarrow> ('d \<Rightarrow> bool) \<Rightarrow> bool" where
  "fifo_ready bus ok \<longleftrightarrow> (\<forall>d. ok d \<longrightarrow>
     ok (snd (bus_wait bus d)) \<and>
     (\<exists>st d1 lo hi d2 d3 n x ps d4.
        bus_transceive bus [0xAD, 0] (snd (bus_wait bus d)) = (0, st, d1) \<and>
        bus_transceive bus [0xAF, 0] d1 = (0, lo, d2) \<and>
        bus_transceive bus [0xAE, 0] d2 = (0, hi, d3) \<and>
        0 < n \<and> n \<le> 260 \<and>
        (push_bit 8 (ucast (rx_byte hi 1)) OR ucast (rx_byte lo 1) :: u16) = of_nat (8 * n) \<and>
        bus_transceive bus (0xB0 # replicate (8 * n) 0) d3 = (0, x # concat ps, d4) \<and>
        length ps = n \<and> (\<forall>p\<in>set ps. length p = 8) \<and> (\<exists>p\<in>set ps. packet_valid p) \<and> ok d4))"

lemma packet_stream_nonempty: "\<exists>p\<in>set ps. packet_valid p \<Longrightarrow> packet_stream ps \<noteq> []"
  by (auto simp: packet_stream_def packet_samples_def filter_empty_conv)

lemma read_pass_delivers:
  assumes "fifo_ready bus ok" "ok d" "0 < room"
  shows "\<exists>new a' d'. read_pass bus room (a, d) = (Inr new, a', d') \<and> new \<noteq> [] \<and>
    length new \<le> room \<and> ok d'"
proof -
  obtain k d0 where w: "bus_wait bus d = (k, d0)" by (cases "bus_wait bus d")
  obtain st d1 lo hi d2 d3 n x ps d4 where f:
    "bus_transceive bus [0xAD, 0] d0 = (0, st, d1)" "bus_transceive bus [0xAF, 0] d1 = (0, lo, d2)"
    "bus_transceive bus [0xAE, 0] d2 = (0, hi, d3)" "0 < n" "n \<le> 260"
    "(push_bit 8 (ucast (rx_byte hi 1)) OR ucast (rx_byte lo 1) :: u16) = of_nat (8 * n)"
    "bus_transceive bus (0xB0 # replicate (8 * n) 0) d3 = (0, x # concat ps, d4)"
    "length ps = n" "\<forall>p\<in>set ps. length p = 8" "\<exists>p\<in>set ps. packet_valid p" "ok d4"
    using assms(1,2) w unfolding fifo_ready_def by (metis snd_conv)
  let ?len = "of_nat (8 * n) :: u16"
  have un: "unat ?len = 8 * n"
    using f(5) by (intro of_nat_unat_small) simp
  then have nz: "?len \<noteq> 0"
    using f(4) by (metis mult_is_0 neq0_conv unat_0 zero_neq_numeral)
  have count: "iim42352_fifo_count_get bus False d1 = (Inr ?len, d3)"
    using f(2,3,6) by (simp add: iim42352_fifo_count_get_def iim42352_read_reg_def)
  have rf: "\<exists>new a'. read_fifo bus room ?len (b, d3) = (Inr new, a', d4) \<and> new \<noteq> [] \<and> length new \<le> room"
    for b
  proof -
    let ?rx = "x # concat ps @ drop (length (x # concat ps)) (as_fifo_rx b)"
    let ?b = "map_adc_stats (\<lambda>st. st\<lparr>fifo_reads := fifo_reads st + 1\<rparr>) (b\<lparr>as_fifo_rx := ?rx\<rparr>)"
    have burst: "iim42352_fifo_burst_read bus ?len (b, d3) = (0, b\<lparr>as_fifo_rx := ?rx\<rparr>, d4)"
      using nz un f(5,7) by (simp add: iim42352_fifo_burst_read_def IIM42352_FIFO_MAX_BYTES_def)
    obtain parsed b2 where p: "parse_fifo_packets ?len ?b = (parsed, b2)"
      by (cases "parse_fifo_packets ?len ?b")
    have "parsed = packet_stream ps"
      using parse_fifo_stream [OF _ f(9) _ p, of x "drop (length (x # concat ps)) (as_fifo_rx b)"] un f(8)
      by simp
    then have "parsed \<noteq> []"
      using packet_stream_nonempty f(10) by simp
    then show ?thesis
      using nz un f(5) burst p assms(3)
      by (simp add: read_fifo_def wire_const min_def del: of_nat_mult)
  qed
  show ?thesis
    using w f(1,11) count rf
    by (auto simp: read_pass_def iim42352_read_reg_def Let_def split: prod.split) blast+
qed

lemma read_loop_returns:
  assumes "fifo_ready bus ok" "ok (snd s)" "length produced \<le> n"
  shows "\<exists>xs s'. read_loop bus n produced s = Some (Inr xs, s') \<and> length xs = n \<and> ok (snd s')"
  using assms(2,3)
proof (induction "n - length produced" arbitrary: produced s rule: less_induct)
  case less
  show ?case
  proof (cases "length produced < n")
    case True
    obtain new a' d' where p: "read_pass bus (n - length produced) (fst s, snd s) = (Inr new, a', d')"
        "new \<noteq> []" "length new \<le> n - length produced" "ok d'"
      using read_pass_delivers [OF assms(1) less.prems(1), of "n - length produced" "fst s"] True by auto
    have "\<exists>xs s'. read_loop bus n (produced @ new) (a', d') = Some (Inr xs, s') \<and> length xs = n \<and> ok (snd s')"
      using p True by (intro less.hyps) (auto simp: neq_Nil_conv)
    then show ?thesis
      using p(1) True by (subst read_loop.simps) simp
  next
    case False
    then show ?thesis
      using less.prems by (subst read_loop.simps) simp
  qed
qed

text \<open>
  C38. While the sensor delivers, every call for a positive number of samples
  returns, successfully and with exactly that number, and leaves the sensor
  delivering: the polling loop cannot spin for ever.
\<close>

theorem adc_read_returns:
  assumes "fifo_ready bus ok" "ok d" "0 < n"
  shows "\<exists>xs a' d'. adc_sampler_read_samples bus False n (a, d) = Some (Inr xs, a', d') \<and>
    length xs = n \<and> ok d'"
proof -
  define c where "c = min n (length (as_pending a))"
  define a1 where "a1 = (if 0 < length (as_pending a)
    then (map_adc_stats (\<lambda>st. st\<lparr>samples_captured := samples_captured st + of_nat c\<rparr>) a)
           \<lparr>as_pending := drop c (as_pending a)\<rparr> else a)"
  have "adc_sampler_read_samples bus False n (a, d) = read_loop bus n (take c (as_pending a)) (a1, d)"
    using assms(3) unfolding a1_def c_def adc_sampler_read_samples_def Let_def by simp
  moreover have "length (take c (as_pending a)) \<le> n"
    by (simp add: c_def)
  ultimately show ?thesis
    using read_loop_returns [OF assms(1), of "(a1, d)" "take c (as_pending a)" n] assms(2) by auto
qed

section \<open>A sensor for the witnesses\<close>

text \<open>
  A sensor that numbers its packets, hands out two at every poll and garbles every
  third one; its state is the number handed out.
\<close>

definition test_packet :: "nat \<Rightarrow> u8 list" where
  "test_packet k = [if k mod 3 = 2 then 0 else 0x40, 0, of_nat k, 1, of_nat k, 2, of_nat k, 0]"

definition test_bus :: "nat mems_bus" where
  "test_bus = \<lparr>bus_ready = \<lambda>_. (True, True),
     bus_transceive = \<lambda>tx d.
       (let n = (length tx - 1) div 8
        in if hd tx = 0xB0 then (0, 0 # concat (map test_packet [d..<d + n]), d + n)
           else (0, [0, if hd tx = 0xF5 then 0x6d else if hd tx = 0xAF then 16 else 0], d)),
     bus_write = \<lambda>_ d. (0, d), bus_gpio = \<lambda>_ d. (0, d), bus_wait = \<lambda>d. (1, d), bus_sleep = \<lambda>_ d. d\<rparr>"

definition blank_sampler :: adc_sampler where
  "blank_sampler = \<lparr>as_stats = zero_adc_stats, as_irq_sem = False,
     as_fifo_rx = replicate 2081 0, as_pending = []\<rparr>"

lemma length_test_packets: "length (concat (map test_packet [d..<d + n])) = 8 * n"
  by (induction n) (auto simp: test_packet_def)

lemma test_fifo_bus: "fifo_bus test_bus (\<lambda>d. map test_packet [0..<d])"
  unfolding fifo_bus_def
proof (intro conjI allI impI)
  fix tx :: "u8 list" and d d' :: nat and rx
  assume t: "bus_transceive test_bus tx d = (0, rx, d')"
  then show "map test_packet [0..<d'] = map test_packet [0..<d]" if "hd tx \<noteq> 0xB0"
    using that by (simp add: test_bus_def Let_def)
  show "\<exists>x ps. rx = x # concat ps \<and> (\<forall>p\<in>set ps. length p = 8) \<and> length rx = length tx \<and>
      map test_packet [0..<d'] = map test_packet [0..<d] @ ps"
    if h: "hd tx = 0xB0 \<and> tx \<noteq> [] \<and> 8 dvd length tx - 1"
  proof -
    let ?n = "(length tx - 1) div 8"
    have e: "rx = 0 # concat (map test_packet [d..<d + ?n])" "d' = d + ?n"
      using t h by (auto simp: test_bus_def Let_def)
    have "length rx = length tx"
      using h length_test_packets [of d ?n] by (simp add: e(1))
    then show ?thesis
      using e by (intro exI [of _ 0] exI [of _ "map test_packet [d..<d + ?n]"])
        (auto simp: test_packet_def upt_add_eq_append [of 0 d] simp flip: map_append)
  qed
qed (simp_all add: test_bus_def)

lemma test_fifo_ready: "fifo_ready test_bus (\<lambda>_. True)"
  unfolding fifo_ready_def
proof (intro allI impI conjI)
  fix d :: nat
  let ?ps = "map test_packet [d..<d + 2]"
  have "packet_valid (test_packet d) \<or> packet_valid (test_packet (Suc d))"
  proof (cases "d mod 3 = 2")
    case True
    then have "Suc d mod 3 \<noteq> 2" by (simp add: mod_Suc)
    then show ?thesis
      by (simp add: packet_valid_def rx_byte_def test_packet_def)
  qed (simp add: packet_valid_def rx_byte_def test_packet_def)
  then have v: "\<exists>p\<in>set ?ps. packet_valid p"
    by (auto simp: upt_rec)
  show "\<exists>st d1 lo hi d2 d3 n x ps d4.
      bus_transceive test_bus [0xAD, 0] (snd (bus_wait test_bus d)) = (0, st, d1) \<and>
      bus_transceive test_bus [0xAF, 0] d1 = (0, lo, d2) \<and>
      bus_transceive test_bus [0xAE, 0] d2 = (0, hi, d3) \<and> 0 < n \<and> n \<le> 260 \<and>
      (push_bit 8 (ucast (rx_byte hi 1)) OR ucast (rx_byte lo 1) :: u16) = of_nat (8 * n) \<and>
      bus_transceive test_bus (0xB0 # replicate (8 * n) 0) d3 = (0, x # concat ps, d4) \<and>
      length ps = n \<and> (\<forall>p\<in>set ps. length p = 8) \<and> (\<exists>p\<in>set ps. packet_valid p) \<and> True"
    by (rule exI [of _ "[0, 0]"], rule exI [of _ d], rule exI [of _ "[0, 16]"], rule exI [of _ "[0, 0]"],
        rule exI [of _ d], rule exI [of _ d], rule exI [of _ "2 :: nat"], rule exI [of _ 0],
        rule exI [of _ ?ps], rule exI [of _ "d + 2"])
      (use v in \<open>auto simp: test_bus_def rx_byte_def test_packet_def\<close>)
qed simp

lemma adc_read_returns_witness:
  "\<exists>xs a' d'. adc_sampler_read_samples test_bus False 100 (blank_sampler, 0) = Some (Inr xs, a', d') \<and>
    length xs = 100"
  using adc_read_returns [OF test_fifo_ready, where d = 0 and n = 100 and a = blank_sampler] by simp

text \<open>The sensor behind a bus whose burst reads fail once four packets are out.\<close>

definition faulty_bus :: "nat mems_bus" where
  "faulty_bus = test_bus\<lparr>bus_transceive :=
     (\<lambda>tx d. if hd tx = 0xB0 \<and> d = 4 then (- EIO, [], d) else bus_transceive test_bus tx d)\<rparr>"

lemma faulty_fifo_bus:
  "fifo_bus faulty_bus (\<lambda>d. map test_packet [0..<d])" "fifo_faults faulty_bus (\<lambda>d. map test_packet [0..<d])"
proof -
  have other: "bus_write faulty_bus = bus_write test_bus" "bus_wait faulty_bus = bus_wait test_bus"
    "bus_sleep faulty_bus = bus_sleep test_bus"
    by (simp_all add: faulty_bus_def)
  have same: "bus_transceive faulty_bus tx d = (0, rx, d') \<Longrightarrow> bus_transceive test_bus tx d = (0, rx, d')" for tx d rx d'
    by (simp add: faulty_bus_def split: if_splits)
  show "fifo_bus faulty_bus (\<lambda>d. map test_packet [0..<d])"
    using test_fifo_bus same unfolding fifo_bus_def other by blast
  show "fifo_faults faulty_bus (\<lambda>d. map test_packet [0..<d])"
    by (auto simp: fifo_faults_def faulty_bus_def test_bus_def Let_def split: if_splits)
qed

lemma test_calls:
  "fst (adc_sampler_init faulty_bus (blank_sampler, 0)) = 0 \<and>
   snd (snd (adc_sampler_init faulty_bus (blank_sampler, 0))) = 0 \<and>
   map_option (\<lambda>(rs, s). map (map_sum id length) rs)
     (adc_calls faulty_bus [5, 9] (snd (adc_sampler_init faulty_bus (blank_sampler, 0)))) = Some [Inr 5, Inl (- EIO)]"
  by code_simp

text \<open>
  Five samples, which end in the middle of a packet, and then a call that fails after it
  has copied some.
\<close>

lemma adc_stream_exact_witness:
  "\<exists>rs xss a d. adc_calls faulty_bus [5, 9] (snd (adc_sampler_init faulty_bus (blank_sampler, 0))) = Some (rs, a, d) \<and>
     map (map_sum id length) rs = [Inr 5, Inl (- EIO)] \<and> pieces_of [5, 9] rs xss \<and>
     concat xss @ as_pending a = packet_stream (map test_packet [0..<d])"
proof -
  let ?s = "snd (adc_sampler_init faulty_bus (blank_sampler, 0))"
  obtain rs a d where r: "adc_calls faulty_bus [5, 9] ?s = Some (rs, a, d)"
    "map (map_sum id length) rs = [Inr 5, Inl (- EIO)]"
    using test_calls by auto
  have i: "adc_sampler_init faulty_bus (blank_sampler, 0) = (0, ?s)" "snd ?s = 0"
    using test_calls by (metis prod.collapse)+
  show ?thesis
    using adc_stream_exact [OF faulty_fifo_bus i(1) r(1)] i(2) r by auto
qed

end
