(* ===== verification/Mems_Batch.thy ===== *)
theory Mems_Batch
  imports Bytes Wire_Formats
begin

text \<open>
  \<open>rf_link_tx/src/mems_batch.h\<close>: the batch record in the memory shared by the two
  cores of the transmitter, its two slots, and the descriptor that travels between
  the cores. A slot address is the devicetree node it belongs to.
\<close>

definition RF_LINK_MEMS_BATCH_MAGIC :: u32 where
  [wire_const]: "RF_LINK_MEMS_BATCH_MAGIC = 0x4d424154"
definition RF_LINK_MEMS_BATCH_VERSION :: u32 where
  [wire_const]: "RF_LINK_MEMS_BATCH_VERSION = 1"
definition RF_LINK_MEMS_BATCH_SAMPLE_COUNT :: nat where
  [wire_const]: "RF_LINK_MEMS_BATCH_SAMPLE_COUNT = 4096"
definition RF_LINK_MEMS_BATCH_SLOT_COUNT :: u32 where
  [wire_const]: "RF_LINK_MEMS_BATCH_SLOT_COUNT = 2"
definition RF_LINK_IPC_MAGIC :: u32 where [wire_const]: "RF_LINK_IPC_MAGIC = 0x52464950"
definition RF_LINK_IPC_VERSION :: u32 where [wire_const]: "RF_LINK_IPC_VERSION = 1"
definition RF_LINK_IPC_BATCH_READY :: u32 where [wire_const]: "RF_LINK_IPC_BATCH_READY = 1"
definition RF_LINK_IPC_BATCH_RELEASE :: u32 where [wire_const]: "RF_LINK_IPC_BATCH_RELEASE = 2"

record rf_link_mems_batch =
  mb_magic :: u32
  mb_version :: u32
  mb_slot_index :: u32
  mb_batch_seq :: u32
  mb_sample_count :: u32
  mb_capture_start_ms :: u32
  mb_capture_end_ms :: u32
  mb_sample_crc32 :: u32
  mb_samples :: "i16 list"

record rf_link_ipc_message =
  im_magic :: u32
  im_version :: u32
  im_type :: u32
  im_slot_index :: u32
  im_batch_seq :: u32
  im_sample_count :: u32
  im_sample_crc32 :: u32

datatype mems_slot = MEMS_SLOT0 | MEMS_SLOT1

type_synonym shared_memory = "mems_slot \<Rightarrow> rf_link_mems_batch"

definition rf_link_mems_batch_slot :: "u32 \<Rightarrow> mems_slot option" where
  [op_defs]: "rf_link_mems_batch_slot index =
     (if index = 0 then Some MEMS_SLOT0 else if index = 1 then Some MEMS_SLOT1 else None)"

definition ipc_message_bytes :: "rf_link_ipc_message \<Rightarrow> u8 list" where
  "ipc_message_bytes m = le32 (im_magic m) @ le32 (im_version m) @ le32 (im_type m) @
     le32 (im_slot_index m) @ le32 (im_batch_seq m) @ le32 (im_sample_count m) @ le32 (im_sample_crc32 m)"

definition ipc_message_of_bytes :: "u8 list \<Rightarrow> rf_link_ipc_message" where
  "ipc_message_of_bytes bs = \<lparr>im_magic = field bs 0 4, im_version = field bs 4 4,
     im_type = field bs 8 4, im_slot_index = field bs 12 4, im_batch_seq = field bs 16 4,
     im_sample_count = field bs 20 4, im_sample_crc32 = field bs 24 4\<rparr>"

definition IPC_MESSAGE_SIZE :: nat where [wire_const]: "IPC_MESSAGE_SIZE = 28"

lemma length_ipc_message_bytes [simp]: "length (ipc_message_bytes m) = 28"
  by (simp add: ipc_message_bytes_def)

lemma ipc_message_of_bytes_bytes [simp]: "ipc_message_of_bytes (ipc_message_bytes m) = m"
  by (simp add: ipc_message_of_bytes_def ipc_message_bytes_def)

text \<open>The two slots lie at different addresses and every legal index has one.\<close>

lemma mems_batch_slot_iff:
  "rf_link_mems_batch_slot i \<noteq> None \<longleftrightarrow> i < RF_LINK_MEMS_BATCH_SLOT_COUNT"
proof -
  have "i < 2 \<longleftrightarrow> i = 0 \<or> i = 1"
    by (auto simp: word_less_nat_alt word_unat_eq_iff less_2_cases_iff)
  then show ?thesis
    by (simp add: rf_link_mems_batch_slot_def RF_LINK_MEMS_BATCH_SLOT_COUNT_def)
qed

lemma mems_batch_slot_inj:
  "rf_link_mems_batch_slot i = Some s \<Longrightarrow> rf_link_mems_batch_slot j = Some s \<Longrightarrow> i = j"
  by (auto simp: rf_link_mems_batch_slot_def split: if_splits)

end
