(* ===== verification/Ipc_Endpoint.thy ===== *)
theory Ipc_Endpoint
  imports Mems_Batch Kernel
begin

text \<open>
  What the two ends of the ICMsg link share: the sending loop of
  \<open>ipc_tx_publish_batch\<close> and \<open>ipc_bridge_release_batch\<close>. The IPC service is a
  parameter: a loop gets the list of what successive calls of \<open>ipc_service_send\<close>
  return, each with whether the deadline has passed after it.
\<close>

definition send_accepted :: "int \<Rightarrow> bool" where
  "send_accepted ret \<longleftrightarrow> ret = 0 \<or> ret = int IPC_MESSAGE_SIZE"

definition send_retryable :: "int \<Rightarrow> bool" where
  "send_retryable ret \<longleftrightarrow> ret = - ENOMEM \<or> ret = - EAGAIN \<or> ret = - EBUSY \<or> ret = - ENOBUFS"

text \<open>
  \<open>Some (ret, retries)\<close>: the loop ended with \<open>Inr ()\<close> (the message was accepted) or
  with an error, after \<open>retries\<close> retryable refusals. \<open>None\<close>: it is still trying when
  the list ends.
\<close>

fun send_loop :: "bool \<Rightarrow> (int \<times> bool) list \<Rightarrow> nat \<Rightarrow> ((int + unit) \<times> nat) option" where
  "send_loop forever [] retries = None"
| "send_loop forever ((ret, expired) # calls) retries =
     (if send_accepted ret then Some (Inr (), retries)
      else if \<not> send_retryable ret then Some (Inl ret, retries)
      else if forever \<or> \<not> expired then send_loop forever calls (retries + 1)
      else Some (Inl ret, retries + 1))"

text \<open>A finite deadline ends the loop: one expired answer is enough.\<close>

lemma send_loop_ends:
  "\<exists>c\<in>set calls. snd c \<Longrightarrow> send_loop False calls retries \<noteq> None"
proof (induction calls arbitrary: retries)
  case (Cons c calls)
  have "send_loop False calls (retries + 1) \<noteq> None" if "\<not> snd c"
    using Cons that by (intro Cons.IH) auto
  then show ?case
    by (cases c) auto
qed simp

lemma send_loop_error: "send_loop forever calls retries = Some (Inl e, k) \<Longrightarrow> e \<noteq> 0"
proof (induction calls arbitrary: retries)
  case (Cons c calls)
  then show ?case
    by (cases c) (auto simp: send_accepted_def split: if_splits)
qed simp

lemma send_loop_accepts:
  "send_loop forever calls retries = Some (Inr (), k) \<Longrightarrow> \<exists>c\<in>set calls. send_accepted (fst c)"
proof (induction calls arbitrary: retries)
  case (Cons c calls)
  then show ?case
    by (cases c) (auto split: if_splits)
qed simp

end
