(* ===== verification/Ipc_Tx.thy ===== *)
theory Ipc_Tx
  imports Ipc_Endpoint
begin

text \<open>
  \<open>flpr_app/src/ipc_tx.c\<close>: the sensor core's end of the link, which owns the queue of
  free slots. \<open>mq\<close> is the kernel's message queue; the semaphore, the per-slot arrays
  and the counters are the state.
\<close>

record ipc_tx_stats =
  its_sent :: u32
  its_busy :: u32
  its_failed :: u32
  its_released :: u32
  its_bad_release :: u32
  its_slot_waits :: u32

record 'q ipc_tx =
  it_bound :: bool
  it_free :: 'q
  it_slot_batch_seq :: "u32 list"
  it_slot_inflight :: "bool list"
  it_stats :: ipc_tx_stats

definition zero_ipc_tx_stats :: ipc_tx_stats where
  "zero_ipc_tx_stats = \<lparr>its_sent = 0, its_busy = 0, its_failed = 0, its_released = 0,
     its_bad_release = 0, its_slot_waits = 0\<rparr>"

definition map_it_stats :: "(ipc_tx_stats \<Rightarrow> ipc_tx_stats) \<Rightarrow> 'q ipc_tx \<Rightarrow> 'q ipc_tx" where
  "map_it_stats f t = t\<lparr>it_stats := f (it_stats t)\<rparr>"

definition bad_release_inc :: "'q ipc_tx \<Rightarrow> 'q ipc_tx" where
  "bad_release_inc = map_it_stats (\<lambda>s. s\<lparr>its_bad_release := its_bad_release s + 1\<rparr>)"

definition tx_bound :: "'q ipc_tx \<Rightarrow> 'q ipc_tx" where
  [op_defs]: "tx_bound t = t\<lparr>it_bound := True\<rparr>"

definition tx_received :: "(u32, 'q) msgq_ops \<Rightarrow> u8 list option \<Rightarrow> 'q ipc_tx \<Rightarrow> 'q ipc_tx" where
  [op_defs]: "tx_received mq dp t =
     (case dp of
        None \<Rightarrow> bad_release_inc t
      | Some data \<Rightarrow>
          if length data \<noteq> IPC_MESSAGE_SIZE then bad_release_inc t
          else
            let message = ipc_message_of_bytes data; slot = im_slot_index message
            in if im_magic message \<noteq> RF_LINK_IPC_MAGIC \<or> im_version message \<noteq> RF_LINK_IPC_VERSION \<or>
                 im_type message \<noteq> RF_LINK_IPC_BATCH_RELEASE \<or>
                 \<not> slot < RF_LINK_MEMS_BATCH_SLOT_COUNT \<or>
                 \<not> it_slot_inflight t ! unat slot \<or>
                 it_slot_batch_seq t ! unat slot \<noteq> im_batch_seq message
               then bad_release_inc t
               else
                 let t1 = t\<lparr>it_slot_inflight := (it_slot_inflight t)[unat slot := False]\<rparr>;
                     (ret, q) = msgq_put mq slot (it_free t1);
                     t2 = t1\<lparr>it_free := q\<rparr>
                 in if ret = 0
                    then map_it_stats (\<lambda>s. s\<lparr>its_released := its_released s + 1\<rparr>) t2
                    else bad_release_inc t2)"

text \<open>The loop of \<open>ipc_tx_init\<close> over the slots.\<close>

fun free_slots :: "(u32, 'q) msgq_ops \<Rightarrow> u32 list \<Rightarrow> 'q ipc_tx \<Rightarrow> int \<times> 'q ipc_tx" where
  "free_slots mq [] t = (0, t)"
| "free_slots mq (slot # slots) t =
     (let t1 = t\<lparr>it_slot_batch_seq := (it_slot_batch_seq t)[unat slot := 0],
                 it_slot_inflight := (it_slot_inflight t)[unat slot := False]\<rparr>;
          (ret, q) = msgq_put mq slot (it_free t1)
      in if ret \<noteq> 0 then (ret, t1\<lparr>it_free := q\<rparr>) else free_slots mq slots (t1\<lparr>it_free := q\<rparr>))"

definition ipc_tx_init ::
  "(u32, 'q) msgq_ops \<Rightarrow> bool \<Rightarrow> int \<Rightarrow> int \<Rightarrow> 'q ipc_tx \<Rightarrow> int \<times> 'q ipc_tx" where
  [op_defs]: "ipc_tx_init mq dev_ready open_ret register_ret t =
     (if \<not> dev_ready then (- ENODEV, t)
      else
        let (ret, t1) = free_slots mq [0, 1] (t\<lparr>it_free := msgq_purge mq (it_free t)\<rparr>)
        in if ret \<noteq> 0 then (ret, t1)
           else
             let t2 = t1\<lparr>it_stats := zero_ipc_tx_stats\<rparr>
             in if open_ret < 0 \<and> open_ret \<noteq> - EALREADY then (open_ret, t2) else (register_ret, t2))"

text \<open>\<open>k_sem_take\<close> of the bound semaphore, once it is given or the wait is over.\<close>

definition ipc_tx_wait_bound :: "'q ipc_tx \<Rightarrow> int \<times> 'q ipc_tx" where
  [op_defs]: "ipc_tx_wait_bound t = (if it_bound t then (0, t\<lparr>it_bound := False\<rparr>) else (- EAGAIN, t))"

text \<open>\<open>waiting\<close> is what the callbacks make of the state while the second get waits.\<close>

definition ipc_tx_acquire_slot ::
  "(u32, 'q) msgq_ops \<Rightarrow> bool \<Rightarrow> bool \<Rightarrow> ('q ipc_tx \<Rightarrow> 'q ipc_tx) \<Rightarrow> 'q ipc_tx \<Rightarrow> (int + u32) \<times> 'q ipc_tx" where
  [op_defs]: "ipc_tx_acquire_slot mq slot_null no_wait waiting t =
     (if slot_null then (Inl (- EINVAL), t)
      else
        let (r, q) = msgq_get mq (it_free t); t1 = t\<lparr>it_free := q\<rparr>
        in case r of
             Inr slot \<Rightarrow> (Inr slot, t1)
           | Inl e \<Rightarrow>
               if no_wait then (Inl e, t1)
               else
                 let t2 = waiting (map_it_stats (\<lambda>s. s\<lparr>its_slot_waits := its_slot_waits s + 1\<rparr>) t1);
                     (r', q') = msgq_get mq (it_free t2)
                 in (r', t2\<lparr>it_free := q'\<rparr>))"

definition ready_message :: "u32 \<Rightarrow> u32 \<Rightarrow> u32 \<Rightarrow> rf_link_ipc_message" where
  "ready_message slot batch_seq crc = \<lparr>im_magic = RF_LINK_IPC_MAGIC, im_version = RF_LINK_IPC_VERSION,
     im_type = RF_LINK_IPC_BATCH_READY, im_slot_index = slot, im_batch_seq = batch_seq,
     im_sample_count = of_nat RF_LINK_MEMS_BATCH_SAMPLE_COUNT, im_sample_crc32 = crc\<rparr>"

text \<open>The value returned, and the bytes the IPC service took over, if any.\<close>

definition ipc_tx_publish_batch ::
  "(u32, 'q) msgq_ops \<Rightarrow> u32 \<Rightarrow> u32 \<Rightarrow> u32 \<Rightarrow> bool \<Rightarrow> (int \<times> bool) list \<Rightarrow> 'q ipc_tx \<Rightarrow>
   (int \<times> u8 list option \<times> 'q ipc_tx) option" where
  [op_defs]: "ipc_tx_publish_batch mq slot batch_seq crc forever calls t =
     (if \<not> slot < RF_LINK_MEMS_BATCH_SLOT_COUNT then Some (- EINVAL, None, t)
      else
        let t1 = t\<lparr>it_slot_batch_seq := (it_slot_batch_seq t)[unat slot := batch_seq],
                   it_slot_inflight := (it_slot_inflight t)[unat slot := True]\<rparr>
        in case send_loop forever calls 0 of
             None \<Rightarrow> None
           | Some (Inr _, k) \<Rightarrow>
               Some (0, Some (ipc_message_bytes (ready_message slot batch_seq crc)),
                 map_it_stats (\<lambda>s. s\<lparr>its_busy := its_busy s + of_nat k, its_sent := its_sent s + 1\<rparr>) t1)
           | Some (Inl ret, k) \<Rightarrow>
               let t2 = t1\<lparr>it_slot_inflight := (it_slot_inflight t1)[unat slot := False],
                           it_free := snd (msgq_put mq slot (it_free t1))\<rparr>
               in Some (ret, None,
                    map_it_stats (\<lambda>s. s\<lparr>its_busy := its_busy s + of_nat k, its_failed := its_failed s + 1\<rparr>)
                      t2))"

definition ipc_tx_stats_get :: "'q ipc_tx \<Rightarrow> ipc_tx_stats" where
  [op_defs]: "ipc_tx_stats_get t = it_stats t"

lemma map_it_stats_simps [simp]:
  "it_free (map_it_stats f t) = it_free t" "it_slot_inflight (map_it_stats f t) = it_slot_inflight t"
  "it_slot_batch_seq (map_it_stats f t) = it_slot_batch_seq t" "it_stats (map_it_stats f t) = f (it_stats t)"
  by (simp_all add: map_it_stats_def)

end
