(* ===== verification/Lp_Trace.thy ===== *)
theory Lp_Trace
  imports Prelude
begin

text \<open>
  \<open>rf_link_tx/src/lp_trace.h\<close>: the trace record in retained memory through which the
  FLPR core shows its progress to the application core. \<open>now\<close> is
  \<open>k_uptime_get_32()\<close>; the memory is the record, which survives a warm reset.
\<close>

definition RF_LINK_LP_TRACE_MAGIC :: u32 where [wire_const]: "RF_LINK_LP_TRACE_MAGIC = 0x4c505452"
definition RF_LINK_LP_TRACE_VERSION :: u32 where [wire_const]: "RF_LINK_LP_TRACE_VERSION = 2"

datatype rf_link_lp_stage =
  RF_LINK_LP_STAGE_RESET | RF_LINK_LP_STAGE_BOOT | RF_LINK_LP_STAGE_IPC_READY
| RF_LINK_LP_STAGE_IPC_BOUND | RF_LINK_LP_STAGE_SENSOR_READY | RF_LINK_LP_STAGE_FILLING_BATCH
| RF_LINK_LP_STAGE_BATCH_READY

fun lp_stage_value :: "rf_link_lp_stage \<Rightarrow> u32" where
  "lp_stage_value RF_LINK_LP_STAGE_RESET = 0"
| "lp_stage_value RF_LINK_LP_STAGE_BOOT = 1"
| "lp_stage_value RF_LINK_LP_STAGE_IPC_READY = 2"
| "lp_stage_value RF_LINK_LP_STAGE_IPC_BOUND = 3"
| "lp_stage_value RF_LINK_LP_STAGE_SENSOR_READY = 4"
| "lp_stage_value RF_LINK_LP_STAGE_FILLING_BATCH = 5"
| "lp_stage_value RF_LINK_LP_STAGE_BATCH_READY = 6"

record rf_link_lp_trace =
  lp_magic :: u32
  lp_version :: u32
  lp_boot_count :: u32
  lp_fatal_count :: u32
  lp_stage :: u32
  lp_loop_count :: u32
  lp_last_seq :: u32
  lp_last_uptime_ms :: u32
  lp_fatal_reason :: u32
  lp_last_send_ret :: i32
  lp_ipc_sent :: u32
  lp_ipc_busy :: u32
  lp_ipc_failed :: u32
  lp_ipc_released :: u32
  lp_ipc_bad_release :: u32
  lp_sensor_irq_count :: u32
  lp_sensor_poll_fallbacks :: u32
  lp_sensor_fifo_packets :: u32
  lp_sensor_samples :: u32
  lp_sensor_malformed :: u32
  lp_sensor_io_errors :: u32
  lp_batches_ready :: u32
  lp_last_slot :: u32
  lp_fifo_overflows :: u32
  lp_slot_waits :: u32

definition lp_trace_valid :: "rf_link_lp_trace \<Rightarrow> bool" where
  "lp_trace_valid t \<longleftrightarrow> lp_magic t = RF_LINK_LP_TRACE_MAGIC \<and> lp_version t = RF_LINK_LP_TRACE_VERSION"

definition rf_link_lp_trace_boot :: "u32 \<Rightarrow> rf_link_lp_trace \<Rightarrow> rf_link_lp_trace" where
  [op_defs]: "rf_link_lp_trace_boot now t =
     (let boot_count = (if lp_trace_valid t then lp_boot_count t + 1 else 1)
      in t\<lparr>lp_magic := RF_LINK_LP_TRACE_MAGIC, lp_version := RF_LINK_LP_TRACE_VERSION,
           lp_boot_count := boot_count,
           lp_fatal_count := (if boot_count = 1 then 0 else lp_fatal_count t),
           lp_stage := lp_stage_value RF_LINK_LP_STAGE_BOOT, lp_last_uptime_ms := now,
           lp_loop_count := 0, lp_last_seq := 0, lp_fatal_reason := 0, lp_last_send_ret := 0,
           lp_ipc_sent := 0, lp_ipc_busy := 0, lp_ipc_failed := 0, lp_ipc_released := 0,
           lp_ipc_bad_release := 0, lp_sensor_irq_count := 0, lp_sensor_poll_fallbacks := 0,
           lp_sensor_fifo_packets := 0, lp_sensor_samples := 0, lp_sensor_malformed := 0,
           lp_sensor_io_errors := 0, lp_batches_ready := 0, lp_last_slot := 0, lp_fifo_overflows
           := 0, lp_slot_waits := 0\<rparr>)"

definition rf_link_lp_trace_set_stage ::
  "rf_link_lp_stage \<Rightarrow> u32 \<Rightarrow> rf_link_lp_trace \<Rightarrow> rf_link_lp_trace" where
  [op_defs]: "rf_link_lp_trace_set_stage stage now t =
     t\<lparr>lp_stage := lp_stage_value stage, lp_last_uptime_ms := now\<rparr>"

definition rf_link_lp_trace_note_loop :: "u32 \<Rightarrow> u32 \<Rightarrow> rf_link_lp_trace \<Rightarrow> rf_link_lp_trace" where
  [op_defs]: "rf_link_lp_trace_note_loop seq now t =
     t\<lparr>lp_stage := lp_stage_value RF_LINK_LP_STAGE_FILLING_BATCH, lp_loop_count := lp_loop_count t + 1,
       lp_last_seq := seq, lp_last_uptime_ms := now\<rparr>"

definition rf_link_lp_trace_note_ipc ::
  "u32 \<Rightarrow> u32 \<Rightarrow> u32 \<Rightarrow> u32 \<Rightarrow> u32 \<Rightarrow> u32 \<Rightarrow> i32 \<Rightarrow> u32 \<Rightarrow>
   rf_link_lp_trace \<Rightarrow> rf_link_lp_trace" where
  [op_defs]: "rf_link_lp_trace_note_ipc sent busy failed released bad_release slot_waits last_ret now t =
     t\<lparr>lp_ipc_sent := sent, lp_ipc_busy := busy, lp_ipc_failed := failed, lp_ipc_released := released,
       lp_ipc_bad_release := bad_release, lp_slot_waits := slot_waits, lp_last_send_ret := last_ret,
       lp_last_uptime_ms := now\<rparr>"

definition rf_link_lp_trace_note_sensor ::
  "u32 \<Rightarrow> u32 \<Rightarrow> u32 \<Rightarrow> u32 \<Rightarrow> u32 \<Rightarrow> u32 \<Rightarrow> u32 \<Rightarrow> u32 \<Rightarrow>
   rf_link_lp_trace \<Rightarrow> rf_link_lp_trace" where
  [op_defs]: "rf_link_lp_trace_note_sensor irqs polls packets samples malformed io_errors overflows now t =
     t\<lparr>lp_sensor_irq_count := irqs, lp_sensor_poll_fallbacks := polls, lp_sensor_fifo_packets := packets,
       lp_sensor_samples := samples, lp_sensor_malformed := malformed, lp_sensor_io_errors := io_errors,
       lp_fifo_overflows := overflows, lp_last_uptime_ms := now\<rparr>"

definition rf_link_lp_trace_note_batch ::
  "u32 \<Rightarrow> u32 \<Rightarrow> u32 \<Rightarrow> rf_link_lp_trace \<Rightarrow> rf_link_lp_trace" where
  [op_defs]: "rf_link_lp_trace_note_batch batch_seq slot_index now t =
     t\<lparr>lp_stage := lp_stage_value RF_LINK_LP_STAGE_BATCH_READY, lp_last_seq := batch_seq,
       lp_last_slot := slot_index, lp_batches_ready := lp_batches_ready t + 1, lp_last_uptime_ms := now\<rparr>"

definition rf_link_lp_trace_note_fatal :: "u32 \<Rightarrow> u32 \<Rightarrow> rf_link_lp_trace \<Rightarrow> rf_link_lp_trace" where
  [op_defs]: "rf_link_lp_trace_note_fatal reason now t =
     t\<lparr>lp_fatal_count := lp_fatal_count t + 1, lp_fatal_reason := reason, lp_last_uptime_ms := now\<rparr>"

text \<open>\<open>None\<close> for a null pointer (returns false), otherwise the copy and its validity.\<close>

definition rf_link_lp_trace_snapshot ::
  "bool \<Rightarrow> rf_link_lp_trace \<Rightarrow> rf_link_lp_trace option \<times> bool" where
  [op_defs]: "rf_link_lp_trace_snapshot out_null t =
     (if out_null then (None, False) else (Some t, lp_trace_valid t))"

section \<open>Life of the trace\<close>

text \<open>What the core does with the trace between two resets.\<close>

datatype lp_event =
  Lp_Boot u32
| Lp_Stage rf_link_lp_stage u32
| Lp_Loop u32 u32
| Lp_Batch u32 u32 u32
| Lp_Fatal u32 u32

fun lp_step :: "lp_event \<Rightarrow> rf_link_lp_trace \<Rightarrow> rf_link_lp_trace" where
  "lp_step (Lp_Boot now) = rf_link_lp_trace_boot now"
| "lp_step (Lp_Stage st now) = rf_link_lp_trace_set_stage st now"
| "lp_step (Lp_Loop seq now) = rf_link_lp_trace_note_loop seq now"
| "lp_step (Lp_Batch seq slot now) = rf_link_lp_trace_note_batch seq slot now"
| "lp_step (Lp_Fatal reason now) = rf_link_lp_trace_note_fatal reason now"

fun is_boot :: "lp_event \<Rightarrow> bool" where
  "is_boot (Lp_Boot _) = True"
| "is_boot _ = False"

fun is_fatal :: "lp_event \<Rightarrow> bool" where
  "is_fatal (Lp_Fatal _ _) = True"
| "is_fatal _ = False"

definition lp_run :: "lp_event list \<Rightarrow> rf_link_lp_trace \<Rightarrow> rf_link_lp_trace" where
  "lp_run evs t = foldl (\<lambda>t ev. lp_step ev t) t evs"

lemma lp_run_counts:
  assumes "lp_trace_valid t" "unat (lp_boot_count t) + length (filter is_boot evs) < 2 ^ 32"
    and "0 < lp_boot_count t"
  shows "lp_trace_valid (lp_run evs t) \<and>
    unat (lp_boot_count (lp_run evs t)) = unat (lp_boot_count t) + length (filter is_boot evs) \<and>
    lp_fatal_count (lp_run evs t) = lp_fatal_count t + of_nat (length (filter is_fatal evs))"
  using assms
proof (induction evs arbitrary: t)
  case (Cons ev evs)
  have run: "lp_run (ev # evs) t = lp_run evs (lp_step ev t)"
    by (simp add: lp_run_def)
  show ?case
  proof (cases "is_boot ev")
    case True
    then obtain now where ev: "ev = Lp_Boot now" by (cases ev) auto
    have lt: "unat (lp_boot_count t) < 2 ^ 32 - 1"
      using Cons.prems(2) True by simp
    then have inc: "unat (lp_boot_count t + 1) = unat (lp_boot_count t) + 1"
      by (simp add: unat_word_ariths)
    have ne: "lp_boot_count t + 1 \<noteq> 1"
      using Cons.prems(3) inc by (metis add_cancel_left_left unat_1 word_gt_0 unat_gt_0 less_numeral_extra(3))
    have st: "lp_trace_valid (lp_step ev t)" "lp_boot_count (lp_step ev t) = lp_boot_count t + 1"
      "lp_fatal_count (lp_step ev t) = lp_fatal_count t"
      using Cons.prems(1) ne by (simp_all add: ev rf_link_lp_trace_boot_def lp_trace_valid_def Let_def)
    have "0 < lp_boot_count (lp_step ev t)"
      using inc st(2) by (simp add: word_less_nat_alt)
    from Cons.IH [OF st(1) _ this] show ?thesis
      using Cons.prems(2) True inc st unfolding run by (simp add: ev)
  next
    case False
    have st: "lp_trace_valid (lp_step ev t)" "lp_boot_count (lp_step ev t) = lp_boot_count t"
      "lp_fatal_count (lp_step ev t) = lp_fatal_count t + (if is_fatal ev then 1 else 0)"
      using Cons.prems(1) False by (cases ev; simp add: op_defs lp_trace_valid_def)+
    from Cons.IH [OF st(1)] show ?thesis
      using Cons.prems(2,3) False st unfolding run by simp
  qed
qed (simp add: lp_run_def)

section \<open>Properties\<close>

text \<open>
  After a cold boot (the memory is no valid trace, whatever else it holds) and any
  run of stage changes, batches, fatal errors and warm resets, the trace is valid
  for the other core, its boot counter is the number of boots and its fatal counter
  the number of fatal errors since the cold boot: warm resets keep it.
\<close>

theorem lp_trace_counts:
  assumes "\<not> lp_trace_valid t" "length (filter is_boot evs) < 2 ^ 32 - 1"
    and "t' = lp_run (Lp_Boot now # evs) t"
  shows "rf_link_lp_trace_snapshot False t' = (Some t', True) \<and>
    unat (lp_boot_count t') = 1 + length (filter is_boot evs) \<and>
    lp_fatal_count t' = of_nat (length (filter is_fatal evs))"
proof -
  define t1 where "t1 = rf_link_lp_trace_boot now t"
  have t1: "lp_trace_valid t1" "lp_boot_count t1 = 1" "lp_fatal_count t1 = 0"
    using assms(1) by (auto simp: t1_def rf_link_lp_trace_boot_def lp_trace_valid_def Let_def)
  have "t' = lp_run evs t1"
    by (simp add: assms(3) lp_run_def t1_def)
  then show ?thesis
    using lp_run_counts [OF t1(1), of evs] t1 assms(2) by (simp add: rf_link_lp_trace_snapshot_def)
qed

text \<open>A cold boot over a blank memory, a fatal error and the warm reset it causes.\<close>

definition blank_trace :: rf_link_lp_trace where
  "blank_trace = \<lparr>lp_magic = 0xffffffff, lp_version = 0xffffffff, lp_boot_count = 0xffffffff, lp_fatal_count =
     0xffffffff, lp_stage = 0xffffffff, lp_loop_count = 0xffffffff, lp_last_seq = 0xffffffff,
     lp_last_uptime_ms = 0xffffffff, lp_fatal_reason = 0xffffffff, lp_last_send_ret =
     0xffffffff, lp_ipc_sent = 0xffffffff, lp_ipc_busy = 0xffffffff, lp_ipc_failed = 0xffffffff,
     lp_ipc_released = 0xffffffff, lp_ipc_bad_release = 0xffffffff, lp_sensor_irq_count =
     0xffffffff, lp_sensor_poll_fallbacks = 0xffffffff, lp_sensor_fifo_packets = 0xffffffff,
     lp_sensor_samples = 0xffffffff, lp_sensor_malformed = 0xffffffff, lp_sensor_io_errors =
     0xffffffff, lp_batches_ready = 0xffffffff, lp_last_slot = 0xffffffff, lp_fifo_overflows =
     0xffffffff, lp_slot_waits = 0xffffffff\<rparr>"

lemma lp_trace_counts_witness:
  "lp_fatal_count (lp_run [Lp_Boot 0, Lp_Fatal 22 900, Lp_Boot 0] blank_trace) = 1 \<and>
   unat (lp_boot_count (lp_run [Lp_Boot 0, Lp_Fatal 22 900, Lp_Boot 0] blank_trace)) = 2"
proof -
  have "\<not> lp_trace_valid blank_trace"
    by (simp add: lp_trace_valid_def blank_trace_def RF_LINK_LP_TRACE_MAGIC_def)
  from lp_trace_counts [OF this _ refl, of "[Lp_Fatal 22 900, Lp_Boot 0]" 0] show ?thesis
    by simp
qed

end
