(* ===== verification/Flpr_Main.thy ===== *)
theory Flpr_Main
  imports Ipc_Tx Adc_Sampler Lp_Trace
begin

text \<open>
  \<open>flpr_app/src/main.c\<close>: the sensor core of the transmitter. Its state is the IPC
  endpoint, the sensor driver on its bus, the shared memory, the trace and the
  sequence number of the next batch. A reading of \<open>k_uptime_get_32\<close> is an input,
  named by what it is for.
\<close>

record ('q, 'd) flpr_app =
  fl_tx :: "'q ipc_tx"
  fl_sensor :: "adc_sampler \<times> 'd"
  fl_mem :: shared_memory
  fl_trace :: rf_link_lp_trace
  fl_batch_seq :: u32

record flpr_clock =
  fc_capture_start :: u32
  fc_capture_end :: u32
  fc_note_loop :: u32
  fc_note_sensor :: u32
  fc_note_ipc :: u32
  fc_note_end :: u32

definition update_lp_trace :: "int \<Rightarrow> flpr_clock \<Rightarrow> ('q, 'd) flpr_app \<Rightarrow> ('q, 'd) flpr_app" where
  [op_defs]: "update_lp_trace last_ret c s =
     (let sensor = adc_sampler_stats_get (fst (fl_sensor s)); ipc = ipc_tx_stats_get (fl_tx s)
      in s\<lparr>fl_trace :=
           rf_link_lp_trace_note_ipc (its_sent ipc) (its_busy ipc) (its_failed ipc) (its_released ipc)
             (its_bad_release ipc) (its_slot_waits ipc) (word_of_int last_ret) (fc_note_ipc c)
             (rf_link_lp_trace_note_sensor (irq_count sensor) (poll_fallbacks sensor)
               (fifo_packets sensor) (samples_captured sensor) (malformed_packets sensor)
               (spi_errors sensor) (fifo_overflows sensor) (fc_note_sensor c) (fl_trace s))\<rparr>)"

definition note_fatal :: "u32 \<Rightarrow> flpr_clock \<Rightarrow> ('q, 'd) flpr_app \<Rightarrow> ('q, 'd) flpr_app" where
  "note_fatal reason c s = s\<lparr>fl_trace := rf_link_lp_trace_note_fatal reason (fc_note_end c) (fl_trace s)\<rparr>"

definition set_stage :: "rf_link_lp_stage \<Rightarrow> u32 \<Rightarrow> ('q, 'd) flpr_app \<Rightarrow> ('q, 'd) flpr_app" where
  "set_stage stage now s = s\<lparr>fl_trace := rf_link_lp_trace_set_stage stage now (fl_trace s)\<rparr>"

section \<open>Start\<close>

record flpr_start =
  fs_boot_ms :: u32
  fs_ipc_ready_ms :: u32
  fs_ipc_bound_ms :: u32
  fs_sensor_ready_ms :: u32
  fs_ipc_dev_ready :: bool
  fs_ipc_open :: int
  fs_ipc_register :: int

text \<open>
  \<open>main\<close> up to its loop: \<open>Inl ret\<close> when it returns, \<open>Inr ()\<close> when it enters the loop.
  \<open>waiting\<close> is what the callbacks do until the wait for the binding ends.
\<close>

definition flpr_main_start ::
  "(u32, 'q) msgq_ops \<Rightarrow> 'd mems_bus \<Rightarrow> ('q ipc_tx \<Rightarrow> 'q ipc_tx) \<Rightarrow> flpr_start \<Rightarrow> flpr_clock \<Rightarrow>
   ('q, 'd) flpr_app \<Rightarrow> (int + unit) \<times> ('q, 'd) flpr_app" where
  [op_defs]: "flpr_main_start mq bus waiting m c s =
     (let s0 = s\<lparr>fl_batch_seq := 0, fl_trace := rf_link_lp_trace_boot (fs_boot_ms m) (fl_trace s)\<rparr>;
          (ret, tx1) = ipc_tx_init mq (fs_ipc_dev_ready m) (fs_ipc_open m) (fs_ipc_register m) (fl_tx s0);
          s1 = s0\<lparr>fl_tx := tx1\<rparr>
      in if ret \<noteq> 0 then (Inl ret, note_fatal (word_of_int (- ret)) c s1)
         else
           let s2 = set_stage RF_LINK_LP_STAGE_IPC_READY (fs_ipc_ready_ms m) s1;
               (ret, tx2) = ipc_tx_wait_bound (waiting (fl_tx s2));
               s3 = s2\<lparr>fl_tx := tx2\<rparr>
           in if ret \<noteq> 0 then (Inl ret, note_fatal (word_of_int (- ret)) c s3)
              else
                let s4 = set_stage RF_LINK_LP_STAGE_IPC_BOUND (fs_ipc_bound_ms m) s3;
                    (ret, sensor) = adc_sampler_init bus (fl_sensor s4);
                    s5 = s4\<lparr>fl_sensor := sensor\<rparr>
                in if ret \<noteq> 0
                   then (Inl ret, note_fatal (word_of_int (- ret)) c (update_lp_trace ret c s5))
                   else (Inr (), set_stage RF_LINK_LP_STAGE_SENSOR_READY (fs_sensor_ready_ms m) s5))"

section \<open>The loop\<close>

definition open_batch :: "u32 \<Rightarrow> u32 \<Rightarrow> u32 \<Rightarrow> rf_link_mems_batch \<Rightarrow> rf_link_mems_batch" where
  "open_batch slot batch_seq now b =
     b\<lparr>mb_magic := RF_LINK_MEMS_BATCH_MAGIC, mb_version := RF_LINK_MEMS_BATCH_VERSION,
       mb_slot_index := slot, mb_batch_seq := batch_seq,
       mb_sample_count := of_nat RF_LINK_MEMS_BATCH_SAMPLE_COUNT, mb_capture_start_ms := now\<rparr>"

text \<open>
  The capture into an acquired slot: \<open>Inl ret\<close> when the sensor fails, otherwise the
  CRC to publish. What a failed read has already stored in the samples is not
  modelled: the core stops there and the slot is never announced.
\<close>

definition capture_batch ::
  "(u8 list \<Rightarrow> u32) \<Rightarrow> 'd mems_bus \<Rightarrow> flpr_clock \<Rightarrow> u32 \<Rightarrow> mems_slot \<Rightarrow> ('q, 'd) flpr_app \<Rightarrow>
   ((int + u32) \<times> ('q, 'd) flpr_app) option" where
  [op_defs]: "capture_batch crc32 bus c index slot s =
     (let s1 = s\<lparr>fl_mem := (fl_mem s)(slot := open_batch index (fl_batch_seq s) (fc_capture_start c)
                                              (fl_mem s slot)),
                 fl_trace := rf_link_lp_trace_note_loop (fl_batch_seq s) (fc_note_loop c) (fl_trace s)\<rparr>
      in case adc_sampler_read_samples bus False RF_LINK_MEMS_BATCH_SAMPLE_COUNT (fl_sensor s1) of
           None \<Rightarrow> None
         | Some (Inl ret, sensor) \<Rightarrow> Some (Inl ret, s1\<lparr>fl_sensor := sensor\<rparr>)
         | Some (Inr samples, sensor) \<Rightarrow>
             let crc = crc32 (le16s samples)
             in Some (Inr crc, s1\<lparr>fl_sensor := sensor,
                  fl_mem := (fl_mem s1)(slot := (fl_mem s1 slot)\<lparr>mb_samples := samples,
                    mb_capture_end_ms := fc_capture_end c, mb_sample_crc32 := crc\<rparr>)\<rparr>))"

text \<open>
  One pass of the loop: the value \<open>main\<close> returns, if it does, the message the IPC
  service took over, if any, and the state. \<open>None\<close>: the pass does not end (the sensor
  never delivers, or the service keeps the sender waiting beyond the answers given).
\<close>

definition flpr_main_pass ::
  "(u8 list \<Rightarrow> u32) \<Rightarrow> (u32, 'q) msgq_ops \<Rightarrow> 'd mems_bus \<Rightarrow> ('q ipc_tx \<Rightarrow> 'q ipc_tx) \<Rightarrow>
   (int \<times> bool) list \<Rightarrow> flpr_clock \<Rightarrow> ('q, 'd) flpr_app \<Rightarrow>
   (int option \<times> u8 list option \<times> ('q, 'd) flpr_app) option" where
  [op_defs]: "flpr_main_pass crc32 mq bus waiting calls c s =
     (let (r, tx1) = ipc_tx_acquire_slot mq False False waiting (fl_tx s); s1 = s\<lparr>fl_tx := tx1\<rparr>
      in case r of
           Inl ret \<Rightarrow> Some (None, None, update_lp_trace ret c s1)
         | Inr index \<Rightarrow>
             (case rf_link_mems_batch_slot index of
                None \<Rightarrow> Some (Some (- EINVAL), None, note_fatal 0x100 c s1)
              | Some slot \<Rightarrow>
                  (case capture_batch crc32 bus c index slot s1 of
                     None \<Rightarrow> None
                   | Some (Inl ret, s2) \<Rightarrow>
                       Some (Some ret, None, note_fatal (word_of_int (- ret)) c (update_lp_trace ret c s2))
                   | Some (Inr crc, s2) \<Rightarrow>
                       (case ipc_tx_publish_batch mq index (fl_batch_seq s2) crc False calls (fl_tx s2) of
                          None \<Rightarrow> None
                        | Some (ret, out, tx3) \<Rightarrow>
                            let s3 = update_lp_trace ret c (s2\<lparr>fl_tx := tx3\<rparr>)
                            in Some (None, out,
                                 if ret = 0
                                 then s3\<lparr>fl_trace := rf_link_lp_trace_note_batch (fl_batch_seq s3) index
                                           (fc_note_end c) (fl_trace s3),
                                         fl_batch_seq := fl_batch_seq s3 + 1\<rparr>
                                 else s3)))))"

section \<open>What a capture leaves in the slot\<close>

definition filled_batch ::
  "(u8 list \<Rightarrow> u32) \<Rightarrow> u32 \<Rightarrow> u32 \<Rightarrow> u32 \<Rightarrow> u32 \<Rightarrow> i16 list \<Rightarrow> rf_link_mems_batch" where
  "filled_batch crc32 index batch_seq start_ms end_ms samples =
     \<lparr>mb_magic = RF_LINK_MEMS_BATCH_MAGIC, mb_version = RF_LINK_MEMS_BATCH_VERSION,
      mb_slot_index = index, mb_batch_seq = batch_seq,
      mb_sample_count = of_nat RF_LINK_MEMS_BATCH_SAMPLE_COUNT, mb_capture_start_ms = start_ms,
      mb_capture_end_ms = end_ms, mb_sample_crc32 = crc32 (le16s samples), mb_samples = samples\<rparr>"

lemma read_pass_room:
  "read_pass bus room s = (Inr new, s') \<Longrightarrow> length new \<le> room"
  by (auto simp: read_pass_def read_fifo_def fail_read_def Let_def
      split: prod.splits sum.splits if_splits)

lemma read_loop_length_aux:
  "read_loop bus n produced s = Some y \<Longrightarrow>
   length produced \<le> n \<longrightarrow> (\<forall>samples s'. y = (Inr samples, s') \<longrightarrow> length samples = n)"
proof (induction rule: read_loop.raw_induct [rotated, consumes 1])
  case (1 rl bus n produced s y)
  show ?case
  proof (cases "length produced < n")
    case True
    obtain r s1 where p: "read_pass bus (n - length produced) s = (r, s1)"
      by (cases "read_pass bus (n - length produced) s")
    show ?thesis
    proof (cases r)
      case (Inl e)
      then show ?thesis
        using 1(2) True p by auto
    next
      case (Inr new)
      then have "rl bus n (produced @ new) s1 = Some y"
        using 1(2) True p by simp
      moreover have "length (produced @ new) \<le> n"
        using read_pass_room p Inr True by fastforce
      ultimately show ?thesis
        using 1(1) [of bus n "produced @ new" s1 y] by blast
    qed
  next
    case False
    then show ?thesis
      using 1(2) by auto
  qed
qed

lemma read_samples_length:
  assumes "adc_sampler_read_samples bus False n s = Some (Inr samples, s')"
  shows "length samples = n"
proof -
  have "\<exists>s1. read_loop bus n (take (min n (length (as_pending (fst s)))) (as_pending (fst s))) s1 =
      Some (Inr samples, s')"
    using assms by (auto simp: adc_sampler_read_samples_def Let_def split: prod.splits if_splits)
  then show ?thesis
    using read_loop_length_aux by fastforce
qed

text \<open>A capture that succeeds leaves a complete batch in its slot and touches no other.\<close>

lemma capture_batch_fills:
  assumes "capture_batch crc32 bus c index slot s = Some (Inr crc, s')"
  obtains samples where "length samples = RF_LINK_MEMS_BATCH_SAMPLE_COUNT" "crc = crc32 (le16s samples)"
    and "fl_mem s' = (fl_mem s)(slot := filled_batch crc32 index (fl_batch_seq s) (fc_capture_start c)
           (fc_capture_end c) samples)"
    and "fl_tx s' = fl_tx s" "fl_batch_seq s' = fl_batch_seq s"
    and "adc_sampler_read_samples bus False RF_LINK_MEMS_BATCH_SAMPLE_COUNT (fl_sensor s) =
           Some (Inr samples, fl_sensor s')"
proof -
  obtain samples sensor where
    r: "adc_sampler_read_samples bus False RF_LINK_MEMS_BATCH_SAMPLE_COUNT (fl_sensor s) = Some (Inr samples, sensor)"
    using assms by (cases "adc_sampler_read_samples bus False RF_LINK_MEMS_BATCH_SAMPLE_COUNT (fl_sensor s)")
      (auto simp: capture_batch_def Let_def split: sum.splits)
  have f: "(open_batch index (fl_batch_seq s) (fc_capture_start c) b)\<lparr>mb_samples := samples,
      mb_capture_end_ms := fc_capture_end c, mb_sample_crc32 := crc32 (le16s samples)\<rparr> =
    filled_batch crc32 index (fl_batch_seq s) (fc_capture_start c) (fc_capture_end c) samples" for b
    by (simp add: open_batch_def filled_batch_def)
  show ?thesis
    using assms r f read_samples_length [OF r] by (intro that [of samples]) (auto simp: capture_batch_def Let_def)
qed

end
