(* ===== verification/Ipc_Bridge.thy ===== *)
theory Ipc_Bridge
  imports Ipc_Endpoint
begin

text \<open>
  \<open>rf_link_tx/src/ipc_bridge.c\<close>: the application core's end of the link, with the
  queue of batches that are ready.
\<close>

record ipc_bridge_stats =
  ibs_received :: u32
  ibs_bad_size :: u32
  ibs_bad_message :: u32
  ibs_queued :: u32
  ibs_queue_drop :: u32
  ibs_releases :: u32
  ibs_release_fail :: u32

record 'q ipc_bridge =
  ib_bound :: bool
  ib_batch :: 'q
  ib_stats :: ipc_bridge_stats

definition zero_bridge_stats :: ipc_bridge_stats where
  "zero_bridge_stats = \<lparr>ibs_received = 0, ibs_bad_size = 0, ibs_bad_message = 0, ibs_queued = 0,
     ibs_queue_drop = 0, ibs_releases = 0, ibs_release_fail = 0\<rparr>"

definition map_ib_stats :: "(ipc_bridge_stats \<Rightarrow> ipc_bridge_stats) \<Rightarrow> 'q ipc_bridge \<Rightarrow> 'q ipc_bridge" where
  "map_ib_stats f b = b\<lparr>ib_stats := f (ib_stats b)\<rparr>"

definition bridge_bound :: "'q ipc_bridge \<Rightarrow> 'q ipc_bridge" where
  [op_defs]: "bridge_bound b = b\<lparr>ib_bound := True\<rparr>"

definition ready_message_ok :: "rf_link_ipc_message \<Rightarrow> bool" where
  "ready_message_ok m \<longleftrightarrow> im_magic m = RF_LINK_IPC_MAGIC \<and> im_version m = RF_LINK_IPC_VERSION \<and>
     im_type m = RF_LINK_IPC_BATCH_READY \<and> im_slot_index m < RF_LINK_MEMS_BATCH_SLOT_COUNT \<and>
     im_sample_count m = of_nat RF_LINK_MEMS_BATCH_SAMPLE_COUNT"

definition bridge_received ::
  "(rf_link_ipc_message, 'q) msgq_ops \<Rightarrow> u8 list option \<Rightarrow> 'q ipc_bridge \<Rightarrow> 'q ipc_bridge" where
  [op_defs]: "bridge_received mq dp b0 =
     (let b = map_ib_stats (\<lambda>s. s\<lparr>ibs_received := ibs_received s + 1\<rparr>) b0;
          bad_size = map_ib_stats (\<lambda>s. s\<lparr>ibs_bad_size := ibs_bad_size s + 1\<rparr>) b
      in case dp of
           None \<Rightarrow> bad_size
         | Some data \<Rightarrow>
             if length data \<noteq> IPC_MESSAGE_SIZE then bad_size
             else
               let message = ipc_message_of_bytes data
               in if \<not> ready_message_ok message
                  then map_ib_stats (\<lambda>s. s\<lparr>ibs_bad_message := ibs_bad_message s + 1\<rparr>) b
                  else
                    let (ret, q) = msgq_put mq message (ib_batch b); b1 = b\<lparr>ib_batch := q\<rparr>
                    in if ret = 0
                       then map_ib_stats (\<lambda>s. s\<lparr>ibs_queued := ibs_queued s + 1\<rparr>) b1
                       else map_ib_stats (\<lambda>s. s\<lparr>ibs_queue_drop := ibs_queue_drop s + 1\<rparr>) b1)"

definition ipc_bridge_init ::
  "(rf_link_ipc_message, 'q) msgq_ops \<Rightarrow> bool \<Rightarrow> int \<Rightarrow> int \<Rightarrow> 'q ipc_bridge \<Rightarrow> int \<times> 'q ipc_bridge" where
  [op_defs]: "ipc_bridge_init mq dev_ready open_ret register_ret b =
     (if \<not> dev_ready then (- ENODEV, b)
      else
        let b1 = b\<lparr>ib_batch := msgq_purge mq (ib_batch b), ib_stats := zero_bridge_stats\<rparr>
        in if open_ret < 0 \<and> open_ret \<noteq> - EALREADY then (open_ret, b1) else (register_ret, b1))"

definition ipc_bridge_wait_bound :: "'q ipc_bridge \<Rightarrow> int \<times> 'q ipc_bridge" where
  [op_defs]: "ipc_bridge_wait_bound b =
     (if ib_bound b then (0, b\<lparr>ib_bound := False\<rparr>) else (- EAGAIN, b))"

definition ipc_bridge_wait_batch ::
  "(rf_link_ipc_message, 'q) msgq_ops \<Rightarrow> bool \<Rightarrow> 'q ipc_bridge \<Rightarrow>
   (int + rf_link_ipc_message) \<times> 'q ipc_bridge" where
  [op_defs]: "ipc_bridge_wait_batch mq message_null b =
     (if message_null then (Inl (- EINVAL), b)
      else let (r, q) = msgq_get mq (ib_batch b) in (r, b\<lparr>ib_batch := q\<rparr>))"

definition release_message :: "u32 \<Rightarrow> u32 \<Rightarrow> rf_link_ipc_message" where
  "release_message slot batch_seq = \<lparr>im_magic = RF_LINK_IPC_MAGIC, im_version = RF_LINK_IPC_VERSION,
     im_type = RF_LINK_IPC_BATCH_RELEASE, im_slot_index = slot, im_batch_seq = batch_seq,
     im_sample_count = 0, im_sample_crc32 = 0\<rparr>"

definition ipc_bridge_release_batch ::
  "u32 \<Rightarrow> u32 \<Rightarrow> bool \<Rightarrow> (int \<times> bool) list \<Rightarrow> 'q ipc_bridge \<Rightarrow> (int \<times> u8 list option \<times> 'q ipc_bridge) option" where
  [op_defs]: "ipc_bridge_release_batch slot batch_seq forever calls b =
     (case send_loop forever calls 0 of
        None \<Rightarrow> None
      | Some (Inr _, _) \<Rightarrow>
          Some (0, Some (ipc_message_bytes (release_message slot batch_seq)),
            map_ib_stats (\<lambda>s. s\<lparr>ibs_releases := ibs_releases s + 1\<rparr>) b)
      | Some (Inl ret, _) \<Rightarrow>
          Some (ret, None, map_ib_stats (\<lambda>s. s\<lparr>ibs_release_fail := ibs_release_fail s + 1\<rparr>) b))"

definition ipc_bridge_stats_get :: "'q ipc_bridge \<Rightarrow> ipc_bridge_stats" where
  [op_defs]: "ipc_bridge_stats_get b = ib_stats b"

lemma map_ib_stats_simps [simp]:
  "ib_batch (map_ib_stats f b) = ib_batch b" "ib_stats (map_ib_stats f b) = f (ib_stats b)"
  "ib_bound (map_ib_stats f b) = ib_bound b"
  by (simp_all add: map_ib_stats_def)

end
