(* ===== verification/Tx_Radio.thy ===== *)
theory Tx_Radio
  imports Esb
begin

text \<open>
  \<open>rf_link_tx/src/radio_link.c\<close> behind its initialisation: sending one frame, the
  event handler and the latency statistics. The ESB driver's answer to a payload,
  the events that arrive before the deadline and the cycle counter are inputs.
\<close>

datatype tx_event = ESB_EVENT_TX_SUCCESS u32 | ESB_EVENT_TX_FAILED u32 | ESB_EVENT_RX_RECEIVED

record tx_radio =
  tr_ok :: u32
  tr_failed :: u32
  tr_timeout :: u32
  tr_errors :: u32
  tr_last_attempts :: u32
  tr_done :: bool
  tr_last_result :: int
  tr_latency_count :: u32
  tr_latency_last_us :: u32
  tr_latency_min_us :: u32
  tr_latency_max_us :: u32
  tr_latency_sum_us :: u64

record tx_radio_stats =
  rts_tx_ok :: u32
  rts_tx_failed :: u32
  rts_tx_timeout :: u32
  rts_tx_errors :: u32
  rts_last_attempts :: u32
  rts_mac_latency_count :: u32
  rts_mac_latency_last_us :: u32
  rts_mac_latency_min_us :: u32
  rts_mac_latency_avg_us :: u32
  rts_mac_latency_max_us :: u32

text \<open>The initial values of the static variables.\<close>

definition reset_tx_radio :: tx_radio where
  "reset_tx_radio = \<lparr>tr_ok = 0, tr_failed = 0, tr_timeout = 0, tr_errors = 0, tr_last_attempts = 0,
     tr_done = False, tr_last_result = 0, tr_latency_count = 0, tr_latency_last_us = 0,
     tr_latency_min_us = 0xffffffff, tr_latency_max_us = 0, tr_latency_sum_us = 0\<rparr>"

definition latency_stats_update :: "u32 \<Rightarrow> tx_radio \<Rightarrow> tx_radio" where
  [op_defs]: "latency_stats_update latency_us r =
     r\<lparr>tr_latency_last_us := latency_us,
       tr_latency_min_us := (if latency_us < tr_latency_min_us r then latency_us else tr_latency_min_us r),
       tr_latency_max_us := (if latency_us > tr_latency_max_us r then latency_us else tr_latency_max_us r),
       tr_latency_sum_us := tr_latency_sum_us r + ucast latency_us,
       tr_latency_count := tr_latency_count r + 1\<rparr>"

fun tx_radio_event_handler :: "tx_event \<Rightarrow> tx_radio \<Rightarrow> tx_radio" where
  "tx_radio_event_handler (ESB_EVENT_TX_SUCCESS attempts) r =
     r\<lparr>tr_last_result := 0, tr_ok := tr_ok r + 1, tr_last_attempts := attempts, tr_done := True\<rparr>"
| "tx_radio_event_handler (ESB_EVENT_TX_FAILED attempts) r =
     r\<lparr>tr_last_result := - EIO, tr_failed := tr_failed r + 1, tr_last_attempts := attempts, tr_done := True\<rparr>"
| "tx_radio_event_handler ESB_EVENT_RX_RECEIVED r = r"

record send_input =
  si_write :: int
  si_events :: "tx_event list"
  si_start_cycles :: u32
  si_end_cycles :: u32

text \<open>
  The value returned and the payload the ESB driver took over, if any.
  \<open>cyc_to_us\<close> is \<open>k_cyc_to_us_floor32\<close>.
\<close>

definition radio_link_send_frame ::
  "(u32 \<Rightarrow> u32) \<Rightarrow> rf_frame option \<Rightarrow> send_input \<Rightarrow> tx_radio \<Rightarrow> int \<times> u8 list option \<times> tx_radio" where
  [op_defs]: "radio_link_send_frame cyc_to_us fp i r =
     (case fp of
        None \<Rightarrow> (- EINVAL, None, r)
      | Some frame \<Rightarrow>
          let payload = rf_frame_bytes frame;
              r1 = r\<lparr>tr_done := False, tr_last_result := - EINPROGRESS\<rparr>
          in if si_write i \<noteq> 0 then (si_write i, None, r1\<lparr>tr_errors := tr_errors r1 + 1\<rparr>)
             else
               let r2 = foldl (\<lambda>r ev. tx_radio_event_handler ev r) r1 (si_events i);
                   taken = tr_done r2;
                   r3 = latency_stats_update (cyc_to_us (si_end_cycles i - si_start_cycles i))
                          (r2\<lparr>tr_done := False\<rparr>)
               in if \<not> taken then (- ETIMEDOUT, Some payload, r3\<lparr>tr_timeout := tr_timeout r3 + 1\<rparr>)
                  else (tr_last_result r3, Some payload, r3))"

definition tx_radio_link_stats_get :: "tx_radio \<Rightarrow> tx_radio_stats" where
  [op_defs]: "tx_radio_link_stats_get r =
     \<lparr>rts_tx_ok = tr_ok r, rts_tx_failed = tr_failed r, rts_tx_timeout = tr_timeout r,
      rts_tx_errors = tr_errors r, rts_last_attempts = tr_last_attempts r,
      rts_mac_latency_count = tr_latency_count r, rts_mac_latency_last_us = tr_latency_last_us r,
      rts_mac_latency_min_us = (if tr_latency_count r = 0 then 0 else tr_latency_min_us r),
      rts_mac_latency_avg_us = (if tr_latency_count r = 0 then 0
        else ucast (tr_latency_sum_us r div ucast (tr_latency_count r))),
      rts_mac_latency_max_us = tr_latency_max_us r\<rparr>"

section \<open>The latency statistics\<close>

definition latencies :: "u32 list \<Rightarrow> tx_radio \<Rightarrow> tx_radio" where
  "latencies xs r = foldl (\<lambda>r x. latency_stats_update x r) r xs"

lemma latencies_snoc: "latencies (xs @ [x]) r = latency_stats_update x (latencies xs r)"
  by (simp add: latencies_def)

lemma unat_ucast_u64 [simp]: "unat (ucast (x :: u32) :: u64) = unat x"
  by (simp add: unat_ucast_up)

lemma latencies_state:
  assumes "length xs < 2 ^ 32"
  shows "unat (tr_latency_count (latencies xs reset_tx_radio)) = length xs \<and>
    unat (tr_latency_sum_us (latencies xs reset_tx_radio)) = sum_list (map unat xs) \<and>
    sum_list (map unat xs) \<le> length xs * (2 ^ 32 - 1) \<and>
    (xs \<noteq> [] \<longrightarrow> tr_latency_last_us (latencies xs reset_tx_radio) = last xs \<and>
      tr_latency_min_us (latencies xs reset_tx_radio) = Min (set xs) \<and>
      tr_latency_max_us (latencies xs reset_tx_radio) = Max (set xs)) \<and>
    (xs = [] \<longrightarrow> latencies xs reset_tx_radio = reset_tx_radio)"
  using assms
proof (induction xs rule: rev_induct)
  case Nil
  then show ?case
    by (simp add: latencies_def reset_tx_radio_def)
next
  case (snoc x xs)
  let ?r = "latencies xs reset_tx_radio"
  have IH: "unat (tr_latency_count ?r) = length xs"
    "unat (tr_latency_sum_us ?r) = sum_list (map unat xs)" "sum_list (map unat xs) \<le> length xs * (2 ^ 32 - 1)"
    using snoc by simp_all
  have x: "unat x \<le> 2 ^ 32 - 1"
    using unsigned_less [of x, where 'a = nat] by simp
  have b: "sum_list (map unat (xs @ [x])) \<le> length (xs @ [x]) * (2 ^ 32 - 1)"
    using IH(3) x by simp
  have small: "length (xs @ [x]) * (2 ^ 32 - 1) < (2 :: nat) ^ 64"
    using snoc.prems by (simp add: mult_less_le_imp_less order.strict_trans1)
  have s1: "unat (tr_latency_sum_us ?r + ucast x) = sum_list (map unat xs) + unat x"
    using IH(2) b small by (subst unat_add_small) simp_all
  have s2: "unat (tr_latency_count ?r + 1) = length xs + 1"
    using IH(1) snoc.prems by (simp add: unat_word_ariths)
  have s3: "Min (set (xs @ [x])) = (if x < Min (set xs) then x else Min (set xs))"
    "Max (set (xs @ [x])) = (if x > Max (set xs) then x else Max (set xs))" if ne: "xs \<noteq> []"
  proof -
    have "Min (set (xs @ [x])) = min x (Min (set xs))" "Max (set (xs @ [x])) = max x (Max (set xs))"
      using ne Min_insert [of "set xs" x] Max_insert [of "set xs" x] by simp_all
    then show "Min (set (xs @ [x])) = (if x < Min (set xs) then x else Min (set xs))"
      "Max (set (xs @ [x])) = (if x > Max (set xs) then x else Max (set xs))"
      by (auto simp: min_def max_def)
  qed
  have s4: "x < 0xffffffff \<or> x = 0xffffffff" "0 < x \<or> x = 0"
    using x word_gt_0 [of x] by (auto simp: word_le_nat_alt simp flip: order_le_less)
  show ?case
  proof (cases "xs = []")
    case True
    have "latencies [x] reset_tx_radio = latency_stats_update x reset_tx_radio"
      by (simp add: latencies_def)
    then show ?thesis
      using x s4 True by (auto simp: latency_stats_update_def reset_tx_radio_def)
  next
    case False
    then show ?thesis
      using snoc.IH snoc.prems b s1 s2 s3 by (simp add: latencies_snoc latency_stats_update_def)
  qed
qed

section \<open>Properties\<close>

text \<open>
  After the latencies of fewer than 2^32 frames the statistics are exact: the
  count, the last, the least and the greatest latency, and the average rounded
  down; the 64-bit sum cannot overflow.
\<close>

theorem latency_stats_exact:
  assumes "xs \<noteq> []" "length xs < 2 ^ 32"
    and "st = tx_radio_link_stats_get (latencies xs reset_tx_radio)"
  shows "unat (rts_mac_latency_count st) = length xs \<and> rts_mac_latency_last_us st = last xs \<and>
    rts_mac_latency_min_us st = Min (set xs) \<and> rts_mac_latency_max_us st = Max (set xs) \<and>
    unat (rts_mac_latency_avg_us st) = sum_list (map unat xs) div length xs"
proof -
  let ?r = "latencies xs reset_tx_radio"
  note l = latencies_state [OF assms(2)]
  have n: "tr_latency_count ?r \<noteq> 0"
    using l assms(1) by (metis length_0_conv unat_0)
  have "sum_list (map unat xs) div length xs \<le> (length xs * (2 ^ 32 - 1)) div length xs"
    using l by (intro div_le_mono) simp
  then have small: "sum_list (map unat xs) div length xs < 2 ^ 32"
    using assms(1) by simp
  have "unat (tr_latency_sum_us ?r div ucast (tr_latency_count ?r) :: u64) =
      sum_list (map unat xs) div length xs"
    using l by (simp add: unat_div)
  then have "unat (ucast (tr_latency_sum_us ?r div ucast (tr_latency_count ?r) :: u64) :: u32) =
      sum_list (map unat xs) div length xs"
    using small by (simp add: unsigned_ucast_eq take_bit_nat_eq_self)
  then show ?thesis
    using n l assms(1) by (simp add: assms(3) tx_radio_link_stats_get_def)
qed

lemma latency_stats_exact_witness:
  "unat (rts_mac_latency_avg_us (tx_radio_link_stats_get (latencies [600, 640, 655] reset_tx_radio))) = 631"
  using latency_stats_exact [OF _ _ refl, of "[600, 640, 655]"] by simp

end
