(* ===== verification/Tx_Main.thy ===== *)
theory Tx_Main
  imports Ipc_Bridge Tx_Radio Lp_Trace Debug_Uart
begin

text \<open>
  \<open>rf_link_tx/src/main.c\<close>: the application core of the transmitter, which takes the
  batches the sensor core announces, checks them, cuts them into radio frames and
  gives the slots back. The shared memory is a function from slots to batches, and
  what the drivers answer during a pass is the record of inputs of that pass.
\<close>

definition BATCH_RELEASE_RETRIES :: nat where "BATCH_RELEASE_RETRIES = 3"

record batch_tx_stats =
  bts_batches_received :: u32
  bts_batches_sent :: u32
  bts_batches_failed :: u32
  bts_batch_bad_header :: u32
  bts_batch_bad_crc :: u32
  bts_frames_attempted :: u32
  bts_frames_sent :: u32
  bts_frames_failed :: u32
  bts_samples_sent :: u32
  bts_release_errors :: u32

definition zero_batch_stats :: batch_tx_stats where
  "zero_batch_stats = \<lparr>bts_batches_received = 0, bts_batches_sent = 0, bts_batches_failed = 0,
     bts_batch_bad_header = 0, bts_batch_bad_crc = 0, bts_frames_attempted = 0, bts_frames_sent = 0,
     bts_frames_failed = 0, bts_samples_sent = 0, bts_release_errors = 0\<rparr>"

record tx_app =
  ta_stats :: batch_tx_stats
  ta_rf_seq :: u16
  ta_radio_ready :: bool
  ta_radio :: tx_radio
  ta_uart :: debug_uart
  ta_last_status_ms :: u32

definition map_bts :: "(batch_tx_stats \<Rightarrow> batch_tx_stats) \<Rightarrow> tx_app \<Rightarrow> tx_app" where
  "map_bts f a = a\<lparr>ta_stats := f (ta_stats a)\<rparr>"

lemma map_bts_simps [simp]:
  "ta_stats (map_bts f a) = f (ta_stats a)" "ta_rf_seq (map_bts f a) = ta_rf_seq a"
  "ta_radio_ready (map_bts f a) = ta_radio_ready a" "ta_radio (map_bts f a) = ta_radio a"
  by (simp_all add: map_bts_def)

section \<open>A batch\<close>

definition ensure_radio_ready :: "int \<Rightarrow> tx_app \<Rightarrow> int \<times> tx_app" where
  [op_defs]: "ensure_radio_ready init_ret a =
     (if ta_radio_ready a then (0, a)
      else if init_ret = 0
      then (init_ret, a\<lparr>ta_radio_ready := True,
              ta_uart := print_items [Puts ''radio ready after first MEMS batch'', Crlf] (ta_uart a)\<rparr>)
      else (init_ret, a))"

definition batch_header_is_valid ::
  "rf_link_mems_batch option \<Rightarrow> rf_link_ipc_message option \<Rightarrow> bool" where
  [op_defs]: "batch_header_is_valid bp mp =
     (case (bp, mp) of
        (Some b, Some m) \<Rightarrow>
          mb_magic b = RF_LINK_MEMS_BATCH_MAGIC \<and> mb_version b = RF_LINK_MEMS_BATCH_VERSION \<and>
          mb_slot_index b = im_slot_index m \<and> mb_batch_seq b = im_batch_seq m \<and>
          mb_sample_count b = of_nat RF_LINK_MEMS_BATCH_SAMPLE_COUNT \<and>
          mb_sample_crc32 b = im_sample_crc32 m
      | _ \<Rightarrow> False)"

text \<open>The frame of the samples from \<open>offset\<close> on. The tail of a short frame stays zero.\<close>

definition batch_frame :: "u16 \<Rightarrow> rf_link_mems_batch \<Rightarrow> nat \<Rightarrow> rf_frame" where
  "batch_frame seq b offset =
     (let remaining = RF_LINK_MEMS_BATCH_SAMPLE_COUNT - offset;
          n = min remaining RF_LINK_FRAME_SAMPLE_COUNT
      in \<lparr>frame_magic = RF_LINK_MAGIC, frame_seq = seq, frame_sample_count = of_nat n,
          frame_flags = (RF_LINK_FRAME_FLAGS_MEMS OR
              (if offset = 0 then RF_LINK_FRAME_FLAGS_BATCH_START else 0)) OR
            (if n = remaining then RF_LINK_FRAME_FLAGS_BATCH_END else 0),
          frame_timestamp_ms = mb_capture_start_ms b +
            ucast (((of_nat offset :: u64) * 1000) div ucast RF_LINK_TARGET_SAMPLE_HZ),
          frame_samples = take n (drop offset (mb_samples b)) @
            replicate (RF_LINK_FRAME_SAMPLE_COUNT - n) 0\<rparr>)"

text \<open>
  The loop of \<open>transmit_batch\<close>, with the number \<open>k\<close> of the frame: the first error, the
  frames handed to \<open>radio_link_send_frame\<close>, and the state.
\<close>

function frame_loop ::
  "(u32 \<Rightarrow> u32) \<Rightarrow> (nat \<Rightarrow> send_input) \<Rightarrow> rf_link_mems_batch \<Rightarrow> nat \<Rightarrow> nat \<Rightarrow> int \<Rightarrow> tx_app \<Rightarrow>
   int \<times> rf_frame list \<times> tx_app" where
  "frame_loop us sends b k offset err0 a =
     (if offset < RF_LINK_MEMS_BATCH_SAMPLE_COUNT then
        let n = min (RF_LINK_MEMS_BATCH_SAMPLE_COUNT - offset) RF_LINK_FRAME_SAMPLE_COUNT;
            frame = batch_frame (ta_rf_seq a) b offset;
            a1 = map_bts (\<lambda>s. s\<lparr>bts_frames_attempted := bts_frames_attempted s + 1\<rparr>)
                   (a\<lparr>ta_rf_seq := ta_rf_seq a + 1\<rparr>);
            (ret, _, r) = radio_link_send_frame us (Some frame) (sends k) (ta_radio a1);
            a2 = a1\<lparr>ta_radio := r\<rparr>;
            a3 = (if ret = 0
                  then map_bts (\<lambda>s. s\<lparr>bts_frames_sent := bts_frames_sent s + 1,
                         bts_samples_sent := bts_samples_sent s + of_nat n\<rparr>) a2
                  else map_bts (\<lambda>s. s\<lparr>bts_frames_failed := bts_frames_failed s + 1\<rparr>) a2);
            err' = (if ret \<noteq> 0 \<and> err0 = 0 then ret else err0);
            (e, frames, a4) = frame_loop us sends b (k + 1) (offset + n) err' a3
        in (e, frame # frames, a4)
      else (err0, [], a))"
  by pat_completeness auto

termination
  by (relation "measure (\<lambda>(us, sends, b, k, offset, e, a). RF_LINK_MEMS_BATCH_SAMPLE_COUNT - offset)")
    (auto simp: wire_const)

declare frame_loop.simps [simp del]

definition transmit_batch ::
  "(u8 list \<Rightarrow> u32) \<Rightarrow> (u32 \<Rightarrow> u32) \<Rightarrow> shared_memory \<Rightarrow> int \<Rightarrow> (nat \<Rightarrow> send_input) \<Rightarrow>
   rf_link_ipc_message \<Rightarrow> tx_app \<Rightarrow> int \<times> rf_frame list \<times> tx_app" where
  [op_defs]: "transmit_batch crc32 us mem init_ret sends message a =
     (case rf_link_mems_batch_slot (im_slot_index message) of
        None \<Rightarrow> (- EINVAL, [], map_bts (\<lambda>s. s\<lparr>bts_batch_bad_header := bts_batch_bad_header s + 1\<rparr>) a)
      | Some slot \<Rightarrow>
          let batch = mem slot;
              a1 = map_bts (\<lambda>s. s\<lparr>bts_batches_received := bts_batches_received s + 1\<rparr>) a
          in if \<not> batch_header_is_valid (Some batch) (Some message) then
               (- EBADMSG, [], map_bts (\<lambda>s. s\<lparr>bts_batch_bad_header := bts_batch_bad_header s + 1\<rparr>) a1)
             else if crc32 (le16s (mb_samples batch)) \<noteq> im_sample_crc32 message then
               (- EBADMSG, [], map_bts (\<lambda>s. s\<lparr>bts_batch_bad_crc := bts_batch_bad_crc s + 1\<rparr>) a1)
             else
               let (ret, a2) = ensure_radio_ready init_ret a1
               in if ret \<noteq> 0 then (ret, [], a2)
                  else
                    let (err0, frames, a3) = frame_loop us sends batch 0 0 0 a2
                    in (err0, frames,
                        if err0 = 0
                        then map_bts (\<lambda>s. s\<lparr>bts_batches_sent := bts_batches_sent s + 1\<rparr>) a3
                        else map_bts (\<lambda>s. s\<lparr>bts_batches_failed := bts_batches_failed s + 1\<rparr>) a3))"

text \<open>
  The attempts of \<open>release_batch\<close>: each has its list of answers of the IPC service.
  \<open>Some (sent, bridge)\<close> with the release that went out, if one did.
\<close>

fun release_attempts ::
  "nat \<Rightarrow> rf_link_ipc_message \<Rightarrow> (nat \<Rightarrow> (int \<times> bool) list) \<Rightarrow> nat \<Rightarrow> 'q ipc_bridge \<Rightarrow>
   (u8 list option \<times> 'q ipc_bridge) option" where
  "release_attempts 0 message calls attempt br = Some (None, br)"
| "release_attempts (Suc n) message calls attempt br =
     (case ipc_bridge_release_batch (im_slot_index message) (im_batch_seq message) False (calls attempt) br of
        None \<Rightarrow> None
      | Some (ret, out, br') \<Rightarrow>
          if ret = 0 then Some (out, br') else release_attempts n message calls (attempt + 1) br')"

definition release_batch ::
  "rf_link_ipc_message \<Rightarrow> (nat \<Rightarrow> (int \<times> bool) list) \<Rightarrow> 'q ipc_bridge \<times> tx_app \<Rightarrow>
   (u8 list option \<times> 'q ipc_bridge \<times> tx_app) option" where
  [op_defs]: "release_batch message calls s =
     (case release_attempts BATCH_RELEASE_RETRIES message calls 0 (fst s) of
        None \<Rightarrow> None
      | Some (None, br) \<Rightarrow>
          Some (None, br, map_bts (\<lambda>s. s\<lparr>bts_release_errors := bts_release_errors s + 1\<rparr>) (snd s))
      | Some (Some out, br) \<Rightarrow> Some (Some out, br, snd s))"

section \<open>Output\<close>

definition tx_print_boot_line :: "string \<Rightarrow> string \<Rightarrow> debug_uart \<Rightarrow> debug_uart" where
  "tx_print_boot_line phy version =
     print_items [Puts (CHR 0x0D # CHR 0x0A # ''rf_link_tx HP started''), Crlf,
       Puts ''mode=MEMS_BATCH_ESB_PTX,phy='', Puts phy, Puts '',ack='',
       Puts (if RF_LINK_NOACK_STREAM \<noteq> 0 then ''noack'' else ''ack''),
       Puts '',channel='', U32 RF_LINK_CHANNEL, Puts '',pipe='', U32 RF_LINK_PIPE,
       Puts '',prefix=0x54,fw='', Puts version,
       Puts '',batch_samples='', U32 (of_nat RF_LINK_MEMS_BATCH_SAMPLE_COUNT),
       Puts '',samples_per_frame='', U32 (of_nat RF_LINK_FRAME_SAMPLE_COUNT),
       Puts '',sample_hz='', U32 RF_LINK_TARGET_SAMPLE_HZ, Crlf]"

definition tx_print_status ::
  "ipc_bridge_stats \<Rightarrow> tx_radio_stats \<Rightarrow> rf_link_lp_trace option \<Rightarrow> batch_tx_stats \<Rightarrow> debug_uart \<Rightarrow> debug_uart" where
  "tx_print_status ipc radio lp bs =
     (let lp_u32 = (\<lambda>get. U32 (case lp of Some t \<Rightarrow> get t | None \<Rightarrow> 0))
      in print_items [
       Puts ''TX stat batches_rx='', U32 (bts_batches_received bs),
       Puts '' batches_ok='', U32 (bts_batches_sent bs),
       Puts '' batch_bad_hdr='', U32 (bts_batch_bad_header bs),
       Puts '' batches_fail='', U32 (bts_batches_failed bs),
       Puts '' batch_bad_crc='', U32 (bts_batch_bad_crc bs),
       Puts '' frames_try='', U32 (bts_frames_attempted bs),
       Puts '' frames_ok='', U32 (bts_frames_sent bs),
       Puts '' frames_fail='', U32 (bts_frames_failed bs),
       Puts '' samples_ok='', U32 (bts_samples_sent bs),
       Puts '' ipc_bad='', U32 (ibs_bad_size ipc + ibs_bad_message ipc),
       Puts '' ipc_drop='', U32 (ibs_queue_drop ipc),
       Puts '' release_err='', U32 (bts_release_errors bs + ibs_release_fail ipc),
       Puts '' rf_ok='', U32 (rts_tx_ok radio), Puts '' rf_fail='', U32 (rts_tx_failed radio),
       Puts '' rf_timeout='', U32 (rts_tx_timeout radio),
       Puts '' mac_avg_us='', U32 (rts_mac_latency_avg_us radio),
       Puts '' lp_stage='', lp_u32 lp_stage, Puts '' lp_batches='', lp_u32 lp_batches_ready,
       Puts '' lp_samples='', lp_u32 lp_sensor_samples, Puts '' lp_irq='', lp_u32 lp_sensor_irq_count,
       Puts '' lp_poll='', lp_u32 lp_sensor_poll_fallbacks,
       Puts '' lp_malformed='', lp_u32 lp_sensor_malformed,
       Puts '' lp_io_err='', lp_u32 lp_sensor_io_errors,
       Puts '' lp_fifo_ovf='', lp_u32 lp_fifo_overflows, Puts '' lp_slot_wait='', lp_u32 lp_slot_waits,
       Puts '' lp_fatal='', lp_u32 lp_fatal_count, Puts '' lp_fatal_reason='', lp_u32 lp_fatal_reason,
       Crlf])"

definition zero_tx_radio_stats :: tx_radio_stats where
  "zero_tx_radio_stats = \<lparr>rts_tx_ok = 0, rts_tx_failed = 0, rts_tx_timeout = 0, rts_tx_errors = 0,
     rts_last_attempts = 0, rts_mac_latency_count = 0, rts_mac_latency_last_us = 0,
     rts_mac_latency_min_us = 0, rts_mac_latency_avg_us = 0, rts_mac_latency_max_us = 0\<rparr>"

text \<open>The trace is printed as zeros when the snapshot is not valid.\<close>

definition print_status :: "rf_link_lp_trace \<Rightarrow> 'q ipc_bridge \<Rightarrow> tx_app \<Rightarrow> tx_app" where
  "print_status trace br a =
     (let radio = (if ta_radio_ready a then tx_radio_link_stats_get (ta_radio a) else zero_tx_radio_stats);
          (copy, have_lp_trace) = rf_link_lp_trace_snapshot False trace
      in a\<lparr>ta_uart := tx_print_status (ipc_bridge_stats_get br) radio
             (if have_lp_trace then copy else None) (ta_stats a) (ta_uart a)\<rparr>)"

section \<open>The main thread\<close>

record tx_start =
  ts_uart_exists :: bool
  ts_uart_ready :: bool
  ts_phy :: string
  ts_version :: string
  ts_ipc_ready :: bool
  ts_ipc_open :: int
  ts_ipc_register :: int
  ts_uptime :: u32

text \<open>
  \<open>main\<close> up to its loop; \<open>waiting\<close> is what the callbacks do until the wait for the
  binding ends.
\<close>

definition tx_main_start ::
  "(rf_link_ipc_message, 'q) msgq_ops \<Rightarrow> ('q ipc_bridge \<Rightarrow> 'q ipc_bridge) \<Rightarrow> tx_start \<Rightarrow> 'q ipc_bridge \<times> tx_app \<Rightarrow>
   (int + unit) \<times> 'q ipc_bridge \<times> tx_app" where
  "tx_main_start mq waiting m s =
     (let (br, a) = s;
          (_, u0) = debug_uart_init (ts_uart_exists m) (ts_uart_ready m) (ta_uart a);
          a1 = a\<lparr>ta_uart := tx_print_boot_line (ts_phy m) (ts_version m) u0, ta_stats := zero_batch_stats,
                 ta_rf_seq := 0, ta_radio_ready := False\<rparr>;
          failed = (\<lambda>line ret. a1\<lparr>ta_uart :=
                      print_items [Puts line, I32 (word_of_int ret), Crlf] (ta_uart a1)\<rparr>);
          (ret, br1) = ipc_bridge_init mq (ts_ipc_ready m) (ts_ipc_open m) (ts_ipc_register m) br
      in if ret \<noteq> 0 then (Inl ret, br1, failed ''ipc init failed err='' ret)
         else
           let (ret2, br2) = ipc_bridge_wait_bound (waiting br1)
           in if ret2 \<noteq> 0 then (Inl ret2, br2, failed ''ipc bind failed err='' ret2)
              else (Inr (), br2, a1\<lparr>ta_uart := print_items
                      [Puts ''LP IPC bound; CPUAPP blocking until a 4096-sample batch is ready'', Crlf]
                      (ta_uart a1),
                    ta_last_status_ms := ts_uptime m\<rparr>))"

record tx_input =
  ti_radio_init :: int
  ti_sends :: "nat \<Rightarrow> send_input"
  ti_release_calls :: "nat \<Rightarrow> (int \<times> bool) list"
  ti_uptime :: u32
  ti_uptime_after :: u32

definition report_batch :: "rf_link_ipc_message \<Rightarrow> int \<Rightarrow> tx_app \<Rightarrow> tx_app" where
  "report_batch message ret a =
     (if ret = 0 then a
      else a\<lparr>ta_uart := print_items [Puts ''batch rejected/failed seq='', U32 (im_batch_seq message),
               Puts '' err='', I32 (word_of_int ret), Crlf] (ta_uart a)\<rparr>)"

definition tx_status :: "tx_input \<Rightarrow> rf_link_lp_trace \<Rightarrow> 'q ipc_bridge \<Rightarrow> tx_app \<Rightarrow> tx_app" where
  "tx_status i trace br a =
     (if ti_uptime i - ta_last_status_ms a < RF_LINK_STATUS_PERIOD_MS then a
      else (print_status trace br a)\<lparr>ta_last_status_ms := ti_uptime_after i\<rparr>)"

text \<open>
  One pass of the loop once \<open>ipc_bridge_wait_batch\<close> has returned: the frames handed to
  the radio, the release that went out, if one did, and the state. \<open>None\<close>: the
  pass is still in its release loop.
\<close>

definition tx_main_pass ::
  "(u8 list \<Rightarrow> u32) \<Rightarrow> (u32 \<Rightarrow> u32) \<Rightarrow> (rf_link_ipc_message, 'q) msgq_ops \<Rightarrow> shared_memory \<Rightarrow>
   rf_link_lp_trace \<Rightarrow> tx_input \<Rightarrow> 'q ipc_bridge \<times> tx_app \<Rightarrow>
   (rf_frame list \<times> u8 list option \<times> 'q ipc_bridge \<times> tx_app) option" where
  "tx_main_pass crc32 us mq mem trace i s =
     (let (r, br) = ipc_bridge_wait_batch mq False (fst s)
      in case r of
           Inl _ \<Rightarrow> Some ([], None, br, snd s)
         | Inr message \<Rightarrow>
             let (ret, frames, a1) = transmit_batch crc32 us mem (ti_radio_init i) (ti_sends i) message (snd s);
                 a2 = report_batch message ret a1
             in case release_batch message (ti_release_calls i) (br, a2) of
                  None \<Rightarrow> None
                | Some (out, br3, a3) \<Rightarrow> Some (frames, out, br3, tx_status i trace br3 a3))"

end
