(* ===== verification/Tx_Frames.thy ===== *)
theory Tx_Frames
  imports Tx_Main
begin

text \<open>
  What \<open>transmit_batch\<close> does with a batch it accepts: the frames it cuts it into, and
  the account it keeps of their transmission.
\<close>

section \<open>The frames of a batch\<close>

definition BATCH_FRAMES :: nat where
  [wire_const]: "BATCH_FRAMES = 43"

definition batch_frames :: "u16 \<Rightarrow> rf_link_mems_batch \<Rightarrow> rf_frame list" where
  "batch_frames seq b =
     map (\<lambda>k. batch_frame (seq + of_nat k) b (RF_LINK_FRAME_SAMPLE_COUNT * k)) [0..<BATCH_FRAMES]"

definition frame_payload :: "rf_frame \<Rightarrow> i16 list" where
  "frame_payload f = take (unat (frame_sample_count f)) (frame_samples f)"

lemma length_batch_frames [simp]: "length (batch_frames seq b) = BATCH_FRAMES"
  by (simp add: batch_frames_def)

lemma nth_batch_frames [simp]:
  "k < BATCH_FRAMES \<Longrightarrow>
   batch_frames seq b ! k = batch_frame (seq + of_nat k) b (RF_LINK_FRAME_SAMPLE_COUNT * k)"
  by (simp add: batch_frames_def)

definition frame_room :: "nat \<Rightarrow> nat" where
  "frame_room k = min (RF_LINK_MEMS_BATCH_SAMPLE_COUNT - RF_LINK_FRAME_SAMPLE_COUNT * k) RF_LINK_FRAME_SAMPLE_COUNT"

lemma frame_room_bounds: "frame_room k \<le> 96" "k < BATCH_FRAMES \<Longrightarrow> 0 < frame_room k"
  by (simp_all add: frame_room_def wire_const)

lemma frame_room_end: "k < BATCH_FRAMES \<Longrightarrow> frame_room k = 4096 - 96 * k \<longleftrightarrow> k = 42"
  by (auto simp: frame_room_def wire_const)

lemma batch_frame_count:
  "frame_sample_count (batch_frame seq b (RF_LINK_FRAME_SAMPLE_COUNT * k)) = of_nat (frame_room k)"
  by (simp add: batch_frame_def frame_room_def Let_def)

lemma unat_batch_frame_count:
  "unat (frame_sample_count (batch_frame seq b (RF_LINK_FRAME_SAMPLE_COUNT * k))) = frame_room k"
  using frame_room_bounds(1) [of k] by (simp add: batch_frame_count unat_of_nat)

lemma batch_frame_samples:
  "frame_samples (batch_frame seq b (RF_LINK_FRAME_SAMPLE_COUNT * k)) =
     take (frame_room k) (drop (96 * k) (mb_samples b)) @ replicate (96 - frame_room k) 0"
  by (simp add: batch_frame_def frame_room_def Let_def RF_LINK_FRAME_SAMPLE_COUNT_def)

lemma batch_frame_payload:
  assumes "length (mb_samples b) = 4096"
  shows "frame_payload (batch_frame seq b (RF_LINK_FRAME_SAMPLE_COUNT * k)) =
    take (frame_room k) (drop (96 * k) (mb_samples b))"
proof -
  have "frame_room k \<le> 4096 - 96 * k"
    by (simp add: frame_room_def wire_const)
  then show ?thesis
    using assms by (simp add: frame_payload_def unat_batch_frame_count batch_frame_samples)
qed

lemma wf_batch_frame:
  assumes "length (mb_samples b) = 4096"
  shows "wf_frame (batch_frame seq b (RF_LINK_FRAME_SAMPLE_COUNT * k))"
proof -
  have "frame_room k \<le> 4096 - 96 * k" "frame_room k \<le> 96"
    by (simp_all add: frame_room_def wire_const)
  then show ?thesis
    unfolding wf_frame_def batch_frame_samples using assms by (simp add: RF_LINK_FRAME_SAMPLE_COUNT_def)
qed

lemma payload_prefix:
  "n \<le> BATCH_FRAMES \<Longrightarrow>
   concat (map (\<lambda>k. take (frame_room k) (drop (96 * k) xs)) [0..<n]) = take (min 4096 (96 * n)) xs"
proof (induction n)
  case (Suc n)
  have m: "min 4096 (96 * Suc n) = 96 * n + frame_room n" "min 4096 (96 * n) = 96 * n"
    using Suc.prems by (simp_all add: frame_room_def wire_const)
  show ?case
    unfolding m(1) take_add using Suc by (simp add: m(2))
qed simp

lemma payload_of_batch_frames:
  assumes "length (mb_samples b) = 4096"
  shows "concat (map frame_payload (batch_frames seq b)) = mb_samples b"
proof -
  have "concat (map frame_payload (batch_frames seq b)) =
      concat (map (\<lambda>k. take (frame_room k) (drop (96 * k) (mb_samples b))) [0..<BATCH_FRAMES])"
    using assms by (simp add: batch_frames_def batch_frame_payload comp_def)
  also have "\<dots> = mb_samples b"
    using assms by (simp add: payload_prefix BATCH_FRAMES_def)
  finally show ?thesis .
qed

lemma batch_frame_flags:
  assumes "k < BATCH_FRAMES"
  shows "(frame_flags (batch_frame seq b (RF_LINK_FRAME_SAMPLE_COUNT * k)) AND RF_LINK_FRAME_FLAGS_BATCH_START \<noteq> 0)
      = (k = 0)"
    and "(frame_flags (batch_frame seq b (RF_LINK_FRAME_SAMPLE_COUNT * k)) AND RF_LINK_FRAME_FLAGS_BATCH_END \<noteq> 0)
      = (k = 42)"
    and "frame_flags (batch_frame seq b (RF_LINK_FRAME_SAMPLE_COUNT * k)) AND RF_LINK_FRAME_FLAGS_MEMS \<noteq> 0"
proof -
  have e: "(min (RF_LINK_MEMS_BATCH_SAMPLE_COUNT - RF_LINK_FRAME_SAMPLE_COUNT * k) RF_LINK_FRAME_SAMPLE_COUNT
      = RF_LINK_MEMS_BATCH_SAMPLE_COUNT - RF_LINK_FRAME_SAMPLE_COUNT * k) = (k = 42)"
    using frame_room_end [OF assms] by (simp add: frame_room_def wire_const)
  have z: "RF_LINK_FRAME_SAMPLE_COUNT \<noteq> 0"
    by (simp add: RF_LINK_FRAME_SAMPLE_COUNT_def)
  note c = RF_LINK_FRAME_FLAGS_BATCH_START_def RF_LINK_FRAME_FLAGS_BATCH_END_def RF_LINK_FRAME_FLAGS_MEMS_def
  show "(frame_flags (batch_frame seq b (RF_LINK_FRAME_SAMPLE_COUNT * k)) AND RF_LINK_FRAME_FLAGS_BATCH_START \<noteq> 0)
      = (k = 0)"
    "(frame_flags (batch_frame seq b (RF_LINK_FRAME_SAMPLE_COUNT * k)) AND RF_LINK_FRAME_FLAGS_BATCH_END \<noteq> 0)
      = (k = 42)"
    "frame_flags (batch_frame seq b (RF_LINK_FRAME_SAMPLE_COUNT * k)) AND RF_LINK_FRAME_FLAGS_MEMS \<noteq> 0"
    by (simp_all add: batch_frame_def Let_def e z c)
qed

lemma batch_frame_timestamp:
  assumes "k < BATCH_FRAMES"
  shows "frame_timestamp_ms (batch_frame seq b (RF_LINK_FRAME_SAMPLE_COUNT * k)) =
    mb_capture_start_ms b + 8 * of_nat k"
proof -
  have "(of_nat (96 * k) :: u64) * 1000 div 12000 = of_nat (8 * k)"
    using assms by (simp add: unat_div unat_word_ariths unat_of_nat wire_const word_unat_eq_iff)
  moreover have "ucast (of_nat (8 * k) :: u64) = (of_nat (8 * k) :: u32)"
    using assms by (simp only: unsigned_of_nat) (simp add: take_bit_nat_eq_self wire_const)
  ultimately show ?thesis
    by (simp add: batch_frame_def Let_def wire_const)
qed

section \<open>Sending them\<close>

text \<open>The results of sending a list of frames, the first answer being number \<open>k\<close>.\<close>

fun send_frames ::
  "(u32 \<Rightarrow> u32) \<Rightarrow> (nat \<Rightarrow> send_input) \<Rightarrow> nat \<Rightarrow> rf_frame list \<Rightarrow> tx_radio \<Rightarrow> int list \<times> tx_radio" where
  "send_frames us sends k [] r = ([], r)"
| "send_frames us sends k (f # fs) r =
     (let (ret, _, r1) = radio_link_send_frame us (Some f) (sends k) r;
          (rets, r2) = send_frames us sends (Suc k) fs r1
      in (ret # rets, r2))"

fun batch_error :: "int list \<Rightarrow> int" where
  "batch_error [] = 0"
| "batch_error (r # rs) = (if r \<noteq> 0 then r else batch_error rs)"

lemma batch_error_zero: "batch_error rets = 0 \<longleftrightarrow> (\<forall>r\<in>set rets. r = 0)"
  by (induction rets) auto

fun delivered_samples :: "int list \<Rightarrow> rf_frame list \<Rightarrow> nat" where
  "delivered_samples (r # rs) (f # fs) =
     (if r = 0 then unat (frame_sample_count f) else 0) + delivered_samples rs fs"
| "delivered_samples _ _ = 0"

definition note_frames :: "int list \<Rightarrow> rf_frame list \<Rightarrow> batch_tx_stats \<Rightarrow> batch_tx_stats" where
  "note_frames rets frames s =
     s\<lparr>bts_frames_attempted := bts_frames_attempted s + of_nat (length rets),
       bts_frames_sent := bts_frames_sent s + of_nat (length (filter (\<lambda>r. r = 0) rets)),
       bts_frames_failed := bts_frames_failed s + of_nat (length (filter (\<lambda>r. r \<noteq> 0) rets)),
       bts_samples_sent := bts_samples_sent s + of_nat (delivered_samples rets frames)\<rparr>"

definition frames_from :: "u16 \<Rightarrow> rf_link_mems_batch \<Rightarrow> nat \<Rightarrow> rf_frame list" where
  "frames_from seq b k =
     map (\<lambda>j. batch_frame (seq + of_nat (j - k)) b (RF_LINK_FRAME_SAMPLE_COUNT * j)) [k..<BATCH_FRAMES]"

lemma frames_from_0: "frames_from seq b 0 = batch_frames seq b"
  by (simp add: frames_from_def batch_frames_def)

lemma frames_from_step:
  assumes "k < BATCH_FRAMES"
  shows "frames_from seq b k =
    batch_frame seq b (RF_LINK_FRAME_SAMPLE_COUNT * k) # frames_from (seq + 1) b (Suc k)"
proof -
  have "seq + of_nat (j - k) = seq + 1 + of_nat (j - Suc k)" if "Suc k \<le> j" for j
  proof -
    have "j - k = Suc (j - Suc k)"
      using that by simp
    then show ?thesis
      by simp
  qed
  then show ?thesis
    using assms by (simp add: frames_from_def upt_conv_Cons)
qed

definition loop_offset :: "nat \<Rightarrow> nat" where
  "loop_offset k = min RF_LINK_MEMS_BATCH_SAMPLE_COUNT (RF_LINK_FRAME_SAMPLE_COUNT * k)"

lemma loop_offset_step:
  assumes "k < BATCH_FRAMES"
  shows "loop_offset k = RF_LINK_FRAME_SAMPLE_COUNT * k" "loop_offset k < RF_LINK_MEMS_BATCH_SAMPLE_COUNT"
    "loop_offset k + min (RF_LINK_MEMS_BATCH_SAMPLE_COUNT - loop_offset k) RF_LINK_FRAME_SAMPLE_COUNT
      = loop_offset (Suc k)"
    "min (RF_LINK_MEMS_BATCH_SAMPLE_COUNT - loop_offset k) RF_LINK_FRAME_SAMPLE_COUNT = frame_room k"
  using assms by (simp_all add: loop_offset_def frame_room_def wire_const)

lemma note_frames_Nil: "note_frames [] fs s = s"
  by (simp add: note_frames_def)

lemma note_frames_Cons:
  "note_frames (r # rs) (f # fs) s = note_frames rs fs
     (if r = 0
      then s\<lparr>bts_frames_attempted := bts_frames_attempted s + 1, bts_frames_sent := bts_frames_sent s + 1,
             bts_samples_sent := bts_samples_sent s + of_nat (unat (frame_sample_count f))\<rparr>
      else s\<lparr>bts_frames_attempted := bts_frames_attempted s + 1,
             bts_frames_failed := bts_frames_failed s + 1\<rparr>)"
  by (simp add: note_frames_def add.assoc)

lemma frame_loop_frames:
  "k \<le> BATCH_FRAMES \<Longrightarrow> send_frames us sends k (frames_from (ta_rf_seq a) b k) (ta_radio a) = (rets, radio) \<Longrightarrow>
   frame_loop us sends b k (loop_offset k) e a =
     (if e \<noteq> 0 then e else batch_error rets, frames_from (ta_rf_seq a) b k,
      a\<lparr>ta_rf_seq := ta_rf_seq a + of_nat (BATCH_FRAMES - k), ta_radio := radio,
        ta_stats := note_frames rets (frames_from (ta_rf_seq a) b k) (ta_stats a)\<rparr>)"
proof (induction "BATCH_FRAMES - k" arbitrary: k e a rets)
  case 0
  then have "k = BATCH_FRAMES"
    by simp
  moreover have "\<not> loop_offset BATCH_FRAMES < RF_LINK_MEMS_BATCH_SAMPLE_COUNT"
    by (simp add: loop_offset_def wire_const)
  ultimately show ?case
    using 0 by (simp add: frame_loop.simps frames_from_def note_frames_Nil)
next
  case (Suc n)
  then have k: "k < BATCH_FRAMES"
    by simp
  note o = loop_offset_step [OF k]
  let ?f = "batch_frame (ta_rf_seq a) b (RF_LINK_FRAME_SAMPLE_COUNT * k)"
  obtain ret out r1 where s: "radio_link_send_frame us (Some ?f) (sends k) (ta_radio a) = (ret, out, r1)"
    using prod_cases3 by blast
  obtain rets' where r: "send_frames us sends (Suc k) (frames_from (ta_rf_seq a + 1) b (Suc k)) r1 = (rets', radio)"
    "rets = ret # rets'"
    using Suc.prems(2) by (auto simp: frames_from_step [OF k] s split: prod.splits)
  have n: "of_nat (BATCH_FRAMES - k) = (1 :: u16) + of_nat (BATCH_FRAMES - Suc k)"
  proof -
    have "BATCH_FRAMES - k = Suc (BATCH_FRAMES - Suc k)"
      using k by simp
    then show ?thesis
      by (simp only: of_nat_Suc)
  qed
  have c: "frame_sample_count ?f = of_nat (frame_room k)" "unat (frame_sample_count ?f) = frame_room k"
    by (rule batch_frame_count, rule unat_batch_frame_count)
  define s3 where "s3 = (if ret = 0
    then (ta_stats a)\<lparr>bts_frames_attempted := bts_frames_attempted (ta_stats a) + 1,
           bts_frames_sent := bts_frames_sent (ta_stats a) + 1,
           bts_samples_sent := bts_samples_sent (ta_stats a) + of_nat (frame_room k)\<rparr>
    else (ta_stats a)\<lparr>bts_frames_attempted := bts_frames_attempted (ta_stats a) + 1,
           bts_frames_failed := bts_frames_failed (ta_stats a) + 1\<rparr>)"
  define a3 where "a3 = a\<lparr>ta_rf_seq := ta_rf_seq a + 1, ta_radio := r1, ta_stats := s3\<rparr>"
  define e' where "e' = (if ret \<noteq> 0 \<and> e = 0 then ret else e)"
  have f: "?f = batch_frame (ta_rf_seq a) b (loop_offset k)" "loop_offset k + frame_room k = loop_offset (Suc k)"
    using o by simp_all
  have step: "frame_loop us sends b k (loop_offset k) e a =
      (let (e2, fs, a4) = frame_loop us sends b (Suc k) (loop_offset (Suc k)) e' a3 in (e2, ?f # fs, a4))"
    by (subst frame_loop.simps)
      (simp add: o(2,4) f(2) s Let_def map_bts_def a3_def s3_def e'_def flip: f(1))
  have IH: "frame_loop us sends b (Suc k) (loop_offset (Suc k)) e' a3 =
     (if e' \<noteq> 0 then e' else batch_error rets', frames_from (ta_rf_seq a + 1) b (Suc k),
      a3\<lparr>ta_rf_seq := ta_rf_seq a + 1 + of_nat (BATCH_FRAMES - Suc k), ta_radio := radio,
        ta_stats := note_frames rets' (frames_from (ta_rf_seq a + 1) b (Suc k)) s3\<rparr>)"
    using Suc.hyps(1) [of "Suc k" a3 rets' e'] Suc.hyps(2) k r(1) by (simp add: a3_def)
  have st: "note_frames rets (frames_from (ta_rf_seq a) b k) (ta_stats a) =
      note_frames rets' (frames_from (ta_rf_seq a + 1) b (Suc k)) s3"
    by (simp add: frames_from_step [OF k] r(2) note_frames_Cons c(2) s3_def)
  show ?case
    unfolding step IH st n by (simp add: frames_from_step [OF k] r(2) a3_def e'_def)
qed

section \<open>A whole batch\<close>

definition batch_accepted ::
  "(u8 list \<Rightarrow> u32) \<Rightarrow> shared_memory \<Rightarrow> rf_link_ipc_message \<Rightarrow> mems_slot \<Rightarrow> bool" where
  "batch_accepted crc32 mem m slot \<longleftrightarrow> rf_link_mems_batch_slot (im_slot_index m) = Some slot \<and>
     batch_header_is_valid (Some (mem slot)) (Some m) \<and>
     crc32 (le16s (mb_samples (mem slot))) = im_sample_crc32 m"

definition note_batch :: "int \<Rightarrow> batch_tx_stats \<Rightarrow> batch_tx_stats" where
  "note_batch err s = (if err = 0 then s\<lparr>bts_batches_sent := bts_batches_sent s + 1\<rparr>
     else s\<lparr>bts_batches_failed := bts_batches_failed s + 1\<rparr>)"

lemma ensure_radio_ready_cases:
  obtains (ready) a' where "ensure_radio_ready init_ret a = (0, a')" "ta_radio_ready a'"
      "ta_radio_ready a \<or> init_ret = 0"
      "ta_stats a' = ta_stats a" "ta_rf_seq a' = ta_rf_seq a" "ta_radio a' = ta_radio a"
  | (failed) "ensure_radio_ready init_ret a = (init_ret, a)" "init_ret \<noteq> 0" "\<not> ta_radio_ready a"
  by (cases "ta_radio_ready a"; cases "init_ret = 0") (auto simp: ensure_radio_ready_def)

lemma transmit_batch_sends:
  assumes "batch_accepted crc32 mem m slot" "ta_radio_ready a \<or> init_ret = 0"
    and "send_frames us sends 0 (batch_frames (ta_rf_seq a) (mem slot)) (ta_radio a) = (rets, radio)"
  shows "\<exists>a'. transmit_batch crc32 us mem init_ret sends m a =
      (batch_error rets, batch_frames (ta_rf_seq a) (mem slot), a') \<and>
    ta_radio a' = radio \<and> ta_radio_ready a' \<and> ta_rf_seq a' = ta_rf_seq a + of_nat BATCH_FRAMES \<and>
    ta_stats a' = note_batch (batch_error rets) (note_frames rets (batch_frames (ta_rf_seq a) (mem slot))
      ((ta_stats a)\<lparr>bts_batches_received := bts_batches_received (ta_stats a) + 1\<rparr>))"
proof -
  let ?a1 = "map_bts (\<lambda>s. s\<lparr>bts_batches_received := bts_batches_received s + 1\<rparr>) a"
  obtain a2 where r: "ensure_radio_ready init_ret ?a1 = (0, a2)" "ta_radio_ready a2"
    "ta_stats a2 = ta_stats ?a1" "ta_rf_seq a2 = ta_rf_seq a" "ta_radio a2 = ta_radio a"
    using assms(2) by (cases rule: ensure_radio_ready_cases [where a = ?a1 and init_ret = init_ret]) auto
  have z: "loop_offset 0 = 0"
    by (simp add: loop_offset_def)
  have l: "frame_loop us sends (mem slot) 0 0 0 a2 =
      (batch_error rets, batch_frames (ta_rf_seq a) (mem slot),
       a2\<lparr>ta_rf_seq := ta_rf_seq a + of_nat BATCH_FRAMES, ta_radio := radio,
         ta_stats := note_frames rets (batch_frames (ta_rf_seq a) (mem slot)) (ta_stats a2)\<rparr>)"
    using frame_loop_frames [of 0 us sends a2 "mem slot" rets radio 0] assms(3) r
    by (simp add: frames_from_0 z)
  show ?thesis
    using assms(1) r
    by (auto simp: transmit_batch_def batch_accepted_def Let_def l note_batch_def map_bts_def)
qed

lemma transmit_batch_refuses:
  assumes "\<not> ((\<exists>slot. batch_accepted crc32 mem m slot) \<and> (ta_radio_ready a \<or> init_ret = 0))"
    and "transmit_batch crc32 us mem init_ret sends m a = (ret, frames, a')"
  shows "frames = [] \<and> ret \<noteq> 0 \<and> ta_rf_seq a' = ta_rf_seq a \<and> ta_radio a' = ta_radio a \<and>
    ta_radio_ready a' = ta_radio_ready a"
  using assms
  by (auto simp: transmit_batch_def batch_accepted_def ensure_radio_ready_def Let_def
    split: option.splits if_splits prod.splits)

section \<open>A sample batch\<close>

definition sample_batch :: rf_link_mems_batch where
  "sample_batch = \<lparr>mb_magic = RF_LINK_MEMS_BATCH_MAGIC, mb_version = RF_LINK_MEMS_BATCH_VERSION,
     mb_slot_index = 1, mb_batch_seq = 7, mb_sample_count = 4096, mb_capture_start_ms = 1000,
     mb_capture_end_ms = 1342, mb_sample_crc32 = 9, mb_samples = map of_nat [0..<4096]\<rparr>"

definition sample_announcement :: rf_link_ipc_message where
  "sample_announcement = \<lparr>im_magic = RF_LINK_IPC_MAGIC, im_version = RF_LINK_IPC_VERSION,
     im_type = RF_LINK_IPC_BATCH_READY, im_slot_index = 1, im_batch_seq = 7, im_sample_count = 4096,
     im_sample_crc32 = 9\<rparr>"

definition sample_tx :: tx_app where
  "sample_tx = \<lparr>ta_stats = zero_batch_stats, ta_rf_seq = 65530, ta_radio_ready = False,
     ta_radio = reset_tx_radio, ta_uart = \<lparr>du_ready = False, du_out = []\<rparr>, ta_last_status_ms = 0\<rparr>"

definition sample_send :: "nat \<Rightarrow> send_input" where
  "sample_send k = \<lparr>si_write = 0, si_events = [if k = 3 then ESB_EVENT_TX_FAILED 1 else ESB_EVENT_TX_SUCCESS 1],
     si_start_cycles = 0, si_end_cycles = 640\<rparr>"

lemma sample_accepted: "batch_accepted (\<lambda>_. 9) (\<lambda>_. sample_batch) sample_announcement MEMS_SLOT1"
  by (simp add: batch_accepted_def sample_announcement_def sample_batch_def
      rf_link_mems_batch_slot_def batch_header_is_valid_def RF_LINK_MEMS_BATCH_SAMPLE_COUNT_def)

abbreviation sample_transmission :: "int \<times> rf_frame list \<times> tx_app" where
  "sample_transmission \<equiv>
     transmit_batch (\<lambda>_. 9) id (\<lambda>_. sample_batch) 0 sample_send sample_announcement sample_tx"

section \<open>Properties\<close>

text \<open>
  C18. A batch is cut exactly: \<open>transmit_batch\<close> hands the radio 43 well-formed frames
  with consecutive sequence numbers; each carries at least one sample, their samples
  in order are the 4096 samples of the batch, only the first frame has the
  BATCH_START flag, only the last the BATCH_END flag, and the timestamps are 8 ms
  apart from the start of the capture.
\<close>

theorem transmit_batch_frames:
  assumes "batch_accepted crc32 mem m slot" "ta_radio_ready a \<or> init_ret = 0"
    and "length (mb_samples (mem slot)) = RF_LINK_MEMS_BATCH_SAMPLE_COUNT"
    and "transmit_batch crc32 us mem init_ret sends m a = (ret, frames, a')"
  shows "length frames = BATCH_FRAMES \<and> concat (map frame_payload frames) = mb_samples (mem slot) \<and>
    ta_rf_seq a' = ta_rf_seq a + of_nat BATCH_FRAMES \<and>
    (\<forall>k<BATCH_FRAMES. wf_frame (frames ! k) \<and> frame_magic (frames ! k) = RF_LINK_MAGIC \<and>
      frame_seq (frames ! k) = ta_rf_seq a + of_nat k \<and>
      0 < frame_sample_count (frames ! k) \<and> frame_sample_count (frames ! k) \<le> 96 \<and>
      (frame_flags (frames ! k) AND RF_LINK_FRAME_FLAGS_BATCH_START \<noteq> 0) = (k = 0) \<and>
      (frame_flags (frames ! k) AND RF_LINK_FRAME_FLAGS_BATCH_END \<noteq> 0) = (k = BATCH_FRAMES - 1) \<and>
      frame_timestamp_ms (frames ! k) = mb_capture_start_ms (mem slot) + 8 * of_nat k)"
proof -
  obtain rets radio where "send_frames us sends 0 (batch_frames (ta_rf_seq a) (mem slot)) (ta_radio a) =
      (rets, radio)"
    by fastforce
  from transmit_batch_sends [OF assms(1,2) this] assms(4)
  have f: "frames = batch_frames (ta_rf_seq a) (mem slot)"
    and q: "ta_rf_seq a' = ta_rf_seq a + of_nat BATCH_FRAMES"
    by auto
  have len: "length (mb_samples (mem slot)) = 4096"
    using assms(3) by (simp add: RF_LINK_MEMS_BATCH_SAMPLE_COUNT_def)
  have n: "0 < frame_sample_count (frames ! k)" "frame_sample_count (frames ! k) \<le> 96"
    if "k < BATCH_FRAMES" for k
    using frame_room_bounds [of k] that
    by (simp_all add: f word_less_nat_alt word_le_nat_alt unat_batch_frame_count)
  have h: "frame_magic (frames ! k) = RF_LINK_MAGIC" "frame_seq (frames ! k) = ta_rf_seq a + of_nat k"
    if "k < BATCH_FRAMES" for k
    using that by (simp_all add: f batch_frame_def Let_def)
  have "BATCH_FRAMES - 1 = 42"
    by (simp add: BATCH_FRAMES_def)
  then show ?thesis
    using len n h q wf_batch_frame [OF len] batch_frame_flags batch_frame_timestamp
      payload_of_batch_frames [OF len]
    by (simp add: f)
qed

lemma transmit_batch_frames_witness:
  "concat (map frame_payload (fst (snd sample_transmission))) = map of_nat [0..<4096]"
proof -
  obtain ret frames a' where t: "sample_transmission = (ret, frames, a')"
    using prod_cases3 by blast
  have "length (mb_samples ((\<lambda>_. sample_batch) MEMS_SLOT1)) = RF_LINK_MEMS_BATCH_SAMPLE_COUNT"
    by (simp add: sample_batch_def RF_LINK_MEMS_BATCH_SAMPLE_COUNT_def)
  then have "concat (map frame_payload frames) = mb_samples sample_batch"
    using transmit_batch_frames [OF sample_accepted disjI2 [OF refl] _ t] by simp
  then show ?thesis
    unfolding t by (simp add: sample_batch_def)
qed

text \<open>
  The account of a transmitted batch: the value returned is the first error of
  the 43 sends, or 0; every frame is counted as attempted and then as sent or as
  failed, the samples of exactly the frames sent are counted, and the batch is
  counted once as received and once as sent or failed.
\<close>

theorem transmit_batch_accounts:
  assumes "batch_accepted crc32 mem m slot" "ta_radio_ready a \<or> init_ret = 0"
    and "send_frames us sends 0 (batch_frames (ta_rf_seq a) (mem slot)) (ta_radio a) = (rets, radio)"
    and "transmit_batch crc32 us mem init_ret sends m a = (ret, frames, a')"
  shows "ret = batch_error rets \<and> ta_radio a' = radio \<and>
    ta_stats a' = note_batch ret (note_frames rets frames
      ((ta_stats a)\<lparr>bts_batches_received := bts_batches_received (ta_stats a) + 1\<rparr>)) \<and>
    bts_frames_attempted (ta_stats a') - bts_frames_attempted (ta_stats a) =
      (bts_frames_sent (ta_stats a') - bts_frames_sent (ta_stats a)) +
      (bts_frames_failed (ta_stats a') - bts_frames_failed (ta_stats a))"
proof -
  have l: "of_nat (length rets) =
      (of_nat (length (filter (\<lambda>r. r = 0) rets)) + of_nat (length (filter (\<lambda>r. r \<noteq> 0) rets)) :: u32)"
    using sum_length_filter_compl [of "\<lambda>r. r = 0" rets] by (metis of_nat_add)
  have d: "bts_frames_attempted (note_batch e s) = bts_frames_attempted s"
    "bts_frames_sent (note_batch e s) = bts_frames_sent s"
    "bts_frames_failed (note_batch e s) = bts_frames_failed s" for e s
    by (simp_all add: note_batch_def)
  show ?thesis
    using transmit_batch_sends [OF assms(1-3)] assms(4) l by (auto simp: d note_frames_def)
qed

lemma sample_error: "batch_error (fst (send_frames id sample_send 0 (f0 # f1 # f2 # f3 # fs) reset_tx_radio)) = - EIO"
  by (simp add: sample_send_def radio_link_send_frame_def Let_def reset_tx_radio_def
      latency_stats_update_def split: prod.splits)

lemma transmit_batch_accounts_witness:
  "fst sample_transmission = - EIO \<and>
   bts_batches_failed (ta_stats (snd (snd sample_transmission))) = 1"
proof -
  let ?fs = "batch_frames (ta_rf_seq sample_tx) sample_batch"
  obtain ret frames a' where t: "sample_transmission = (ret, frames, a')"
    using prod_cases3 by blast
  obtain rets radio where s: "send_frames id sample_send 0 ?fs (ta_radio sample_tx) = (rets, radio)"
    by fastforce
  have "[0..<BATCH_FRAMES] = 0 # 1 # 2 # 3 # [4..<BATCH_FRAMES]"
    by (simp add: BATCH_FRAMES_def upt_conv_Cons)
  then obtain f0 f1 f2 f3 fs where f: "?fs = f0 # f1 # f2 # f3 # fs"
    by (simp add: batch_frames_def)
  have "ta_radio sample_tx = reset_tx_radio"
    by (simp add: sample_tx_def)
  then have "rets = fst (send_frames id sample_send 0 (f0 # f1 # f2 # f3 # fs) reset_tx_radio)"
    using s unfolding f by (metis fst_conv)
  then have "batch_error rets = - EIO"
    by (simp only: sample_error)
  moreover have "ret = batch_error rets \<and> ta_stats a' = note_batch ret (note_frames rets frames
      ((ta_stats sample_tx)\<lparr>bts_batches_received := bts_batches_received (ta_stats sample_tx) + 1\<rparr>))"
    using transmit_batch_accounts [OF sample_accepted disjI2 [OF refl] s t] by blast
  ultimately show ?thesis
    unfolding t by (simp add: note_batch_def note_frames_def sample_tx_def zero_batch_stats_def)
qed

text \<open>
  C40. Nothing unchecked goes on the air: when \<open>transmit_batch\<close> hands any frame to the
  radio, the announced slot exists, its header agrees with the announcement and the
  CRC of its samples is the announced one; a batch that fails a check leaves the
  sequence numbers and the radio as they were and returns an error.
\<close>

theorem transmit_batch_checked:
  assumes "transmit_batch crc32 us mem init_ret sends m a = (ret, frames, a')"
  shows "(frames \<noteq> [] \<and> ta_radio_ready a' \<and>
      (\<exists>slot. batch_accepted crc32 mem m slot \<and> frames = batch_frames (ta_rf_seq a) (mem slot))) \<or>
    (frames = [] \<and> ret \<noteq> 0 \<and> ta_rf_seq a' = ta_rf_seq a \<and> ta_radio a' = ta_radio a)"
proof (cases "(\<exists>slot. batch_accepted crc32 mem m slot) \<and> (ta_radio_ready a \<or> init_ret = 0)")
  case True
  then obtain slot where s: "batch_accepted crc32 mem m slot" "ta_radio_ready a \<or> init_ret = 0"
    by blast
  obtain rets radio where "send_frames us sends 0 (batch_frames (ta_rf_seq a) (mem slot)) (ta_radio a) =
      (rets, radio)"
    by fastforce
  moreover have "batch_frames (ta_rf_seq a) (mem slot) \<noteq> []"
    by (simp add: batch_frames_def BATCH_FRAMES_def)
  ultimately show ?thesis
    using transmit_batch_sends [OF s] assms s by fastforce
next
  case False
  then show ?thesis
    using transmit_batch_refuses [OF False assms] by blast
qed

lemma transmit_batch_checked_witness:
  "fst (snd (transmit_batch (\<lambda>_. 8) id (\<lambda>_. sample_batch) 0 sample_send sample_announcement sample_tx)) = []"
  (is "fst (snd ?t) = []")
proof -
  obtain ret frames a' where t: "?t = (ret, frames, a')"
    using prod_cases3 by blast
  have "\<not> batch_accepted (\<lambda>_. 8) (\<lambda>_. sample_batch) sample_announcement slot" for slot
    by (simp add: batch_accepted_def sample_announcement_def)
  then show ?thesis
    using transmit_batch_checked [OF t] by (auto simp: t)
qed

end
