(* ===== verification/Slot_Protocol.thy ===== *)
theory Slot_Protocol
  imports Flpr_Main Tx_Frames "HOL-Library.Multiset"
begin

text \<open>
  The two cores of the transmitter together: the sensor core with its endpoint
  (\<open>Ipc_Tx\<close>), the application core with its bridge (\<open>Ipc_Bridge\<close>), the shared memory
  and the two directions of the ICMsg link, which carries every message it accepted
  once and in order. The steps are the operations of the components; a slot whose
  release could not be sent is recorded as lost.
\<close>

section \<open>The system\<close>

record ('f, 'b) slot_system =
  ss_lp :: "'f ipc_tx"
  ss_hp :: "'b ipc_bridge"
  ss_mem :: shared_memory
  ss_seq :: u32
  ss_lp_slot :: "u32 option"
  ss_hp_batch :: "rf_link_ipc_message option"
  ss_up :: "u8 list list"
  ss_down :: "u8 list list"
  ss_lost :: "rf_link_ipc_message list"

text \<open>
  \<open>Lp_Wait\<close> is the first, failed, get of \<open>ipc_tx_acquire_slot\<close>, \<open>Lp_Acquire\<close> the get
  that succeeds. \<open>Lp_Write\<close> is any store of the sensor core into its slot, and
  \<open>Lp_Publish\<close> completes the batch and announces it. The application core takes a
  batch (\<open>Hp_Take\<close>) and tries to give its slot back (\<open>Hp_Release\<close>).
\<close>

inductive slot_step ::
  "(u32, 'f) msgq_ops \<Rightarrow> (rf_link_ipc_message, 'b) msgq_ops \<Rightarrow> (u8 list \<Rightarrow> u32) \<Rightarrow>
   ('f, 'b) slot_system \<Rightarrow> ('f, 'b) slot_system \<Rightarrow> bool"
  for mqf :: "(u32, 'f) msgq_ops" and mqb :: "(rf_link_ipc_message, 'b) msgq_ops"
    and crc32 :: "u8 list \<Rightarrow> u32"
  where
  Lp_Wait: "ss_lp_slot s = None \<Longrightarrow> msgq_get mqf (it_free (ss_lp s)) = (Inl e, q) \<Longrightarrow>
     slot_step mqf mqb crc32 s (s\<lparr>ss_lp := map_it_stats (\<lambda>st. st\<lparr>its_slot_waits := its_slot_waits st + 1\<rparr>)
       ((ss_lp s)\<lparr>it_free := q\<rparr>)\<rparr>)"
| Lp_Acquire: "ss_lp_slot s = None \<Longrightarrow> msgq_get mqf (it_free (ss_lp s)) = (Inr i, q) \<Longrightarrow>
     slot_step mqf mqb crc32 s (s\<lparr>ss_lp := (ss_lp s)\<lparr>it_free := q\<rparr>, ss_lp_slot := Some i\<rparr>)"
| Lp_Write: "ss_lp_slot s = Some i \<Longrightarrow> rf_link_mems_batch_slot i = Some slot \<Longrightarrow>
     slot_step mqf mqb crc32 s (s\<lparr>ss_mem := (ss_mem s)(slot := b)\<rparr>)"
| Lp_Publish: "ss_lp_slot s = Some i \<Longrightarrow> rf_link_mems_batch_slot i = Some slot \<Longrightarrow>
     length samples = RF_LINK_MEMS_BATCH_SAMPLE_COUNT \<Longrightarrow>
     ipc_tx_publish_batch mqf i (ss_seq s) (crc32 (le16s samples)) False calls (ss_lp s) = Some (ret, out, lp) \<Longrightarrow>
     slot_step mqf mqb crc32 s (s\<lparr>ss_lp := lp, ss_lp_slot := None,
       ss_mem := (ss_mem s)(slot := filled_batch crc32 i (ss_seq s) t0 t1 samples),
       ss_up := ss_up s @ (case out of Some d \<Rightarrow> [d] | None \<Rightarrow> []),
       ss_seq := (if ret = 0 then ss_seq s + 1 else ss_seq s)\<rparr>)"
| Lp_Receive: "ss_down s = d # ds \<Longrightarrow>
     slot_step mqf mqb crc32 s (s\<lparr>ss_lp := tx_received mqf (Some d) (ss_lp s), ss_down := ds\<rparr>)"
| Hp_Receive: "ss_up s = u # us \<Longrightarrow>
     slot_step mqf mqb crc32 s (s\<lparr>ss_hp := bridge_received mqb (Some u) (ss_hp s), ss_up := us\<rparr>)"
| Hp_Take: "ss_hp_batch s = None \<Longrightarrow> ipc_bridge_wait_batch mqb False (ss_hp s) = (Inr m, hp) \<Longrightarrow>
     slot_step mqf mqb crc32 s (s\<lparr>ss_hp := hp, ss_hp_batch := Some m\<rparr>)"
| Hp_Release: "ss_hp_batch s = Some m \<Longrightarrow>
     release_attempts BATCH_RELEASE_RETRIES m calls 0 (ss_hp s) = Some (out, hp) \<Longrightarrow>
     slot_step mqf mqb crc32 s (s\<lparr>ss_hp := hp, ss_hp_batch := None,
       ss_down := ss_down s @ (case out of Some d \<Rightarrow> [d] | None \<Rightarrow> []),
       ss_lost := ss_lost s @ (case out of Some _ \<Rightarrow> [] | None \<Rightarrow> [m])\<rparr>)"

inductive slot_reach ::
  "(u32, 'f) msgq_ops \<Rightarrow> (rf_link_ipc_message, 'b) msgq_ops \<Rightarrow> (u8 list \<Rightarrow> u32) \<Rightarrow>
   ('f, 'b) slot_system \<Rightarrow> ('f, 'b) slot_system \<Rightarrow> bool"
  for mqf :: "(u32, 'f) msgq_ops" and mqb :: "(rf_link_ipc_message, 'b) msgq_ops"
    and crc32 :: "u8 list \<Rightarrow> u32" and s0 :: "('f, 'b) slot_system"
  where
  reach_refl: "slot_reach mqf mqb crc32 s0 s0"
| reach_step: "slot_reach mqf mqb crc32 s0 s \<Longrightarrow> slot_step mqf mqb crc32 s s' \<Longrightarrow> slot_reach mqf mqb crc32 s0 s'"

interpretation slots: reach_system "slot_step mqf mqb crc32" "slot_reach mqf mqb crc32" for mqf mqb crc32
proof
  show "slot_reach mqf mqb crc32 s s" for s :: "('a, 'b) slot_system"
    by (rule reach_refl)
  show "slot_reach mqf mqb crc32 s u" if "slot_reach mqf mqb crc32 s t" "slot_step mqf mqb crc32 t u"
    for s t u :: "('a, 'b) slot_system"
    using that by (rule reach_step)
  show "P t" if "slot_reach mqf mqb crc32 s t" "P s"
      "\<And>t u. slot_reach mqf mqb crc32 s t \<Longrightarrow> P t \<Longrightarrow> slot_step mqf mqb crc32 t u \<Longrightarrow> P u"
    for s t :: "('a, 'b) slot_system" and P
    using that(1)
  proof (induction rule: slot_reach.induct)
    case reach_refl
    show ?case by (rule that(2))
  next
    case (reach_step t u)
    show ?case by (rule that(3) [OF reach_step(1,3,2)])
  qed
qed

text \<open>The system as the two initialisations leave it, with nothing under way.\<close>

definition slot_start ::
  "(u32, 'f) msgq_ops \<Rightarrow> (rf_link_ipc_message, 'b) msgq_ops \<Rightarrow> ('f, 'b) slot_system \<Rightarrow> bool" where
  "slot_start mqf mqb s \<longleftrightarrow>
     (\<exists>lp lp_open lp_register. length (it_slot_batch_seq lp) = 2 \<and> length (it_slot_inflight lp) = 2 \<and>
        ipc_tx_init mqf True lp_open lp_register lp = (0, ss_lp s)) \<and>
     (\<exists>hp hp_open hp_register. ipc_bridge_init mqb True hp_open hp_register hp = (0, ss_hp s)) \<and>
     ss_lp_slot s = None \<and> ss_hp_batch s = None \<and> ss_up s = [] \<and> ss_down s = [] \<and> ss_lost s = []"

section \<open>Where a slot is\<close>

fun opt_list :: "'a option \<Rightarrow> 'a list" where
  "opt_list None = []"
| "opt_list (Some x) = [x]"

text \<open>The announcements that have not been given back, from the oldest stage on.\<close>

definition announced :: "('b \<Rightarrow> rf_link_ipc_message list) \<Rightarrow> ('f, 'b) slot_system \<Rightarrow> rf_link_ipc_message list" where
  "announced cb s = opt_list (ss_hp_batch s) @ cb (ib_batch (ss_hp s)) @ map ipc_message_of_bytes (ss_up s)"

definition in_flight :: "('b \<Rightarrow> rf_link_ipc_message list) \<Rightarrow> ('f, 'b) slot_system \<Rightarrow> (u32 \<times> u32) list" where
  "in_flight cb s = map (\<lambda>m. (im_slot_index m, im_batch_seq m))
     (announced cb s @ map ipc_message_of_bytes (ss_down s) @ ss_lost s)"

definition slot_places ::
  "('f \<Rightarrow> u32 list) \<Rightarrow> ('b \<Rightarrow> rf_link_ipc_message list) \<Rightarrow> ('f, 'b) slot_system \<Rightarrow> u32 list" where
  "slot_places cf cb s = cf (it_free (ss_lp s)) @ opt_list (ss_lp_slot s) @ map fst (in_flight cb s)"

definition is_ready :: "(u8 list \<Rightarrow> u32) \<Rightarrow> shared_memory \<Rightarrow> rf_link_ipc_message \<Rightarrow> bool" where
  "is_ready crc32 mem m \<longleftrightarrow> ready_message_ok m \<and>
     (\<exists>slot. batch_accepted crc32 mem m slot \<and> length (mb_samples (mem slot)) = RF_LINK_MEMS_BATCH_SAMPLE_COUNT)"

definition slot_invariant ::
  "('f \<Rightarrow> u32 list) \<Rightarrow> ('b \<Rightarrow> rf_link_ipc_message list) \<Rightarrow> (u8 list \<Rightarrow> u32) \<Rightarrow> ('f, 'b) slot_system \<Rightarrow> bool" where
  "slot_invariant cf cb crc32 s \<longleftrightarrow>
     mset (slot_places cf cb s) = {#0, 1 :: u32#} \<and>
     length (it_slot_inflight (ss_lp s)) = 2 \<and> length (it_slot_batch_seq (ss_lp s)) = 2 \<and>
     (\<forall>(i, n)\<in>set (in_flight cb s). it_slot_inflight (ss_lp s) ! unat i \<and> it_slot_batch_seq (ss_lp s) ! unat i = n) \<and>
     (\<forall>m\<in>set (announced cb s). is_ready crc32 (ss_mem s) m) \<and>
     (\<forall>u\<in>set (ss_up s). \<exists>m. u = ipc_message_bytes m) \<and>
     (\<forall>d\<in>set (ss_down s). \<exists>i n. d = ipc_message_bytes (release_message i n)) \<and>
     its_bad_release (it_stats (ss_lp s)) = 0 \<and>
     ibs_bad_size (ib_stats (ss_hp s)) = 0 \<and> ibs_bad_message (ib_stats (ss_hp s)) = 0 \<and>
     ibs_queue_drop (ib_stats (ss_hp s)) = 0"

section \<open>The operations on a slot\<close>

lemma places_pair:
  assumes "mset xs = {#0, 1 :: u32#}"
  shows "distinct xs" "set xs = {0, 1}" "length xs = 2"
proof -
  show "set xs = {0, 1}"
    using assms by (metis set_mset_mset set_mset_add_mset_insert set_mset_empty)
  show l: "length xs = 2"
    using assms by (metis size_mset size_add_mset size_empty One_nat_def Suc_1)
  have "card (set xs) = 2"
    using \<open>set xs = {0, 1}\<close> by simp
  then show "distinct xs"
    using l by (simp add: card_distinct)
qed

lemma release_message_fields [simp]:
  "im_slot_index (release_message i n) = i" "im_batch_seq (release_message i n) = n"
  "im_slot_index (ready_message i n c) = i" "im_batch_seq (ready_message i n c) = n"
  "im_sample_crc32 (ready_message i n c) = c"
  by (simp_all add: release_message_def ready_message_def)

lemma ready_message_valid:
  "i < RF_LINK_MEMS_BATCH_SLOT_COUNT \<Longrightarrow> ready_message_ok (ready_message i n c)"
  by (simp add: ready_message_ok_def ready_message_def)

lemma tx_received_release:
  assumes "msgq_spec mqf cf 2" "length (cf (it_free t)) < 2" "i < 2" "it_slot_inflight t ! unat i"
    "it_slot_batch_seq t ! unat i = n"
  shows "cf (it_free (tx_received mqf (Some (ipc_message_bytes (release_message i n))) t)) = cf (it_free t) @ [i]"
    and "it_slot_inflight (tx_received mqf (Some (ipc_message_bytes (release_message i n))) t) =
      (it_slot_inflight t)[unat i := False]"
    and "it_slot_batch_seq (tx_received mqf (Some (ipc_message_bytes (release_message i n))) t) = it_slot_batch_seq t"
    and "its_bad_release (it_stats (tx_received mqf (Some (ipc_message_bytes (release_message i n))) t)) =
      its_bad_release (it_stats t)"
proof -
  obtain r q where p: "msgq_put mqf i (it_free t) = (r, q)"
    by fastforce
  note ok = msgq_put_ok [OF assms(1) p]
  have h: "im_magic (release_message i n) = RF_LINK_IPC_MAGIC" "im_version (release_message i n) = RF_LINK_IPC_VERSION"
    "im_type (release_message i n) = RF_LINK_IPC_BATCH_RELEASE"
    by (simp_all add: release_message_def)
  have "tx_received mqf (Some (ipc_message_bytes (release_message i n))) t =
      map_it_stats (\<lambda>s. s\<lparr>its_released := its_released s + 1\<rparr>)
        (t\<lparr>it_slot_inflight := (it_slot_inflight t)[unat i := False], it_free := q\<rparr>)"
    using assms(2-5) p ok by (simp add: tx_received_def h IPC_MESSAGE_SIZE_def RF_LINK_MEMS_BATCH_SLOT_COUNT_def)
  then show "cf (it_free (tx_received mqf (Some (ipc_message_bytes (release_message i n))) t)) = cf (it_free t) @ [i]"
    "it_slot_inflight (tx_received mqf (Some (ipc_message_bytes (release_message i n))) t) =
      (it_slot_inflight t)[unat i := False]"
    "it_slot_batch_seq (tx_received mqf (Some (ipc_message_bytes (release_message i n))) t) = it_slot_batch_seq t"
    "its_bad_release (it_stats (tx_received mqf (Some (ipc_message_bytes (release_message i n))) t)) =
      its_bad_release (it_stats t)"
    using ok assms(2) by simp_all
qed

lemma bridge_received_ready:
  assumes "msgq_spec mqb cb 2" "length (cb (ib_batch b)) < 2" "ready_message_ok m"
  shows "cb (ib_batch (bridge_received mqb (Some (ipc_message_bytes m)) b)) = cb (ib_batch b) @ [m]"
    and "ibs_bad_size (ib_stats (bridge_received mqb (Some (ipc_message_bytes m)) b)) = ibs_bad_size (ib_stats b)"
    and "ibs_bad_message (ib_stats (bridge_received mqb (Some (ipc_message_bytes m)) b)) = ibs_bad_message (ib_stats b)"
    and "ibs_queue_drop (ib_stats (bridge_received mqb (Some (ipc_message_bytes m)) b)) = ibs_queue_drop (ib_stats b)"
proof -
  obtain r q where p: "msgq_put mqb m (ib_batch b) = (r, q)"
    by fastforce
  note ok = msgq_put_ok [OF assms(1) p]
  have "bridge_received mqb (Some (ipc_message_bytes m)) b =
      map_ib_stats (\<lambda>s. s\<lparr>ibs_queued := ibs_queued s + 1\<rparr>)
        ((map_ib_stats (\<lambda>s. s\<lparr>ibs_received := ibs_received s + 1\<rparr>) b)\<lparr>ib_batch := q\<rparr>)"
    using assms(2,3) p ok by (simp add: bridge_received_def IPC_MESSAGE_SIZE_def Let_def)
  then show "cb (ib_batch (bridge_received mqb (Some (ipc_message_bytes m)) b)) = cb (ib_batch b) @ [m]"
    "ibs_bad_size (ib_stats (bridge_received mqb (Some (ipc_message_bytes m)) b)) = ibs_bad_size (ib_stats b)"
    "ibs_bad_message (ib_stats (bridge_received mqb (Some (ipc_message_bytes m)) b)) = ibs_bad_message (ib_stats b)"
    "ibs_queue_drop (ib_stats (bridge_received mqb (Some (ipc_message_bytes m)) b)) = ibs_queue_drop (ib_stats b)"
    using ok assms(2) by (simp_all add: map_ib_stats_def)
qed

lemma publish_effect:
  assumes "msgq_spec mqf cf 2" "length (cf (it_free t)) < 2" "i < 2" "length (it_slot_inflight t) = 2"
    and "ipc_tx_publish_batch mqf i n crc False calls t = Some (ret, out, t')"
  obtains (sent) "ret = 0" "out = Some (ipc_message_bytes (ready_message i n crc))"
      "cf (it_free t') = cf (it_free t)" "it_slot_inflight t' = (it_slot_inflight t)[unat i := True]"
      "it_slot_batch_seq t' = (it_slot_batch_seq t)[unat i := n]"
      "its_bad_release (it_stats t') = its_bad_release (it_stats t)"
  | (failed) "ret \<noteq> 0" "out = None"
      "cf (it_free t') = cf (it_free t) @ [i]" "it_slot_inflight t' = (it_slot_inflight t)[unat i := False]"
      "it_slot_batch_seq t' = (it_slot_batch_seq t)[unat i := n]"
      "its_bad_release (it_stats t') = its_bad_release (it_stats t)"
proof -
  obtain r q where p: "msgq_put mqf i (it_free t) = (r, q)"
    by fastforce
  note ok = msgq_put_ok [OF assms(1) p]
  show ?thesis
    using assms(2-5) ok p sent failed
    by (auto simp: ipc_tx_publish_batch_def RF_LINK_MEMS_BATCH_SLOT_COUNT_def Let_def
        split: option.splits sum.splits prod.splits dest: send_loop_error)
qed

lemma release_attempts_effect:
  "release_attempts n m calls k b = Some (out, b') \<Longrightarrow>
   ib_batch b' = ib_batch b \<and> ibs_bad_size (ib_stats b') = ibs_bad_size (ib_stats b) \<and>
   ibs_bad_message (ib_stats b') = ibs_bad_message (ib_stats b) \<and>
   ibs_queue_drop (ib_stats b') = ibs_queue_drop (ib_stats b) \<and>
   (out = None \<or> out = Some (ipc_message_bytes (release_message (im_slot_index m) (im_batch_seq m))))"
proof (induction n arbitrary: k b)
  case (Suc n)
  show ?case
  proof (cases "send_loop False (calls k) 0")
    case None
    then show ?thesis
      using Suc.prems by (simp add: ipc_bridge_release_batch_def)
  next
    case (Some rk)
    obtain r c where rk: "rk = (r, c)"
      by fastforce
    show ?thesis
    proof (cases r)
      case (Inl e)
      then have "e \<noteq> 0"
        using Some rk send_loop_error by blast
      then show ?thesis
        using Suc.prems Suc.IH Some rk Inl by (fastforce simp: ipc_bridge_release_batch_def)
    next
      case (Inr u)
      then show ?thesis
        using Suc.prems Some rk by (auto simp: ipc_bridge_release_batch_def)
    qed
  qed
qed simp

section \<open>Every step keeps the invariant\<close>

lemma invariant_places:
  assumes "slot_invariant cf cb crc32 s"
  shows "distinct (slot_places cf cb s)" "set (slot_places cf cb s) = {0, 1}" "length (slot_places cf cb s) = 2"
  using assms places_pair [of "slot_places cf cb s"] by (simp_all add: slot_invariant_def)

lemma small_slot: "i \<in> {0, 1 :: u32} \<Longrightarrow> i < 2 \<and> unat i < 2"
  by auto

lemma holder_apart:
  assumes "slot_invariant cf cb crc32 s" "ss_lp_slot s = Some i"
  shows "i \<in> {0, 1}" "p \<in> set (in_flight cb s) \<Longrightarrow> fst p \<noteq> i" "length (cf (it_free (ss_lp s))) < 2"
  using invariant_places [OF assms(1)] assms(2) by (auto simp: slot_places_def)

lemma announced_in_flight:
  "m \<in> set (announced cb s) \<Longrightarrow> (im_slot_index m, im_batch_seq m) \<in> set (in_flight cb s)"
  by (auto simp: in_flight_def)

lemma is_ready_other:
  assumes "is_ready crc32 mem m" "rf_link_mems_batch_slot i = Some slot" "im_slot_index m \<noteq> i"
  shows "is_ready crc32 (mem(slot := b)) m"
proof -
  obtain slot' where a: "batch_accepted crc32 mem m slot'"
    "length (mb_samples (mem slot')) = RF_LINK_MEMS_BATCH_SAMPLE_COUNT" and r: "ready_message_ok m"
    using assms(1) by (auto simp: is_ready_def)
  have "slot' \<noteq> slot"
    using a(1) assms(2,3) mems_batch_slot_inj by (auto simp: batch_accepted_def)
  then have "batch_accepted crc32 (mem(slot := b)) m slot' \<and>
      length (mb_samples ((mem(slot := b)) slot')) = RF_LINK_MEMS_BATCH_SAMPLE_COUNT"
    using a by (simp add: batch_accepted_def)
  then show ?thesis
    using r by (auto simp: is_ready_def)
qed

lemma is_ready_filled:
  assumes "rf_link_mems_batch_slot i = Some slot" "i < 2"
    and "length samples = RF_LINK_MEMS_BATCH_SAMPLE_COUNT"
  shows "is_ready crc32 (mem(slot := filled_batch crc32 i n t0 t1 samples)) (ready_message i n (crc32 (le16s samples)))"
proof -
  have "batch_accepted crc32 (mem(slot := filled_batch crc32 i n t0 t1 samples))
      (ready_message i n (crc32 (le16s samples))) slot"
    using assms(1) by (simp add: batch_accepted_def batch_header_is_valid_def filled_batch_def)
  moreover have "ready_message_ok (ready_message i n (crc32 (le16s samples)))"
    using assms(2) ready_message_valid by (simp add: RF_LINK_MEMS_BATCH_SLOT_COUNT_def)
  ultimately show ?thesis
    using assms(3) by (auto simp: is_ready_def filled_batch_def intro!: exI [of _ slot])
qed

lemma invariant_acquire:
  assumes "slot_invariant cf cb crc32 s" "msgq_spec mqf cf 2" "ss_lp_slot s = None"
    and "msgq_get mqf (it_free (ss_lp s)) = (r, q)" "\<And>st. its_bad_release (f st) = its_bad_release st"
  shows "r = Inl e \<Longrightarrow> slot_invariant cf cb crc32 (s\<lparr>ss_lp := map_it_stats f ((ss_lp s)\<lparr>it_free := q\<rparr>)\<rparr>)"
    and "r = Inr i \<Longrightarrow> slot_invariant cf cb crc32 (s\<lparr>ss_lp := (ss_lp s)\<lparr>it_free := q\<rparr>, ss_lp_slot := Some i\<rparr>)"
proof -
  note ok = msgq_get_ok [OF assms(2) assms(4)]
  show "slot_invariant cf cb crc32 (s\<lparr>ss_lp := map_it_stats f ((ss_lp s)\<lparr>it_free := q\<rparr>)\<rparr>)" if "r = Inl e"
  proof -
    have "cf (it_free (ss_lp s)) = []"
      using ok(1) that by (cases "cf (it_free (ss_lp s))") auto
    then show ?thesis
      using assms(1,5) ok(2) by (simp add: slot_invariant_def slot_places_def in_flight_def announced_def)
  qed
  show "slot_invariant cf cb crc32 (s\<lparr>ss_lp := (ss_lp s)\<lparr>it_free := q\<rparr>, ss_lp_slot := Some i\<rparr>)" if r: "r = Inr i"
  proof -
    obtain ms where f: "cf (it_free (ss_lp s)) = i # ms"
      using ok(1) [of i] r by blast
    then have "cf q = ms"
      using ok(2) by simp
    then show ?thesis
      using assms(1,3) f by (simp add: slot_invariant_def slot_places_def in_flight_def announced_def)
  qed
qed

lemma invariant_write:
  assumes "slot_invariant cf cb crc32 s" "ss_lp_slot s = Some i" "rf_link_mems_batch_slot i = Some slot"
  shows "slot_invariant cf cb crc32 (s\<lparr>ss_mem := (ss_mem s)(slot := b)\<rparr>)"
proof -
  have "is_ready crc32 ((ss_mem s)(slot := b)) m" if "m \<in> set (announced cb s)" for m
    using that assms is_ready_other holder_apart(2) [OF assms(1,2) announced_in_flight [OF that]]
    by (fastforce simp: slot_invariant_def)
  then show ?thesis
    using assms(1) by (auto simp: slot_invariant_def slot_places_def in_flight_def announced_def)
qed

lemma upd_other_slot:
  fixes i j :: u32
  shows "j \<noteq> i \<Longrightarrow> xs[unat i := x] ! unat j = xs ! unat j"
  by (simp add: word_unat_eq_iff)

lemma invariant_publish:
  assumes inv: "slot_invariant cf cb crc32 s" and mq: "msgq_spec mqf cf 2"
    and held: "ss_lp_slot s = Some i" "rf_link_mems_batch_slot i = Some slot"
    and len: "length samples = RF_LINK_MEMS_BATCH_SAMPLE_COUNT"
    and pub: "ipc_tx_publish_batch mqf i (ss_seq s) (crc32 (le16s samples)) False calls (ss_lp s) = Some (ret, out, lp)"
  shows "slot_invariant cf cb crc32 (s\<lparr>ss_lp := lp, ss_lp_slot := None,
    ss_mem := (ss_mem s)(slot := filled_batch crc32 i (ss_seq s) t0 t1 samples),
    ss_up := ss_up s @ (case out of Some d \<Rightarrow> [d] | None \<Rightarrow> []), ss_seq := n\<rparr>)"
proof -
  note apart = holder_apart [OF inv held(1)]
  have i: "i < 2" "unat i < 2"
    using small_slot [OF apart(1)] by simp_all
  have l: "length (it_slot_inflight (ss_lp s)) = 2" "length (it_slot_batch_seq (ss_lp s)) = 2"
    using inv by (simp_all add: slot_invariant_def)
  let ?mem = "(ss_mem s)(slot := filled_batch crc32 i (ss_seq s) t0 t1 samples)"
  have old: "is_ready crc32 ?mem m" if "m \<in> set (announced cb s)" for m
    using that inv is_ready_other [OF _ held(2)] apart(2) [OF announced_in_flight [OF that]]
    by (fastforce simp: slot_invariant_def)
  have flags: "(it_slot_inflight (ss_lp s))[unat i := x] ! unat j"
      "(it_slot_batch_seq (ss_lp s))[unat i := k] ! unat j = m" if "(j, m) \<in> set (in_flight cb s)" for j m x k
    using that inv apart(2) [OF that] by (auto simp: slot_invariant_def upd_other_slot)
  from mq apart(3) i(1) l(1) pub show ?thesis
  proof (cases rule: publish_effect)
    case sent
    let ?m = "ready_message i (ss_seq s) (crc32 (le16s samples))"
    let ?s = "s\<lparr>ss_lp := lp, ss_lp_slot := None, ss_mem := ?mem, ss_up := ss_up s @ [ipc_message_bytes ?m], ss_seq := n\<rparr>"
    have a: "announced cb ?s = announced cb s @ [?m]"
      by (simp add: announced_def)
    then have f: "mset (in_flight cb ?s) = mset (in_flight cb s) + {#(i, ss_seq s)#}"
      by (simp add: in_flight_def)
    then have p: "mset (slot_places cf cb ?s) = mset (slot_places cf cb s)"
      using held(1) sent(3) by (simp add: slot_places_def)
    have g: "set (in_flight cb ?s) = insert (i, ss_seq s) (set (in_flight cb s))"
      using f by (metis set_mset_mset set_mset_add_mset_insert add_mset_add_single)
    have "slot_invariant cf cb crc32 ?s"
      using inv p l i(2) flags old is_ready_filled [OF held(2) i(1) len] sent
      unfolding slot_invariant_def a g by auto
    then show ?thesis
      by (simp add: sent(2))
  next
    case failed
    let ?s = "s\<lparr>ss_lp := lp, ss_lp_slot := None, ss_mem := ?mem, ss_up := ss_up s, ss_seq := n\<rparr>"
    have a: "announced cb ?s = announced cb s" "in_flight cb ?s = in_flight cb s"
      by (simp_all add: announced_def in_flight_def)
    then have p: "mset (slot_places cf cb ?s) = mset (slot_places cf cb s)"
      using held(1) failed(3) by (simp add: slot_places_def)
    have "slot_invariant cf cb crc32 ?s"
      using inv p l i(2) flags old failed unfolding slot_invariant_def a by auto
    then show ?thesis
      by (simp add: failed(2))
  qed
qed

lemma invariant_lp_receive:
  assumes inv: "slot_invariant cf cb crc32 s" and mq: "msgq_spec mqf cf 2" and down: "ss_down s = d # ds"
  shows "slot_invariant cf cb crc32 (s\<lparr>ss_lp := tx_received mqf (Some d) (ss_lp s), ss_down := ds\<rparr>)"
    (is "slot_invariant cf cb crc32 ?s")
    and lp_receive_frees: "cf (it_free (tx_received mqf (Some d) (ss_lp s))) \<noteq> []"
proof -
  obtain i n where d: "d = ipc_message_bytes (release_message i n)"
    using inv down by (auto simp: slot_invariant_def)
  have f: "mset (in_flight cb s) = add_mset (i, n) (mset (in_flight cb ?s))"
    by (simp add: in_flight_def announced_def down d)
  then have fs: "set (in_flight cb s) = insert (i, n) (set (in_flight cb ?s))"
    by (metis set_mset_mset set_mset_add_mset_insert)
  have pl: "mset (slot_places cf cb s) =
      add_mset i (mset (cf (it_free (ss_lp s)) @ opt_list (ss_lp_slot s) @ map fst (in_flight cb ?s)))"
    using f by (simp add: slot_places_def)
  have p: "set (slot_places cf cb s) = insert i (set (cf (it_free (ss_lp s))) \<union> set (map fst (in_flight cb ?s)) \<union>
      set (opt_list (ss_lp_slot s)))"
    using fs by (auto simp: slot_places_def)
  have i: "i < 2" "unat i < 2"
    using invariant_places(2) [OF inv] p small_slot [of i] by auto
  have other: "fst q \<noteq> i" if "q \<in> set (in_flight cb ?s)" for q
  proof -
    have "distinct (i # cf (it_free (ss_lp s)) @ opt_list (ss_lp_slot s) @ map fst (in_flight cb ?s))"
      using pl invariant_places(1) [OF inv] by (metis mset.simps(2) mset_eq_imp_distinct_iff)
    then show ?thesis
      using that by auto
  qed
  have "length (in_flight cb s) = Suc (length (in_flight cb ?s))"
    using f by (metis size_mset size_add_mset)
  then have room: "length (cf (it_free (ss_lp s))) < 2"
    using invariant_places(3) [OF inv] by (simp add: slot_places_def)
  have fl: "it_slot_inflight (ss_lp s) ! unat i" "it_slot_batch_seq (ss_lp s) ! unat i = n"
    using inv fs by (auto simp: slot_invariant_def)
  note r = tx_received_release [OF mq room i(1) fl]
  have pm: "mset (slot_places cf cb ?s) = mset (slot_places cf cb s)"
    using pl r(1) by (simp add: slot_places_def d)
  have an: "announced cb ?s = announced cb s"
    by (simp add: announced_def)
  have "case q of (j, m) \<Rightarrow> it_slot_inflight (ss_lp ?s) ! unat j \<and> it_slot_batch_seq (ss_lp ?s) ! unat j = m"
    if "q \<in> set (in_flight cb ?s)" for q
    using other [OF that] inv fs that by (auto simp: d r upd_other_slot slot_invariant_def)
  then show "slot_invariant cf cb crc32 ?s"
    using inv pm an r down by (auto simp: slot_invariant_def d)
  show "cf (it_free (tx_received mqf (Some d) (ss_lp s))) \<noteq> []"
    by (simp add: d r)
qed

text \<open>A step that only moves announcements along keeps the invariant.\<close>

lemma invariant_moved:
  assumes inv: "slot_invariant cf cb crc32 s"
    and same: "ss_lp s' = ss_lp s" "ss_mem s' = ss_mem s" "ss_lp_slot s' = ss_lp_slot s"
    and flight: "mset (in_flight cb s') = mset (in_flight cb s)"
    and ann: "set (announced cb s') \<subseteq> set (announced cb s)"
    and msgs: "set (ss_up s') \<subseteq> set (ss_up s)"
      "\<forall>d\<in>set (ss_down s') - set (ss_down s). \<exists>i n. d = ipc_message_bytes (release_message i n)"
    and stats: "ibs_bad_size (ib_stats (ss_hp s')) = ibs_bad_size (ib_stats (ss_hp s))"
      "ibs_bad_message (ib_stats (ss_hp s')) = ibs_bad_message (ib_stats (ss_hp s))"
      "ibs_queue_drop (ib_stats (ss_hp s')) = ibs_queue_drop (ib_stats (ss_hp s))"
  shows "slot_invariant cf cb crc32 s'"
proof -
  have f: "set (in_flight cb s') = set (in_flight cb s)"
    using flight by (rule mset_eq_setD)
  have p: "mset (slot_places cf cb s') = mset (slot_places cf cb s)"
    using flight by (simp add: slot_places_def same)
  show ?thesis
    using inv ann msgs unfolding slot_invariant_def p f same stats
    by (elim conjE, intro conjI) (assumption | blast)+
qed

lemma invariant_hp_receive:
  assumes inv: "slot_invariant cf cb crc32 s" and mq: "msgq_spec mqb cb 2" and up: "ss_up s = u # us"
  shows "slot_invariant cf cb crc32 (s\<lparr>ss_hp := bridge_received mqb (Some u) (ss_hp s), ss_up := us\<rparr>)"
    and "cb (ib_batch (bridge_received mqb (Some u) (ss_hp s))) \<noteq> []"
proof -
  obtain m where u: "u = ipc_message_bytes m"
    using inv up by (auto simp: slot_invariant_def)
  have "m \<in> set (announced cb s)"
    by (simp add: announced_def up u)
  then have ok: "ready_message_ok m"
    using inv by (auto simp: slot_invariant_def is_ready_def)
  have room: "length (cb (ib_batch (ss_hp s))) < 2"
    using invariant_places(3) [OF inv] up by (simp add: slot_places_def in_flight_def announced_def)
  note r = bridge_received_ready [OF mq room ok]
  show "slot_invariant cf cb crc32 (s\<lparr>ss_hp := bridge_received mqb (Some u) (ss_hp s), ss_up := us\<rparr>)"
    by (rule invariant_moved [OF inv]) (simp_all add: in_flight_def announced_def up u r subset_insertI)
  show "cb (ib_batch (bridge_received mqb (Some u) (ss_hp s))) \<noteq> []"
    by (simp add: u r)
qed

lemma wait_batch_effect:
  assumes "msgq_spec mqb cb 2" "ipc_bridge_wait_batch mqb False b = (Inr m, b')"
  shows "cb (ib_batch b) = m # cb (ib_batch b')" "ib_stats b' = ib_stats b"
proof -
  obtain r q where g: "msgq_get mqb (ib_batch b) = (r, q)"
    by fastforce
  then have r: "r = Inr m" "b' = b\<lparr>ib_batch := q\<rparr>"
    using assms(2) by (simp_all add: ipc_bridge_wait_batch_def)
  note ok = msgq_get_ok [OF assms(1) g]
  obtain ms where "cb (ib_batch b) = m # ms"
    using ok(1) [of m] r(1) by blast
  then show "cb (ib_batch b) = m # cb (ib_batch b')" "ib_stats b' = ib_stats b"
    using ok(2) r(2) by simp_all
qed

lemma invariant_hp_take:
  assumes inv: "slot_invariant cf cb crc32 s" and mq: "msgq_spec mqb cb 2" and "ss_hp_batch s = None"
    and get: "ipc_bridge_wait_batch mqb False (ss_hp s) = (Inr m, hp)"
  shows "slot_invariant cf cb crc32 (s\<lparr>ss_hp := hp, ss_hp_batch := Some m\<rparr>)"
  using wait_batch_effect [OF mq get] assms(3)
  by (intro invariant_moved [OF inv]) (simp_all add: in_flight_def announced_def)

lemma invariant_hp_release:
  assumes inv: "slot_invariant cf cb crc32 s" and held: "ss_hp_batch s = Some m"
    and rel: "release_attempts n m calls k (ss_hp s) = Some (out, hp)"
  shows "slot_invariant cf cb crc32 (s\<lparr>ss_hp := hp, ss_hp_batch := None,
    ss_down := ss_down s @ (case out of Some d \<Rightarrow> [d] | None \<Rightarrow> []),
    ss_lost := ss_lost s @ (case out of Some _ \<Rightarrow> [] | None \<Rightarrow> [m])\<rparr>)"
  using release_attempts_effect [OF rel] held
  by (intro invariant_moved [OF inv]) (auto simp: in_flight_def announced_def)

lemma slot_step_invariant:
  assumes "slot_step mqf mqb crc32 s s'" "slot_invariant cf cb crc32 s" "msgq_spec mqf cf 2" "msgq_spec mqb cb 2"
  shows "slot_invariant cf cb crc32 s'"
  using assms(1)
proof cases
  case (Lp_Wait e q)
  then show ?thesis
    using invariant_acquire(1) [OF assms(2,3) Lp_Wait(2,3)] by simp
next
  case (Lp_Acquire i q)
  then show ?thesis
    using invariant_acquire(2) [OF assms(2,3) Lp_Acquire(2,3), where f = id] by simp
next
  case (Lp_Write i slot b)
  then show ?thesis
    using invariant_write [OF assms(2)] by simp
next
  case (Lp_Publish i slot samples calls ret out lp t0 t1)
  then show ?thesis
    using invariant_publish [OF assms(2,3)] by simp
next
  case (Lp_Receive d ds)
  then show ?thesis
    using invariant_lp_receive [OF assms(2,3)] by simp
next
  case (Hp_Receive u us)
  then show ?thesis
    using invariant_hp_receive [OF assms(2,4)] by simp
next
  case (Hp_Take m hp)
  then show ?thesis
    using invariant_hp_take [OF assms(2,4)] by simp
next
  case (Hp_Release m calls out hp)
  then show ?thesis
    using invariant_hp_release [OF assms(2)] by simp
qed

lemma free_slots_effect:
  assumes "msgq_spec mqf cf 2" "free_slots mqf [0, 1] t = (0, t')" "cf (it_free t) = []"
  shows "cf (it_free t') = [0, 1] \<and> length (it_slot_inflight t') = length (it_slot_inflight t) \<and>
    length (it_slot_batch_seq t') = length (it_slot_batch_seq t)"
proof -
  obtain r0 q0 where p0: "msgq_put mqf 0 (it_free t) = (r0, q0)"
    by fastforce
  obtain r1 q1 where p1: "msgq_put mqf 1 q0 = (r1, q1)"
    by fastforce
  show ?thesis
    using msgq_put_ok [OF assms(1) p0] msgq_put_ok [OF assms(1) p1] assms(2,3) p0 p1
    by (auto simp: Let_def split: if_splits)
qed

lemma slot_start_invariant:
  assumes "slot_start mqf mqb s" "msgq_spec mqf cf 2" "msgq_spec mqb cb 2"
  shows "slot_invariant cf cb crc32 s"
proof -
  obtain lp open_ret reg_ret where lp: "length (it_slot_batch_seq lp) = 2" "length (it_slot_inflight lp) = 2"
    "ipc_tx_init mqf True open_ret reg_ret lp = (0, ss_lp s)"
    using assms(1) by (auto simp: slot_start_def)
  obtain hp open_b reg_b where hp: "ipc_bridge_init mqb True open_b reg_b hp = (0, ss_hp s)"
    using assms(1) by (auto simp: slot_start_def)
  obtain r t where f: "free_slots mqf [0, 1] (lp\<lparr>it_free := msgq_purge mqf (it_free lp)\<rparr>) = (r, t)"
    by fastforce
  have l: "r = 0" "ss_lp s = t\<lparr>it_stats := zero_ipc_tx_stats\<rparr>"
    using lp(3) f unfolding ipc_tx_init_def by (auto simp: Let_def split: if_splits)
  have e: "cf (it_free (lp\<lparr>it_free := msgq_purge mqf (it_free lp)\<rparr>)) = []"
    using msgq_purge_ok [OF assms(2)] by simp
  have c: "cf (it_free (ss_lp s)) = [0, 1]" "length (it_slot_inflight (ss_lp s)) = 2"
    "length (it_slot_batch_seq (ss_lp s)) = 2"
    using free_slots_effect [OF assms(2) f [unfolded l(1)] e] lp(1,2) l(2) by simp_all
  have "ss_hp s = hp\<lparr>ib_batch := msgq_purge mqb (ib_batch hp), ib_stats := zero_bridge_stats\<rparr>"
    using hp by (auto simp: ipc_bridge_init_def Let_def split: if_splits)
  then have b: "cb (ib_batch (ss_hp s)) = []" "ib_stats (ss_hp s) = zero_bridge_stats"
    using msgq_purge_ok [OF assms(3)] by simp_all
  show ?thesis
    using assms(1) b c
    by (simp add: slot_start_def slot_invariant_def slot_places_def in_flight_def announced_def l(2)
        zero_ipc_tx_stats_def zero_bridge_stats_def)
qed

lemma slot_reach_invariant:
  assumes "slot_reach mqf mqb crc32 s0 s" "slot_start mqf mqb s0" "msgq_spec mqf cf 2" "msgq_spec mqb cb 2"
  shows "slot_invariant cf cb crc32 s"
  by (rule slots.invariant [OF assms(1)]) (auto intro: slot_start_invariant slot_step_invariant assms)

end
