(* ===== verification/Slot_Properties.thy ===== *)
theory Slot_Properties
  imports Slot_Protocol
begin

text \<open>
  What the slot protocol guarantees: a slot has one owner, every batch the
  application core takes passes its checks, a slot comes back as long as releases
  can be sent, and a slot whose release could not be sent is lost for good.
\<close>

section \<open>Progress\<close>

inductive_cases slot_stepE: "slot_step mqf mqb crc32 s s'"

definition lp_can_fill ::
  "(u32, 'f) msgq_ops \<Rightarrow> (rf_link_ipc_message, 'b) msgq_ops \<Rightarrow> (u8 list \<Rightarrow> u32) \<Rightarrow> ('f, 'b) slot_system \<Rightarrow> bool" where
  "lp_can_fill mqf mqb crc32 s \<longleftrightarrow> (\<exists>s'. slot_reach mqf mqb crc32 s s' \<and> ss_lp_slot s' \<noteq> None)"

lemma can_fill_step:
  "slot_step mqf mqb crc32 s s' \<Longrightarrow> lp_can_fill mqf mqb crc32 s' \<Longrightarrow> lp_can_fill mqf mqb crc32 s"
  unfolding lp_can_fill_def by (blast intro: slots.first)

lemma can_fill_free:
  assumes "msgq_spec mqf cf 2" "cf (it_free (ss_lp s)) \<noteq> []"
  shows "lp_can_fill mqf mqb crc32 s"
proof (cases "ss_lp_slot s")
  case None
  obtain r q where g: "msgq_get mqf (it_free (ss_lp s)) = (r, q)"
    by fastforce
  obtain i where "r = Inr i"
    using msgq_get_ok(1) [OF assms(1) g] assms(2) by (cases "cf (it_free (ss_lp s))") auto
  then have "slot_step mqf mqb crc32 s (s\<lparr>ss_lp := (ss_lp s)\<lparr>it_free := q\<rparr>, ss_lp_slot := Some i\<rparr>)"
    using g None by (intro slot_step.Lp_Acquire) simp_all
  then show ?thesis
    by (rule can_fill_step) (auto simp: lp_can_fill_def intro: reach_refl)
next
  case (Some i)
  then show ?thesis
    by (auto simp: lp_can_fill_def intro: reach_refl)
qed

lemma can_fill_down:
  assumes "slot_invariant cf cb crc32 s" "msgq_spec mqf cf 2" "ss_down s \<noteq> []"
  shows "lp_can_fill mqf mqb crc32 s"
proof -
  obtain d ds where d: "ss_down s = d # ds"
    using assms(3) by (cases "ss_down s") auto
  have "cf (it_free (tx_received mqf (Some d) (ss_lp s))) \<noteq> []"
    using lp_receive_frees [OF assms(1,2) d] by simp
  then have "lp_can_fill mqf mqb crc32 (s\<lparr>ss_lp := tx_received mqf (Some d) (ss_lp s), ss_down := ds\<rparr>)"
    by (intro can_fill_free [OF assms(2)]) simp
  then show ?thesis
    using slot_step.Lp_Receive [OF d] can_fill_step by blast
qed

lemma release_first_try:
  "release_attempts (Suc n) m (\<lambda>_. [(0, False)]) k b =
   Some (Some (ipc_message_bytes (release_message (im_slot_index m) (im_batch_seq m))),
     map_ib_stats (\<lambda>s. s\<lparr>ibs_releases := ibs_releases s + 1\<rparr>) b)"
  by (simp add: ipc_bridge_release_batch_def send_accepted_def)

lemma can_fill_batch:
  assumes "slot_invariant cf cb crc32 s" "msgq_spec mqf cf 2" "ss_hp_batch s = Some m"
  shows "lp_can_fill mqf mqb crc32 s"
proof -
  have r: "BATCH_RELEASE_RETRIES = Suc 2"
    by (simp add: BATCH_RELEASE_RETRIES_def)
  from slot_step.Hp_Release [OF assms(3) release_first_try [of 2, folded r], of mqf mqb crc32]
  obtain s' where s': "slot_step mqf mqb crc32 s s'" "ss_lp s' = ss_lp s" "ss_down s' \<noteq> []"
    "slot_invariant cf cb crc32 s'"
    using invariant_hp_release [OF assms(1,3) release_first_try [of 2, folded r]] by fastforce
  show ?thesis
    using can_fill_step [OF s'(1)] can_fill_down [OF s'(4) assms(2) s'(3)] by blast
qed

lemma can_fill_queue:
  assumes "slot_invariant cf cb crc32 s" "msgq_spec mqf cf 2" "msgq_spec mqb cb 2" "cb (ib_batch (ss_hp s)) \<noteq> []"
  shows "lp_can_fill mqf mqb crc32 s"
proof (cases "ss_hp_batch s")
  case None
  obtain r q where g: "msgq_get mqb (ib_batch (ss_hp s)) = (r, q)"
    by fastforce
  obtain m where "r = Inr m"
    using msgq_get_ok(1) [OF assms(3) g] assms(4) by (cases "cb (ib_batch (ss_hp s))") auto
  then have w: "ipc_bridge_wait_batch mqb False (ss_hp s) = (Inr m, (ss_hp s)\<lparr>ib_batch := q\<rparr>)"
    using g by (simp add: ipc_bridge_wait_batch_def)
  have "lp_can_fill mqf mqb crc32 (s\<lparr>ss_hp := (ss_hp s)\<lparr>ib_batch := q\<rparr>, ss_hp_batch := Some m\<rparr>)"
    by (rule can_fill_batch [OF invariant_hp_take [OF assms(1,3) None w] assms(2)]) simp
  then show ?thesis
    using slot_step.Hp_Take [OF None w] can_fill_step by blast
next
  case (Some m)
  then show ?thesis
    using can_fill_batch [OF assms(1,2)] by blast
qed

lemma can_fill_up:
  assumes "slot_invariant cf cb crc32 s" "msgq_spec mqf cf 2" "msgq_spec mqb cb 2" "ss_up s \<noteq> []"
  shows "lp_can_fill mqf mqb crc32 s"
proof -
  obtain u us where u: "ss_up s = u # us"
    using assms(4) by (cases "ss_up s") auto
  note r = invariant_hp_receive [OF assms(1,3) u]
  have "lp_can_fill mqf mqb crc32 (s\<lparr>ss_hp := bridge_received mqb (Some u) (ss_hp s), ss_up := us\<rparr>)"
    using r(2) by (intro can_fill_queue [OF r(1) assms(2,3)]) simp
  then show ?thesis
    using slot_step.Hp_Receive [OF u] can_fill_step by blast
qed

section \<open>Lost slots\<close>

lemma lost_grows:
  "slot_reach mqf mqb crc32 s s' \<Longrightarrow> \<exists>more. ss_lost s' = ss_lost s @ more"
proof (induction rule: slot_reach.induct)
  case (reach_step s1 s2)
  have "\<exists>more. ss_lost s2 = ss_lost s1 @ more"
    using reach_step(2) by (elim slot_stepE) auto
  then show ?case
    using reach_step(3) by auto
qed simp

lemma both_lost_stuck:
  assumes "slot_invariant cf cb crc32 s" "length (ss_lost s) = 2"
  shows "cf (it_free (ss_lp s)) = [] \<and> ss_lp_slot s = None \<and> announced cb s = [] \<and> ss_down s = []"
proof -
  have "length (slot_places cf cb s) = 2"
    using invariant_places(3) [OF assms(1)] .
  then show ?thesis
    using assms(2) by (cases "ss_lp_slot s") (auto simp: slot_places_def in_flight_def)
qed

lemma release_never_sent:
  "\<exists>b'. release_attempts n m (\<lambda>_. [(- EBUSY, True)]) k b = Some (None, b') \<and> ib_batch b' = ib_batch b"
proof (induction n arbitrary: k b)
  case (Suc n)
  show ?case
    using Suc.IH [of "k + 1" "map_ib_stats (\<lambda>s. s\<lparr>ibs_release_fail := ibs_release_fail s + 1\<rparr>) b"]
    by (simp add: ipc_bridge_release_batch_def send_accepted_def send_retryable_def IPC_MESSAGE_SIZE_def)
qed simp

definition slot_quiet :: "('b \<Rightarrow> rf_link_ipc_message list) \<Rightarrow> ('f, 'b) slot_system \<Rightarrow> bool" where
  "slot_quiet cb s \<longleftrightarrow> ss_lp_slot s = None \<and> announced cb s = [] \<and> ss_down s = []"

lemma quiet_parts:
  "slot_quiet cb s \<longleftrightarrow> ss_lp_slot s = None \<and> ss_hp_batch s = None \<and> cb (ib_batch (ss_hp s)) = [] \<and>
     ss_up s = [] \<and> ss_down s = []"
  by (cases "ss_hp_batch s") (auto simp: slot_quiet_def announced_def)

lemma publish_first_try:
  "i < 2 \<Longrightarrow> \<exists>t'. ipc_tx_publish_batch mqf i n crc False [(0, False)] t =
     Some (0, Some (ipc_message_bytes (ready_message i n crc)), t') \<and> it_free t' = it_free t"
  by (simp add: ipc_tx_publish_batch_def send_accepted_def RF_LINK_MEMS_BATCH_SLOT_COUNT_def Let_def)

text \<open>
  From a slot_quiet system a batch can get to the application core; three failed releases
  then lose its slot.
\<close>

lemma announce_one:
  assumes inv: "slot_invariant cf cb crc32 s" and mq: "msgq_spec mqf cf 2" "msgq_spec mqb cb 2"
    and q: "slot_quiet cb s" and free: "cf (it_free (ss_lp s)) = i # rest"
  obtains s3 m where "slot_reach mqf mqb crc32 s s3" "ss_hp_batch s3 = None" "ss_lp_slot s3 = None"
    "cb (ib_batch (ss_hp s3)) = [m]" "ss_up s3 = []" "ss_down s3 = []" "cf (it_free (ss_lp s3)) = rest"
    "ss_lost s3 = ss_lost s"
proof -
  note p = q [unfolded quiet_parts]
  obtain r fq where g: "msgq_get mqf (it_free (ss_lp s)) = (r, fq)"
    by fastforce
  have r: "r = Inr i" "cf fq = rest"
    using msgq_get_ok [OF mq(1) g] free by auto
  define s1 where "s1 = s\<lparr>ss_lp := (ss_lp s)\<lparr>it_free := fq\<rparr>, ss_lp_slot := Some i\<rparr>"
  have st1: "slot_step mqf mqb crc32 s s1"
    unfolding s1_def by (rule slot_step.Lp_Acquire) (use g r(1) p in simp_all)
  have inv1: "slot_invariant cf cb crc32 s1"
    by (rule slot_step_invariant [OF st1 inv mq])
  have i: "i < 2" "i = 0 \<or> i = 1"
    using holder_apart(1) [OF inv1, of i] small_slot [of i] by (auto simp: s1_def)
  obtain slot where slot: "rf_link_mems_batch_slot i = Some slot"
    using i(2) by (auto simp: rf_link_mems_batch_slot_def)
  define samples :: "i16 list" where "samples = replicate RF_LINK_MEMS_BATCH_SAMPLE_COUNT 0"
  have len: "length samples = RF_LINK_MEMS_BATCH_SAMPLE_COUNT"
    by (simp add: samples_def)
  define m where "m = ready_message i (ss_seq s1) (crc32 (le16s samples))"
  obtain lp where pub: "ipc_tx_publish_batch mqf i (ss_seq s1) (crc32 (le16s samples)) False [(0, False)] (ss_lp s1) =
      Some (0, Some (ipc_message_bytes m), lp)" "it_free lp = it_free (ss_lp s1)"
    using publish_first_try [OF i(1)] unfolding m_def by blast
  obtain s2 where st2: "slot_step mqf mqb crc32 s1 s2" and s2: "ss_lp s2 = lp" "ss_lp_slot s2 = None"
    "ss_hp s2 = ss_hp s" "ss_up s2 = [ipc_message_bytes m]" "ss_hp_batch s2 = None" "ss_down s2 = []"
    "ss_lost s2 = ss_lost s"
    using slot_step.Lp_Publish [where ?crc32.0 = crc32, OF _ slot len pub(1)] p by (fastforce simp: s1_def)
  have inv2: "slot_invariant cf cb crc32 s2"
    by (rule slot_step_invariant [OF st2 inv1 mq])
  define s3 where "s3 = s2\<lparr>ss_hp := bridge_received mqb (Some (ipc_message_bytes m)) (ss_hp s2), ss_up := []\<rparr>"
  have st3: "slot_step mqf mqb crc32 s2 s3"
    unfolding s3_def by (rule slot_step.Hp_Receive [OF s2(4)])
  have b: "cb (ib_batch (ss_hp s3)) = [m]"
    using bridge_received_ready(1) [OF mq(2), of "ss_hp s2" m] ready_message_valid i(1) p s2(3)
    by (simp add: s3_def m_def RF_LINK_MEMS_BATCH_SLOT_COUNT_def)
  have "slot_reach mqf mqb crc32 s s3"
    by (rule reach_step [OF reach_step [OF reach_step [OF reach_refl st1] st2] st3])
  then show ?thesis
    using b s2 r pub(2) p by (intro that [of s3 m]) (simp_all add: s3_def s1_def)
qed

lemma take_one:
  assumes inv: "slot_invariant cf cb crc32 s" and mq: "msgq_spec mqf cf 2" "msgq_spec mqb cb 2"
    and q: "slot_quiet cb s" and free: "cf (it_free (ss_lp s)) = i # rest"
  obtains s4 m where "slot_reach mqf mqb crc32 s s4" "ss_hp_batch s4 = Some m" "ss_lp_slot s4 = None"
    "cb (ib_batch (ss_hp s4)) = []" "ss_up s4 = []" "ss_down s4 = []" "cf (it_free (ss_lp s4)) = rest"
    "ss_lost s4 = ss_lost s"
proof -
  obtain s3 m where s3: "slot_reach mqf mqb crc32 s s3" "ss_hp_batch s3 = None" "ss_lp_slot s3 = None"
    "cb (ib_batch (ss_hp s3)) = [m]" "ss_up s3 = []" "ss_down s3 = []" "cf (it_free (ss_lp s3)) = rest"
    "ss_lost s3 = ss_lost s"
    using announce_one [OF assms] .
  obtain r4 bq where g4: "msgq_get mqb (ib_batch (ss_hp s3)) = (r4, bq)"
    by fastforce
  have r4: "r4 = Inr m" "cb bq = []"
    using msgq_get_ok [OF mq(2) g4] s3(4) by auto
  define s4 where "s4 = s3\<lparr>ss_hp := (ss_hp s3)\<lparr>ib_batch := bq\<rparr>, ss_hp_batch := Some m\<rparr>"
  have "slot_step mqf mqb crc32 s3 s4"
    unfolding s4_def
    by (rule slot_step.Hp_Take [OF s3(2)]) (simp add: ipc_bridge_wait_batch_def g4 r4(1))
  then have "slot_reach mqf mqb crc32 s s4"
    by (rule reach_step [OF s3(1)])
  then show ?thesis
    using s3 r4 by (intro that [of s4 m]) (simp_all add: s4_def)
qed

lemma lose_one:
  assumes inv: "slot_invariant cf cb crc32 s" and mq: "msgq_spec mqf cf 2" "msgq_spec mqb cb 2"
    and q: "slot_quiet cb s" and free: "cf (it_free (ss_lp s)) = i # rest"
  shows "\<exists>s'. slot_reach mqf mqb crc32 s s' \<and> slot_quiet cb s' \<and> cf (it_free (ss_lp s')) = rest \<and>
    length (ss_lost s') = Suc (length (ss_lost s))"
proof -
  obtain s4 m where s4: "slot_reach mqf mqb crc32 s s4" "ss_hp_batch s4 = Some m" "ss_lp_slot s4 = None"
    "cb (ib_batch (ss_hp s4)) = []" "ss_up s4 = []" "ss_down s4 = []" "cf (it_free (ss_lp s4)) = rest"
    "ss_lost s4 = ss_lost s"
    using take_one [OF assms] .
  obtain hp where rel: "release_attempts BATCH_RELEASE_RETRIES m (\<lambda>_. [(- EBUSY, True)]) 0 (ss_hp s4) = Some (None, hp)"
    "ib_batch hp = ib_batch (ss_hp s4)"
    using release_never_sent by blast
  define s5 where "s5 = s4\<lparr>ss_hp := hp, ss_hp_batch := None, ss_down := ss_down s4 @ [], ss_lost := ss_lost s4 @ [m]\<rparr>"
  have "slot_step mqf mqb crc32 s4 s5"
    using slot_step.Hp_Release [OF s4(2) rel(1)] by (simp add: s5_def)
  then have "slot_reach mqf mqb crc32 s s5"
    by (rule slot_reach.reach_step [OF s4(1)])
  moreover have "slot_quiet cb s5 \<and> cf (it_free (ss_lp s5)) = rest \<and> length (ss_lost s5) = Suc (length (ss_lost s))"
    using s4 rel(2) by (simp add: quiet_parts s5_def)
  ultimately show ?thesis
    by blast
qed

lemma start_quiet:
  assumes "slot_start mqf mqb s" "msgq_spec mqf cf 2" "msgq_spec mqb cb 2"
  shows "slot_quiet cb s" "mset (cf (it_free (ss_lp s))) = {#0, 1 :: u32#}" "ss_lost s = []"
proof -
  obtain hp open_b reg_b where "ipc_bridge_init mqb True open_b reg_b hp = (0, ss_hp s)"
    using assms(1) by (auto simp: slot_start_def)
  then have "ss_hp s = hp\<lparr>ib_batch := msgq_purge mqb (ib_batch hp), ib_stats := zero_bridge_stats\<rparr>"
    by (auto simp: ipc_bridge_init_def Let_def split: if_splits)
  then show q: "slot_quiet cb s" "ss_lost s = []"
    using assms(1) msgq_purge_ok [OF assms(3)] by (simp_all add: quiet_parts slot_start_def)
  show "mset (cf (it_free (ss_lp s))) = {#0, 1 :: u32#}"
    using slot_start_invariant [OF assms] q
    by (simp add: slot_invariant_def slot_places_def in_flight_def slot_quiet_def)
qed

section \<open>A concrete system\<close>

definition demo_lp :: "u32 list ipc_tx" where
  "demo_lp = \<lparr>it_bound = True, it_free = [], it_slot_batch_seq = [0, 0], it_slot_inflight = [False, False],
     it_stats = zero_ipc_tx_stats\<rparr>"

definition demo_start :: "(u32 list, rf_link_ipc_message list) slot_system" where
  "demo_start = \<lparr>ss_lp = snd (ipc_tx_init (list_msgq 2) True 0 0 demo_lp),
     ss_hp = \<lparr>ib_bound = True, ib_batch = [], ib_stats = zero_bridge_stats\<rparr>, ss_mem = (\<lambda>_. sample_batch),
     ss_seq = 0, ss_lp_slot = None, ss_hp_batch = None, ss_up = [], ss_down = [], ss_lost = []\<rparr>"

lemma demo_starts: "slot_start (list_msgq 2) (list_msgq 2) demo_start"
proof -
  have "ipc_tx_init (list_msgq 2) True 0 0 demo_lp = (0, ss_lp demo_start)"
    by (simp add: demo_start_def ipc_tx_init_def demo_lp_def list_msgq_def)
  moreover have "ipc_bridge_init (list_msgq 2) True 0 0 (ss_hp demo_start) = (0, ss_hp demo_start)"
    by (simp add: demo_start_def ipc_bridge_init_def list_msgq_def)
  moreover have "length (it_slot_batch_seq demo_lp) = 2 \<and> length (it_slot_inflight demo_lp) = 2"
    by (simp add: demo_lp_def)
  ultimately have "\<exists>lp lp_open lp_register. length (it_slot_batch_seq lp) = 2 \<and> length (it_slot_inflight lp) = 2 \<and>
      ipc_tx_init (list_msgq 2) True lp_open lp_register lp = (0, ss_lp demo_start)"
    "\<exists>hp hp_open hp_register. ipc_bridge_init (list_msgq 2) True hp_open hp_register hp = (0, ss_hp demo_start)"
    by blast+
  then show ?thesis
    by (simp add: slot_start_def) (simp add: demo_start_def)
qed

lemma demo_free: "it_free (ss_lp demo_start) = [0, 1]"
  by (simp add: demo_start_def ipc_tx_init_def demo_lp_def list_msgq_def)

lemmas demo = demo_starts list_msgq_spec [of 2] list_msgq_spec [of 2]

section \<open>Properties\<close>

text \<open>
  C3. One owner: in every reachable state each of the two slots is in exactly one
  place (free, being filled, announced, being transmitted, being released, lost), so
  the slot the sensor core writes is never one the application core reads or will
  read; and no message is ever refused: no release is rejected, no announcement is
  malformed, no queue overflows.
\<close>

theorem slot_ownership:
  assumes "slot_start mqf mqb s0" "msgq_spec mqf cf 2" "msgq_spec mqb cb 2"
    and "slot_reach mqf mqb crc32 s0 s"
  shows "mset (slot_places cf cb s) = {#0, 1 :: u32#} \<and>
    (\<forall>i m. ss_lp_slot s = Some i \<and> m \<in> set (announced cb s) \<longrightarrow> im_slot_index m \<noteq> i) \<and>
    its_bad_release (it_stats (ss_lp s)) = 0 \<and> ibs_bad_size (ib_stats (ss_hp s)) = 0 \<and>
    ibs_bad_message (ib_stats (ss_hp s)) = 0 \<and> ibs_queue_drop (ib_stats (ss_hp s)) = 0"
proof -
  have inv: "slot_invariant cf cb crc32 s"
    by (rule slot_reach_invariant [OF assms(4,1,2,3)])
  have "im_slot_index m \<noteq> i" if "ss_lp_slot s = Some i" "m \<in> set (announced cb s)" for i m
    using holder_apart(2) [OF inv that(1) announced_in_flight [OF that(2)]] by simp
  then show ?thesis
    using inv by (auto simp: slot_invariant_def)
qed

lemma slot_ownership_witness:
  "mset (slot_places id id demo_start) = {#0, 1 :: u32#}"
  using slot_ownership [OF demo(1), of id id "\<lambda>_. 0" demo_start] demo(2)
  by (simp add: id_def list_msgq_spec slot_reach.reach_refl)

text \<open>
  C12. What is captured is what is sent: whenever the application core holds a batch,
  whatever the sensor core has written since, \<open>transmit_batch\<close> with a usable radio
  accepts it and hands the radio the 43 frames of the samples that were announced.
\<close>

theorem taken_batch_is_sent:
  assumes "slot_start mqf mqb s0" "msgq_spec mqf cf 2" "msgq_spec mqb cb 2"
    and "slot_reach mqf mqb crc32 s0 s" "ss_hp_batch s = Some m"
    and "ta_radio_ready a \<or> init_ret = 0"
    and "transmit_batch crc32 us (ss_mem s) init_ret sends m a = (ret, frames, a')"
  shows "\<exists>slot. rf_link_mems_batch_slot (im_slot_index m) = Some slot \<and>
    frames = batch_frames (ta_rf_seq a) (ss_mem s slot) \<and>
    concat (map frame_payload frames) = mb_samples (ss_mem s slot) \<and>
    length (mb_samples (ss_mem s slot)) = RF_LINK_MEMS_BATCH_SAMPLE_COUNT \<and>
    crc32 (le16s (mb_samples (ss_mem s slot))) = im_sample_crc32 m \<and>
    mb_batch_seq (ss_mem s slot) = im_batch_seq m"
proof -
  have "slot_invariant cf cb crc32 s"
    by (rule slot_reach_invariant [OF assms(4,1,2,3)])
  then have "is_ready crc32 (ss_mem s) m"
    using assms(5) by (auto simp: slot_invariant_def announced_def)
  then obtain slot where acc: "batch_accepted crc32 (ss_mem s) m slot"
    and len: "length (mb_samples (ss_mem s slot)) = RF_LINK_MEMS_BATCH_SAMPLE_COUNT"
    by (auto simp: is_ready_def)
  obtain rets radio where
    "send_frames us sends 0 (batch_frames (ta_rf_seq a) (ss_mem s slot)) (ta_radio a) = (rets, radio)"
    by fastforce
  then have "frames = batch_frames (ta_rf_seq a) (ss_mem s slot)"
    using transmit_batch_sends [OF acc assms(6)] assms(7) by fastforce
  then show ?thesis
    using acc len payload_of_batch_frames [of "ss_mem s slot"]
    by (auto simp: batch_accepted_def batch_header_is_valid_def RF_LINK_MEMS_BATCH_SAMPLE_COUNT_def)
qed

lemma taken_batch_is_sent_witness:
  "\<exists>s m. slot_reach (list_msgq 2) (list_msgq 2) (\<lambda>_. 9) demo_start s \<and> ss_hp_batch s = Some m \<and>
     length (fst (snd (transmit_batch (\<lambda>_. 9) id (ss_mem s) 0 sample_send m sample_tx))) = BATCH_FRAMES"
proof -
  have "slot_invariant (\<lambda>q. q) (\<lambda>q. q) (\<lambda>_. 9) demo_start"
    by (rule slot_start_invariant [OF demo])
  from take_one [OF this demo(2,3) start_quiet(1) [OF demo] demo_free]
  obtain s m where s: "slot_reach (list_msgq 2) (list_msgq 2) (\<lambda>_. 9) demo_start s" "ss_hp_batch s = Some m"
    by blast
  obtain ret frames a' where
    t: "transmit_batch (\<lambda>_. 9) id (ss_mem s) 0 sample_send m sample_tx = (ret, frames, a')"
    using prod_cases3 by blast
  have "length frames = BATCH_FRAMES"
    using taken_batch_is_sent [OF demo s disjI2 [OF refl] t] by auto
  then have "length (fst (snd (transmit_batch (\<lambda>_. 9) id (ss_mem s) 0 sample_send m sample_tx))) = BATCH_FRAMES"
    unfolding t by simp
  then show ?thesis
    using s by blast
qed

text \<open>
  C19. A slot comes back: from every reachable state in which not both slots are lost
  there is a continuation in which the sensor core holds a slot again; the protocol
  has no deadlock of its own.
\<close>

theorem slot_comes_back:
  assumes "slot_start mqf mqb s0" "msgq_spec mqf cf 2" "msgq_spec mqb cb 2"
    and "slot_reach mqf mqb crc32 s0 s" "length (ss_lost s) < 2"
  shows "\<exists>s'. slot_reach mqf mqb crc32 s s' \<and> ss_lp_slot s' \<noteq> None"
proof -
  have inv: "slot_invariant cf cb crc32 s"
    by (rule slot_reach_invariant [OF assms(4,1,2,3)])
  have "lp_can_fill mqf mqb crc32 s"
  proof (cases "cf (it_free (ss_lp s)) \<noteq> [] \<or> ss_lp_slot s \<noteq> None")
    case True
    then show ?thesis
      using can_fill_free [OF assms(2)] by (auto simp: lp_can_fill_def intro: reach_refl)
  next
    case False
    then have "length (in_flight cb s) = 2"
      using invariant_places(3) [OF inv] by (simp add: slot_places_def)
    then have "announced cb s \<noteq> [] \<or> ss_down s \<noteq> []"
      using assms(5) by (auto simp: in_flight_def)
    then consider "ss_hp_batch s \<noteq> None" | "cb (ib_batch (ss_hp s)) \<noteq> []" | "ss_up s \<noteq> []" | "ss_down s \<noteq> []"
      by (cases "ss_hp_batch s") (auto simp: announced_def)
    then show ?thesis
      using can_fill_batch [OF inv assms(2)] can_fill_queue [OF inv assms(2,3)]
        can_fill_up [OF inv assms(2,3)] can_fill_down [OF inv assms(2)]
      by cases auto
  qed
  then show ?thesis
    by (simp add: lp_can_fill_def)
qed

lemma slot_comes_back_witness:
  "\<exists>s'. slot_reach (list_msgq 2) (list_msgq 2) (\<lambda>_. 9) demo_start s' \<and> ss_lp_slot s' \<noteq> None"
  by (rule slot_comes_back [OF demo slot_reach.reach_refl]) (simp add: demo_start_def)

text \<open>
  A lost slot is lost for good: after three failed releases the slot of the batch
  never becomes free again and is never filled again; a run from the start loses both
  slots, and from then on the sensor core never gets a slot.
\<close>

theorem lost_slot_never_returns:
  assumes "slot_start mqf mqb s0" "msgq_spec mqf cf 2" "msgq_spec mqb cb 2"
  shows "(\<forall>s s' m. slot_reach mqf mqb crc32 s0 s \<and> m \<in> set (ss_lost s) \<and> slot_reach mqf mqb crc32 s s' \<longrightarrow>
      im_slot_index m \<notin> set (cf (it_free (ss_lp s'))) \<and> ss_lp_slot s' \<noteq> Some (im_slot_index m)) \<and>
    (\<exists>s. slot_reach mqf mqb crc32 s0 s \<and> length (ss_lost s) = 2 \<and>
      (\<forall>s'. slot_reach mqf mqb crc32 s s' \<longrightarrow> ss_lp_slot s' = None))"
proof (intro conjI allI impI)
  fix s s' m
  assume "slot_reach mqf mqb crc32 s0 s \<and> m \<in> set (ss_lost s) \<and> slot_reach mqf mqb crc32 s s'"
  then have inv: "slot_invariant cf cb crc32 s'" and m: "m \<in> set (ss_lost s')"
    using slot_reach_invariant [OF slots.trans assms] lost_grows [of mqf mqb crc32 s s'] by fastforce+
  then have "im_slot_index m \<in> fst ` set (in_flight cb s')"
    by (force simp: in_flight_def)
  then show "im_slot_index m \<notin> set (cf (it_free (ss_lp s')))" "ss_lp_slot s' \<noteq> Some (im_slot_index m)"
    using invariant_places(1) [OF inv] by (force simp: slot_places_def)+
next
  note q = start_quiet [OF assms]
  have inv: "slot_invariant cf cb crc32 s0"
    by (rule slot_start_invariant [OF assms])
  have "length (cf (it_free (ss_lp s0))) = 2"
    using places_pair(3) [OF q(2)] .
  then obtain i j where ij: "cf (it_free (ss_lp s0)) = [i, j]"
    by (auto simp: length_Suc_conv numeral_2_eq_2)
  obtain s1 where s1: "slot_reach mqf mqb crc32 s0 s1" "slot_quiet cb s1" "cf (it_free (ss_lp s1)) = [j]"
    "length (ss_lost s1) = 1"
    using lose_one [OF inv assms(2,3) q(1) ij] q(3) by auto
  have inv1: "slot_invariant cf cb crc32 s1"
    by (rule slot_reach_invariant [OF s1(1) assms])
  obtain s2 where s2: "slot_reach mqf mqb crc32 s1 s2" "length (ss_lost s2) = 2"
    using lose_one [OF inv1 assms(2,3) s1(2,3)] s1(4) by auto
  have r: "slot_reach mqf mqb crc32 s0 s2"
    by (rule slots.trans [OF s1(1) s2(1)])
  have "ss_lp_slot s' = None" if "slot_reach mqf mqb crc32 s2 s'" for s'
  proof -
    have i: "slot_invariant cf cb crc32 s'"
      by (rule slot_reach_invariant [OF slots.trans [OF r that] assms])
    moreover have "length (ss_lost s') \<ge> 2"
      using lost_grows [OF that] s2(2) by auto
    ultimately show ?thesis
      using invariant_places(3) [OF i] both_lost_stuck [OF i] by (auto simp: slot_places_def in_flight_def)
  qed
  then show "\<exists>s. slot_reach mqf mqb crc32 s0 s \<and> length (ss_lost s) = 2 \<and>
      (\<forall>s'. slot_reach mqf mqb crc32 s s' \<longrightarrow> ss_lp_slot s' = None)"
    using r s2(2) by blast
qed

lemma lost_slot_never_returns_witness:
  "\<exists>s. slot_reach (list_msgq 2) (list_msgq 2) (\<lambda>_. 9) demo_start s \<and> length (ss_lost s) = 2"
  using lost_slot_never_returns [OF demo, of "\<lambda>_. 9"] by blast

end
