(* ===== verification/Slot_Refinement.thy ===== *)
theory Slot_Refinement
  imports Slot_Properties
begin

text \<open>
  The main loops of the two cores implement the slot protocol: a pass of
  \<open>flpr_app/src/main.c\<close> is a run of the sensor core's steps, a pass of
  \<open>rf_link_tx/src/main.c\<close> a run of the application core's.
\<close>

definition lp_state :: "('q, 'd) flpr_app \<Rightarrow> ('q, 'b) slot_system \<Rightarrow> bool" where
  "lp_state f s \<longleftrightarrow> ss_lp s = fl_tx f \<and> ss_mem s = fl_mem f \<and> ss_seq s = fl_batch_seq f \<and> ss_lp_slot s = None"

text \<open>The callbacks that run while the sensor core waits: the releases that arrive, in order.\<close>

definition receive_releases :: "(u32, 'q) msgq_ops \<Rightarrow> u8 list list \<Rightarrow> 'q ipc_tx \<Rightarrow> 'q ipc_tx" where
  "receive_releases mqf ds t = foldl (\<lambda>t d. tx_received mqf (Some d) t) t ds"

lemma receive_releases_run:
  "ss_down s = ds @ rest \<Longrightarrow>
   slot_reach mqf mqb crc32 s (s\<lparr>ss_lp := receive_releases mqf ds (ss_lp s), ss_down := rest\<rparr>)"
proof (induction ds arbitrary: s)
  case Nil
  then have "s\<lparr>ss_lp := receive_releases mqf [] (ss_lp s), ss_down := rest\<rparr> = s"
    by (simp add: receive_releases_def)
  then show ?case
    using reach_refl by metis
next
  case (Cons d ds)
  let ?s1 = "s\<lparr>ss_lp := tx_received mqf (Some d) (ss_lp s), ss_down := ds @ rest\<rparr>"
  have "slot_step mqf mqb crc32 s ?s1"
    using Cons.prems by (intro slot_step.Lp_Receive) simp
  moreover have "slot_reach mqf mqb crc32 ?s1 (s\<lparr>ss_lp := receive_releases mqf (d # ds) (ss_lp s), ss_down := rest\<rparr>)"
    using Cons.IH [of ?s1] by (simp add: receive_releases_def)
  ultimately show ?case
    by (rule slots.trans [OF slots.one])
qed

lemma acquire_run:
  assumes "ipc_tx_acquire_slot mqf False False (receive_releases mqf ds) (ss_lp s) = (Inr i, lp)"
    and "ss_lp_slot s = None" "ss_down s = ds @ rest"
  shows "\<exists>down. slot_reach mqf mqb crc32 s (s\<lparr>ss_lp := lp, ss_lp_slot := Some i, ss_down := down\<rparr>)"
proof -
  obtain r q where g: "msgq_get mqf (it_free (ss_lp s)) = (r, q)"
    by fastforce
  show ?thesis
  proof (cases r)
    case (Inl e)
    define s1 where "s1 = s\<lparr>ss_lp := map_it_stats (\<lambda>st. st\<lparr>its_slot_waits := its_slot_waits st + 1\<rparr>)
      ((ss_lp s)\<lparr>it_free := q\<rparr>)\<rparr>"
    have st: "slot_step mqf mqb crc32 s s1"
      unfolding s1_def using assms(2) g Inl by (intro slot_step.Lp_Wait) simp_all
    define s2 where "s2 = s1\<lparr>ss_lp := receive_releases mqf ds (ss_lp s1), ss_down := rest\<rparr>"
    have run: "slot_reach mqf mqb crc32 s1 s2"
      unfolding s2_def using assms(3) by (intro receive_releases_run) (simp add: s1_def)
    obtain q2 where q2: "msgq_get mqf (it_free (ss_lp s2)) = (Inr i, q2)" "lp = (ss_lp s2)\<lparr>it_free := q2\<rparr>"
      using assms(1) g Inl
      by (auto simp: ipc_tx_acquire_slot_def Let_def s2_def s1_def split: prod.splits)
    have "slot_step mqf mqb crc32 s2 (s2\<lparr>ss_lp := (ss_lp s2)\<lparr>it_free := q2\<rparr>, ss_lp_slot := Some i\<rparr>)"
      using q2 assms(2) by (intro slot_step.Lp_Acquire) (simp_all add: s2_def s1_def)
    then have "slot_reach mqf mqb crc32 s (s2\<lparr>ss_lp := lp, ss_lp_slot := Some i\<rparr>)"
      using slots.trans [OF slots.one [OF st] run] q2(2) by (auto intro: reach_step)
    moreover have "s2\<lparr>ss_lp := lp, ss_lp_slot := Some i\<rparr> = s\<lparr>ss_lp := lp, ss_lp_slot := Some i, ss_down := rest\<rparr>"
      by (simp add: s2_def s1_def)
    ultimately show ?thesis
      by metis
  next
    case (Inr j)
    then have "j = i" "lp = (ss_lp s)\<lparr>it_free := q\<rparr>"
      using assms(1) g by (simp_all add: ipc_tx_acquire_slot_def Let_def)
    then have "slot_step mqf mqb crc32 s (s\<lparr>ss_lp := lp, ss_lp_slot := Some i, ss_down := ss_down s\<rparr>)"
      using slot_step.Lp_Acquire [OF assms(2)] g Inr by simp
    then show ?thesis
      by (blast intro: slots.one)
  qed
qed

lemma update_lp_trace_keeps [simp]:
  "fl_tx (update_lp_trace ret c f) = fl_tx f" "fl_mem (update_lp_trace ret c f) = fl_mem f"
  "fl_batch_seq (update_lp_trace ret c f) = fl_batch_seq f"
  by (simp_all add: update_lp_trace_def Let_def)

lemma flpr_pass_parts:
  assumes "flpr_main_pass crc32 mqf bus waiting calls c f = Some (None, out, f')"
    and "ipc_tx_acquire_slot mqf False False waiting (fl_tx f) = (Inr i, lp)"
  obtains slot crc f2 ret lp2 where "rf_link_mems_batch_slot i = Some slot"
    and "capture_batch crc32 bus c i slot (f\<lparr>fl_tx := lp\<rparr>) = Some (Inr crc, f2)"
    and "ipc_tx_publish_batch mqf i (fl_batch_seq f2) crc False calls (fl_tx f2) = Some (ret, out, lp2)"
    and "fl_tx f' = lp2" "fl_mem f' = fl_mem f2"
      "fl_batch_seq f' = (if ret = 0 then fl_batch_seq f2 + 1 else fl_batch_seq f2)"
  using assms
  by (auto simp: flpr_main_pass_def Let_def split: option.splits sum.splits prod.splits if_splits)

section \<open>A concrete pass\<close>

definition demo_samples :: "i16 list" where
  "demo_samples = replicate RF_LINK_MEMS_BATCH_SAMPLE_COUNT 5"

definition idle_bus :: "unit mems_bus" where
  "idle_bus = \<lparr>bus_ready = (\<lambda>_. (True, True)), bus_transceive = (\<lambda>_ d. (0, [], d)), bus_write = (\<lambda>_ d. (0, d)),
     bus_gpio = (\<lambda>_ d. (0, d)), bus_wait = (\<lambda>d. (1, d)), bus_sleep = (\<lambda>_ d. d)\<rparr>"

definition demo_flpr :: "(u32 list, unit) flpr_app" where
  "demo_flpr = \<lparr>fl_tx = ss_lp demo_start,
     fl_sensor = (\<lparr>as_stats = zero_adc_stats, as_irq_sem = False, as_fifo_rx = [], as_pending = demo_samples\<rparr>, ()),
     fl_mem = ss_mem demo_start, fl_trace = blank_trace, fl_batch_seq = 0\<rparr>"

definition demo_clock :: flpr_clock where
  "demo_clock = \<lparr>fc_capture_start = 10, fc_capture_end = 352, fc_note_loop = 11, fc_note_sensor = 353,
     fc_note_ipc = 354, fc_note_end = 355\<rparr>"

lemma length_demo_samples [simp]: "length demo_samples = RF_LINK_MEMS_BATCH_SAMPLE_COUNT"
  by (simp add: demo_samples_def)

lemma read_loop_full: "length produced = n \<Longrightarrow> read_loop bus n produced s = Some (Inr produced, s)"
  by (subst read_loop.simps) simp

lemma demo_read:
  "\<exists>sensor. adc_sampler_read_samples idle_bus False RF_LINK_MEMS_BATCH_SAMPLE_COUNT (fl_sensor demo_flpr) =
     Some (Inr demo_samples, sensor)"
proof -
  have "RF_LINK_MEMS_BATCH_SAMPLE_COUNT \<noteq> 0"
    by (simp add: RF_LINK_MEMS_BATCH_SAMPLE_COUNT_def)
  then show ?thesis
    by (simp add: adc_sampler_read_samples_def demo_flpr_def Let_def read_loop_full)
qed

lemma demo_acquire:
  "ipc_tx_acquire_slot (list_msgq 2) False False w (fl_tx demo_flpr) =
     (Inr 0, (fl_tx demo_flpr)\<lparr>it_free := [1]\<rparr>)"
  by (simp add: ipc_tx_acquire_slot_def demo_flpr_def demo_free) (simp add: list_msgq_def)

lemma demo_pass:
  "\<exists>f'. flpr_main_pass (\<lambda>_. 9) (list_msgq 2) idle_bus w [(0, False)] demo_clock demo_flpr =
     Some (None, Some (ipc_message_bytes (ready_message 0 0 9)), f')"
proof -
  have z: "rf_link_mems_batch_slot 0 = Some MEMS_SLOT0" "(0 :: u32) < RF_LINK_MEMS_BATCH_SLOT_COUNT" "fl_batch_seq demo_flpr = 0"
    by (simp_all add: rf_link_mems_batch_slot_def RF_LINK_MEMS_BATCH_SLOT_COUNT_def demo_flpr_def)
  show ?thesis
    using demo_read
    by (auto simp: flpr_main_pass_def demo_acquire z capture_batch_def ipc_tx_publish_batch_def
        send_accepted_def Let_def)
qed

section \<open>Properties\<close>

text \<open>
  C14. A pass of the sensor core's main loop refines the protocol: when it gets a slot
  (at once, or after waiting for the releases that arrive meanwhile), what it does to
  the endpoint, the shared memory and the sequence number, and the message it sends,
  are those of a run of the slot system.
\<close>

theorem flpr_pass_refines:
  assumes "flpr_main_pass crc32 mqf bus (receive_releases mqf ds) calls c f = Some (None, out, f')"
    and "ipc_tx_acquire_slot mqf False False (receive_releases mqf ds) (fl_tx f) = (Inr i, lp)"
    and "lp_state f s" "ss_down s = ds @ rest"
  shows "\<exists>s'. slot_reach mqf mqb crc32 s s' \<and> lp_state f' s' \<and> ss_up s' = ss_up s @ opt_list out \<and>
    ss_hp s' = ss_hp s \<and> ss_hp_batch s' = ss_hp_batch s"
proof -
  obtain slot crc f2 ret lp2 where p: "rf_link_mems_batch_slot i = Some slot"
    "capture_batch crc32 bus c i slot (f\<lparr>fl_tx := lp\<rparr>) = Some (Inr crc, f2)"
    "ipc_tx_publish_batch mqf i (fl_batch_seq f2) crc False calls (fl_tx f2) = Some (ret, out, lp2)"
    "fl_tx f' = lp2" "fl_mem f' = fl_mem f2"
    "fl_batch_seq f' = (if ret = 0 then fl_batch_seq f2 + 1 else fl_batch_seq f2)"
    by (rule flpr_pass_parts [OF assms(1,2)])
  obtain samples where cap: "length samples = RF_LINK_MEMS_BATCH_SAMPLE_COUNT" "crc = crc32 (le16s samples)"
    "fl_mem f2 = (fl_mem f)(slot := filled_batch crc32 i (fl_batch_seq f) (fc_capture_start c)
       (fc_capture_end c) samples)" "fl_tx f2 = lp" "fl_batch_seq f2 = fl_batch_seq f"
    by (rule capture_batch_fills [OF p(2)]) simp
  obtain down where r: "slot_reach mqf mqb crc32 s (s\<lparr>ss_lp := lp, ss_lp_slot := Some i, ss_down := down\<rparr>)"
    using acquire_run [of mqf ds s i lp rest mqb crc32] assms(2-4) by (auto simp: lp_state_def)
  let ?s1 = "s\<lparr>ss_lp := lp, ss_lp_slot := Some i, ss_down := down\<rparr>"
  let ?s2 = "?s1\<lparr>ss_lp := lp2, ss_lp_slot := None,
    ss_mem := (ss_mem ?s1)(slot := filled_batch crc32 i (ss_seq ?s1) (fc_capture_start c) (fc_capture_end c) samples),
    ss_up := ss_up ?s1 @ (case out of Some d \<Rightarrow> [d] | None \<Rightarrow> []),
    ss_seq := (if ret = 0 then ss_seq ?s1 + 1 else ss_seq ?s1)\<rparr>"
  have "slot_step mqf mqb crc32 ?s1 ?s2"
    using p(1,3) cap assms(3) by (intro slot_step.Lp_Publish) (simp_all add: lp_state_def)
  then have "slot_reach mqf mqb crc32 s ?s2"
    by (rule reach_step [OF r])
  moreover have "lp_state f' ?s2 \<and> ss_up ?s2 = ss_up s @ opt_list out \<and>
      ss_hp ?s2 = ss_hp s \<and> ss_hp_batch ?s2 = ss_hp_batch s"
    using p(4-6) cap assms(3) by (cases out) (simp_all add: lp_state_def)
  ultimately show ?thesis
    by blast
qed

lemma flpr_pass_refines_witness:
  "\<exists>s'. slot_reach (list_msgq 2) (list_msgq 2) (\<lambda>_. 9) demo_start s' \<and>
     ss_up s' = [ipc_message_bytes (ready_message 0 0 9)]"
proof -
  obtain f' where f: "flpr_main_pass (\<lambda>_. 9) (list_msgq 2) idle_bus (receive_releases (list_msgq 2) [])
      [(0, False)] demo_clock demo_flpr = Some (None, Some (ipc_message_bytes (ready_message 0 0 9)), f')"
    using demo_pass by blast
  have "lp_state demo_flpr demo_start" "ss_down demo_start = [] @ []" "ss_up demo_start = []"
    by (simp_all add: lp_state_def demo_flpr_def) (simp_all add: demo_start_def)
  then show ?thesis
    using flpr_pass_refines [OF f demo_acquire, of demo_start "[]" "list_msgq 2"] by auto
qed

text \<open>
  C13. A pass of the application core's main loop refines the protocol: in a reachable
  state it takes the oldest announcement, hands a usable radio the 43 frames of
  exactly the samples announced, and its bridge and the release it sends are those of
  a run of the slot system.
\<close>

theorem tx_pass_refines:
  assumes "slot_start mqf mqb s0" "msgq_spec mqf cf 2" "msgq_spec mqb cb 2"
    and "slot_reach mqf mqb crc32 s0 s" "ss_hp_batch s = None" "cb (ib_batch (ss_hp s)) = m # ms"
    and "ta_radio_ready a \<or> ti_radio_init i = 0"
    and "tx_main_pass crc32 us mqb (ss_mem s) trace i (ss_hp s, a) = Some (frames, out, hp, a')"
  shows "\<exists>s' slot. slot_reach mqf mqb crc32 s s' \<and> ss_hp s' = hp \<and> ss_hp_batch s' = None \<and>
    cb (ib_batch hp) = ms \<and> ss_down s' = ss_down s @ opt_list out \<and>
    rf_link_mems_batch_slot (im_slot_index m) = Some slot \<and>
    frames = batch_frames (ta_rf_seq a) (ss_mem s slot) \<and>
    concat (map frame_payload frames) = mb_samples (ss_mem s slot)"
proof -
  obtain r q where g: "msgq_get mqb (ib_batch (ss_hp s)) = (r, q)"
    by fastforce
  then have q: "r = Inr m" "cb q = ms"
    using msgq_get_ok [OF assms(3) g] assms(6) by auto
  define hp1 where "hp1 = (ss_hp s)\<lparr>ib_batch := q\<rparr>"
  have w: "ipc_bridge_wait_batch mqb False (ss_hp s) = (Inr m, hp1)"
    using g q by (simp add: ipc_bridge_wait_batch_def hp1_def)
  obtain ret fs a1 where t:
    "transmit_batch crc32 us (ss_mem s) (ti_radio_init i) (ti_sends i) m a = (ret, fs, a1)"
    using prod_cases3 by blast
  obtain rel where rel: "release_attempts BATCH_RELEASE_RETRIES m (ti_release_calls i) 0 hp1 = Some (rel, hp)"
    "out = rel" "frames = fs"
    using assms(8) w t
    by (auto simp: tx_main_pass_def release_batch_def Let_def split: option.splits prod.splits)
  define s1 where "s1 = s\<lparr>ss_hp := hp1, ss_hp_batch := Some m\<rparr>"
  have st1: "slot_step mqf mqb crc32 s s1"
    unfolding s1_def by (rule slot_step.Hp_Take [OF assms(5) w])
  define s2 where "s2 = s1\<lparr>ss_hp := hp, ss_hp_batch := None,
    ss_down := ss_down s1 @ (case out of Some d \<Rightarrow> [d] | None \<Rightarrow> []),
    ss_lost := ss_lost s1 @ (case out of Some _ \<Rightarrow> [] | None \<Rightarrow> [m])\<rparr>"
  have st2: "slot_step mqf mqb crc32 s1 s2"
    unfolding s2_def using rel by (intro slot_step.Hp_Release) (simp_all add: s1_def)
  have "slot_invariant cf cb crc32 s1"
    by (rule slot_reach_invariant [OF reach_step [OF assms(4) st1] assms(1-3)])
  then have "is_ready crc32 (ss_mem s) m"
    by (simp add: slot_invariant_def announced_def s1_def)
  then obtain slot where acc: "batch_accepted crc32 (ss_mem s) m slot"
    and len: "length (mb_samples (ss_mem s slot)) = RF_LINK_MEMS_BATCH_SAMPLE_COUNT"
    by (auto simp: is_ready_def)
  obtain rets radio where
    "send_frames us (ti_sends i) 0 (batch_frames (ta_rf_seq a) (ss_mem s slot)) (ta_radio a) = (rets, radio)"
    by fastforce
  then have f: "frames = batch_frames (ta_rf_seq a) (ss_mem s slot)"
    using transmit_batch_sends [OF acc assms(7)] t rel(3) by fastforce
  have "slot_reach mqf mqb crc32 s s2"
    by (rule reach_step [OF slots.one [OF st1] st2])
  moreover have "ss_hp s2 = hp \<and> ss_hp_batch s2 = None \<and> ss_down s2 = ss_down s @ opt_list out"
    by (cases out) (simp_all add: s2_def s1_def)
  moreover have "cb (ib_batch hp) = ms"
    using release_attempts_effect [OF rel(1)] q(2) by (simp add: hp1_def)
  moreover have "concat (map frame_payload frames) = mb_samples (ss_mem s slot)"
    using len payload_of_batch_frames [of "ss_mem s slot"] by (simp add: f RF_LINK_MEMS_BATCH_SAMPLE_COUNT_def)
  ultimately show ?thesis
    using f acc by (intro exI [of _ s2] exI [of _ slot]) (simp add: batch_accepted_def)
qed

definition demo_tx_input :: tx_input where
  "demo_tx_input = \<lparr>ti_radio_init = 0, ti_sends = sample_send, ti_release_calls = (\<lambda>_. [(0, False)]),
     ti_uptime = 0, ti_uptime_after = 0\<rparr>"

lemma tx_pass_some:
  assumes "ipc_bridge_wait_batch mq False hp = (Inr m, hp1)"
  shows "\<exists>frames out hp2 a'. tx_main_pass crc32 us mq mem trace demo_tx_input (hp, a) = Some (frames, out, hp2, a')"
proof -
  obtain ret frames a1 where t: "transmit_batch crc32 us mem (ti_radio_init demo_tx_input)
      (ti_sends demo_tx_input) m a = (ret, frames, a1)"
    using prod_cases3 by blast
  have c: "BATCH_RELEASE_RETRIES = Suc 2" "ti_release_calls demo_tx_input = (\<lambda>_. [(0, False)])"
    by (simp_all add: BATCH_RELEASE_RETRIES_def demo_tx_input_def)
  show ?thesis
    by (simp only: c tx_main_pass_def release_batch_def Let_def fst_conv snd_conv assms t prod.case sum.case
        release_first_try option.case) blast
qed

lemma tx_pass_refines_witness:
  "\<exists>s frames out hp a'. slot_reach (list_msgq 2) (list_msgq 2) (\<lambda>_. 9) demo_start s \<and>
     tx_main_pass (\<lambda>_. 9) id (list_msgq 2) (ss_mem s) blank_trace demo_tx_input (ss_hp s, sample_tx) =
       Some (frames, out, hp, a') \<and> ib_batch hp = [] \<and> length frames = BATCH_FRAMES"
proof -
  have "slot_invariant (\<lambda>q. q) (\<lambda>q. q) (\<lambda>_. 9) demo_start"
    by (rule slot_start_invariant [OF demo])
  from announce_one [OF this demo(2,3) start_quiet(1) [OF demo] demo_free]
  obtain s m where s: "slot_reach (list_msgq 2) (list_msgq 2) (\<lambda>_. 9) demo_start s" "ss_hp_batch s = None"
    "ib_batch (ss_hp s) = [m]"
    by blast
  have "ipc_bridge_wait_batch (list_msgq 2) False (ss_hp s) = (Inr m, (ss_hp s)\<lparr>ib_batch := []\<rparr>)"
    by (simp add: ipc_bridge_wait_batch_def s(3)) (simp add: list_msgq_def)
  from tx_pass_some [OF this, of "\<lambda>_. 9" id "ss_mem s" blank_trace sample_tx]
  obtain frames out hp a' where t: "tx_main_pass (\<lambda>_. 9) id (list_msgq 2) (ss_mem s) blank_trace demo_tx_input
      (ss_hp s, sample_tx) = Some (frames, out, hp, a')"
    by blast
  have i: "ta_radio_ready sample_tx \<or> ti_radio_init demo_tx_input = 0"
    by (simp add: demo_tx_input_def)
  have "ib_batch hp = [] \<and> length frames = BATCH_FRAMES"
    using tx_pass_refines [OF demo s(1,2) _ i t, of m "[]"] s(3) by auto
  then show ?thesis
    using s(1) t by blast
qed

end
