(* ===== verification/Link.thy ===== *)
theory Link
  imports Slot_Refinement Rx_Radio Rx_Reorder
begin

text \<open>
  The radio link from end to end: the frames of consecutive batches as the
  transmitter hands them to the ESB driver, the payloads that arrive, and what the
  receiver makes of them. The air may lose payloads; those it delivers it delivers
  unchanged and in order.
\<close>

section \<open>Consecutive batches\<close>

type_synonym batch_job = "shared_memory \<times> rf_link_ipc_message \<times> (nat \<Rightarrow> send_input)"

fun transmit_all ::
  "(u8 list \<Rightarrow> u32) \<Rightarrow> (u32 \<Rightarrow> u32) \<Rightarrow> int \<Rightarrow> batch_job list \<Rightarrow> tx_app \<Rightarrow> rf_frame list \<times> tx_app" where
  "transmit_all crc32 us init_ret [] a = ([], a)"
| "transmit_all crc32 us init_ret ((mem, m, sends) # jobs) a =
     (let (_, frames, a1) = transmit_batch crc32 us mem init_ret sends m a;
          (more, a2) = transmit_all crc32 us init_ret jobs a1
      in (frames @ more, a2))"

text \<open>
  \<open>jobs_for bs jobs\<close>: each job finds its batch of \<open>bs\<close>, complete and unspoilt, in the
  memory.
\<close>

fun jobs_for :: "(u8 list \<Rightarrow> u32) \<Rightarrow> rf_link_mems_batch list \<Rightarrow> batch_job list \<Rightarrow> bool" where
  "jobs_for crc32 [] [] \<longleftrightarrow> True"
| "jobs_for crc32 (b # bs) ((mem, m, sends) # jobs) \<longleftrightarrow>
     (\<exists>slot\<in>{MEMS_SLOT0, MEMS_SLOT1}. batch_accepted crc32 mem m slot \<and> mem slot = b) \<and>
     length (mb_samples b) = RF_LINK_MEMS_BATCH_SAMPLE_COUNT \<and> jobs_for crc32 bs jobs"
| "jobs_for crc32 _ _ \<longleftrightarrow> False"

text \<open>The frame number \<open>n\<close> of the link, counted without bound.\<close>

definition link_frame :: "rf_link_mems_batch list \<Rightarrow> nat \<Rightarrow> rf_frame" where
  "link_frame bs n =
     batch_frame (of_nat n) (bs ! (n div BATCH_FRAMES)) (RF_LINK_FRAME_SAMPLE_COUNT * (n mod BATCH_FRAMES))"

lemma BATCH_FRAMES_pos [simp]: "0 < BATCH_FRAMES" "BATCH_FRAMES \<noteq> 0"
  by (simp_all add: BATCH_FRAMES_def)

definition frames_at :: "nat \<Rightarrow> rf_link_mems_batch list \<Rightarrow> rf_frame list" where
  "frames_at n0 bs = map (\<lambda>k. batch_frame (of_nat (n0 + k)) (bs ! (k div BATCH_FRAMES))
     (RF_LINK_FRAME_SAMPLE_COUNT * (k mod BATCH_FRAMES))) [0..<BATCH_FRAMES * length bs]"

lemma frames_at_0: "frames_at 0 bs = map (link_frame bs) [0..<BATCH_FRAMES * length bs]"
  by (simp add: frames_at_def link_frame_def)

lemma frames_at_Cons:
  "frames_at n0 (b # bs) = batch_frames (of_nat n0) b @ frames_at (n0 + BATCH_FRAMES) bs"
proof -
  have u: "[0..<BATCH_FRAMES * Suc (length bs)] =
      [0..<BATCH_FRAMES] @ map (\<lambda>k. k + BATCH_FRAMES) [0..<BATCH_FRAMES * length bs]"
    by (simp add: map_add_upt upt_add_eq_append [of 0 BATCH_FRAMES "BATCH_FRAMES * length bs"] add.commute)
  have d: "((k + BATCH_FRAMES) div BATCH_FRAMES) = Suc (k div BATCH_FRAMES)"
    "(k + BATCH_FRAMES) mod BATCH_FRAMES = k mod BATCH_FRAMES" for k
    by (simp_all add: div_add_self2)
  show ?thesis
    unfolding frames_at_def list.size add_0_right plus_nat.add_0 add_Suc_right u map_append map_map comp_def d
      batch_frames_def
    by (simp add: ac_simps)
qed

lemma transmit_all_frames_aux:
  "jobs_for crc32 bs jobs \<Longrightarrow> ta_radio_ready a \<or> init_ret = 0 \<Longrightarrow> ta_rf_seq a = of_nat n0 \<Longrightarrow>
   fst (transmit_all crc32 us init_ret jobs a) = frames_at n0 bs"
proof (induction crc32 bs jobs arbitrary: a n0 rule: jobs_for.induct)
  case (2 crc32 b bs mem m sends jobs)
  obtain slot where acc: "batch_accepted crc32 mem m slot" and b: "mem slot = b" and js: "jobs_for crc32 bs jobs"
    using "2.prems"(1) by auto
  obtain rets radio where "send_frames us sends 0 (batch_frames (ta_rf_seq a) (mem slot)) (ta_radio a) = (rets, radio)"
    by fastforce
  then obtain ret a1 where t: "transmit_batch crc32 us mem init_ret sends m a =
      (ret, batch_frames (ta_rf_seq a) b, a1)" "ta_radio_ready a1" "ta_rf_seq a1 = ta_rf_seq a + of_nat BATCH_FRAMES"
    using transmit_batch_sends [OF acc "2.prems"(2)] b by blast
  have "ta_rf_seq a1 = of_nat (n0 + BATCH_FRAMES)"
    using t(3) "2.prems"(3) by simp
  from "2.IH" [OF js disjI1 [OF t(2)] this] show ?case
    by (cases "transmit_all crc32 us init_ret jobs a1") (simp add: t(1) "2.prems"(3) frames_at_Cons)
qed (simp_all add: frames_at_def)

lemma transmit_all_frames:
  assumes "jobs_for crc32 bs jobs" "ta_radio_ready a \<or> init_ret = 0" "ta_rf_seq a = 0"
  shows "fst (transmit_all crc32 us init_ret jobs a) = map (link_frame bs) [0..<BATCH_FRAMES * length bs]"
  using transmit_all_frames_aux [OF assms(1,2), of 0 us] assms(3) by (simp add: frames_at_0)

section \<open>The air and the receiver\<close>

text \<open>A frame as the receiver's driver delivers it.\<close>

definition on_air :: "rf_frame \<Rightarrow> rf_frame" where
  "on_air f = payload_frame \<lparr>pl_length = 204, pl_data = rf_frame_bytes f\<rparr>"

lemma on_air_same: "wf_frame f \<Longrightarrow> on_air f = f"
  using rf_frame_of_bytes_bytes [of f]
  by (simp add: on_air_def payload_frame_def RF_LINK_FRAME_WIRE_SIZE_def)

definition complete :: "rf_link_mems_batch list \<Rightarrow> bool" where
  "complete bs \<longleftrightarrow> (\<forall>b\<in>set bs. length (mb_samples b) = 4096)"

lemma jobs_complete: "jobs_for crc32 bs jobs \<Longrightarrow> complete bs"
  by (induction crc32 bs jobs rule: jobs_for.induct) (auto simp: complete_def RF_LINK_MEMS_BATCH_SAMPLE_COUNT_def)

text \<open>The number of samples frame number \<open>n\<close> carries, and the number before it.\<close>

definition frame_load :: "nat \<Rightarrow> nat" where
  "frame_load n = (if n mod 43 = 42 then 64 else 96)"

definition samples_before :: "nat \<Rightarrow> nat" where
  "samples_before n = 4096 * (n div 43) + 96 * (n mod 43)"

lemma frame_load_room: "frame_room (n mod BATCH_FRAMES) = frame_load n"
proof -
  have "n mod 43 < 43"
    by simp
  then show ?thesis
    by (auto simp: frame_room_def frame_load_def wire_const)
qed

lemma samples_before_Suc: "samples_before (Suc n) = samples_before n + frame_load n"
  by (simp add: samples_before_def frame_load_def mod_Suc div_Suc)

lemma samples_before_sum: "m \<le> n \<Longrightarrow> samples_before n = samples_before m + (\<Sum>k=m..<n. frame_load k)"
  by (induction n rule: nat_induct_at_least) (simp_all add: samples_before_Suc)

lemma link_frame_valid:
  assumes "complete bs" "n < BATCH_FRAMES * length bs"
  shows "wf_frame (link_frame bs n)" "valid_packet (link_frame bs n) 204" "frame_seq (link_frame bs n) = of_nat n"
    "unat (frame_sample_count (link_frame bs n)) = frame_load n"
    "frame_payload (link_frame bs n) =
       take (frame_load n) (drop (96 * (n mod 43)) (mb_samples (bs ! (n div 43))))"
proof -
  have d: "n div BATCH_FRAMES < length bs"
    using assms(2) by (simp add: less_mult_imp_div_less mult.commute)
  then have l: "length (mb_samples (bs ! (n div BATCH_FRAMES))) = 4096"
    using assms(1) by (auto simp: complete_def)
  show "wf_frame (link_frame bs n)"
    unfolding link_frame_def by (rule wf_batch_frame [OF l])
  show c: "unat (frame_sample_count (link_frame bs n)) = frame_load n"
    unfolding link_frame_def by (simp add: unat_batch_frame_count frame_load_room)
  show s: "frame_seq (link_frame bs n) = of_nat n"
    by (simp add: link_frame_def batch_frame_def Let_def)
  show "valid_packet (link_frame bs n) 204"
    using c by (simp add: valid_packet_def frame_load_def RF_LINK_FRAME_SAMPLE_COUNT_def)
      (simp add: link_frame_def batch_frame_def Let_def)
  show "frame_payload (link_frame bs n) =
       take (frame_load n) (drop (96 * (n mod 43)) (mb_samples (bs ! (n div 43))))"
    using batch_frame_payload [OF l, of "of_nat n" "n mod BATCH_FRAMES"]
    unfolding link_frame_def frame_load_room by (simp add: BATCH_FRAMES_def)
qed

text \<open>
  \<open>arrivals n ms\<close>: the numbers of the frames that arrive after number \<open>n\<close>, with fewer
  than 32768 frames lost in a row.
\<close>

fun arrivals :: "nat \<Rightarrow> nat list \<Rightarrow> bool" where
  "arrivals n [] \<longleftrightarrow> True"
| "arrivals n (m # ms) \<longleftrightarrow> n < m \<and> m \<le> n + 32768 \<and> arrivals m ms"

definition received :: "rf_frame list \<Rightarrow> nat list \<Rightarrow> u64 list \<Rightarrow> (rf_frame \<times> u64) list" where
  "received sent ns ts = zip (map (\<lambda>n. on_air (sent ! n)) ns) ts"

lemma received_link:
  assumes "complete bs" "set ns \<subseteq> {..<BATCH_FRAMES * length bs}"
  shows "received (map (link_frame bs) [0..<BATCH_FRAMES * length bs]) ns ts = zip (map (link_frame bs) ns) ts"
proof -
  have "map (\<lambda>n. on_air (map (link_frame bs) [0..<BATCH_FRAMES * length bs] ! n)) ns = map (link_frame bs) ns"
    using assms link_frame_valid(1) by (auto simp: on_air_same)
  then show ?thesis
    by (simp only: received_def)
qed

lemma arrivals_numbered:
  "complete bs \<Longrightarrow> set ms \<subseteq> {..<BATCH_FRAMES * length bs} \<Longrightarrow> arrivals n ms \<Longrightarrow> length ts = length ms \<Longrightarrow>
   numbered n ms (zip (map (link_frame bs) ms) ts)"
proof (induction n ms arbitrary: ts rule: arrivals.induct)
  case (2 n m ms)
  then obtain t ts' where "ts = t # ts'"
    by (cases ts) auto
  then show ?case
    using 2 link_frame_valid(2,3) by auto
qed simp

section \<open>The logical sample index\<close>

text \<open>The last frames of a batch among the numbers from \<open>n\<close> on and below \<open>m\<close>.\<close>

definition tail_frames :: "nat \<Rightarrow> nat \<Rightarrow> nat" where
  "tail_frames n m = length (filter (\<lambda>k. k mod 43 = 42) [n..<m])"

lemma estimate_gap:
  "Suc n \<le> m \<Longrightarrow> samples_before (Suc n) + 96 * (m - n - 1) = samples_before m + 32 * tail_frames (Suc n) m"
proof (induction m rule: nat_induct_at_least)
  case base
  then show ?case by (simp add: tail_frames_def)
next
  case (Suc m)
  then show ?case
    by (cases "m mod 43 = 42") (simp_all add: samples_before_Suc frame_load_def tail_frames_def Suc_diff_le)
qed

fun run_indices :: "u64 \<Rightarrow> nat \<Rightarrow> nat list \<Rightarrow> u64 list" where
  "run_indices base n [] = []"
| "run_indices base n (m # ms) =
     (of_nat (samples_before m) + (base + 32 * of_nat (tail_frames (Suc n) m))) #
     run_indices (base + 32 * of_nat (tail_frames (Suc n) m)) m ms"

lemma reorder_run_indices:
  "tracks n0 n st \<Longrightarrow> complete bs \<Longrightarrow> set ms \<subseteq> {..<BATCH_FRAMES * length bs} \<Longrightarrow> arrivals n ms \<Longrightarrow>
   length ts = length ms \<Longrightarrow> ro_local_sample_index st = of_nat (samples_before (Suc n)) + base \<Longrightarrow>
   reorder_run cfg (zip (map (link_frame bs) ms) ts) st = (recs, st') \<Longrightarrow>
   map rec_logical_sample_index recs = run_indices base n ms"
proof (induction base n ms arbitrary: st ts recs rule: run_indices.induct)
  case (2 base n m ms)
  obtain t ts' where ts: "ts = t # ts'"
    using "2.prems"(5) by (cases ts) auto
  have m: "n < m" "m \<le> n + 32768" "m < BATCH_FRAMES * length bs"
    using "2.prems"(3,4) by auto
  note v = link_frame_valid [OF "2.prems"(2) m(3)]
  obtain r st1 where p: "rx_reorder_process_packet cfg (Some (link_frame bs m)) 204 t False st = (r, st1)"
    by fastforce
  obtain rec where rec: "r = Inr rec" "tracks n0 m st1"
    "rec_logical_sample_index rec = ro_local_sample_index st + of_nat (96 * (m - n - 1))"
    "ro_local_sample_index st1 =
      ro_local_sample_index st + of_nat (96 * (m - n - 1) + unat (frame_sample_count (link_frame bs m)))"
    by (rule process_forward [OF "2.prems"(1) m(1,2) v(2,3) p])
  obtain recs' where run: "reorder_run cfg (zip (map (link_frame bs) ms) ts') st1 = (recs', st')" "recs = rec # recs'"
    using "2.prems"(7) by (auto simp: ts p rec(1) split: prod.splits)
  have "of_nat (samples_before (Suc n) + 96 * (m - n - 1)) =
      (of_nat (samples_before m + 32 * tail_frames (Suc n) m) :: u64)"
    by (simp only: estimate_gap [OF Suc_leI [OF m(1)]])
  then have i: "of_nat (samples_before (Suc n)) + of_nat (96 * (m - n - 1)) =
      (of_nat (samples_before m) + 32 * of_nat (tail_frames (Suc n) m) :: u64)"
    by (simp only: of_nat_add of_nat_mult of_nat_numeral)
  then have idx: "rec_logical_sample_index rec = of_nat (samples_before m) + (base + 32 * of_nat (tail_frames (Suc n) m))"
    unfolding rec(3) "2.prems"(6) by (simp only: ac_simps)
  have "ro_local_sample_index st1 = of_nat (samples_before (Suc m)) + (base + 32 * of_nat (tail_frames (Suc n) m))"
    using i unfolding rec(4) "2.prems"(6) v(4) samples_before_Suc of_nat_add
    by (simp only: ac_simps)
  then have "map rec_logical_sample_index recs' = run_indices (base + 32 * of_nat (tail_frames (Suc n) m)) m ms"
    using "2.prems"(2-5) by (intro "2.IH" [OF rec(2) _ _ _ _ _ run(1)]) (simp_all add: ts)
  then show ?case
    by (simp add: run(2) idx)
qed simp

lemma arrivals_above: "arrivals n ms \<Longrightarrow> k \<in> set ms \<Longrightarrow> n < k"
  by (induction n ms rule: arrivals.induct) auto

lemma run_indices_nth:
  "arrivals n ms \<Longrightarrow> i < length ms \<Longrightarrow> run_indices base n ms ! i = of_nat (samples_before (ms ! i)) + (base +
     32 * of_nat (length (filter (\<lambda>k. k mod 43 = 42 \<and> k \<notin> set ms) [Suc n..<ms ! i])))"
proof (induction base n ms arbitrary: i rule: run_indices.induct)
  case (2 base n m ms)
  have a: "n < m" "arrivals m ms"
    using "2.prems"(1) by simp_all
  have above: "m < k" if "k \<in> set ms" for k
    using arrivals_above [OF a(2) that] .
  have f: "filter (\<lambda>k. k mod 43 = 42 \<and> k \<notin> set (m # ms)) [Suc n..<m] = filter (\<lambda>k. k mod 43 = 42) [Suc n..<m]"
    using above by (intro filter_cong) fastforce+
  show ?case
  proof (cases i)
    case 0
    then show ?thesis
      using f by (simp add: tail_frames_def)
  next
    case (Suc j)
    then have j: "j < length ms" "m < ms ! j"
      using "2.prems"(2) above by auto
    have u: "[Suc n..<ms ! j] = [Suc n..<m] @ m # [Suc m..<ms ! j]"
      using upt_add_eq_append [of "Suc n" m "ms ! j - m"] a(1) j(2) by (simp add: upt_conv_Cons)
    have g: "filter (\<lambda>k. k mod 43 = 42 \<and> k \<notin> set (m # ms)) [Suc m..<ms ! j] =
        filter (\<lambda>k. k mod 43 = 42 \<and> k \<notin> set ms) [Suc m..<ms ! j]"
      by (intro filter_cong) auto
    have "length (filter (\<lambda>k. k mod 43 = 42 \<and> k \<notin> set (m # ms)) [Suc n..<ms ! j]) =
        tail_frames (Suc n) m + length (filter (\<lambda>k. k mod 43 = 42 \<and> k \<notin> set ms) [Suc m..<ms ! j])"
      using f g unfolding u filter_append length_append tail_frames_def by simp
    then show ?thesis
      using "2.IH" [OF a(2) j(1)] Suc by (simp add: algebra_simps)
  qed
qed simp

section \<open>The whole run\<close>

lemma frames_at_payload:
  "complete bs \<Longrightarrow> concat (map frame_payload (frames_at n0 bs)) = concat (map mb_samples bs)"
proof (induction bs arbitrary: n0)
  case (Cons b bs)
  then have "complete bs" "length (mb_samples b) = 4096"
    by (simp_all add: complete_def)
  then show ?case
    using Cons.IH [of "n0 + BATCH_FRAMES"] by (simp add: frames_at_Cons payload_of_batch_frames)
qed (simp add: frames_at_def)

lemma link_payload:
  "complete bs \<Longrightarrow>
   concat (map (\<lambda>n. frame_payload (link_frame bs n)) [0..<BATCH_FRAMES * length bs]) = concat (map mb_samples bs)"
  using frames_at_payload [of bs 0] by (simp add: frames_at_0 comp_def)

text \<open>What the receiver makes of any part of the stream, from the first frame it hears.\<close>

lemma run_of_arrivals:
  assumes c: "complete bs" and ns: "set (n0 # ms) \<subseteq> {..<BATCH_FRAMES * length bs}" and arr: "arrivals n0 ms"
    and len: "length ts = Suc (length ms)"
    and run: "reorder_run cfg (zip (map (link_frame bs) (n0 # ms)) ts) rx_reorder_init = (recs, st')"
  shows "map rec_frame recs = map (link_frame bs) (n0 # ms)"
    and "map rec_extended_frame_seq recs = map (\<lambda>m. of_nat (n0 mod 65536 + (m - n0))) (n0 # ms)"
    and "ro_lost_frames st' = of_nat (last (n0 # ms) - n0 - length ms)"
    and "map rec_logical_sample_index recs = 0 # run_indices (- of_nat (samples_before n0)) n0 ms"
proof -
  obtain t ts' where ts: "ts = t # ts'" "length ts' = length ms"
    using len by (cases ts) auto
  have n0: "n0 < BATCH_FRAMES * length bs" and ms: "set ms \<subseteq> {..<BATCH_FRAMES * length bs}"
    using ns by auto
  note v = link_frame_valid [OF c n0]
  have z: "zip (map (link_frame bs) (n0 # ms)) ts = (link_frame bs n0, t) # zip (map (link_frame bs) ms) ts'"
    by (simp add: ts)
  note num = arrivals_numbered [OF c ms arr ts(2)]
  have fst: "map fst (zip (map (link_frame bs) ms) ts') = map (link_frame bs) ms"
    by (rule map_fst_zip) (simp add: ts(2))
  note all = run_from_init [OF v(2,3) num run [unfolded z]]
  show "map rec_frame recs = map (link_frame bs) (n0 # ms)"
    "map rec_extended_frame_seq recs = map (\<lambda>m. of_nat (n0 mod 65536 + (m - n0))) (n0 # ms)"
    "ro_lost_frames st' = of_nat (last (n0 # ms) - n0 - length ms)"
    using all fst by simp_all
  obtain r st1 where p: "rx_reorder_process_packet cfg (Some (link_frame bs n0)) 204 t False rx_reorder_init = (r, st1)"
    by fastforce
  obtain rec where rec: "r = Inr rec" "tracks n0 n0 st1"
    "rec_logical_sample_index rec = ro_local_sample_index rx_reorder_init"
    "ro_local_sample_index st1 = ro_local_sample_index rx_reorder_init + of_nat (unat (frame_sample_count (link_frame bs n0)))"
    by (rule process_first [OF _ v(2,3) p]) (simp_all add: rx_reorder_init_def)
  obtain recs' where r: "reorder_run cfg (zip (map (link_frame bs) ms) ts') st1 = (recs', st')" "recs = rec # recs'"
    using run unfolding z by (auto simp: p rec(1) split: prod.splits)
  have i0: "ro_local_sample_index rx_reorder_init = 0"
    by (simp add: rx_reorder_init_def)
  have "ro_local_sample_index st1 = of_nat (samples_before (Suc n0)) + - of_nat (samples_before n0)"
    by (simp add: rec(4) v(4) samples_before_Suc i0)
  from reorder_run_indices [OF rec(2) c ms arr ts(2) this r(1)]
  show "map rec_logical_sample_index recs = 0 # run_indices (- of_nat (samples_before n0)) n0 ms"
    by (simp add: r(2) rec(3) i0)
qed

lemma arrivals_all: "arrivals n [Suc n..<m]"
proof (induction "m - n" arbitrary: n)
  case (Suc d)
  then show ?case
    by (cases "Suc n < m") (simp_all add: upt_conv_Cons)
qed simp

section \<open>Properties\<close>

text \<open>
  C2. End to end: when the frames of any number of consecutive batches arrive, the
  receiver accepts every one of them in order, numbers them 0, 1, 2 and so on, counts
  no loss, and the samples in its records are exactly the samples of the batches; the
  record of frame k of batch j has the logical index 4096 j + 96 k, the place of its
  first sample in that stream.
\<close>

theorem link_end_to_end:
  assumes "jobs_for crc32 bs jobs" "bs \<noteq> []" "ta_radio_ready a \<or> init_ret = 0" "ta_rf_seq a = 0"
    and "sent = fst (transmit_all crc32 us init_ret jobs a)" "length ts = length sent"
    and "reorder_run cfg (received sent [0..<length sent] ts) rx_reorder_init = (recs, st')"
  shows "map rec_frame recs = sent \<and>
    concat (map (\<lambda>r. frame_payload (rec_frame r)) recs) = concat (map mb_samples bs) \<and>
    map rec_extended_frame_seq recs = map of_nat [0..<43 * length bs] \<and>
    ro_lost_frames st' = 0 \<and>
    (\<forall>j<length bs. \<forall>k<43. rec_logical_sample_index (recs ! (43 * j + k)) = of_nat (4096 * j + 96 * k))"
proof -
  have c: "complete bs"
    by (rule jobs_complete [OF assms(1)])
  have s: "sent = map (link_frame bs) [0..<43 * length bs]"
    using transmit_all_frames [OF assms(1,3,4)] assms(5) by (simp add: BATCH_FRAMES_def)
  then have l: "length sent = 43 * length bs" and ts: "length ts = 43 * length bs"
    using assms(6) by simp_all
  have pos: "0 < 43 * length bs"
    using assms(2) by simp
  define ms where "ms = [Suc 0..<43 * length bs]"
  have ns: "[0..<43 * length bs] = 0 # ms"
    using pos by (simp add: ms_def upt_conv_Cons)
  have sub: "set (0 # ms) \<subseteq> {..<BATCH_FRAMES * length bs}"
    using pos by (auto simp: ms_def BATCH_FRAMES_def)
  have arr: "arrivals 0 ms"
    unfolding ms_def by (rule arrivals_all)
  have "received sent [0..<length sent] ts = zip (map (link_frame bs) (0 # ms)) ts"
    using received_link [OF c sub] unfolding l ns by (simp add: s BATCH_FRAMES_def)
  then have run: "reorder_run cfg (zip (map (link_frame bs) (0 # ms)) ts) rx_reorder_init = (recs, st')"
    using assms(7) by simp
  have lms: "length ts = Suc (length ms)"
    using ts pos by (simp add: ms_def)
  note r = run_of_arrivals [OF c sub arr lms run]
  have recs: "map rec_frame recs = sent"
    using r(1) by (simp add: s ns)
  then have pay: "concat (map (\<lambda>r. frame_payload (rec_frame r)) recs) = concat (map mb_samples bs)"
    using link_payload [OF c] by (simp add: s BATCH_FRAMES_def comp_def flip: map_map [of frame_payload rec_frame, unfolded comp_def])
  have lr: "length recs = 43 * length bs"
    using recs l by (metis length_map)
  have idx: "rec_logical_sample_index (recs ! i) = of_nat (samples_before i)" if "i < 43 * length bs" for i
  proof (cases i)
    case 0
    have "map rec_logical_sample_index recs ! 0 = 0"
      unfolding r(4) by simp
    then show ?thesis
      using that lr 0 by (simp add: samples_before_def)
  next
    case (Suc j)
    then have j: "j < length ms" "ms ! j = i"
      using that by (simp_all add: ms_def)
    have "filter (\<lambda>k. k mod 43 = 42 \<and> k \<notin> set ms) [Suc 0..<i] = []"
      using that by (auto simp: ms_def filter_empty_conv)
    then have "run_indices (- of_nat (samples_before 0)) 0 ms ! j = of_nat (samples_before i)"
      using run_indices_nth [OF arr j(1), of "- of_nat (samples_before 0)"] j(2) by (simp add: samples_before_def)
    then have "map rec_logical_sample_index recs ! i = of_nat (samples_before i)"
      unfolding r(4) Suc by simp
    then show ?thesis
      using that lr by simp
  qed
  have "rec_logical_sample_index (recs ! (43 * j + k)) = of_nat (4096 * j + 96 * k)" if "j < length bs" "k < 43" for j k
  proof -
    have "43 * j + k < 43 * Suc j" "43 * Suc j \<le> 43 * length bs"
      using that by simp_all
    then have "43 * j + k < 43 * length bs"
      by linarith
    then show ?thesis
      using idx that by (simp add: samples_before_def)
  qed
  moreover have "last (0 # ms) - 0 - length ms = 0"
    using pos by (cases "length bs") (simp_all add: ms_def)
  ultimately show ?thesis
    using recs pay r(2,3) by (simp add: ns)
qed

definition demo_jobs :: "batch_job list" where
  "demo_jobs = replicate 2 ((\<lambda>_. sample_batch), sample_announcement, sample_send)"

lemma demo_jobs_for: "jobs_for (\<lambda>_. 9) [sample_batch, sample_batch] demo_jobs"
  using sample_accepted by (simp add: demo_jobs_def numeral_2_eq_2)
    (simp add: sample_batch_def RF_LINK_MEMS_BATCH_SAMPLE_COUNT_def)

definition demo_sent :: "rf_frame list" where
  "demo_sent = fst (transmit_all (\<lambda>_. 9) id 0 demo_jobs (sample_tx\<lparr>ta_rf_seq := 0\<rparr>))"

lemma length_demo_sent: "length demo_sent = 86"
  using transmit_all_frames [OF demo_jobs_for, of "sample_tx\<lparr>ta_rf_seq := 0\<rparr>" 0 id]
  by (simp add: demo_sent_def BATCH_FRAMES_def)

lemma link_end_to_end_witness:
  "rec_logical_sample_index (fst (reorder_run (future_conf sum16 sum32)
     (received demo_sent [0..<length demo_sent] (replicate (length demo_sent) 0)) rx_reorder_init) ! 85) = 8128"
proof -
  obtain recs st' where run: "reorder_run (future_conf sum16 sum32)
     (received demo_sent [0..<length demo_sent] (replicate (length demo_sent) 0)) rx_reorder_init = (recs, st')"
    by fastforce
  have "\<forall>j<length [sample_batch, sample_batch]. \<forall>k<43.
      rec_logical_sample_index (recs ! (43 * j + k)) = of_nat (4096 * j + 96 * k)"
    using link_end_to_end [OF demo_jobs_for _ disjI2 [OF refl] _ demo_sent_def _ run] by simp
  from this [rule_format, of 1 42] have "rec_logical_sample_index (recs ! (43 * 1 + 42)) = of_nat (4096 * 1 + 96 * 42)"
    by simp
  then show ?thesis
    unfolding run by simp
qed

text \<open>
  C20. What loss does to the logical index: whatever frames arrive (fewer than 32768
  lost in a row), the records are exactly the frames that arrived, the loss counter
  is exact, and the logical index of a record is the place of its first sample,
  counted from the first frame heard, plus 32 for every lost frame that ended a
  batch: the estimate takes 96 samples for each lost frame, and the last frame of a
  batch has only 64.
\<close>

theorem link_index_after_loss:
  assumes "jobs_for crc32 bs jobs" "ta_radio_ready a \<or> init_ret = 0" "ta_rf_seq a = 0"
    and "sent = fst (transmit_all crc32 us init_ret jobs a)"
    and "set (n0 # ms) \<subseteq> {..<length sent}" "arrivals n0 ms" "length ts = Suc (length ms)"
    and "reorder_run cfg (received sent (n0 # ms) ts) rx_reorder_init = (recs, st')"
  shows "map rec_frame recs = map (\<lambda>n. sent ! n) (n0 # ms) \<and>
    ro_lost_frames st' = of_nat (last (n0 # ms) - n0 - length ms) \<and>
    (\<forall>i<length ms. rec_logical_sample_index (recs ! Suc i) =
      of_nat (samples_before (ms ! i)) - of_nat (samples_before n0) +
      32 * of_nat (length (filter (\<lambda>k. k mod 43 = 42 \<and> k \<notin> set ms) [Suc n0..<ms ! i])))"
proof -
  have c: "complete bs"
    by (rule jobs_complete [OF assms(1)])
  have s: "sent = map (link_frame bs) [0..<BATCH_FRAMES * length bs]"
    using transmit_all_frames [OF assms(1-3)] assms(4) by simp
  then have sub: "set (n0 # ms) \<subseteq> {..<BATCH_FRAMES * length bs}"
    using assms(5) by simp
  have run: "reorder_run cfg (zip (map (link_frame bs) (n0 # ms)) ts) rx_reorder_init = (recs, st')"
    using assms(8) received_link [OF c sub, of ts] by (simp only: s)
  note r = run_of_arrivals [OF c sub assms(6,7) run]
  have frames: "map rec_frame recs = map (\<lambda>n. sent ! n) (n0 # ms)"
    using r(1) sub by (auto simp: s)
  then have lr: "length recs = Suc (length ms)"
    by (metis length_map length_Cons)
  have "rec_logical_sample_index (recs ! Suc i) =
      of_nat (samples_before (ms ! i)) - of_nat (samples_before n0) +
      32 * of_nat (length (filter (\<lambda>k. k mod 43 = 42 \<and> k \<notin> set ms) [Suc n0..<ms ! i]))"
    if i: "i < length ms" for i
  proof -
    have "rec_logical_sample_index (recs ! Suc i) = map rec_logical_sample_index recs ! Suc i"
      using i lr by simp
    also have "\<dots> = run_indices (- of_nat (samples_before n0)) n0 ms ! i"
      unfolding r(4) by simp
    finally show ?thesis
      using run_indices_nth [OF assms(6) i, of "- of_nat (samples_before n0)"] by simp
  qed
  then show ?thesis
    using frames r(3) by blast
qed

text \<open>Frame 42, the last of the first batch, is lost: the next frame is placed 32 samples late.\<close>

lemma link_index_after_loss_witness:
  "rec_logical_sample_index (fst (reorder_run (future_conf sum16 sum32)
     (received demo_sent [41, 43] [0, 0]) rx_reorder_init) ! 1) = (4096 - 96 * 41) + 32"
proof -
  obtain recs st' where run: "reorder_run (future_conf sum16 sum32) (received demo_sent [41, 43] [0, 0])
      rx_reorder_init = (recs, st')"
    by fastforce
  have t: "[Suc 41..<43] = [42]"
    by (simp add: upt_rec)
  have "rec_logical_sample_index (recs ! Suc 0) =
      of_nat (samples_before 43) - of_nat (samples_before 41) + 32"
    using link_index_after_loss [OF demo_jobs_for disjI2 [OF refl] _ demo_sent_def _ _ _ run] t
    by (simp add: length_demo_sent)
  then show ?thesis
    unfolding run by (simp add: samples_before_def)
qed

end
