(* ===== verification/Sync_Minimal.thy ===== *)
theory Sync_Minimal
  imports Rx_Radio Rx_Reorder Debug_Uart
begin

text \<open>
  \<open>sync_minimal/src/main.c\<close>: the synchronisation prototype, one program in two roles.
  The coordinator broadcasts sync frames, the responder checks what it hears and
  counts. The state is the file's static variables and the text printed; the nrfx and
  ESB drivers' answers and the events between two points of \<open>main\<close> are inputs.
\<close>

section \<open>The sync frame\<close>

definition SYNC_MAGIC :: u16 where [wire_const]: "SYNC_MAGIC = 0x534e"
definition SYNC_VERSION :: u8 where [wire_const]: "SYNC_VERSION = 1"
definition SYNC_PREFIX :: u8 where [wire_const]: "SYNC_PREFIX = 0x54"

record sync_frame =
  sf_magic :: u16
  sf_version :: u8
  sf_reserved :: u8
  sf_epoch :: u32
  sf_sequence :: u32
  sf_pulse_delay_us :: u32

definition SYNC_FRAME_SIZE :: nat where [wire_const]: "SYNC_FRAME_SIZE = 16"

definition sync_frame_bytes :: "sync_frame \<Rightarrow> u8 list" where
  "sync_frame_bytes f = le16 (sf_magic f) @ [sf_version f, sf_reserved f] @ le32 (sf_epoch f) @
     le32 (sf_sequence f) @ le32 (sf_pulse_delay_us f)"

definition sync_frame_of_bytes :: "u8 list \<Rightarrow> sync_frame" where
  "sync_frame_of_bytes bs = \<lparr>sf_magic = field bs 0 2, sf_version = field bs 2 1, sf_reserved = field bs 3 1,
     sf_epoch = field bs 4 4, sf_sequence = field bs 8 4, sf_pulse_delay_us = field bs 12 4\<rparr>"

record sync_conf =
  SYNC_COORDINATOR :: bool
  SYNC_CHANNEL :: u32
  SYNC_PULSE_DELAY_US :: u32
  SYNC_PULSE_PIN :: u32

record sync_min =
  sn_tx_done :: bool
  sn_radio_events :: u32
  sn_good_frames :: u32
  sn_bad_frames :: u32
  sn_tx_ok :: u32
  sn_tx_fail :: u32
  sn_last_epoch :: u32
  sn_last_sequence :: u32
  sn_pulse_events :: u32
  sn_out :: string

section \<open>Interrupts\<close>

definition timer_handler :: "bool \<Rightarrow> sync_min \<Rightarrow> sync_min" where
  [op_defs]: "timer_handler is_compare0 s =
     (if is_compare0 then s\<lparr>sn_pulse_events := sn_pulse_events s + 1\<rparr> else s)"

definition sync_payload :: "esb_payload \<Rightarrow> sync_min \<Rightarrow> sync_min" where
  "sync_payload p s =
     (let copy_len = min (unat (pl_length p)) SYNC_FRAME_SIZE;
          frame = sync_frame_of_bytes (take copy_len (pl_data p) @ replicate (SYNC_FRAME_SIZE - copy_len) 0)
      in if copy_len \<noteq> SYNC_FRAME_SIZE \<or> sf_magic frame \<noteq> SYNC_MAGIC \<or> sf_version frame \<noteq> SYNC_VERSION
         then s\<lparr>sn_bad_frames := sn_bad_frames s + 1\<rparr>
         else s\<lparr>sn_good_frames := sn_good_frames s + 1, sn_last_epoch := sf_epoch frame,
                sn_last_sequence := sf_sequence frame\<rparr>)"

text \<open>An event, with the payloads that \<open>esb_read_rx_payload\<close> delivers until it fails.\<close>

definition sync_radio_event :: "(esb_evt_id \<times> esb_payload list) option \<Rightarrow> sync_min \<Rightarrow> sync_min" where
  [op_defs]: "sync_radio_event ep s =
     (case ep of
        None \<Rightarrow> s
      | Some (ev, payloads) \<Rightarrow>
          (case ev of
             ESB_EVENT_TX_SUCCESS \<Rightarrow> s\<lparr>sn_tx_ok := sn_tx_ok s + 1, sn_tx_done := True\<rparr>
           | ESB_EVENT_TX_FAILED \<Rightarrow> s\<lparr>sn_tx_fail := sn_tx_fail s + 1, sn_tx_done := True\<rparr>
           | ESB_EVENT_RX_RECEIVED \<Rightarrow>
               fold sync_payload payloads (s\<lparr>sn_radio_events := sn_radio_events s + 1\<rparr>)
           | Esb_Event_Other \<Rightarrow> s))"

section \<open>Initialisation\<close>

definition sync_esb_config :: "sync_conf \<Rightarrow> esb_config" where
  "sync_esb_config c = \<lparr>esb_mode = (if SYNC_COORDINATOR c then ESB_MODE_PTX else ESB_MODE_PRX),
     esb_bitrate = ESB_BITRATE_2MBPS, esb_retransmit = None, esb_payload_length = SYNC_FRAME_SIZE,
     esb_selective_auto_ack = True, esb_crc_16bit = True, esb_protocol_dpl = True,
     esb_tx_mode = Some ESB_TXMODE_AUTO\<rparr>"

definition sync_prefixes :: "u8 list" where
  "sync_prefixes = [SYNC_PREFIX, 0xc2, 0xc3, 0xc4, 0xc5, 0xc6, 0xc7, 0xc8]"

text \<open>The clock driver the build selects decides which \<open>clocks_start\<close> there is.\<close>

datatype clock_driver = Clock_Control_Nrf | Clock_Control_Nrf2 | Clock_Control_None

definition sync_clocks_start :: "clock_driver \<Rightarrow> bool \<Rightarrow> int \<Rightarrow> (int \<times> int) list \<Rightarrow> int option" where
  [op_defs]: "sync_clocks_start drv dev_null request polls =
     (case drv of
        Clock_Control_Nrf \<Rightarrow> clocks_start_nrf dev_null request polls
      | Clock_Control_Nrf2 \<Rightarrow> clocks_start_nrf2 dev_null request polls
      | Clock_Control_None \<Rightarrow> Some (- ENOTSUP))"

text \<open>\<open>clocks\<close> is what \<open>clocks_start\<close> returned.\<close>

definition sync_radio_init :: "sync_conf \<Rightarrow> int \<Rightarrow> (esb_call \<Rightarrow> int) \<Rightarrow> int \<times> esb_call list" where
  [op_defs]: "sync_radio_init c clocks ret =
     (if clocks \<noteq> 0 then (clocks, [])
      else first_error ret
        ([Esb_Init (sync_esb_config c), Esb_Set_Address_Length 5, Esb_Set_Base_Address_0 base_addr_0,
          Esb_Set_Base_Address_1 base_addr_1, Esb_Set_Prefixes sync_prefixes,
          Esb_Set_Rf_Channel (SYNC_CHANNEL c)] @
         (if SYNC_COORDINATOR c then [Esb_Flush_Tx] else [Esb_Flush_Rx, Esb_Start_Rx])))"

datatype pulse_endpoint = Radio_Address | Timer_Clear | Timer_Start | Timer_Compare0 | Gpio_Out

datatype pulse_call =
  Timer_Init
| Timer_Compare u32
| Gpiote_Init
| Gpiote_Channel_Alloc
| Gpiote_Output_Configure u32 u8
| Gpiote_Out_Task_Enable u32
| Gppi_Alloc_Radio
| Gppi_Alloc_Gpio
| Gppi_Endpoints u8 pulse_endpoint pulse_endpoint
| Gppi_Fork u8 pulse_endpoint
| Gppi_Enable u8

record pulse_answers =
  pa_ok :: "pulse_call \<Rightarrow> bool"
  pa_gpiote_initialised :: bool
  pa_gpiote_channel :: u8
  pa_radio_channel :: u8
  pa_gpio_channel :: u8

text \<open>A call that can fail has the error \<open>hardware_pulse_init\<close> then returns.\<close>

fun run_pulse :: "(pulse_call \<Rightarrow> bool) \<Rightarrow> (pulse_call \<times> int option) list \<Rightarrow> int \<times> pulse_call list" where
  "run_pulse ok [] = (0, [])"
| "run_pulse ok ((c, e) # cs) =
     (case e of
        Some err \<Rightarrow>
          if ok c then let (r, made) = run_pulse ok cs in (r, c # made) else (err, [c])
      | None \<Rightarrow> let (r, made) = run_pulse ok cs in (r, c # made))"

definition hardware_pulse_init :: "sync_conf \<Rightarrow> pulse_answers \<Rightarrow> int \<times> pulse_call list" where
  [op_defs]: "hardware_pulse_init c a =
     run_pulse (pa_ok a)
       ([(Timer_Init, Some (- EIO)), (Timer_Compare (SYNC_PULSE_DELAY_US c), None)] @
        (if pa_gpiote_initialised a then [] else [(Gpiote_Init, Some (- EIO))]) @
        [(Gpiote_Channel_Alloc, Some (- ENOMEM)),
         (Gpiote_Output_Configure (SYNC_PULSE_PIN c) (pa_gpiote_channel a), Some (- EIO)),
         (Gpiote_Out_Task_Enable (SYNC_PULSE_PIN c), None),
         (Gppi_Alloc_Radio, Some (- ENOMEM)),
         (Gppi_Endpoints (pa_radio_channel a) Radio_Address Timer_Clear, None),
         (Gppi_Fork (pa_radio_channel a) Timer_Start, None),
         (Gppi_Enable (pa_radio_channel a), None),
         (Gppi_Alloc_Gpio, Some (- ENOMEM)),
         (Gppi_Endpoints (pa_gpio_channel a) Timer_Compare0 Gpio_Out, None),
         (Gppi_Enable (pa_gpio_channel a), None)])"

section \<open>Output\<close>

definition sync_u :: "u32 \<Rightarrow> string" where "sync_u v = decimal (unat v)"

definition sync_d :: "int \<Rightarrow> string" where
  "sync_d v = (if v < 0 then CHR ''-'' # decimal (nat (- v)) else decimal (nat v))"

definition printk :: "string list \<Rightarrow> sync_min \<Rightarrow> sync_min" where
  "printk parts s = s\<lparr>sn_out := sn_out s @ concat parts\<rparr>"

definition role_name :: "sync_conf \<Rightarrow> string" where
  "role_name c = (if SYNC_COORDINATOR c then ''COORD'' else ''RESP'')"

definition sync_print_status :: "sync_conf \<Rightarrow> u32 \<Rightarrow> sync_min \<Rightarrow> sync_min" where
  [op_defs]: "sync_print_status c epoch s =
     printk [''SYNC role='', role_name c, '' epoch='', sync_u epoch, '' tx_ok='', sync_u (sn_tx_ok s),
       '' tx_fail='', sync_u (sn_tx_fail s), '' radio_events='', sync_u (sn_radio_events s),
       '' frames_ok='', sync_u (sn_good_frames s), '' frames_bad='', sync_u (sn_bad_frames s),
       '' last_epoch='', sync_u (sn_last_epoch s), '' last_seq='', sync_u (sn_last_sequence s),
       '' pulse_events='', sync_u (sn_pulse_events s), '' pulse_pin=P1.09 pulse_delay_us='',
       sync_u (SYNC_PULSE_DELAY_US c), [CHR 0x0A]] s"

section \<open>The main thread\<close>

text \<open>\<open>main\<close> up to its loops: the value it returns, or \<open>Inr ()\<close>.\<close>

definition sync_main_start ::
  "sync_conf \<Rightarrow> pulse_answers \<Rightarrow> int \<Rightarrow> (esb_call \<Rightarrow> int) \<Rightarrow> sync_min \<Rightarrow> (int + unit) \<times> sync_min" where
  [op_defs]: "sync_main_start c pulse clocks esb s =
     (let s0 = s\<lparr>sn_tx_done := False\<rparr>;
          (ret, _) = hardware_pulse_init c pulse
      in if ret \<noteq> 0
         then (Inl ret, printk [''SYNC hardware pulse init failed err='', sync_d ret, [CHR 0x0A]] s0)
         else
           let (ret, _) = sync_radio_init c clocks esb
           in if ret \<noteq> 0
              then (Inl ret, printk [''SYNC radio init failed err='', sync_d ret, '' channel='',
                      sync_d (uint (SYNC_CHANNEL c)), [CHR 0x0A]] s0)
              else (Inr (), printk [''SYNC_MINIMAL role='', role_name c, '' channel='',
                      sync_d (uint (SYNC_CHANNEL c)), '' address=0x54 pulse=P1.09 delay_us='',
                      sync_d (uint (SYNC_PULSE_DELAY_US c)), [CHR 0x0A]] s0))"

definition coordinator_frame :: "sync_conf \<Rightarrow> u32 \<Rightarrow> u32 \<Rightarrow> sync_frame" where
  "coordinator_frame c epoch sequence = \<lparr>sf_magic = SYNC_MAGIC, sf_version = SYNC_VERSION, sf_reserved = 0,
     sf_epoch = epoch, sf_sequence = sequence, sf_pulse_delay_us = SYNC_PULSE_DELAY_US c\<rparr>"

type_synonym sync_events = "(esb_evt_id \<times> esb_payload list) option list"

record coordinator_input =
  ci_write :: int
  ci_waiting :: sync_events
  ci_sleeping :: sync_events

text \<open>
  A pass of the coordinator's loop: the payload the driver took over, if it did, the
  next sequence number and the state. \<open>k_sem_take\<close> takes the semaphore when an event
  gave it before the deadline, or leaves it empty.
\<close>

definition coordinator_pass ::
  "sync_conf \<Rightarrow> u32 \<Rightarrow> coordinator_input \<Rightarrow> u32 \<times> sync_min \<Rightarrow> u8 list option \<times> u32 \<times> sync_min" where
  [op_defs]: "coordinator_pass c epoch i s =
     (let data = sync_frame_bytes (coordinator_frame c epoch (fst s));
          sequence = fst s + 1;
          s1 = (if ci_write i = 0
                then (fold sync_radio_event (ci_waiting i) (snd s))\<lparr>sn_tx_done := False\<rparr>
                else (snd s)\<lparr>sn_tx_fail := sn_tx_fail (snd s) + 1\<rparr>);
          s2 = (if sequence mod 10 = 0 then sync_print_status c epoch s1 else s1)
      in (if ci_write i = 0 then Some data else None, sequence, fold sync_radio_event (ci_sleeping i) s2))"

definition responder_pass :: "sync_conf \<Rightarrow> u32 \<Rightarrow> sync_events \<Rightarrow> sync_min \<Rightarrow> sync_min" where
  [op_defs]: "responder_pass c epoch sleeping s = fold sync_radio_event sleeping (sync_print_status c epoch s)"

fun coordinator_run ::
  "sync_conf \<Rightarrow> u32 \<Rightarrow> coordinator_input list \<Rightarrow> u32 \<times> sync_min \<Rightarrow> u8 list list \<times> u32 \<times> sync_min" where
  "coordinator_run c epoch [] s = ([], s)"
| "coordinator_run c epoch (i # is) s =
     (let (out, s1) = coordinator_pass c epoch i s; (outs, s2) = coordinator_run c epoch is s1
      in ((case out of Some d \<Rightarrow> [d] | None \<Rightarrow> []) @ outs, s2))"

section \<open>What the responder makes of a payload\<close>

definition as_payload :: "u8 list \<Rightarrow> esb_payload" where
  "as_payload d = \<lparr>pl_length = of_nat (length d), pl_data = d\<rparr>"

lemma length_sync_frame_bytes [simp]: "length (sync_frame_bytes f) = 16"
  by (simp add: sync_frame_bytes_def)

lemma sync_frame_of_bytes_bytes [simp]: "sync_frame_of_bytes (sync_frame_bytes f) = f"
  by (simp add: sync_frame_of_bytes_def sync_frame_bytes_def)

lemma sync_payload_frame:
  "sync_payload (as_payload (sync_frame_bytes (coordinator_frame c epoch n))) s =
     s\<lparr>sn_good_frames := sn_good_frames s + 1, sn_last_epoch := epoch, sn_last_sequence := n\<rparr>"
  by (simp add: sync_payload_def as_payload_def SYNC_FRAME_SIZE_def coordinator_frame_def)

lemma sync_payloads_frames:
  "set ds \<subseteq> (\<lambda>k. sync_frame_bytes (coordinator_frame c epoch k)) ` K \<Longrightarrow> ds \<noteq> [] \<Longrightarrow>
   \<exists>k\<in>K. fold sync_payload (map as_payload ds) s =
     s\<lparr>sn_good_frames := sn_good_frames s + of_nat (length ds), sn_last_epoch := epoch, sn_last_sequence := k\<rparr> \<and>
     last ds = sync_frame_bytes (coordinator_frame c epoch k)"
proof (induction ds rule: rev_induct)
  case (snoc d ds)
  obtain k where k: "k \<in> K" "d = sync_frame_bytes (coordinator_frame c epoch k)"
    using snoc.prems(1) by auto
  show ?case
  proof (cases "ds = []")
    case True
    then show ?thesis
      using k by (intro bexI [of _ k]) (simp_all add: sync_payload_frame)
  next
    case False
    then obtain j where "fold sync_payload (map as_payload ds) s =
        s\<lparr>sn_good_frames := sn_good_frames s + of_nat (length ds), sn_last_epoch := epoch, sn_last_sequence := j\<rparr>"
      using snoc.IH snoc.prems(1) by auto
    then show ?thesis
      using k by (intro bexI [of _ k]) (simp_all add: sync_payload_frame add.assoc)
  qed
qed simp

lemma coordinator_run_sent:
  "coordinator_run c epoch is (n, s) = (sent, n', s') \<Longrightarrow>
   n' = n + of_nat (length is) \<and>
   sent = map (\<lambda>i. sync_frame_bytes (coordinator_frame c epoch (n + of_nat i)))
     (filter (\<lambda>i. ci_write (is ! i) = 0) [0..<length is])"
proof (induction "is" arbitrary: n s sent)
  case (Cons i "is")
  obtain out n1 s1 where p: "coordinator_pass c epoch i (n, s) = (out, n1, s1)"
    using prod_cases3 by blast
  obtain outs where r: "coordinator_run c epoch is (n1, s1) = (outs, n', s')"
    "sent = (case out of Some d \<Rightarrow> [d] | None \<Rightarrow> []) @ outs"
    using Cons.prems p by (auto split: prod.splits)
  have n1: "n1 = n + 1" "out = (if ci_write i = 0 then Some (sync_frame_bytes (coordinator_frame c epoch n)) else None)"
    using p by (auto simp: coordinator_pass_def Let_def)
  have u: "[0..<length (i # is)] = 0 # map Suc [0..<length is]"
    by (simp add: upt_conv_Cons map_Suc_upt del: upt_Suc)
  show ?case
    using Cons.IH [OF r(1)] n1 unfolding u r(2)
    by (simp add: filter_map comp_def add.assoc del: upt_Suc)
qed simp

lemma rf_frame_is_no_sync_frame:
  assumes "wf_frame f" "frame_magic f = RF_LINK_MAGIC"
  shows "sync_payload (as_payload (rf_frame_bytes f)) s = s\<lparr>sn_bad_frames := sn_bad_frames s + 1\<rparr>"
proof -
  have "sf_magic (sync_frame_of_bytes (take 16 (rf_frame_bytes f))) = frame_magic f"
    by (simp add: sync_frame_of_bytes_def rf_frame_bytes_def)
  moreover have "pl_length (as_payload (rf_frame_bytes f)) = 204"
    using assms(1) by (simp add: as_payload_def RF_LINK_FRAME_WIRE_SIZE_def)
  ultimately show ?thesis
    using assms(2) by (simp add: sync_payload_def Let_def as_payload_def SYNC_FRAME_SIZE_def SYNC_MAGIC_def RF_LINK_MAGIC_def)
qed

section \<open>Properties\<close>

text \<open>
  The responder follows the coordinator: whatever frames of a run of the
  coordinator reach the responder (any of them, lost, repeated), each counts as good,
  none as bad, and the epoch and sequence number it reports are those of the last
  frame it heard, a frame the driver took over in that run.
\<close>

theorem sync_responder_follows:
  assumes "coordinator_run c epoch is (n, cs) = (sent, n', cs')"
    and "set ds \<subseteq> set sent" "ds \<noteq> []"
    and "sync_radio_event (Some (ESB_EVENT_RX_RECEIVED, map as_payload ds)) r = r'"
  shows "sn_good_frames r' = sn_good_frames r + of_nat (length ds) \<and> sn_bad_frames r' = sn_bad_frames r \<and>
    sn_radio_events r' = sn_radio_events r + 1 \<and> sn_last_epoch r' = epoch \<and>
    n' = n + of_nat (length is) \<and>
    (\<exists>i<length is. ci_write (is ! i) = 0 \<and> sn_last_sequence r' = n + of_nat i \<and>
      last ds = sync_frame_bytes (coordinator_frame c epoch (sn_last_sequence r')))"
proof -
  note run = coordinator_run_sent [OF assms(1)]
  let ?K = "(\<lambda>i. n + of_nat i) ` {i. i < length is \<and> ci_write (is ! i) = 0}"
  have "set ds \<subseteq> (\<lambda>k. sync_frame_bytes (coordinator_frame c epoch k)) ` ?K"
    using assms(2) run by auto
  from sync_payloads_frames [OF this assms(3), of "r\<lparr>sn_radio_events := sn_radio_events r + 1\<rparr>"]
  obtain k where k: "k \<in> ?K" "last ds = sync_frame_bytes (coordinator_frame c epoch k)"
    "r' = r\<lparr>sn_radio_events := sn_radio_events r + 1, sn_good_frames := sn_good_frames r + of_nat (length ds),
       sn_last_epoch := epoch, sn_last_sequence := k\<rparr>"
    using assms(4) by (auto simp: sync_radio_event_def)
  then show ?thesis
    using run by auto
qed

text \<open>
  The prototype and the sensor link share address and channel and still do not
  take each other's frames: a data frame is a bad frame to the responder and changes
  nothing it reports, and a sync frame is refused by the receiver for its size and
  changes no sequence or sample accounting.
\<close>

theorem sync_and_data_apart:
  assumes "wf_frame f" "frame_magic f = RF_LINK_MAGIC"
  shows "sync_payload (as_payload (rf_frame_bytes f)) s = s\<lparr>sn_bad_frames := sn_bad_frames s + 1\<rparr> \<and>
    rx_reorder_process_packet cfg (Some (payload_frame (as_payload (sync_frame_bytes g))))
      (ucast (pl_length (as_payload (sync_frame_bytes g)))) tick False st =
      (Inl (- EINVAL), st\<lparr>ro_bad_size := ro_bad_size st + 1\<rparr>)"
proof -
  have "unat (ucast (pl_length (as_payload (sync_frame_bytes g))) :: u16) = 16"
    by (simp add: as_payload_def)
  then show ?thesis
    using rf_frame_is_no_sync_frame [OF assms]
    by (simp add: rx_reorder_process_packet_def RF_LINK_FRAME_WIRE_SIZE_def)
qed

definition demo_sync :: sync_min where
  "demo_sync = \<lparr>sn_tx_done = False, sn_radio_events = 0, sn_good_frames = 0, sn_bad_frames = 0, sn_tx_ok = 0,
     sn_tx_fail = 0, sn_last_epoch = 0, sn_last_sequence = 0, sn_pulse_events = 0, sn_out = []\<rparr>"

lemma sync_and_data_apart_witness:
  "sn_bad_frames (sync_payload (as_payload (rf_frame_bytes (sample_frame 3))) demo_sync) = 1"
proof -
  have "wf_frame (sample_frame 3)" "frame_magic (sample_frame 3) = RF_LINK_MAGIC"
    by (simp_all add: sample_frame_def wf_frame_def zero_frame_def)
  from sync_and_data_apart [OF this, of demo_sync "future_conf sum16 sum32"] show ?thesis
    by (simp add: demo_sync_def)
qed

definition demo_conf :: sync_conf where
  "demo_conf = \<lparr>SYNC_COORDINATOR = True, SYNC_CHANNEL = 40, SYNC_PULSE_DELAY_US = 2000, SYNC_PULSE_PIN = 41\<rparr>"

definition demo_passes :: "coordinator_input list" where
  "demo_passes = [\<lparr>ci_write = 0, ci_waiting = [Some (ESB_EVENT_TX_SUCCESS, [])], ci_sleeping = []\<rparr>,
     \<lparr>ci_write = - EBUSY, ci_waiting = [], ci_sleeping = []\<rparr>,
     \<lparr>ci_write = 0, ci_waiting = [], ci_sleeping = [Some (ESB_EVENT_TX_SUCCESS, [])]\<rparr>]"

lemma demo_run_sent:
  "fst (coordinator_run demo_conf 1 demo_passes (0, demo_sync)) =
     [sync_frame_bytes (coordinator_frame demo_conf 1 0), sync_frame_bytes (coordinator_frame demo_conf 1 2)]"
proof -
  obtain sent n' s' where r: "coordinator_run demo_conf 1 demo_passes (0, demo_sync) = (sent, n', s')"
    using prod_cases3 by blast
  have u: "[0..<3] = [0, 1, 2 :: nat]"
    by (simp add: upt_rec)
  have "sent = map (\<lambda>i. sync_frame_bytes (coordinator_frame demo_conf 1 (0 + of_nat i)))
      (filter (\<lambda>i. ci_write (demo_passes ! i) = 0) [0..<length demo_passes])"
    using coordinator_run_sent [OF r] by blast
  also have "length demo_passes = 3"
    by (simp add: demo_passes_def)
  finally have "sent = [sync_frame_bytes (coordinator_frame demo_conf 1 0),
      sync_frame_bytes (coordinator_frame demo_conf 1 2)]"
    by (simp add: u demo_passes_def)
  then show ?thesis
    unfolding r by simp
qed

lemma sync_responder_follows_witness:
  "\<exists>i<length demo_passes. sn_last_sequence (sync_radio_event (Some (ESB_EVENT_RX_RECEIVED,
     map as_payload (fst (coordinator_run demo_conf 1 demo_passes (0, demo_sync))))) demo_sync) = of_nat i"
proof -
  obtain sent n' s' where r: "coordinator_run demo_conf 1 demo_passes (0, demo_sync) = (sent, n', s')"
    using prod_cases3 by blast
  have "sent \<noteq> []"
    using demo_run_sent by (simp add: r)
  from sync_responder_follows [OF r subset_refl this refl, of demo_sync] show ?thesis
    by (auto simp: r)
qed

end
