(* ===== verification/If_Kernel.thy ===== *)
theory If_Kernel
  imports Kernel
begin

text \<open>
  What the interface MCU's firmware uses of the Zephyr kernel beyond message queues:
  memory slabs (\<open>k_mem_slab_alloc\<close> with \<open>K_NO_WAIT\<close>, \<open>k_mem_slab_free\<close>) and ring buffers
  (\<open>ring_buf_put\<close>, \<open>ring_buf_get\<close>, \<open>ring_buf_get_claim\<close>, \<open>ring_buf_get_finish\<close>). Neither is part of
  the repository: they are records of operations the components take as arguments,
  and \<open>slab_spec\<close> and \<open>ring_spec\<close> state their documented behaviour. \<open>list_slab\<close> and
  \<open>list_ring\<close> are concrete instances. Memory that several modules share is a function
  from addresses to bytes.
\<close>

section \<open>Memory slabs\<close>

record 's slab_ops =
  slab_alloc :: "'s \<Rightarrow> (int + u32) \<times> 's"
  slab_free :: "u32 \<Rightarrow> 's \<Rightarrow> 's"

text \<open>
  \<open>free s\<close> are the addresses of the free blocks: an allocation takes one of them and
  fails when there is none, freeing a block that is not free makes it free. What
  freeing a free block does is not specified.
\<close>

definition slab_spec :: "'s slab_ops \<Rightarrow> ('s \<Rightarrow> u32 set) \<Rightarrow> u32 set \<Rightarrow> bool" where
  "slab_spec sl free blocks \<longleftrightarrow>
     (\<forall>s. free s \<subseteq> blocks) \<and>
     (\<forall>s. case slab_alloc sl s of
            (Inl e, s') \<Rightarrow> e \<noteq> 0 \<and> free s = {} \<and> free s' = {}
          | (Inr b, s') \<Rightarrow> b \<in> free s \<and> free s' = free s - {b}) \<and>
     (\<forall>s. \<forall>b\<in>blocks - free s. free (slab_free sl b s) = insert b (free s))"

definition list_slab :: "u32 set \<Rightarrow> u32 list slab_ops" where
  "list_slab blocks = \<lparr>
     slab_alloc = (\<lambda>s. case filter (\<lambda>b. b \<in> blocks) s of [] \<Rightarrow> (Inl (- ENOMEM), [])
                       | b # bs \<Rightarrow> (Inr b, filter (\<lambda>c. c \<noteq> b) bs)),
     slab_free = (\<lambda>b s. b # s)\<rparr>"

lemma list_slab_spec: "slab_spec (list_slab blocks) (\<lambda>s. set s \<inter> blocks) blocks"
proof -
  have "case slab_alloc (list_slab blocks) s of
          (Inl e, s') \<Rightarrow> e \<noteq> 0 \<and> set s \<inter> blocks = {} \<and> set s' \<inter> blocks = {}
        | (Inr b, s') \<Rightarrow> b \<in> set s \<inter> blocks \<and> set s' \<inter> blocks = set s \<inter> blocks - {b}" for s
  proof (cases "filter (\<lambda>b. b \<in> blocks) s")
    case Nil
    then show ?thesis by (auto simp: list_slab_def filter_empty_conv)
  next
    case (Cons b bs)
    then have "set (b # bs) = set s \<inter> blocks"
      by (metis set_filter Int_def inf_commute Collect_mem_eq Int_Collect)
    then show ?thesis by (auto simp: list_slab_def Cons)
  qed
  then show ?thesis
    by (auto simp: slab_spec_def list_slab_def)
qed

lemma slab_alloc_ok:
  assumes "slab_spec sl free blocks" "slab_alloc sl s = (Inr b, s')"
  shows "b \<in> free s" "free s' = free s - {b}" "b \<in> blocks"
proof -
  show "b \<in> free s" "free s' = free s - {b}"
    using assms unfolding slab_spec_def by (auto dest: spec [of _ s] split: prod.splits sum.splits)
  with assms(1) show "b \<in> blocks"
    unfolding slab_spec_def by blast
qed

lemma slab_alloc_fail:
  assumes "slab_spec sl free blocks" "slab_alloc sl s = (Inl e, s')"
  shows "free s = {}" "free s' = {}"
  using assms unfolding slab_spec_def by (auto dest: spec [of _ s] split: prod.splits sum.splits)

lemma slab_free_ok:
  "slab_spec sl free blocks \<Longrightarrow> b \<in> blocks \<Longrightarrow> b \<notin> free s \<Longrightarrow>
    free (slab_free sl b s) = insert b (free s)"
  unfolding slab_spec_def by blast

lemma slab_free_blocks: "slab_spec sl free blocks \<Longrightarrow> free s \<subseteq> blocks"
  unfolding slab_spec_def by blast

section \<open>Ring buffers\<close>

record 'r ring_ops =
  ring_init :: "'r \<Rightarrow> 'r"
  ring_put :: "u8 list \<Rightarrow> 'r \<Rightarrow> nat \<times> 'r"
  ring_claim :: "nat \<Rightarrow> 'r \<Rightarrow> u8 list \<times> 'r"
  ring_finish :: "nat \<Rightarrow> 'r \<Rightarrow> int \<times> 'r"
  ring_used :: "'r \<Rightarrow> nat"

text \<open>
  \<open>contents r\<close> are the bytes held, \<open>claimed r\<close> how many of them have been claimed and not
  finished. A put takes as many bytes as there is room for; a claim yields some, but
  not none, of the bytes after the claimed ones (the buffer may wrap); a finish gives
  back what was claimed beyond \<open>n\<close> and frees the first \<open>n\<close> bytes.
\<close>

definition ring_spec :: "'r ring_ops \<Rightarrow> ('r \<Rightarrow> u8 list) \<Rightarrow> ('r \<Rightarrow> nat) \<Rightarrow> nat \<Rightarrow> bool" where
  "ring_spec rb contents claimed cap \<longleftrightarrow>
     (\<forall>r. contents (ring_init rb r) = [] \<and> claimed (ring_init rb r) = 0) \<and>
     (\<forall>r. length (contents r) \<le> cap \<and> claimed r \<le> length (contents r)) \<and>
     (\<forall>d r. let n = min (length d) (cap - length (contents r))
            in fst (ring_put rb d r) = n \<and> contents (snd (ring_put rb d r)) = contents r @ take n d \<and>
               claimed (snd (ring_put rb d r)) = claimed r) \<and>
     (\<forall>k r. let bs = fst (ring_claim rb k r); r' = snd (ring_claim rb k r)
            in bs = take (length bs) (drop (claimed r) (contents r)) \<and> length bs \<le> k \<and>
               (bs = [] \<longrightarrow> k = 0 \<or> claimed r = length (contents r)) \<and>
               contents r' = contents r \<and> claimed r' = claimed r + length bs) \<and>
     (\<forall>n r. if n \<le> claimed r
            then fst (ring_finish rb n r) = 0 \<and> contents (snd (ring_finish rb n r)) = drop n (contents r) \<and>
                 claimed (snd (ring_finish rb n r)) = 0
            else fst (ring_finish rb n r) = - EINVAL \<and> snd (ring_finish rb n r) = r) \<and>
     (\<forall>r. ring_used rb r = length (contents r))"

lemma ring_init_ok:
  "ring_spec rb contents claimed cap \<Longrightarrow> contents (ring_init rb r) = []"
  "ring_spec rb contents claimed cap \<Longrightarrow> claimed (ring_init rb r) = 0"
  by (simp_all add: ring_spec_def)

lemma ring_bounds:
  "ring_spec rb contents claimed cap \<Longrightarrow> length (contents r) \<le> cap"
  "ring_spec rb contents claimed cap \<Longrightarrow> claimed r \<le> length (contents r)"
  by (simp_all add: ring_spec_def)

lemma ring_put_ok:
  assumes "ring_spec rb contents claimed cap" "ring_put rb d r = (n, r')"
  shows "n = min (length d) (cap - length (contents r))" "contents r' = contents r @ take n d"
    "claimed r' = claimed r"
proof -
  have "let n = min (length d) (cap - length (contents r))
        in fst (ring_put rb d r) = n \<and> contents (snd (ring_put rb d r)) = contents r @ take n d \<and>
           claimed (snd (ring_put rb d r)) = claimed r"
    using assms(1) unfolding ring_spec_def by blast
  then show "n = min (length d) (cap - length (contents r))" "contents r' = contents r @ take n d"
    "claimed r' = claimed r"
    using assms(2) by (simp_all add: Let_def)
qed

lemma ring_claim_ok:
  assumes "ring_spec rb contents claimed cap" "ring_claim rb k r = (bs, r')"
  shows "bs = take (length bs) (drop (claimed r) (contents r))" "length bs \<le> k"
    "bs = [] \<Longrightarrow> k = 0 \<or> claimed r = length (contents r)"
    "contents r' = contents r" "claimed r' = claimed r + length bs"
proof -
  have *: "let bs = fst (ring_claim rb k r); r' = snd (ring_claim rb k r)
            in bs = take (length bs) (drop (claimed r) (contents r)) \<and> length bs \<le> k \<and>
               (bs = [] \<longrightarrow> k = 0 \<or> claimed r = length (contents r)) \<and>
               contents r' = contents r \<and> claimed r' = claimed r + length bs"
    using assms(1) unfolding ring_spec_def by blast
  show "bs = take (length bs) (drop (claimed r) (contents r))"
    using * assms(2) unfolding Let_def by (metis fst_conv)
  show "length bs \<le> k" "bs = [] \<Longrightarrow> k = 0 \<or> claimed r = length (contents r)"
    "contents r' = contents r" "claimed r' = claimed r + length bs"
    using * assms(2) by (simp_all add: Let_def)
qed

lemma ring_finish_ok:
  assumes "ring_spec rb contents claimed cap" "ring_finish rb n r = (ret, r')" "n \<le> claimed r"
  shows "ret = 0" "contents r' = drop n (contents r)" "claimed r' = 0"
proof -
  have "if n \<le> claimed r
        then fst (ring_finish rb n r) = 0 \<and> contents (snd (ring_finish rb n r)) = drop n (contents r) \<and>
             claimed (snd (ring_finish rb n r)) = 0
        else fst (ring_finish rb n r) = - EINVAL \<and> snd (ring_finish rb n r) = r"
    using assms(1) unfolding ring_spec_def by blast
  then show "ret = 0" "contents r' = drop n (contents r)" "claimed r' = 0"
    using assms(2,3) by simp_all
qed

lemma ring_used_ok: "ring_spec rb contents claimed cap \<Longrightarrow> ring_used rb r = length (contents r)"
  by (simp add: ring_spec_def)

text \<open>A list with a count of claimed bytes, cut to a length the buffer can have.\<close>

definition ring_data :: "nat \<Rightarrow> u8 list \<times> nat \<Rightarrow> u8 list" where
  "ring_data cap r = take cap (fst r)"

definition ring_taken :: "nat \<Rightarrow> u8 list \<times> nat \<Rightarrow> nat" where
  "ring_taken cap r = min (snd r) (length (ring_data cap r))"

definition list_ring :: "nat \<Rightarrow> (u8 list \<times> nat) ring_ops" where
  "list_ring cap = \<lparr>
     ring_init = (\<lambda>_. ([], 0)),
     ring_put = (\<lambda>d r. let n = min (length d) (cap - length (ring_data cap r))
                       in (n, (ring_data cap r @ take n d, ring_taken cap r))),
     ring_claim = (\<lambda>k r. let bs = take k (drop (ring_taken cap r) (ring_data cap r))
                         in (bs, (ring_data cap r, ring_taken cap r + length bs))),
     ring_finish = (\<lambda>n r. if n \<le> ring_taken cap r then (0, (drop n (ring_data cap r), 0)) else (- EINVAL, r)),
     ring_used = (\<lambda>r. length (ring_data cap r))\<rparr>"

lemma list_ring_spec: "ring_spec (list_ring cap) (ring_data cap) (ring_taken cap) cap"
  unfolding ring_spec_def list_ring_def
  by (auto simp: ring_data_def ring_taken_def Let_def min_def)

section \<open>Memory\<close>

type_synonym memory = "u32 \<Rightarrow> u8"

fun mem_read :: "memory \<Rightarrow> u32 \<Rightarrow> nat \<Rightarrow> u8 list" where
  "mem_read mem a 0 = []"
| "mem_read mem a (Suc n) = mem a # mem_read mem (a + 1) n"

fun mem_write :: "u32 \<Rightarrow> u8 list \<Rightarrow> memory \<Rightarrow> memory" where
  "mem_write a [] mem = mem"
| "mem_write a (b # bs) mem = (mem_write (a + 1) bs mem)(a := b)"

lemma length_mem_read [simp]: "length (mem_read mem a n) = n"
  by (induction n arbitrary: a) simp_all

text \<open>The \<open>n\<close> addresses from \<open>a\<close> on.\<close>

definition mem_range :: "u32 \<Rightarrow> nat \<Rightarrow> u32 set" where
  "mem_range a n = (\<lambda>i. a + of_nat i) ` {..<n}"

lemma mem_range_Suc: "mem_range a (Suc n) = insert a (mem_range (a + 1) n)"
  by (force simp: mem_range_def lessThan_Suc_eq_insert_0 image_image ac_simps)

lemma mem_write_other: "x \<notin> mem_range a (length bs) \<Longrightarrow> mem_write a bs mem x = mem x"
  by (induction bs arbitrary: a) (auto simp: mem_range_Suc)

lemma mem_read_cong:
  "(\<And>x. x \<in> mem_range a n \<Longrightarrow> mem x = mem' x) \<Longrightarrow> mem_read mem a n = mem_read mem' a n"
  by (induction n arbitrary: a) (auto simp: mem_range_Suc)

lemma mem_read_other:
  "mem_range a n \<inter> mem_range b (length bs) = {} \<Longrightarrow> mem_read (mem_write b bs mem) a n = mem_read mem a n"
  by (rule mem_read_cong, rule mem_write_other) auto

lemma mem_range_start: "0 < n \<Longrightarrow> a \<in> mem_range a n"
  by (cases n) (simp_all add: mem_range_Suc)

lemma not_in_next_range: "n < 2 ^ 32 \<Longrightarrow> a \<notin> mem_range (a + 1) n"
proof
  assume "n < 2 ^ 32" "a \<in> mem_range (a + 1) n"
  then obtain i where "i < n" "a = a + 1 + of_nat i"
    by (auto simp: mem_range_def)
  then have "(of_nat (Suc i) :: u32) = 0"
    by simp
  then have "unat (of_nat (Suc i) :: u32) = 0"
    by (simp only: unat_0)
  moreover have "Suc i < 2 ^ LENGTH(32)"
    using \<open>i < n\<close> \<open>n < 2 ^ 32\<close> by simp
  ultimately show False
    by (simp only: of_nat_unat_small)
qed

lemma mem_read_write:
  "length bs \<le> 2 ^ 32 \<Longrightarrow> mem_read (mem_write a bs mem) a (length bs) = bs"
proof (induction bs arbitrary: a)
  case (Cons b bs)
  then have "a \<notin> mem_range (a + 1) (length bs)"
    by (intro not_in_next_range) simp
  then have "mem_read ((mem_write (a + 1) bs mem)(a := b)) (a + 1) (length bs) =
      mem_read (mem_write (a + 1) bs mem) (a + 1) (length bs)"
    by (intro mem_read_cong) auto
  with Cons show ?case by (simp add: fun_upd_def)
qed simp

end
