(* ===== verification/If_Events.thy ===== *)
theory If_Events
  imports If_Kernel
begin

text \<open>
  The application events of \<open>ifmcu_firmware/src/events\<close>: the modules of the interface
  MCU talk to each other by submitting them to the event manager, which hands each
  one to the listeners subscribed to it. A module's name stands for the address of
  its \<open>__module_\<close> string. The header of an event belongs to the manager.
\<close>

datatype module_id =
  Module_Main | Module_Led_State | Module_Uart_Handler | Module_Usb_Cdc | Module_Bulk_Interface |
  Module_Settings | Module_Power_Handler

datatype module_state = MODULE_STATE_READY | MODULE_STATE_OFF | MODULE_STATE_STANDBY | MODULE_STATE_ERROR | MODULE_STATE_COUNT

record module_state_event =
  ms_module_id :: module_id
  ms_state :: module_state

datatype peer_id = PEER_ID_USB | PEER_ID_BLE | PEER_ID_COUNT

datatype peer_conn_state = PEER_STATE_CONNECTED | PEER_STATE_DISCONNECTED

record peer_conn_event =
  pc_peer_id :: peer_id
  pc_dev_idx :: u8
  pc_conn_state :: peer_conn_state
  pc_baudrate :: u32
  pc_conn_state_changed :: bool

record cdc_data_event =
  cde_dev_idx :: u8
  cde_buf :: u32
  cde_len :: u32

record uart_data_event =
  ude_dev_idx :: u8
  ude_buf :: u32
  ude_len :: u32

record power_down_event =
  pde_error :: bool

datatype app_event =
  Module_State module_state_event
| Peer_Conn peer_conn_event
| Cdc_Data cdc_data_event
| Uart_Data uart_data_event
| Power_Down power_down_event

text \<open>What a shell command prints.\<close>

datatype shell_line = Sh_Print string | Sh_Error string

text \<open>\<open>module_set_state\<close> of the module that includes the header; the event it submits.\<close>

definition module_set_state :: "module_id \<Rightarrow> module_state \<Rightarrow> app_event" where
  [op_defs]: "module_set_state m st = Module_State \<lparr>ms_module_id = m, ms_state = st\<rparr>"

definition check_state :: "module_state_event \<Rightarrow> module_id \<Rightarrow> module_state \<Rightarrow> bool" where
  [op_defs]: "check_state e m st \<longleftrightarrow> ms_module_id e = m \<and> ms_state e = st"

definition main_ready :: "module_state_event \<Rightarrow> bool" where
  "main_ready e \<longleftrightarrow> check_state e Module_Main MODULE_STATE_READY"

end
