(* ===== verification/If_Led.thy ===== *)
theory If_Led
  imports If_Events
begin

text \<open>
  \<open>ifmcu_firmware/src/modules/led_state.c\<close>: three LEDs driven by a 50 ms timer. A module
  asks for a state with one of the setters; the timer's expiry function advances each
  active LED and sets its brightness. The state is the file's static variables and
  those of the expiry function; a tick yields the brightness values it set.
\<close>

datatype led_state =
  LED_STATE_OFF | LED_STATE_ON | LED_STATE_BLINK | LED_STATE_BLINK_PERMANENT | LED_STATE_BREATH | LED_STATE_COUNT

definition LED_ID_CUSTOM_STATE :: nat where "LED_ID_CUSTOM_STATE = 1"
definition LED_ID_UART_STATE :: nat where "LED_ID_UART_STATE = 0"
definition LED_ID_DAP_STATE :: nat where "LED_ID_DAP_STATE = 2"
definition LED_MAX_BRIGHTNESS :: u8 where [wire_const]: "LED_MAX_BRIGHTNESS = 80"
definition LED_BREATH_STEP :: u8 where [wire_const]: "LED_BREATH_STEP = 2"

record leds =
  custom_led_activity :: bool
  custom_led_state :: led_state
  custom_led_level :: u8
  custom_led_dir :: u8
  uart_led_activity :: bool
  uart_led_state :: led_state
  uart_led_level :: u8
  dap_led_activity :: bool
  dap_led_state :: led_state
  dap_led_level :: u8

definition leds_reset :: leds where
  "leds_reset = \<lparr>custom_led_activity = False, custom_led_state = LED_STATE_OFF, custom_led_level = 0,
     custom_led_dir = 1, uart_led_activity = False, uart_led_state = LED_STATE_OFF, uart_led_level = 0,
     dap_led_activity = False, dap_led_state = LED_STATE_OFF, dap_led_level = 0\<rparr>"

definition set_custom_led_state :: "led_state \<Rightarrow> leds \<Rightarrow> leds" where
  [op_defs]: "set_custom_led_state st l = l\<lparr>custom_led_activity := True, custom_led_state := st\<rparr>"

definition set_dap_led_state :: "led_state \<Rightarrow> leds \<Rightarrow> leds" where
  [op_defs]: "set_dap_led_state st l = l\<lparr>dap_led_activity := True, dap_led_state := st\<rparr>"

definition set_uart_led_state :: "led_state \<Rightarrow> leds \<Rightarrow> leds" where
  [op_defs]: "set_uart_led_state st l = l\<lparr>uart_led_activity := True, uart_led_state := st\<rparr>"

text \<open>The step of a breathing LED: its new level and direction.\<close>

definition breath_step :: "u8 \<Rightarrow> u8 \<Rightarrow> u8 \<times> u8" where
  "breath_step level dir =
     (if dir \<noteq> 0 then
        (let up = level + LED_BREATH_STEP
         in if up > LED_MAX_BRIGHTNESS then (up - LED_BREATH_STEP, 0) else (up, dir))
      else if level > LED_BREATH_STEP then (level - LED_BREATH_STEP, dir)
      else (0, 1))"

definition toggle_level :: "u8 \<Rightarrow> u8" where
  "toggle_level level = (if level > 0 then 0 else LED_MAX_BRIGHTNESS)"

definition tick_custom :: "leds \<Rightarrow> leds \<times> (nat \<times> u8) list" where
  [op_defs]: "tick_custom l =
     (if \<not> custom_led_activity l then (l, [])
      else
        let l' =
          (if custom_led_state l = LED_STATE_ON then l\<lparr>custom_led_level := LED_MAX_BRIGHTNESS\<rparr>
           else if custom_led_state l = LED_STATE_BLINK \<or> custom_led_state l = LED_STATE_BLINK_PERMANENT then
             (let level = toggle_level (custom_led_level l)
              in if level = 0 \<and> custom_led_state l = LED_STATE_BLINK
                 then l\<lparr>custom_led_level := level, custom_led_activity := False, custom_led_state := LED_STATE_OFF\<rparr>
                 else l\<lparr>custom_led_level := level\<rparr>)
           else if custom_led_state l = LED_STATE_BREATH then
             (let (level, dir) = breath_step (custom_led_level l) (custom_led_dir l)
              in l\<lparr>custom_led_level := level, custom_led_dir := dir\<rparr>)
           else l\<lparr>custom_led_level := 0, custom_led_activity := False\<rparr>)
        in (l', [(LED_ID_CUSTOM_STATE, custom_led_level l')]))"

definition tick_uart :: "leds \<Rightarrow> leds \<times> (nat \<times> u8) list" where
  [op_defs]: "tick_uart l =
     (if \<not> uart_led_activity l then (l, [])
      else
        let l' =
          (if uart_led_state l = LED_STATE_ON then l\<lparr>uart_led_level := LED_MAX_BRIGHTNESS\<rparr>
           else if uart_led_state l = LED_STATE_BLINK \<or> uart_led_state l = LED_STATE_BLINK_PERMANENT then
             (let level = toggle_level (uart_led_level l)
              in if level = 0 \<and> uart_led_state l = LED_STATE_BLINK
                 then l\<lparr>uart_led_level := level, uart_led_activity := False, uart_led_state := LED_STATE_OFF\<rparr>
                 else l\<lparr>uart_led_level := level\<rparr>)
           else l\<lparr>uart_led_level := 0, uart_led_activity := False\<rparr>)
        in (l', [(LED_ID_UART_STATE, uart_led_level l')]))"

definition tick_dap :: "leds \<Rightarrow> leds \<times> (nat \<times> u8) list" where
  [op_defs]: "tick_dap l =
     (if \<not> dap_led_activity l then (l, [])
      else
        let l' =
          (if dap_led_state l = LED_STATE_BLINK \<or> dap_led_state l = LED_STATE_BLINK_PERMANENT then
             (let level = toggle_level (dap_led_level l)
              in if level = 0 \<and> dap_led_state l = LED_STATE_BLINK
                 then l\<lparr>dap_led_level := level, dap_led_activity := False, dap_led_state := LED_STATE_OFF\<rparr>
                 else l\<lparr>dap_led_level := level\<rparr>)
           else l\<lparr>dap_led_level := 0, dap_led_activity := False\<rparr>)
        in (l', [(LED_ID_DAP_STATE, dap_led_level l')]))"

definition led_state_timer_expiry_fn :: "leds \<Rightarrow> leds \<times> (nat \<times> u8) list" where
  [op_defs]: "led_state_timer_expiry_fn l =
     (let (l1, w1) = tick_custom l; (l2, w2) = tick_uart l1; (l3, w3) = tick_dap l2
      in (l3, w1 @ w2 @ w3))"

text \<open>
  The module's event handler: whether the event is consumed, the events submitted and
  whether the timer is started.
\<close>

definition led_event_handler :: "module_state_event \<Rightarrow> bool \<times> app_event list \<times> bool" where
  [op_defs]: "led_event_handler e =
     (if main_ready e
      then (False, [module_set_state Module_Led_State MODULE_STATE_READY,
                    module_set_state Module_Led_State MODULE_STATE_STANDBY], True)
      else (False, [], False))"

text \<open>The third LED has no branch for a steady light: asking for one switches it off.\<close>

lemma dap_led_on_is_off:
  "let (l', w) = tick_dap (set_dap_led_state LED_STATE_ON l)
   in w = [(LED_ID_DAP_STATE, 0)] \<and> dap_led_level l' = 0 \<and> \<not> dap_led_activity l'"
  by (simp add: tick_dap_def set_dap_led_state_def)

section \<open>Levels\<close>

text \<open>Every reachable level is even and at most 80, so no step can wrap the byte.\<close>

definition led_level_ok :: "u8 \<Rightarrow> bool" where
  "led_level_ok level \<longleftrightarrow> level \<le> LED_MAX_BRIGHTNESS \<and> even (unat level)"

definition leds_ok :: "leds \<Rightarrow> bool" where
  "leds_ok l \<longleftrightarrow> led_level_ok (custom_led_level l) \<and> led_level_ok (uart_led_level l) \<and>
     led_level_ok (dap_led_level l)"

lemma led_level_consts [simp]: "led_level_ok 0" "led_level_ok LED_MAX_BRIGHTNESS"
  by (simp_all add: led_level_ok_def wire_const)

lemma toggle_level_ok [simp]: "led_level_ok (toggle_level level)"
  by (simp add: toggle_level_def)

lemma led_level_unat: "led_level_ok level \<longleftrightarrow> unat level \<le> 80 \<and> even (unat level)"
  by (simp add: led_level_ok_def wire_const word_le_nat_alt)

lemma breath_step_unat:
  assumes "led_level_ok level"
  shows "unat (fst (breath_step level dir)) =
      (if dir \<noteq> 0 then (if unat level = 80 then 80 else unat level + 2) else unat level - 2)"
    and "snd (breath_step level dir) =
      (if dir \<noteq> 0 then (if unat level = 80 then 0 else dir) else if unat level \<le> 2 then 1 else dir)"
proof -
  have le: "unat level \<le> 80" and ev: "even (unat level)"
    using assms by (simp_all add: led_level_unat)
  have up: "unat (level + 2) = unat level + 2"
    using le by (subst unat_add_small) simp_all
  have "unat level \<noteq> 79"
    using ev by auto
  then have gt: "level + 2 > 80 \<longleftrightarrow> unat level = 80"
    using le by (auto simp: word_less_nat_alt up)
  have dn: "level > 2 \<longleftrightarrow> unat level > 2"
    by (simp add: word_less_nat_alt)
  have sub: "unat (level - 2) = unat level - 2" if "unat level > 2"
    using that by (subst unat_sub_le) simp_all
  show "unat (fst (breath_step level dir)) =
      (if dir \<noteq> 0 then (if unat level = 80 then 80 else unat level + 2) else unat level - 2)"
    "snd (breath_step level dir) =
      (if dir \<noteq> 0 then (if unat level = 80 then 0 else dir) else if unat level \<le> 2 then 1 else dir)"
    using gt dn sub by (auto simp: breath_step_def wire_const up Let_def)
qed

lemma breath_step_ok:
  assumes "led_level_ok level"
  shows "led_level_ok (fst (breath_step level dir))"
  using assms unfolding led_level_unat breath_step_unat(1) [OF assms] by auto

lemma tick_custom_ok: "leds_ok l \<Longrightarrow> leds_ok (fst (tick_custom l))"
  using breath_step_ok [of "custom_led_level l" "custom_led_dir l"]
  by (auto simp: tick_custom_def leds_ok_def Let_def split: prod.splits)

lemma tick_uart_ok: "leds_ok l \<Longrightarrow> leds_ok (fst (tick_uart l))"
  by (auto simp: tick_uart_def leds_ok_def Let_def)

lemma tick_dap_ok: "leds_ok l \<Longrightarrow> leds_ok (fst (tick_dap l))"
  by (auto simp: tick_dap_def leds_ok_def Let_def)

lemma tick_writes:
  "(i, b) \<in> set (snd (tick_custom l)) \<Longrightarrow> i = LED_ID_CUSTOM_STATE \<and> b = custom_led_level (fst (tick_custom l))"
  "(i, b) \<in> set (snd (tick_uart l)) \<Longrightarrow> i = LED_ID_UART_STATE \<and> b = uart_led_level (fst (tick_uart l))"
  "(i, b) \<in> set (snd (tick_dap l)) \<Longrightarrow> i = LED_ID_DAP_STATE \<and> b = dap_led_level (fst (tick_dap l))"
  by (auto simp: tick_custom_def tick_uart_def tick_dap_def Let_def split: if_splits)

definition led_write_ok :: "nat \<times> u8 \<Rightarrow> bool" where
  "led_write_ok w \<longleftrightarrow> fst w \<in> {0, 1, 2} \<and> led_level_ok (snd w)"

lemma expiry_ok:
  assumes "leds_ok l"
  shows "leds_ok (fst (led_state_timer_expiry_fn l))"
    and "w \<in> set (snd (led_state_timer_expiry_fn l)) \<Longrightarrow> led_write_ok w"
proof -
  obtain l1 w1 where 1: "tick_custom l = (l1, w1)" by (cases "tick_custom l")
  obtain l2 w2 where 2: "tick_uart l1 = (l2, w2)" by (cases "tick_uart l1")
  obtain l3 w3 where 3: "tick_dap l2 = (l3, w3)" by (cases "tick_dap l2")
  have ok: "leds_ok l1" "leds_ok l2" "leds_ok l3"
    using tick_custom_ok [OF assms] tick_uart_ok [of l1] tick_dap_ok [of l2] by (simp_all add: 1 2 3)
  then show "leds_ok (fst (led_state_timer_expiry_fn l))"
    by (simp add: led_state_timer_expiry_fn_def 1 2 3)
  show "led_write_ok w" if "w \<in> set (snd (led_state_timer_expiry_fn l))"
    using that tick_writes(1) [of "fst w" "snd w" l] tick_writes(2) [of "fst w" "snd w" l1]
      tick_writes(3) [of "fst w" "snd w" l2] ok
    by (auto simp: led_state_timer_expiry_fn_def 1 2 3 led_write_ok_def leds_ok_def
        LED_ID_CUSTOM_STATE_def LED_ID_UART_STATE_def LED_ID_DAP_STATE_def)
qed

text \<open>A history of the module: requests of the other modules and timer ticks.\<close>

datatype led_op = Set_Custom led_state | Set_Dap led_state | Set_Uart led_state | Led_Tick

fun led_exec :: "led_op \<Rightarrow> leds \<Rightarrow> leds \<times> (nat \<times> u8) list" where
  "led_exec (Set_Custom st) l = (set_custom_led_state st l, [])"
| "led_exec (Set_Dap st) l = (set_dap_led_state st l, [])"
| "led_exec (Set_Uart st) l = (set_uart_led_state st l, [])"
| "led_exec Led_Tick l = led_state_timer_expiry_fn l"

fun led_run :: "led_op list \<Rightarrow> leds \<Rightarrow> leds \<times> (nat \<times> u8) list" where
  "led_run [] l = (l, [])"
| "led_run (c # cs) l = (let (l1, w1) = led_exec c l; (l2, w2) = led_run cs l1 in (l2, w1 @ w2))"

lemma led_exec_ok:
  "leds_ok l \<Longrightarrow> leds_ok (fst (led_exec c l)) \<and> (\<forall>w\<in>set (snd (led_exec c l)). led_write_ok w)"
  by (cases c) (simp_all add: expiry_ok, simp_all add: op_defs leds_ok_def)

section \<open>Properties\<close>

text \<open>
  Whatever the modules ask for and whenever the timer fires, every brightness the
  LED driver is given is an even level of at most 80 for one of the three channels,
  and the levels kept stay in that range: the byte arithmetic of the breathing steps
  never wraps.
\<close>

theorem led_brightness_bounded:
  "leds_ok (fst (led_run cs leds_reset)) \<and> (\<forall>w\<in>set (snd (led_run cs leds_reset)). led_write_ok w)"
proof -
  have "leds_ok (fst (led_run cs l)) \<and> (\<forall>w\<in>set (snd (led_run cs l)). led_write_ok w)"
    if "leds_ok l" for l
    using that
  proof (induction cs arbitrary: l)
    case (Cons c cs)
    then show ?case
      using led_exec_ok [OF Cons.prems, of c] Cons.IH [of "fst (led_exec c l)"]
      by (auto simp: case_prod_unfold Let_def)
  qed simp
  moreover have "leds_ok leds_reset"
    by (simp add: leds_ok_def leds_reset_def)
  ultimately show ?thesis by blast
qed

definition led_ticks :: "nat \<Rightarrow> leds \<Rightarrow> leds" where
  "led_ticks n l = ((\<lambda>l. fst (led_state_timer_expiry_fn l)) ^^ n) l"

lemma expiry_fst: "fst (led_state_timer_expiry_fn l) = fst (tick_dap (fst (tick_uart (fst (tick_custom l)))))"
  by (simp add: led_state_timer_expiry_fn_def case_prod_unfold Let_def)

lemma tick_custom_frame [simp]:
  "uart_led_activity (fst (tick_custom l)) = uart_led_activity l"
  "uart_led_state (fst (tick_custom l)) = uart_led_state l"
  "uart_led_level (fst (tick_custom l)) = uart_led_level l"
  "dap_led_activity (fst (tick_custom l)) = dap_led_activity l"
  "dap_led_state (fst (tick_custom l)) = dap_led_state l"
  "dap_led_level (fst (tick_custom l)) = dap_led_level l"
  by (simp_all add: tick_custom_def case_prod_unfold Let_def)

lemma tick_uart_frame [simp]:
  "dap_led_activity (fst (tick_uart l)) = dap_led_activity l"
  "dap_led_state (fst (tick_uart l)) = dap_led_state l"
  "dap_led_level (fst (tick_uart l)) = dap_led_level l"
  "custom_led_activity (fst (tick_uart l)) = custom_led_activity l"
  "custom_led_state (fst (tick_uart l)) = custom_led_state l"
  "custom_led_level (fst (tick_uart l)) = custom_led_level l"
  "custom_led_dir (fst (tick_uart l)) = custom_led_dir l"
  by (simp_all add: tick_uart_def Let_def)

lemma tick_dap_frame [simp]:
  "uart_led_activity (fst (tick_dap l)) = uart_led_activity l"
  "uart_led_state (fst (tick_dap l)) = uart_led_state l"
  "uart_led_level (fst (tick_dap l)) = uart_led_level l"
  "custom_led_activity (fst (tick_dap l)) = custom_led_activity l"
  "custom_led_state (fst (tick_dap l)) = custom_led_state l"
  "custom_led_level (fst (tick_dap l)) = custom_led_level l"
  "custom_led_dir (fst (tick_dap l)) = custom_led_dir l"
  by (simp_all add: tick_dap_def Let_def)

text \<open>A tick of a blinking LED, in terms of its own fields.\<close>

lemma tick_uart_blink:
  "uart_led_activity l \<Longrightarrow> uart_led_state l = LED_STATE_BLINK \<Longrightarrow>
    uart_led_level (fst (tick_uart l)) = toggle_level (uart_led_level l) \<and>
    uart_led_activity (fst (tick_uart l)) = (toggle_level (uart_led_level l) \<noteq> 0) \<and>
    uart_led_state (fst (tick_uart l)) =
      (if toggle_level (uart_led_level l) = 0 then LED_STATE_OFF else LED_STATE_BLINK)"
  by (simp add: tick_uart_def Let_def)

lemma tick_uart_idle: "\<not> uart_led_activity l \<Longrightarrow> fst (tick_uart l) = l"
  by (simp add: tick_uart_def)

lemma tick_dap_blink:
  "dap_led_activity l \<Longrightarrow> dap_led_state l = LED_STATE_BLINK \<Longrightarrow>
    dap_led_level (fst (tick_dap l)) = toggle_level (dap_led_level l) \<and>
    dap_led_activity (fst (tick_dap l)) = (toggle_level (dap_led_level l) \<noteq> 0) \<and>
    dap_led_state (fst (tick_dap l)) =
      (if toggle_level (dap_led_level l) = 0 then LED_STATE_OFF else LED_STATE_BLINK)"
  by (simp add: tick_dap_def Let_def)

lemma tick_dap_idle: "\<not> dap_led_activity l \<Longrightarrow> fst (tick_dap l) = l"
  by (simp add: tick_dap_def)

lemma toggle_level_simps [simp]:
  "toggle_level 0 = 80" "level \<noteq> 0 \<Longrightarrow> toggle_level level = 0" "toggle_level LED_MAX_BRIGHTNESS = 0"
  by (simp_all add: toggle_level_def wire_const word_gt_0)

lemma led_ticks_1: "led_ticks (Suc 0) l = fst (led_state_timer_expiry_fn l)"
  by (simp add: led_ticks_def)

lemma led_ticks_2: "led_ticks 2 l = fst (led_state_timer_expiry_fn (led_ticks (Suc 0) l))"
  by (simp add: led_ticks_def numeral_2_eq_2)

lemma uart_blink_ends:
  "let l1 = led_ticks 1 (set_uart_led_state LED_STATE_BLINK l);
       l2 = led_ticks 2 (set_uart_led_state LED_STATE_BLINK l)
   in uart_led_level l1 = (if uart_led_level l = 0 then 80 else 0) \<and>
      \<not> uart_led_activity l2 \<and> uart_led_state l2 = LED_STATE_OFF \<and> uart_led_level l2 = 0"
proof -
  let ?l0 = "set_uart_led_state LED_STATE_BLINK l"
  have 0: "uart_led_activity ?l0" "uart_led_state ?l0 = LED_STATE_BLINK"
    "uart_led_level ?l0 = uart_led_level l"
    by (simp_all add: set_uart_led_state_def)
  show ?thesis
    using 0 tick_uart_blink [of "fst (tick_custom ?l0)"]
      tick_uart_blink [of "fst (tick_custom (fst (led_state_timer_expiry_fn ?l0)))"]
      tick_uart_idle [of "fst (tick_custom (fst (led_state_timer_expiry_fn ?l0)))"]
    by (cases "uart_led_level l = 0")
      (simp_all add: led_ticks_1 led_ticks_2 expiry_fst Let_def)
qed

lemma dap_blink_ends:
  "let l1 = led_ticks 1 (set_dap_led_state LED_STATE_BLINK l);
       l2 = led_ticks 2 (set_dap_led_state LED_STATE_BLINK l)
   in dap_led_level l1 = (if dap_led_level l = 0 then 80 else 0) \<and>
      \<not> dap_led_activity l2 \<and> dap_led_state l2 = LED_STATE_OFF \<and> dap_led_level l2 = 0"
proof -
  let ?l0 = "set_dap_led_state LED_STATE_BLINK l"
  let ?l1 = "fst (led_state_timer_expiry_fn ?l0)"
  have 0: "dap_led_activity ?l0" "dap_led_state ?l0 = LED_STATE_BLINK"
    "dap_led_level ?l0 = dap_led_level l"
    by (simp_all add: set_dap_led_state_def)
  show ?thesis
    using 0 tick_dap_blink [of "fst (tick_uart (fst (tick_custom ?l0)))"]
      tick_dap_blink [of "fst (tick_uart (fst (tick_custom ?l1)))"]
      tick_dap_idle [of "fst (tick_uart (fst (tick_custom ?l1)))"]
    by (cases "dap_led_level l = 0")
      (simp_all add: led_ticks_1 led_ticks_2 expiry_fst Let_def)
qed

text \<open>
  A blink request for the UART LED, whatever the state, ends with the LED dark,
  inactive and in the OFF state after two ticks, having been lit by the first one
  unless it was lit already; the same holds for the DAP LED.
\<close>

theorem led_blink_ends:
  "(let l1 = led_ticks 1 (set_uart_led_state LED_STATE_BLINK l);
        l2 = led_ticks 2 (set_uart_led_state LED_STATE_BLINK l)
    in uart_led_level l1 = (if uart_led_level l = 0 then 80 else 0) \<and>
       \<not> uart_led_activity l2 \<and> uart_led_state l2 = LED_STATE_OFF \<and> uart_led_level l2 = 0) \<and>
   (let l1 = led_ticks 1 (set_dap_led_state LED_STATE_BLINK l);
        l2 = led_ticks 2 (set_dap_led_state LED_STATE_BLINK l)
    in dap_led_level l1 = (if dap_led_level l = 0 then 80 else 0) \<and>
       \<not> dap_led_activity l2 \<and> dap_led_state l2 = LED_STATE_OFF \<and> dap_led_level l2 = 0)"
  by (rule conjI [OF uart_blink_ends dap_blink_ends])

text \<open>
  The breathing LED: from dark, the level after \<open>n\<close> ticks is the triangle wave of
  period 81 with steps of 2 and its peak of 80 held for two ticks, and the LED stays
  active until a module asks for another state.
\<close>

definition breath_wave :: "nat \<Rightarrow> nat" where
  "breath_wave k = (if k \<le> 40 then 2 * k else 2 * (81 - k))"

definition breathing :: "nat \<Rightarrow> leds \<Rightarrow> bool" where
  "breathing k l \<longleftrightarrow> custom_led_activity l \<and> custom_led_state l = LED_STATE_BREATH \<and>
     unat (custom_led_level l) = breath_wave k \<and> custom_led_dir l = (if k \<le> 40 then 1 else 0)"

lemma breathing_tick:
  assumes "breathing k l" "k < 81"
  shows "breathing (if k = 80 then 0 else Suc k) (fst (led_state_timer_expiry_fn l))"
proof -
  have "even (breath_wave k)" "breath_wave k \<le> 80"
    by (auto simp: breath_wave_def)
  with assms(1) have ok: "led_level_ok (custom_led_level l)"
    unfolding led_level_unat breathing_def by simp
  obtain level dir where bs: "breath_step (custom_led_level l) (custom_led_dir l) = (level, dir)"
    by (cases "breath_step (custom_led_level l) (custom_led_dir l)")
  note step = breath_step_unat [OF ok, of "custom_led_dir l", unfolded bs fst_conv snd_conv]
  have "fst (tick_custom l) = l\<lparr>custom_led_level := level, custom_led_dir := dir\<rparr>"
    using assms(1) unfolding tick_custom_def bs by (simp add: breathing_def)
  then show ?thesis
    using assms step
    by (cases "k \<le> 40") (auto simp: breathing_def expiry_fst breath_wave_def)
qed

theorem led_breath_wave:
  assumes "breathing 0 l"
  shows "breathing (n mod 81) (led_ticks n l)"
proof (induction n)
  case 0
  then show ?case using assms by (simp add: led_ticks_def)
next
  case (Suc n)
  have "led_ticks (Suc n) l = fst (led_state_timer_expiry_fn (led_ticks n l))"
    by (simp add: led_ticks_def)
  moreover have "Suc n mod 81 = (if n mod 81 = 80 then 0 else Suc (n mod 81))"
    by (simp add: mod_Suc)
  ultimately show ?case
    using breathing_tick [OF Suc] by simp
qed

lemma led_breath_wave_witness:
  "breathing (100 mod 81) (led_ticks 100 (set_custom_led_state LED_STATE_BREATH leds_reset))"
  by (rule led_breath_wave) (simp add: breathing_def set_custom_led_state_def leds_reset_def breath_wave_def)

end
