(* ===== verification/If_Uart.thy ===== *)
theory If_Uart
  imports If_Led
begin

text \<open>
  \<open>ifmcu_firmware/src/modules/uart_handler.c\<close>: the UART side of the interface MCU's
  serial bridge. Received bytes arrive in blocks of a slab that the UART driver and
  the pending events share by reference counts; bytes to send go through a ring
  buffer. The device table has one entry, so an array indexed by the device is one
  field here and the test of the index is against 1.

  The slab, the ring buffer and what the UART driver answers are arguments
  (\<open>uart_env\<close>): \<open>ue_ret\<close> is the value a driver call returns. The calls made are kept, in
  order, in \<open>uh_calls\<close>. An operation that submits events returns them.
\<close>

section \<open>State\<close>

definition UART_DEVICE_COUNT :: u8 where [wire_const]: "UART_DEVICE_COUNT = 1"
definition UART_BUF_SIZE :: nat where [wire_const]: "UART_BUF_SIZE = 512"
definition UART_SLAB_BLOCK_SIZE :: nat where [wire_const]: "UART_SLAB_BLOCK_SIZE = 520"
definition UART_SLAB_BLOCK_COUNT :: nat where [wire_const]: "UART_SLAB_BLOCK_COUNT = 3"
definition UART_RX_TIMEOUT_USEC :: int where [wire_const]: "UART_RX_TIMEOUT_USEC = 1000"

record uart_config =
  uc_baudrate :: u32
  uc_parity :: u8
  uc_stop_bits :: u8
  uc_data_bits :: u8
  uc_flow_ctrl :: u8

datatype uart_call =
  Callback_Set | Rx_Enable u32 nat int | Rx_Disable | Rx_Buf_Rsp u32 nat
| Config_Get | Configure uart_config | Pm_Action bool | Tx "u8 list" | Uart_Led led_state

record ('s, 'r) uart_env =
  ue_slab :: "'s slab_ops"
  ue_ring :: "'r ring_ops"
  ue_base :: u32
  ue_dev :: bool
  ue_ready :: bool
  ue_pm :: bool
  ue_legacy_shim :: bool
  ue_config :: "int + uart_config"
  ue_ret :: "uart_call \<Rightarrow> int"

record ('s, 'r) uart =
  uh_slab :: 's
  uh_refs :: "u32 \<Rightarrow> u32"
  uh_ring :: 'r
  uh_default_baudrate :: u32
  uh_subscriber_count :: i32
  uh_enable_rx_retry :: bool
  uh_tx_started :: bool
  uh_calls :: "uart_call list"

text \<open>The members of \<open>struct uart_rx_buf\<close> before \<open>buf\<close> are two machine words.\<close>

definition rx_buf_field :: "u32 \<Rightarrow> u32" where
  "rx_buf_field b = b + 8"

definition uart_call_made :: "uart_call \<Rightarrow> ('s, 'r) uart \<Rightarrow> ('s, 'r) uart" where
  "uart_call_made c h = h\<lparr>uh_calls := uh_calls h @ [c]\<rparr>"

section \<open>Receive buffers\<close>

definition block_start_get :: "u32 \<Rightarrow> u32 \<Rightarrow> u32" where
  "block_start_get base buf =
     (let block_num = (buf - base) div of_nat UART_SLAB_BLOCK_SIZE
      in base + block_num * of_nat UART_SLAB_BLOCK_SIZE)"

definition uart_rx_buf_alloc :: "('s, 'r) uart_env \<Rightarrow> ('s, 'r) uart \<Rightarrow> u32 option \<times> ('s, 'r) uart" where
  [op_defs]: "uart_rx_buf_alloc env h =
     (case slab_alloc (ue_slab env) (uh_slab h) of
        (Inl err, s) \<Rightarrow> (None, h\<lparr>uh_slab := s\<rparr>)
      | (Inr b, s) \<Rightarrow> (Some b, h\<lparr>uh_slab := s, uh_refs := (uh_refs h)(b := 1)\<rparr>))"

definition uart_rx_buf_ref :: "('s, 'r) uart_env \<Rightarrow> u32 \<Rightarrow> ('s, 'r) uart \<Rightarrow> ('s, 'r) uart" where
  [op_defs]: "uart_rx_buf_ref env buf h =
     (let b = block_start_get (ue_base env) buf
      in h\<lparr>uh_refs := (uh_refs h)(b := uh_refs h b + 1)\<rparr>)"

definition uart_rx_buf_unref :: "('s, 'r) uart_env \<Rightarrow> u32 \<Rightarrow> ('s, 'r) uart \<Rightarrow> ('s, 'r) uart" where
  [op_defs]: "uart_rx_buf_unref env buf h =
     (let b = block_start_get (ue_base env) buf;
          ref_counter = uh_refs h b;
          h1 = h\<lparr>uh_refs := (uh_refs h)(b := ref_counter - 1)\<rparr>
      in if ref_counter = 1 then h1\<lparr>uh_slab := slab_free (ue_slab env) b (uh_slab h1)\<rparr> else h1)"

section \<open>Configuration and reception\<close>

definition set_uart_baudrate :: "('s, 'r) uart_env \<Rightarrow> u32 \<Rightarrow> ('s, 'r) uart \<Rightarrow> ('s, 'r) uart" where
  [op_defs]: "set_uart_baudrate env baudrate h =
     (if baudrate = 0 then h
      else
        let h1 = uart_call_made Config_Get h
        in case ue_config env of
             Inl err \<Rightarrow> h1
           | Inr cfg \<Rightarrow>
               if uc_baudrate cfg = baudrate then h1
               else uart_call_made (Configure (cfg\<lparr>uc_baudrate := baudrate\<rparr>)) h1)"

definition set_uart_power_state :: "('s, 'r) uart_env \<Rightarrow> bool \<Rightarrow> ('s, 'r) uart \<Rightarrow> ('s, 'r) uart" where
  [op_defs]: "set_uart_power_state env active h =
     (if ue_pm env then uart_call_made (Pm_Action active) h else h)"

definition enable_uart_rx :: "('s, 'r) uart_env \<Rightarrow> ('s, 'r) uart \<Rightarrow> ('s, 'r) uart" where
  [op_defs]: "enable_uart_rx env h =
     (let h1 = uart_call_made Callback_Set h
      in if ue_ret env Callback_Set \<noteq> 0 then h1
         else
           case uart_rx_buf_alloc env h1 of
             (None, h2) \<Rightarrow> h2
           | (Some b, h2) \<Rightarrow>
               let c = Rx_Enable (rx_buf_field b) UART_BUF_SIZE UART_RX_TIMEOUT_USEC;
                   h3 = uart_call_made c h2
               in if ue_ret env c \<noteq> 0 then uart_rx_buf_unref env b h3 else h3)"

definition disable_uart_rx :: "('s, 'r) uart_env \<Rightarrow> ('s, 'r) uart \<Rightarrow> ('s, 'r) uart" where
  [op_defs]: "disable_uart_rx env h = uart_call_made Rx_Disable h"

section \<open>Transmission\<close>

definition uart_tx_finish :: "('s, 'r) uart_env \<Rightarrow> nat \<Rightarrow> ('s, 'r) uart \<Rightarrow> ('s, 'r) uart" where
  [op_defs]: "uart_tx_finish env n h = h\<lparr>uh_ring := snd (ring_finish (ue_ring env) n (uh_ring h))\<rparr>"

definition uart_tx_start :: "('s, 'r) uart_env \<Rightarrow> ('s, 'r) uart \<Rightarrow> int \<times> ('s, 'r) uart" where
  [op_defs]: "uart_tx_start env h =
     (let (bs, r) = ring_claim (ue_ring env) UART_BUF_SIZE (uh_ring h);
          h1 = uart_call_made (Tx bs) (h\<lparr>uh_ring := r\<rparr>);
          err = ue_ret env (Tx bs)
      in if err \<noteq> 0 then (err, uart_tx_finish env 0 h1) else (0, h1))"

text \<open>
  \<open>uart_tx_enqueue\<close> in its three parts: the put, the atomic exchange of the started
  flag, and the start. The UART interrupt can run between them.
\<close>

definition tx_put :: "('s, 'r) uart_env \<Rightarrow> u8 list \<Rightarrow> ('s, 'r) uart \<Rightarrow> nat \<times> ('s, 'r) uart" where
  "tx_put env data h = (let (written, r) = ring_put (ue_ring env) data (uh_ring h) in (written, h\<lparr>uh_ring := r\<rparr>))"

definition tx_swap :: "('s, 'r) uart \<Rightarrow> bool \<times> ('s, 'r) uart" where
  "tx_swap h = (uh_tx_started h, h\<lparr>uh_tx_started := True\<rparr>)"

definition tx_start_or_clear :: "('s, 'r) uart_env \<Rightarrow> ('s, 'r) uart \<Rightarrow> ('s, 'r) uart" where
  "tx_start_or_clear env h =
     (let (err, h1) = uart_tx_start env h in if err \<noteq> 0 then h1\<lparr>uh_tx_started := False\<rparr> else h1)"

definition uart_tx_enqueue :: "('s, 'r) uart_env \<Rightarrow> u8 list \<Rightarrow> ('s, 'r) uart \<Rightarrow> int \<times> ('s, 'r) uart" where
  [op_defs]: "uart_tx_enqueue env data h =
     (let (written, h1) = tx_put env data h
      in if written = 0 then (- ENOMEM, h1)
         else
           let (started, h2) = tx_swap h1;
               h3 = (if \<not> started then tx_start_or_clear env h2 else h2)
           in if written = length data then (0, h3) else (- ENOMEM, h3))"

section \<open>The driver's callback\<close>

datatype uart_event =
  UART_TX_DONE nat | UART_TX_ABORTED nat | UART_RX_RDY u32 u32 u32 | UART_RX_BUF_REQUEST
| UART_RX_BUF_RELEASED u32 | UART_RX_DISABLED | UART_RX_STOPPED int

text \<open>The events submitted and the new state; \<open>NULL\<close> is address 0.\<close>

definition uart_callback ::
  "('s, 'r) uart_env \<Rightarrow> uart_event \<Rightarrow> ('s, 'r) uart \<Rightarrow> app_event list \<times> ('s, 'r) uart" where
  [op_defs]: "uart_callback env evt h =
     (case evt of
        UART_RX_RDY buf offset n \<Rightarrow>
          ([Uart_Data \<lparr>ude_dev_idx = 0, ude_buf = buf + offset, ude_len = n\<rparr>], uart_rx_buf_ref env buf h)
      | UART_RX_BUF_RELEASED buf \<Rightarrow> ([], if buf \<noteq> 0 then uart_rx_buf_unref env buf h else h)
      | UART_RX_BUF_REQUEST \<Rightarrow>
          (case uart_rx_buf_alloc env h of
             (None, h1) \<Rightarrow> ([], h1)
           | (Some b, h1) \<Rightarrow>
               let c = Rx_Buf_Rsp (rx_buf_field b) UART_BUF_SIZE; h2 = uart_call_made c h1
               in ([], if ue_ret env c \<noteq> 0 then uart_rx_buf_unref env b h2 else h2))
      | UART_RX_DISABLED \<Rightarrow>
          ([], if uh_enable_rx_retry h then (enable_uart_rx env h)\<lparr>uh_enable_rx_retry := False\<rparr>
               else if ue_pm env then set_uart_power_state env False h else h)
      | UART_TX_DONE n \<Rightarrow>
          (let h1 = uart_tx_finish env n h
           in ([], if ring_used (ue_ring env) (uh_ring h1) = 0 then h1\<lparr>uh_tx_started := False\<rparr>
                   else snd (uart_tx_start env h1)))
      | UART_TX_ABORTED n \<Rightarrow> ([], (uart_tx_finish env n h)\<lparr>uh_tx_started := False\<rparr>)
      | UART_RX_STOPPED reason \<Rightarrow>
          ([], if ue_legacy_shim env then h\<lparr>uh_enable_rx_retry := True\<rparr> else h))"

section \<open>The event handler\<close>

text \<open>One branch per event type; the boolean is the value returned (event consumed).\<close>

definition uart_on_uart_data :: "('s, 'r) uart_env \<Rightarrow> uart_data_event \<Rightarrow> ('s, 'r) uart \<Rightarrow> bool \<times> ('s, 'r) uart" where
  [op_defs]: "uart_on_uart_data env e h =
     (True, uart_rx_buf_unref env (ude_buf e) (uart_call_made (Uart_Led LED_STATE_BLINK) h))"

definition uart_on_cdc_data ::
  "('s, 'r) uart_env \<Rightarrow> memory \<Rightarrow> cdc_data_event \<Rightarrow> ('s, 'r) uart \<Rightarrow> bool \<times> ('s, 'r) uart" where
  [op_defs]: "uart_on_cdc_data env mem e h =
     (if cde_dev_idx e \<ge> UART_DEVICE_COUNT then (False, h)
      else if \<not> ue_dev env then (False, h)
      else
        let h1 = uart_call_made (Uart_Led LED_STATE_BLINK) h;
            (err, h2) = uart_tx_enqueue env (mem_read mem (cde_buf e) (unat (cde_len e))) h1
        in (False, h2))"

definition uart_on_peer_conn ::
  "('s, 'r) uart_env \<Rightarrow> peer_conn_event \<Rightarrow> ('s, 'r) uart \<Rightarrow> bool \<times> ('s, 'r) uart" where
  [op_defs]: "uart_on_peer_conn env e h =
     (if pc_dev_idx e \<ge> UART_DEVICE_COUNT then (False, h)
      else if \<not> ue_dev env then (False, h)
      else if \<not> pc_conn_state_changed e then (False, set_uart_baudrate env (pc_baudrate e) h)
      else
        let prev_count = uh_subscriber_count h;
            h1 = (if pc_conn_state e = PEER_STATE_CONNECTED
                  then set_uart_baudrate env (pc_baudrate e) (h\<lparr>uh_subscriber_count := prev_count + 1\<rparr>)
                  else h\<lparr>uh_subscriber_count := prev_count - 1\<rparr>)
        in if uh_subscriber_count h1 = 0
           then (False, disable_uart_rx env (set_uart_baudrate env (uh_default_baudrate h1) h1))
           else if prev_count = 0
           then (False, enable_uart_rx env (if ue_pm env then set_uart_power_state env True h1 else h1))
           else (False, h1))"

definition uart_on_module_state ::
  "('s, 'r) uart_env \<Rightarrow> module_state_event \<Rightarrow> ('s, 'r) uart \<Rightarrow> bool \<times> ('s, 'r) uart" where
  [op_defs]: "uart_on_module_state env e h =
     (if \<not> main_ready e then (False, h)
      else if \<not> ue_ready env then (False, h)
      else
        let h1 = uart_call_made Config_Get h
        in case ue_config env of
             Inl err \<Rightarrow> (False, h1)
           | Inr cfg \<Rightarrow>
               let h2 = h1\<lparr>uh_default_baudrate := uc_baudrate cfg, uh_subscriber_count := 0,
                           uh_enable_rx_retry := False, uh_tx_started := False,
                           uh_ring := ring_init (ue_ring env) (uh_ring h1)\<rparr>
               in (False, if ue_pm env then set_uart_power_state env False h2 else h2))"

definition uart_app_event_handler ::
  "('s, 'r) uart_env \<Rightarrow> memory \<Rightarrow> app_event \<Rightarrow> ('s, 'r) uart \<Rightarrow> bool \<times> ('s, 'r) uart" where
  [op_defs]: "uart_app_event_handler env mem ev h =
     (case ev of
        Uart_Data e \<Rightarrow> uart_on_uart_data env e h
      | Cdc_Data e \<Rightarrow> uart_on_cdc_data env mem e h
      | Peer_Conn e \<Rightarrow> uart_on_peer_conn env e h
      | Module_State e \<Rightarrow> uart_on_module_state env e h
      | Power_Down e \<Rightarrow> (False, h))"

definition uart_reset :: "'s \<Rightarrow> 'r \<Rightarrow> ('s, 'r) uart" where
  "uart_reset s r = \<lparr>uh_slab = s, uh_refs = (\<lambda>_. 0), uh_ring = r, uh_default_baudrate = 0,
     uh_subscriber_count = 0, uh_enable_rx_retry = False, uh_tx_started = False, uh_calls = []\<rparr>"

section \<open>What each operation leaves alone\<close>

lemma unref_frame [simp]:
  "uh_ring (uart_rx_buf_unref env b h) = uh_ring h"
  "uh_tx_started (uart_rx_buf_unref env b h) = uh_tx_started h"
  by (simp_all add: uart_rx_buf_unref_def Let_def)

lemma ref_frame [simp]:
  "uh_ring (uart_rx_buf_ref env b h) = uh_ring h"
  "uh_tx_started (uart_rx_buf_ref env b h) = uh_tx_started h"
  by (simp_all add: uart_rx_buf_ref_def Let_def)

lemma call_frame [simp]:
  "uh_ring (uart_call_made c h) = uh_ring h" "uh_tx_started (uart_call_made c h) = uh_tx_started h"
  "uh_slab (uart_call_made c h) = uh_slab h" "uh_refs (uart_call_made c h) = uh_refs h"
  "uh_subscriber_count (uart_call_made c h) = uh_subscriber_count h"
  "uh_enable_rx_retry (uart_call_made c h) = uh_enable_rx_retry h"
  "uh_default_baudrate (uart_call_made c h) = uh_default_baudrate h"
  "uh_calls (uart_call_made c h) = uh_calls h @ [c]"
  by (simp_all add: uart_call_made_def)

lemma alloc_frame:
  assumes "uart_rx_buf_alloc env h = (r, h')"
  shows "uh_ring h' = uh_ring h" "uh_tx_started h' = uh_tx_started h"
  using assms by (auto simp: uart_rx_buf_alloc_def split: prod.splits sum.splits)

lemma enable_frame [simp]:
  "uh_ring (enable_uart_rx env h) = uh_ring h"
  "uh_tx_started (enable_uart_rx env h) = uh_tx_started h"
  by (auto simp: enable_uart_rx_def Let_def dest: alloc_frame split: prod.splits option.splits)

lemma config_frame [simp]:
  "uh_ring (set_uart_baudrate env b h) = uh_ring h"
  "uh_tx_started (set_uart_baudrate env b h) = uh_tx_started h"
  "uh_ring (set_uart_power_state env a h) = uh_ring h"
  "uh_tx_started (set_uart_power_state env a h) = uh_tx_started h"
  "uh_ring (disable_uart_rx env h) = uh_ring h"
  "uh_tx_started (disable_uart_rx env h) = uh_tx_started h"
  by (simp_all add: set_uart_baudrate_def set_uart_power_state_def disable_uart_rx_def Let_def split: sum.split)

lemma peer_frame [simp]:
  "uh_ring (snd (uart_on_peer_conn env e h)) = uh_ring h"
  "uh_tx_started (snd (uart_on_peer_conn env e h)) = uh_tx_started h"
  by (simp_all add: uart_on_peer_conn_def Let_def)

end
