(* ===== verification/If_Buffers.thy ===== *)
theory If_Buffers
  imports If_Uart
begin

text \<open>
  The receive buffers of \<open>uart_handler.c\<close>: how the address arithmetic of
  \<open>block_start_get\<close> finds the block of a pointer, and what allocation, reference and
  release do to the owners of the blocks. A block is named by its number; an owner is
  the driver, or an event that points into the block.
\<close>

section \<open>Addresses\<close>

definition uart_block :: "u32 \<Rightarrow> nat \<Rightarrow> u32" where
  "uart_block base k = base + of_nat (k * UART_SLAB_BLOCK_SIZE)"

definition uart_blocks :: "u32 \<Rightarrow> u32 set" where
  "uart_blocks base = uart_block base ` {..<UART_SLAB_BLOCK_COUNT}"

definition slab_offset :: "u32 \<Rightarrow> u32 \<Rightarrow> nat" where
  "slab_offset base p = unat (p - base)"

definition block_number :: "u32 \<Rightarrow> u32 \<Rightarrow> nat" where
  "block_number base p = slab_offset base p div UART_SLAB_BLOCK_SIZE"

abbreviation (input) slab_size :: nat where "slab_size \<equiv> 1560"

lemma slab_offset_add [simp]: "i < 2 ^ 32 \<Longrightarrow> slab_offset base (base + of_nat i) = i"
  by (simp add: slab_offset_def)

lemma slab_offset_base: "base + of_nat (slab_offset base p) = p"
  by (simp add: slab_offset_def)

lemma block_start_get_eq: "block_start_get base p = uart_block base (block_number base p)"
proof -
  have "(p - base) div 520 = of_nat (unat ((p - base) div 520))"
    by simp
  also have "unat ((p - base) div 520) = unat (p - base) div 520"
    by (simp add: unat_div)
  finally show ?thesis
    by (simp add: block_start_get_def uart_block_def block_number_def slab_offset_def wire_const Let_def)
qed

lemma block_number_add:
  "j < UART_SLAB_BLOCK_SIZE \<Longrightarrow> k < UART_SLAB_BLOCK_COUNT \<Longrightarrow>
    block_number base (uart_block base k + of_nat j) = k"
proof -
  assume a: "j < UART_SLAB_BLOCK_SIZE" "k < UART_SLAB_BLOCK_COUNT"
  have "uart_block base k + of_nat j = base + of_nat (k * 520 + j)"
    by (simp add: uart_block_def wire_const)
  moreover have "k * 520 + j < 2 ^ 32" "(k * 520 + j) div 520 = k"
    using a by (simp_all add: wire_const)
  ultimately show ?thesis
    unfolding block_number_def by (simp only: slab_offset_add wire_const)
qed

lemma block_number_block [simp]: "k < UART_SLAB_BLOCK_COUNT \<Longrightarrow> block_number base (uart_block base k) = k"
  using block_number_add [of 0 k base] by (simp add: wire_const)

lemma block_number_field [simp]:
  "k < UART_SLAB_BLOCK_COUNT \<Longrightarrow> block_number base (rx_buf_field (uart_block base k)) = k"
  using block_number_add [of 8 k base] by (simp add: wire_const rx_buf_field_def)

lemma uart_block_inject:
  "j < UART_SLAB_BLOCK_COUNT \<Longrightarrow> k < UART_SLAB_BLOCK_COUNT \<Longrightarrow> uart_block base j = uart_block base k \<longleftrightarrow> j = k"
  by (metis block_number_block)

lemma uart_block_in [simp]: "k < UART_SLAB_BLOCK_COUNT \<Longrightarrow> uart_block base k \<in> uart_blocks base"
  by (simp add: uart_blocks_def)

lemma uart_blocksE:
  assumes "b \<in> uart_blocks base"
  obtains k where "k < UART_SLAB_BLOCK_COUNT" "b = uart_block base k"
  using assms by (auto simp: uart_blocks_def)

text \<open>Ranges at offsets of the slab.\<close>

lemma mem_range_offset: "mem_range (base + of_nat a) n = (\<lambda>i. base + of_nat i) ` {a..<a + n}"
proof -
  have "{a..<a + n} = (\<lambda>i. a + i) ` {..<n}"
    by (simp add: lessThan_atLeast0 image_add_atLeastLessThan add.commute)
  then show ?thesis
    by (simp add: mem_range_def image_image ac_simps)
qed

lemma mem_range_apart:
  assumes "a + n \<le> b \<or> b + m \<le> a" "a + n \<le> 2 ^ 32" "b + m \<le> 2 ^ 32"
  shows "mem_range (base + of_nat a) n \<inter> mem_range (base + of_nat b) m = {}"
proof -
  have "of_nat i \<noteq> (of_nat j :: u32)" if "i \<in> {a..<a + n}" "j \<in> {b..<b + m}" for i j
  proof
    assume "of_nat i = (of_nat j :: u32)"
    then have "unat (of_nat i :: u32) = unat (of_nat j :: u32)" by simp
    moreover have "i < 2 ^ LENGTH(32)" "j < 2 ^ LENGTH(32)"
      using that assms(2,3) by auto
    ultimately have "i = j" by (simp only: of_nat_unat_small)
    with that assms(1) show False by auto
  qed
  then show ?thesis
    unfolding mem_range_offset by auto
qed

lemma mem_range_sub: "a + n \<le> m \<Longrightarrow> mem_range (base + of_nat a) n \<subseteq> mem_range base m"
  using mem_range_offset [of base 0 m] mem_range_offset [of base a n] by auto

section \<open>Owners\<close>

text \<open>
  \<open>owners k\<close> is how many owners block \<open>k\<close> has: the reference counter says so, and the
  block is free exactly when it has none.
\<close>

definition refs_ok :: "('s \<Rightarrow> u32 set) \<Rightarrow> u32 \<Rightarrow> (nat \<Rightarrow> nat) \<Rightarrow> ('s, 'r) uart \<Rightarrow> bool" where
  "refs_ok free base owners h \<longleftrightarrow>
     (\<forall>k<UART_SLAB_BLOCK_COUNT. uh_refs h (uart_block base k) = of_nat (owners k) \<and>
        (uart_block base k \<in> free (uh_slab h) \<longleftrightarrow> owners k = 0))"

lemma refs_ok_cong:
  "uh_refs h' = uh_refs h \<Longrightarrow> uh_slab h' = uh_slab h \<Longrightarrow> refs_ok free base owners h \<Longrightarrow> refs_ok free base owners h'"
  by (simp add: refs_ok_def)

lemma refs_ok_owners:
  "refs_ok free base owners h \<Longrightarrow> (\<And>k. k < UART_SLAB_BLOCK_COUNT \<Longrightarrow> owners k = owners' k) \<Longrightarrow>
    refs_ok free base owners' h"
  by (simp add: refs_ok_def)

lemma rx_ref_ok:
  assumes "refs_ok free (ue_base env) owners h" "block_number (ue_base env) p = k" "k < UART_SLAB_BLOCK_COUNT"
    "0 < owners k"
  shows "refs_ok free (ue_base env) (owners(k := owners k + 1)) (uart_rx_buf_ref env p h)"
  using assms by (auto simp: refs_ok_def uart_rx_buf_ref_def block_start_get_eq uart_block_inject Let_def)

lemma rx_unref_ok:
  assumes spec: "slab_spec (ue_slab env) free (uart_blocks (ue_base env))"
    and ok: "refs_ok free (ue_base env) owners h" and k: "block_number (ue_base env) p = k" "k < UART_SLAB_BLOCK_COUNT"
    and own: "0 < owners k" "owners k < 2 ^ 32"
  shows "refs_ok free (ue_base env) (owners(k := owners k - 1)) (uart_rx_buf_unref env p h)"
proof -
  let ?b = "uart_block (ue_base env) k"
  have r: "uh_refs h ?b = of_nat (owners k)" "?b \<notin> free (uh_slab h)"
    using ok k own by (simp_all add: refs_ok_def)
  have one: "uh_refs h ?b = 1 \<longleftrightarrow> owners k = 1"
  proof
    assume "uh_refs h ?b = 1"
    then have "unat (of_nat (owners k) :: u32) = 1"
      using r(1) by simp
    with own(2) show "owners k = 1"
      by (subst (asm) of_nat_unat_small) simp_all
  qed (simp add: r(1))
  have dec: "(of_nat (owners k) :: u32) - 1 = of_nat (owners k - 1)"
    using own(1) by (simp add: of_nat_diff)
  show ?thesis
  proof (cases "owners k = 1")
    case True
    have "free (slab_free (ue_slab env) ?b (uh_slab h)) = insert ?b (free (uh_slab h))"
      by (rule slab_free_ok [OF spec _ r(2)]) (simp add: k)
    then show ?thesis
      using True one ok k
      by (auto simp: refs_ok_def uart_rx_buf_unref_def block_start_get_eq uart_block_inject r(1) Let_def)
  next
    case False
    then show ?thesis
      using one ok k own dec
      by (auto simp: refs_ok_def uart_rx_buf_unref_def block_start_get_eq uart_block_inject r(1) Let_def)
  qed
qed

lemma rx_alloc_ok:
  assumes spec: "slab_spec (ue_slab env) free (uart_blocks (ue_base env))"
    and ok: "refs_ok free (ue_base env) owners h" and alloc: "uart_rx_buf_alloc env h = (Some b, h')"
  obtains k where "k < UART_SLAB_BLOCK_COUNT" "b = uart_block (ue_base env) k" "owners k = 0"
    "refs_ok free (ue_base env) (owners(k := 1)) h'" "uh_calls h' = uh_calls h"
proof -
  obtain s where s: "slab_alloc (ue_slab env) (uh_slab h) = (Inr b, s)"
    "h' = h\<lparr>uh_slab := s, uh_refs := (uh_refs h)(b := 1)\<rparr>"
    using alloc by (auto simp: uart_rx_buf_alloc_def split: prod.splits sum.splits)
  note f = slab_alloc_ok [OF spec s(1)]
  obtain k where k: "k < UART_SLAB_BLOCK_COUNT" "b = uart_block (ue_base env) k"
    using f(3) by (rule uart_blocksE)
  show thesis
    by (rule that [OF k]) (use ok f k in \<open>auto simp: refs_ok_def s(2) uart_block_inject\<close>)
qed

lemma rx_alloc_none:
  assumes spec: "slab_spec (ue_slab env) free (uart_blocks (ue_base env))"
    and ok: "refs_ok free (ue_base env) owners h" and alloc: "uart_rx_buf_alloc env h = (None, h')"
  shows "refs_ok free (ue_base env) owners h'" "uh_calls h' = uh_calls h"
proof -
  obtain e s where s: "slab_alloc (ue_slab env) (uh_slab h) = (Inl e, s)" "h' = h\<lparr>uh_slab := s\<rparr>"
    using alloc by (auto simp: uart_rx_buf_alloc_def split: prod.splits sum.splits)
  show "refs_ok free (ue_base env) owners h'" "uh_calls h' = uh_calls h"
    using ok slab_alloc_fail [OF spec s(1)] by (simp_all add: refs_ok_def s(2))
qed

section \<open>Buffers handed to the driver\<close>

text \<open>The block numbers of the buffers a driver accepted in the calls made.\<close>

definition buffer_taken :: "('s, 'r) uart_env \<Rightarrow> uart_call \<Rightarrow> nat list" where
  "buffer_taken env c =
     (case c of
        Rx_Enable a n t \<Rightarrow> if ue_ret env c = 0 then [block_number (ue_base env) a] else []
      | Rx_Buf_Rsp a n \<Rightarrow> if ue_ret env c = 0 then [block_number (ue_base env) a] else []
      | _ \<Rightarrow> [])"

definition buffers_taken :: "('s, 'r) uart_env \<Rightarrow> ('s, 'r) uart \<Rightarrow> ('s, 'r) uart \<Rightarrow> nat list" where
  "buffers_taken env h h' = concat (map (buffer_taken env) (drop (length (uh_calls h)) (uh_calls h')))"

text \<open>
  An operation hands the driver at most one block: it had no owner before and has one
  afterwards, and no other block changes hands.
\<close>

definition hands_over ::
  "('s \<Rightarrow> u32 set) \<Rightarrow> ('s, 'r) uart_env \<Rightarrow> ('s, 'r) uart \<Rightarrow> ('s, 'r) uart \<Rightarrow> bool" where
  "hands_over free env h h' \<longleftrightarrow>
     (\<exists>cs. uh_calls h' = uh_calls h @ cs) \<and>
     (\<forall>owners. refs_ok free (ue_base env) owners h \<longrightarrow>
        (buffers_taken env h h' = [] \<and> refs_ok free (ue_base env) owners h' \<or>
         (\<exists>k<UART_SLAB_BLOCK_COUNT. buffers_taken env h h' = [k] \<and> owners k = 0 \<and>
            refs_ok free (ue_base env) (owners(k := 1)) h')))"

text \<open>Operations that touch no buffer and make other calls.\<close>

definition buffer_neutral :: "('s, 'r) uart_env \<Rightarrow> ('s, 'r) uart \<Rightarrow> ('s, 'r) uart \<Rightarrow> bool" where
  "buffer_neutral env h h' \<longleftrightarrow> uh_refs h' = uh_refs h \<and> uh_slab h' = uh_slab h \<and>
     (\<exists>cs. uh_calls h' = uh_calls h @ cs \<and> concat (map (buffer_taken env) cs) = [])"

named_theorems neutral \<open>operations that touch no receive buffer\<close>

lemma neutral_trans: "buffer_neutral env h h1 \<Longrightarrow> buffer_neutral env h1 h2 \<Longrightarrow> buffer_neutral env h h2"
  by (force simp: buffer_neutral_def)

lemma neutral_refl [neutral]: "buffer_neutral env h h"
  by (simp add: buffer_neutral_def)

lemma neutral_call [neutral]: "buffer_taken env c = [] \<Longrightarrow> buffer_neutral env h (uart_call_made c h)"
  by (simp add: buffer_neutral_def)

lemma neutral_fields [neutral]:
  "buffer_neutral env h (h\<lparr>uh_subscriber_count := n\<rparr>)" "buffer_neutral env h (h\<lparr>uh_enable_rx_retry := b\<rparr>)"
  "buffer_neutral env h (h\<lparr>uh_tx_started := b\<rparr>)" "buffer_neutral env h (h\<lparr>uh_ring := r\<rparr>)"
  "buffer_neutral env h (h\<lparr>uh_default_baudrate := d\<rparr>)"
  by (simp_all add: buffer_neutral_def)

lemma buffer_taken_simps [simp]:
  "buffer_taken env Callback_Set = []" "buffer_taken env Rx_Disable = []" "buffer_taken env Config_Get = []"
  "buffer_taken env (Configure cfg) = []" "buffer_taken env (Pm_Action a) = []" "buffer_taken env (Tx bs) = []"
  "buffer_taken env (Uart_Led st) = []"
  by (simp_all add: buffer_taken_def)

lemma neutral_hands_over: "buffer_neutral env h h' \<Longrightarrow> hands_over free env h h'"
  by (auto simp: buffer_neutral_def hands_over_def buffers_taken_def intro: refs_ok_cong)

lemma hands_over_after:
  assumes "buffer_neutral env h h1" "hands_over free env h1 h2"
  shows "hands_over free env h h2"
proof -
  obtain cs where cs: "uh_calls h1 = uh_calls h @ cs" "concat (map (buffer_taken env) cs) = []"
    "uh_refs h1 = uh_refs h" "uh_slab h1 = uh_slab h"
    using assms(1) by (auto simp: buffer_neutral_def)
  obtain ds where ds: "uh_calls h2 = uh_calls h1 @ ds"
    using assms(2) by (auto simp: hands_over_def)
  have same: "buffers_taken env h h2 = buffers_taken env h1 h2"
    by (simp add: buffers_taken_def cs(1) ds) (use cs(2) in simp)
  have "refs_ok free (ue_base env) owners h1" if "refs_ok free (ue_base env) owners h" for owners
    using that cs(3,4) refs_ok_cong by blast
  then show ?thesis
    using assms(2) cs(1) ds unfolding hands_over_def same by auto
qed

lemma hands_over_then:
  assumes "hands_over free env h h1" "buffer_neutral env h1 h2"
  shows "hands_over free env h h2"
proof -
  obtain cs where cs: "uh_calls h2 = uh_calls h1 @ cs" "concat (map (buffer_taken env) cs) = []"
    "uh_refs h2 = uh_refs h1" "uh_slab h2 = uh_slab h1"
    using assms(2) by (auto simp: buffer_neutral_def)
  obtain ds where ds: "uh_calls h1 = uh_calls h @ ds"
    using assms(1) by (auto simp: hands_over_def)
  have same: "buffers_taken env h h2 = buffers_taken env h h1"
    by (simp add: buffers_taken_def cs(1) ds) (use cs(2) in simp)
  have "refs_ok free (ue_base env) owners h2" if "refs_ok free (ue_base env) owners h1" for owners
    using that cs(3,4) refs_ok_cong by blast
  then show ?thesis
    using assms(1) cs(1) ds unfolding hands_over_def same by fastforce
qed

text \<open>A freshly allocated block is given to the driver, or back to the slab when it refuses.\<close>

lemma offer_hands_over:
  assumes spec: "slab_spec (ue_slab env) free (uart_blocks (ue_base env))"
    and alloc: "uart_rx_buf_alloc env h = (Some b, h1)"
    and c: "c = Rx_Enable (rx_buf_field b) n t \<or> c = Rx_Buf_Rsp (rx_buf_field b) n"
    and h': "h' = (if ue_ret env c \<noteq> 0 then uart_rx_buf_unref env b (uart_call_made c h1) else uart_call_made c h1)"
  shows "hands_over free env h h'"
proof -
  have calls: "uh_calls h1 = uh_calls h" "uh_calls h' = uh_calls h1 @ [c]"
    using alloc by (auto simp: uart_rx_buf_alloc_def h' uart_rx_buf_unref_def Let_def split: prod.splits sum.splits)
  have "buffers_taken env h h' = [] \<and> refs_ok free (ue_base env) owners h' \<or>
      (\<exists>k<UART_SLAB_BLOCK_COUNT. buffers_taken env h h' = [k] \<and> owners k = 0 \<and>
         refs_ok free (ue_base env) (owners(k := 1)) h')"
    if ok: "refs_ok free (ue_base env) owners h" for owners
  proof -
    obtain k where k: "k < UART_SLAB_BLOCK_COUNT" "b = uart_block (ue_base env) k" "owners k = 0"
      "refs_ok free (ue_base env) (owners(k := 1)) h1"
      by (rule rx_alloc_ok [OF spec ok alloc])
    have ok1: "refs_ok free (ue_base env) (owners(k := 1)) (uart_call_made c h1)"
      by (rule refs_ok_cong [OF _ _ k(4)]) simp_all
    show ?thesis
    proof (cases "ue_ret env c = 0")
      case True
      then have "buffers_taken env h h' = [k]"
        using c k(1) by (auto simp: buffers_taken_def calls buffer_taken_def k(2))
      then show ?thesis
        using True ok1 k by (auto simp: h')
    next
      case False
      have "refs_ok free (ue_base env) ((owners(k := 1))(k := (owners(k := 1)) k - 1)) h'"
        unfolding h' using False rx_unref_ok [OF spec ok1, of b k] k(1) by (simp add: k(2))
      then have "refs_ok free (ue_base env) owners h'"
        by (rule refs_ok_owners) (simp add: k(3))
      moreover have "buffers_taken env h h' = []"
        using c False by (auto simp: buffers_taken_def calls buffer_taken_def)
      ultimately show ?thesis by simp
    qed
  qed
  then show ?thesis
    by (simp add: hands_over_def calls)
qed

lemma no_alloc_hands_over:
  assumes "slab_spec (ue_slab env) free (uart_blocks (ue_base env))" "uart_rx_buf_alloc env h = (None, h')"
  shows "hands_over free env h h'"
  using assms rx_alloc_none [OF assms(1) _ assms(2)]
  by (auto simp: hands_over_def buffers_taken_def uart_rx_buf_alloc_def split: prod.splits sum.splits)

lemma enable_hands_over:
  assumes spec: "slab_spec (ue_slab env) free (uart_blocks (ue_base env))"
  shows "hands_over free env h (enable_uart_rx env h)"
proof -
  let ?h1 = "uart_call_made Callback_Set h"
  have 1: "buffer_neutral env h ?h1"
    by (intro neutral_call) simp
  obtain r h2 where alloc: "uart_rx_buf_alloc env ?h1 = (r, h2)"
    by (cases "uart_rx_buf_alloc env ?h1")
  show ?thesis
  proof (cases "ue_ret env Callback_Set = 0")
    case False
    then show ?thesis
      using neutral_hands_over [OF 1] by (simp add: enable_uart_rx_def Let_def)
  next
    case True
    show ?thesis
    proof (cases r)
      case None
      then show ?thesis
        using True alloc hands_over_after [OF 1 no_alloc_hands_over [OF spec, of ?h1 h2]]
        by (simp add: enable_uart_rx_def Let_def)
    next
      case (Some b)
      define c where "c = Rx_Enable (rx_buf_field b) UART_BUF_SIZE UART_RX_TIMEOUT_USEC"
      have "hands_over free env ?h1 (enable_uart_rx env h)"
        by (rule offer_hands_over [OF spec, of _ b h2 c])
          (use True alloc Some in \<open>simp_all add: enable_uart_rx_def c_def Let_def\<close>)
      then show ?thesis
        by (rule hands_over_after [OF 1])
    qed
  qed
qed

lemma request_hands_over:
  assumes spec: "slab_spec (ue_slab env) free (uart_blocks (ue_base env))"
  shows "hands_over free env h (snd (uart_callback env UART_RX_BUF_REQUEST h))"
proof -
  obtain r h1 where alloc: "uart_rx_buf_alloc env h = (r, h1)"
    by (cases "uart_rx_buf_alloc env h")
  show ?thesis
  proof (cases r)
    case None
    then show ?thesis
      using alloc no_alloc_hands_over [OF spec] by (simp add: uart_callback_def)
  next
    case (Some b)
    define c where "c = Rx_Buf_Rsp (rx_buf_field b) UART_BUF_SIZE"
    show ?thesis
      by (rule offer_hands_over [OF spec, of _ b h1 c])
        (use alloc Some in \<open>simp_all add: uart_callback_def c_def Let_def\<close>)
  qed
qed

lemma neutral_set_baudrate [neutral]: "buffer_neutral env h (set_uart_baudrate env b h)"
  by (auto simp: set_uart_baudrate_def buffer_neutral_def Let_def split: sum.split)

lemma neutral_set_power [neutral]: "buffer_neutral env h (set_uart_power_state env a h)"
  by (simp add: set_uart_power_state_def neutral)

lemma neutral_disable [neutral]: "buffer_neutral env h (disable_uart_rx env h)"
  by (simp add: disable_uart_rx_def neutral)

lemma neutral_tx_finish [neutral]: "buffer_neutral env h (uart_tx_finish env n h)"
  by (simp add: uart_tx_finish_def neutral)

lemma neutral_tx_start [neutral]: "buffer_neutral env h (snd (uart_tx_start env h))"
proof -
  obtain bs r where bs: "ring_claim (ue_ring env) UART_BUF_SIZE (uh_ring h) = (bs, r)"
    by (cases "ring_claim (ue_ring env) UART_BUF_SIZE (uh_ring h)")
  have "buffer_neutral env h (uart_call_made (Tx bs) (h\<lparr>uh_ring := r\<rparr>))"
    by (rule neutral_trans [OF neutral_fields(4) neutral_call]) simp
  then show ?thesis
    by (auto simp: uart_tx_start_def bs Let_def intro: neutral_trans [OF _ neutral_tx_finish])
qed

lemma neutral_tx_enqueue [neutral]: "buffer_neutral env h (snd (uart_tx_enqueue env d h))"
proof -
  obtain w r where put: "ring_put (ue_ring env) d (uh_ring h) = (w, r)"
    by (cases "ring_put (ue_ring env) d (uh_ring h)")
  let ?h1 = "h\<lparr>uh_ring := r\<rparr>"
  let ?h2 = "?h1\<lparr>uh_tx_started := True\<rparr>"
  have 1: "buffer_neutral env h ?h1" by (rule neutral_fields)
  have 2: "buffer_neutral env h ?h2" by (rule neutral_trans [OF 1 neutral_fields(3)])
  have 3: "buffer_neutral env h (tx_start_or_clear env ?h2)"
    by (auto simp: tx_start_or_clear_def case_prod_unfold Let_def
        intro: neutral_trans [OF 2 neutral_tx_start] neutral_trans [OF neutral_trans [OF 2 neutral_tx_start] neutral_fields(3)])
  show ?thesis
    using 1 2 3 by (simp add: uart_tx_enqueue_def tx_put_def tx_swap_def put Let_def)
qed

lemma disabled_hands_over:
  assumes spec: "slab_spec (ue_slab env) free (uart_blocks (ue_base env))"
  shows "hands_over free env h (snd (uart_callback env UART_RX_DISABLED h))"
  by (auto simp: uart_callback_def
      intro: hands_over_then [OF enable_hands_over [OF spec] neutral_fields(2)]
        neutral_hands_over [OF neutral_set_power] neutral_hands_over [OF neutral_refl])

text \<open>Every callback other than the two that name a buffer.\<close>

definition names_buffer :: "uart_event \<Rightarrow> bool" where
  "names_buffer ev \<longleftrightarrow> (case ev of UART_RX_RDY b off n \<Rightarrow> True | UART_RX_BUF_RELEASED b \<Rightarrow> True | _ \<Rightarrow> False)"

lemma callback_hands_over:
  assumes spec: "slab_spec (ue_slab env) free (uart_blocks (ue_base env))" and ev: "\<not> names_buffer ev"
  shows "hands_over free env h (snd (uart_callback env ev h))"
proof (cases ev)
  case (UART_TX_DONE n)
  have "buffer_neutral env h (snd (uart_callback env ev h))"
    by (auto simp: UART_TX_DONE uart_callback_def Let_def
        intro: neutral_trans [OF neutral_tx_finish neutral_fields(3)] neutral_trans [OF neutral_tx_finish neutral_tx_start])
  then show ?thesis by (rule neutral_hands_over)
next
  case (UART_TX_ABORTED n)
  then show ?thesis
    by (auto simp: uart_callback_def
        intro: neutral_hands_over [OF neutral_trans [OF neutral_tx_finish neutral_fields(3)]])
next
  case (UART_RX_STOPPED r)
  then show ?thesis
    by (auto simp: uart_callback_def
        intro: neutral_hands_over [OF neutral_fields(2)] neutral_hands_over [OF neutral_refl])
qed (use ev in \<open>auto simp: names_buffer_def intro: request_hands_over [OF spec] disabled_hands_over [OF spec]\<close>)

lemma callback_no_events: "\<not> names_buffer ev \<Longrightarrow> fst (uart_callback env ev h) = []"
  by (cases ev) (auto simp: names_buffer_def uart_callback_def Let_def split: option.split prod.split)

lemma peer_hands_over:
  assumes spec: "slab_spec (ue_slab env) free (uart_blocks (ue_base env))"
  shows "hands_over free env h (snd (uart_on_peer_conn env e h))"
proof -
  define h1 where "h1 = (if pc_conn_state e = PEER_STATE_CONNECTED
      then set_uart_baudrate env (pc_baudrate e) (h\<lparr>uh_subscriber_count := uh_subscriber_count h + 1\<rparr>)
      else h\<lparr>uh_subscriber_count := uh_subscriber_count h - 1\<rparr>)"
  have 1: "buffer_neutral env h h1"
    by (auto simp: h1_def intro: neutral_trans [OF neutral_fields(1) neutral_set_baudrate] neutral_fields(1))
  have 2: "hands_over free env h (disable_uart_rx env (set_uart_baudrate env d h1))" for d
    by (rule neutral_hands_over [OF neutral_trans [OF 1 neutral_trans [OF neutral_set_baudrate neutral_disable]]])
  have "buffer_neutral env h (if ue_pm env then set_uart_power_state env True h1 else h1)"
    using 1 by (auto intro: neutral_trans [OF 1 neutral_set_power])
  from hands_over_after [OF this enable_hands_over [OF spec]]
  have 3: "hands_over free env h (enable_uart_rx env (if ue_pm env then set_uart_power_state env True h1 else h1))" .
  have 4: "hands_over free env h (set_uart_baudrate env (pc_baudrate e) h)" "hands_over free env h h" "hands_over free env h h1"
    by (rule neutral_hands_over [OF neutral_set_baudrate], rule neutral_hands_over [OF neutral_refl],
        rule neutral_hands_over [OF 1])
  show ?thesis
    unfolding uart_on_peer_conn_def Let_def h1_def [symmetric] using 2 3 4 by simp
qed

lemma module_state_hands_over: "hands_over free env h (snd (uart_on_module_state env e h))"
proof -
  have "buffer_neutral env h (snd (uart_on_module_state env e h))"
    by (auto simp: uart_on_module_state_def set_uart_power_state_def buffer_neutral_def Let_def split: sum.split)
  then show ?thesis by (rule neutral_hands_over)
qed

lemma cdc_data_hands_over: "hands_over free env h (snd (uart_on_cdc_data env mem e h))"
proof -
  have "buffer_neutral env h (uart_call_made (Uart_Led LED_STATE_BLINK) h)"
    by (rule neutral_call) simp
  from neutral_trans [OF this neutral_tx_enqueue]
  have "buffer_neutral env h (snd (uart_on_cdc_data env mem e h))"
    by (auto simp: uart_on_cdc_data_def case_prod_unfold Let_def intro: neutral_refl)
  then show ?thesis by (rule neutral_hands_over)
qed

definition is_uart_data :: "app_event \<Rightarrow> bool" where
  "is_uart_data ev \<longleftrightarrow> (case ev of Uart_Data e \<Rightarrow> True | _ \<Rightarrow> False)"

lemma handler_hands_over:
  assumes "slab_spec (ue_slab env) free (uart_blocks (ue_base env))" "\<not> is_uart_data ev"
  shows "hands_over free env h (snd (uart_app_event_handler env mem ev h))"
  using assms(2)
  by (cases ev) (auto simp: is_uart_data_def uart_app_event_handler_def intro: peer_hands_over [OF assms(1)]
      module_state_hands_over cdc_data_hands_over neutral_hands_over [OF neutral_refl])

end
