(* ===== verification/If_Cdc.thy ===== *)
theory If_Cdc
  imports If_Events
begin

text \<open>
  \<open>ifmcu_firmware/src/modules/usb_cdc_handler.c\<close>: the USB side of the serial bridge. Bytes
  from the host are copied into blocks of a slab, one event each; the host's terminal
  (DTR and baud rate) is polled. The device table has one entry. The slab and the
  answers of the USB driver are arguments; the driver calls with an effect outside
  the module are kept in \<open>cd_calls\<close>.
\<close>

definition CDC_DEVICE_COUNT :: u8 where [wire_const]: "CDC_DEVICE_COUNT = 1"
definition USB_CDC_DTR_POLL_MS :: nat where "USB_CDC_DTR_POLL_MS = 500"
definition USB_CDC_RX_BLOCK_SIZE :: nat where [wire_const]: "USB_CDC_RX_BLOCK_SIZE = 512"
definition USB_CDC_RX_BLOCK_COUNT :: nat where [wire_const]: "USB_CDC_RX_BLOCK_COUNT = 3"
definition CDC_OVERFLOW_SIZE :: nat where [wire_const]: "CDC_OVERFLOW_SIZE = 64"

datatype cdc_call = Cdc_Fifo_Fill "u8 list" | Usb_Enable | Cdc_Rx_Enable | Dtr_Timer_Start nat | Dtr_Work_Submit

record 's cdc_env =
  ce_slab :: "'s slab_ops"
  ce_bulk_enable :: bool
  ce_usb_enable :: int
  ce_dev_ready :: bool

record 's usb_cdc =
  cd_slab :: 's
  cd_ready :: u32
  cd_baudrate :: u32
  cd_bulk_module_ready :: bool
  cd_calls :: "cdc_call list"

definition cdc_call_made :: "cdc_call \<Rightarrow> 's usb_cdc \<Rightarrow> 's usb_cdc" where
  "cdc_call_made k c = c\<lparr>cd_calls := cd_calls c @ [k]\<rparr>"

definition cdc_dtr_timer_handler :: "'s usb_cdc \<Rightarrow> 's usb_cdc" where
  [op_defs]: "cdc_dtr_timer_handler c = cdc_call_made Dtr_Work_Submit c"

section \<open>The host's terminal\<close>

text \<open>The two answers of \<open>uart_line_ctrl_get\<close>.\<close>

record line_ctrl =
  lc_dtr :: "int + u32"
  lc_baud_rate :: "int + u32"

definition poll_dtr :: "line_ctrl \<Rightarrow> 's usb_cdc \<Rightarrow> app_event list \<times> 's usb_cdc" where
  [op_defs]: "poll_dtr line c =
     (case lc_dtr line of
        Inl err \<Rightarrow> ([], c)
      | Inr cdc_val \<Rightarrow>
          (case lc_baud_rate line of
             Inl err \<Rightarrow> ([], c)
           | Inr baudrate \<Rightarrow>
               if cdc_val \<noteq> cd_ready c \<or> baudrate \<noteq> cd_baudrate c then
                 ([Peer_Conn \<lparr>pc_peer_id = PEER_ID_USB, pc_dev_idx = 0,
                     pc_conn_state = (if cdc_val = 0 then PEER_STATE_DISCONNECTED else PEER_STATE_CONNECTED),
                     pc_baudrate = baudrate, pc_conn_state_changed = (cdc_val \<noteq> cd_ready c)\<rparr>],
                  c\<lparr>cd_ready := cdc_val, cd_baudrate := baudrate\<rparr>)
               else ([], c)))"

definition cdc_dtr_work_handler :: "line_ctrl \<Rightarrow> 's usb_cdc \<Rightarrow> app_event list \<times> 's usb_cdc" where
  [op_defs]: "cdc_dtr_work_handler line c = poll_dtr line c"

section \<open>Bytes from the host\<close>

text \<open>
  \<open>reads\<close> are what \<open>uart_fifo_read\<close> yields, one list per call; \<open>None\<close> means that the loop
  makes more calls than there are answers. The overflow loop throws the bytes away.
\<close>

fun overflow_loop :: "u8 list list \<Rightarrow> u8 list list option" where
  "overflow_loop [] = None"
| "overflow_loop (d # ds) = (if length d = CDC_OVERFLOW_SIZE then overflow_loop ds else Some ds)"

fun cdc_rx_loop ::
  "'s slab_ops \<Rightarrow> u8 list list \<Rightarrow> memory \<Rightarrow> 's usb_cdc \<Rightarrow> (app_event list \<times> memory \<times> 's usb_cdc) option" where
  "cdc_rx_loop sl reads mem c =
     (case slab_alloc sl (cd_slab c) of
        (Inl err, s) \<Rightarrow>
          (case overflow_loop reads of None \<Rightarrow> None | Some rest \<Rightarrow> Some ([], mem, c\<lparr>cd_slab := s\<rparr>))
      | (Inr rx_buf, s) \<Rightarrow>
          (case reads of
             [] \<Rightarrow> None
           | d # ds \<Rightarrow>
               if d = [] then Some ([], mem, c\<lparr>cd_slab := slab_free sl rx_buf s\<rparr>)
               else
                 let event = Cdc_Data \<lparr>cde_dev_idx = 0, cde_buf = rx_buf, cde_len = of_nat (length d)\<rparr>;
                     mem1 = mem_write rx_buf d mem; c1 = c\<lparr>cd_slab := s\<rparr>
                 in if length d = USB_CDC_RX_BLOCK_SIZE
                    then (case cdc_rx_loop sl ds mem1 c1 of
                            None \<Rightarrow> None
                          | Some (evs, mem2, c2) \<Rightarrow> Some (event # evs, mem2, c2))
                    else Some ([event], mem1, c1)))"

declare cdc_rx_loop.simps [simp del]

definition cdc_uart_interrupt_handler ::
  "'s cdc_env \<Rightarrow> bool \<Rightarrow> line_ctrl \<Rightarrow> u8 list list \<Rightarrow> memory \<Rightarrow> 's usb_cdc \<Rightarrow>
   (app_event list \<times> memory \<times> 's usb_cdc) option" where
  [op_defs]: "cdc_uart_interrupt_handler env rx_ready line reads mem c =
     (if \<not> rx_ready then Some ([], mem, c)
      else
        let (conn, c1) = poll_dtr line c
        in case cdc_rx_loop (ce_slab env) reads mem c1 of
             None \<Rightarrow> None
           | Some (evs, mem2, c2) \<Rightarrow> Some (conn @ evs, mem2, c2))"

definition enable_rx_irq :: "'s usb_cdc \<Rightarrow> 's usb_cdc" where
  [op_defs]: "enable_rx_irq c = cdc_call_made Cdc_Rx_Enable c"

section \<open>USB status and events\<close>

datatype usb_dc_status =
  USB_DC_ERROR | USB_DC_RESET | USB_DC_CONNECTED | USB_DC_CONFIGURED | USB_DC_DISCONNECTED |
  USB_DC_SUSPEND | USB_DC_RESUME | USB_DC_OTHER

definition usbd_status :: "usb_dc_status \<Rightarrow> app_event list" where
  [op_defs]: "usbd_status st =
     (case st of
        USB_DC_CONNECTED \<Rightarrow> [module_set_state Module_Usb_Cdc MODULE_STATE_READY]
      | USB_DC_DISCONNECTED \<Rightarrow> [module_set_state Module_Usb_Cdc MODULE_STATE_STANDBY]
      | _ \<Rightarrow> [])"

definition cdc_on_uart_data :: "memory \<Rightarrow> uart_data_event \<Rightarrow> 's usb_cdc \<Rightarrow> bool \<times> 's usb_cdc" where
  [op_defs]: "cdc_on_uart_data mem e c =
     (if ude_dev_idx e \<ge> CDC_DEVICE_COUNT then (False, c)
      else if cd_ready c = 0 then (False, c)
      else (False, cdc_call_made (Cdc_Fifo_Fill (mem_read mem (ude_buf e) (unat (ude_len e)))) c))"

definition cdc_on_cdc_data :: "'s cdc_env \<Rightarrow> cdc_data_event \<Rightarrow> 's usb_cdc \<Rightarrow> bool \<times> 's usb_cdc" where
  [op_defs]: "cdc_on_cdc_data env e c = (True, c\<lparr>cd_slab := slab_free (ce_slab env) (cde_buf e) (cd_slab c)\<rparr>)"

definition cdc_on_module_state :: "'s cdc_env \<Rightarrow> module_state_event \<Rightarrow> 's usb_cdc \<Rightarrow> bool \<times> 's usb_cdc" where
  [op_defs]: "cdc_on_module_state env e c =
     (let c1 = (if ce_bulk_enable env \<and> check_state e Module_Bulk_Interface MODULE_STATE_STANDBY
                then c\<lparr>cd_bulk_module_ready := True\<rparr> else c)
      in if \<not> ce_bulk_enable env \<or> cd_bulk_module_ready c1 then
           (let c2 = cdc_call_made Usb_Enable c1
            in if ce_usb_enable env \<noteq> 0 then (False, c2)
               else
                 let c3 = c2\<lparr>cd_ready := 0\<rparr>;
                     c4 = (if ce_dev_ready env then enable_rx_irq c3 else c3)
                 in (False, cdc_call_made (Dtr_Timer_Start USB_CDC_DTR_POLL_MS) c4))
         else (False, c1))"

definition cdc_app_event_handler :: "'s cdc_env \<Rightarrow> memory \<Rightarrow> app_event \<Rightarrow> 's usb_cdc \<Rightarrow> bool \<times> 's usb_cdc" where
  [op_defs]: "cdc_app_event_handler env mem ev c =
     (case ev of
        Uart_Data e \<Rightarrow> cdc_on_uart_data mem e c
      | Cdc_Data e \<Rightarrow> cdc_on_cdc_data env e c
      | Module_State e \<Rightarrow> cdc_on_module_state env e c
      | Peer_Conn e \<Rightarrow> (False, c)
      | Power_Down e \<Rightarrow> (False, c))"

definition cdc_reset :: "'s \<Rightarrow> 's usb_cdc" where
  "cdc_reset s = \<lparr>cd_slab = s, cd_ready = 0, cd_baudrate = 0, cd_bulk_module_ready = False, cd_calls = []\<rparr>"

section \<open>Lemmas\<close>

lemma cdc_call_frame [simp]:
  "cd_slab (cdc_call_made k c) = cd_slab c" "cd_ready (cdc_call_made k c) = cd_ready c"
  "cd_baudrate (cdc_call_made k c) = cd_baudrate c"
  "cd_bulk_module_ready (cdc_call_made k c) = cd_bulk_module_ready c"
  "cd_calls (cdc_call_made k c) = cd_calls c @ [k]"
  by (simp_all add: cdc_call_made_def)

lemma poll_dtr_frame [simp]:
  "cd_slab (snd (poll_dtr line c)) = cd_slab c" "cd_calls (snd (poll_dtr line c)) = cd_calls c"
  by (simp_all add: poll_dtr_def split: sum.split)

lemma cdc_uart_data_frame [simp]: "cd_slab (snd (cdc_on_uart_data mem e c)) = cd_slab c"
  by (simp add: cdc_on_uart_data_def)

lemma cdc_module_state_frame [simp]: "cd_slab (snd (cdc_on_module_state env e c)) = cd_slab c"
  by (simp add: cdc_on_module_state_def enable_rx_irq_def Let_def)

end
