(* ===== verification/If_Bridge.thy ===== *)
theory If_Bridge
  imports If_Buffers If_Cdc
begin

text \<open>
  The two directions of the interface MCU's serial bridge as one system:
  \<open>uart_handler.c\<close> and \<open>usb_cdc_handler.c\<close>, the memory of their slabs, the queue of
  application events between them, and the UART driver. A step is a callback of a
  driver, a poll, or the delivery of the oldest event to both modules. The
  subscriptions of the sources fix the order in a delivery: the module that frees an
  event's buffer is subscribed with \<open>APP_EVENT_SUBSCRIBE_FINAL\<close> and runs after the one
  that reads it.

  \<open>br_held\<close> are the receive buffers the UART driver has, by block number, with the bytes
  it has reported in each; the driver fills its first buffer from the front and never
  rewrites a byte it has reported. The last four fields are history: the bytes received
  by the UART, the deliveries of them with whether the host's terminal was open, the bytes
  taken from the host, and the deliveries of them with the room in the transmit ring.
\<close>

record ('u, 'r, 'c) bridge =
  br_uart :: "('u, 'r) uart"
  br_cdc :: "'c usb_cdc"
  br_mem :: memory
  br_queue :: "app_event list"
  br_held :: "(nat \<times> nat) list"
  br_received :: "u8 list"
  br_usb_log :: "(u8 list \<times> bool) list"
  br_from_host :: "u8 list"
  br_uart_log :: "(u8 list \<times> nat) list"

section \<open>Steps\<close>

definition uart_bytes :: "memory \<Rightarrow> app_event \<Rightarrow> u8 list" where
  "uart_bytes mem ev = (case ev of Uart_Data e \<Rightarrow> mem_read mem (ude_buf e) (unat (ude_len e)) | _ \<Rightarrow> [])"

definition cdc_bytes :: "memory \<Rightarrow> app_event \<Rightarrow> u8 list" where
  "cdc_bytes mem ev = (case ev of Cdc_Data e \<Rightarrow> mem_read mem (cde_buf e) (unat (cde_len e)) | _ \<Rightarrow> [])"

text \<open>What a delivery adds to the history, from the states of the modules before it.\<close>

definition usb_entry :: "memory \<Rightarrow> 'c usb_cdc \<Rightarrow> app_event \<Rightarrow> (u8 list \<times> bool) list" where
  "usb_entry mem c ev = (case ev of Uart_Data e \<Rightarrow> [(uart_bytes mem ev, cd_ready c \<noteq> 0)] | _ \<Rightarrow> [])"

definition uart_entry :: "('u, 'r) uart_env \<Rightarrow> memory \<Rightarrow> ('u, 'r) uart \<Rightarrow> app_event \<Rightarrow> (u8 list \<times> nat) list" where
  "uart_entry ue mem h ev =
     (case ev of Cdc_Data e \<Rightarrow> [(cdc_bytes mem ev, UART_BUF_SIZE - ring_used (ue_ring ue) (uh_ring h))] | _ \<Rightarrow> [])"

definition is_cdc_data :: "app_event \<Rightarrow> bool" where
  "is_cdc_data ev \<longleftrightarrow> (case ev of Cdc_Data e \<Rightarrow> True | _ \<Rightarrow> False)"

text \<open>The bytes of the reads that became events; the others met a full slab.\<close>

definition reads_kept :: "app_event list \<Rightarrow> u8 list list \<Rightarrow> u8 list" where
  "reads_kept evs reads = concat (take (length (filter is_cdc_data evs)) reads)"

definition fresh :: "nat list \<Rightarrow> (nat \<times> nat) list" where
  "fresh ks = map (\<lambda>k. (k, 0)) ks"

inductive bridge_step ::
  "('u, 'r) uart_env \<Rightarrow> 'c cdc_env \<Rightarrow> ('u, 'r, 'c) bridge \<Rightarrow> ('u, 'r, 'c) bridge \<Rightarrow> bool" for ue ce where
  uart_ready: "br_held s = (k, n) # rest \<Longrightarrow> bs \<noteq> [] \<Longrightarrow> n + length bs \<le> UART_BUF_SIZE \<Longrightarrow>
    buf = rx_buf_field (uart_block (ue_base ue) k) \<Longrightarrow>
    uart_callback ue (UART_RX_RDY buf (of_nat n) (of_nat (length bs))) (br_uart s) = (evs, h) \<Longrightarrow>
    bridge_step ue ce s (s\<lparr>br_mem := mem_write (buf + of_nat n) bs (br_mem s), br_uart := h,
      br_queue := br_queue s @ evs, br_held := (k, n + length bs) # rest, br_received := br_received s @ bs\<rparr>)"
| uart_released: "br_held s = xs @ (k, n) # ys \<Longrightarrow>
    uart_callback ue (UART_RX_BUF_RELEASED (rx_buf_field (uart_block (ue_base ue) k))) (br_uart s) = (evs, h) \<Longrightarrow>
    bridge_step ue ce s (s\<lparr>br_uart := h, br_queue := br_queue s @ evs, br_held := xs @ ys\<rparr>)"
| uart_other: "\<not> names_buffer ev \<Longrightarrow> e = ue\<lparr>ue_ret := ret\<rparr> \<Longrightarrow> uart_callback e ev (br_uart s) = (evs, h) \<Longrightarrow>
    bridge_step ue ce s (s\<lparr>br_uart := h, br_queue := br_queue s @ evs,
      br_held := br_held s @ fresh (buffers_taken e (br_uart s) h)\<rparr>)"
| deliver: "br_queue s = ev # q \<Longrightarrow> e = ue\<lparr>ue_ret := ret, ue_config := cfg\<rparr> \<Longrightarrow>
    h = snd (uart_app_event_handler e (br_mem s) ev (br_uart s)) \<Longrightarrow>
    bridge_step ue ce s (s\<lparr>br_uart := h, br_cdc := snd (cdc_app_event_handler ce (br_mem s) ev (br_cdc s)),
      br_queue := q, br_held := br_held s @ fresh (buffers_taken e (br_uart s) h),
      br_usb_log := br_usb_log s @ usb_entry (br_mem s) (br_cdc s) ev,
      br_uart_log := br_uart_log s @ uart_entry ue (br_mem s) (br_uart s) ev\<rparr>)"
| cdc_interrupt: "list_all (\<lambda>d. length d \<le> USB_CDC_RX_BLOCK_SIZE) reads \<Longrightarrow>
    cdc_uart_interrupt_handler ce rx_ready line reads (br_mem s) (br_cdc s) = Some (evs, mem, c) \<Longrightarrow>
    bridge_step ue ce s (s\<lparr>br_mem := mem, br_cdc := c, br_queue := br_queue s @ evs,
      br_from_host := br_from_host s @ reads_kept evs reads\<rparr>)"
| cdc_poll: "cdc_dtr_work_handler line (br_cdc s) = (evs, c) \<Longrightarrow>
    bridge_step ue ce s (s\<lparr>br_cdc := c, br_queue := br_queue s @ evs\<rparr>)"
| usb_status: "bridge_step ue ce s (s\<lparr>br_queue := br_queue s @ usbd_status st\<rparr>)"
| module_state: "bridge_step ue ce s (s\<lparr>br_queue := br_queue s @ [Module_State e]\<rparr>)"

inductive bridge_reach ::
  "('u, 'r) uart_env \<Rightarrow> 'c cdc_env \<Rightarrow> ('u, 'r, 'c) bridge \<Rightarrow> ('u, 'r, 'c) bridge \<Rightarrow> bool" for ue ce where
  bridge_refl: "bridge_reach ue ce s s"
| bridge_next: "bridge_reach ue ce s t \<Longrightarrow> bridge_step ue ce t u \<Longrightarrow> bridge_reach ue ce s u"

lemma bridge_reach_ind:
  "bridge_reach ue ce s t \<Longrightarrow> P s \<Longrightarrow>
    (\<And>t u. bridge_reach ue ce s t \<Longrightarrow> P t \<Longrightarrow> bridge_step ue ce t u \<Longrightarrow> P u) \<Longrightarrow> P t"
  by (induct rule: bridge_reach.induct) blast+

interpretation bridge: reach_system "bridge_step ue ce" "bridge_reach ue ce" for ue ce
  by unfold_locales (rule bridge_refl, erule (1) bridge_next, erule (1) bridge_reach_ind)

definition bridge_boot :: "'u \<Rightarrow> 'r \<Rightarrow> 'c \<Rightarrow> memory \<Rightarrow> ('u, 'r, 'c) bridge" where
  "bridge_boot us r cs mem = \<lparr>br_uart = uart_reset us r, br_cdc = cdc_reset cs, br_mem = mem, br_queue = [],
     br_held = [], br_received = [], br_usb_log = [], br_from_host = [], br_uart_log = []\<rparr>"

section \<open>The receive buffers\<close>

fun uart_events :: "app_event list \<Rightarrow> uart_data_event list" where
  "uart_events [] = []"
| "uart_events (Uart_Data e # q) = e # uart_events q"
| "uart_events (_ # q) = uart_events q"

lemma uart_events_append [simp]: "uart_events (p @ q) = uart_events p @ uart_events q"
  by (induction p rule: uart_events.induct) simp_all

lemma uart_events_none: "\<not> is_uart_data ev \<Longrightarrow> uart_events (ev # q) = uart_events q"
  by (cases ev) (simp_all add: is_uart_data_def)

definition in_block :: "u32 \<Rightarrow> nat \<Rightarrow> uart_data_event list \<Rightarrow> uart_data_event list" where
  "in_block base k es = filter (\<lambda>e. block_number base (ude_buf e) = k) es"

definition block_load :: "u32 \<Rightarrow> nat \<Rightarrow> uart_data_event list \<Rightarrow> nat" where
  "block_load base k es = sum_list (map (\<lambda>e. unat (ude_len e)) (in_block base k es))"

definition block_owners :: "u32 \<Rightarrow> (nat \<times> nat) list \<Rightarrow> uart_data_event list \<Rightarrow> nat \<Rightarrow> nat" where
  "block_owners base held es k = length (filter (\<lambda>p. fst p = k) held) + length (in_block base k es)"

text \<open>Where in its block an event's bytes are.\<close>

definition event_pos :: "u32 \<Rightarrow> uart_data_event \<Rightarrow> nat" where
  "event_pos base e = slab_offset base (ude_buf e) mod UART_SLAB_BLOCK_SIZE"

text \<open>An event is well placed: its bytes are in the data area of one block of the slab.\<close>

definition event_placed :: "u32 \<Rightarrow> uart_data_event \<Rightarrow> bool" where
  "event_placed base e \<longleftrightarrow> block_number base (ude_buf e) < UART_SLAB_BLOCK_COUNT \<and> 0 < unat (ude_len e) \<and>
     8 \<le> event_pos base e \<and> event_pos base e + unat (ude_len e) \<le> UART_SLAB_BLOCK_SIZE"

definition rx_ok ::
  "('u \<Rightarrow> u32 set) \<Rightarrow> u32 \<Rightarrow> ('u, 'r) uart \<Rightarrow> (nat \<times> nat) list \<Rightarrow> uart_data_event list \<Rightarrow> bool" where
  "rx_ok free base h held es \<longleftrightarrow>
     (\<forall>(k, n)\<in>set held. k < UART_SLAB_BLOCK_COUNT \<and> n \<le> UART_BUF_SIZE \<and> block_load base k es \<le> n) \<and>
     distinct (map fst held) \<and>
     (\<forall>e\<in>set es. event_placed base e) \<and>
     (\<forall>k<UART_SLAB_BLOCK_COUNT. block_load base k es \<le> UART_BUF_SIZE) \<and>
     refs_ok free base (block_owners base held es) h \<and>
     (\<forall>e\<in>set es. \<forall>(k, n)\<in>set held. block_number base (ude_buf e) = k \<longrightarrow>
        event_pos base e + unat (ude_len e) \<le> 8 + n)"

definition rx_inv :: "('u \<Rightarrow> u32 set) \<Rightarrow> u32 \<Rightarrow> ('u, 'r, 'c) bridge \<Rightarrow> bool" where
  "rx_inv free base s \<longleftrightarrow> rx_ok free base (br_uart s) (br_held s) (uart_events (br_queue s))"

lemma in_block_simps [simp]:
  "in_block base k [] = []"
  "in_block base k (e # es) = (if block_number base (ude_buf e) = k then e # in_block base k es else in_block base k es)"
  "in_block base k (es @ fs) = in_block base k es @ in_block base k fs"
  by (simp_all add: in_block_def)

lemma block_load_simps [simp]:
  "block_load base k [] = 0"
  "block_load base k (e # es) = (if block_number base (ude_buf e) = k then unat (ude_len e) else 0) + block_load base k es"
  "block_load base k (es @ fs) = block_load base k es + block_load base k fs"
  by (simp_all add: block_load_def)

text \<open>An event has at least one byte, so a block has at most as many events as bytes.\<close>

lemma in_block_count:
  "\<forall>e\<in>set es. event_placed base e \<Longrightarrow> length (in_block base k es) \<le> block_load base k es"
  by (induction es) (auto simp: event_placed_def Suc_leI intro: add_mono)

lemma held_count:
  "distinct (map fst held) \<Longrightarrow> length (filter (\<lambda>p. fst p = k) held) = (if k \<in> fst ` set held then 1 else 0)"
  by (induction held) auto

lemma owners_small:
  assumes "rx_ok free base h held es" "k < UART_SLAB_BLOCK_COUNT"
  shows "block_owners base held es k < 2 ^ 32 - 1"
proof -
  have "length (in_block base k es) \<le> 512"
    using assms in_block_count [of es base k] by (fastforce simp: rx_ok_def wire_const)
  moreover have "length (filter (\<lambda>p. fst p = k) held) \<le> 1"
    using assms held_count [of held k] by (simp add: rx_ok_def)
  ultimately show ?thesis
    by (simp add: block_owners_def)
qed

lemma no_owners:
  assumes "rx_ok free base h held es" "block_owners base held es k = 0"
  shows "k \<notin> fst ` set held" "in_block base k es = []" "block_load base k es = 0"
  using assms by (auto simp: block_owners_def block_load_def filter_empty_conv)

lemma rx_ok_hands_over:
  assumes ok: "rx_ok free (ue_base e) h held es" and over: "hands_over free e h h'"
  shows "rx_ok free (ue_base e) h' (held @ fresh (buffers_taken e h h')) es"
proof -
  have "refs_ok free (ue_base e) (block_owners (ue_base e) held es) h"
    using ok by (simp add: rx_ok_def)
  then consider "buffers_taken e h h' = []" "refs_ok free (ue_base e) (block_owners (ue_base e) held es) h'"
    | k where "k < UART_SLAB_BLOCK_COUNT" "buffers_taken e h h' = [k]" "block_owners (ue_base e) held es k = 0"
        "refs_ok free (ue_base e) ((block_owners (ue_base e) held es)(k := 1)) h'"
    using over unfolding hands_over_def by blast
  then show ?thesis
  proof cases
    case 1
    then show ?thesis using ok by (simp add: rx_ok_def fresh_def)
  next
    case (2 k)
    note none = no_owners [OF ok 2(3)]
    have "refs_ok free (ue_base e) (block_owners (ue_base e) (held @ [(k, 0)]) es) h'"
      by (rule refs_ok_owners [OF 2(4)]) (use 2(3) in \<open>simp add: block_owners_def\<close>)
    moreover have "block_number (ue_base e) (ude_buf ev) \<noteq> k" if "ev \<in> set es" for ev
      using none(2) that by (auto simp: in_block_def filter_empty_conv)
    ultimately show ?thesis
      using ok none 2(1) by (auto simp: rx_ok_def fresh_def 2(2) wire_const)
  qed
qed

text \<open>A report of received bytes.\<close>

lemma report_placed:
  assumes "k < UART_SLAB_BLOCK_COUNT" "0 < m" "n + m \<le> UART_BUF_SIZE"
    "e = \<lparr>ude_dev_idx = 0, ude_buf = rx_buf_field (uart_block base k) + of_nat n, ude_len = of_nat m\<rparr>"
  shows "block_number base (ude_buf e) = k" "event_pos base e = 8 + n" "unat (ude_len e) = m" "event_placed base e"
proof -
  have at: "ude_buf e = uart_block base k + of_nat (8 + n)"
    by (simp add: assms(4) rx_buf_field_def)
  have off: "ude_buf e = base + of_nat (k * 520 + (8 + n))"
    by (simp add: at uart_block_def wire_const)
  have j: "8 + n < UART_SLAB_BLOCK_SIZE"
    using assms(2,3) by (simp add: wire_const)
  show 1: "block_number base (ude_buf e) = k"
    unfolding at by (rule block_number_add [OF j assms(1)])
  have "k * 520 + (8 + n) < 2 ^ 32"
    using assms(1) j by (simp add: wire_const)
  then have "slab_offset base (ude_buf e) = k * 520 + (8 + n)"
    unfolding off by (rule slab_offset_add)
  then show 2: "event_pos base e = 8 + n"
    using j by (simp add: event_pos_def wire_const)
  have "m < 2 ^ LENGTH(32)"
    using assms(3) by (simp add: wire_const)
  then show 3: "unat (ude_len e) = m"
    unfolding assms(4) by (simp only: uart_data_event.simps of_nat_unat_small)
  show "event_placed base e"
    unfolding event_placed_def 1 2 3 using assms by (simp add: wire_const)
qed

lemma rx_ok_ready:
  assumes spec: "slab_spec (ue_slab ue) free (uart_blocks (ue_base ue))"
    and ok: "rx_ok free (ue_base ue) h ((k, n) # rest) es" and bs: "0 < m" "n + m \<le> UART_BUF_SIZE"
    and buf: "buf = rx_buf_field (uart_block (ue_base ue) k)"
    and cb: "uart_callback ue (UART_RX_RDY buf (of_nat n) (of_nat m)) h = (evs, h')"
  shows "rx_ok free (ue_base ue) h' ((k, n + m) # rest) (es @ uart_events evs)"
    and "evs = [Uart_Data \<lparr>ude_dev_idx = 0, ude_buf = buf + of_nat n, ude_len = of_nat m\<rparr>]"
proof -
  let ?base = "ue_base ue"
  define e where "e = \<lparr>ude_dev_idx = 0, ude_buf = buf + of_nat n, ude_len = of_nat m\<rparr>"
  have k: "k < UART_SLAB_BLOCK_COUNT"
    using ok by (simp add: rx_ok_def)
  note placed = report_placed [OF k bs e_def [unfolded buf]]
  have evs: "evs = [Uart_Data e]" and h': "h' = uart_rx_buf_ref ue buf h"
    using cb by (simp_all add: uart_callback_def e_def)
  then show "evs = [Uart_Data \<lparr>ude_dev_idx = 0, ude_buf = buf + of_nat n, ude_len = of_nat m\<rparr>]"
    by (simp add: e_def)
  have refs: "refs_ok free ?base (block_owners ?base ((k, n) # rest) es) h"
    using ok by (simp add: rx_ok_def)
  have num: "block_number ?base buf = k"
    by (simp add: buf k)
  have own: "0 < block_owners ?base ((k, n) # rest) es k"
    by (simp add: block_owners_def)
  have "refs_ok free ?base (block_owners ?base ((k, n + m) # rest) (es @ [e])) h'"
    unfolding h' by (rule refs_ok_owners [OF rx_ref_ok [OF refs num k own]])
      (use placed(1) in \<open>simp add: block_owners_def\<close>)
  moreover have "k \<notin> fst ` set rest"
    using ok by (simp add: rx_ok_def)
  then have other: "j \<noteq> k" if "(j, l) \<in> set rest" for j l
    using that by force
  moreover have "\<forall>(j, l)\<in>set ((k, n + m) # rest). j < UART_SLAB_BLOCK_COUNT \<and> l \<le> UART_BUF_SIZE \<and>
      block_load ?base j (es @ [e]) \<le> l"
  proof (rule ballI, clarify)
    fix j l assume jl: "(j, l) \<in> set ((k, n + m) # rest)"
    show "j < UART_SLAB_BLOCK_COUNT \<and> l \<le> UART_BUF_SIZE \<and> block_load ?base j (es @ [e]) \<le> l"
    proof (cases "(j, l) \<in> set rest")
      case True
      then show ?thesis using ok other [OF True] placed(1) by (auto simp: rx_ok_def)
    next
      case False
      then have "j = k" "l = n + m" using jl by simp_all
      then show ?thesis using ok placed(1,3) bs(2) by (simp add: rx_ok_def)
    qed
  qed
  moreover have "block_load ?base j (es @ [e]) \<le> UART_BUF_SIZE" if "j < UART_SLAB_BLOCK_COUNT" for j
  proof (cases "j = k")
    case True
    then show ?thesis using ok placed(1,3) bs(2) by (simp add: rx_ok_def)
  next
    case False
    then show ?thesis using ok that placed(1) by (simp add: rx_ok_def)
  qed
  moreover have "\<forall>d\<in>set (es @ [e]). \<forall>(j, l)\<in>set ((k, n + m) # rest). block_number ?base (ude_buf d) = j \<longrightarrow>
      event_pos ?base d + unat (ude_len d) \<le> 8 + l"
  proof (intro ballI, clarify)
    fix d l assume d: "d \<in> set (es @ [e])" and jl: "(block_number ?base (ude_buf d), l) \<in> set ((k, n + m) # rest)"
    show "event_pos ?base d + unat (ude_len d) \<le> 8 + l"
    proof (cases "d \<in> set es")
      case True
      then have old: "event_pos ?base d + unat (ude_len d) \<le> 8 + l'"
        if "(block_number ?base (ude_buf d), l') \<in> set ((k, n) # rest)" for l'
        using ok that by (auto simp: rx_ok_def)
      show ?thesis
        using jl old [of n] old [of l] by auto
    next
      case False
      then have "d = e" using d by simp
      then have "l = n + m" using jl other placed(1) by auto
      then show ?thesis using \<open>d = e\<close> placed(2,3) by simp
    qed
  qed
  ultimately show "rx_ok free ?base h' ((k, n + m) # rest) (es @ uart_events evs)"
    using ok placed(4) unfolding rx_ok_def evs by simp
qed

lemma rx_ok_released:
  assumes spec: "slab_spec (ue_slab ue) free (uart_blocks (ue_base ue))"
    and ok: "rx_ok free (ue_base ue) h (xs @ (k, n) # ys) es"
    and nz: "rx_buf_field (uart_block (ue_base ue) k) \<noteq> 0"
    and cb: "uart_callback ue (UART_RX_BUF_RELEASED (rx_buf_field (uart_block (ue_base ue) k))) h = (evs, h')"
  shows "rx_ok free (ue_base ue) h' (xs @ ys) es" "evs = []"
proof -
  let ?base = "ue_base ue" and ?held = "xs @ (k, n) # ys"
  have k: "k < UART_SLAB_BLOCK_COUNT"
    using ok by (simp add: rx_ok_def)
  have refs: "refs_ok free ?base (block_owners ?base ?held es) h"
    using ok by (simp add: rx_ok_def)
  have own: "0 < block_owners ?base ?held es k" "block_owners ?base ?held es k < 2 ^ 32"
    using owners_small [OF ok k] by (simp_all add: block_owners_def)
  show "evs = []"
    using cb by (simp add: uart_callback_def)
  have h': "h' = uart_rx_buf_unref ue (rx_buf_field (uart_block ?base k)) h"
    using cb nz by (simp add: uart_callback_def)
  have "refs_ok free ?base (block_owners ?base (xs @ ys) es) h'"
    unfolding h' by (rule refs_ok_owners [OF rx_unref_ok [OF spec refs block_number_field [OF k] k own]])
      (simp add: block_owners_def)
  then show "rx_ok free ?base h' (xs @ ys) es"
    using ok by (simp add: rx_ok_def ball_Un)
qed

lemma rx_ok_uart_data:
  assumes spec: "slab_spec (ue_slab env) free (uart_blocks (ue_base env))"
    and ok: "rx_ok free (ue_base env) h held (e # es)"
  shows "rx_ok free (ue_base env) (snd (uart_on_uart_data env e h)) held es"
    and "buffers_taken env h (snd (uart_on_uart_data env e h)) = []"
proof -
  let ?base = "ue_base env" and ?k = "block_number (ue_base env) (ude_buf e)"
  let ?h1 = "uart_call_made (Uart_Led LED_STATE_BLINK) h"
  have k: "?k < UART_SLAB_BLOCK_COUNT"
    using ok by (simp add: rx_ok_def event_placed_def)
  have refs: "refs_ok free ?base (block_owners ?base held (e # es)) ?h1"
    using ok by (intro refs_ok_cong [of ?h1 h]) (simp_all add: rx_ok_def)
  have own: "0 < block_owners ?base held (e # es) ?k" "block_owners ?base held (e # es) ?k < 2 ^ 32"
    using owners_small [OF ok k] by (simp_all add: block_owners_def)
  have "refs_ok free ?base (block_owners ?base held es) (snd (uart_on_uart_data env e h))"
    using refs_ok_owners [OF rx_unref_ok [OF spec refs refl k own], of "block_owners ?base held es"]
    by (simp add: uart_on_uart_data_def block_owners_def)
  then show "rx_ok free ?base (snd (uart_on_uart_data env e h)) held es"
    using ok by (fastforce simp: rx_ok_def)
  show "buffers_taken env h (snd (uart_on_uart_data env e h)) = []"
    by (simp add: buffers_taken_def uart_on_uart_data_def uart_rx_buf_unref_def Let_def)
qed

section \<open>Memory of the receive buffers\<close>

lemma event_offset:
  "slab_offset base (ude_buf e) = block_number base (ude_buf e) * UART_SLAB_BLOCK_SIZE + event_pos base e"
  by (simp add: block_number_def event_pos_def)

lemma event_range:
  assumes "event_placed base e"
  shows "mem_range (ude_buf e) (unat (ude_len e)) \<subseteq> mem_range base slab_size"
proof -
  have "slab_offset base (ude_buf e) + unat (ude_len e) \<le> slab_size"
    using assms event_offset [of base e] by (simp add: event_placed_def wire_const)
  from mem_range_sub [OF this, of base] show ?thesis
    by (simp add: slab_offset_base)
qed

lemma report_range:
  assumes "k < UART_SLAB_BLOCK_COUNT" "n + m \<le> UART_BUF_SIZE"
  shows "mem_range (rx_buf_field (uart_block base k) + of_nat n) m =
      mem_range (base + of_nat (k * UART_SLAB_BLOCK_SIZE + (8 + n))) m"
    and "mem_range (rx_buf_field (uart_block base k) + of_nat n) m \<subseteq> mem_range base slab_size"
proof -
  have at: "rx_buf_field (uart_block base k) + of_nat n = base + of_nat (k * UART_SLAB_BLOCK_SIZE + (8 + n))"
    by (simp add: rx_buf_field_def uart_block_def)
  show "mem_range (rx_buf_field (uart_block base k) + of_nat n) m =
      mem_range (base + of_nat (k * UART_SLAB_BLOCK_SIZE + (8 + n))) m"
    by (simp only: at)
  show "mem_range (rx_buf_field (uart_block base k) + of_nat n) m \<subseteq> mem_range base slab_size"
    unfolding at by (rule mem_range_sub) (use assms in \<open>simp add: wire_const\<close>)
qed

text \<open>A report writes no byte of a pending event.\<close>

lemma report_apart:
  assumes ok: "rx_ok free base h ((k, n) # rest) es" and e: "e \<in> set es" and m: "n + m \<le> UART_BUF_SIZE"
  shows "mem_range (ude_buf e) (unat (ude_len e)) \<inter> mem_range (rx_buf_field (uart_block base k) + of_nat n) m = {}"
proof -
  let ?j = "block_number base (ude_buf e)" and ?p = "event_pos base e" and ?l = "unat (ude_len e)"
  have k: "k < 3" and j: "?j < 3" "8 \<le> ?p" "?p + ?l \<le> 520" and same: "?j = k \<Longrightarrow> ?p + ?l \<le> 8 + n"
    using ok e by (auto simp: rx_ok_def event_placed_def wire_const)
  have m': "n + m \<le> 512"
    using m by (simp add: wire_const)
  have "?j * 520 + ?p + ?l \<le> k * 520 + (8 + n) \<or> k * 520 + (8 + n) + m \<le> ?j * 520 + ?p"
  proof (cases "?j = k")
    case True
    then show ?thesis using same by simp
  next
    case False
    then consider "?j + 1 \<le> k" | "k + 1 \<le> ?j" by linarith
    then show ?thesis
    proof cases
      case 1
      then have "(?j + 1) * 520 \<le> k * 520" by (rule mult_le_mono1)
      with j show ?thesis by simp
    next
      case 2
      then have "(k + 1) * 520 \<le> ?j * 520" by (rule mult_le_mono1)
      with m' j show ?thesis by simp
    qed
  qed
  then have "mem_range (base + of_nat (?j * 520 + ?p)) ?l \<inter> mem_range (base + of_nat (k * 520 + (8 + n))) m = {}"
    by (rule mem_range_apart) (use j k m' in simp_all)
  moreover have "ude_buf e = base + of_nat (?j * 520 + ?p)"
    using slab_offset_base [of base "ude_buf e"] event_offset [of base e] by (simp add: wire_const)
  moreover have "mem_range (rx_buf_field (uart_block base k) + of_nat n) m = mem_range (base + of_nat (k * 520 + (8 + n))) m"
    using report_range(1) [of k n m base] k m by (simp add: wire_const)
  ultimately show ?thesis by simp
qed

section \<open>The blocks of the USB side\<close>

fun cdc_events :: "app_event list \<Rightarrow> cdc_data_event list" where
  "cdc_events [] = []"
| "cdc_events (Cdc_Data e # q) = e # cdc_events q"
| "cdc_events (_ # q) = cdc_events q"

lemma cdc_events_append [simp]: "cdc_events (p @ q) = cdc_events p @ cdc_events q"
  by (induction p rule: cdc_events.induct) simp_all

text \<open>Every block in use holds the bytes of one pending event.\<close>

definition cdc_ok :: "('c \<Rightarrow> u32 set) \<Rightarrow> u32 set \<Rightarrow> 'c usb_cdc \<Rightarrow> cdc_data_event list \<Rightarrow> bool" where
  "cdc_ok free blocks c es \<longleftrightarrow> distinct (map cde_buf es) \<and> cde_buf ` set es = blocks - free (cd_slab c) \<and>
     (\<forall>e\<in>set es. 0 < unat (cde_len e) \<and> unat (cde_len e) \<le> USB_CDC_RX_BLOCK_SIZE)"

definition cdc_apart :: "u32 set \<Rightarrow> bool" where
  "cdc_apart blocks \<longleftrightarrow> (\<forall>a\<in>blocks. \<forall>b\<in>blocks. a \<noteq> b \<longrightarrow>
     mem_range a USB_CDC_RX_BLOCK_SIZE \<inter> mem_range b USB_CDC_RX_BLOCK_SIZE = {})"

lemma mem_range_shorter: "n \<le> m \<Longrightarrow> mem_range a n \<subseteq> mem_range a m"
  by (auto simp: mem_range_def)

lemma cdc_ok_alloc:
  assumes spec: "slab_spec sl free blocks" and ok: "cdc_ok free blocks c es"
    and alloc: "slab_alloc sl (cd_slab c) = (Inr b, s)" and len: "0 < m" "m \<le> USB_CDC_RX_BLOCK_SIZE"
  shows "cdc_ok free blocks (c\<lparr>cd_slab := s\<rparr>) (es @ [\<lparr>cde_dev_idx = 0, cde_buf = b, cde_len = of_nat m\<rparr>])"
    and "b \<in> blocks" "b \<notin> cde_buf ` set es"
proof -
  note a = slab_alloc_ok [OF spec alloc]
  have m: "unat (of_nat m :: u32) = m"
    using len(2) by (intro of_nat_unat_small) (simp add: wire_const)
  show "b \<in> blocks" by (rule a(3))
  show new: "b \<notin> cde_buf ` set es"
    using ok a(1) by (auto simp: cdc_ok_def)
  show "cdc_ok free blocks (c\<lparr>cd_slab := s\<rparr>) (es @ [\<lparr>cde_dev_idx = 0, cde_buf = b, cde_len = of_nat m\<rparr>])"
    using ok new a len m by (auto simp: cdc_ok_def)
qed

lemma cdc_rx_loop_ok:
  assumes spec: "slab_spec sl free blocks" and apart: "cdc_apart blocks"
  shows "cdc_rx_loop sl reads mem c = Some (evs, mem', c') \<Longrightarrow>
    list_all (\<lambda>d. length d \<le> USB_CDC_RX_BLOCK_SIZE) reads \<Longrightarrow> cdc_ok free blocks c es \<Longrightarrow>
    cdc_ok free blocks c' (es @ cdc_events evs) \<and> list_all is_cdc_data evs \<and>
    concat (map (cdc_bytes mem') evs) = concat (take (length evs) reads) \<and>
    (\<forall>x. (\<forall>b\<in>blocks. b \<notin> cde_buf ` set es \<longrightarrow> x \<notin> mem_range b USB_CDC_RX_BLOCK_SIZE) \<longrightarrow> mem' x = mem x)"
proof (induction reads arbitrary: mem c evs mem' c' es)
  case Nil
  obtain r s where alloc: "slab_alloc sl (cd_slab c) = (r, s)"
    by (cases "slab_alloc sl (cd_slab c)")
  then show ?case
    using Nil(1) by (simp add: cdc_rx_loop.simps split: sum.splits)
next
  case (Cons d ds)
  obtain r s where alloc: "slab_alloc sl (cd_slab c) = (r, s)"
    by (cases "slab_alloc sl (cd_slab c)")
  show ?case
  proof (cases r)
    case (Inl err)
    then have "evs = []" "mem' = mem" "c' = c\<lparr>cd_slab := s\<rparr>"
      using Cons.prems(1) alloc by (auto simp: cdc_rx_loop.simps [of sl "d # ds"] split: option.splits if_splits)
    then show ?thesis
      using slab_alloc_fail [OF spec] alloc Inl Cons.prems(3) by (simp add: cdc_ok_def)
  next
    case (Inr b)
    note al = slab_alloc_ok [OF spec alloc [unfolded Inr]]
    show ?thesis
    proof (cases "d = []")
      case True
      then have "evs = []" "mem' = mem" "c' = c\<lparr>cd_slab := slab_free sl b s\<rparr>"
        using Cons.prems(1) alloc Inr by (simp_all add: cdc_rx_loop.simps [of sl "[] # ds"])
      moreover have "free (slab_free sl b s) = free (cd_slab c)"
        using slab_free_ok [OF spec al(3), of s] al(1,2) by auto
      ultimately show ?thesis
        using Cons.prems(3) by (simp add: cdc_ok_def)
    next
      case ne: False
      define e where "e = \<lparr>cde_dev_idx = 0, cde_buf = b, cde_len = of_nat (length d)\<rparr>"
      define c1 where "c1 = c\<lparr>cd_slab := s\<rparr>"
      define mem1 where "mem1 = mem_write b d mem"
      have len: "0 < length d" "length d \<le> USB_CDC_RX_BLOCK_SIZE"
        using ne Cons.prems(2) by simp_all
      note ok1 = cdc_ok_alloc [OF spec Cons.prems(3) alloc [unfolded Inr] len, folded e_def c1_def]
      have mlen: "unat (cde_len e) = length d"
        unfolding e_def cdc_data_event.simps by (rule of_nat_unat_small) (use len(2) in \<open>simp add: wire_const\<close>)
      have bytes: "mem_read mem1 b (length d) = d"
        unfolding mem1_def by (rule mem_read_write) (use len(2) in \<open>simp add: wire_const\<close>)
      have out: "mem1 x = mem x" if "x \<notin> mem_range b USB_CDC_RX_BLOCK_SIZE" for x
        unfolding mem1_def by (rule mem_write_other) (use that mem_range_shorter [OF len(2), of b] in auto)
      have sub: "list_all (\<lambda>d. length d \<le> USB_CDC_RX_BLOCK_SIZE) ds"
        using Cons.prems(2) by simp
      show ?thesis
      proof (cases "length d = USB_CDC_RX_BLOCK_SIZE")
        case True
        then obtain evs' where rec: "cdc_rx_loop sl ds mem1 c1 = Some (evs', mem', c')" "evs = Cdc_Data e # evs'"
          using Cons.prems(1) ne alloc Inr
          by (auto simp: cdc_rx_loop.simps [of sl "d # ds"] e_def c1_def mem1_def split: option.splits)
        note IH = Cons.IH [OF rec(1) sub ok1(1)]
        have "mem' x = mem1 x" if "x \<in> mem_range b USB_CDC_RX_BLOCK_SIZE" for x
          using IH that apart ok1(2) by (fastforce simp: cdc_apart_def e_def)
        then have "mem_read mem' b (length d) = d"
          using mem_read_cong [of b "length d" mem' mem1] mem_range_shorter [OF len(2), of b] bytes by auto
        then show ?thesis
          using IH rec(2) out ok1(2,3) mlen
          by (auto simp: is_cdc_data_def cdc_bytes_def e_def)
      next
        case False
        then have "evs = [Cdc_Data e]" "mem' = mem1" "c' = c1"
          using Cons.prems(1) ne alloc Inr
          by (simp_all add: cdc_rx_loop.simps [of sl "d # ds"] e_def c1_def mem1_def)
        then show ?thesis
          using ok1 out bytes mlen by (auto simp: is_cdc_data_def cdc_bytes_def e_def)
      qed
    qed
  qed
qed

section \<open>The invariant\<close>

definition bridge_memory :: "('u, 'r) uart_env \<Rightarrow> 'c cdc_env \<Rightarrow> ('u \<Rightarrow> u32 set) \<Rightarrow> ('c \<Rightarrow> u32 set) \<Rightarrow> u32 set \<Rightarrow> bool" where
  "bridge_memory ue ce fu fc blocks \<longleftrightarrow>
     slab_spec (ue_slab ue) fu (uart_blocks (ue_base ue)) \<and> slab_spec (ce_slab ce) fc blocks \<and> cdc_apart blocks \<and>
     (\<forall>b\<in>blocks. mem_range b USB_CDC_RX_BLOCK_SIZE \<inter> mem_range (ue_base ue) slab_size = {}) \<and>
     unat (ue_base ue) + slab_size < 2 ^ 32"

text \<open>The data of the calls of \<open>uart_fifo_fill\<close>, in order.\<close>

fun fifo_fills :: "cdc_call list \<Rightarrow> u8 list list" where
  "fifo_fills [] = []"
| "fifo_fills (Cdc_Fifo_Fill bs # cs) = bs # fifo_fills cs"
| "fifo_fills (_ # cs) = fifo_fills cs"

lemma fifo_fills_append [simp]: "fifo_fills (cs @ ds) = fifo_fills cs @ fifo_fills ds"
  by (induction cs rule: fifo_fills.induct) simp_all

lemma module_state_fills [simp]:
  "fifo_fills (cd_calls (snd (cdc_on_module_state env e c))) = fifo_fills (cd_calls c)"
  by (simp add: cdc_on_module_state_def enable_rx_irq_def Let_def)

lemma entry_bytes:
  "concat (map fst (usb_entry mem c ev)) = uart_bytes mem ev" "concat (map fst (uart_entry ue mem h ev)) = cdc_bytes mem ev"
  by (simp_all add: usb_entry_def uart_entry_def uart_bytes_def cdc_bytes_def split: app_event.split)

text \<open>A delivery fills the USB driver's queue exactly when the terminal is open.\<close>

lemma deliver_fills:
  assumes "\<forall>e\<in>set (uart_events [ev]). ude_dev_idx e = 0"
  shows "fifo_fills (cd_calls (snd (cdc_app_event_handler ce mem ev c))) =
    fifo_fills (cd_calls c) @ map fst (filter snd (usb_entry mem c ev))"
  using assms
  by (cases ev) (simp_all add: cdc_app_event_handler_def cdc_on_uart_data_def cdc_on_cdc_data_def usb_entry_def
      uart_bytes_def CDC_DEVICE_COUNT_def)

lemma cdc_rx_loop_frame:
  "cdc_rx_loop sl reads mem c = Some (evs, mem', c') \<Longrightarrow>
    cd_calls c' = cd_calls c \<and> (\<forall>e\<in>set (cdc_events evs). cde_dev_idx e = 0)"
proof (induction reads arbitrary: mem c evs)
  case Nil
  then show ?case
    by (auto simp: cdc_rx_loop.simps [of sl "[]"] split: prod.splits sum.splits)
next
  case (Cons d ds)
  then show ?case
    by (fastforce simp: cdc_rx_loop.simps [of sl "d # ds"] Let_def split: prod.splits sum.splits option.splits if_splits)
qed

definition bridge_inv ::
  "('u \<Rightarrow> u32 set) \<Rightarrow> ('c \<Rightarrow> u32 set) \<Rightarrow> u32 \<Rightarrow> u32 set \<Rightarrow> ('u, 'r, 'c) bridge \<Rightarrow> bool" where
  "bridge_inv fu fc base blocks s \<longleftrightarrow>
     rx_inv fu base s \<and> cdc_ok fc blocks (br_cdc s) (cdc_events (br_queue s)) \<and>
     br_received s = concat (map fst (br_usb_log s)) @ concat (map (uart_bytes (br_mem s)) (br_queue s)) \<and>
     br_from_host s = concat (map fst (br_uart_log s)) @ concat (map (cdc_bytes (br_mem s)) (br_queue s)) \<and>
     fifo_fills (cd_calls (br_cdc s)) = map fst (filter snd (br_usb_log s)) \<and>
     (\<forall>e\<in>set (uart_events (br_queue s)). ude_dev_idx e = 0) \<and> (\<forall>e\<in>set (cdc_events (br_queue s)). cde_dev_idx e = 0)"

lemma field_nonzero:
  assumes "unat base + slab_size < 2 ^ 32" "k < UART_SLAB_BLOCK_COUNT"
  shows "rx_buf_field (uart_block base k) \<noteq> 0"
proof -
  have at: "rx_buf_field (uart_block base k) = base + of_nat (k * 520 + 8)"
    by (simp add: rx_buf_field_def uart_block_def wire_const)
  have "k * 520 + 8 < 2 ^ LENGTH(32)"
    using assms(2) by (simp add: wire_const)
  then have "unat (of_nat (k * 520 + 8) :: u32) = k * 520 + 8"
    by (rule of_nat_unat_small)
  then have "unat (base + of_nat (k * 520 + 8)) = unat base + (k * 520 + 8)"
    using assms by (subst unat_add_small) (simp_all add: wire_const)
  then show ?thesis
    unfolding at by (metis add_is_0 unat_0 zero_neq_numeral)
qed

lemma uart_events_mem: "e \<in> set (uart_events q) \<longleftrightarrow> Uart_Data e \<in> set q"
  by (induction q rule: uart_events.induct) auto

lemma cdc_events_mem: "e \<in> set (cdc_events q) \<longleftrightarrow> Cdc_Data e \<in> set q"
  by (induction q rule: cdc_events.induct) auto

lemma cdc_event_range:
  assumes "cdc_ok fc blocks c es" "e \<in> set es"
  shows "cde_buf e \<in> blocks" "mem_range (cde_buf e) (unat (cde_len e)) \<subseteq> mem_range (cde_buf e) USB_CDC_RX_BLOCK_SIZE"
  using assms by (auto simp: cdc_ok_def intro!: mem_range_shorter)

text \<open>Bytes of pending events are the same in two memories that agree where they are.\<close>

lemma uart_bytes_same:
  assumes "\<forall>e\<in>set (uart_events q). \<forall>x\<in>mem_range (ude_buf e) (unat (ude_len e)). mem' x = mem x"
  shows "concat (map (uart_bytes mem') q) = concat (map (uart_bytes mem) q)"
proof -
  have "uart_bytes mem' ev = uart_bytes mem ev" if "ev \<in> set q" for ev
    using assms that by (cases ev) (auto simp: uart_bytes_def uart_events_mem intro!: mem_read_cong)
  then show ?thesis by (simp cong: map_cong)
qed

lemma cdc_bytes_same:
  assumes "\<forall>e\<in>set (cdc_events q). \<forall>x\<in>mem_range (cde_buf e) (unat (cde_len e)). mem' x = mem x"
  shows "concat (map (cdc_bytes mem') q) = concat (map (cdc_bytes mem) q)"
proof -
  have "cdc_bytes mem' ev = cdc_bytes mem ev" if "ev \<in> set q" for ev
    using assms that by (cases ev) (auto simp: cdc_bytes_def cdc_events_mem intro!: mem_read_cong)
  then show ?thesis by (simp cong: map_cong)
qed

lemma bridge_uart_ready:
  assumes env: "bridge_memory ue ce fu fc blocks" and inv: "bridge_inv fu fc (ue_base ue) blocks s"
    and held: "br_held s = (k, n) # rest" and bs: "bs \<noteq> []" "n + length bs \<le> UART_BUF_SIZE"
    and buf: "buf = rx_buf_field (uart_block (ue_base ue) k)"
    and cb: "uart_callback ue (UART_RX_RDY buf (of_nat n) (of_nat (length bs))) (br_uart s) = (evs, h)"
  shows "bridge_inv fu fc (ue_base ue) blocks (s\<lparr>br_mem := mem_write (buf + of_nat n) bs (br_mem s), br_uart := h,
      br_queue := br_queue s @ evs, br_held := (k, n + length bs) # rest, br_received := br_received s @ bs\<rparr>)"
proof -
  let ?mem = "mem_write (buf + of_nat n) bs (br_mem s)" and ?es = "uart_events (br_queue s)"
  have spec: "slab_spec (ue_slab ue) fu (uart_blocks (ue_base ue))"
    using env by (simp add: bridge_memory_def)
  have ok: "rx_ok fu (ue_base ue) (br_uart s) ((k, n) # rest) ?es"
    using inv held by (simp add: bridge_inv_def rx_inv_def)
  have k: "k < UART_SLAB_BLOCK_COUNT"
    using ok by (simp add: rx_ok_def)
  have m: "0 < length bs" using bs(1) by simp
  note ready = rx_ok_ready [OF spec ok m bs(2) buf cb]
  note range = report_range(2) [OF k bs(2), of "ue_base ue", folded buf]
  have "length bs < 2 ^ LENGTH(32)"
    using bs(2) by (simp add: wire_const)
  then have mlen: "unat (of_nat (length bs) :: u32) = length bs"
    by (rule of_nat_unat_small)
  have new: "concat (map (uart_bytes ?mem) evs) = bs" "concat (map (cdc_bytes ?mem) evs) = []" "cdc_events evs = []"
    "\<forall>e\<in>set (uart_events evs). ude_dev_idx e = 0"
    using mem_read_write [of bs "buf + of_nat n" "br_mem s"] bs(2) mlen
    by (simp_all add: ready(2) uart_bytes_def cdc_bytes_def wire_const)
  have "?mem x = br_mem s x" if "e \<in> set ?es" "x \<in> mem_range (ude_buf e) (unat (ude_len e))" for e x
    by (rule mem_write_other) (use report_apart [OF ok that(1) bs(2), folded buf] that(2) in blast)
  then have old: "concat (map (uart_bytes ?mem) (br_queue s)) = concat (map (uart_bytes (br_mem s)) (br_queue s))"
    by (intro uart_bytes_same) blast
  have "?mem x = br_mem s x" if "e \<in> set (cdc_events (br_queue s))" "x \<in> mem_range (cde_buf e) (unat (cde_len e))" for e x
  proof (rule mem_write_other)
    have "cdc_ok fc blocks (br_cdc s) (cdc_events (br_queue s))"
      using inv by (simp add: bridge_inv_def)
    from cdc_event_range [OF this that(1)] that(2)
    show "x \<notin> mem_range (buf + of_nat n) (length bs)"
      using env range unfolding bridge_memory_def by blast
  qed
  then have "concat (map (cdc_bytes ?mem) (br_queue s)) = concat (map (cdc_bytes (br_mem s)) (br_queue s))"
    by (intro cdc_bytes_same) blast
  then show ?thesis
    using inv ready(1) new old by (simp add: bridge_inv_def rx_inv_def ball_Un)
qed

lemma cdc_only:
  "list_all is_cdc_data evs \<Longrightarrow>
    uart_events evs = [] \<and> filter is_cdc_data evs = evs \<and> concat (map (uart_bytes m) evs) = []"
  by (induction evs) (auto simp: is_cdc_data_def uart_bytes_def split: app_event.splits)

lemma bridge_cdc_interrupt:
  assumes env: "bridge_memory ue ce fu fc blocks" and inv: "bridge_inv fu fc (ue_base ue) blocks s"
    and reads: "list_all (\<lambda>d. length d \<le> USB_CDC_RX_BLOCK_SIZE) reads"
    and irq: "cdc_uart_interrupt_handler ce rx_ready line reads (br_mem s) (br_cdc s) = Some (evs, mem, c)"
  shows "bridge_inv fu fc (ue_base ue) blocks (s\<lparr>br_mem := mem, br_cdc := c, br_queue := br_queue s @ evs,
      br_from_host := br_from_host s @ reads_kept evs reads\<rparr>)"
proof (cases rx_ready)
  case False
  then show ?thesis
    using irq inv by (auto simp: cdc_uart_interrupt_handler_def reads_kept_def bridge_inv_def rx_inv_def)
next
  case True
  obtain conn c1 where poll: "poll_dtr line (br_cdc s) = (conn, c1)"
    by (cases "poll_dtr line (br_cdc s)")
  obtain evs' where loop: "cdc_rx_loop (ce_slab ce) reads (br_mem s) c1 = Some (evs', mem, c)" "evs = conn @ evs'"
    using irq True poll by (auto simp: cdc_uart_interrupt_handler_def split: option.splits)
  have conn: "uart_events conn = []" "cdc_events conn = []" "filter is_cdc_data conn = []"
    "concat (map (uart_bytes m) conn) = []" "concat (map (cdc_bytes m) conn) = []" for m
    using poll by (auto simp: poll_dtr_def is_cdc_data_def uart_bytes_def cdc_bytes_def split: sum.splits if_splits)
  have spec: "slab_spec (ce_slab ce) fc blocks" "cdc_apart blocks"
    using env by (simp_all add: bridge_memory_def)
  have slab: "cd_slab c1 = cd_slab (br_cdc s)"
    using poll_dtr_frame(1) [of line "br_cdc s"] by (simp add: poll)
  have ok: "cdc_ok fc blocks c1 (cdc_events (br_queue s))"
    using inv slab by (simp add: bridge_inv_def cdc_ok_def)
  note lp = cdc_rx_loop_ok [OF spec loop(1) reads ok]
  have evs': "uart_events evs' = []" "filter is_cdc_data evs' = evs'" "concat (map (uart_bytes mem) evs') = []"
    using cdc_only [of evs' mem] lp by blast+
  have "mem x = br_mem s x"
    if "e \<in> set (cdc_events (br_queue s))" "x \<in> mem_range (cde_buf e) (unat (cde_len e))" for e x
  proof -
    note r = cdc_event_range [OF ok that(1)]
    have "x \<notin> mem_range b USB_CDC_RX_BLOCK_SIZE" if "b \<in> blocks" "b \<notin> cde_buf ` set (cdc_events (br_queue s))" for b
      using that r \<open>x \<in> _\<close> spec(2) \<open>e \<in> _\<close> unfolding cdc_apart_def by blast
    then show ?thesis using lp by blast
  qed
  then have cdc: "concat (map (cdc_bytes mem) (br_queue s)) = concat (map (cdc_bytes (br_mem s)) (br_queue s))"
    by (intro cdc_bytes_same) blast
  have "mem x = br_mem s x"
    if "e \<in> set (uart_events (br_queue s))" "x \<in> mem_range (ude_buf e) (unat (ude_len e))" for e x
  proof -
    have "event_placed (ue_base ue) e"
      using inv that(1) by (simp add: bridge_inv_def rx_inv_def rx_ok_def)
    from event_range [OF this] that(2) have "x \<in> mem_range (ue_base ue) slab_size" by blast
    then have "x \<notin> mem_range b USB_CDC_RX_BLOCK_SIZE" if "b \<in> blocks" for b
      using env that unfolding bridge_memory_def by blast
    then show ?thesis using lp by blast
  qed
  then have uart: "concat (map (uart_bytes mem) (br_queue s)) = concat (map (uart_bytes (br_mem s)) (br_queue s))"
    by (intro uart_bytes_same) blast
  have kept: "reads_kept evs reads = concat (map (cdc_bytes mem) evs')"
    using lp evs'(2) by (simp add: reads_kept_def loop(2) conn)
  have calls: "cd_calls c = cd_calls (br_cdc s)" "\<forall>e\<in>set (cdc_events evs'). cde_dev_idx e = 0"
    using cdc_rx_loop_frame [OF loop(1)] poll_dtr_frame(2) [of line "br_cdc s"] by (simp_all add: poll)
  show ?thesis
    using inv lp cdc uart evs' kept calls by (simp add: bridge_inv_def rx_inv_def loop(2) conn ball_Un)
qed

lemma poll_no_data:
  assumes "poll_dtr line c = (evs, c')"
  shows "uart_events evs = []" "cdc_events evs = []" "concat (map (uart_bytes m) evs) = []"
    "concat (map (cdc_bytes m) evs) = []" "cd_slab c' = cd_slab c" "cd_calls c' = cd_calls c"
  using assms by (auto simp: poll_dtr_def uart_bytes_def cdc_bytes_def split: sum.splits if_splits)

lemma status_no_data:
  "uart_events (usbd_status st) = []" "cdc_events (usbd_status st) = []"
  "concat (map (uart_bytes m) (usbd_status st)) = []" "concat (map (cdc_bytes m) (usbd_status st)) = []"
  by (auto simp: usbd_status_def module_set_state_def uart_bytes_def cdc_bytes_def split: usb_dc_status.split)

lemma bridge_deliver:
  assumes env: "bridge_memory ue ce fu fc blocks" and inv: "bridge_inv fu fc (ue_base ue) blocks s"
    and q: "br_queue s = ev # q" and e: "e = ue\<lparr>ue_ret := ret, ue_config := cfg\<rparr>"
    and h: "h = snd (uart_app_event_handler e (br_mem s) ev (br_uart s))"
  shows "bridge_inv fu fc (ue_base ue) blocks
    (s\<lparr>br_uart := h, br_cdc := snd (cdc_app_event_handler ce (br_mem s) ev (br_cdc s)),
      br_queue := q, br_held := br_held s @ fresh (buffers_taken e (br_uart s) h),
      br_usb_log := br_usb_log s @ usb_entry (br_mem s) (br_cdc s) ev,
      br_uart_log := br_uart_log s @ uart_entry ue (br_mem s) (br_uart s) ev\<rparr>)"
proof -
  let ?c = "snd (cdc_app_event_handler ce (br_mem s) ev (br_cdc s))"
  have base: "ue_base e = ue_base ue" "ue_slab e = ue_slab ue"
    by (simp_all add: e)
  have spec: "slab_spec (ue_slab e) fu (uart_blocks (ue_base e))" "slab_spec (ce_slab ce) fc blocks"
    using env by (simp_all add: bridge_memory_def base)
  have ok: "rx_ok fu (ue_base e) (br_uart s) (br_held s) (uart_events (ev # q))"
    using inv by (simp add: bridge_inv_def rx_inv_def q base)
  have rx: "rx_ok fu (ue_base e) h (br_held s @ fresh (buffers_taken e (br_uart s) h)) (uart_events q)"
  proof (cases "is_uart_data ev")
    case True
    then obtain d where ev: "ev = Uart_Data d"
      by (auto simp: is_uart_data_def split: app_event.splits)
    have ok': "rx_ok fu (ue_base e) (br_uart s) (br_held s) (d # uart_events q)"
      using ok by (simp add: ev)
    show ?thesis
      using rx_ok_uart_data [OF spec(1) ok'] by (simp add: h ev uart_app_event_handler_def fresh_def)
  next
    case False
    show ?thesis
      using rx_ok_hands_over [OF ok handler_hands_over [OF spec(1) False, of "br_uart s" "br_mem s"]]
      by (simp add: h uart_events_none [OF False])
  qed
  have cs: "cdc_ok fc blocks (br_cdc s) (cdc_events (ev # q))"
    using inv by (simp add: bridge_inv_def q)
  have cdc: "cdc_ok fc blocks ?c (cdc_events q)"
  proof (cases ev)
    case (Cdc_Data d)
    have b: "cde_buf d \<in> blocks" "cde_buf d \<notin> fc (cd_slab (br_cdc s))"
      using cs by (auto simp: cdc_ok_def Cdc_Data)
    have "fc (slab_free (ce_slab ce) (cde_buf d) (cd_slab (br_cdc s))) = insert (cde_buf d) (fc (cd_slab (br_cdc s)))"
      by (rule slab_free_ok [OF spec(2) b])
    moreover have "cde_buf d \<notin> cde_buf ` set (cdc_events q)"
      "insert (cde_buf d) (cde_buf ` set (cdc_events q)) = blocks - fc (cd_slab (br_cdc s))"
      using cs by (simp_all add: cdc_ok_def Cdc_Data)
    then have "cde_buf ` set (cdc_events q) = blocks - insert (cde_buf d) (fc (cd_slab (br_cdc s)))"
      by blast
    ultimately show ?thesis
      using cs by (simp add: cdc_ok_def Cdc_Data cdc_app_event_handler_def cdc_on_cdc_data_def)
  qed (use cs in \<open>simp_all add: cdc_ok_def cdc_app_event_handler_def\<close>)
  have "uart_events (ev # q) = uart_events [ev] @ uart_events q" "cdc_events (ev # q) = cdc_events [ev] @ cdc_events q"
    by (simp_all flip: uart_events_append cdc_events_append)
  then have idx: "\<forall>e\<in>set (uart_events [ev]). ude_dev_idx e = 0" "\<forall>e\<in>set (uart_events q). ude_dev_idx e = 0"
    "\<forall>e\<in>set (cdc_events q). cde_dev_idx e = 0"
    using inv by (simp_all add: bridge_inv_def q ball_Un)
  show ?thesis
    using inv rx cdc idx(2,3) deliver_fills [OF idx(1), of ce "br_mem s" "br_cdc s"]
    by (simp add: bridge_inv_def rx_inv_def q base entry_bytes)
qed

lemma bridge_inv_step:
  assumes env: "bridge_memory ue ce fu fc blocks" and inv: "bridge_inv fu fc (ue_base ue) blocks s"
    and step: "bridge_step ue ce s s'"
  shows "bridge_inv fu fc (ue_base ue) blocks s'"
  using step
proof cases
  case (uart_ready k n rest bs buf evs h)
  show ?thesis
    unfolding uart_ready(1) by (rule bridge_uart_ready [OF env inv uart_ready(2-6)])
next
  case (uart_released xs k n ys evs h)
  have spec: "slab_spec (ue_slab ue) fu (uart_blocks (ue_base ue))" "unat (ue_base ue) + slab_size < 2 ^ 32"
    using env by (simp_all add: bridge_memory_def)
  have ok: "rx_ok fu (ue_base ue) (br_uart s) (xs @ (k, n) # ys) (uart_events (br_queue s))"
    using inv uart_released(2) by (simp add: bridge_inv_def rx_inv_def)
  then have k: "k < UART_SLAB_BLOCK_COUNT"
    by (simp add: rx_ok_def)
  show ?thesis
    using inv rx_ok_released [OF spec(1) ok field_nonzero [OF spec(2) k] uart_released(3)]
    by (simp add: uart_released(1) bridge_inv_def rx_inv_def)
next
  case (uart_other ev e ret evs h)
  have base: "ue_base e = ue_base ue" "ue_slab e = ue_slab ue"
    by (simp_all add: uart_other(3))
  have spec: "slab_spec (ue_slab e) fu (uart_blocks (ue_base e))"
    using env by (simp add: bridge_memory_def base)
  have "evs = []" "h = snd (uart_callback e ev (br_uart s))"
    using callback_no_events [OF uart_other(2), of e "br_uart s"] by (simp_all add: uart_other(4))
  moreover have "rx_ok fu (ue_base e) h (br_held s @ fresh (buffers_taken e (br_uart s) h)) (uart_events (br_queue s))"
    using rx_ok_hands_over [OF _ callback_hands_over [OF spec uart_other(2)]] inv calculation(2)
    by (simp add: bridge_inv_def rx_inv_def base)
  ultimately show ?thesis
    using inv by (simp add: uart_other(1) bridge_inv_def rx_inv_def base)
next
  case (deliver ev q e ret cfg h)
  show ?thesis
    unfolding deliver(1) by (rule bridge_deliver [OF env inv deliver(2-4)])
next
  case (cdc_interrupt reads rx_ready line evs mem c)
  show ?thesis
    unfolding cdc_interrupt(1) by (rule bridge_cdc_interrupt [OF env inv cdc_interrupt(2,3)])
next
  case (cdc_poll line evs c)
  then show ?thesis
    using inv poll_no_data [of line "br_cdc s" evs c]
    by (simp add: cdc_dtr_work_handler_def bridge_inv_def rx_inv_def cdc_ok_def)
next
  case (usb_status st)
  then show ?thesis
    using inv by (simp add: bridge_inv_def rx_inv_def status_no_data)
next
  case (module_state e)
  then show ?thesis
    using inv by (simp add: bridge_inv_def rx_inv_def uart_bytes_def cdc_bytes_def)
qed

lemma bridge_inv_boot:
  assumes "fu us = uart_blocks base" "fc cs = blocks"
  shows "bridge_inv fu fc base blocks (bridge_boot us r cs mem)"
  using assms by (auto simp: bridge_inv_def rx_inv_def rx_ok_def cdc_ok_def bridge_boot_def refs_ok_def uart_reset_def
      cdc_reset_def block_owners_def in_block_def)

lemma bridge_inv_reach:
  assumes "bridge_memory ue ce fu fc blocks" "fu us = uart_blocks (ue_base ue)" "fc cs = blocks"
    "bridge_reach ue ce (bridge_boot us r cs mem) s"
  shows "bridge_inv fu fc (ue_base ue) blocks s"
proof (rule bridge.invariant [OF assms(4)])
  show "bridge_inv fu fc (ue_base ue) blocks (bridge_boot us r cs mem)"
    by (rule bridge_inv_boot [where fu = fu and fc = fc, OF assms(2,3)])
  show "bridge_inv fu fc (ue_base ue) blocks u"
    if "bridge_inv fu fc (ue_base ue) blocks t" "bridge_step ue ce t u" for t u
    using that by (rule bridge_inv_step [OF assms(1)])
qed

end
