(* ===== verification/If_Uart_Tx.thy ===== *)
theory If_Uart_Tx
  imports If_Uart
begin

text \<open>
  The transmit path of \<open>uart_handler.c\<close> with its interrupt: the event handler's thread
  runs \<open>uart_tx_enqueue\<close> in three atomic parts, and the driver reports the end of a
  transfer between any two of them. The state adds to the module's the thread's
  position, the transfer the driver has accepted, and as history the bytes taken from
  the callers, the bytes the driver reported sent and the number of faults (refused or
  aborted transfers).
\<close>

datatype tx_pc = Tx_Idle | Tx_Swap | Tx_Start

record ('s, 'r) tx_sys =
  ts_uart :: "('s, 'r) uart"
  ts_pc :: tx_pc
  ts_flight :: "u8 list option"
  ts_accepted :: "u8 list"
  ts_sent :: "u8 list"
  ts_faults :: nat

text \<open>What the driver transmits after \<open>uart_tx_start\<close>: the bytes of an accepted call.\<close>

definition tx_claimed :: "('s, 'r) uart_env \<Rightarrow> ('s, 'r) uart \<Rightarrow> u8 list" where
  "tx_claimed env h = fst (ring_claim (ue_ring env) UART_BUF_SIZE (uh_ring h))"

definition tx_flight :: "('s, 'r) uart_env \<Rightarrow> ('s, 'r) uart \<Rightarrow> u8 list option" where
  "tx_flight env h = (if ue_ret env (Tx (tx_claimed env h)) = 0 then Some (tx_claimed env h) else None)"

definition tx_fault :: "('s, 'r) uart_env \<Rightarrow> ('s, 'r) uart \<Rightarrow> nat" where
  "tx_fault env h = (if ue_ret env (Tx (tx_claimed env h)) = 0 then 0 else 1)"

definition is_rx_event :: "uart_event \<Rightarrow> bool" where
  "is_rx_event ev \<longleftrightarrow> (case ev of UART_TX_DONE n \<Rightarrow> False | UART_TX_ABORTED n \<Rightarrow> False | _ \<Rightarrow> True)"

text \<open>
  \<open>ret\<close> is what the driver answers in the step; the rest of the environment stays. The
  last two rules are the module's other activities, which do not concern the path.
\<close>

inductive tx_step :: "('s, 'r) uart_env \<Rightarrow> ('s, 'r) tx_sys \<Rightarrow> ('s, 'r) tx_sys \<Rightarrow> bool" for env where
  put: "ts_pc s = Tx_Idle \<Longrightarrow> tx_put env d (ts_uart s) = (w, h) \<Longrightarrow>
    tx_step env s (s\<lparr>ts_uart := h, ts_pc := (if w = 0 then Tx_Idle else Tx_Swap),
      ts_accepted := ts_accepted s @ take w d\<rparr>)"
| swap: "ts_pc s = Tx_Swap \<Longrightarrow> tx_swap (ts_uart s) = (started, h) \<Longrightarrow>
    tx_step env s (s\<lparr>ts_uart := h, ts_pc := (if started then Tx_Idle else Tx_Start)\<rparr>)"
| start: "ts_pc s = Tx_Start \<Longrightarrow> e = env\<lparr>ue_ret := ret\<rparr> \<Longrightarrow>
    tx_step env s (s\<lparr>ts_uart := tx_start_or_clear e (ts_uart s), ts_pc := Tx_Idle,
      ts_flight := tx_flight e (ts_uart s), ts_faults := ts_faults s + tx_fault e (ts_uart s)\<rparr>)"
| tx_done: "ts_flight s = Some bs \<Longrightarrow> e = env\<lparr>ue_ret := ret\<rparr> \<Longrightarrow>
    h = uart_tx_finish e (length bs) (ts_uart s) \<Longrightarrow> again = (ring_used (ue_ring e) (uh_ring h) \<noteq> 0) \<Longrightarrow>
    tx_step env s (s\<lparr>ts_uart := snd (uart_callback e (UART_TX_DONE (length bs)) (ts_uart s)),
      ts_sent := ts_sent s @ bs, ts_flight := (if again then tx_flight e h else None),
      ts_faults := ts_faults s + (if again then tx_fault e h else 0)\<rparr>)"
| aborted: "ts_flight s = Some bs \<Longrightarrow> k \<le> length bs \<Longrightarrow>
    tx_step env s (s\<lparr>ts_uart := snd (uart_callback env (UART_TX_ABORTED k) (ts_uart s)),
      ts_sent := ts_sent s @ take k bs, ts_flight := None, ts_faults := ts_faults s + 1\<rparr>)"
| rx: "is_rx_event ev \<Longrightarrow> e = env\<lparr>ue_ret := ret\<rparr> \<Longrightarrow>
    tx_step env s (s\<lparr>ts_uart := snd (uart_callback e ev (ts_uart s))\<rparr>)"
| peer: "ts_pc s = Tx_Idle \<Longrightarrow> e = env\<lparr>ue_ret := ret, ue_config := cfg\<rparr> \<Longrightarrow>
    tx_step env s (s\<lparr>ts_uart := snd (uart_on_peer_conn e ev (ts_uart s))\<rparr>)"

inductive tx_reach :: "('s, 'r) uart_env \<Rightarrow> ('s, 'r) tx_sys \<Rightarrow> ('s, 'r) tx_sys \<Rightarrow> bool" for env where
  tx_refl: "tx_reach env s s"
| tx_next: "tx_reach env s t \<Longrightarrow> tx_step env t u \<Longrightarrow> tx_reach env s u"

lemma tx_reach_ind:
  "tx_reach env s t \<Longrightarrow> P s \<Longrightarrow> (\<And>t u. tx_reach env s t \<Longrightarrow> P t \<Longrightarrow> tx_step env t u \<Longrightarrow> P u) \<Longrightarrow> P t"
  by (induct rule: tx_reach.induct) blast+

interpretation uart_tx: reach_system "tx_step env" "tx_reach env" for env
  by unfold_locales (rule tx_refl, erule (1) tx_next, erule (1) tx_reach_ind)

text \<open>The state after \<open>uart_on_module_state\<close> has accepted the device.\<close>

definition tx_boot :: "('s, 'r) uart \<Rightarrow> ('s, 'r) tx_sys" where
  "tx_boot h = \<lparr>ts_uart = h, ts_pc = Tx_Idle, ts_flight = None, ts_accepted = [], ts_sent = [], ts_faults = 0\<rparr>"

section \<open>What each part does to the ring\<close>

lemma rx_event_frame:
  assumes "is_rx_event ev"
  shows "uh_ring (snd (uart_callback env ev h)) = uh_ring h"
    and "uh_tx_started (snd (uart_callback env ev h)) = uh_tx_started h"
  using assms
  by (auto simp: is_rx_event_def uart_callback_def Let_def
      dest: alloc_frame split: uart_event.splits prod.splits option.splits)

definition flight_length :: "u8 list option \<Rightarrow> nat" where
  "flight_length fl = (case fl of None \<Rightarrow> 0 | Some bs \<Rightarrow> length bs)"

lemma flight_length_simps [simp]: "flight_length None = 0" "flight_length (Some bs) = length bs"
  by (simp_all add: flight_length_def)

lemma tx_finish_frame [simp]:
  "uh_tx_started (uart_tx_finish env n h) = uh_tx_started h"
  by (simp add: uart_tx_finish_def)

lemma tx_finish_ring:
  assumes "ring_spec (ue_ring env) contents claimed cap" "n \<le> claimed (uh_ring h)"
  shows "contents (uh_ring (uart_tx_finish env n h)) = drop n (contents (uh_ring h))"
    and "claimed (uh_ring (uart_tx_finish env n h)) = 0"
proof -
  obtain ret r where "ring_finish (ue_ring env) n (uh_ring h) = (ret, r)"
    by (cases "ring_finish (ue_ring env) n (uh_ring h)")
  with ring_finish_ok [OF assms(1) this assms(2)]
  show "contents (uh_ring (uart_tx_finish env n h)) = drop n (contents (uh_ring h))"
    "claimed (uh_ring (uart_tx_finish env n h)) = 0"
    by (simp_all add: uart_tx_finish_def)
qed

lemma tx_claimed_take:
  assumes "ring_spec (ue_ring env) contents claimed UART_BUF_SIZE" "claimed (uh_ring h) = 0"
  shows "tx_claimed env h = take (length (tx_claimed env h)) (contents (uh_ring h))"
    and "tx_claimed env h = [] \<Longrightarrow> contents (uh_ring h) = []"
proof -
  obtain bs r where bs: "ring_claim (ue_ring env) UART_BUF_SIZE (uh_ring h) = (bs, r)"
    by (cases "ring_claim (ue_ring env) UART_BUF_SIZE (uh_ring h)")
  show "tx_claimed env h = take (length (tx_claimed env h)) (contents (uh_ring h))"
    using ring_claim_ok(1) [OF assms(1) bs] assms(2) by (simp add: tx_claimed_def bs)
  show "contents (uh_ring h) = []" if "tx_claimed env h = []"
  proof -
    have "bs = []"
      using that by (simp add: tx_claimed_def bs)
    from ring_claim_ok(3) [OF assms(1) bs this] assms(2) show ?thesis
      by (simp add: UART_BUF_SIZE_def)
  qed
qed

lemma tx_start_effect:
  assumes spec: "ring_spec (ue_ring env) contents claimed UART_BUF_SIZE"
    and c0: "claimed (uh_ring h) = 0"
  shows "contents (uh_ring (snd (uart_tx_start env h))) = contents (uh_ring h)"
    and "claimed (uh_ring (snd (uart_tx_start env h))) = flight_length (tx_flight env h)"
    and "uh_tx_started (snd (uart_tx_start env h)) = uh_tx_started h"
    and "fst (uart_tx_start env h) = 0 \<longleftrightarrow> tx_flight env h \<noteq> None"
proof -
  obtain bs r where bs: "ring_claim (ue_ring env) UART_BUF_SIZE (uh_ring h) = (bs, r)"
    by (cases "ring_claim (ue_ring env) UART_BUF_SIZE (uh_ring h)")
  have cl: "tx_claimed env h = bs"
    by (simp add: tx_claimed_def bs)
  note r = ring_claim_ok(4,5) [OF spec bs]
  define h1 where "h1 = uart_call_made (Tx bs) (h\<lparr>uh_ring := r\<rparr>)"
  have h1: "uh_ring h1 = r" "uh_tx_started h1 = uh_tx_started h"
    by (simp_all add: h1_def)
  have start: "uart_tx_start env h =
      (if ue_ret env (Tx bs) \<noteq> 0 then (ue_ret env (Tx bs), uart_tx_finish env 0 h1) else (0, h1))"
    by (simp add: uart_tx_start_def bs h1_def Let_def)
  note fin = tx_finish_ring [OF spec, of 0 h1]
  show "contents (uh_ring (snd (uart_tx_start env h))) = contents (uh_ring h)"
    "claimed (uh_ring (snd (uart_tx_start env h))) = flight_length (tx_flight env h)"
    "uh_tx_started (snd (uart_tx_start env h)) = uh_tx_started h"
    "fst (uart_tx_start env h) = 0 \<longleftrightarrow> tx_flight env h \<noteq> None"
    using fin r c0 by (simp_all add: start h1 tx_flight_def cl)
qed

lemma start_or_clear_effect:
  assumes "ring_spec (ue_ring env) contents claimed UART_BUF_SIZE" "claimed (uh_ring h) = 0"
  shows "contents (uh_ring (tx_start_or_clear env h)) = contents (uh_ring h)"
    and "claimed (uh_ring (tx_start_or_clear env h)) = flight_length (tx_flight env h)"
    and "uh_tx_started (tx_start_or_clear env h) \<longleftrightarrow> uh_tx_started h \<and> tx_flight env h \<noteq> None"
  using tx_start_effect [OF assms] by (auto simp: tx_start_or_clear_def case_prod_unfold Let_def)

lemma tx_flight_take:
  assumes "ring_spec (ue_ring env) contents claimed UART_BUF_SIZE" "claimed (uh_ring h) = 0"
    "tx_flight env h = Some bs"
  shows "bs = take (length bs) (contents (uh_ring h))"
  using tx_claimed_take(1) [OF assms(1,2)] assms(3) by (auto simp: tx_flight_def split: if_splits)

lemma tx_fault_flight: "tx_fault env h = 0 \<longleftrightarrow> tx_flight env h \<noteq> None"
  by (simp add: tx_fault_def tx_flight_def)

section \<open>The invariant\<close>

text \<open>
  The bytes taken are the bytes sent followed by those in the ring, the transfer in
  flight is the claimed front of the ring, and without a fault the flag says whether a
  transfer is under way and a thread at rest leaves no byte behind without one.
\<close>

definition tx_inv :: "('r \<Rightarrow> u8 list) \<Rightarrow> ('r \<Rightarrow> nat) \<Rightarrow> ('s, 'r) tx_sys \<Rightarrow> bool" where
  "tx_inv contents claimed s \<longleftrightarrow>
     (let h = ts_uart s; q = contents (uh_ring h)
      in ts_accepted s = ts_sent s @ q \<and>
         claimed (uh_ring h) = flight_length (ts_flight s) \<and>
         (\<forall>bs. ts_flight s = Some bs \<longrightarrow> bs = take (length bs) q \<and> uh_tx_started h) \<and>
         (ts_pc s = Tx_Start \<longrightarrow> ts_flight s = None \<and> uh_tx_started h) \<and>
         (ts_faults s = 0 \<longrightarrow>
            (uh_tx_started h \<longleftrightarrow> ts_flight s \<noteq> None \<or> ts_pc s = Tx_Start) \<and>
            (ts_pc s = Tx_Idle \<and> q \<noteq> [] \<longrightarrow> ts_flight s \<noteq> None)))"

lemma tx_inv_step:
  assumes spec: "ring_spec (ue_ring env) contents claimed UART_BUF_SIZE"
    and inv: "tx_inv contents claimed s" and step: "tx_step env s s'"
  shows "tx_inv contents claimed s'"
  using step
proof cases
  case (put d w h)
  obtain r where r: "ring_put (ue_ring env) d (uh_ring (ts_uart s)) = (w, r)" "h = (ts_uart s)\<lparr>uh_ring := r\<rparr>"
    using put(3) by (auto simp: tx_put_def split: prod.splits)
  have cap: "length (take w d) = w"
    using ring_put_ok(1) [OF spec r(1)] by simp
  show ?thesis
    using inv put(2) ring_put_ok(2,3) [OF spec r(1)] cap ring_bounds(2) [OF spec, of "uh_ring (ts_uart s)"]
    by (auto simp: put(1) tx_inv_def r(2) Let_def)
next
  case (swap started h)
  then show ?thesis
    using inv by (auto simp: tx_inv_def tx_swap_def Let_def)
next
  case (start e ret)
  have e: "ring_spec (ue_ring e) contents claimed UART_BUF_SIZE"
    using spec start(3) by simp
  have c0: "claimed (uh_ring (ts_uart s)) = 0"
    using inv start(2) by (simp add: tx_inv_def Let_def)
  show ?thesis
    using inv start(2) start_or_clear_effect [OF e c0] tx_flight_take [OF e c0] tx_fault_flight [of e "ts_uart s"]
    by (auto simp: start(1) tx_inv_def Let_def)
next
  case (tx_done bs e ret h again)
  have e: "ring_spec (ue_ring e) contents claimed UART_BUF_SIZE"
    using spec tx_done(3) by simp
  have bs: "length bs \<le> claimed (uh_ring (ts_uart s))" "bs = take (length bs) (contents (uh_ring (ts_uart s)))"
    "uh_tx_started (ts_uart s)" "ts_pc s \<noteq> Tx_Start"
    using inv tx_done(2) by (auto simp: tx_inv_def Let_def)
  note fin = tx_finish_ring [OF e bs(1), folded tx_done(4)]
  have acc: "ts_accepted s = (ts_sent s @ bs) @ contents (uh_ring h)"
    using inv fin(1) bs(2) by (simp add: tx_inv_def Let_def) (metis append_take_drop_id)
  have again: "again \<longleftrightarrow> contents (uh_ring h) \<noteq> []"
    using ring_used_ok [OF e] tx_done(5) by simp
  have cb: "snd (uart_callback e (UART_TX_DONE (length bs)) (ts_uart s)) =
      (if again then snd (uart_tx_start e h) else h\<lparr>uh_tx_started := False\<rparr>)"
    using tx_done(4,5) by (simp add: uart_callback_def Let_def)
  note s' = tx_done(1) [unfolded cb]
  have st: "uh_tx_started h"
    using bs(3) tx_done(4) by simp
  show ?thesis
  proof (cases again)
    case True
    then show ?thesis
      using inv acc st bs(4) tx_start_effect [OF e fin(2)] tx_flight_take [OF e fin(2)] tx_fault_flight [of e h]
      by (auto simp: s' tx_inv_def Let_def)
  next
    case False
    then show ?thesis
      using inv acc again fin(2) bs(4) by (auto simp: s' tx_inv_def Let_def)
  qed
next
  case (aborted bs k)
  have bs: "k \<le> claimed (uh_ring (ts_uart s))" "bs = take (length bs) (contents (uh_ring (ts_uart s)))"
    "ts_pc s \<noteq> Tx_Start"
    using inv aborted(2,3) by (auto simp: tx_inv_def Let_def)
  note fin = tx_finish_ring [OF spec bs(1)]
  have "take k bs = take k (contents (uh_ring (ts_uart s)))"
    using bs(2) aborted(3) by (metis min.absorb1 take_take)
  then have "ts_accepted s = (ts_sent s @ take k bs) @ drop k (contents (uh_ring (ts_uart s)))"
    using inv by (simp add: tx_inv_def Let_def)
  then show ?thesis
    using fin bs(3) by (simp add: aborted(1) tx_inv_def uart_callback_def Let_def)
next
  case (rx ev e ret)
  then show ?thesis
    using inv rx_event_frame [of ev e "ts_uart s"] by (simp add: tx_inv_def Let_def)
next
  case (peer e ret cfg ev)
  then show ?thesis
    using inv by (simp add: tx_inv_def Let_def)
qed

lemma tx_inv_boot:
  assumes "ring_spec (ue_ring env) contents claimed UART_BUF_SIZE"
    "contents (uh_ring h) = []" "claimed (uh_ring h) = 0" "\<not> uh_tx_started h"
  shows "tx_inv contents claimed (tx_boot h)"
  using assms by (simp add: tx_inv_def tx_boot_def)

lemma tx_inv_reach:
  assumes "ring_spec (ue_ring env) contents claimed UART_BUF_SIZE"
  shows "tx_reach env s t \<Longrightarrow> tx_inv contents claimed s \<Longrightarrow> tx_inv contents claimed t"
  by (erule uart_tx.invariant) (auto intro: tx_inv_step [OF assms])

section \<open>Draining\<close>

text \<open>One completed transfer with a driver that accepts the next one.\<close>

lemma tx_done_healthy:
  assumes spec: "ring_spec (ue_ring env) contents claimed UART_BUF_SIZE" and inv: "tx_inv contents claimed s"
    and pc: "ts_pc s = Tx_Idle" and ok: "ts_faults s = 0" and ne: "contents (uh_ring (ts_uart s)) \<noteq> []"
  obtains s' where "tx_step env s s'" "ts_faults s' = 0" "ts_pc s' = Tx_Idle" "ts_accepted s' = ts_accepted s"
    "length (contents (uh_ring (ts_uart s'))) < length (contents (uh_ring (ts_uart s))) \<or>
     ts_flight s = Some [] \<and> ts_flight s' \<noteq> Some [] \<and> ts_flight s' \<noteq> None \<and>
     contents (uh_ring (ts_uart s')) = contents (uh_ring (ts_uart s))"
proof -
  obtain bs where bs: "ts_flight s = Some bs"
    using inv pc ok ne by (auto simp: tx_inv_def Let_def)
  define e where "e = env\<lparr>ue_ret := \<lambda>_. 0\<rparr>"
  define h where "h = uart_tx_finish e (length bs) (ts_uart s)"
  define again where "again = (ring_used (ue_ring e) (uh_ring h) \<noteq> 0)"
  define s' where "s' = s\<lparr>ts_uart := snd (uart_callback e (UART_TX_DONE (length bs)) (ts_uart s)),
      ts_sent := ts_sent s @ bs, ts_flight := (if again then tx_flight e h else None),
      ts_faults := ts_faults s + (if again then tx_fault e h else 0)\<rparr>"
  have step: "tx_step env s s'"
    unfolding s'_def using bs e_def h_def again_def by (rule tx_step.tx_done)
  have inv': "tx_inv contents claimed s'"
    by (rule tx_inv_step [OF spec inv step])
  have flt: "tx_fault e h = 0" "tx_flight e h = Some (tx_claimed e h)"
    by (simp_all add: tx_fault_def tx_flight_def e_def)
  have acc: "ts_sent s @ contents (uh_ring (ts_uart s)) = (ts_sent s @ bs) @ contents (uh_ring (ts_uart s'))"
    using inv inv' by (simp add: tx_inv_def Let_def s'_def)
  have espec: "ring_spec (ue_ring e) contents claimed UART_BUF_SIZE"
    using spec by (simp add: e_def)
  have cl: "length bs \<le> claimed (uh_ring (ts_uart s))"
    using inv bs by (simp add: tx_inv_def Let_def)
  have h: "claimed (uh_ring h) = 0" "contents (uh_ring h) = drop (length bs) (contents (uh_ring (ts_uart s)))"
    unfolding h_def by (rule tx_finish_ring [OF espec cl])+
  have drop: "length (contents (uh_ring (ts_uart s'))) < length (contents (uh_ring (ts_uart s)))" if "bs \<noteq> []"
    using acc that by simp
  have same: "contents (uh_ring (ts_uart s')) = contents (uh_ring (ts_uart s))" if "bs = []"
    using acc that by simp
  have empty: "ts_flight s' \<noteq> Some []" "ts_flight s' \<noteq> None" if "bs = []"
    using that ne h tx_claimed_take(2) [OF espec h(1)] ring_used_ok [OF espec, of "uh_ring h"] flt
    by (auto simp: s'_def again_def)
  have "length (contents (uh_ring (ts_uart s'))) < length (contents (uh_ring (ts_uart s))) \<or>
     ts_flight s = Some [] \<and> ts_flight s' \<noteq> Some [] \<and> ts_flight s' \<noteq> None \<and>
     contents (uh_ring (ts_uart s')) = contents (uh_ring (ts_uart s))"
    using drop same empty bs by (cases "bs = []") blast+
  moreover have "ts_faults s' = 0" "ts_pc s' = Tx_Idle" "ts_accepted s' = ts_accepted s"
    using pc ok flt by (simp_all add: s'_def)
  ultimately show thesis
    using that [OF step] by blast
qed

lemma tx_drain:
  assumes spec: "ring_spec (ue_ring env) contents claimed UART_BUF_SIZE"
  shows "tx_inv contents claimed s \<Longrightarrow> ts_pc s = Tx_Idle \<Longrightarrow> ts_faults s = 0 \<Longrightarrow>
    \<exists>t. tx_reach env s t \<and> ts_accepted t = ts_accepted s \<and> ts_sent t = ts_accepted s"
proof (induction "(length (contents (uh_ring (ts_uart s))), if ts_flight s = Some [] then 1 else 0 :: nat)"
    arbitrary: s rule: wf_induct_rule [OF wf_lex_prod [OF wf_less_than wf_less_than]])
  case 1
  show ?case
  proof (cases "contents (uh_ring (ts_uart s)) = []")
    case True
    then have "ts_sent s = ts_accepted s"
      using 1(2) by (simp add: tx_inv_def Let_def)
    then show ?thesis by (auto intro: tx_refl)
  next
    case False
    obtain s' where s': "tx_step env s s'" "ts_faults s' = 0" "ts_pc s' = Tx_Idle" "ts_accepted s' = ts_accepted s"
      "length (contents (uh_ring (ts_uart s'))) < length (contents (uh_ring (ts_uart s))) \<or>
       ts_flight s = Some [] \<and> ts_flight s' \<noteq> Some [] \<and> ts_flight s' \<noteq> None \<and>
       contents (uh_ring (ts_uart s')) = contents (uh_ring (ts_uart s))"
      by (rule tx_done_healthy [OF spec 1(2-4) False])
    have inv': "tx_inv contents claimed s'"
      by (rule tx_inv_step [OF spec 1(2) s'(1)])
    have "\<exists>t. tx_reach env s' t \<and> ts_accepted t = ts_accepted s' \<and> ts_sent t = ts_accepted s'"
      by (rule 1(1)) (use s' inv' in auto)
    then show ?thesis
      using s'(1,4) by (auto intro: uart_tx.first)
  qed
qed

section \<open>Stuck states\<close>

text \<open>
  Two states the path cannot leave: the flag says started and nothing is in flight,
  or the flag says stopped and the ring is full.
\<close>

definition tx_wedged :: "('s, 'r) tx_sys \<Rightarrow> bool" where
  "tx_wedged s \<longleftrightarrow> uh_tx_started (ts_uart s) \<and> ts_flight s = None \<and> ts_pc s \<noteq> Tx_Start"

definition tx_full_stopped :: "('r \<Rightarrow> u8 list) \<Rightarrow> ('s, 'r) tx_sys \<Rightarrow> bool" where
  "tx_full_stopped contents s \<longleftrightarrow> \<not> uh_tx_started (ts_uart s) \<and> ts_flight s = None \<and> ts_pc s = Tx_Idle \<and>
     length (contents (uh_ring (ts_uart s))) = UART_BUF_SIZE"

lemma tx_wedged_step: "tx_step env s t \<Longrightarrow> tx_wedged s \<Longrightarrow> tx_wedged t \<and> ts_sent t = ts_sent s"
  by (induction rule: tx_step.induct)
    (auto simp: tx_wedged_def tx_put_def tx_swap_def rx_event_frame split: prod.splits)

lemma tx_full_step:
  assumes spec: "ring_spec (ue_ring env) contents claimed UART_BUF_SIZE"
  shows "tx_step env s t \<Longrightarrow> tx_full_stopped contents s \<Longrightarrow> tx_full_stopped contents t \<and> ts_sent t = ts_sent s"
proof (induction rule: tx_step.induct)
  case (put s d w h)
  obtain r where r: "ring_put (ue_ring env) d (uh_ring (ts_uart s)) = (w, r)" "h = (ts_uart s)\<lparr>uh_ring := r\<rparr>"
    using put(2) by (auto simp: tx_put_def split: prod.splits)
  then show ?case
    using put(3) ring_put_ok [OF spec r(1)] by (simp add: tx_full_stopped_def)
qed (auto simp: tx_full_stopped_def rx_event_frame)

lemma tx_wedged_forever:
  assumes "tx_reach env s t" "tx_wedged s"
  shows "ts_flight t = None \<and> ts_sent t = ts_sent s"
proof -
  have "tx_wedged t \<and> ts_sent t = ts_sent s"
    by (rule uart_tx.invariant [OF assms(1)]) (use assms(2) in \<open>auto dest: tx_wedged_step\<close>)
  then show ?thesis by (simp add: tx_wedged_def)
qed

lemma tx_full_forever:
  assumes "ring_spec (ue_ring env) contents claimed UART_BUF_SIZE" "tx_reach env s t" "tx_full_stopped contents s"
  shows "ts_flight t = None \<and> ts_sent t = ts_sent s"
proof -
  have "tx_full_stopped contents t \<and> ts_sent t = ts_sent s"
    by (rule uart_tx.invariant [OF assms(2)]) (use assms(3) in \<open>auto dest: tx_full_step [OF assms(1)]\<close>)
  then show ?thesis by (simp add: tx_full_stopped_def)
qed

section \<open>Runs\<close>

text \<open>Start-up: the state the path is in once the module has seen the main module ready.\<close>

definition tx_start_up :: "('s, 'r) uart_env \<Rightarrow> ('s, 'r) uart \<Rightarrow> ('s, 'r) tx_sys" where
  "tx_start_up env h =
     tx_boot (snd (uart_on_module_state env \<lparr>ms_module_id = Module_Main, ms_state = MODULE_STATE_READY\<rparr> h))"

definition uart_usable :: "('s, 'r) uart_env \<Rightarrow> bool" where
  "uart_usable env \<longleftrightarrow> ue_ready env \<and> (case ue_config env of Inl e \<Rightarrow> False | Inr cfg \<Rightarrow> True)"

lemma tx_start_up_boot:
  assumes "ring_spec (ue_ring env) contents claimed cap" "uart_usable env"
  obtains h' where "tx_start_up env h = tx_boot h'" "contents (uh_ring h') = []" "claimed (uh_ring h') = 0"
    "\<not> uh_tx_started h'"
  using assms(2) ring_init_ok [OF assms(1)]
  by (auto simp: tx_start_up_def uart_usable_def uart_on_module_state_def main_ready_def check_state_def Let_def
      split: sum.splits)

lemma tx_inv_start_up:
  assumes "ring_spec (ue_ring env) contents claimed UART_BUF_SIZE" "uart_usable env"
  shows "tx_inv contents claimed (tx_start_up env h)"
  by (rule tx_start_up_boot [OF assms, of h]) (use tx_inv_boot [OF assms(1)] in auto)

lemma tx_put_all:
  assumes spec: "ring_spec (ue_ring env) contents claimed UART_BUF_SIZE"
    and room: "length (contents (uh_ring h)) + length d \<le> UART_BUF_SIZE"
  obtains h' where "tx_put env d h = (length d, h')" "contents (uh_ring h') = contents (uh_ring h) @ d"
    "claimed (uh_ring h') = claimed (uh_ring h)" "uh_tx_started h' = uh_tx_started h"
proof -
  obtain w r where r: "ring_put (ue_ring env) d (uh_ring h) = (w, r)"
    by (cases "ring_put (ue_ring env) d (uh_ring h)")
  have "w = length d"
    using ring_put_ok(1) [OF spec r] room by simp
  then show thesis
    using that [of "h\<lparr>uh_ring := r\<rparr>"] ring_put_ok(2,3) [OF spec r] r by (simp add: tx_put_def)
qed

text \<open>
  From start-up, a caller's bytes reach the point where the driver is asked to send
  them; with a driver that answers \<open>ret\<close> the thread is at rest again.
\<close>

lemma tx_first_send:
  assumes spec: "ring_spec (ue_ring env) contents claimed UART_BUF_SIZE" and use: "uart_usable env"
    and d: "d \<noteq> []" "length d \<le> UART_BUF_SIZE"
  obtains s e where "tx_reach env (tx_start_up env h) s" "ts_pc s = Tx_Idle" "ts_sent s = []" "ts_accepted s = d"
    "contents (uh_ring (ts_uart s)) = d" "ts_flight s = tx_flight (env\<lparr>ue_ret := ret\<rparr>) e"
    "uh_tx_started (ts_uart s) \<longleftrightarrow> ts_flight s \<noteq> None" "tx_claimed (env\<lparr>ue_ret := ret\<rparr>) e \<noteq> []"
    "contents (uh_ring e) = d" "claimed (uh_ring e) = 0"
proof -
  let ?e = "env\<lparr>ue_ret := ret\<rparr>"
  have espec: "ring_spec (ue_ring ?e) contents claimed UART_BUF_SIZE"
    using spec by simp
  obtain h0 where h0: "tx_start_up env h = tx_boot h0" "contents (uh_ring h0) = []" "claimed (uh_ring h0) = 0"
    "\<not> uh_tx_started h0"
    by (rule tx_start_up_boot [OF spec use])
  obtain h1 where h1: "tx_put env d h0 = (length d, h1)" "contents (uh_ring h1) = d" "claimed (uh_ring h1) = 0"
    "uh_tx_started h1 = False"
    by (rule tx_put_all [OF spec, of h0 d]) (use d h0 in auto)
  define h2 where "h2 = h1\<lparr>uh_tx_started := True\<rparr>"
  define s1 where "s1 = (tx_boot h0)\<lparr>ts_uart := h1, ts_pc := Tx_Swap, ts_accepted := d\<rparr>"
  define s2 where "s2 = s1\<lparr>ts_uart := h2, ts_pc := Tx_Start\<rparr>"
  define s3 where "s3 = s2\<lparr>ts_uart := tx_start_or_clear ?e h2, ts_pc := Tx_Idle, ts_flight := tx_flight ?e h2,
      ts_faults := ts_faults s2 + tx_fault ?e h2\<rparr>"
  have "tx_step env (tx_boot h0) s1"
    using tx_step.put [of "tx_boot h0" env d "length d" h1] h1(1) d(1) by (simp add: s1_def tx_boot_def)
  moreover have "tx_step env s1 s2"
    using tx_step.swap [of s1 False h2 env] h1(4) by (simp add: s2_def s1_def h2_def tx_swap_def)
  moreover have "tx_step env s2 s3"
    using tx_step.start [where s = s2 and e = ?e and ret = ret and env = env] by (simp add: s3_def s2_def)
  ultimately have reach: "tx_reach env (tx_start_up env h) s3"
    unfolding h0(1) by (blast intro: uart_tx.one tx_next)
  have c: "claimed (uh_ring h2) = 0" "contents (uh_ring h2) = d" "uh_tx_started h2"
    using h1 by (simp_all add: h2_def)
  show thesis
    by (rule that [of s3 h2, OF reach])
      (use start_or_clear_effect [OF espec c(1)] tx_claimed_take(2) [OF espec c(1)] c d in
        \<open>auto simp: s3_def s2_def s1_def tx_boot_def\<close>)
qed

lemma tx_more_bytes:
  assumes spec: "ring_spec (ue_ring env) contents claimed UART_BUF_SIZE" and pc: "ts_pc s = Tx_Idle" and d: "d \<noteq> []"
    and room: "length (contents (uh_ring (ts_uart s))) + length d \<le> UART_BUF_SIZE"
  obtains t where "tx_step env s t" "ts_pc t = Tx_Swap" "ts_flight t = ts_flight s"
    "contents (uh_ring (ts_uart t)) = contents (uh_ring (ts_uart s)) @ d"
    "claimed (uh_ring (ts_uart t)) = claimed (uh_ring (ts_uart s))" "uh_tx_started (ts_uart t) = uh_tx_started (ts_uart s)"
    "ts_accepted t = ts_accepted s @ d" "ts_sent t = ts_sent s"
proof -
  obtain h where h: "tx_put env d (ts_uart s) = (length d, h)" "contents (uh_ring h) = contents (uh_ring (ts_uart s)) @ d"
    "claimed (uh_ring h) = claimed (uh_ring (ts_uart s))" "uh_tx_started h = uh_tx_started (ts_uart s)"
    by (rule tx_put_all [OF spec room])
  show thesis
    by (rule that [OF tx_step.put [OF pc h(1)]]) (use d h in simp_all)
qed

lemma tx_enqueued_behind_flight:
  assumes spec: "ring_spec (ue_ring env) contents claimed UART_BUF_SIZE" and use: "uart_usable env"
  obtains s where "tx_reach env (tx_start_up env h) s" "ts_pc s = Tx_Swap" "ts_sent s = []"
    "ts_flight s = Some [x]" "contents (uh_ring (ts_uart s)) = [x, y]" "claimed (uh_ring (ts_uart s)) = 1"
    "uh_tx_started (ts_uart s)" "ts_accepted s = [x, y]"
proof -
  obtain s e where s: "tx_reach env (tx_start_up env h) s" "ts_pc s = Tx_Idle" "ts_sent s = []" "ts_accepted s = [x]"
    "contents (uh_ring (ts_uart s)) = [x]" "ts_flight s = tx_flight (env\<lparr>ue_ret := \<lambda>_. 0\<rparr>) e"
    "uh_tx_started (ts_uart s) \<longleftrightarrow> ts_flight s \<noteq> None" "tx_claimed (env\<lparr>ue_ret := \<lambda>_. 0\<rparr>) e \<noteq> []"
    "contents (uh_ring e) = [x]" "claimed (uh_ring e) = 0"
    by (rule tx_first_send [OF spec use, of "[x]" h "\<lambda>_. 0"]) (simp_all add: UART_BUF_SIZE_def)
  have "tx_claimed (env\<lparr>ue_ret := \<lambda>_. 0\<rparr>) e = take (length (tx_claimed (env\<lparr>ue_ret := \<lambda>_. 0\<rparr>) e)) [x]"
    using tx_claimed_take(1) [of "env\<lparr>ue_ret := \<lambda>_. 0\<rparr>" contents claimed e] spec s(9,10) by simp
  then have fl: "ts_flight s = Some [x]"
    using s(6,8) by (cases "tx_claimed (env\<lparr>ue_ret := \<lambda>_. 0\<rparr>) e") (simp_all add: tx_flight_def)
  have cl: "claimed (uh_ring (ts_uart s)) = 1"
    using tx_inv_reach [OF spec s(1) tx_inv_start_up [OF spec use]] fl by (simp add: tx_inv_def Let_def)
  obtain t where t: "tx_step env s t" "ts_pc t = Tx_Swap" "ts_flight t = ts_flight s"
    "contents (uh_ring (ts_uart t)) = contents (uh_ring (ts_uart s)) @ [y]"
    "claimed (uh_ring (ts_uart t)) = claimed (uh_ring (ts_uart s))" "uh_tx_started (ts_uart t) = uh_tx_started (ts_uart s)"
    "ts_accepted t = ts_accepted s @ [y]" "ts_sent t = ts_sent s"
    by (rule tx_more_bytes [OF spec s(2), of "[y]"]) (use s in \<open>simp_all add: UART_BUF_SIZE_def\<close>)
  show thesis
    by (rule that [of t]) (use s t fl cl in \<open>auto intro: tx_next\<close>)
qed

text \<open>The end of a transfer of one byte with one more waiting.\<close>

lemma tx_done_one:
  assumes spec: "ring_spec (ue_ring env) contents claimed UART_BUF_SIZE"
    and s: "ts_flight s = Some [x]" "contents (uh_ring (ts_uart s)) = x # ys" "claimed (uh_ring (ts_uart s)) = 1"
  obtains t h where "tx_step env s t" "ts_pc t = ts_pc s" "ts_sent t = ts_sent s @ [x]" "ts_accepted t = ts_accepted s"
    "contents (uh_ring h) = ys" "claimed (uh_ring h) = 0"
    "ts_flight t = (if ys = [] then None else tx_flight (env\<lparr>ue_ret := ret\<rparr>) h)"
    "uh_tx_started (ts_uart t) \<longleftrightarrow> ys \<noteq> [] \<and> uh_tx_started (ts_uart s)"
    "contents (uh_ring (ts_uart t)) = ys" "claimed (uh_ring (ts_uart t)) = flight_length (ts_flight t)"
proof -
  define e where "e = env\<lparr>ue_ret := ret\<rparr>"
  have espec: "ring_spec (ue_ring e) contents claimed UART_BUF_SIZE"
    using spec by (simp add: e_def)
  define h where "h = uart_tx_finish e (length [x]) (ts_uart s)"
  have cl: "length [x] \<le> claimed (uh_ring (ts_uart s))"
    using s(3) by simp
  have h: "contents (uh_ring h) = ys" "claimed (uh_ring h) = 0" "uh_tx_started h = uh_tx_started (ts_uart s)"
    using tx_finish_ring [OF espec cl] s(2) by (simp_all add: h_def)
  define again where "again = (ring_used (ue_ring e) (uh_ring h) \<noteq> 0)"
  have again: "again \<longleftrightarrow> ys \<noteq> []"
    using ring_used_ok [OF espec] h(1) by (simp add: again_def)
  have cb: "snd (uart_callback e (UART_TX_DONE (length [x])) (ts_uart s)) =
      (if again then snd (uart_tx_start e h) else h\<lparr>uh_tx_started := False\<rparr>)"
    by (simp add: uart_callback_def Let_def h_def again_def)
  note step = tx_step.tx_done [OF s(1) e_def h_def again_def, unfolded cb]
  note st = tx_start_effect [OF espec h(2)]
  show thesis
    by (rule that [OF step, of h]) (use h again st in \<open>auto simp: e_def\<close>)
qed

text \<open>\<open>uart_tx_enqueue\<close> without an interrupt is a run of the three parts.\<close>

lemma uart_tx_enqueue_run:
  assumes "ts_pc s = Tx_Idle" "e = env\<lparr>ue_ret := ret\<rparr>"
  shows "\<exists>t. tx_reach env s t \<and> ts_pc t = Tx_Idle \<and> ts_uart t = snd (uart_tx_enqueue e d (ts_uart s)) \<and>
    ts_sent t = ts_sent s \<and>
    ts_accepted t = ts_accepted s @ take (fst (tx_put e d (ts_uart s))) d"
proof -
  obtain w h where put: "tx_put env d (ts_uart s) = (w, h)" "tx_put e d (ts_uart s) = (w, h)"
    by (cases "tx_put env d (ts_uart s)") (simp add: assms(2) tx_put_def)
  define s1 where "s1 = s\<lparr>ts_uart := h, ts_pc := (if w = 0 then Tx_Idle else Tx_Swap),
      ts_accepted := ts_accepted s @ take w d\<rparr>"
  have 1: "tx_reach env s s1"
    unfolding s1_def by (rule uart_tx.one, rule tx_step.put [OF assms(1) put(1)])
  show ?thesis
  proof (cases "w = 0")
    case True
    then show ?thesis
      using 1 put by (auto simp: s1_def uart_tx_enqueue_def intro!: exI [of _ s1])
  next
    case False
    define s2 where "s2 = s1\<lparr>ts_uart := h\<lparr>uh_tx_started := True\<rparr>,
        ts_pc := (if uh_tx_started h then Tx_Idle else Tx_Start)\<rparr>"
    have 2: "tx_step env s1 s2"
      using tx_step.swap [of s1 "uh_tx_started h" "h\<lparr>uh_tx_started := True\<rparr>" env] False
      by (simp add: s2_def s1_def tx_swap_def)
    show ?thesis
    proof (cases "uh_tx_started h")
      case True
      then show ?thesis
        using tx_next [OF 1 2] put False
        by (auto simp: s1_def s2_def uart_tx_enqueue_def tx_swap_def Let_def intro!: exI [of _ s2])
    next
      case not: False
      define s3 where "s3 = s2\<lparr>ts_uart := tx_start_or_clear e (ts_uart s2), ts_pc := Tx_Idle,
          ts_flight := tx_flight e (ts_uart s2), ts_faults := ts_faults s2 + tx_fault e (ts_uart s2)\<rparr>"
      have "tx_step env s2 s3"
        unfolding s3_def by (rule tx_step.start [OF _ assms(2)]) (simp add: s2_def not)
      then have "tx_reach env s s3"
        by (rule tx_next [OF tx_next [OF 1 2]])
      then show ?thesis
        using put False not
        by (auto simp: s1_def s2_def s3_def uart_tx_enqueue_def tx_swap_def Let_def intro!: exI [of _ s3])
    qed
  qed
qed

section \<open>Properties\<close>

text \<open>
  C9. The transmit path is a faithful queue whatever the driver does and wherever its
  interrupt falls: the bytes taken from callers are, in order, the bytes sent followed
  by those in the ring, and what is in flight is the front of the ring. While no
  transfer has been refused or aborted, a thread at rest leaves no byte in the ring
  without a transfer under way, and the path can send everything it has taken.
\<close>

theorem uart_tx_fifo:
  assumes "ring_spec (ue_ring env) contents claimed UART_BUF_SIZE" "uart_usable env"
    and "tx_reach env (tx_start_up env h) s"
  shows "ts_accepted s = ts_sent s @ contents (uh_ring (ts_uart s)) \<and>
    (case ts_flight s of None \<Rightarrow> True | Some bs \<Rightarrow> bs = take (length bs) (contents (uh_ring (ts_uart s)))) \<and>
    (ts_faults s = 0 \<and> ts_pc s = Tx_Idle \<longrightarrow>
       (contents (uh_ring (ts_uart s)) \<noteq> [] \<longrightarrow> ts_flight s \<noteq> None) \<and>
       (\<exists>t. tx_reach env s t \<and> ts_accepted t = ts_accepted s \<and> ts_sent t = ts_accepted s))"
proof -
  have inv: "tx_inv contents claimed s"
    by (rule tx_inv_reach [OF assms(1,3) tx_inv_start_up [OF assms(1,2)]])
  then show ?thesis
    using tx_drain [OF assms(1) inv] by (auto simp: tx_inv_def Let_def split: option.split)
qed

text \<open>
  A refused restart wedges the path for good: when the driver refuses the transfer the
  completion interrupt starts, \<open>uart_callback\<close> ignores the error and leaves the started
  flag set. From start-up such a state with a byte waiting is reachable, and from it
  nothing is ever sent again, whatever is enqueued.
\<close>

theorem uart_tx_restart_wedge:
  assumes spec: "ring_spec (ue_ring env) contents claimed UART_BUF_SIZE" and use: "uart_usable env"
  shows "\<exists>s. tx_reach env (tx_start_up env h) s \<and> ts_sent s = [1] \<and> ts_accepted s = [1, 2] \<and>
    (\<forall>t. tx_reach env s t \<longrightarrow> ts_flight t = None \<and> ts_sent t = [1])"
proof -
  obtain s where s: "tx_reach env (tx_start_up env h) s" "ts_pc s = Tx_Swap" "ts_sent s = []"
    "ts_flight s = Some [1]" "contents (uh_ring (ts_uart s)) = [1, 2]" "claimed (uh_ring (ts_uart s)) = 1"
    "uh_tx_started (ts_uart s)" "ts_accepted s = [1, 2]"
    by (rule tx_enqueued_behind_flight [OF spec use])
  obtain t e where t: "tx_step env s t" "ts_pc t = ts_pc s" "ts_sent t = ts_sent s @ [1]" "ts_accepted t = ts_accepted s"
    "contents (uh_ring e) = [2]" "claimed (uh_ring e) = 0"
    "ts_flight t = (if [2 :: u8] = [] then None else tx_flight (env\<lparr>ue_ret := \<lambda>_. - EBUSY\<rparr>) e)"
    "uh_tx_started (ts_uart t) \<longleftrightarrow> [2 :: u8] \<noteq> [] \<and> uh_tx_started (ts_uart s)"
    "contents (uh_ring (ts_uart t)) = [2]" "claimed (uh_ring (ts_uart t)) = flight_length (ts_flight t)"
    by (rule tx_done_one [OF spec s(4,5,6)]) blast
  have "tx_wedged t"
    using s t by (simp add: tx_wedged_def tx_flight_def)
  then have "\<forall>u. tx_reach env t u \<longrightarrow> ts_flight u = None \<and> ts_sent u = [1]"
    using tx_wedged_forever [of env t] s(3) t(3) by auto
  then show ?thesis
    using s t by (auto intro!: exI [of _ t] tx_next [OF s(1) t(1)])
qed

text \<open>
  A refused first transfer with a full ring blocks the path for good: the flag says
  stopped, but \<open>uart_tx_enqueue\<close> returns before it looks at it because nothing fits.
\<close>

theorem uart_tx_full_stuck:
  assumes spec: "ring_spec (ue_ring env) contents claimed UART_BUF_SIZE" and use: "uart_usable env"
  shows "\<exists>s. tx_reach env (tx_start_up env h) s \<and> \<not> uh_tx_started (ts_uart s) \<and>
    length (contents (uh_ring (ts_uart s))) = UART_BUF_SIZE \<and>
    (\<forall>t. tx_reach env s t \<longrightarrow> ts_flight t = None \<and> ts_sent t = [])"
proof -
  let ?d = "replicate UART_BUF_SIZE (0 :: u8)"
  obtain s e where s: "tx_reach env (tx_start_up env h) s" "ts_pc s = Tx_Idle" "ts_sent s = []" "ts_accepted s = ?d"
    "contents (uh_ring (ts_uart s)) = ?d" "ts_flight s = tx_flight (env\<lparr>ue_ret := \<lambda>_. - EBUSY\<rparr>) e"
    "uh_tx_started (ts_uart s) \<longleftrightarrow> ts_flight s \<noteq> None" "tx_claimed (env\<lparr>ue_ret := \<lambda>_. - EBUSY\<rparr>) e \<noteq> []"
    "contents (uh_ring e) = ?d" "claimed (uh_ring e) = 0"
    by (rule tx_first_send [OF spec use, of ?d h "\<lambda>_. - EBUSY"]) (simp_all add: UART_BUF_SIZE_def)
  have fl: "ts_flight s = None"
    using s(6) by (simp add: tx_flight_def)
  then have "tx_full_stopped contents s"
    using s by (simp add: tx_full_stopped_def)
  then have "\<forall>t. tx_reach env s t \<longrightarrow> ts_flight t = None \<and> ts_sent t = []"
    using tx_full_forever [OF spec, of s] s(3) by auto
  then show ?thesis
    using s fl by auto
qed

text \<open>
  The put and the exchange of the flag are not one step: when the running transfers
  end between them, the thread finds the flag clear and asks the driver to send no
  bytes at all.
\<close>

lemma uart_tx_empty_transfer:
  assumes spec: "ring_spec (ue_ring env) contents claimed UART_BUF_SIZE" and use: "uart_usable env"
  shows "\<exists>s. tx_reach env (tx_start_up env h) s \<and> ts_pc s = Tx_Start \<and> contents (uh_ring (ts_uart s)) = [] \<and>
    tx_claimed env (ts_uart s) = []"
proof -
  obtain s where s: "tx_reach env (tx_start_up env h) s" "ts_pc s = Tx_Swap" "ts_sent s = []"
    "ts_flight s = Some [1]" "contents (uh_ring (ts_uart s)) = [1, 2]" "claimed (uh_ring (ts_uart s)) = 1"
    "uh_tx_started (ts_uart s)" "ts_accepted s = [1, 2]"
    by (rule tx_enqueued_behind_flight [OF spec use])
  have es: "ring_spec (ue_ring (env\<lparr>ue_ret := \<lambda>_. 0\<rparr>)) contents claimed UART_BUF_SIZE"
    using spec by simp
  obtain t e where t: "tx_step env s t" "ts_pc t = ts_pc s" "ts_sent t = ts_sent s @ [1]" "ts_accepted t = ts_accepted s"
    "contents (uh_ring e) = [2]" "claimed (uh_ring e) = 0"
    "ts_flight t = (if [2 :: u8] = [] then None else tx_flight (env\<lparr>ue_ret := \<lambda>_. 0\<rparr>) e)"
    "uh_tx_started (ts_uart t) \<longleftrightarrow> [2 :: u8] \<noteq> [] \<and> uh_tx_started (ts_uart s)"
    "contents (uh_ring (ts_uart t)) = [2]" "claimed (uh_ring (ts_uart t)) = flight_length (ts_flight t)"
    by (rule tx_done_one [OF spec s(4,5,6)]) blast
  have fl: "ts_flight t = Some [2]"
    using t(5,6,7) tx_claimed_take [OF es t(6)]
    by (cases "tx_claimed (env\<lparr>ue_ret := \<lambda>_. 0\<rparr>) e") (simp_all add: tx_flight_def)
  have c1: "claimed (uh_ring (ts_uart t)) = 1"
    using t(10) fl by simp
  obtain u e' where u: "tx_step env t u" "ts_pc u = ts_pc t" "ts_sent u = ts_sent t @ [2]" "ts_accepted u = ts_accepted t"
    "contents (uh_ring e') = []" "claimed (uh_ring e') = 0"
    "ts_flight u = (if [] = ([] :: u8 list) then None else tx_flight (env\<lparr>ue_ret := \<lambda>_. 0\<rparr>) e')"
    "uh_tx_started (ts_uart u) \<longleftrightarrow> [] \<noteq> ([] :: u8 list) \<and> uh_tx_started (ts_uart t)"
    "contents (uh_ring (ts_uart u)) = []" "claimed (uh_ring (ts_uart u)) = flight_length (ts_flight u)"
    by (rule tx_done_one [OF spec fl t(9) c1]) blast
  define v where "v = u\<lparr>ts_uart := (ts_uart u)\<lparr>uh_tx_started := True\<rparr>, ts_pc := Tx_Start\<rparr>"
  have "tx_step env u v"
    using tx_step.swap [of u False "(ts_uart u)\<lparr>uh_tx_started := True\<rparr>" env] u t s
    by (simp add: v_def tx_swap_def)
  then have "tx_reach env (tx_start_up env h) v"
    using s(1) t(1) u(1) by (blast intro: tx_next)
  moreover have "claimed (uh_ring (ts_uart v)) = 0" "contents (uh_ring (ts_uart v)) = []"
    using u by (simp_all add: v_def)
  moreover from this have "tx_claimed env (ts_uart v) = []"
    using tx_claimed_take(1) [OF spec, of "ts_uart v"] by simp
  ultimately show ?thesis
    by (auto simp: v_def)
qed

section \<open>Witnesses\<close>

definition sample_uart_env :: "(u32 list, u8 list \<times> nat) uart_env" where
  "sample_uart_env = \<lparr>ue_slab = list_slab {0x20000000, 0x20000208, 0x20000410}, ue_ring = list_ring UART_BUF_SIZE,
     ue_base = 0x20000000, ue_dev = True, ue_ready = True, ue_pm = True, ue_legacy_shim = False,
     ue_config = Inr \<lparr>uc_baudrate = 115200, uc_parity = 0, uc_stop_bits = 1, uc_data_bits = 3, uc_flow_ctrl = 0\<rparr>,
     ue_ret = (\<lambda>_. 0)\<rparr>"

lemma sample_uart_env_ok:
  "ring_spec (ue_ring sample_uart_env) (ring_data UART_BUF_SIZE) (ring_taken UART_BUF_SIZE) UART_BUF_SIZE"
  "uart_usable sample_uart_env"
  by (simp_all add: sample_uart_env_def list_ring_spec uart_usable_def)

lemma uart_tx_fifo_witness:
  "\<exists>s. tx_reach sample_uart_env (tx_start_up sample_uart_env (uart_reset [] ([], 0))) s \<and> ts_pc s = Tx_Idle \<and>
    ts_sent s @ ring_data UART_BUF_SIZE (uh_ring (ts_uart s)) = [7]"
proof -
  obtain s e where s: "tx_reach sample_uart_env (tx_start_up sample_uart_env (uart_reset [] ([], 0))) s"
    "ts_pc s = Tx_Idle" "ts_accepted s = [7]"
    by (rule tx_first_send [OF sample_uart_env_ok, of "[7]" "uart_reset [] ([], 0)" "\<lambda>_. 0"])
      (simp_all add: UART_BUF_SIZE_def)
  then show ?thesis
    using uart_tx_fifo [OF sample_uart_env_ok s(1)] by (intro exI [of _ s]) simp
qed

lemma uart_tx_restart_wedge_witness:
  "\<exists>s. tx_reach sample_uart_env (tx_start_up sample_uart_env (uart_reset [] ([], 0))) s \<and> ts_sent s = [1] \<and>
    ts_accepted s = [1, 2] \<and> (\<forall>t. tx_reach sample_uart_env s t \<longrightarrow> ts_flight t = None \<and> ts_sent t = [1])"
  by (rule uart_tx_restart_wedge [OF sample_uart_env_ok])

lemma uart_tx_full_stuck_witness:
  "\<exists>s. tx_reach sample_uart_env (tx_start_up sample_uart_env (uart_reset [] ([], 0))) s \<and>
    \<not> uh_tx_started (ts_uart s) \<and> length (ring_data UART_BUF_SIZE (uh_ring (ts_uart s))) = UART_BUF_SIZE \<and>
    (\<forall>t. tx_reach sample_uart_env s t \<longrightarrow> ts_flight t = None \<and> ts_sent t = [])"
  by (rule uart_tx_full_stuck [OF sample_uart_env_ok])

end
