(* ===== verification/If_Conn.thy ===== *)
theory If_Conn
  imports If_Uart_Tx If_Cdc
begin

text \<open>
  The connection state of the serial bridge: \<open>poll_dtr\<close> of \<open>usb_cdc_handler.c\<close> submits a
  \<open>peer_conn_event\<close> when the host opens or closes its terminal, and \<open>uart_handler.c\<close> counts
  subscribers and opens or closes reception. A history is a list of polls, of events
  handed to the two modules in the order submitted, and of other modules' state
  changes; the state is the two modules and the queue of events between them.
\<close>

record ('u, 'r, 'c) conn =
  cn_uart :: "('u, 'r) uart"
  cn_cdc :: "'c usb_cdc"
  cn_queue :: "app_event list"

datatype conn_op = Poll line_ctrl | Deliver | Submit module_state_event

text \<open>An event reaches both modules; the order does not matter for these two types.\<close>

definition conn_deliver ::
  "('u, 'r) uart_env \<Rightarrow> 'c cdc_env \<Rightarrow> app_event \<Rightarrow> ('u, 'r, 'c) conn \<Rightarrow> ('u, 'r, 'c) conn" where
  "conn_deliver ue ce ev s = s\<lparr>cn_uart := snd (uart_app_event_handler ue (\<lambda>_. 0) ev (cn_uart s)),
     cn_cdc := snd (cdc_app_event_handler ce (\<lambda>_. 0) ev (cn_cdc s))\<rparr>"

fun conn_exec :: "('u, 'r) uart_env \<Rightarrow> 'c cdc_env \<Rightarrow> conn_op \<Rightarrow> ('u, 'r, 'c) conn \<Rightarrow> ('u, 'r, 'c) conn" where
  "conn_exec ue ce (Poll line) s =
     s\<lparr>cn_queue := cn_queue s @ fst (poll_dtr line (cn_cdc s)), cn_cdc := snd (poll_dtr line (cn_cdc s))\<rparr>"
| "conn_exec ue ce Deliver s =
     (case cn_queue s of [] \<Rightarrow> s | ev # evs \<Rightarrow> conn_deliver ue ce ev (s\<lparr>cn_queue := evs\<rparr>))"
| "conn_exec ue ce (Submit e) s = s\<lparr>cn_queue := cn_queue s @ [Module_State e]\<rparr>"

definition conn_run :: "('u, 'r) uart_env \<Rightarrow> 'c cdc_env \<Rightarrow> conn_op list \<Rightarrow> ('u, 'r, 'c) conn \<Rightarrow> ('u, 'r, 'c) conn" where
  "conn_run ue ce ops s = fold (conn_exec ue ce) ops s"

section \<open>The subscriber count\<close>

text \<open>What an event still in the queue will add to the count.\<close>

fun conn_delta :: "app_event \<Rightarrow> int" where
  "conn_delta (Peer_Conn e) =
     (if \<not> pc_conn_state_changed e then 0 else if pc_conn_state e = PEER_STATE_CONNECTED then 1 else - 1)"
| "conn_delta _ = 0"

definition is_peer_conn :: "app_event \<Rightarrow> bool" where
  "is_peer_conn ev \<longleftrightarrow> (case ev of Peer_Conn e \<Rightarrow> pc_dev_idx e = 0 | _ \<Rightarrow> False)"

text \<open>Before the queue's events every prefix of them keeps the count \<open>n\<close> at 0 or 1.\<close>

fun conn_queue_ok :: "int \<Rightarrow> app_event list \<Rightarrow> bool" where
  "conn_queue_ok n [] \<longleftrightarrow> n \<in> {0, 1}"
| "conn_queue_ok n (ev # evs) \<longleftrightarrow> n \<in> {0, 1} \<and> is_peer_conn ev \<and> conn_queue_ok (n + conn_delta ev) evs"

text \<open>\<open>k\<close> is the number of subscribers that no event will ever take away.\<close>

definition conn_inv :: "int \<Rightarrow> ('u, 'r, 'c) conn \<Rightarrow> bool" where
  "conn_inv k s \<longleftrightarrow>
     conn_queue_ok (sint (uh_subscriber_count (cn_uart s)) - k) (cn_queue s) \<and>
     sint (uh_subscriber_count (cn_uart s)) - k + sum_list (map conn_delta (cn_queue s)) =
       (if cd_ready (cn_cdc s) = 0 then 0 else 1) \<and>
     cd_ready (cn_cdc s) \<in> {0, 1}"

definition dtr_ok :: "line_ctrl \<Rightarrow> bool" where
  "dtr_ok line \<longleftrightarrow> (case lc_dtr line of Inl e \<Rightarrow> True | Inr v \<Rightarrow> v \<in> {0, 1})"

definition conn_op_ok :: "conn_op \<Rightarrow> bool" where
  "conn_op_ok op \<longleftrightarrow> (case op of Poll line \<Rightarrow> dtr_ok line | Deliver \<Rightarrow> True | Submit e \<Rightarrow> False)"

lemma conn_queue_ok_first: "conn_queue_ok n q \<Longrightarrow> n \<in> {0, 1}"
  by (cases q) simp_all

lemma conn_queue_ok_append:
  "conn_queue_ok n q \<Longrightarrow> is_peer_conn ev \<Longrightarrow> n + sum_list (map conn_delta q) + conn_delta ev \<in> {0, 1} \<Longrightarrow>
    conn_queue_ok n (q @ [ev])"
  by (induction q arbitrary: n) (auto simp: algebra_simps)

lemma config_count [simp]:
  "uh_subscriber_count (set_uart_baudrate env b h) = uh_subscriber_count h"
  "uh_subscriber_count (set_uart_power_state env a h) = uh_subscriber_count h"
  "uh_subscriber_count (disable_uart_rx env h) = uh_subscriber_count h"
  "uh_subscriber_count (uart_rx_buf_unref env b h) = uh_subscriber_count h"
  by (simp_all add: set_uart_baudrate_def set_uart_power_state_def disable_uart_rx_def uart_rx_buf_unref_def Let_def
      split: sum.split)

lemma enable_count [simp]: "uh_subscriber_count (enable_uart_rx env h) = uh_subscriber_count h"
  by (simp add: enable_uart_rx_def uart_rx_buf_alloc_def Let_def split: prod.split sum.split option.split)

lemma peer_count:
  assumes "ue_dev env" "pc_dev_idx e = 0"
  shows "uh_subscriber_count (snd (uart_on_peer_conn env e h)) =
    (if \<not> pc_conn_state_changed e then uh_subscriber_count h
     else if pc_conn_state e = PEER_STATE_CONNECTED then uh_subscriber_count h + 1
     else uh_subscriber_count h - 1)"
  using assms by (simp add: uart_on_peer_conn_def UART_DEVICE_COUNT_def Let_def)

lemma sint_count_add:
  fixes w :: i32
  assumes "sint w \<in> {0, 1, 2}" "sint w + d \<in> {0, 1, 2}"
  shows "sint (w + of_int d) = sint w + d"
proof -
  have "w + of_int d = of_int (sint w + d)"
    by simp
  also have "sint (of_int (sint w + d) :: i32) = sint w + d"
    using assms(2) by (auto simp del: of_int_add of_int_sint)
  finally show ?thesis .
qed

lemma poll_inv:
  assumes inv: "conn_inv k s" and line: "dtr_ok line"
  shows "conn_inv k (conn_exec ue ce (Poll line) s)"
proof -
  let ?n = "sint (uh_subscriber_count (cn_uart s)) - k"
  have q: "conn_queue_ok ?n (cn_queue s)" "cd_ready (cn_cdc s) \<in> {0, 1}"
    "?n + sum_list (map conn_delta (cn_queue s)) = (if cd_ready (cn_cdc s) = 0 then 0 else 1)"
    using inv by (simp_all add: conn_inv_def)
  show ?thesis
  proof (cases "fst (poll_dtr line (cn_cdc s)) = []")
    case True
    then have "snd (poll_dtr line (cn_cdc s)) = cn_cdc s"
      by (simp add: poll_dtr_def split: sum.splits if_splits)
    with True inv show ?thesis by simp
  next
    case False
    then obtain v b where v: "lc_dtr line = Inr v" "lc_baud_rate line = Inr b"
      "v \<noteq> cd_ready (cn_cdc s) \<or> b \<noteq> cd_baudrate (cn_cdc s)"
      by (auto simp: poll_dtr_def split: sum.splits if_splits)
    define ev where "ev = Peer_Conn \<lparr>pc_peer_id = PEER_ID_USB, pc_dev_idx = 0,
        pc_conn_state = (if v = 0 then PEER_STATE_DISCONNECTED else PEER_STATE_CONNECTED),
        pc_baudrate = b, pc_conn_state_changed = (v \<noteq> cd_ready (cn_cdc s))\<rparr>"
    have poll: "poll_dtr line (cn_cdc s) = ([ev], (cn_cdc s)\<lparr>cd_ready := v, cd_baudrate := b\<rparr>)"
      using v by (simp add: poll_dtr_def ev_def)
    have vr: "v \<in> {0, 1}"
      using line v(1) by (simp add: dtr_ok_def)
    have delta: "(if cd_ready (cn_cdc s) = 0 then 0 else 1) + conn_delta ev = (if v = 0 then 0 else 1)"
      using vr q(2) by (auto simp: ev_def)
    have "conn_queue_ok ?n (cn_queue s @ [ev])"
      using q delta by (intro conn_queue_ok_append) (simp_all add: ev_def is_peer_conn_def)
    then show ?thesis
      using q delta vr by (simp add: conn_inv_def poll)
  qed
qed

lemma deliver_inv:
  assumes inv: "conn_inv k s" and dev: "ue_dev ue" and k: "k \<in> {0, 1}"
  shows "conn_inv k (conn_exec ue ce Deliver s)"
proof (cases "cn_queue s")
  case (Cons ev evs)
  let ?n = "sint (uh_subscriber_count (cn_uart s)) - k"
  have q: "conn_queue_ok ?n (ev # evs)" "?n + (conn_delta ev + sum_list (map conn_delta evs)) =
      (if cd_ready (cn_cdc s) = 0 then 0 else 1)" "cd_ready (cn_cdc s) \<in> {0, 1}"
    using inv Cons by (simp_all add: conn_inv_def)
  then obtain e where e: "ev = Peer_Conn e" "pc_dev_idx e = 0"
    by (auto simp: is_peer_conn_def split: app_event.splits)
  have "conn_queue_ok (?n + conn_delta ev) evs" "?n \<in> {0, 1}"
    using q(1) by simp_all
  moreover from this have "?n + conn_delta ev \<in> {0, 1}"
    using conn_queue_ok_first by blast
  ultimately have "sint (uh_subscriber_count (cn_uart s) + of_int (conn_delta ev)) =
      sint (uh_subscriber_count (cn_uart s)) + conn_delta ev"
    using k by (intro sint_count_add) auto
  then have n': "sint (uh_subscriber_count (snd (uart_on_peer_conn ue e (cn_uart s)))) - k = ?n + conn_delta ev"
    using peer_count [OF dev e(2), of "cn_uart s"] by (simp add: e(1) split: if_splits)
  have "conn_exec ue ce Deliver s =
      s\<lparr>cn_queue := evs, cn_uart := snd (uart_on_peer_conn ue e (cn_uart s))\<rparr>"
    by (simp add: Cons conn_deliver_def uart_app_event_handler_def cdc_app_event_handler_def e(1))
  then show ?thesis
    using q(2,3) \<open>conn_queue_ok (?n + conn_delta ev) evs\<close> unfolding conn_inv_def by (simp add: n')
qed (use inv in simp)

lemma conn_run_inv:
  "list_all conn_op_ok ops \<Longrightarrow> ue_dev ue \<Longrightarrow> k \<in> {0, 1} \<Longrightarrow> conn_inv k s \<Longrightarrow> conn_inv k (conn_run ue ce ops s)"
proof (induction ops arbitrary: s)
  case (Cons op ops)
  have "conn_inv k (conn_exec ue ce op s)"
    using Cons.prems poll_inv [OF Cons.prems(4)] deliver_inv [OF Cons.prems(4,2,3)]
    by (cases op) (auto simp: conn_op_ok_def)
  then show ?case
    using Cons by (simp add: conn_run_def)
qed (simp add: conn_run_def)

definition conn_start :: "('u, 'r) uart \<Rightarrow> 'c usb_cdc \<Rightarrow> ('u, 'r, 'c) conn" where
  "conn_start h c = \<lparr>cn_uart = h, cn_cdc = c, cn_queue = []\<rparr>"

lemma sint_small:
  fixes w :: i32
  shows "sint w = 0 \<Longrightarrow> w = 0" "sint w = 1 \<Longrightarrow> w = 1" "sint w = 2 \<Longrightarrow> w = 2"
  by (rule signed_word_eqI, simp)+

section \<open>Properties\<close>

text \<open>
  While no module changes its state, the count of subscribers follows the terminal
  exactly: after any polls and deliveries, in any order, it is 0 or 1, and once the
  events in between have been delivered it is 1 exactly when the last poll saw the
  terminal open. Nothing depends on what the UART driver answers.
\<close>

theorem conn_count_exact:
  assumes "list_all conn_op_ok ops" "ue_dev ue"
    and "uh_subscriber_count h = 0" "cd_ready c = 0"
  shows "let s = conn_run ue ce ops (conn_start h c); n = uh_subscriber_count (cn_uart s)
    in n \<in> {0, 1} \<and>
       (cn_queue s = [] \<longrightarrow> (n = 1 \<longleftrightarrow> cd_ready (cn_cdc s) = 1) \<and> (n = 0 \<longleftrightarrow> cd_ready (cn_cdc s) = 0))"
proof -
  let ?s = "conn_run ue ce ops (conn_start h c)"
  have "conn_inv 0 (conn_start h c)"
    using assms(3,4) by (simp add: conn_inv_def conn_start_def)
  from conn_run_inv [OF assms(1,2) _ this] have inv: "conn_inv 0 ?s" by simp
  then have "sint (uh_subscriber_count (cn_uart ?s)) \<in> {0, 1}"
    using conn_queue_ok_first by (auto simp: conn_inv_def)
  then have n: "uh_subscriber_count (cn_uart ?s) = 0 \<or> uh_subscriber_count (cn_uart ?s) = 1"
    using sint_small by blast
  then show ?thesis
    using inv by (auto simp: conn_inv_def Let_def)
qed

definition opened :: "u32 \<Rightarrow> line_ctrl" where
  "opened b = \<lparr>lc_dtr = Inr 1, lc_baud_rate = Inr b\<rparr>"

definition closed :: "u32 \<Rightarrow> line_ctrl" where
  "closed b = \<lparr>lc_dtr = Inr 0, lc_baud_rate = Inr b\<rparr>"

text \<open>The host opens its terminal, the cable is pulled, and the terminal is found closed.\<close>

definition unplug_ops :: "u32 \<Rightarrow> conn_op list" where
  "unplug_ops b = [Poll (opened b), Deliver,
     Submit \<lparr>ms_module_id = Module_Usb_Cdc, ms_state = MODULE_STATE_STANDBY\<rparr>, Deliver, Poll (closed b)]"

text \<open>
  A subscriber leaks when USB is unplugged with the terminal open. The handler of
  \<open>module_state_event\<close> clears \<open>cdc_ready\<close> on every state change once the bulk module is
  up, so the closing is never reported. From then on, whatever the host does, the
  count is one too high: it is never 0 again and reception is never closed.
\<close>

theorem conn_unplug_leaks:
  assumes "list_all conn_op_ok ops" "ue_dev ue" "uh_subscriber_count h = 0" "cd_ready c = 0"
    and "cd_bulk_module_ready c" "ce_usb_enable ce = 0"
  shows "let s = conn_run ue ce (unplug_ops b @ ops) (conn_start h c); n = uh_subscriber_count (cn_uart s)
    in n \<in> {1, 2} \<and> (cn_queue s = [] \<longrightarrow> n = 1 + cd_ready (cn_cdc s))"
proof -
  let ?m = "conn_run ue ce (unplug_ops b) (conn_start h c)"
  let ?s = "conn_run ue ce ops ?m"
  have count: "uh_subscriber_count (cn_uart ?m) = 1" and "cd_ready (cn_cdc ?m) = 0" "cn_queue ?m = []"
    using assms(2-6)
    by (simp_all add: conn_run_def unplug_ops_def conn_start_def opened_def closed_def poll_dtr_def
        conn_deliver_def uart_app_event_handler_def cdc_app_event_handler_def peer_count
        uart_on_module_state_def main_ready_def check_state_def cdc_on_module_state_def enable_rx_irq_def
        cdc_call_made_def Let_def)
  then have "conn_inv 1 ?m"
    by (simp add: conn_inv_def)
  from conn_run_inv [OF assms(1,2) _ this] have inv: "conn_inv 1 ?s" by simp
  then have "sint (uh_subscriber_count (cn_uart ?s)) \<in> {1, 2}"
    using conn_queue_ok_first by (fastforce simp: conn_inv_def)
  then have n: "uh_subscriber_count (cn_uart ?s) = 1 \<or> uh_subscriber_count (cn_uart ?s) = 2"
    using sint_small by blast
  have "conn_run ue ce (unplug_ops b @ ops) (conn_start h c) = ?s"
    by (simp add: conn_run_def)
  then show ?thesis
    using n inv by (auto simp: conn_inv_def Let_def)
qed

definition busy_env :: "('u, 'r) uart_env \<Rightarrow> ('u, 'r) uart_env" where
  "busy_env ue = ue\<lparr>ue_ret := \<lambda>c. case c of Rx_Enable a n t \<Rightarrow> - EBUSY | _ \<Rightarrow> 0\<rparr>"

lemma config_retry [simp]:
  "uh_enable_rx_retry (set_uart_baudrate env b h) = uh_enable_rx_retry h"
  "uh_enable_rx_retry (set_uart_power_state env a h) = uh_enable_rx_retry h"
  "uh_enable_rx_retry (disable_uart_rx env h) = uh_enable_rx_retry h"
  "uh_enable_rx_retry (uart_rx_buf_unref env buf h) = uh_enable_rx_retry h"
  by (simp_all add: set_uart_baudrate_def set_uart_power_state_def disable_uart_rx_def uart_rx_buf_unref_def Let_def
      split: sum.split)

lemma enable_retry [simp]: "uh_enable_rx_retry (enable_uart_rx env h) = uh_enable_rx_retry h"
  by (simp add: enable_uart_rx_def uart_rx_buf_alloc_def Let_def split: prod.split sum.split option.split)

lemma peer_retry [simp]: "uh_enable_rx_retry (snd (uart_on_peer_conn env e h)) = uh_enable_rx_retry h"
  by (simp add: uart_on_peer_conn_def Let_def)

text \<open>Polls that find the terminal as it was change nothing.\<close>

lemma conn_idle:
  assumes "cn_queue s = []" "cd_ready (cn_cdc s) = 1" "cd_baudrate (cn_cdc s) = b"
  shows "conn_run ue ce (concat (replicate n [Poll (opened b), Deliver])) s = s"
proof (induction n)
  case (Suc n)
  have "conn_exec ue ce Deliver (conn_exec ue ce (Poll (opened b)) s) = s"
    using assms by (simp add: opened_def poll_dtr_def)
  with Suc show ?case by (simp add: conn_run_def)
qed (simp add: conn_run_def)

text \<open>
  Reopening before the driver has stopped loses reception. When the terminal is closed
  and opened again while the driver is still stopping, it refuses \<open>uart_rx_enable\<close> and
  nothing tries again; the \<open>UART_RX_DISABLED\<close> that follows suspends the device although
  there is a subscriber. Afterwards only closing the terminal and opening it again
  can start reception.
\<close>

theorem conn_reopen_loses_reception:
  assumes "ue_dev ue" "ue_pm ue" "\<not> uh_enable_rx_retry h" "uh_subscriber_count h = 1" "cd_ready c = 1" "cd_baudrate c = b"
  shows "let s1 = conn_run ue ce [Poll (closed b), Deliver] (conn_start h c);
      s2 = conn_run (busy_env ue) ce [Poll (opened b), Deliver] s1;
      h' = snd (uart_callback ue UART_RX_DISABLED (cn_uart s2))
    in uh_subscriber_count (cn_uart s1) = 0 \<and> last (uh_calls (cn_uart s1)) = Rx_Disable \<and>
       uh_subscriber_count h' = 1 \<and> uh_calls h' = uh_calls (cn_uart s2) @ [Pm_Action False] \<and>
       (\<forall>n. conn_run ue ce (concat (replicate n [Poll (opened b), Deliver])) (s2\<lparr>cn_uart := h'\<rparr>) =
          s2\<lparr>cn_uart := h'\<rparr>)"
proof -
  let ?s1 = "conn_run ue ce [Poll (closed b), Deliver] (conn_start h c)"
  let ?s2 = "conn_run (busy_env ue) ce [Poll (opened b), Deliver] ?s1"
  let ?h' = "snd (uart_callback ue UART_RX_DISABLED (cn_uart ?s2))"
  have dev: "ue_dev (busy_env ue)"
    using assms(1) by (simp add: busy_env_def)
  define e1 where "e1 = \<lparr>pc_peer_id = PEER_ID_USB, pc_dev_idx = 0, pc_conn_state = PEER_STATE_DISCONNECTED,
      pc_baudrate = b, pc_conn_state_changed = True\<rparr>"
  define e2 where "e2 = \<lparr>pc_peer_id = PEER_ID_USB, pc_dev_idx = 0, pc_conn_state = PEER_STATE_CONNECTED,
      pc_baudrate = b, pc_conn_state_changed = True\<rparr>"
  have s1: "cn_uart ?s1 = snd (uart_on_peer_conn ue e1 h)" "cn_cdc ?s1 = c\<lparr>cd_ready := 0, cd_baudrate := b\<rparr>"
    "cn_queue ?s1 = []"
    using assms(5,6) by (simp_all add: conn_run_def conn_start_def closed_def poll_dtr_def conn_deliver_def
        uart_app_event_handler_def cdc_app_event_handler_def e1_def)
  have s2: "cn_uart ?s2 = snd (uart_on_peer_conn (busy_env ue) e2 (cn_uart ?s1))"
    "cn_cdc ?s2 = c\<lparr>cd_ready := 1, cd_baudrate := b\<rparr>" "cn_queue ?s2 = []"
    using s1 by (simp_all add: conn_run_def opened_def poll_dtr_def conn_deliver_def
        uart_app_event_handler_def cdc_app_event_handler_def e2_def)
  have c1: "uh_subscriber_count (cn_uart ?s1) = 0" "last (uh_calls (cn_uart ?s1)) = Rx_Disable"
    using assms(1,4) by (simp_all add: s1(1) peer_count e1_def uart_on_peer_conn_def UART_DEVICE_COUNT_def
        disable_uart_rx_def Let_def)
  have c2: "uh_subscriber_count (cn_uart ?s2) = 1" "\<not> uh_enable_rx_retry (cn_uart ?s2)"
    using dev c1 assms(3) by (simp_all add: s2(1) s1(1) peer_count e2_def)
  have c3: "?h' = uart_call_made (Pm_Action False) (cn_uart ?s2)"
    using c2(2) assms(2) by (simp add: uart_callback_def set_uart_power_state_def)
  have "conn_run ue ce (concat (replicate n [Poll (opened b), Deliver])) (?s2\<lparr>cn_uart := ?h'\<rparr>) =
      ?s2\<lparr>cn_uart := ?h'\<rparr>" for n
    by (rule conn_idle) (use s2 in simp_all)
  moreover have "uh_subscriber_count ?h' = 1" "uh_calls ?h' = uh_calls (cn_uart ?s2) @ [Pm_Action False]"
    unfolding c3 call_frame by (rule c2(1), rule refl)
  ultimately show ?thesis
    unfolding Let_def using c1 by blast
qed

section \<open>Witnesses\<close>

definition sample_cdc_env :: "u32 list cdc_env" where
  "sample_cdc_env = \<lparr>ce_slab = list_slab {0x20001000, 0x20001200, 0x20001400}, ce_bulk_enable = True,
     ce_usb_enable = 0, ce_dev_ready = True\<rparr>"

definition sample_cdc :: "u32 list usb_cdc" where
  "sample_cdc = (cdc_reset [0x20001000, 0x20001200, 0x20001400])\<lparr>cd_bulk_module_ready := True\<rparr>"

lemma conn_count_exact_witness:
  "let s = conn_run sample_uart_env sample_cdc_env [Poll (opened 9600), Deliver, Poll (closed 9600)]
             (conn_start (uart_reset [] ([], 0)) sample_cdc);
       n = uh_subscriber_count (cn_uart s)
   in n \<in> {0, 1} \<and> (cn_queue s = [] \<longrightarrow> (n = 1 \<longleftrightarrow> cd_ready (cn_cdc s) = 1) \<and> (n = 0 \<longleftrightarrow> cd_ready (cn_cdc s) = 0))"
  by (rule conn_count_exact)
    (simp_all add: conn_op_ok_def dtr_ok_def opened_def closed_def sample_uart_env_def uart_reset_def
      sample_cdc_def cdc_reset_def)

lemma conn_unplug_leaks_witness:
  "let s = conn_run sample_uart_env sample_cdc_env (unplug_ops 9600 @ [Poll (opened 9600), Deliver])
             (conn_start (uart_reset [] ([], 0)) sample_cdc);
       n = uh_subscriber_count (cn_uart s)
   in n \<in> {1, 2} \<and> (cn_queue s = [] \<longrightarrow> n = 1 + cd_ready (cn_cdc s))"
  by (rule conn_unplug_leaks)
    (simp_all add: conn_op_ok_def dtr_ok_def opened_def sample_uart_env_def uart_reset_def
      sample_cdc_def sample_cdc_env_def cdc_reset_def)

lemma conn_reopen_loses_reception_witness:
  "let h = (uart_reset [] ([], 0))\<lparr>uh_subscriber_count := 1\<rparr>;
       c = sample_cdc\<lparr>cd_ready := 1, cd_baudrate := 9600\<rparr>;
       s1 = conn_run sample_uart_env sample_cdc_env [Poll (closed 9600), Deliver] (conn_start h c);
       s2 = conn_run (busy_env sample_uart_env) sample_cdc_env [Poll (opened 9600), Deliver] s1;
       h' = snd (uart_callback sample_uart_env UART_RX_DISABLED (cn_uart s2))
   in uh_subscriber_count (cn_uart s1) = 0 \<and> last (uh_calls (cn_uart s1)) = Rx_Disable \<and>
      uh_subscriber_count h' = 1 \<and> uh_calls h' = uh_calls (cn_uart s2) @ [Pm_Action False] \<and>
      (\<forall>n. conn_run sample_uart_env sample_cdc_env (concat (replicate n [Poll (opened 9600), Deliver]))
             (s2\<lparr>cn_uart := h'\<rparr>) = s2\<lparr>cn_uart := h'\<rparr>)"
  using conn_reopen_loses_reception [of sample_uart_env "(uart_reset [] ([], 0))\<lparr>uh_subscriber_count := 1\<rparr>"
      "sample_cdc\<lparr>cd_ready := 1, cd_baudrate := 9600\<rparr>" 9600 sample_cdc_env]
  unfolding Let_def by (simp add: sample_uart_env_def uart_reset_def)

end
