(* ===== verification/If_Bridge_Props.thy ===== *)
theory If_Bridge_Props
  imports If_Bridge If_Conn
begin

text \<open>
  What the serial bridge of the interface MCU guarantees in every reachable state, from
  the invariant of \<open>If_Bridge\<close>, with a run of a concrete instance. \<open>bridge_trace\<close> adds to
  a run the bytes that enter the transmit ring of the UART, seen from the ring itself.
\<close>

section \<open>Properties\<close>

text \<open>
  C6. Every pointer in flight is well typed: in every reachable state of the bridge,
  whatever the drivers and the host do, a pending UART event points to bytes inside the
  data area of one block that is not free, a pending USB event points to the start of
  a block of its own that is not free, and every buffer the driver holds is a block that
  is not free; the reference counter of a receive block is the number of its holders.
\<close>

theorem bridge_pointers_typed:
  assumes "bridge_memory ue ce fu fc blocks" "fu us = uart_blocks (ue_base ue)" "fc cs = blocks"
    "bridge_reach ue ce (bridge_boot us r cs mem) s"
  shows "(\<forall>e. Uart_Data e \<in> set (br_queue s) \<longrightarrow> event_placed (ue_base ue) e \<and>
      block_start_get (ue_base ue) (ude_buf e) \<in> uart_blocks (ue_base ue) - fu (uh_slab (br_uart s))) \<and>
    (\<forall>e. Cdc_Data e \<in> set (br_queue s) \<longrightarrow> cde_buf e \<in> blocks - fc (cd_slab (br_cdc s)) \<and>
      unat (cde_len e) \<le> USB_CDC_RX_BLOCK_SIZE) \<and>
    (\<forall>k\<in>fst ` set (br_held s). uart_block (ue_base ue) k \<in> uart_blocks (ue_base ue) - fu (uh_slab (br_uart s))) \<and>
    (\<forall>k<UART_SLAB_BLOCK_COUNT. unat (uh_refs (br_uart s) (uart_block (ue_base ue) k)) =
      block_owners (ue_base ue) (br_held s) (uart_events (br_queue s)) k)"
proof -
  let ?base = "ue_base ue" and ?es = "uart_events (br_queue s)"
  have inv: "bridge_inv fu fc ?base blocks s"
    by (rule bridge_inv_reach [OF assms])
  then have ok: "rx_ok fu ?base (br_uart s) (br_held s) ?es" and cdc: "cdc_ok fc blocks (br_cdc s) (cdc_events (br_queue s))"
    by (simp_all add: bridge_inv_def rx_inv_def)
  have refs: "refs_ok fu ?base (block_owners ?base (br_held s) ?es) (br_uart s)"
    using ok by (simp add: rx_ok_def)
  have used: "uart_block ?base k \<in> uart_blocks ?base - fu (uh_slab (br_uart s))"
    if "k < UART_SLAB_BLOCK_COUNT" "0 < block_owners ?base (br_held s) ?es k" for k
    using refs that by (simp add: refs_ok_def)
  have "event_placed ?base e \<and> block_start_get ?base (ude_buf e) \<in> uart_blocks ?base - fu (uh_slab (br_uart s))"
    if "Uart_Data e \<in> set (br_queue s)" for e
  proof -
    have e: "e \<in> set ?es" using that by (simp add: uart_events_mem)
    then have p: "event_placed ?base e" using ok by (simp add: rx_ok_def)
    have "e \<in> set (in_block ?base (block_number ?base (ude_buf e)) ?es)"
      using e by (simp add: in_block_def)
    then have "0 < block_owners ?base (br_held s) ?es (block_number ?base (ude_buf e))"
      unfolding block_owners_def by (metis add_gr_0 length_pos_if_in_set)
    with p used show ?thesis
      by (simp add: block_start_get_eq event_placed_def)
  qed
  moreover have "uart_block ?base k \<in> uart_blocks ?base - fu (uh_slab (br_uart s))" if "k \<in> fst ` set (br_held s)" for k
  proof (rule used)
    show "k < UART_SLAB_BLOCK_COUNT" using ok that by (auto simp: rx_ok_def)
    have "filter (\<lambda>p. fst p = k) (br_held s) \<noteq> []"
      using that by (auto simp: filter_empty_conv)
    then show "0 < block_owners ?base (br_held s) ?es k"
      by (simp add: block_owners_def)
  qed
  moreover have "unat (uh_refs (br_uart s) (uart_block ?base k)) = block_owners ?base (br_held s) ?es k"
    if "k < UART_SLAB_BLOCK_COUNT" for k
    using refs that owners_small [OF ok that] by (simp add: refs_ok_def)
  moreover have "cde_buf e \<in> blocks - fc (cd_slab (br_cdc s)) \<and> unat (cde_len e) \<le> USB_CDC_RX_BLOCK_SIZE"
    if "Cdc_Data e \<in> set (br_queue s)" for e
    using cdc that cdc_events_mem [of e "br_queue s"] by (auto simp: cdc_ok_def)
  ultimately show ?thesis by blast
qed

section \<open>What enters the transmit ring\<close>

text \<open>
  Runs of the bridge with the bytes that entered the ring of the UART side: what its
  contents have grown by in each step.
\<close>

definition ring_gain :: "('r \<Rightarrow> u8 list) \<Rightarrow> ('u, 'r) uart \<Rightarrow> ('u, 'r) uart \<Rightarrow> u8 list" where
  "ring_gain contents h h' = drop (length (contents (uh_ring h))) (contents (uh_ring h'))"

inductive bridge_trace ::
  "('u, 'r) uart_env \<Rightarrow> 'c cdc_env \<Rightarrow> ('r \<Rightarrow> u8 list) \<Rightarrow> ('u, 'r, 'c) bridge \<Rightarrow> u8 list \<Rightarrow> ('u, 'r, 'c) bridge \<Rightarrow> bool"
  for ue ce contents s0 where
  trace_start: "bridge_trace ue ce contents s0 [] s0"
| trace_next: "bridge_trace ue ce contents s0 taken s \<Longrightarrow> bridge_step ue ce s t \<Longrightarrow>
    bridge_trace ue ce contents s0 (taken @ ring_gain contents (br_uart s) (br_uart t)) t"

lemma bridge_trace_reach: "bridge_trace ue ce contents s0 taken s \<Longrightarrow> bridge_reach ue ce s0 s"
  by (induction rule: bridge_trace.induct) (auto intro: bridge_refl bridge_next)

lemma reach_trace: "bridge_reach ue ce s0 s \<Longrightarrow> \<exists>taken. bridge_trace ue ce contents s0 taken s"
  by (induction rule: bridge_reach.induct) (blast intro: trace_start trace_next)+

lemma ring_gain_less: "length (contents (uh_ring h')) \<le> length (contents (uh_ring h)) \<Longrightarrow> ring_gain contents h h' = []"
  by (simp add: ring_gain_def)

lemma tx_finish_contents:
  assumes "ring_spec (ue_ring env) contents claimed cap"
  shows "length (contents (uh_ring (uart_tx_finish env n h))) \<le> length (contents (uh_ring h))"
    and "contents (uh_ring (uart_tx_finish env 0 h)) = contents (uh_ring h)"
proof -
  have *: "contents (snd (ring_finish (ue_ring env) n r)) = (if n \<le> claimed r then drop n (contents r) else contents r)" for n r
    using assms unfolding ring_spec_def by metis
  show "length (contents (uh_ring (uart_tx_finish env n h))) \<le> length (contents (uh_ring h))"
    "contents (uh_ring (uart_tx_finish env 0 h)) = contents (uh_ring h)"
    by (simp_all add: uart_tx_finish_def *)
qed

lemma tx_start_contents:
  assumes "ring_spec (ue_ring env) contents claimed cap"
  shows "contents (uh_ring (snd (uart_tx_start env h))) = contents (uh_ring h)"
proof -
  obtain bs r where c: "ring_claim (ue_ring env) UART_BUF_SIZE (uh_ring h) = (bs, r)"
    by (cases "ring_claim (ue_ring env) UART_BUF_SIZE (uh_ring h)")
  then show ?thesis
    using ring_claim_ok(4) [OF assms c] by (simp add: uart_tx_start_def tx_finish_contents(2) [OF assms] Let_def)
qed

lemma callback_gains_nothing:
  assumes "ring_spec (ue_ring env) contents claimed cap"
  shows "ring_gain contents h (snd (uart_callback env ev h)) = []"
proof (cases "is_rx_event ev")
  case True
  then show ?thesis
    by (simp add: ring_gain_def rx_event_frame)
next
  case False
  then show ?thesis
    using tx_finish_contents(1) [OF assms] tx_start_contents [OF assms]
    by (intro ring_gain_less) (auto simp: is_rx_event_def uart_callback_def Let_def split: uart_event.splits)
qed

lemma start_or_clear_contents:
  assumes "ring_spec (ue_ring env) contents claimed cap"
  shows "contents (uh_ring (tx_start_or_clear env h)) = contents (uh_ring h)"
  using tx_start_contents [OF assms] by (simp add: tx_start_or_clear_def split_beta)

lemma enqueue_gains:
  assumes "ring_spec (ue_ring env) contents claimed UART_BUF_SIZE"
  shows "ring_gain contents h (snd (uart_tx_enqueue env d h)) = take (UART_BUF_SIZE - ring_used (ue_ring env) (uh_ring h)) d"
proof -
  obtain w r where put: "ring_put (ue_ring env) d (uh_ring h) = (w, r)"
    by (cases "ring_put (ue_ring env) d (uh_ring h)")
  note p = ring_put_ok [OF assms put]
  have "contents (uh_ring (snd (uart_tx_enqueue env d h))) = contents r"
    by (simp add: uart_tx_enqueue_def tx_put_def put tx_swap_def start_or_clear_contents [OF assms] Let_def)
  then show ?thesis
    using p by (simp add: ring_gain_def ring_used_ok [OF assms] min_def)
qed

text \<open>A delivery puts as many of the event's bytes into the ring as there is room for.\<close>

definition fitting :: "u8 list \<times> nat \<Rightarrow> u8 list" where
  "fitting e = take (snd e) (fst e)"

lemma deliver_gains:
  assumes ring: "ring_spec (ue_ring ue) contents claimed UART_BUF_SIZE" and dev: "ue_dev ue"
    and e: "e = ue\<lparr>ue_ret := ret, ue_config := cfg\<rparr>" and idx: "\<forall>d\<in>set (cdc_events [ev]). cde_dev_idx d = 0"
  shows "ring_gain contents h (snd (uart_app_event_handler e mem ev h)) = concat (map fitting (uart_entry ue mem h ev))"
proof (cases ev)
  case (Cdc_Data d)
  have spec: "ring_spec (ue_ring e) contents claimed UART_BUF_SIZE"
    using ring by (simp add: e)
  show ?thesis
    using enqueue_gains [OF spec, of "uart_call_made (Uart_Led LED_STATE_BLINK) h" "cdc_bytes mem ev"] idx dev
    by (simp add: uart_app_event_handler_def uart_on_cdc_data_def Cdc_Data uart_entry_def cdc_bytes_def fitting_def
        UART_DEVICE_COUNT_def ring_gain_def e split_beta)
next
  case (Module_State d)
  then show ?thesis
    using ring_init_ok(1) [OF ring]
    by (simp add: uart_app_event_handler_def uart_on_module_state_def uart_entry_def ring_gain_def e Let_def split: sum.split)
qed (simp_all add: uart_app_event_handler_def uart_on_uart_data_def uart_entry_def ring_gain_def)

lemma step_gains:
  assumes "ring_spec (ue_ring ue) contents claimed UART_BUF_SIZE" "ue_dev ue"
    "\<forall>d\<in>set (cdc_events (br_queue s)). cde_dev_idx d = 0" "bridge_step ue ce s t"
  shows "concat (map fitting (br_uart_log t)) = concat (map fitting (br_uart_log s)) @ ring_gain contents (br_uart s) (br_uart t)"
  using assms(4)
proof cases
  case (uart_ready k n rest bs buf evs h)
  from callback_gains_nothing [OF assms(1), of "br_uart s" "UART_RX_RDY buf (of_nat n) (of_nat (length bs))"]
  show ?thesis
    by (simp add: uart_ready(1,6))
next
  case (uart_released xs k n ys evs h)
  from callback_gains_nothing [OF assms(1), of "br_uart s" "UART_RX_BUF_RELEASED (rx_buf_field (uart_block (ue_base ue) k))"]
  show ?thesis
    by (simp add: uart_released(1,3))
next
  case (uart_other ev e ret evs h)
  then have "ring_spec (ue_ring e) contents claimed UART_BUF_SIZE" "h = snd (uart_callback e ev (br_uart s))"
    using assms(1) by simp_all
  then show ?thesis
    using callback_gains_nothing uart_other(1) by simp
next
  case (deliver ev q e ret cfg h)
  have "\<forall>d\<in>set (cdc_events [ev]). cde_dev_idx d = 0"
    using assms(3) deliver(2) by (cases ev) simp_all
  from deliver_gains [OF assms(1,2) deliver(3) this] show ?thesis
    using deliver(1,4) by simp
qed (simp_all add: ring_gain_def)


text \<open>
  C15. No buffer leaks: in every reachable state with no pending data event, every block of
  the USB side is free and so is every receive block the driver does not hold.
\<close>

theorem bridge_no_leak:
  assumes "bridge_memory ue ce fu fc blocks" "fu us = uart_blocks (ue_base ue)" "fc cs = blocks"
    "bridge_reach ue ce (bridge_boot us r cs mem) s"
    and "uart_events (br_queue s) = []" "cdc_events (br_queue s) = []"
  shows "fc (cd_slab (br_cdc s)) = blocks \<and>
    fu (uh_slab (br_uart s)) = uart_blocks (ue_base ue) - uart_block (ue_base ue) ` fst ` set (br_held s)"
proof -
  let ?base = "ue_base ue"
  have inv: "bridge_inv fu fc ?base blocks s"
    by (rule bridge_inv_reach [OF assms(1-4)])
  have spec: "slab_spec (ue_slab ue) fu (uart_blocks ?base)" "slab_spec (ce_slab ce) fc blocks"
    using assms(1) by (simp_all add: bridge_memory_def)
  have ok: "rx_ok fu ?base (br_uart s) (br_held s) []" "cdc_ok fc blocks (br_cdc s) []"
    using inv assms(5,6) by (simp_all add: bridge_inv_def rx_inv_def)
  have free: "uart_block ?base k \<in> fu (uh_slab (br_uart s)) \<longleftrightarrow> k \<notin> fst ` set (br_held s)"
    if "k < UART_SLAB_BLOCK_COUNT" for k
    using ok(1) that by (auto simp: rx_ok_def refs_ok_def block_owners_def filter_empty_conv)
  have held: "\<forall>k\<in>fst ` set (br_held s). k < UART_SLAB_BLOCK_COUNT"
    using ok(1) by (auto simp: rx_ok_def)
  have "fu (uh_slab (br_uart s)) = uart_blocks ?base - uart_block ?base ` fst ` set (br_held s)"
  proof (intro set_eqI iffI)
    fix b assume b: "b \<in> fu (uh_slab (br_uart s))"
    then obtain k where k: "k < UART_SLAB_BLOCK_COUNT" "b = uart_block ?base k"
      using slab_free_blocks [OF spec(1)] by (blast elim: uart_blocksE)
    have "k \<notin> fst ` set (br_held s)" using free [OF k(1)] b k(2) by simp
    have "uart_block ?base k \<noteq> uart_block ?base j" if "j \<in> fst ` set (br_held s)" for j
      using \<open>k \<notin> _\<close> that held k(1) uart_block_inject [of k j ?base] by metis
    then show "b \<in> uart_blocks ?base - uart_block ?base ` fst ` set (br_held s)"
      using k by auto
  next
    fix b assume "b \<in> uart_blocks ?base - uart_block ?base ` fst ` set (br_held s)"
    then show "b \<in> fu (uh_slab (br_uart s))"
      using free by (auto elim!: uart_blocksE)
  qed
  moreover have "fc (cd_slab (br_cdc s)) = blocks"
    using ok(2) slab_free_blocks [OF spec(2), of "cd_slab (br_cdc s)"] by (auto simp: cdc_ok_def)
  ultimately show ?thesis by blast
qed

section \<open>Witnesses\<close>

definition uart_free :: "u32 list \<Rightarrow> u32 set" where
  "uart_free s = set s \<inter> uart_blocks 0x20000000"

definition cdc_blocks :: "u32 set" where
  "cdc_blocks = {0x20001000, 0x20001200, 0x20001400}"

definition cdc_free :: "u32 list \<Rightarrow> u32 set" where
  "cdc_free s = set s \<inter> cdc_blocks"

lemma sample_uart_blocks: "uart_blocks 0x20000000 = {0x20000000, 0x20000208, 0x20000410}"
proof -
  have "{..<UART_SLAB_BLOCK_COUNT} = {0, 1, 2}"
    by (auto simp: wire_const)
  then show ?thesis
    by (simp add: uart_blocks_def uart_block_def wire_const)
qed

lemma sample_apart:
  "mem_range 0x20001000 512 \<inter> mem_range 0x20001200 512 = {}"
  "mem_range 0x20001000 512 \<inter> mem_range 0x20001400 512 = {}"
  "mem_range 0x20001200 512 \<inter> mem_range 0x20001400 512 = {}"
  "mem_range 0x20001000 512 \<inter> mem_range 0x20000000 1560 = {}"
  "mem_range 0x20001200 512 \<inter> mem_range 0x20000000 1560 = {}"
  "mem_range 0x20001400 512 \<inter> mem_range 0x20000000 1560 = {}"
  using mem_range_apart [of 4096 512 4608 512 "0x20000000"] mem_range_apart [of 4096 512 5120 512 "0x20000000"]
    mem_range_apart [of 4608 512 5120 512 "0x20000000"] mem_range_apart [of 4096 512 0 1560 "0x20000000"]
    mem_range_apart [of 4608 512 0 1560 "0x20000000"] mem_range_apart [of 5120 512 0 1560 "0x20000000"]
  by simp_all

lemma sample_bridge_memory: "bridge_memory sample_uart_env sample_cdc_env uart_free cdc_free cdc_blocks"
proof -
  have "slab_spec (ue_slab sample_uart_env) uart_free (uart_blocks (ue_base sample_uart_env))"
    using list_slab_spec [of "uart_blocks 0x20000000"]
    by (simp add: sample_uart_env_def uart_free_def [abs_def] sample_uart_blocks)
  moreover have "slab_spec (ce_slab sample_cdc_env) cdc_free cdc_blocks"
    using list_slab_spec [of cdc_blocks] by (simp add: sample_cdc_env_def cdc_free_def [abs_def] cdc_blocks_def)
  moreover have "cdc_apart cdc_blocks"
    using sample_apart by (simp add: cdc_apart_def cdc_blocks_def wire_const Int_commute)
  moreover have "\<forall>b\<in>cdc_blocks. mem_range b USB_CDC_RX_BLOCK_SIZE \<inter> mem_range (ue_base sample_uart_env) slab_size = {}"
    using sample_apart by (simp add: cdc_blocks_def sample_uart_env_def wire_const)
  moreover have "unat (ue_base sample_uart_env) + slab_size < 2 ^ 32"
    by (simp add: sample_uart_env_def)
  ultimately show ?thesis
    by (simp add: bridge_memory_def)
qed

definition sample_boot :: "(u32 list, u8 list \<times> nat, u32 list) bridge" where
  "sample_boot = bridge_boot [0x20000000, 0x20000208, 0x20000410] ([], 0) [0x20001000, 0x20001200, 0x20001400] (\<lambda>_. 0)"

lemma sample_boot_free:
  "uart_free [0x20000000, 0x20000208, 0x20000410] = uart_blocks (ue_base sample_uart_env)"
  "cdc_free [0x20001000, 0x20001200, 0x20001400] = cdc_blocks"
  by (auto simp: uart_free_def sample_uart_blocks sample_uart_env_def cdc_free_def cdc_blocks_def)

text \<open>The driver asks for a buffer, gets the first block, and reports three bytes.\<close>

lemma sample_bridge_run:
  obtains s where "bridge_reach sample_uart_env sample_cdc_env sample_boot s" "br_received s = [1, 2, 3]"
    "br_usb_log s = []" "br_uart_log s = []" "br_cdc s = br_cdc sample_boot" "br_queue s = [Uart_Data \<lparr>ude_dev_idx = 0, ude_buf = 0x20000008, ude_len = 3\<rparr>]"
    "br_held s = [(0, 3)]"
proof -
  let ?e = "sample_uart_env\<lparr>ue_ret := \<lambda>_. 0\<rparr>"
  obtain evs h where req: "uart_callback ?e UART_RX_BUF_REQUEST (br_uart sample_boot) = (evs, h)"
    by (cases "uart_callback ?e UART_RX_BUF_REQUEST (br_uart sample_boot)")
  have r: "evs = []" "buffers_taken ?e (br_uart sample_boot) h = [0]"
    using req by (auto simp: uart_callback_def uart_rx_buf_alloc_def sample_boot_def bridge_boot_def uart_reset_def
        sample_uart_env_def list_slab_def buffers_taken_def buffer_taken_def uart_call_made_def rx_buf_field_def
        block_number_def slab_offset_def wire_const Let_def)
  define s1 where "s1 = sample_boot\<lparr>br_uart := h, br_queue := br_queue sample_boot @ evs,
      br_held := br_held sample_boot @ fresh (buffers_taken ?e (br_uart sample_boot) h)\<rparr>"
  have 1: "bridge_step sample_uart_env sample_cdc_env sample_boot s1"
    unfolding s1_def by (rule bridge_step.uart_other [OF _ refl req]) (simp add: names_buffer_def)
  have s1: "br_held s1 = [(0, 0)]" "br_queue s1 = []" "br_received s1 = []" "br_usb_log s1 = []" "br_uart_log s1 = []" "br_cdc s1 = br_cdc sample_boot"
    by (simp_all add: s1_def r fresh_def) (simp_all add: sample_boot_def bridge_boot_def)
  let ?buf = "rx_buf_field (uart_block (ue_base sample_uart_env) 0)"
  have buf: "?buf = 0x20000008"
    by (simp add: rx_buf_field_def uart_block_def sample_uart_env_def)
  obtain evs' h' where rdy: "uart_callback sample_uart_env (UART_RX_RDY ?buf (of_nat 0) (of_nat (length [1, 2, 3 :: u8])))
      (br_uart s1) = (evs', h')"
    by (cases "uart_callback sample_uart_env (UART_RX_RDY ?buf (of_nat 0) (of_nat (length [1, 2, 3 :: u8]))) (br_uart s1)")
  have evs': "evs' = [Uart_Data \<lparr>ude_dev_idx = 0, ude_buf = 0x20000008, ude_len = 3\<rparr>]"
    using rdy by (auto simp: uart_callback_def buf)
  show thesis
    by (rule that [OF bridge_next [OF bridge.one [OF 1] bridge_step.uart_ready [OF s1(1) _ _ refl rdy]]])
      (simp_all add: s1 evs' wire_const)
qed

lemma bridge_pointers_typed_witness:
  "\<exists>s. bridge_reach sample_uart_env sample_cdc_env sample_boot s \<and>
    br_queue s = [Uart_Data \<lparr>ude_dev_idx = 0, ude_buf = 0x20000008, ude_len = 3\<rparr>] \<and>
    event_placed 0x20000000 \<lparr>ude_dev_idx = 0, ude_buf = 0x20000008, ude_len = 3\<rparr>"
proof -
  obtain s where s: "bridge_reach sample_uart_env sample_cdc_env sample_boot s" "br_received s = [1, 2, 3]"
    "br_usb_log s = []" "br_uart_log s = []" "br_cdc s = br_cdc sample_boot"
    "br_queue s = [Uart_Data \<lparr>ude_dev_idx = 0, ude_buf = 0x20000008, ude_len = 3\<rparr>]" "br_held s = [(0, 3)]"
    by (rule sample_bridge_run)
  have "event_placed (ue_base sample_uart_env) \<lparr>ude_dev_idx = 0, ude_buf = 0x20000008, ude_len = 3\<rparr>"
    using bridge_pointers_typed [OF sample_bridge_memory sample_boot_free s(1) [unfolded sample_boot_def]] s(6) by simp
  with s show ?thesis
    by (auto simp: sample_uart_env_def)
qed


lemma bridge_no_leak_witness:
  "cdc_free (cd_slab (br_cdc sample_boot)) = cdc_blocks \<and>
    uart_free (uh_slab (br_uart sample_boot)) = uart_blocks (ue_base sample_uart_env) -
      uart_block (ue_base sample_uart_env) ` fst ` set (br_held sample_boot)"
  unfolding sample_boot_def
  by (rule bridge_no_leak [OF sample_bridge_memory sample_boot_free bridge_refl])
    (simp_all add: bridge_boot_def)

end
