(* ===== verification/If_Power.thy ===== *)
theory If_Power
  imports If_Events
begin

text \<open>
  \<open>ifmcu_firmware/src/modules/power_handler.c\<close>: the interface MCU goes to SYSTEM OFF one
  second after the last module went into standby. The state is the count of active
  modules and the delayed work item; \<open>pw_queue\<close> is the event manager's queue as far as
  this module sees it and \<open>pw_off\<close> says that \<open>sys_poweroff\<close> was called.
\<close>

record power =
  pw_active :: i32
  pw_scheduled :: bool
  pw_queue :: "app_event list"
  pw_off :: bool

definition power_down_handler :: "power \<Rightarrow> power" where
  [op_defs]: "power_down_handler p =
     (if pw_active p = 0
      then p\<lparr>pw_queue := pw_queue p @ [Power_Down \<lparr>pde_error = False\<rparr>], pw_scheduled := True\<rparr>
      else p)"

definition power_app_event_handler :: "app_event \<Rightarrow> power \<Rightarrow> power" where
  [op_defs]: "power_app_event_handler ev p =
     (case ev of
        Module_State e \<Rightarrow>
          if main_ready e then p\<lparr>pw_active := 0\<rparr>
          else if ms_state e = MODULE_STATE_READY then p\<lparr>pw_active := pw_active p + 1\<rparr>
          else if ms_state e = MODULE_STATE_STANDBY then
            (let p1 = p\<lparr>pw_active := pw_active p - 1\<rparr>
             in if pw_active p1 = 0 then p1\<lparr>pw_scheduled := True\<rparr> else p1)
          else p
      | Power_Down e \<Rightarrow> p\<lparr>pw_off := True\<rparr>
      | _ \<Rightarrow> p)"

text \<open>
  A history: modules submit state changes, the manager delivers the oldest event, the
  work item runs when its delay has passed.
\<close>

datatype power_op = Pw_Submit module_state_event | Pw_Deliver | Pw_Expire

fun power_exec :: "power_op \<Rightarrow> power \<Rightarrow> power" where
  "power_exec (Pw_Submit e) p = p\<lparr>pw_queue := pw_queue p @ [Module_State e]\<rparr>"
| "power_exec Pw_Deliver p =
     (if pw_off p then p
      else case pw_queue p of [] \<Rightarrow> p | ev # q \<Rightarrow> power_app_event_handler ev (p\<lparr>pw_queue := q\<rparr>))"
| "power_exec Pw_Expire p =
     (if pw_off p \<or> \<not> pw_scheduled p then p else power_down_handler (p\<lparr>pw_scheduled := False\<rparr>))"

definition power_run :: "power_op list \<Rightarrow> power \<Rightarrow> power" where
  "power_run ops p = fold power_exec ops p"

definition power_reset :: power where
  "power_reset = \<lparr>pw_active = 0, pw_scheduled = False, pw_queue = [], pw_off = False\<rparr>"

section \<open>The count\<close>

text \<open>The state change that an operation delivers, and those of a history, the latest first.\<close>

definition delivered_by :: "power_op \<Rightarrow> power \<Rightarrow> module_state_event list" where
  "delivered_by op p =
     (if op = Pw_Deliver \<and> \<not> pw_off p
      then case pw_queue p of Module_State e # _ \<Rightarrow> [e] | _ \<Rightarrow> [] else [])"

fun delivered :: "power_op list \<Rightarrow> power \<Rightarrow> module_state_event list" where
  "delivered [] p = []"
| "delivered (op # ops) p = delivered ops (power_exec op p) @ delivered_by op p"

lemma power_run_simps [simp]:
  "power_run [] p = p"
  "power_run (op # ops) p = power_run ops (power_exec op p)"
  "power_run (ops @ ops') p = power_run ops' (power_run ops p)"
  by (simp_all add: power_run_def)

lemma delivered_snoc:
  "delivered (ops @ [op]) p = delivered_by op (power_run ops p) @ delivered ops p"
  by (induction ops arbitrary: p) auto

text \<open>The state changes since the main module last reported that it is ready.\<close>

definition since_main :: "module_state_event list \<Rightarrow> module_state_event list" where
  "since_main es = takeWhile (\<lambda>e. \<not> main_ready e) es"

definition reported :: "module_state \<Rightarrow> module_state_event list \<Rightarrow> nat" where
  "reported st es = length (filter (\<lambda>e. ms_state e = st) es)"

lemma power_exec_active:
  "pw_active (power_exec op p) =
     (case delivered_by op p of
        [] \<Rightarrow> pw_active p
      | e # _ \<Rightarrow> if main_ready e then 0
                 else if ms_state e = MODULE_STATE_READY then pw_active p + 1
                 else if ms_state e = MODULE_STATE_STANDBY then pw_active p - 1 else pw_active p)"
  by (cases op; cases "pw_queue p")
    (auto simp: delivered_by_def power_app_event_handler_def power_down_handler_def Let_def
      split: app_event.splits)

lemma delivered_by_cases: "delivered_by op p = [] \<or> (\<exists>e. delivered_by op p = [e])"
  by (auto simp: delivered_by_def split: list.splits app_event.splits)

text \<open>
  The count is exact. After any history the number of active modules is the number of
  \<open>READY\<close> reports minus the number of \<open>STANDBY\<close> reports delivered since the main module
  last reported \<open>READY\<close>, modulo 2^32.
\<close>

theorem power_count_exact:
  "pw_active (power_run ops power_reset) =
     (let es = since_main (delivered ops power_reset)
      in of_nat (reported MODULE_STATE_READY es) - of_nat (reported MODULE_STATE_STANDBY es))"
proof (induction ops rule: rev_induct)
  case Nil
  then show ?case
    by (simp add: power_reset_def since_main_def reported_def)
next
  case (snoc op ops)
  then show ?case
    using delivered_by_cases [of op "power_run ops power_reset"]
    by (auto simp: power_exec_active delivered_snoc since_main_def reported_def Let_def)
qed

section \<open>Switching off\<close>

text \<open>A power-down event is in the queue, or was delivered, only after the timer ran while idle.\<close>

definition expired_idle :: "power_op list \<Rightarrow> power \<Rightarrow> bool" where
  "expired_idle ops p \<longleftrightarrow>
     (\<exists>as bs. ops = as @ Pw_Expire # bs \<and> pw_scheduled (power_run as p) \<and> pw_active (power_run as p) = 0)"

definition power_down_pending :: "power \<Rightarrow> bool" where
  "power_down_pending p \<longleftrightarrow> pw_off p \<or> (\<exists>e. Power_Down e \<in> set (pw_queue p))"

lemma expired_idle_snoc: "expired_idle ops p \<Longrightarrow> expired_idle (ops @ [op]) p"
  unfolding expired_idle_def by (metis append.assoc append_Cons)

lemma power_exec_pending:
  assumes "power_down_pending (power_exec op p)" "\<not> power_down_pending p"
  shows "op = Pw_Expire \<and> pw_scheduled p \<and> pw_active p = 0"
  using assms
  by (cases op; cases "pw_queue p")
    (auto simp: power_down_pending_def power_down_handler_def power_app_event_handler_def Let_def
      split: app_event.splits if_splits)

lemma pending_expired:
  "power_down_pending (power_run ops power_reset) \<Longrightarrow> expired_idle ops power_reset"
proof (induction ops rule: rev_induct)
  case Nil
  then show ?case
    by (simp add: power_down_pending_def power_reset_def)
next
  case (snoc op ops)
  show ?case
  proof (cases "power_down_pending (power_run ops power_reset)")
    case True
    with snoc.IH show ?thesis
      by (blast intro: expired_idle_snoc)
  next
    case False
    with snoc.prems power_exec_pending [of op "power_run ops power_reset"]
    have "op = Pw_Expire \<and> pw_scheduled (power_run ops power_reset) \<and> pw_active (power_run ops power_reset) = 0"
      by simp
    then show ?thesis
      unfolding expired_idle_def by blast
  qed
qed

text \<open>
  The device switches off only when it was idle: if it is off, the delayed work ran at a
  moment when it was scheduled and no module was active.
\<close>

theorem power_off_only_idle:
  "pw_off (power_run ops power_reset) \<Longrightarrow> expired_idle ops power_reset"
  by (rule pending_expired) (simp add: power_down_pending_def)

text \<open>
  The decision is not taken back: once the power-down event is queued, delivering the
  queue switches off whatever the modules report in between.
\<close>

lemma power_delivers_down:
  assumes "Power_Down e \<in> set (pw_queue p)"
  shows "pw_off (power_run (replicate (length (pw_queue p)) Pw_Deliver) p)"
  using assms
proof (induction "pw_queue p" arbitrary: p)
  case (Cons ev q)
  let ?p = "power_exec Pw_Deliver p"
  have stays: "pw_off p' \<Longrightarrow> pw_off (power_run (replicate n Pw_Deliver) p')" for n p'
    by (induction n) auto
  show ?case
  proof (cases "pw_off ?p")
    case True
    then show ?thesis
      using Cons.hyps(2) [symmetric] stays by simp
  next
    case False
    have len: "length (pw_queue p) = Suc (length q)"
      using Cons.hyps(2) [symmetric] by simp
    have off: "\<not> pw_off p"
      using False by (auto split: if_splits)
    have q: "q = pw_queue ?p"
      using off Cons.hyps(2) [symmetric]
      by (auto simp: power_app_event_handler_def Let_def split: app_event.split)
    have "ev \<noteq> Power_Down e"
      using False off Cons.hyps(2) [symmetric] by (auto simp: power_app_event_handler_def)
    then have "Power_Down e \<in> set (pw_queue ?p)"
      using Cons.prems Cons.hyps(2) [symmetric] q by auto
    then have "pw_off (power_run (replicate (length (pw_queue ?p)) Pw_Deliver) ?p)"
      by (rule Cons.hyps(1) [OF q])
    then show ?thesis
      unfolding len q [symmetric] by (simp only: replicate_Suc power_run_simps)
  qed
qed simp

text \<open>
  Start-up without a host. Whatever the order in which the LED and the bulk-interface
  modules report, once the main module is ready the two \<open>READY\<close> and the two \<open>STANDBY\<close>
  reports leave no active module and the delayed work scheduled: a second later the
  device is off, unless the USB device was connected before.
\<close>

definition startup_reports :: "bool \<Rightarrow> app_event list" where
  "startup_reports bulk_first =
     (let report = (\<lambda>m. [module_set_state m MODULE_STATE_READY, module_set_state m MODULE_STATE_STANDBY])
      in module_set_state Module_Main MODULE_STATE_READY #
         (if bulk_first then report Module_Bulk_Interface @ report Module_Led_State
          else report Module_Led_State @ report Module_Bulk_Interface))"

lemma power_startup:
  "let p = power_run (replicate 5 Pw_Deliver) (power_reset\<lparr>pw_queue := startup_reports b\<rparr>);
       plugged = power_run [Pw_Submit \<lparr>ms_module_id = Module_Usb_Cdc, ms_state = MODULE_STATE_READY\<rparr>, Pw_Deliver, Pw_Expire] p
   in pw_active p = 0 \<and> pw_scheduled p \<and> pw_queue p = [] \<and> pw_off (power_run [Pw_Expire, Pw_Deliver] p) \<and>
      pw_active plugged = 1 \<and> pw_queue plugged = [] \<and> \<not> pw_off plugged"
  by (cases b) (simp_all add: startup_reports_def power_reset_def power_app_event_handler_def power_down_handler_def
      module_set_state_def main_ready_def check_state_def eval_nat_numeral Let_def)

section \<open>Witness\<close>

lemma power_off_only_idle_witness:
  "expired_idle [Pw_Submit \<lparr>ms_module_id = Module_Led_State, ms_state = MODULE_STATE_READY\<rparr>, Pw_Deliver,
     Pw_Submit \<lparr>ms_module_id = Module_Led_State, ms_state = MODULE_STATE_STANDBY\<rparr>, Pw_Deliver, Pw_Expire, Pw_Deliver]
     power_reset"
  by (rule power_off_only_idle)
    (simp add: power_reset_def power_app_event_handler_def power_down_handler_def main_ready_def check_state_def)

end
