(* ===== verification/If_Settings.thy ===== *)
theory If_Settings
  imports If_Events Debug_Uart Bytes "HOL-Library.Signed_Division" "HOL-Library.AList"
begin

text \<open>
  The supply selection and its storage on the interface MCU:
  \<open>ifmcu_firmware/src/modules/utils.c\<close> (\<open>viosel\<close>, the shell commands \<open>viosel\<close> and \<open>temp\<close>)
  and \<open>settings.c\<close> (load at start-up, the shell command \<open>cfgsync\<close>); \<open>main.c\<close>, the USB
  serial number. A command yields what it returns, the lines it prints and the new
  state. \<open>vio_pin\<close> is the level the firmware last drove the pin to, \<open>None\<close> before it has
  configured it. What the GPIO driver answers is an argument.
\<close>

section \<open>Text\<close>

definition int_text :: "int \<Rightarrow> string" where
  "int_text v = (if v < 0 then CHR ''-'' # decimal (nat (- v)) else decimal (nat v))"

definition is_digit :: "char \<Rightarrow> bool" where
  "is_digit c \<longleftrightarrow> 48 \<le> (of_char c :: nat) \<and> (of_char c :: nat) \<le> 57"

definition is_space :: "char \<Rightarrow> bool" where
  "is_space c \<longleftrightarrow> (of_char c :: nat) = 32 \<or> 9 \<le> (of_char c :: nat) \<and> (of_char c :: nat) \<le> 13"

definition digits_value :: "string \<Rightarrow> nat" where
  "digits_value ds = foldl (\<lambda>a c. 10 * a + (of_char c - 48)) 0 ds"

text \<open>
  \<open>strtol\<close> with base 10 and a 32-bit \<open>long\<close>: the value, and whether a number was found,
  that is whether the end pointer moved.
\<close>

definition strtol10 :: "string \<Rightarrow> int \<times> bool" where
  "strtol10 s =
     (let t = dropWhile is_space s;
          (neg, u) = (case t of [] \<Rightarrow> (False, [])
                      | c # cs \<Rightarrow> if c = CHR ''-'' then (True, cs) else if c = CHR ''+'' then (False, cs) else (False, t));
          ds = takeWhile is_digit u;
          value = (if neg then - int (digits_value ds) else int (digits_value ds))
      in if ds = [] then (0, False) else (max (- (2 ^ 31)) (min (2 ^ 31 - 1) value), True))"

section \<open>The supply selection\<close>

record vio =
  viosel :: i32
  vio_pin :: "bool option"

record vio_env =
  ve_ready :: bool
  ve_gpio :: int

definition vio_reset :: vio where
  "vio_reset = \<lparr>viosel = - 1, vio_pin = None\<rparr>"

text \<open>\<open>gpio_pin_configure_dt\<close>: the pin follows unless the driver refuses.\<close>

definition viosel_configure :: "vio_env \<Rightarrow> bool \<Rightarrow> vio \<Rightarrow> vio" where
  "viosel_configure env active v = (if ve_gpio env < 0 then v else v\<lparr>vio_pin := Some active\<rparr>)"

definition viosel_set :: "vio_env \<Rightarrow> i32 \<Rightarrow> vio \<Rightarrow> int \<times> vio" where
  [op_defs]: "viosel_set env val v =
     (if \<not> ve_ready env then (- ENODEV, v)
      else
        let v1 = viosel_configure env (val \<noteq> 0) v
        in if ve_gpio env < 0 then (ve_gpio env, v1) else (0, v1\<lparr>viosel := val\<rparr>))"

definition viosel_get :: "vio \<Rightarrow> i32" where
  [op_defs]: "viosel_get v = viosel v"

text \<open>\<open>argv\<close> holds the command's name first; the shell allows one argument more.\<close>

definition cmd_viosel :: "vio_env \<Rightarrow> string list \<Rightarrow> vio \<Rightarrow> int \<times> shell_line list \<times> vio" where
  [op_defs]: "cmd_viosel env argv v =
     (if length argv = 1 then
        (0, [Sh_Print (if sint (viosel v) < 0 then ''VIO = 3.3V def.''
             else ''VIO = '' @ (if viosel v \<noteq> 0 then ''1.8V'' else ''3.3V''))], v)
      else
        let (val, found) = strtol10 (argv ! 1)
        in if \<not> found \<or> (val \<noteq> 0 \<and> val \<noteq> 1) then (- EINVAL, [Sh_Error ''<sel> must be 0 or 1''], v)
           else
             let v1 = viosel_configure env (val \<noteq> 0) v
             in if ve_gpio env \<noteq> 0
                then (ve_gpio env, [Sh_Error (''Cannot configure VIOSEL ('' @ int_text (ve_gpio env) @ '')'')], v1)
                else (0, [], v1\<lparr>viosel := word_of_int val\<rparr>))"

section \<open>Storage\<close>

text \<open>
  The settings subsystem: \<open>save_one\<close> stores a value under a name, \<open>stored\<close> lists the
  items that \<open>settings_load\<close> finds. Its documented behaviour: a name occurs once and a
  successful save replaces the value of its name only.
\<close>

record 'f store_ops =
  save_one :: "string \<Rightarrow> u8 list \<Rightarrow> 'f \<Rightarrow> int \<times> 'f"
  stored :: "'f \<Rightarrow> (string \<times> u8 list) list"

definition store_spec :: "'f store_ops \<Rightarrow> bool" where
  "store_spec so \<longleftrightarrow>
     (\<forall>f. distinct (map fst (stored so f))) \<and>
     (\<forall>k b f. fst (save_one so k b f) = 0 \<longrightarrow>
        map_of (stored so (snd (save_one so k b f))) = (map_of (stored so f))(k \<mapsto> b))"

definition list_store :: "(string \<times> u8 list) list store_ops" where
  "list_store = \<lparr>save_one = (\<lambda>k b f. (0, (k, b) # f)),
     stored = AList.clearjunk\<rparr>"

definition VIOSEL_STORAGE_NAME :: string where "VIOSEL_STORAGE_NAME = ''viosel''"
definition SETTINGS_KEY :: string where "SETTINGS_KEY = ''cfg''"

text \<open>\<open>read_cb n\<close> is the count it returns and the bytes it puts into the buffer.\<close>

definition settings_set ::
  "vio_env \<Rightarrow> string \<Rightarrow> nat \<Rightarrow> (nat \<Rightarrow> int \<times> u8 list) \<Rightarrow> vio \<Rightarrow> int \<times> vio" where
  [op_defs]: "settings_set env key len_rd read_cb v =
     (if key = VIOSEL_STORAGE_NAME then
        if len_rd = 4 then
          (let (rc, bytes) = read_cb 4
           in if rc = 4 then
                (let val = of_le bytes :: i32
                 in if (val = - 1 \<or> val = 0 \<or> val = 1) \<and> val \<noteq> viosel_get v
                    then (let (ret, v1) = viosel_set env val v in if ret < 0 then (0, v1) else (0, v1))
                    else (0, v))
              else if rc < 0 then (rc, v) else (0, v))
        else (0, v)
      else (0, v))"

text \<open>
  \<open>settings_load\<close> hands an item to the handler of its subtree, with the rest of the
  name; an error of the handler does not stop it.
\<close>

definition load_item :: "vio_env \<Rightarrow> string \<times> u8 list \<Rightarrow> vio \<Rightarrow> vio" where
  "load_item env item v =
     (if take 4 (fst item) = SETTINGS_KEY @ ''/''
      then snd (settings_set env (drop 4 (fst item)) (length (snd item))
             (\<lambda>n. (int (length (take n (snd item))), take n (snd item))) v)
      else v)"

record settings_env =
  se_subsys_init :: int
  se_register :: int

definition settings_init :: "settings_env \<Rightarrow> vio_env \<Rightarrow> (string \<times> u8 list) list \<Rightarrow> vio \<Rightarrow> vio" where
  [op_defs]: "settings_init se env items v =
     (if se_subsys_init se \<noteq> 0 then v
      else if se_register se \<noteq> 0 then v
      else fold (load_item env) items v)"

definition cmd_cfgsync :: "'f store_ops \<Rightarrow> vio \<Rightarrow> 'f \<Rightarrow> int \<times> shell_line list \<times> 'f" where
  [op_defs]: "cmd_cfgsync so v f =
     (let viosel_key = SETTINGS_KEY @ ''/'' @ VIOSEL_STORAGE_NAME;
          (ret, f1) = save_one so viosel_key (le32 (viosel_get v)) f
      in (0, if ret \<noteq> 0 then [Sh_Error (''Problem storing '' @ viosel_key @ '': (err = '' @ int_text ret @ '')'')] else [],
          f1))"

definition settings_event_handler ::
  "settings_env \<Rightarrow> vio_env \<Rightarrow> (string \<times> u8 list) list \<Rightarrow> module_state_event \<Rightarrow> vio \<Rightarrow> bool \<times> vio" where
  [op_defs]: "settings_event_handler se env items e v =
     (if main_ready e then (False, settings_init se env items v) else (False, v))"

section \<open>Temperature\<close>

record temp_env =
  te_ready :: bool
  te_name :: string
  te_fetch :: int
  te_channel :: "int + i32 \<times> i32"

text \<open>The degree sign is two bytes of UTF-8.\<close>

definition cmd_temp :: "temp_env \<Rightarrow> int \<times> shell_line list" where
  [op_defs]: "cmd_temp env =
     (if \<not> te_ready env then (- ENODEV, [Sh_Error (''sensor: device '' @ te_name env @ '' not ready.'')])
      else if te_fetch env \<noteq> 0
      then (te_fetch env, [Sh_Error (''Failed to fetch sample ('' @ int_text (te_fetch env) @ '').'')])
      else case te_channel env of
             Inl ret \<Rightarrow> (ret, [Sh_Error (''Failed to get data ('' @ int_text ret @ '').'')])
           | Inr (val1, val2) \<Rightarrow>
               (0, [Sh_Print (int_text (sint val1) @ ''.'' @ int_text (sint val2 sdiv 100000) @ '' '' @
                     [CHR 0xC2, CHR 0xB0] @ ''C'')]))"

section \<open>The USB serial number\<close>

definition hex_digit :: "nat \<Rightarrow> char" where
  "hex_digit n = (if n < 10 then char_of (48 + n) else char_of (55 + n))"

fun hex_upper :: "nat \<Rightarrow> string" where
  "hex_upper n = (if n < 16 then [hex_digit n] else hex_upper (n div 16) @ [hex_digit (n mod 16)])"

declare hex_upper.simps [simp del]

text \<open>The conversion \<open>%0wX\<close>.\<close>

definition hex_field :: "nat \<Rightarrow> nat \<Rightarrow> string" where
  "hex_field w n = replicate (w - length (hex_upper n)) (CHR ''0'') @ hex_upper n"

definition USB_SERIAL_SIZE :: nat where "USB_SERIAL_SIZE = 22"

text \<open>The board's part is a nRF52820, so the first branch of the source is built.\<close>

definition usb_update_sn_string_descriptor :: "u32 \<Rightarrow> u32 \<Rightarrow> string" where
  "usb_update_sn_string_descriptor addr1 addr0 =
     take (USB_SERIAL_SIZE - 1)
       (''820D9A5F0'' @ hex_field 4 (unat (addr1 AND 0x0000FFFF OR 0x0000C000)) @ hex_field 8 (unat addr0))"

text \<open>\<open>main\<close>: the event it submits when the event manager has started.\<close>

definition ifmcu_main :: "int \<Rightarrow> app_event list" where
  [op_defs]: "ifmcu_main init_ret = (if init_ret \<noteq> 0 then [] else [module_set_state Module_Main MODULE_STATE_READY])"

section \<open>Numbers in text\<close>

lemma of_char_digit [simp]: "n < 10 \<Longrightarrow> (of_char (digit n) :: nat) = 48 + n"
  by (simp add: digit_def take_bit_nat_eq_self)

lemma digits_value_append: "digits_value (ds @ [c]) = 10 * digits_value ds + (of_char c - 48)"
  by (simp add: digits_value_def)

lemma digits_value_decimal: "digits_value (decimal n) = n"
proof (induction n rule: decimal.induct)
  case (1 n)
  then show ?case
    by (subst decimal.simps) (auto simp: digits_value_append, simp add: digits_value_def)
qed

lemma decimal_digits: "c \<in> set (decimal n) \<Longrightarrow> is_digit c"
proof (induction n rule: decimal.induct)
  case (1 n)
  then show ?case
    by (subst (asm) (2) decimal.simps) (auto simp: is_digit_def split: if_splits)
qed

lemma decimal_start: "\<exists>c cs. decimal n = c # cs"
  by (subst decimal.simps) (simp add: neq_Nil_conv [symmetric])

lemma strtol10_decimal: "strtol10 (decimal n) = (min (2 ^ 31 - 1) (int n), True)"
proof -
  obtain c cs where d: "decimal n = c # cs"
    using decimal_start by blast
  have c: "is_digit c"
    using decimal_digits [of c n] d by simp
  then have "\<not> is_space c" "c \<noteq> CHR ''-''" "c \<noteq> CHR ''+''"
    by (auto simp: is_digit_def is_space_def)
  moreover have "takeWhile is_digit (decimal n) = decimal n"
    by (simp add: takeWhile_eq_all_conv decimal_digits)
  moreover have "digits_value (c # cs) = n"
    using digits_value_decimal [of n] d by simp
  ultimately show ?thesis
    by (simp add: strtol10_def d)
qed

text \<open>
  The command takes a decimal number exactly when it is 0 or 1, however many digits the
  number has; any other number changes nothing.
\<close>

theorem viosel_command_exact:
  "cmd_viosel env [name, decimal n] v =
     (if n > 1 then (- EINVAL, [Sh_Error ''<sel> must be 0 or 1''], v)
      else if ve_gpio env \<noteq> 0
      then (ve_gpio env, [Sh_Error (''Cannot configure VIOSEL ('' @ int_text (ve_gpio env) @ '')'')],
            viosel_configure env (n = 1) v)
      else (0, [], \<lparr>viosel = of_nat n, vio_pin = Some (n = 1)\<rparr>))"
proof -
  have "n = 0 \<or> n = 1 \<or> n > 1"
    by linarith
  then show ?thesis
    by (auto simp: cmd_viosel_def strtol10_decimal viosel_configure_def)
qed

section \<open>The selection and the pin\<close>

text \<open>What the firmware reports is what it drives; \<open>- 1\<close> means that it has not touched the pin.\<close>

definition vio_ok :: "vio \<Rightarrow> bool" where
  "vio_ok v \<longleftrightarrow> viosel v \<in> {- 1, 0, 1} \<and>
     vio_pin v = (if viosel v = - 1 then None else Some (viosel v = 1))"

lemma vio_reset_ok [simp]: "vio_ok vio_reset"
  by (simp add: vio_ok_def vio_reset_def)

lemma cmd_viosel_ok:
  assumes "vio_ok v" "ve_gpio env \<le> 0"
  shows "vio_ok (snd (snd (cmd_viosel env argv v)))"
  using assms by (auto simp: vio_ok_def cmd_viosel_def viosel_configure_def Let_def split: prod.split)

text \<open>
  A stored value: only \<open>0\<close> and \<open>1\<close> have an effect on a device that has just started, and
  the outcome of the GPIO driver decides whether they have one.
\<close>

definition load_viosel :: "vio_env \<Rightarrow> u8 list \<Rightarrow> vio \<Rightarrow> vio" where
  "load_viosel env b v =
     (let val = of_le b :: i32
      in if length b = 4 \<and> val \<in> {- 1, 0, 1} \<and> val \<noteq> viosel v \<and> ve_ready env \<and> 0 \<le> ve_gpio env
         then \<lparr>viosel = val, vio_pin = Some (val \<noteq> 0)\<rparr> else v)"

definition viosel_key :: string where "viosel_key = ''cfg/viosel''"

lemma viosel_key_split:
  "take 4 k = SETTINGS_KEY @ ''/'' \<and> drop 4 k = VIOSEL_STORAGE_NAME \<longleftrightarrow> k = viosel_key"
proof
  assume a: "take 4 k = SETTINGS_KEY @ ''/'' \<and> drop 4 k = VIOSEL_STORAGE_NAME"
  have "k = take 4 k @ drop 4 k"
    by simp
  also have "\<dots> = viosel_key"
    using a by (simp add: SETTINGS_KEY_def VIOSEL_STORAGE_NAME_def viosel_key_def)
  finally show "k = viosel_key" .
qed (simp add: SETTINGS_KEY_def VIOSEL_STORAGE_NAME_def viosel_key_def)

lemma load_item_eq: "load_item env (k, b) v = (if k = viosel_key then load_viosel env b v else v)"
  unfolding viosel_key_split [symmetric]
  by (auto simp: load_item_def settings_set_def load_viosel_def viosel_get_def viosel_set_def viosel_configure_def
      Let_def)

lemma load_other: "viosel_key \<notin> fst ` set items \<Longrightarrow> fold (load_item env) items v = v"
  by (induction items) (auto simp: load_item_eq)

text \<open>Loading a store is loading the one value stored under the key.\<close>

lemma load_items:
  assumes "distinct (map fst items)"
  shows "fold (load_item env) items v =
    (case map_of items viosel_key of None \<Rightarrow> v | Some b \<Rightarrow> load_viosel env b v)"
  using assms
  by (induction items arbitrary: v) (auto simp: load_item_eq load_other split: option.split)

lemma load_viosel_ok:
  "vio_ok (load_viosel env b vio_reset)"
  by (auto simp: load_viosel_def vio_ok_def vio_reset_def Let_def)

lemma settings_init_ok:
  "distinct (map fst items) \<Longrightarrow> vio_ok (settings_init se env items vio_reset)"
  by (simp add: settings_init_def load_items load_viosel_ok split: option.split)

definition viosel_session :: "(vio_env \<times> string list) list \<Rightarrow> vio \<Rightarrow> vio" where
  "viosel_session cmds v = fold (\<lambda>(env, argv) v. snd (snd (cmd_viosel env argv v))) cmds v"

text \<open>
  The report is true. After start-up with any stored items and any sequence of commands,
  \<open>viosel\<close> is \<open>- 1\<close>, \<open>0\<close> or \<open>1\<close>; it is \<open>- 1\<close> only when the firmware has not driven the pin, and
  otherwise it is the level the pin is driven to.
\<close>

theorem viosel_matches_pin:
  assumes "distinct (map fst items)" "\<forall>c\<in>set cmds. ve_gpio (fst c) \<le> 0"
  shows "vio_ok (viosel_session cmds (settings_init se env items vio_reset))"
proof -
  have "\<forall>c\<in>set cmds. ve_gpio (fst c) \<le> 0 \<Longrightarrow> vio_ok v \<Longrightarrow> vio_ok (viosel_session cmds v)" for v
    by (induction cmds arbitrary: v) (auto simp: viosel_session_def cmd_viosel_ok)
  then show ?thesis
    using assms settings_init_ok by blast
qed

text \<open>
  C39. The selection survives a restart. If \<open>cfgsync\<close> could store it, then after a restart the
  start-up code selects it again and drives the pin accordingly, whatever else is
  stored, provided the subsystem and the GPIO driver work.
\<close>

theorem viosel_survives_restart:
  assumes "store_spec so" "vio_ok v" "fst (save_one so viosel_key (le32 (viosel v)) f) = 0"
    and "se_subsys_init se = 0" "se_register se = 0" "ve_ready env" "ve_gpio env = 0"
  shows "settings_init se env (stored so (snd (snd (cmd_cfgsync so v f)))) vio_reset = v"
proof -
  let ?f = "snd (save_one so viosel_key (le32 (viosel v)) f)"
  have f: "snd (snd (cmd_cfgsync so v f)) = ?f"
    by (simp add: cmd_cfgsync_def viosel_get_def viosel_key_def SETTINGS_KEY_def VIOSEL_STORAGE_NAME_def split_beta Let_def)
  have d: "distinct (map fst (stored so ?f))"
    using assms(1) by (simp add: store_spec_def)
  have m: "map_of (stored so ?f) viosel_key = Some (le32 (viosel v))"
    using assms(1,3) by (simp add: store_spec_def)
  have "load_viosel env (le32 (viosel v)) vio_reset = v"
    using assms(2,6,7) by (cases v) (auto simp: load_viosel_def vio_ok_def vio_reset_def)
  then show ?thesis
    using assms(4,5) by (simp add: f settings_init_def load_items [OF d] m)
qed

lemma list_store_spec: "store_spec list_store"
  by (simp add: store_spec_def list_store_def map_of_clearjunk distinct_clearjunk del: clearjunk.simps)

section \<open>Temperature\<close>

text \<open>
  Above zero the command prints the temperature cut to tenths. Below zero both parts of
  the driver's value are negative and the second keeps its sign: a minus stands after
  the point.
\<close>

lemma decimal_0 [simp]: "decimal 0 = ''0''"
  by (subst decimal.simps) code_simp

lemma int_text_nat [simp]: "int_text (int n) = decimal n"
  by (simp add: int_text_def)

lemma int_text_neg_nat: "int_text (- int n) = (if n \<noteq> 0 then ''-'' else []) @ decimal n"
  by (simp add: int_text_def)

lemma sint_i32: "- (2 ^ 31) \<le> x \<Longrightarrow> x < 2 ^ 31 \<Longrightarrow> sint (word_of_int x :: i32) = x"
  by (simp add: signed_of_int signed_take_bit_int_eq_self)

lemma tenths: "(a :: nat) mod 1000000 div 100000 = a div 100000 mod 10"
  using mod_mult2_eq [of a 100000 10] by simp

text \<open>Division in C, on a number given by its sign and size.\<close>

lemma sdiv_nat: "int a sdiv int b = int (a div b)" "(- int a) sdiv int b = - int (a div b)"
  "int a smod int b = int (a mod b)" "(- int a) smod int b = - int (a mod b)"
  by (cases "a = 0"; cases "b = 0"; simp add: signed_divide_int_def signed_modulo_int_def zdiv_int zmod_int)+

theorem temp_print:
  assumes "te_ready env" "te_fetch env = 0" "te_channel env = Inr (word_of_int (t sdiv 1000000), word_of_int (t smod 1000000))"
    and "\<bar>t\<bar> < 1000000000"
  shows "cmd_temp env =
    (0, [Sh_Print ((if t \<le> - 1000000 then ''-'' else []) @ decimal (nat \<bar>t\<bar> div 1000000) @ ''.'' @
       (if t < 0 \<and> nat \<bar>t\<bar> div 100000 mod 10 \<noteq> 0 then ''-'' else []) @ decimal (nat \<bar>t\<bar> div 100000 mod 10) @ '' '' @
       [CHR 0xC2, CHR 0xB0] @ ''C'')])"
proof -
  define a where "a = nat \<bar>t\<bar>"
  have a: "a < 1000000000"
    using assms(4) by (simp add: a_def)
  define q r where "q = a div 1000000" and "r = a mod 1000000"
  have q: "q < 2 ^ 31" "r < 2 ^ 31"
    using a by (simp_all add: q_def r_def)
  have d: "a div 100000 mod 10 = r div 100000"
    by (simp add: r_def tenths)
  have m: "int (Suc 0) = 1" "(1000000 :: int) = int 1000000" "(100000 :: int) = int 100000"
    by simp_all
  show ?thesis
  proof (cases "t < 0")
    case False
    then have t: "t = int a"
      by (simp add: a_def)
    have "te_channel env = Inr (word_of_int (int q), word_of_int (int r))"
      using assms(3) unfolding t m(2) sdiv_nat by (simp only: q_def r_def)
    moreover have "sint (word_of_int (int q) :: i32) = int q" "sint (word_of_int (int r) :: i32) = int r"
      using q by (simp_all add: sint_i32 del: of_int_of_nat_eq)
    moreover have "int r sdiv 100000 = int (r div 100000)"
      unfolding m(3) sdiv_nat by (rule refl)
    ultimately show ?thesis
      using False assms(1,2) by (simp only: cmd_temp_def a_def [symmetric] d q_def [symmetric]) simp
  next
    case True
    then have t: "t = - int a"
      by (simp add: a_def)
    have "te_channel env = Inr (word_of_int (- int q), word_of_int (- int r))"
      using assms(3) unfolding t m(2) sdiv_nat by (simp only: q_def r_def)
    moreover have "sint (word_of_int (- int q) :: i32) = - int q" "sint (word_of_int (- int r) :: i32) = - int r"
      using q by (simp_all add: sint_i32 del: of_int_of_nat_eq of_int_minus)
    moreover have "t \<le> - 1000000 \<longleftrightarrow> q \<noteq> 0"
      by (simp add: t q_def div_eq_0_iff not_less)
    moreover have "(- int r) sdiv 100000 = - int (r div 100000)"
      unfolding m(3) sdiv_nat by (rule refl)
    ultimately show ?thesis
      using True assms(1,2)
      by (simp only: cmd_temp_def a_def [symmetric] d q_def [symmetric]) (simp add: int_text_neg_nat)
  qed
qed

section \<open>The USB serial number\<close>

definition hex_digit_value :: "char \<Rightarrow> nat" where
  "hex_digit_value c = (if of_char c < (58 :: nat) then of_char c - 48 else of_char c - 55)"

definition hex_value :: "string \<Rightarrow> nat" where
  "hex_value ds = foldl (\<lambda>a c. 16 * a + hex_digit_value c) 0 ds"

lemma hex_digit_value: "n < 16 \<Longrightarrow> hex_digit_value (hex_digit n) = n"
  by (simp add: hex_digit_value_def hex_digit_def take_bit_nat_eq_self)

lemma hex_value_upper: "hex_value (hex_upper n) = n"
proof (induction n rule: hex_upper.induct)
  case (1 n)
  then show ?case
    by (subst hex_upper.simps) (simp add: hex_value_def hex_digit_value)
qed

lemma hex_value_field: "hex_value (hex_field w n) = n"
proof -
  have "hex_value (replicate k (CHR ''0'') @ ds) = hex_value ds" for k ds
    by (induction k) (simp_all add: hex_value_def hex_digit_value_def)
  then show ?thesis
    by (simp add: hex_field_def hex_value_upper)
qed

lemma length_hex_upper: "n < 16 ^ Suc k \<Longrightarrow> length (hex_upper n) \<le> Suc k"
proof (induction k arbitrary: n)
  case 0
  then show ?case by (simp add: hex_upper.simps)
next
  case (Suc k)
  then have "n div 16 < 16 ^ Suc k"
    by (simp add: div_less_iff_less_mult)
  from Suc.IH [OF this] show ?case
    by (subst hex_upper.simps) simp
qed

lemma length_hex_field: "n < 16 ^ Suc k \<Longrightarrow> length (hex_field (Suc k) n) = Suc k"
  using length_hex_upper [of n k] by (simp add: hex_field_def)

text \<open>The address word as the radio uses it: 14 bits and the two of a static address.\<close>

lemma serial_masks: "(0x0000FFFF :: u32) = mask 16" "(0x0000C000 :: u32) = push_bit 14 (mask 2)"
  by (simp_all add: mask_eq_exp_minus_1)

lemma serial_word: "unat (a AND 0x0000FFFF OR 0x0000C000 :: u32) < 16 ^ 4"
proof -
  have "take_bit 16 (a AND 0x0000FFFF OR 0x0000C000) = (a AND 0x0000FFFF OR 0x0000C000 :: u32)"
    unfolding serial_masks by (rule bit_word_eqI) (auto simp: bit_simps)
  then have "unat (a AND 0x0000FFFF OR 0x0000C000) = unat (take_bit 16 (a AND 0x0000FFFF OR 0x0000C000))"
    by (simp only:)
  also have "\<dots> < 2 ^ 16"
    by (simp only: unsigned_take_bit_eq take_bit_nat_less_exp)
  finally show ?thesis by simp
qed

lemma serial_word_inject:
  "(a AND 0x0000FFFF OR 0x0000C000 = (b AND 0x0000FFFF OR 0x0000C000 :: u32)) \<longleftrightarrow> take_bit 14 a = take_bit 14 b"
proof -
  have low: "take_bit 14 (c AND 0x0000FFFF OR 0x0000C000) = take_bit 14 c"
    and split: "c AND 0x0000FFFF OR 0x0000C000 = take_bit 14 c OR 0x0000C000" for c :: u32
    unfolding serial_masks by (rule bit_word_eqI; auto simp: bit_simps)+
  show ?thesis
    using low split by metis
qed

text \<open>
  The serial number fits its descriptor exactly: it has 21 characters, none is cut off,
  and two devices have the same one only when their address words agree in the 46 bits
  of the radio address that are random.
\<close>

theorem usb_serial_exact:
  "length (usb_update_sn_string_descriptor a1 a0) = USB_SERIAL_SIZE - 1 \<and>
   (usb_update_sn_string_descriptor a1 a0 = usb_update_sn_string_descriptor b1 b0 \<longleftrightarrow>
      take_bit 14 a1 = take_bit 14 b1 \<and> a0 = b0)"
proof -
  have l4: "length (hex_field 4 (unat (a AND 0x0000FFFF OR 0x0000C000 :: u32))) = 4" for a
    using length_hex_field [of _ 3] serial_word [of a] by simp
  have l8: "length (hex_field 8 (unat (a :: u32))) = 8" for a
    using length_hex_field [of "unat a" 7] unsigned_less [of a, where 'a = nat] by simp
  have full: "usb_update_sn_string_descriptor a1 a0 =
      ''820D9A5F0'' @ hex_field 4 (unat (a1 AND 0x0000FFFF OR 0x0000C000)) @ hex_field 8 (unat a0)" for a1 a0
    by (simp add: usb_update_sn_string_descriptor_def USB_SERIAL_SIZE_def l4 l8)
  have inj: "hex_field w m = hex_field w n \<longleftrightarrow> m = n" for w m n
    using hex_value_field by metis
  have u: "unat x = unat y \<longleftrightarrow> x = y" for x y :: u32
    by (simp add: word_unat_eq_iff)
  show ?thesis
    by (simp add: full l4 l8 inj u USB_SERIAL_SIZE_def serial_word_inject)
qed

section \<open>Witnesses\<close>

lemma viosel_matches_pin_witness:
  "vio_ok (viosel_session [(\<lparr>ve_ready = True, ve_gpio = 0\<rparr>, [''viosel'', ''0''])]
     (settings_init \<lparr>se_subsys_init = 0, se_register = 0\<rparr> \<lparr>ve_ready = True, ve_gpio = 0\<rparr>
        [(''cfg/viosel'', [1, 0, 0, 0])] vio_reset))"
  by (rule viosel_matches_pin) simp_all

lemma viosel_survives_restart_witness:
  "settings_init \<lparr>se_subsys_init = 0, se_register = 0\<rparr> \<lparr>ve_ready = True, ve_gpio = 0\<rparr>
     (stored list_store (snd (snd (cmd_cfgsync list_store \<lparr>viosel = 1, vio_pin = Some True\<rparr> [(''cfg/other'', [7])]))))
     vio_reset = \<lparr>viosel = 1, vio_pin = Some True\<rparr>"
  by (rule viosel_survives_restart) (simp_all add: list_store_spec, simp_all add: vio_ok_def list_store_def)

lemma temp_print_witness:
  "cmd_temp \<lparr>te_ready = True, te_name = ''temp'', te_fetch = 0,
      te_channel = Inr (word_of_int ((- 5250000) sdiv 1000000), word_of_int ((- 5250000) smod 1000000))\<rparr> =
    (0, [Sh_Print (''-5.-2 '' @ [CHR 0xC2, CHR 0xB0] @ ''C'')])"
  using temp_print [of "\<lparr>te_ready = True, te_name = ''temp'', te_fetch = 0,
      te_channel = Inr (word_of_int ((- 5250000) sdiv 1000000), word_of_int ((- 5250000) smod 1000000))\<rparr>" "- 5250000"]
  by (simp add: decimal.simps digit_def) code_simp

end
