(* ===== verification/If_Dap.thy ===== *)
theory If_Dap
  imports If_Led
begin

text \<open>
  \<open>ifmcu_firmware/src/modules/usb_bulk_commands.c\<close>: the vendor commands of the CMSIS-DAP
  interface, the button and the shell commands that reset the two microcontrollers. The
  state is what the kernel's work queue holds of the file's three work items, what the
  handlers have done to the hardware, and the state \<open>'d\<close> of the CMSIS-DAP controller,
  whose \<open>dap_execute_cmd\<close> belongs to the kernel and is an argument.
\<close>

definition ID_DAP_VENDOR0 :: u8 where [wire_const]: "ID_DAP_VENDOR0 = 0x80"
definition ID_DAP_VENDOR_NRF54L_RESET :: u8 where [wire_const]: "ID_DAP_VENDOR_NRF54L_RESET = 0x80 + 19"
definition ID_DAP_VENDOR_IFMCU_RESET :: u8 where [wire_const]: "ID_DAP_VENDOR_IFMCU_RESET = 0x80 + 20"
definition ID_DAP_VENDOR_IFMCU_BOOTLOADER :: u8 where [wire_const]: "ID_DAP_VENDOR_IFMCU_BOOTLOADER = 0x80 + 21"
definition ID_DAP_VENDOR_IFMCU_VERSION :: u8 where [wire_const]: "ID_DAP_VENDOR_IFMCU_VERSION = 0x80 + 22"
definition DAP_COMMAND_SUCCESS :: u8 where [wire_const]: "DAP_COMMAND_SUCCESS = 0x00"
definition DAP_COMMAND_FAILED :: u8 where [wire_const]: "DAP_COMMAND_FAILED = 0xFF"
definition USB_BULK_PACKET_SIZE :: nat where "USB_BULK_PACKET_SIZE = 64"
definition NRF54L_RESET_DURATION :: nat where "NRF54L_RESET_DURATION = 100"
definition DK_BTN1_MSK :: u32 where "DK_BTN1_MSK = 1"

datatype bulk_work = Nrf54l_Reset_Work | Ifmcu_Reset_Work | Ifmcu_Bootloader_Work

datatype bulk_call =
  Reset_Pin_Low | Sleep_Ms nat | Reset_Pin_Disconnected | Gpregret u8 | Reboot_Cold | Reboot_Warm | Dap_Led led_state

record 'd bulk =
  bk_queue :: "bulk_work list"
  bk_running :: "bulk_work option"
  bk_calls :: "bulk_call list"
  bk_dap :: 'd

text \<open>
  What is fixed by the build and the board: the version texts, whether the reset pin is
  there, and the controller's command (input, output buffer, state; the length of the
  reply, the buffer and the state after it).
\<close>

record 'd bulk_env =
  be_fw_info :: string
  be_full_info :: string
  be_reset_pin :: bool
  be_execute_cmd :: "u8 list \<Rightarrow> u8 list \<Rightarrow> 'd \<Rightarrow> nat \<times> u8 list \<times> 'd"

definition bulk_called :: "bulk_call list \<Rightarrow> 'd bulk \<Rightarrow> 'd bulk" where
  "bulk_called cs b = b\<lparr>bk_calls := bk_calls b @ cs\<rparr>"

section \<open>Work items\<close>

text \<open>\<open>k_work_busy_get\<close>: queued or running.\<close>

definition work_busy :: "bulk_work \<Rightarrow> 'd bulk \<Rightarrow> bool" where
  "work_busy w b \<longleftrightarrow> w \<in> set (bk_queue b) \<or> bk_running b = Some w"

text \<open>The test and the submission that every request repeats.\<close>

definition schedule_once :: "bulk_work \<Rightarrow> 'd bulk \<Rightarrow> 'd bulk" where
  [op_defs]: "schedule_once w b = (if work_busy w b then b else b\<lparr>bk_queue := bk_queue b @ [w]\<rparr>)"

definition nrf54l_reset_work_handler :: "'d bulk_env \<Rightarrow> 'd bulk \<Rightarrow> 'd bulk" where
  [op_defs]: "nrf54l_reset_work_handler env b =
     (if \<not> be_reset_pin env then b
      else bulk_called [Reset_Pin_Low, Sleep_Ms NRF54L_RESET_DURATION, Reset_Pin_Disconnected] b)"

definition ifmcu_bootloader_work_handler :: "'d bulk \<Rightarrow> 'd bulk" where
  [op_defs]: "ifmcu_bootloader_work_handler b = bulk_called [Gpregret 0x57, Reboot_Cold] b"

definition ifmcu_reset_work_handler :: "'d bulk \<Rightarrow> 'd bulk" where
  [op_defs]: "ifmcu_reset_work_handler b = bulk_called [Reboot_Warm] b"

text \<open>The work queue takes its oldest item and, later, has finished with it.\<close>

definition work_begin :: "'d bulk_env \<Rightarrow> 'd bulk \<Rightarrow> 'd bulk" where
  "work_begin env b =
     (case (bk_running b, bk_queue b) of
        (None, w # ws) \<Rightarrow>
          (let b1 = b\<lparr>bk_queue := ws, bk_running := Some w\<rparr>
           in case w of
                Nrf54l_Reset_Work \<Rightarrow> nrf54l_reset_work_handler env b1
              | Ifmcu_Reset_Work \<Rightarrow> ifmcu_reset_work_handler b1
              | Ifmcu_Bootloader_Work \<Rightarrow> ifmcu_bootloader_work_handler b1)
      | _ \<Rightarrow> b)"

definition work_end :: "'d bulk \<Rightarrow> 'd bulk" where
  "work_end b = b\<lparr>bk_running := None\<rparr>"

section \<open>Vendor commands\<close>

text \<open>
  \<open>snprintf\<close> of a text without conversions into \<open>n\<close> bytes at an offset of a buffer: at most
  \<open>n - 1\<close> characters and the terminating NUL. It returns the length of the text.
\<close>

definition snprintf_at :: "nat \<Rightarrow> nat \<Rightarrow> string \<Rightarrow> u8 list \<Rightarrow> nat \<times> u8 list" where
  "snprintf_at off n s out =
     (let w = map of_char (take (n - 1) s) @ [0]
      in (length s, take off out @ w @ drop (off + length w) out))"

definition reply2 :: "u8 \<Rightarrow> u8 \<Rightarrow> u8 list \<Rightarrow> u8 list" where
  "reply2 a b out = out[0 := a, 1 := b]"

definition dap_execute_vendor_cmd ::
  "'d bulk_env \<Rightarrow> u8 list \<Rightarrow> u8 list \<Rightarrow> 'd bulk \<Rightarrow> nat \<times> u8 list \<times> 'd bulk" where
  [op_defs]: "dap_execute_vendor_cmd env inp out b0 =
     (let b = bulk_called [Dap_Led LED_STATE_BLINK] b0; cmd = inp ! 0
      in if cmd < ID_DAP_VENDOR0 then
           (let (n, out', d) = be_execute_cmd env inp out (bk_dap b) in (n, out', b\<lparr>bk_dap := d\<rparr>))
         else if cmd = ID_DAP_VENDOR_IFMCU_BOOTLOADER then
           (2, reply2 cmd DAP_COMMAND_SUCCESS out, schedule_once Ifmcu_Bootloader_Work b)
         else if cmd = ID_DAP_VENDOR_IFMCU_RESET then
           (2, reply2 cmd DAP_COMMAND_SUCCESS out, schedule_once Ifmcu_Reset_Work b)
         else if cmd = ID_DAP_VENDOR_NRF54L_RESET then
           (2, reply2 cmd DAP_COMMAND_SUCCESS out, schedule_once Nrf54l_Reset_Work b)
         else if cmd = ID_DAP_VENDOR_IFMCU_VERSION then
           (let (len, out') = snprintf_at 2 (USB_BULK_PACKET_SIZE - 2) (be_fw_info env) out
            in if len \<ge> USB_BULK_PACKET_SIZE - 2 then (2, reply2 cmd DAP_COMMAND_FAILED out', b)
               else (len + 2, reply2 cmd (of_nat len) out', b))
         else (2, reply2 cmd DAP_COMMAND_FAILED out, b))"

section \<open>Button and shell\<close>

definition button_handler :: "u32 \<Rightarrow> u32 \<Rightarrow> 'd bulk \<Rightarrow> 'd bulk" where
  [op_defs]: "button_handler button_states has_changed b =
     (if has_changed AND button_states AND DK_BTN1_MSK \<noteq> 0 then schedule_once Nrf54l_Reset_Work b else b)"

text \<open>\<open>argv\<close> holds the command's name first; the shell allows one argument more.\<close>

definition cmd_version :: "'d bulk_env \<Rightarrow> string list \<Rightarrow> int \<times> shell_line list" where
  [op_defs]: "cmd_version env argv =
     (if length argv = 1 then (0, [Sh_Print (be_fw_info env)])
      else if argv ! 1 \<noteq> ''-a'' \<and> argv ! 1 \<noteq> ''--all''
      then (- EIO, [Sh_Error (''Unsupported option: '' @ argv ! 1)])
      else (0, [Sh_Print (be_full_info env)]))"

definition cmd_bootloader :: "'d bulk \<Rightarrow> int \<times> shell_line list \<times> 'd bulk" where
  [op_defs]: "cmd_bootloader b =
     (0, [Sh_Print ''Entering IFMCU UF2 Bootloader mode...''], schedule_once Ifmcu_Bootloader_Work b)"

definition cmd_reset :: "string list \<Rightarrow> 'd bulk \<Rightarrow> int \<times> shell_line list \<times> 'd bulk" where
  [op_defs]: "cmd_reset argv b =
     (if length argv = 1 \<or> argv ! 1 = ''nrf54l15'' then (0, [], schedule_once Nrf54l_Reset_Work b)
      else if argv ! 1 = ''nrf52820'' then (0, [], schedule_once Ifmcu_Reset_Work b)
      else (- EIO, [Sh_Error (''Unknown target: '' @ argv ! 1)], b))"

section \<open>Replies\<close>

text \<open>What the controller promises: a reply fits the buffer and the buffer keeps its size.\<close>

definition execute_ok :: "'d bulk_env \<Rightarrow> bool" where
  "execute_ok env \<longleftrightarrow>
     (\<forall>inp out d. length out = USB_BULK_PACKET_SIZE \<longrightarrow>
        fst (be_execute_cmd env inp out d) \<le> USB_BULK_PACKET_SIZE \<and>
        length (fst (snd (be_execute_cmd env inp out d))) = USB_BULK_PACKET_SIZE)"

definition dap_reply :: "'d bulk_env \<Rightarrow> u8 list \<Rightarrow> u8 list \<Rightarrow> 'd bulk \<Rightarrow> u8 list" where
  "dap_reply env inp out b =
     (let (n, out', b') = dap_execute_vendor_cmd env inp out b in take n out')"

lemma length_snprintf_at [simp]:
  "off + n \<le> length out \<Longrightarrow> 0 < n \<Longrightarrow> length (snd (snprintf_at off n s out)) = length out"
  by (auto simp: snprintf_at_def Let_def)

lemma vendor_reply_size:
  assumes "execute_ok env" "length out = USB_BULK_PACKET_SIZE"
  shows "fst (dap_execute_vendor_cmd env inp out b) \<le> USB_BULK_PACKET_SIZE"
    and "length (fst (snd (dap_execute_vendor_cmd env inp out b))) = USB_BULK_PACKET_SIZE"
  using assms
  by (auto simp: dap_execute_vendor_cmd_def execute_ok_def Let_def reply2_def split_beta USB_BULK_PACKET_SIZE_def)

lemma take_reply2:
  "2 \<le> length out \<Longrightarrow> take (Suc (Suc k)) (reply2 a b out) = a # b # take k (drop 2 out)"
  by (cases out; cases "tl out") (auto simp: reply2_def eval_nat_numeral)

lemma snprintf_fits:
  assumes "length s < n" "off \<le> length out"
  shows "take (length s) (drop off (snd (snprintf_at off n s out))) = map of_char s"
  using assms by (simp add: snprintf_at_def Let_def)

text \<open>
  The reply to a vendor command begins with the command's byte and fits a packet; it is
  the status alone, or the version's length and its text when that fits, and then the
  version is exactly the text. A text of 62 characters or more is a failure.
\<close>

theorem dap_vendor_reply:
  assumes "length out = USB_BULK_PACKET_SIZE" "ID_DAP_VENDOR0 \<le> inp ! 0"
  shows "dap_reply env inp out b =
    (let cmd = inp ! 0; len = length (be_fw_info env)
     in if cmd = ID_DAP_VENDOR_IFMCU_VERSION \<and> len < 62 then cmd # of_nat len # map of_char (be_fw_info env)
        else [cmd, if cmd \<in> {ID_DAP_VENDOR_NRF54L_RESET, ID_DAP_VENDOR_IFMCU_RESET, ID_DAP_VENDOR_IFMCU_BOOTLOADER}
                   then DAP_COMMAND_SUCCESS else DAP_COMMAND_FAILED])"
proof -
  have sz: "length out = 64"
    using assms(1) by (simp add: USB_BULK_PACKET_SIZE_def)
  have t2: "take 2 (reply2 a c out') = [a, c]" if "length out' = 64" for a c out'
    using take_reply2 [of out' 0 a c] that by (simp add: eval_nat_numeral)
  let ?p = "snprintf_at 2 62 (be_fw_info env) out"
  have p: "fst ?p = length (be_fw_info env)" "length (snd ?p) = 64"
    by (simp_all add: sz snprintf_at_def Let_def)
  have v: "take (Suc (Suc n)) (reply2 a c (snd ?p)) = a # c # map of_char (be_fw_info env)"
    if "n = length (be_fw_info env)" "n < 62" for a c n
    using take_reply2 [of "snd ?p" n a c] snprintf_fits [of "be_fw_info env" 62 2 out] that by (simp add: p sz)
  have n: "\<not> inp ! 0 < ID_DAP_VENDOR0"
    using assms(2) by simp
  show ?thesis
    using v [OF refl] n
    by (auto simp: dap_reply_def dap_execute_vendor_cmd_def Let_def split_beta t2 sz p USB_BULK_PACKET_SIZE_def
        ID_DAP_VENDOR_NRF54L_RESET_def ID_DAP_VENDOR_IFMCU_RESET_def ID_DAP_VENDOR_IFMCU_BOOTLOADER_def
        ID_DAP_VENDOR_IFMCU_VERSION_def)
qed

section \<open>One reset at a time\<close>

text \<open>
  A history of requests and of the work queue. No item is queued twice or while it
  runs, so the queue never holds more than the three items.
\<close>

datatype work_op = Wk_Request bulk_work | Wk_Begin | Wk_End

fun work_exec :: "'d bulk_env \<Rightarrow> work_op \<Rightarrow> 'd bulk \<Rightarrow> 'd bulk" where
  "work_exec env (Wk_Request w) b = schedule_once w b"
| "work_exec env Wk_Begin b = work_begin env b"
| "work_exec env Wk_End b = work_end b"

definition work_items :: "'d bulk \<Rightarrow> bulk_work list" where
  "work_items b = bk_queue b @ (case bk_running b of None \<Rightarrow> [] | Some w \<Rightarrow> [w])"

lemma bulk_called_frame [simp]:
  "bk_queue (bulk_called cs b) = bk_queue b" "bk_running (bulk_called cs b) = bk_running b"
  "bk_dap (bulk_called cs b) = bk_dap b" "bk_calls (bulk_called cs b) = bk_calls b @ cs"
  by (simp_all add: bulk_called_def)

lemma work_begin_frame [simp]:
  "bk_queue (work_begin env b) = (if bk_running b = None then tl (bk_queue b) else bk_queue b)"
  "bk_running (work_begin env b) =
     (if bk_running b = None \<and> bk_queue b \<noteq> [] then Some (hd (bk_queue b)) else bk_running b)"
  by (auto simp: work_begin_def nrf54l_reset_work_handler_def ifmcu_reset_work_handler_def
      ifmcu_bootloader_work_handler_def Let_def split: option.split list.split bulk_work.split)

lemma work_exec_distinct:
  "distinct (work_items b) \<Longrightarrow> distinct (work_items (work_exec env op b))"
  by (cases op; cases "bk_queue b")
    (auto simp: work_items_def schedule_once_def work_busy_def work_end_def split: option.splits)

lemma work_items_distinct:
  "distinct (work_items b) \<Longrightarrow> distinct (work_items (fold (work_exec env) ops b))"
  by (induction ops arbitrary: b) (simp_all add: work_exec_distinct)

text \<open>The target is never left in reset: every pulse that begins also ends.\<close>

definition is_pin_call :: "bulk_call \<Rightarrow> bool" where
  "is_pin_call c \<longleftrightarrow> (case c of Reset_Pin_Low \<Rightarrow> True | Sleep_Ms n \<Rightarrow> True | Reset_Pin_Disconnected \<Rightarrow> True | _ \<Rightarrow> False)"

inductive pulses_complete :: "bulk_call list \<Rightarrow> bool" where
  no_call: "pulses_complete []"
| pulse: "pulses_complete cs \<Longrightarrow> pulses_complete (Reset_Pin_Low # Sleep_Ms 100 # Reset_Pin_Disconnected # cs)"
| other_call: "\<not> is_pin_call c \<Longrightarrow> pulses_complete cs \<Longrightarrow> pulses_complete (c # cs)"

lemma pulses_append: "pulses_complete as \<Longrightarrow> pulses_complete bs \<Longrightarrow> pulses_complete (as @ bs)"
  by (induction rule: pulses_complete.induct) (auto intro: pulses_complete.intros)

lemma pulses_handlers [simp]:
  "pulses_complete []"
  "pulses_complete [Reset_Pin_Low, Sleep_Ms NRF54L_RESET_DURATION, Reset_Pin_Disconnected]"
  "pulses_complete [Gpregret v, Reboot_Cold]" "pulses_complete [Reboot_Warm]"
  by (auto simp: NRF54L_RESET_DURATION_def is_pin_call_def intro!: pulses_complete.intros)

lemma work_exec_pulses:
  "pulses_complete (bk_calls b) \<Longrightarrow> pulses_complete (bk_calls (work_exec env op b))"
  by (cases op)
    (auto simp: schedule_once_def work_begin_def work_end_def nrf54l_reset_work_handler_def
      ifmcu_reset_work_handler_def ifmcu_bootloader_work_handler_def pulses_append Let_def
      split: option.split list.split bulk_work.split)

text \<open>
  Whatever is requested by command, button or shell, each work item is in the queue or
  running at most once, so at most three wait, and the reset pin is always pulled low
  for 100 ms and then released.
\<close>

theorem reset_requests_bounded:
  assumes "bk_queue b = []" "bk_running b = None" "bk_calls b = []"
  shows "let b' = fold (work_exec env) ops b
         in distinct (work_items b') \<and> length (work_items b') \<le> 3 \<and> pulses_complete (bk_calls b')"
proof -
  let ?b = "fold (work_exec env) ops b"
  have d: "distinct (work_items ?b)"
    using assms by (intro work_items_distinct) (simp add: work_items_def)
  have "set (work_items ?b) \<subseteq> {Nrf54l_Reset_Work, Ifmcu_Reset_Work, Ifmcu_Bootloader_Work}"
    using bulk_work.exhaust by blast
  then have "card (set (work_items ?b)) \<le> card {Nrf54l_Reset_Work, Ifmcu_Reset_Work, Ifmcu_Bootloader_Work}"
    by (rule card_mono [rotated]) simp
  then have "length (work_items ?b) \<le> 3"
    using distinct_card [OF d] by simp
  moreover have "pulses_complete (bk_calls b0) \<Longrightarrow> pulses_complete (bk_calls (fold (work_exec env) ops b0))" for b0
    by (induction ops arbitrary: b0) (simp_all add: work_exec_pulses)
  then have "pulses_complete (bk_calls ?b)"
    using assms(3) by simp
  ultimately show ?thesis
    using d by simp
qed

section \<open>Witnesses\<close>

definition sample_bulk_env :: "unit bulk_env" where
  "sample_bulk_env = \<lparr>be_fw_info = ''v1.0.0-gabc'', be_full_info = ''IFMCU Firmware v1.0.0-gabc'', be_reset_pin = True,
     be_execute_cmd = (\<lambda>inp out d. (1, out[0 := inp ! 0], d))\<rparr>"

definition sample_bulk :: "unit bulk" where
  "sample_bulk = \<lparr>bk_queue = [], bk_running = None, bk_calls = [], bk_dap = ()\<rparr>"

lemma sample_execute_ok: "execute_ok sample_bulk_env"
  by (simp add: execute_ok_def sample_bulk_env_def USB_BULK_PACKET_SIZE_def)

lemma dap_vendor_reply_witness:
  "dap_reply sample_bulk_env [0x96, 0] (replicate 64 7) sample_bulk = 0x96 # 11 # map of_char ''v1.0.0-gabc''"
  using dap_vendor_reply [of "replicate 64 7" "[0x96, 0]" sample_bulk_env sample_bulk]
  by (simp add: USB_BULK_PACKET_SIZE_def sample_bulk_env_def ID_DAP_VENDOR0_def ID_DAP_VENDOR_IFMCU_VERSION_def)

lemma reset_requests_bounded_witness:
  "let b' = fold (work_exec sample_bulk_env) [Wk_Request Nrf54l_Reset_Work, Wk_Begin, Wk_Request Nrf54l_Reset_Work] sample_bulk
   in distinct (work_items b') \<and> length (work_items b') \<le> 3 \<and> pulses_complete (bk_calls b')"
  by (rule reset_requests_bounded) (simp_all add: sample_bulk_def)

end
