(* ===== verification/If_Bulk.thy ===== *)
theory If_Bulk
  imports If_Dap Bytes
begin

text \<open>
  \<open>ifmcu_firmware/src/modules/usb_bulk_interface.c\<close>: CMSIS-DAP packets over USB bulk
  endpoints. The read callback puts a packet into a buffer of a pool of four and the
  buffer into a queue; a thread takes the oldest buffer, executes the command, gives the
  buffer back and writes the reply. A wait without a limit that would not end is \<open>None\<close>.
  \<open>usb_bulk_msosv2.h\<close>: the Microsoft OS descriptor and the request that reads it.
\<close>

definition USB_BULK_PACKET_COUNT :: nat where "USB_BULK_PACKET_COUNT = 4"

datatype usb_call =
  Bulk_Read | Bulk_Write "u8 list" | Bos_Register | Iface_String_Index | Dap_Setup

section \<open>State\<close>

text \<open>
  The buffers in the queue with their 64 bytes of data; the free buffers are counted,
  their contents are those of the last use and come with the allocation. \<open>di_number\<close> is
  the interface number in the descriptors.
\<close>

record 'd bulk_if =
  di_bulk :: "'d bulk"
  di_free :: nat
  di_rx_queue :: "u8 list list"
  di_rx_buf :: "u8 list"
  di_tx_buf :: "u8 list"
  di_number :: u8
  di_subset_number :: u8
  di_string :: u8
  di_calls :: "usb_call list"

definition usb_called :: "usb_call list \<Rightarrow> 'd bulk_if \<Rightarrow> 'd bulk_if" where
  "usb_called cs s = s\<lparr>di_calls := di_calls s @ cs\<rparr>"

definition dapusb_interface_config :: "bool \<Rightarrow> u8 \<Rightarrow> 'd bulk_if \<Rightarrow> 'd bulk_if" where
  [op_defs]: "dapusb_interface_config composite n s =
     (let s1 = s\<lparr>di_number := n\<rparr> in if composite then s1\<lparr>di_subset_number := n\<rparr> else s1)"

definition iface_string_desc_init :: "u8 \<Rightarrow> 'd bulk_if \<Rightarrow> 'd bulk_if" where
  [op_defs]: "iface_string_desc_init idx s = usb_called [Iface_String_Index] (s\<lparr>di_string := idx\<rparr>)"

section \<open>Reading\<close>

text \<open>
  \<open>stale\<close> is what the allocated buffer holds from its last use. A finished transfer has
  left its packet in \<open>rx_buf\<close> already (\<open>bulk_received\<close>).
\<close>

definition bulk_received :: "u8 list \<Rightarrow> 'd bulk_if \<Rightarrow> 'd bulk_if" where
  "bulk_received d s = s\<lparr>di_rx_buf := d @ drop (length d) (di_rx_buf s)\<rparr>"

definition dapusb_read_cb :: "int \<Rightarrow> u8 list \<Rightarrow> 'd bulk_if \<Rightarrow> 'd bulk_if option" where
  [op_defs]: "dapusb_read_cb sz stale s =
     (if sz \<le> 0 then Some (usb_called [Bulk_Read] s)
      else if di_free s = 0 then None
      else
        let n = min (nat sz) USB_BULK_PACKET_SIZE; data = take n (di_rx_buf s) @ drop n stale
        in Some (usb_called [Bulk_Read] (s\<lparr>di_free := di_free s - 1, di_rx_queue := di_rx_queue s @ [data]\<rparr>)))"

datatype bulk_usb_status = Bulk_Configured | Bulk_Other_Status

definition dapusb_dev_status_cb :: "bulk_usb_status \<Rightarrow> u8 list \<Rightarrow> 'd bulk_if \<Rightarrow> 'd bulk_if option" where
  [op_defs]: "dapusb_dev_status_cb status stale s =
     (if status = Bulk_Configured then dapusb_read_cb 0 stale s else Some s)"

section \<open>Executing\<close>

text \<open>\<open>written\<close> is what \<open>usb_transfer_sync\<close> returns; \<open>len\<close> is converted when it is compared with it.\<close>

definition dap_usb_process ::
  "'d bulk_env \<Rightarrow> bool \<Rightarrow> int \<Rightarrow> 'd bulk_if \<Rightarrow> (int \<times> 'd bulk_if) option" where
  [op_defs]: "dap_usb_process env vendor written s =
     (case di_rx_queue s of
        [] \<Rightarrow> None
      | buf # rest \<Rightarrow>
          (let (len, tx, b) =
             (if vendor then dap_execute_vendor_cmd env buf (di_tx_buf s) (di_bulk s)
              else (let (n, out, d) = be_execute_cmd env buf (di_tx_buf s) (bk_dap (di_bulk s))
                    in (n, out, (di_bulk s)\<lparr>bk_dap := d\<rparr>)));
             s1 = usb_called [Bulk_Write (take len tx)]
               (s\<lparr>di_rx_queue := rest, di_bulk := b, di_tx_buf := tx, di_free := di_free s + 1\<rparr>)
           in Some (if written < 0 \<or> written \<noteq> int len then (- EIO, s1) else (0, s1))))"

text \<open>A pass of \<open>dap_usb_thread_fn\<close> ignores what \<open>dap_usb_process\<close> returns.\<close>

definition dap_usb_thread_pass :: "'d bulk_env \<Rightarrow> bool \<Rightarrow> int \<Rightarrow> 'd bulk_if \<Rightarrow> 'd bulk_if option" where
  [op_defs]: "dap_usb_thread_pass env vendor written s = map_option snd (dap_usb_process env vendor written s)"

text \<open>Start-up: the events submitted do not depend on the controller's set-up.\<close>

definition bulk_app_event_handler :: "module_state_event \<Rightarrow> u8 \<Rightarrow> 'd bulk_if \<Rightarrow> bool \<times> app_event list \<times> 'd bulk_if" where
  [op_defs]: "bulk_app_event_handler e idx s =
     (if main_ready e then
        (False,
         [module_set_state Module_Bulk_Interface MODULE_STATE_READY,
          module_set_state Module_Bulk_Interface MODULE_STATE_STANDBY],
         usb_called [Dap_Setup] (iface_string_desc_init idx (usb_called [Bos_Register] s)))
      else (False, [], s))"

section \<open>Requests and replies\<close>

datatype bulk_op = Packet "u8 list" "u8 list" | Pass int

text \<open>
  A packet arrives (with the contents of the buffer it is put in), or the thread makes a
  pass; an operation that would wait leaves the state as it is.
\<close>

fun bulk_exec :: "'d bulk_env \<Rightarrow> bool \<Rightarrow> bulk_op \<Rightarrow> 'd bulk_if \<Rightarrow> 'd bulk_if" where
  "bulk_exec env vendor (Packet d stale) s =
     (case dapusb_read_cb (int (length d)) stale (bulk_received d s) of None \<Rightarrow> s | Some s' \<Rightarrow> s')"
| "bulk_exec env vendor (Pass written) s =
     (case dap_usb_thread_pass env vendor written s of None \<Rightarrow> s | Some s' \<Rightarrow> s')"

definition bulk_run :: "'d bulk_env \<Rightarrow> bool \<Rightarrow> bulk_op list \<Rightarrow> 'd bulk_if \<Rightarrow> 'd bulk_if" where
  "bulk_run env vendor ops s = fold (bulk_exec env vendor) ops s"

text \<open>The packets a run accepts, as the commands see them, and the replies it writes.\<close>

definition accepted_by :: "bulk_op \<Rightarrow> 'd bulk_if \<Rightarrow> u8 list list" where
  "accepted_by op s =
     (case op of
        Packet d stale \<Rightarrow> (if d \<noteq> [] \<and> di_free s \<noteq> 0 then [take 64 d @ drop (min (length d) 64) stale] else [])
      | Pass written \<Rightarrow> [])"

fun accepted :: "'d bulk_env \<Rightarrow> bool \<Rightarrow> bulk_op list \<Rightarrow> 'd bulk_if \<Rightarrow> u8 list list" where
  "accepted env vendor [] s = []"
| "accepted env vendor (op # ops) s = accepted_by op s @ accepted env vendor ops (bulk_exec env vendor op s)"

definition writes :: "usb_call list \<Rightarrow> u8 list list" where
  "writes cs = concat (map (\<lambda>c. case c of Bulk_Write d \<Rightarrow> [d] | _ \<Rightarrow> []) cs)"

text \<open>Executing commands one after the other, without USB: their replies.\<close>

fun serve :: "'d bulk_env \<Rightarrow> u8 list list \<Rightarrow> u8 list \<Rightarrow> 'd bulk \<Rightarrow> u8 list list \<times> u8 list \<times> 'd bulk" where
  "serve env [] out b = ([], out, b)"
| "serve env (req # reqs) out b =
     (let (n, out1, b1) = dap_execute_vendor_cmd env req out b;
          (replies, out2, b2) = serve env reqs out1 b1
      in (take n out1 # replies, out2, b2))"

lemma serve_append:
  "serve env (as @ bs) out b =
     (let (r1, out1, b1) = serve env as out b; (r2, out2, b2) = serve env bs out1 b1 in (r1 @ r2, out2, b2))"
  by (induction as arbitrary: out b) (auto simp: Let_def split: prod.split)

lemma usb_called_frame [simp]:
  "di_rx_queue (usb_called cs s) = di_rx_queue s" "di_free (usb_called cs s) = di_free s"
  "di_tx_buf (usb_called cs s) = di_tx_buf s" "di_bulk (usb_called cs s) = di_bulk s"
  "di_calls (usb_called cs s) = di_calls s @ cs"
  by (simp_all add: usb_called_def)

lemma writes_simps [simp]:
  "writes [] = []" "writes (as @ bs) = writes as @ writes bs" "writes [Bulk_Read] = []" "writes [Bulk_Write d] = [d]"
  by (simp_all add: writes_def)

lemma accepted_snoc:
  "accepted env vendor (ops @ [op]) s = accepted env vendor ops s @ accepted_by op (bulk_run env vendor ops s)"
  by (induction ops arbitrary: s) (auto simp: bulk_run_def)

lemma packet_effect:
  assumes "length d \<le> 64"
  shows "di_rx_queue (bulk_exec env vendor (Packet d stale) s) = di_rx_queue s @ accepted_by (Packet d stale) s"
    and "di_free (bulk_exec env vendor (Packet d stale) s) = di_free s - length (accepted_by (Packet d stale) s)"
    and "di_tx_buf (bulk_exec env vendor (Packet d stale) s) = di_tx_buf s"
    and "di_bulk (bulk_exec env vendor (Packet d stale) s) = di_bulk s"
    and "writes (di_calls (bulk_exec env vendor (Packet d stale) s)) = writes (di_calls s)"
    and "length (accepted_by (Packet d stale) s) \<le> di_free s"
  using assms
  by (auto simp: dapusb_read_cb_def bulk_received_def accepted_by_def USB_BULK_PACKET_SIZE_def min_absorb1 Let_def)

lemma pass_effect:
  "bulk_exec env True (Pass written) s =
     (case di_rx_queue s of
        [] \<Rightarrow> s
      | req # rest \<Rightarrow>
          (let (replies, out, b) = serve env [req] (di_tx_buf s) (di_bulk s)
           in usb_called (map Bulk_Write replies)
                (s\<lparr>di_rx_queue := rest, di_bulk := b, di_tx_buf := out, di_free := di_free s + 1\<rparr>)))"
  by (auto simp: dap_usb_thread_pass_def dap_usb_process_def Let_def split: list.split prod.split)

definition packet_ok :: "bulk_op \<Rightarrow> bool" where
  "packet_ok op \<longleftrightarrow> (case op of Packet d stale \<Rightarrow> length d \<le> 64 | Pass written \<Rightarrow> True)"

lemma bulk_run_serves:
  assumes "\<forall>op\<in>set ops. packet_ok op"
    and "di_rx_queue s = []" "di_calls s = []" "di_free s = USB_BULK_PACKET_COUNT"
  shows "\<exists>done. let s' = bulk_run env True ops s
     in accepted env True ops s = done @ di_rx_queue s' \<and>
        serve env done (di_tx_buf s) (di_bulk s) = (writes (di_calls s'), di_tx_buf s', di_bulk s') \<and>
        di_free s' + length (di_rx_queue s') = USB_BULK_PACKET_COUNT"
  using assms(1)
proof (induction ops rule: rev_induct)
  case Nil
  then show ?case
    using assms(2-4) by (simp add: bulk_run_def)
next
  case (snoc op ops)
  let ?t = "bulk_run env True ops s"
  from snoc obtain "done" where
    acc: "accepted env True ops s = done @ di_rx_queue ?t" and
    srv: "serve env done (di_tx_buf s) (di_bulk s) = (writes (di_calls ?t), di_tx_buf ?t, di_bulk ?t)" and
    free: "di_free ?t + length (di_rx_queue ?t) = USB_BULK_PACKET_COUNT"
    by (auto simp: Let_def)
  have run: "bulk_run env True (ops @ [op]) s = bulk_exec env True op ?t"
    by (simp add: bulk_run_def)
  show ?case
  proof (cases op)
    case (Packet d stale)
    then have d: "length d \<le> 64"
      using snoc.prems by (simp add: packet_ok_def)
    show ?thesis
      using acc srv free packet_effect(6) [OF d, of stale ?t]
      unfolding accepted_snoc Packet run [unfolded Packet] Let_def
      by (intro exI [of _ "done"]) (simp del: bulk_exec.simps add: packet_effect(1-5) [OF d])
  next
    case (Pass written)
    show ?thesis
    proof (cases "di_rx_queue ?t")
      case Nil
      then show ?thesis
        using acc srv free unfolding accepted_snoc Pass run [unfolded Pass] pass_effect Let_def
        by (intro exI [of _ "done"]) (simp add: accepted_by_def)
    next
      case (Cons req rest)
      obtain n out b where e: "dap_execute_vendor_cmd env req (di_tx_buf ?t) (di_bulk ?t) = (n, out, b)"
        by (metis prod_cases3)
      show ?thesis
        using acc srv free Cons e unfolding accepted_snoc Pass run [unfolded Pass] pass_effect Let_def
        by (intro exI [of _ "done @ [req]"]) (simp add: accepted_by_def serve_append)
    qed
  qed
qed

text \<open>
  C16. The interface answers every command it accepted once and in order, as the commands
  executed one after the other would, whatever the USB transfers of the replies return;
  the commands not yet answered are in the queue, and each of the four buffers is free
  or in the queue.
\<close>

theorem bulk_replies_in_order:
  assumes "\<forall>op\<in>set ops. packet_ok op"
    and "di_rx_queue s = []" "di_calls s = []" "di_free s = USB_BULK_PACKET_COUNT"
  shows "let s' = bulk_run env True ops s; reqs = accepted env True ops s;
             k = length reqs - length (di_rx_queue s')
         in di_rx_queue s' = drop k reqs \<and>
            writes (di_calls s') = fst (serve env (take k reqs) (di_tx_buf s) (di_bulk s)) \<and>
            di_free s' + length (di_rx_queue s') = USB_BULK_PACKET_COUNT"
proof -
  obtain "done" where d: "accepted env True ops s = done @ di_rx_queue (bulk_run env True ops s)"
    "serve env done (di_tx_buf s) (di_bulk s) =
       (writes (di_calls (bulk_run env True ops s)), di_tx_buf (bulk_run env True ops s), di_bulk (bulk_run env True ops s))"
    "di_free (bulk_run env True ops s) + length (di_rx_queue (bulk_run env True ops s)) = USB_BULK_PACKET_COUNT"
    using bulk_run_serves [OF assms, of env] by (auto simp: Let_def)
  then show ?thesis
    by (simp add: Let_def)
qed

lemma bulk_replies_in_order_witness:
  "let s = \<lparr>di_bulk = sample_bulk, di_free = 4, di_rx_queue = [], di_rx_buf = replicate 64 0,
             di_tx_buf = replicate 64 0, di_number = 0, di_subset_number = 0, di_string = 0, di_calls = []\<rparr>;
       ops = [Packet [0x93] (replicate 64 0), Packet [0x81, 5] (replicate 64 0), Pass 2];
       s' = bulk_run sample_bulk_env True ops s; reqs = accepted sample_bulk_env True ops s;
       k = length reqs - length (di_rx_queue s')
   in di_rx_queue s' = drop k reqs \<and>
      writes (di_calls s') = fst (serve sample_bulk_env (take k reqs) (di_tx_buf s) (di_bulk s)) \<and>
      di_free s' + length (di_rx_queue s') = USB_BULK_PACKET_COUNT"
  unfolding Let_def
  by (rule bulk_replies_in_order [unfolded Let_def]) (simp_all add: packet_ok_def USB_BULK_PACKET_COUNT_def)

end
