(* ===== verification/If_Msos.thy ===== *)
theory If_Msos
  imports Bytes
begin

text \<open>
  \<open>ifmcu_firmware/src/modules/usb_bulk_msosv2.h\<close>: the Microsoft OS 2.0 descriptor set of
  the CMSIS-DAP interface, its platform capability and the vendor request that reads it.
  The layouts of the structs are Microsoft's; the kernel's headers declare them. A
  struct is its packed little-endian image. \<open>composite\<close> is the option
  \<open>CONFIG_USB_COMPOSITE_DEVICE\<close>, \<open>first\<close> the interface number set at run time.
\<close>

definition WINUSB_VENDOR_CODE :: u8 where "WINUSB_VENDOR_CODE = 0x20"
definition MS_OS_20_DESCRIPTOR_INDEX :: u16 where "MS_OS_20_DESCRIPTOR_INDEX = 0x07"
definition MS_OS_20_SET_HEADER_DESCRIPTOR :: u16 where "MS_OS_20_SET_HEADER_DESCRIPTOR = 0x00"
definition MS_OS_20_SUBSET_HEADER_FUNCTION :: u16 where "MS_OS_20_SUBSET_HEADER_FUNCTION = 0x02"
definition MS_OS_20_FEATURE_COMPATIBLE_ID :: u16 where "MS_OS_20_FEATURE_COMPATIBLE_ID = 0x03"
definition MS_OS_20_FEATURE_REG_PROPERTY :: u16 where "MS_OS_20_FEATURE_REG_PROPERTY = 0x04"
definition MS_OS_20_PROPERTY_DATA_REG_MULTI_SZ :: u16 where "MS_OS_20_PROPERTY_DATA_REG_MULTI_SZ = 0x07"

definition ascii :: "string \<Rightarrow> u8 list" where
  "ascii s = map of_char s"

definition utf16 :: "string \<Rightarrow> u8 list" where
  "utf16 s = concat (map (\<lambda>c. [of_char c, 0]) s)"

definition COMPATIBLE_ID_WINUSB :: "u8 list" where
  "COMPATIBLE_ID_WINUSB = ascii ''WINUSB'' @ [0, 0]"

definition CMSIS_DAP_V2_DEVICE_INTERFACE_GUID :: "u8 list" where
  "CMSIS_DAP_V2_DEVICE_INTERFACE_GUID = utf16 ''{CDB3B5AD-293B-4663-AA36-1AAE46463776}'' @ [0, 0, 0, 0]"

text \<open>The property's name in UTF-16 with its terminator.\<close>

definition DEVICE_INTERFACE_GUIDS_PROPERTY_NAME :: "u8 list" where
  "DEVICE_INTERFACE_GUIDS_PROPERTY_NAME = utf16 ''DeviceInterfaceGUIDs'' @ [0, 0]"

text \<open>The sizes of the four structs and of the whole.\<close>

definition SET_HEADER_SIZE :: nat where "SET_HEADER_SIZE = 2 + 2 + 4 + 2"
definition SUBSET_HEADER_SIZE :: nat where "SUBSET_HEADER_SIZE = 2 + 2 + 1 + 1 + 2"
definition COMPATIBLE_ID_SIZE :: nat where "COMPATIBLE_ID_SIZE = 2 + 2 + 8 + 8"
definition GUIDS_PROPERTY_SIZE :: nat where "GUIDS_PROPERTY_SIZE = 2 + 2 + 2 + 2 + 42 + 2 + 80"

definition msosv2_size :: "bool \<Rightarrow> nat" where
  "msosv2_size composite =
     SET_HEADER_SIZE + (if composite then SUBSET_HEADER_SIZE else 0) + COMPATIBLE_ID_SIZE + GUIDS_PROPERTY_SIZE"

definition msosv2_set_header :: "bool \<Rightarrow> u8 list" where
  "msosv2_set_header composite =
     le16 (of_nat SET_HEADER_SIZE) @ le16 MS_OS_20_SET_HEADER_DESCRIPTOR @ le32 0x06030000 @
     le16 (of_nat (msosv2_size composite))"

definition msosv2_subset_header :: "u8 \<Rightarrow> u8 list" where
  "msosv2_subset_header first =
     le16 (of_nat SUBSET_HEADER_SIZE) @ le16 MS_OS_20_SUBSET_HEADER_FUNCTION @ [first, 0] @
     le16 (of_nat (SUBSET_HEADER_SIZE + COMPATIBLE_ID_SIZE + GUIDS_PROPERTY_SIZE))"

definition msosv2_compatible_id :: "u8 list" where
  "msosv2_compatible_id =
     le16 (of_nat COMPATIBLE_ID_SIZE) @ le16 MS_OS_20_FEATURE_COMPATIBLE_ID @ COMPATIBLE_ID_WINUSB @ replicate 8 0"

definition msosv2_guids_property :: "u8 list" where
  "msosv2_guids_property =
     le16 (of_nat GUIDS_PROPERTY_SIZE) @ le16 MS_OS_20_FEATURE_REG_PROPERTY @
     le16 MS_OS_20_PROPERTY_DATA_REG_MULTI_SZ @ le16 42 @ DEVICE_INTERFACE_GUIDS_PROPERTY_NAME @
     le16 80 @ CMSIS_DAP_V2_DEVICE_INTERFACE_GUID"

definition msosv2_cmsis_dap_desc :: "bool \<Rightarrow> u8 \<Rightarrow> u8 list" where
  "msosv2_cmsis_dap_desc composite first =
     msosv2_set_header composite @ (if composite then msosv2_subset_header first else []) @
     msosv2_compatible_id @ msosv2_guids_property"

text \<open>The platform capability of the BOS descriptor.\<close>

definition bos_cap_msosv2 :: "bool \<Rightarrow> u8 list" where
  "bos_cap_msosv2 composite =
     [28, 0x10, 0x05, 0] @
     [0xDF, 0x60, 0xDD, 0xD8, 0x89, 0x45, 0xC7, 0x4C, 0x9C, 0xD2, 0x65, 0x9D, 0x9E, 0x64, 0x8A, 0x9F] @
     le32 0x06030000 @ le16 (of_nat (msosv2_size composite)) @ [WINUSB_VENDOR_CODE, 0x00]"

record usb_setup_packet =
  sp_to_device :: bool
  sp_bRequest :: u8
  sp_wIndex :: u16

definition msosv2_vendor_handle_req :: "bool \<Rightarrow> u8 \<Rightarrow> usb_setup_packet \<Rightarrow> int + u8 list" where
  [op_defs]: "msosv2_vendor_handle_req composite first setup =
     (if sp_to_device setup then Inl (- ENOTSUP)
      else if sp_bRequest setup = WINUSB_VENDOR_CODE \<and> sp_wIndex setup = MS_OS_20_DESCRIPTOR_INDEX
      then Inr (msosv2_cmsis_dap_desc composite first)
      else Inl (- ENOTSUP))"

section \<open>The host's reading\<close>

text \<open>
  A host walks the set by the length each descriptor begins with; the result are the
  types and the bodies.
\<close>

function msos_walk :: "u8 list \<Rightarrow> (u16 \<times> u8 list) list option" where
  "msos_walk bs =
     (if bs = [] then Some []
      else
        let n = unat (of_le (take 2 bs) :: u16)
        in if n < 4 \<or> length bs < n then None
           else map_option ((#) (of_le (take 2 (drop 2 bs)), drop 4 (take n bs))) (msos_walk (drop n bs)))"
  by pat_completeness auto

termination
  by (relation "measure length") auto

declare msos_walk.simps [simp del]

lemma utf16_append: "utf16 (a # s) = of_char a # 0 # utf16 s" "utf16 [] = []"
  by (simp_all add: utf16_def)

lemma length_utf16 [simp]: "length (utf16 s) = 2 * length s"
  by (induction s) (simp_all add: utf16_append)

lemma le16_not_nil [simp]: "le16 x \<noteq> []"
  by (metis length_le(1) list.size(3) zero_neq_numeral)

text \<open>One step of the walk, over a descriptor that states its own length.\<close>

lemma msos_walk_step:
  assumes "length body = n" "n + 4 < 2 ^ 16"
  shows "msos_walk (le16 (of_nat (n + 4)) @ le16 t @ body @ rest) = map_option ((#) (t, body)) (msos_walk rest)"
proof -
  have n: "unat (of_nat (n + 4) :: u16) = n + 4"
    using assms(2) by (simp add: unat_of_nat take_bit_nat_eq_self del: of_nat_add)
  show ?thesis
    by (subst msos_walk.simps) (simp add: n assms(1) Let_def del: of_nat_add)
qed

lemma msos_walk_nil: "msos_walk [] = Some []"
  by (simp add: msos_walk.simps)

text \<open>The four descriptors as a length, a type and a body.\<close>

lemma msosv2_parts:
  "msosv2_set_header composite =
     le16 (of_nat (6 + 4)) @ le16 MS_OS_20_SET_HEADER_DESCRIPTOR @ (le32 0x06030000 @ le16 (of_nat (msosv2_size composite)))"
  "msosv2_subset_header first = le16 (of_nat (4 + 4)) @ le16 MS_OS_20_SUBSET_HEADER_FUNCTION @ ([first, 0] @ le16 160)"
  "msosv2_compatible_id =
     le16 (of_nat (16 + 4)) @ le16 MS_OS_20_FEATURE_COMPATIBLE_ID @ (ascii ''WINUSB'' @ replicate 10 0)"
  "msosv2_guids_property =
     le16 (of_nat (128 + 4)) @ le16 MS_OS_20_FEATURE_REG_PROPERTY @
     (le16 MS_OS_20_PROPERTY_DATA_REG_MULTI_SZ @ le16 42 @ DEVICE_INTERFACE_GUIDS_PROPERTY_NAME @
      le16 80 @ CMSIS_DAP_V2_DEVICE_INTERFACE_GUID)"
  by (simp_all add: msosv2_set_header_def SET_HEADER_SIZE_def msosv2_subset_header_def SUBSET_HEADER_SIZE_def
      msosv2_compatible_id_def COMPATIBLE_ID_WINUSB_def COMPATIBLE_ID_SIZE_def
      msosv2_guids_property_def GUIDS_PROPERTY_SIZE_def eval_nat_numeral)

lemma msosv2_lengths [simp]:
  "length DEVICE_INTERFACE_GUIDS_PROPERTY_NAME = 42" "length CMSIS_DAP_V2_DEVICE_INTERFACE_GUID = 80"
  "length (ascii s) = length s"
  by (simp_all add: DEVICE_INTERFACE_GUIDS_PROPERTY_NAME_def CMSIS_DAP_V2_DEVICE_INTERFACE_GUID_def ascii_def)

text \<open>The steps of the walk over the set.\<close>

lemma msos_walk_property: "msos_walk msosv2_guids_property = Some [(MS_OS_20_FEATURE_REG_PROPERTY,
    le16 MS_OS_20_PROPERTY_DATA_REG_MULTI_SZ @ le16 42 @ DEVICE_INTERFACE_GUIDS_PROPERTY_NAME @
    le16 80 @ CMSIS_DAP_V2_DEVICE_INTERFACE_GUID)]"
  using msos_walk_step [of _ 128 MS_OS_20_FEATURE_REG_PROPERTY "[]"]
  by (simp add: msosv2_parts(4) msos_walk_nil)

lemma msos_walk_set: "msos_walk (msosv2_set_header composite @ rest) =
    map_option ((#) (MS_OS_20_SET_HEADER_DESCRIPTOR, le32 0x06030000 @ le16 (of_nat (msosv2_size composite)))) (msos_walk rest)"
  "msos_walk (msosv2_subset_header first @ rest) =
    map_option ((#) (MS_OS_20_SUBSET_HEADER_FUNCTION, [first, 0] @ le16 160)) (msos_walk rest)"
  "msos_walk (msosv2_compatible_id @ rest) =
    map_option ((#) (MS_OS_20_FEATURE_COMPATIBLE_ID, ascii ''WINUSB'' @ replicate 10 0)) (msos_walk rest)"
  using msos_walk_step [of "le32 0x06030000 @ le16 (of_nat (msosv2_size composite))" 6 MS_OS_20_SET_HEADER_DESCRIPTOR rest]
    msos_walk_step [of "[first, 0] @ le16 160" 4 MS_OS_20_SUBSET_HEADER_FUNCTION rest]
    msos_walk_step [of "ascii ''WINUSB'' @ replicate 10 0" 16 MS_OS_20_FEATURE_COMPATIBLE_ID rest]
  by (simp_all add: msosv2_parts)

text \<open>
  The descriptor set is well formed. Its size is the total that its header and the
  platform capability announce; walking it by the lengths stated in it meets exactly
  the header, in a composite device the function subset, the compatible id and the
  property, and ends at its end; the subset spans the rest of the set and its name and
  data have the 42 and 80 bytes announced.
\<close>

theorem msosv2_well_formed:
  "length (msosv2_cmsis_dap_desc composite first) = msosv2_size composite \<and>
   field (msosv2_cmsis_dap_desc composite first) 8 2 = (of_nat (msosv2_size composite) :: u16) \<and>
   field (bos_cap_msosv2 composite) 24 2 = (of_nat (msosv2_size composite) :: u16) \<and>
   length (bos_cap_msosv2 composite) = 28 \<and>
   msos_walk (msosv2_cmsis_dap_desc composite first) =
     Some ((MS_OS_20_SET_HEADER_DESCRIPTOR, le32 0x06030000 @ le16 (of_nat (msosv2_size composite))) #
       (if composite then [(MS_OS_20_SUBSET_HEADER_FUNCTION, [first, 0] @ le16 160)] else []) @
       [(MS_OS_20_FEATURE_COMPATIBLE_ID, ascii ''WINUSB'' @ replicate 10 0),
        (MS_OS_20_FEATURE_REG_PROPERTY,
         le16 MS_OS_20_PROPERTY_DATA_REG_MULTI_SZ @ le16 42 @ utf16 ''DeviceInterfaceGUIDs'' @ [0, 0] @
         le16 80 @ utf16 ''{CDB3B5AD-293B-4663-AA36-1AAE46463776}'' @ [0, 0, 0, 0])]) \<and>
   length (msosv2_cmsis_dap_desc True first) - SET_HEADER_SIZE = 160"
proof -
  have total: "msosv2_size composite = (if composite then 170 else 162)" for composite
    by (simp add: msosv2_size_def SET_HEADER_SIZE_def SUBSET_HEADER_SIZE_def COMPATIBLE_ID_SIZE_def GUIDS_PROPERTY_SIZE_def)
  have len: "length (msosv2_cmsis_dap_desc composite first) = msosv2_size composite" for composite
    by (simp add: msosv2_cmsis_dap_desc_def msosv2_parts total)
  have "msos_walk (msosv2_cmsis_dap_desc composite first) =
     Some ((MS_OS_20_SET_HEADER_DESCRIPTOR, le32 0x06030000 @ le16 (of_nat (msosv2_size composite))) #
       (if composite then [(MS_OS_20_SUBSET_HEADER_FUNCTION, [first, 0] @ le16 160)] else []) @
       [(MS_OS_20_FEATURE_COMPATIBLE_ID, ascii ''WINUSB'' @ replicate 10 0),
        (MS_OS_20_FEATURE_REG_PROPERTY,
         le16 MS_OS_20_PROPERTY_DATA_REG_MULTI_SZ @ le16 42 @ utf16 ''DeviceInterfaceGUIDs'' @ [0, 0] @
         le16 80 @ utf16 ''{CDB3B5AD-293B-4663-AA36-1AAE46463776}'' @ [0, 0, 0, 0])])"
    by (cases composite)
      (simp_all only: msosv2_cmsis_dap_desc_def msos_walk_set msos_walk_property if_True if_False append_Nil append_Cons option.map
        DEVICE_INTERFACE_GUIDS_PROPERTY_NAME_def CMSIS_DAP_V2_DEVICE_INTERFACE_GUID_def append_assoc)
  moreover have "field (msosv2_cmsis_dap_desc composite first) 8 2 = (of_nat (msosv2_size composite) :: u16)"
    by (simp add: msosv2_cmsis_dap_desc_def msosv2_parts)
  moreover have "field (bos_cap_msosv2 composite) 24 2 = (of_nat (msosv2_size composite) :: u16)"
    "length (bos_cap_msosv2 composite) = 28"
    by (simp_all add: bos_cap_msosv2_def)
  ultimately show ?thesis
    using len [of True] by (simp add: len total SET_HEADER_SIZE_def)
qed

end
