(* ===== verification/Async_Uart.thy ===== *)
theory Async_Uart
  imports Debug_Uart "HOL-Library.Sublist"
begin

text \<open>
  \<open>releases/20261014/single_channel/applications/rf_link_tx/src/debug_uart.c\<close>: the
  release's debug output. Text goes into a ring buffer; chunks of it are copied to a DMA
  buffer and sent in the background, the next one from the interrupt that ends the
  last. A section under the spin lock is one operation; \<open>uart_tx\<close> is called outside it.
  The ring buffer is a parameter with its documented behaviour.
\<close>

definition DEBUG_UART_FIFO_SIZE :: nat where "DEBUG_UART_FIFO_SIZE = 4096"
definition DEBUG_UART_DMA_CHUNK_SIZE :: nat where "DEBUG_UART_DMA_CHUNK_SIZE = 256"

record 'q fifo_ops =
  fifo_put :: "u8 list \<Rightarrow> 'q \<Rightarrow> nat \<times> 'q"
  fifo_get :: "nat \<Rightarrow> 'q \<Rightarrow> u8 list \<times> 'q"
  fifo_size :: "'q \<Rightarrow> nat"
  fifo_reset :: "'q \<Rightarrow> 'q"

definition fifo_spec :: "'q fifo_ops \<Rightarrow> ('q \<Rightarrow> u8 list) \<Rightarrow> nat \<Rightarrow> bool" where
  "fifo_spec fo contents cap \<longleftrightarrow>
     (\<forall>d q. let w = min (length d) (cap - length (contents q))
            in fst (fifo_put fo d q) = w \<and> contents (snd (fifo_put fo d q)) = contents q @ take w d) \<and>
     (\<forall>n q. fst (fifo_get fo n q) = take n (contents q) \<and> contents (snd (fifo_get fo n q)) = drop n (contents q)) \<and>
     (\<forall>q. fifo_size fo q = length (contents q)) \<and>
     (\<forall>q. contents (fifo_reset fo q) = [])"

definition list_fifo :: "nat \<Rightarrow> u8 list fifo_ops" where
  "list_fifo cap = \<lparr>
     fifo_put = (\<lambda>d q. let w = min (length d) (cap - length q) in (w, q @ take w d)),
     fifo_get = (\<lambda>n q. (take n q, drop n q)),
     fifo_size = length,
     fifo_reset = (\<lambda>_. [])\<rparr>"

lemma list_fifo_spec: "fifo_spec (list_fifo cap) (\<lambda>q. q) cap"
  by (simp add: fifo_spec_def list_fifo_def Let_def)

lemma fifo_ok:
  assumes "fifo_spec fo contents cap"
  shows "fifo_put fo d q = (w, q') \<Longrightarrow> contents q' = contents q @ take w d"
    and "fifo_get fo n q = (bs, q') \<Longrightarrow> bs = take n (contents q) \<and> contents q' = drop n (contents q)"
    and "fifo_size fo q = length (contents q)"
    and "contents (fifo_reset fo q) = []"
  using assms unfolding fifo_spec_def Let_def by (metis fst_conv snd_conv)+

section \<open>State and operations\<close>

record 'q async_uart =
  au_ready :: bool
  au_tx_active :: bool
  au_fifo :: 'q
  au_dma :: "u8 list"

text \<open>The critical section of \<open>debug_uart_kick\<close>: the chunk to send, if there is one.\<close>

definition kick_take :: "'q fifo_ops \<Rightarrow> 'q async_uart \<Rightarrow> u8 list option \<times> 'q async_uart" where
  [op_defs]: "kick_take fo u =
     (if \<not> au_ready u \<or> au_tx_active u \<or> fifo_size fo (au_fifo u) = 0 then (None, u)
      else
        let (chunk, q) = fifo_get fo DEBUG_UART_DMA_CHUNK_SIZE (au_fifo u);
            u1 = u\<lparr>au_fifo := q, au_dma := chunk @ drop (length chunk) (au_dma u)\<rparr>
        in if chunk = [] then (None, u1) else (Some chunk, u1\<lparr>au_tx_active := True\<rparr>))"

definition kick_failed :: "'q async_uart \<Rightarrow> 'q async_uart" where
  [op_defs]: "kick_failed u = u\<lparr>au_tx_active := False\<rparr>"

text \<open>\<open>tx_ret\<close> is what \<open>uart_tx\<close> returns. The result is the transfer the driver took.\<close>

definition debug_uart_kick :: "'q fifo_ops \<Rightarrow> int \<Rightarrow> 'q async_uart \<Rightarrow> u8 list option \<times> 'q async_uart" where
  [op_defs]: "debug_uart_kick fo tx_ret u =
     (case kick_take fo u of
        (None, u1) \<Rightarrow> (None, u1)
      | (Some chunk, u1) \<Rightarrow> if tx_ret \<noteq> 0 then (None, kick_failed u1) else (Some chunk, u1))"

datatype debug_uart_event = Debug_Tx_Done | Debug_Tx_Aborted | Debug_Other_Event

definition debug_uart_callback ::
  "'q fifo_ops \<Rightarrow> int \<Rightarrow> debug_uart_event option \<Rightarrow> 'q async_uart \<Rightarrow> u8 list option \<times> 'q async_uart" where
  [op_defs]: "debug_uart_callback fo tx_ret evt u =
     (case evt of
        None \<Rightarrow> (None, u)
      | Some e \<Rightarrow>
          if e \<noteq> Debug_Tx_Done \<and> e \<noteq> Debug_Tx_Aborted then (None, u)
          else debug_uart_kick fo tx_ret (u\<lparr>au_tx_active := False\<rparr>))"

definition debug_uart_enqueue ::
  "'q fifo_ops \<Rightarrow> int \<Rightarrow> u8 list option \<Rightarrow> 'q async_uart \<Rightarrow> u8 list option \<times> 'q async_uart" where
  [op_defs]: "debug_uart_enqueue fo tx_ret data u =
     (case data of
        None \<Rightarrow> (None, u)
      | Some d \<Rightarrow>
          if \<not> au_ready u \<or> d = [] then (None, u)
          else debug_uart_kick fo tx_ret (u\<lparr>au_fifo := snd (fifo_put fo d (au_fifo u))\<rparr>))"

definition async_uart_init :: "'q fifo_ops \<Rightarrow> bool \<Rightarrow> bool \<Rightarrow> int \<Rightarrow> 'q async_uart \<Rightarrow> bool \<times> 'q async_uart" where
  [op_defs]: "async_uart_init fo dev_exists dev_ready callback_ret u =
     (let u1 = u\<lparr>au_ready := dev_exists \<and> dev_ready\<rparr>
      in if \<not> au_ready u1 then (False, u1)
         else if callback_ret \<noteq> 0 then (False, u1\<lparr>au_ready := False\<rparr>)
         else (au_ready u1, u1\<lparr>au_fifo := fifo_reset fo (au_fifo u1), au_tx_active := False\<rparr>))"

definition async_uart_ready :: "'q async_uart \<Rightarrow> bool" where
  [op_defs]: "async_uart_ready u = au_ready u"

text \<open>The printing functions: the pieces of text they enqueue, in order.\<close>

definition async_putc :: "char \<Rightarrow> u8 list list" where
  "async_putc c = [[of_char c]]"

definition async_puts :: "string option \<Rightarrow> u8 list list" where
  "async_puts s = (case s of None \<Rightarrow> [] | Some cs \<Rightarrow> [map of_char (takeWhile (\<lambda>c. c \<noteq> CHR 0x00) cs)])"

definition async_u32 :: "u32 \<Rightarrow> u8 list list" where
  "async_u32 value =
     (let buf = (replicate 11 (CHR 0x00))[10 := CHR 0x00]; (pos, buf') = u32_digits value 10 buf
      in async_puts (Some (drop pos buf')))"

definition async_i32 :: "i32 \<Rightarrow> u8 list list" where
  "async_i32 value = (if sint value < 0 then async_putc (CHR ''-'') @ async_u32 (- value) else async_u32 value)"

definition async_crlf :: "u8 list list" where
  "async_crlf = async_puts (Some [CHR 0x0D, CHR 0x0A])"

text \<open>Enqueuing pieces one after the other; \<open>ret\<close> is the driver's answer at each.\<close>

fun async_print :: "'q fifo_ops \<Rightarrow> (nat \<Rightarrow> int) \<Rightarrow> u8 list list \<Rightarrow> 'q async_uart \<Rightarrow> 'q async_uart" where
  "async_print fo ret [] u = u"
| "async_print fo ret (d # ds) u =
     async_print fo ret ds (snd (debug_uart_enqueue fo (ret (length ds)) (Some d) u))"

section \<open>The thread and the interrupt\<close>

text \<open>
  The thread puts text, kicks, and hands the chunk to the driver; the interrupt at the
  end of a transfer may come between any two of these. \<open>as_flight\<close> is the transfer the
  driver has; it takes one at a time. History: the bytes that entered the ring, the
  bytes the driver reported sent, the number of refused and aborted transfers.
\<close>

datatype au_pc = Au_Idle | Au_Kick | Au_Tx "u8 list" | Au_Failed

record 'q au_sys =
  as_uart :: "'q async_uart"
  as_pc :: au_pc
  as_flight :: "u8 list option"
  as_accepted :: "u8 list"
  as_sent :: "u8 list"
  as_faults :: nat

text \<open>A refused transfer of the interrupt's own kick.\<close>

definition kick_fault :: "'q fifo_ops \<Rightarrow> int \<Rightarrow> 'q async_uart \<Rightarrow> nat" where
  "kick_fault fo ret u = (if fst (kick_take fo (u\<lparr>au_tx_active := False\<rparr>)) \<noteq> None \<and> ret \<noteq> 0 then 1 else 0)"

inductive au_step :: "'q fifo_ops \<Rightarrow> 'q au_sys \<Rightarrow> 'q au_sys \<Rightarrow> bool" for fo where
  enqueue: "as_pc s = Au_Idle \<Longrightarrow> au_ready (as_uart s) \<Longrightarrow> d \<noteq> [] \<Longrightarrow>
    fifo_put fo d (au_fifo (as_uart s)) = (w, q) \<Longrightarrow>
    au_step fo s (s\<lparr>as_uart := (as_uart s)\<lparr>au_fifo := q\<rparr>, as_pc := Au_Kick, as_accepted := as_accepted s @ take w d\<rparr>)"
| kick: "as_pc s = Au_Kick \<Longrightarrow> kick_take fo (as_uart s) = (r, u) \<Longrightarrow>
    au_step fo s (s\<lparr>as_uart := u, as_pc := (case r of None \<Rightarrow> Au_Idle | Some c \<Rightarrow> Au_Tx c)\<rparr>)"
| taken: "as_pc s = Au_Tx c \<Longrightarrow> as_flight s = None \<Longrightarrow>
    au_step fo s (s\<lparr>as_pc := Au_Idle, as_flight := Some c\<rparr>)"
| refused: "as_pc s = Au_Tx c \<Longrightarrow> au_step fo s (s\<lparr>as_pc := Au_Failed, as_faults := as_faults s + 1\<rparr>)"
| failed: "as_pc s = Au_Failed \<Longrightarrow> au_step fo s (s\<lparr>as_uart := kick_failed (as_uart s), as_pc := Au_Idle\<rparr>)"
| sent: "as_flight s = Some c \<Longrightarrow> debug_uart_callback fo ret (Some Debug_Tx_Done) (as_uart s) = (r, u) \<Longrightarrow>
    au_step fo s (s\<lparr>as_uart := u, as_flight := r, as_sent := as_sent s @ c,
      as_faults := as_faults s + kick_fault fo ret (as_uart s)\<rparr>)"
| aborted: "as_flight s = Some c \<Longrightarrow> k \<le> length c \<Longrightarrow>
    debug_uart_callback fo ret (Some Debug_Tx_Aborted) (as_uart s) = (r, u) \<Longrightarrow>
    au_step fo s (s\<lparr>as_uart := u, as_flight := r, as_sent := as_sent s @ take k c,
      as_faults := as_faults s + 1 + kick_fault fo ret (as_uart s)\<rparr>)"
| other_event: "debug_uart_callback fo ret (Some Debug_Other_Event) (as_uart s) = (r, u) \<Longrightarrow>
    au_step fo s (s\<lparr>as_uart := u\<rparr>)"

inductive au_reach :: "'q fifo_ops \<Rightarrow> 'q au_sys \<Rightarrow> 'q au_sys \<Rightarrow> bool" for fo where
  au_refl: "au_reach fo s s"
| au_next: "au_reach fo s t \<Longrightarrow> au_step fo t u \<Longrightarrow> au_reach fo s u"

lemma au_reach_ind:
  "au_reach fo s t \<Longrightarrow> P s \<Longrightarrow> (\<And>t u. au_reach fo s t \<Longrightarrow> P t \<Longrightarrow> au_step fo t u \<Longrightarrow> P u) \<Longrightarrow> P t"
  by (induct rule: au_reach.induct) blast+

interpretation async: reach_system "au_step fo" "au_reach fo" for fo
  by unfold_locales (rule au_refl, erule (1) au_next, erule (1) au_reach_ind)

definition au_boot :: "'q async_uart \<Rightarrow> 'q au_sys" where
  "au_boot u = \<lparr>as_uart = u, as_pc = Au_Idle, as_flight = None, as_accepted = [], as_sent = [], as_faults = 0\<rparr>"

section \<open>Invariant\<close>

lemma kick_take_ok:
  assumes "fifo_spec fo contents cap" "kick_take fo u = (r, u')"
  shows "r = (if au_ready u \<and> \<not> au_tx_active u \<and> contents (au_fifo u) \<noteq> []
              then Some (take DEBUG_UART_DMA_CHUNK_SIZE (contents (au_fifo u))) else None)"
    and "contents (au_fifo u) = (case r of None \<Rightarrow> [] | Some c \<Rightarrow> c) @ contents (au_fifo u')"
    and "au_tx_active u' \<longleftrightarrow> au_tx_active u \<or> r \<noteq> None"
    and "au_ready u' = au_ready u"
    and "r = Some c \<Longrightarrow> take (length c) (au_dma u') = c"
    and "r = None \<Longrightarrow> u' = u"
proof -
  obtain bs q where g: "fifo_get fo DEBUG_UART_DMA_CHUNK_SIZE (au_fifo u) = (bs, q)"
    by fastforce
  have b: "bs = take DEBUG_UART_DMA_CHUNK_SIZE (contents (au_fifo u))"
    "contents q = drop DEBUG_UART_DMA_CHUNK_SIZE (contents (au_fifo u))"
    using fifo_ok(2) [OF assms(1) g] by simp_all
  have e: "bs = [] \<longleftrightarrow> contents (au_fifo u) = []"
    by (simp add: b(1) DEBUG_UART_DMA_CHUNK_SIZE_def)
  have split: "contents (au_fifo u) = bs @ contents q"
    by (simp add: b)
  define go where "go \<longleftrightarrow> au_ready u \<and> \<not> au_tx_active u \<and> contents (au_fifo u) \<noteq> []"
  have k: "kick_take fo u = (if go then (Some bs, u\<lparr>au_fifo := q, au_dma := bs @ drop (length bs) (au_dma u),
      au_tx_active := True\<rparr>) else (None, u))"
    by (simp add: kick_take_def go_def fifo_ok(3) [OF assms(1)] g e)
  show "r = (if au_ready u \<and> \<not> au_tx_active u \<and> contents (au_fifo u) \<noteq> []
              then Some (take DEBUG_UART_DMA_CHUNK_SIZE (contents (au_fifo u))) else None)"
    using assms(2) by (simp add: k b(1) go_def split: if_splits)
  show "au_tx_active u' \<longleftrightarrow> au_tx_active u \<or> r \<noteq> None" "au_ready u' = au_ready u"
    "r = Some c \<Longrightarrow> take (length c) (au_dma u') = c" "r = None \<Longrightarrow> u' = u"
    using assms(2) by (auto simp: k split: if_splits)
  show "contents (au_fifo u) = (case r of None \<Rightarrow> [] | Some c \<Rightarrow> c) @ contents (au_fifo u')"
    using assms(2) split by (cases go) (auto simp: k)
qed

definition au_held :: "'q au_sys \<Rightarrow> u8 list" where
  "au_held s = (case as_pc s of Au_Tx c \<Rightarrow> c | _ \<Rightarrow> [])"

definition au_flying :: "'q au_sys \<Rightarrow> u8 list" where
  "au_flying s = (case as_flight s of None \<Rightarrow> [] | Some c \<Rightarrow> c)"

text \<open>The bytes of the ring's history that are not lost: sent, in flight, held by the thread, waiting.\<close>

definition au_kept :: "('q \<Rightarrow> u8 list) \<Rightarrow> 'q au_sys \<Rightarrow> u8 list" where
  "au_kept contents s = as_sent s @ au_flying s @ au_held s @ contents (au_fifo (as_uart s))"

text \<open>Who has the DMA buffer.\<close>

definition au_owner_ok :: "'q au_sys \<Rightarrow> bool" where
  "au_owner_ok s \<longleftrightarrow>
     (if au_tx_active (as_uart s)
      then as_flight s \<noteq> None \<and> as_pc s \<in> {Au_Idle, Au_Kick} \<or>
           as_flight s = None \<and> (as_pc s = Au_Failed \<or> (\<exists>c. as_pc s = Au_Tx c))
      else as_flight s = None \<and> as_pc s \<in> {Au_Idle, Au_Kick})"

definition au_chunk_ok :: "'q au_sys \<Rightarrow> u8 list \<Rightarrow> bool" where
  "au_chunk_ok s c \<longleftrightarrow> c \<noteq> [] \<and> length c \<le> DEBUG_UART_DMA_CHUNK_SIZE \<and> take (length c) (au_dma (as_uart s)) = c"

definition au_inv :: "('q \<Rightarrow> u8 list) \<Rightarrow> 'q au_sys \<Rightarrow> bool" where
  "au_inv contents s \<longleftrightarrow>
     au_ready (as_uart s) \<and> au_owner_ok s \<and>
     (\<forall>c. as_flight s = Some c \<or> as_pc s = Au_Tx c \<longrightarrow> au_chunk_ok s c) \<and>
     subseq (au_kept contents s) (as_accepted s) \<and>
     length (as_accepted s) \<le> length (au_kept contents s) + DEBUG_UART_DMA_CHUNK_SIZE * as_faults s \<and>
     (as_pc s = Au_Failed \<longrightarrow> as_faults s \<noteq> 0) \<and>
     (as_faults s = 0 \<and> as_pc s \<noteq> Au_Kick \<and> contents (au_fifo (as_uart s)) \<noteq> [] \<longrightarrow> au_tx_active (as_uart s))"

lemma au_boot_inv:
  assumes "au_ready u" "\<not> au_tx_active u" "contents (au_fifo u) = []"
  shows "au_inv contents (au_boot u)"
  using assms by (simp add: au_inv_def au_boot_def au_owner_ok_def au_kept_def au_flying_def au_held_def)

text \<open>Losing the end of a prefix of the kept bytes.\<close>

lemma subseq_cut: "subseq (xs @ c @ ys) zs \<Longrightarrow> subseq (xs @ take k c @ ys) zs"
  by (metis append_take_drop_id list_emb_append_mono list_emb_prefix subseq_order.order_refl subseq_order.order_trans append_assoc)

text \<open>The interrupt at the end of a transfer of which \<open>k\<close> bytes were sent.\<close>

lemma callback_inv:
  assumes spec: "fifo_spec fo contents cap" and inv: "au_inv contents s" and fl: "as_flight s = Some c"
    and ev: "e = Debug_Tx_Done \<or> e = Debug_Tx_Aborted"
    and cb: "debug_uart_callback fo ret (Some e) (as_uart s) = (r, u)"
    and k: "k = length c \<and> n = 0 \<or> n = 1"
  shows "au_inv contents (s\<lparr>as_uart := u, as_flight := r, as_sent := as_sent s @ take k c,
      as_faults := as_faults s + n + kick_fault fo ret (as_uart s)\<rparr>)"
proof -
  let ?u = "(as_uart s)\<lparr>au_tx_active := False\<rparr>"
  obtain r' u' where t: "kick_take fo ?u = (r', u')"
    by fastforce
  note kt = kick_take_ok [OF spec t]
  define taken where "taken = (case r' of None \<Rightarrow> [] | Some c \<Rightarrow> c)"
  have i: "au_ready (as_uart s)" "au_tx_active (as_uart s)" "as_pc s \<in> {Au_Idle, Au_Kick}" "au_chunk_ok s c"
    using inv fl by (auto simp: au_inv_def au_owner_ok_def split: if_splits)
  have ru: "r = (if ret = 0 then r' else None)" "u = (if r' \<noteq> None \<and> ret \<noteq> 0 then kick_failed u' else u')"
    using cb ev by (auto simp: debug_uart_callback_def debug_uart_kick_def t split: option.splits if_splits)
  have fault: "kick_fault fo ret (as_uart s) = (if r' \<noteq> None \<and> ret \<noteq> 0 then 1 else 0)"
    by (simp add: kick_fault_def t)
  let ?t = "s\<lparr>as_uart := u, as_flight := r, as_sent := as_sent s @ take k c,
      as_faults := as_faults s + n + kick_fault fo ret (as_uart s)\<rparr>"
  have fifo: "contents (au_fifo (as_uart s)) = taken @ contents (au_fifo u)" "au_fifo u = au_fifo u'"
    using kt(2) by (simp_all add: taken_def ru(2) kick_failed_def)
  have old: "au_kept contents s = as_sent s @ c @ taken @ contents (au_fifo u)"
    using i(3) fifo by (auto simp: au_kept_def au_flying_def au_held_def fl)
  have new: "au_kept contents ?t = as_sent s @ take k c @ (if r' \<noteq> None \<and> ret \<noteq> 0 then [] else taken) @ contents (au_fifo u)"
    using i(3) by (auto simp: au_kept_def au_flying_def au_held_def ru(1) taken_def split: option.split)
  have kept: "subseq (as_sent s @ c @ taken @ contents (au_fifo u)) (as_accepted s)"
    "length (as_accepted s) \<le>
       length (as_sent s @ c @ taken @ contents (au_fifo u)) + DEBUG_UART_DMA_CHUNK_SIZE * as_faults s"
    using inv unfolding au_inv_def old by blast+
  have cut: "subseq (as_sent s @ take k c @ taken @ contents (au_fifo u)) (as_accepted s)"
    by (rule subseq_cut) (rule kept(1))
  have sub: "subseq (au_kept contents ?t) (as_accepted s)"
    using cut subseq_cut [of "as_sent s @ take k c" taken "contents (au_fifo u)" "as_accepted s" 0]
    unfolding new by simp
  have "length c \<le> DEBUG_UART_DMA_CHUNK_SIZE" "length taken \<le> DEBUG_UART_DMA_CHUNK_SIZE"
    using i(4) kt(1) by (auto simp: au_chunk_ok_def taken_def)
  then have len: "length (as_accepted s) \<le> length (au_kept contents ?t) + DEBUG_UART_DMA_CHUNK_SIZE * as_faults ?t"
    using kept(2) k unfolding new by (auto simp: fault)
  have chunk: "au_chunk_ok ?t c'" if "r = Some c'" for c'
    using that kt(1) kt(5) [of c'] by (auto simp: au_chunk_ok_def ru DEBUG_UART_DMA_CHUNK_SIZE_def split: if_splits)
  have "au_owner_ok ?t"
    using i(3) kt(3) by (auto simp: au_owner_ok_def ru kick_failed_def)
  moreover have "as_faults ?t = 0 \<and> contents (au_fifo u) \<noteq> [] \<longrightarrow> au_tx_active u"
    using kt(1,6) kt(3) i(1) fault by (auto simp: ru split: if_splits)
  moreover have "au_ready u"
    using i(1) kt(4) by (simp add: ru kick_failed_def)
  ultimately show ?thesis
    using sub len chunk i(3) by (auto simp: au_inv_def)
qed

lemma subseq_extend: "subseq xs ys \<Longrightarrow> subseq (xs @ zs) (ys @ zs)"
  by (rule list_emb_append_mono) simp_all

lemma kept_enqueue:
  assumes "fifo_spec fo contents cap" "as_pc s = Au_Idle" "fifo_put fo d (au_fifo (as_uart s)) = (w, q)"
  shows "au_kept contents (s\<lparr>as_uart := (as_uart s)\<lparr>au_fifo := q\<rparr>, as_pc := Au_Kick, as_accepted := acc\<rparr>) =
    au_kept contents s @ take w d"
  using fifo_ok(1) [OF assms(1,3)] assms(2) by (simp add: au_kept_def au_flying_def au_held_def)

lemma au_step_inv:
  assumes spec: "fifo_spec fo contents cap" and inv: "au_inv contents s" and step: "au_step fo s t"
  shows "au_inv contents t"
  using step
proof cases
  case (enqueue d w q)
  then show ?thesis
    using inv kept_enqueue [OF spec enqueue(2,5)]
    by (auto simp: au_inv_def au_owner_ok_def au_chunk_ok_def subseq_extend)
next
  case (kick r u)
  note k = kick_take_ok [OF spec kick(3)]
  have ready: "au_ready (as_uart s)"
    using inv by (simp add: au_inv_def)
  show ?thesis
  proof (cases r)
    case None
    then have t: "t = s\<lparr>as_pc := Au_Idle\<rparr>" "contents (au_fifo (as_uart s)) = [] \<or> au_tx_active (as_uart s)"
      using kick(1) k(6) k(1) ready by (auto split: if_splits)
    have "au_kept contents t = au_kept contents s"
      using kick(2) by (simp add: t au_kept_def au_flying_def au_held_def)
    then show ?thesis
      using inv kick(2) t(2) by (auto simp: t(1) au_inv_def au_owner_ok_def au_chunk_ok_def)
  next
    case (Some c)
    have fl: "\<not> au_tx_active (as_uart s)" "as_flight s = None"
      using inv kick(2) k(1) Some by (auto simp: au_inv_def au_owner_ok_def split: if_splits)
    have c: "au_chunk_ok t c"
      using k(1) k(5) [OF Some] Some kick(1) by (auto simp: au_chunk_ok_def DEBUG_UART_DMA_CHUNK_SIZE_def split: if_splits)
    have "au_kept contents t = au_kept contents s"
      using kick(1,2) k(2) Some fl by (simp add: au_kept_def au_flying_def au_held_def)
    then show ?thesis
      using inv kick(1,2) k(3,4) fl c Some by (auto simp: au_inv_def au_owner_ok_def)
  qed
next
  case (taken c)
  then show ?thesis
    using inv by (auto simp: au_inv_def au_owner_ok_def au_kept_def au_flying_def au_held_def au_chunk_ok_def)
next
  case (refused c)
  then show ?thesis
    using inv subseq_cut [of "as_sent s" c "contents (au_fifo (as_uart s))" "as_accepted s" 0]
    by (auto simp: au_inv_def au_owner_ok_def au_kept_def au_flying_def au_held_def au_chunk_ok_def)
next
  case failed
  then show ?thesis
    using inv by (auto simp: au_inv_def au_owner_ok_def au_kept_def au_flying_def au_held_def au_chunk_ok_def kick_failed_def
        split: if_splits)
next
  case (sent c ret r u)
  then show ?thesis
    using callback_inv [OF spec inv sent(2) _ sent(3), where k = "length c" and n = 0] by simp
next
  case (aborted c k ret r u)
  then show ?thesis
    using callback_inv [OF spec inv aborted(2) _ aborted(4), where k = k and n = 1] by simp
next
  case (other_event ret r u)
  then show ?thesis
    using inv by (auto simp: debug_uart_callback_def)
qed

section \<open>Theorems\<close>

text \<open>
  C10. The output is the text, in order. Whatever the interleaving of thread and interrupt,
  the bytes sent, in flight, held and waiting are a subsequence of those put into the
  ring, and at most 256 are missing for every transfer the driver refused or aborted;
  the DMA buffer holds the chunk in flight until it has ended; and without such a
  fault nothing is left waiting when the thread is idle and no transfer runs.
\<close>

theorem async_uart_ordered:
  assumes "fifo_spec fo contents cap" "au_ready u" "\<not> au_tx_active u" "contents (au_fifo u) = []"
    and "au_reach fo (au_boot u) s"
  shows "subseq (au_kept contents s) (as_accepted s) \<and>
    length (as_accepted s) \<le> length (au_kept contents s) + 256 * as_faults s \<and>
    (\<forall>c. as_flight s = Some c \<longrightarrow> take (length c) (au_dma (as_uart s)) = c) \<and>
    (as_faults s = 0 \<longrightarrow> au_kept contents s = as_accepted s) \<and>
    (as_faults s = 0 \<and> as_pc s = Au_Idle \<and> as_flight s = None \<longrightarrow> as_sent s = as_accepted s)"
proof -
  have "au_inv contents (au_boot u)"
    using assms(2-4) by (simp add: au_boot_inv)
  then have inv: "au_inv contents s"
    by (rule async.invariant [where Inv = "au_inv contents", OF assms(5)])
      (erule (1) au_step_inv [OF assms(1)])
  have sub: "subseq (au_kept contents s) (as_accepted s)"
    "length (as_accepted s) \<le> length (au_kept contents s) + 256 * as_faults s"
    using inv by (simp_all add: au_inv_def DEBUG_UART_DMA_CHUNK_SIZE_def)
  have exact: "au_kept contents s = as_accepted s" if "as_faults s = 0"
    using that sub list_emb_length [OF sub(1)] by (intro subseq_same_length) auto
  have "as_sent s = au_kept contents s" if "as_faults s = 0" "as_pc s = Au_Idle" "as_flight s = None"
    using inv that by (auto simp: au_inv_def au_owner_ok_def au_kept_def au_flying_def au_held_def split: if_splits)
  then show ?thesis
    using inv sub exact by (auto simp: au_inv_def au_chunk_ok_def)
qed

text \<open>A printing call is a run of the system: it puts its text, kicks and hands over the chunk.\<close>

lemma enqueue_reach:
  assumes "as_pc s = Au_Idle" "as_flight s = None \<or> au_tx_active (as_uart s)" "au_ready (as_uart s)" "d \<noteq> []"
    and "debug_uart_enqueue fo ret (Some d) (as_uart s) = (r, u)"
  shows "\<exists>t. au_reach fo s t \<and> as_uart t = u \<and> as_pc t = Au_Idle \<and>
    as_flight t = (case r of None \<Rightarrow> as_flight s | Some c \<Rightarrow> Some c)"
proof -
  obtain w q where p: "fifo_put fo d (au_fifo (as_uart s)) = (w, q)"
    by fastforce
  let ?u1 = "(as_uart s)\<lparr>au_fifo := q\<rparr>"
  let ?s1 = "s\<lparr>as_uart := ?u1, as_pc := Au_Kick, as_accepted := as_accepted s @ take w d\<rparr>"
  obtain r2 u2 where k: "kick_take fo ?u1 = (r2, u2)"
    by fastforce
  let ?s2 = "?s1\<lparr>as_uart := u2, as_pc := (case r2 of None \<Rightarrow> Au_Idle | Some c \<Rightarrow> Au_Tx c)\<rparr>"
  have s2: "au_reach fo s ?s2"
    using au_step.enqueue [OF assms(1,3,4) p] au_step.kick [of ?s1 fo r2 u2] k
    by (auto intro: async.trans [OF async.one async.one])
  have call: "debug_uart_kick fo ret ?u1 = (r, u)"
    using assms(3-5) p by (simp add: debug_uart_enqueue_def)
  show ?thesis
  proof (cases r2)
    case None
    then show ?thesis
      using s2 call k by (intro exI [of _ ?s2]) (simp add: debug_uart_kick_def)
  next
    case (Some c)
    have fl: "as_flight s = None"
      using assms(2) k Some by (auto simp: kick_take_def split: if_splits)
    show ?thesis
    proof (cases "ret = 0")
      case True
      then show ?thesis
        using au_reach.au_next [OF s2 au_step.taken [of ?s2 c]] call k Some fl
        by (intro exI [of _ "?s2\<lparr>as_pc := Au_Idle, as_flight := Some c\<rparr>"]) (auto simp: debug_uart_kick_def)
    next
      case False
      let ?s3 = "?s2\<lparr>as_pc := Au_Failed, as_faults := as_faults ?s2 + 1\<rparr>"
      have "au_reach fo s ?s3"
        using au_reach.au_next [OF s2 au_step.refused [of ?s2 c]] Some by simp
      from au_reach.au_next [OF this au_step.failed] False call k Some fl show ?thesis
        by (intro exI [of _ "?s3\<lparr>as_uart := kick_failed (as_uart ?s3), as_pc := Au_Idle\<rparr>"])
          (simp add: debug_uart_kick_def)
    qed
  qed
qed

text \<open>The number that \<open>debug_uart_u32\<close> prints is the decimal one.\<close>

lemma async_u32_decimal: "async_u32 v = [map of_char (decimal (unat v))]"
proof -
  have l: "length (decimal (unat v)) \<le> 10"
    using length_decimal [of "unat v" 9] unsigned_less [of v, where 'a = nat] by simp
  have "CHR 0x00 \<notin> set (decimal (unat v))"
    by (rule decimal_no_nul)
  then have "takeWhile (\<lambda>c. c \<noteq> CHR 0x00) (decimal (unat v) @ CHR 0x00 # xs) = decimal (unat v)" for xs
    by (subst takeWhile_append2) (auto intro: ccontr)
  then show ?thesis
    using l by (simp add: async_u32_def async_puts_def u32_digits_decimal eval_nat_numeral)
qed

definition sample_async :: "u8 list async_uart" where
  "sample_async = \<lparr>au_ready = True, au_tx_active = False, au_fifo = [], au_dma = replicate 256 0\<rparr>"

lemma async_uart_ordered_witness:
  "\<exists>s. as_flight s = Some [65, 66] \<and> subseq (au_kept (\<lambda>q. q) s) (as_accepted s) \<and>
    length (as_accepted s) \<le> length (au_kept (\<lambda>q. q) s) + 256 * as_faults s \<and>
    (\<forall>c. as_flight s = Some c \<longrightarrow> take (length c) (au_dma (as_uart s)) = c) \<and>
    (as_faults s = 0 \<longrightarrow> au_kept (\<lambda>q. q) s = as_accepted s) \<and>
    (as_faults s = 0 \<and> as_pc s = Au_Idle \<and> as_flight s = None \<longrightarrow> as_sent s = as_accepted s)"
proof -
  have e: "debug_uart_enqueue (list_fifo 4096) 0 (Some [65, 66]) sample_async =
      (Some [65, 66], sample_async\<lparr>au_dma := [65, 66] @ replicate 254 0, au_tx_active := True\<rparr>)"
    by code_simp
  obtain t where t: "au_reach (list_fifo 4096) (au_boot sample_async) t" "as_flight t = Some [65, 66]"
    using enqueue_reach [of "au_boot sample_async" "[65, 66]" "list_fifo 4096" 0] e
    by (auto simp: au_boot_def sample_async_def)
  have "subseq (au_kept (\<lambda>q. q) t) (as_accepted t) \<and>
    length (as_accepted t) \<le> length (au_kept (\<lambda>q. q) t) + 256 * as_faults t \<and>
    (\<forall>c. as_flight t = Some c \<longrightarrow> take (length c) (au_dma (as_uart t)) = c) \<and>
    (as_faults t = 0 \<longrightarrow> au_kept (\<lambda>q. q) t = as_accepted t) \<and>
    (as_faults t = 0 \<and> as_pc t = Au_Idle \<and> as_flight t = None \<longrightarrow> as_sent t = as_accepted t)"
    by (rule async_uart_ordered [where fo = "list_fifo 4096" and cap = 4096 and u = sample_async];
        (rule list_fifo_spec | rule t(1) | simp add: sample_async_def))
  with t(2) show ?thesis by (intro exI [of _ t] conjI) blast+
qed

end
