(* ===== verification/Hids_Pairing.thy ===== *)
theory Hids_Pairing
  imports Kernel
begin

text \<open>
  What the two Bluetooth HID samples share, in the text of
  \<open>samples/bluetooth/peripheral_hids_keyboard/src/main.c\<close>; the functions of
  \<open>peripheral_hids_mouse\<close> with the same names are the same text. The table of connected
  clients, and the queue of numeric comparisons: a pairing request puts a connection and
  its passkey in the queue and takes a reference, a work item shows the passkey at the
  front, a button press confirms it.

  A connection object is a number; the queue is the kernel's, a parameter
  (\<open>msgq_spec\<close>); what \<open>k_msgq_peek\<close> yields is what \<open>k_msgq_get\<close> would. The calls of the
  Bluetooth stack and of the LED driver are kept in order. The address of a
  connection, in printed text, is left out.
\<close>

definition HIDS_MAX_CLIENT_COUNT :: nat where "HIDS_MAX_CLIENT_COUNT = 2"

type_synonym bt_conn = nat

record conn_mode =
  cm_conn :: "bt_conn option"
  cm_in_boot_mode :: bool

record pairing_data_mitm =
  pd_conn :: bt_conn
  pd_passkey :: u32

datatype hids_call =
  Conn_Ref bt_conn | Conn_Unref bt_conn | Auth_Confirm bt_conn | Auth_Cancel bt_conn | Pairing_Submit
| Show_Passkey bt_conn u32 | Led_On | Led_Off | Led_Set nat | Adv_Start "nat option" | Adv_Stop | Adv_Submit
| Boot_Report bt_conn "u8 list" | Input_Report bt_conn nat "u8 list" | Boot_Mouse bt_conn int int
| Queue_Full | Work_Submit

record 'q hids =
  hd_conn_mode :: "conn_mode list"
  hd_mitm :: 'q
  hd_calls :: "hids_call list"

definition hids_called :: "hids_call list \<Rightarrow> ('q, 'z) hids_scheme \<Rightarrow> ('q, 'z) hids_scheme" where
  "hids_called cs h = h\<lparr>hd_calls := hd_calls h @ cs\<rparr>"

definition hids_conns_reset :: "conn_mode list" where
  "hids_conns_reset = replicate HIDS_MAX_CLIENT_COUNT \<lparr>cm_conn = None, cm_in_boot_mode = False\<rparr>"

section \<open>The table of clients\<close>

text \<open>The loop of \<open>connected\<close>: the first free entry takes the connection.\<close>

fun table_insert :: "bt_conn \<Rightarrow> conn_mode list \<Rightarrow> conn_mode list" where
  "table_insert c [] = []"
| "table_insert c (m # ms) =
     (if cm_conn m = None then m\<lparr>cm_conn := Some c, cm_in_boot_mode := False\<rparr> # ms else m # table_insert c ms)"

definition table_clear :: "bt_conn \<Rightarrow> conn_mode list \<Rightarrow> conn_mode list" where
  "table_clear c ms = map (\<lambda>m. if cm_conn m = Some c then m\<lparr>cm_conn := None\<rparr> else m) ms"

datatype bt_hids_pm_evt = Boot_Mode_Entered | Report_Mode_Entered | Other_Pm_Event

fun table_mode :: "bt_hids_pm_evt \<Rightarrow> bt_conn \<Rightarrow> conn_mode list \<Rightarrow> conn_mode list" where
  "table_mode evt c [] = []"
| "table_mode evt c (m # ms) =
     (if cm_conn m = Some c then
        (case evt of Boot_Mode_Entered \<Rightarrow> m\<lparr>cm_in_boot_mode := True\<rparr>
                   | Report_Mode_Entered \<Rightarrow> m\<lparr>cm_in_boot_mode := False\<rparr> | Other_Pm_Event \<Rightarrow> m) # ms
      else m # table_mode evt c ms)"

definition hids_pm_evt_handler :: "bt_hids_pm_evt \<Rightarrow> bt_conn \<Rightarrow> ('q, 'z) hids_scheme \<Rightarrow> ('q, 'z) hids_scheme" where
  [op_defs]: "hids_pm_evt_handler evt c h = h\<lparr>hd_conn_mode := table_mode evt c (hd_conn_mode h)\<rparr>"

section \<open>Numeric comparison\<close>

definition mitm_peek :: "(pairing_data_mitm, 'q) msgq_ops \<Rightarrow> 'q \<Rightarrow> int + pairing_data_mitm" where
  "mitm_peek mq q = fst (msgq_get mq q)"

definition pairing_process :: "(pairing_data_mitm, 'q) msgq_ops \<Rightarrow> ('q, 'z) hids_scheme \<Rightarrow> ('q, 'z) hids_scheme" where
  [op_defs]: "pairing_process mq h =
     (case mitm_peek mq (hd_mitm h) of
        Inl err \<Rightarrow> h
      | Inr d \<Rightarrow> hids_called [Show_Passkey (pd_conn d) (pd_passkey d)] h)"

definition auth_passkey_confirm ::
  "(pairing_data_mitm, 'q) msgq_ops \<Rightarrow> bt_conn \<Rightarrow> u32 \<Rightarrow> ('q, 'z) hids_scheme \<Rightarrow> ('q, 'z) hids_scheme" where
  [op_defs]: "auth_passkey_confirm mq c passkey h =
     (let h1 = hids_called [Conn_Ref c] h;
          (err, q) = msgq_put mq \<lparr>pd_conn = c, pd_passkey = passkey\<rparr> (hd_mitm h1);
          h2 = (if err \<noteq> 0 then hids_called [Queue_Full] (h1\<lparr>hd_mitm := q\<rparr>) else h1\<lparr>hd_mitm := q\<rparr>)
      in if msgq_used mq q = 1 then hids_called [Pairing_Submit] h2 else h2)"

definition pairing_failed ::
  "(pairing_data_mitm, 'q) msgq_ops \<Rightarrow> bt_conn \<Rightarrow> ('q, 'z) hids_scheme \<Rightarrow> ('q, 'z) hids_scheme" where
  [op_defs]: "pairing_failed mq c h =
     (case mitm_peek mq (hd_mitm h) of
        Inl err \<Rightarrow> h
      | Inr d \<Rightarrow>
          if pd_conn d = c
          then hids_called [Conn_Unref c] (h\<lparr>hd_mitm := snd (msgq_get mq (hd_mitm h))\<rparr>)
          else h)"

definition num_comp_reply ::
  "(pairing_data_mitm, 'q) msgq_ops \<Rightarrow> bool \<Rightarrow> ('q, 'z) hids_scheme \<Rightarrow> ('q, 'z) hids_scheme" where
  [op_defs]: "num_comp_reply mq accept h =
     (case msgq_get mq (hd_mitm h) of
        (Inl err, q) \<Rightarrow> h\<lparr>hd_mitm := q\<rparr>
      | (Inr d, q) \<Rightarrow>
          let h1 = hids_called [if accept then Auth_Confirm (pd_conn d) else Auth_Cancel (pd_conn d),
                                Conn_Unref (pd_conn d)] (h\<lparr>hd_mitm := q\<rparr>)
          in if msgq_used mq q \<noteq> 0 then hids_called [Pairing_Submit] h1 else h1)"

text \<open>The battery level: from 100 down to 1, and again.\<close>

definition bas_notify :: "u8 \<Rightarrow> u8" where
  [op_defs]: "bas_notify battery_level =
     (let level = battery_level - 1 in if level = 0 then 100 else level)"

section \<open>References\<close>

text \<open>A history of pairing events.\<close>

datatype pairing_op =
  Request bt_conn u32 | Failed bt_conn | Reply bool | Show

fun pairing_exec ::
  "(pairing_data_mitm, 'q) msgq_ops \<Rightarrow> pairing_op \<Rightarrow> ('q, 'z) hids_scheme \<Rightarrow> ('q, 'z) hids_scheme" where
  "pairing_exec mq (Request c k) h = auth_passkey_confirm mq c k h"
| "pairing_exec mq (Failed c) h = pairing_failed mq c h"
| "pairing_exec mq (Reply accept) h = num_comp_reply mq accept h"
| "pairing_exec mq Show h = pairing_process mq h"

definition pairing_run ::
  "(pairing_data_mitm, 'q) msgq_ops \<Rightarrow> pairing_op list \<Rightarrow> ('q, 'z) hids_scheme \<Rightarrow> ('q, 'z) hids_scheme" where
  "pairing_run mq ops h = fold (pairing_exec mq) ops h"

definition refs_held :: "bt_conn \<Rightarrow> hids_call list \<Rightarrow> int" where
  "refs_held c cs = int (count_list cs (Conn_Ref c)) - int (count_list cs (Conn_Unref c))"

definition queued :: "bt_conn \<Rightarrow> pairing_data_mitm list \<Rightarrow> int" where
  "queued c ds = int (length (filter (\<lambda>d. pd_conn d = c) ds))"

lemma hids_called_simps [simp]:
  "hd_calls (hids_called cs h) = hd_calls h @ cs" "hd_mitm (hids_called cs h) = hd_mitm h"
  "hd_conn_mode (hids_called cs h) = hd_conn_mode h"
  by (simp_all add: hids_called_def)

text \<open>
  What an operation adds to the references of a connection beyond the entries it adds to
  the queue: a request that found the queue full keeps the reference it took.
\<close>

definition lost_ref :: "('q \<Rightarrow> pairing_data_mitm list) \<Rightarrow> bt_conn \<Rightarrow> pairing_op \<Rightarrow> 'q \<Rightarrow> int" where
  "lost_ref contents c op q =
     (case op of Request c' k \<Rightarrow> (if c' = c \<and> length (contents q) \<ge> HIDS_MAX_CLIENT_COUNT then 1 else 0) | _ \<Rightarrow> 0)"

fun lost_refs ::
  "(pairing_data_mitm, 'q) msgq_ops \<Rightarrow> ('q \<Rightarrow> pairing_data_mitm list) \<Rightarrow> bt_conn \<Rightarrow> pairing_op list \<Rightarrow>
   ('q, 'z) hids_scheme \<Rightarrow> int" where
  "lost_refs mq contents c [] h = 0"
| "lost_refs mq contents c (op # ops) h =
     lost_ref contents c op (hd_mitm h) + lost_refs mq contents c ops (pairing_exec mq op h)"

lemma count_list_append: "count_list (xs @ ys) x = count_list xs x + count_list ys x"
  by (induction xs) simp_all

lemma refs_append: "refs_held c (as @ bs) = refs_held c as + refs_held c bs"
  by (simp add: refs_held_def count_list_append)

lemma mitm_get_cases:
  assumes "msgq_spec mq contents depth"
  obtains (empty) e q' where "msgq_get mq q = (Inl e, q')" "contents q = []" "contents q' = []"
  | (front) d q' where "msgq_get mq q = (Inr d, q')" "contents q = d # contents q'"
proof (cases "msgq_get mq q")
  case (Pair r q')
  note get = msgq_get_ok [OF assms Pair]
  show ?thesis
  proof (cases r)
    case (Inl e)
    then have "\<And>d ms. contents q \<noteq> d # ms"
      using get(1) by auto
    then have "contents q = []"
      by (cases "contents q") auto
    then show ?thesis
      using empty Pair Inl get(2) by simp
  next
    case (Inr d)
    then show ?thesis
      using front Pair get by (metis list.sel(3))
  qed
qed

lemma pairing_exec_refs:
  assumes "msgq_spec mq contents HIDS_MAX_CLIENT_COUNT"
  shows "refs_held c (hd_calls (pairing_exec mq op h)) - queued c (contents (hd_mitm (pairing_exec mq op h))) =
    refs_held c (hd_calls h) - queued c (contents (hd_mitm h)) + lost_ref contents c op (hd_mitm h)"
proof (cases op)
  case (Request c' k)
  obtain r q where p: "msgq_put mq \<lparr>pd_conn = c', pd_passkey = k\<rparr> (hd_mitm h) = (r, q)"
    by fastforce
  show ?thesis
    using msgq_put_ok [OF assms p] p
    by (auto simp: Request auth_passkey_confirm_def lost_ref_def refs_append refs_held_def queued_def Let_def)
next
  case (Failed c')
  show ?thesis
    by (rule mitm_get_cases [OF assms, of "hd_mitm h"])
      (auto simp: Failed pairing_failed_def mitm_peek_def lost_ref_def refs_append refs_held_def queued_def)
next
  case (Reply accept)
  show ?thesis
    by (rule mitm_get_cases [OF assms, of "hd_mitm h"])
      (auto simp: Reply num_comp_reply_def lost_ref_def refs_append refs_held_def queued_def Let_def)
next
  case Show
  show ?thesis
    by (rule mitm_get_cases [OF assms, of "hd_mitm h"])
      (auto simp: Show pairing_process_def mitm_peek_def lost_ref_def refs_append refs_held_def queued_def)
qed

text \<open>
  C28. References are exact: after any history of pairing events the references held on a
  connection are its entries in the queue plus one for each of its requests that found
  the queue full. The latter are never given back.
\<close>

theorem pairing_refs_exact:
  assumes "msgq_spec mq contents HIDS_MAX_CLIENT_COUNT" "contents (hd_mitm h) = []" "hd_calls h = []"
  shows "refs_held c (hd_calls (pairing_run mq ops h)) =
    queued c (contents (hd_mitm (pairing_run mq ops h))) + lost_refs mq contents c ops h"
proof -
  have "refs_held c (hd_calls (pairing_run mq ops h')) - queued c (contents (hd_mitm (pairing_run mq ops h'))) =
      refs_held c (hd_calls h') - queued c (contents (hd_mitm h')) + lost_refs mq contents c ops h'" for h'
    by (induction ops arbitrary: h')
      (simp_all add: pairing_run_def pairing_exec_refs [OF assms(1)] del: pairing_exec.simps)
  from this [of h] show ?thesis
    by (simp add: assms(2,3) refs_held_def queued_def)
qed

text \<open>The operations on a queue of known contents.\<close>

lemma request_effect:
  assumes "msgq_spec mq contents HIDS_MAX_CLIENT_COUNT" "length (contents (hd_mitm h)) < HIDS_MAX_CLIENT_COUNT"
  obtains q where "auth_passkey_confirm mq c k h =
      hids_called (Conn_Ref c # (if contents (hd_mitm h) = [] then [Pairing_Submit] else [])) (h\<lparr>hd_mitm := q\<rparr>)"
    "contents q = contents (hd_mitm h) @ [\<lparr>pd_conn = c, pd_passkey = k\<rparr>]"
proof -
  obtain r q where p: "msgq_put mq \<lparr>pd_conn = c, pd_passkey = k\<rparr> (hd_mitm h) = (r, q)"
    by fastforce
  note put = msgq_put_ok [OF assms(1) p]
  have q: "contents q = contents (hd_mitm h) @ [\<lparr>pd_conn = c, pd_passkey = k\<rparr>]"
    using put assms(2) by simp
  moreover have "auth_passkey_confirm mq c k h =
      hids_called (Conn_Ref c # (if contents (hd_mitm h) = [] then [Pairing_Submit] else [])) (h\<lparr>hd_mitm := q\<rparr>)"
    using put(1) assms(2) p q
    by (simp add: auth_passkey_confirm_def msgq_used_ok [OF assms(1)] hids_called_def Let_def)
  ultimately show ?thesis by (rule that [rotated])
qed

lemma show_effect:
  assumes "msgq_spec mq contents depth" "contents (hd_mitm h) = d # ds"
  shows "pairing_process mq h = hids_called [Show_Passkey (pd_conn d) (pd_passkey d)] h"
  by (rule mitm_get_cases [OF assms(1), of "hd_mitm h"])
    (use assms(2) in \<open>simp_all add: pairing_process_def mitm_peek_def\<close>)

lemma failed_effect:
  assumes "msgq_spec mq contents depth" "contents (hd_mitm h) = d # ds"
  obtains q where "pairing_failed mq (pd_conn d) h = hids_called [Conn_Unref (pd_conn d)] (h\<lparr>hd_mitm := q\<rparr>)" "contents q = ds"
  by (rule mitm_get_cases [OF assms(1), of "hd_mitm h"])
    (use assms(2) that in \<open>simp_all add: pairing_failed_def mitm_peek_def\<close>)

lemma reply_effect:
  assumes "msgq_spec mq contents depth" "contents (hd_mitm h) = d # ds"
  obtains q where "num_comp_reply mq accept h =
      hids_called ((if accept then Auth_Confirm (pd_conn d) else Auth_Cancel (pd_conn d)) # Conn_Unref (pd_conn d) #
        (if ds = [] then [] else [Pairing_Submit])) (h\<lparr>hd_mitm := q\<rparr>)"
    "contents q = ds"
proof (rule mitm_get_cases [OF assms(1), of "hd_mitm h"])
  fix d' q' assume g: "msgq_get mq (hd_mitm h) = (Inr d', q')" "contents (hd_mitm h) = d' # contents q'"
  show thesis
    by (rule that [of q'])
      (use g assms(2) in \<open>auto simp: num_comp_reply_def msgq_used_ok [OF assms(1)] hids_called_def Let_def\<close>)
qed (use assms(2) in simp)

text \<open>
  A passkey that was never shown can be confirmed. With two requests waiting, the first
  one shown, and the first pairing failing, the failure does not show the second; the
  button press meant for the first confirms the second.
\<close>

theorem pairing_blind_confirm:
  assumes "msgq_spec mq contents HIDS_MAX_CLIENT_COUNT" "contents (hd_mitm h) = []"
  shows "hd_calls (pairing_run mq [Request a k, Show, Request b l, Failed a, Reply True] h) =
    hd_calls h @ [Conn_Ref a, Pairing_Submit, Show_Passkey a k, Conn_Ref b, Conn_Unref a, Auth_Confirm b, Conn_Unref b]"
proof -
  note spec = assms(1)
  obtain q1 where 1: "auth_passkey_confirm mq a k h = hids_called [Conn_Ref a, Pairing_Submit] (h\<lparr>hd_mitm := q1\<rparr>)"
    "contents q1 = [\<lparr>pd_conn = a, pd_passkey = k\<rparr>]"
    using request_effect [OF spec, of h a k] assms(2) by (auto simp: HIDS_MAX_CLIENT_COUNT_def)
  define h1 where "h1 = pairing_process mq (auth_passkey_confirm mq a k h)"
  have h1: "hd_calls h1 = hd_calls h @ [Conn_Ref a, Pairing_Submit, Show_Passkey a k]" "hd_mitm h1 = q1"
    using show_effect [OF spec, of "auth_passkey_confirm mq a k h"] 1 by (simp_all add: h1_def)
  obtain q2 where 2: "auth_passkey_confirm mq b l h1 = hids_called [Conn_Ref b] (h1\<lparr>hd_mitm := q2\<rparr>)"
    "contents q2 = [\<lparr>pd_conn = a, pd_passkey = k\<rparr>, \<lparr>pd_conn = b, pd_passkey = l\<rparr>]"
    using request_effect [OF spec, of h1 b l] h1(2) 1(2) by (auto simp: HIDS_MAX_CLIENT_COUNT_def)
  define h2 where "h2 = auth_passkey_confirm mq b l h1"
  obtain q3 where 3: "pairing_failed mq a h2 = hids_called [Conn_Unref a] (h2\<lparr>hd_mitm := q3\<rparr>)"
    "contents q3 = [\<lparr>pd_conn = b, pd_passkey = l\<rparr>]"
    using failed_effect [OF spec, of h2 "\<lparr>pd_conn = a, pd_passkey = k\<rparr>" "[\<lparr>pd_conn = b, pd_passkey = l\<rparr>]"] 2
    by (auto simp: h2_def)
  define h3 where "h3 = pairing_failed mq a h2"
  obtain q4 where 4: "num_comp_reply mq True h3 = hids_called [Auth_Confirm b, Conn_Unref b] (h3\<lparr>hd_mitm := q4\<rparr>)"
    using reply_effect [OF spec, of h3 "\<lparr>pd_conn = b, pd_passkey = l\<rparr>" "[]" True] 3 by (auto simp: h3_def)
  have "hd_calls (num_comp_reply mq True h3) =
      hd_calls h @ [Conn_Ref a, Pairing_Submit, Show_Passkey a k, Conn_Ref b, Conn_Unref a, Auth_Confirm b, Conn_Unref b]"
    using h1 2 3 4 by (simp add: h2_def h3_def)
  then show ?thesis
    by (simp add: pairing_run_def h1_def h2_def h3_def)
qed

section \<open>Witnesses\<close>

definition sample_hids :: "pairing_data_mitm list hids" where
  "sample_hids = \<lparr>hd_conn_mode = hids_conns_reset, hd_mitm = [], hd_calls = []\<rparr>"

text \<open>Three requests, of which the queue holds two, and two answers: one reference is left.\<close>

lemma pairing_refs_exact_witness:
  "refs_held 3 (hd_calls (pairing_run (list_msgq HIDS_MAX_CLIENT_COUNT)
      [Request 1 0, Request 2 0, Request 3 0, Reply True, Reply True] sample_hids)) = 1"
  using pairing_refs_exact [OF list_msgq_spec, of sample_hids 3
      "[Request 1 0, Request 2 0, Request 3 0, Reply True, Reply True]"]
  by (simp add: sample_hids_def HIDS_MAX_CLIENT_COUNT_def pairing_run_def queued_def lost_ref_def list_msgq_def
      auth_passkey_confirm_def num_comp_reply_def hids_called_def Let_def)

lemma pairing_blind_confirm_witness:
  "Auth_Confirm 2 \<in> set (hd_calls (pairing_run (list_msgq HIDS_MAX_CLIENT_COUNT)
      [Request 1 11, Show, Request 2 22, Failed 1, Reply True] sample_hids))"
  using pairing_blind_confirm [OF list_msgq_spec, of sample_hids 1 11 2 22] by (simp add: sample_hids_def)

end
