(* ===== verification/Hid_Descriptor.thy ===== *)
theory Hid_Descriptor
  imports Prelude
begin

text \<open>
  Reading a HID report descriptor as a host does: a list of items, each a prefix byte with
  the kind of the item and the size of its data. The global items report id, report
  size and report count describe the next main items; an input item adds \<open>size * count\<close>
  bits to the input report of the current id, an output item to its output report.
\<close>

record hid_state =
  hid_id :: nat
  hid_size :: nat
  hid_count :: nat
  hid_inputs :: "(nat \<times> nat) list"
  hid_outputs :: "(nat \<times> nat) list"

definition hid_start :: hid_state where
  "hid_start = \<lparr>hid_id = 0, hid_size = 0, hid_count = 0, hid_inputs = [], hid_outputs = []\<rparr>"

fun add_bits :: "nat \<Rightarrow> nat \<Rightarrow> (nat \<times> nat) list \<Rightarrow> (nat \<times> nat) list" where
  "add_bits i n [] = [(i, n)]"
| "add_bits i n ((j, m) # rs) = (if i = j then (j, m + n) # rs else (j, m) # add_bits i n rs)"

definition hid_data_size :: "u8 \<Rightarrow> nat" where
  "hid_data_size prefix = (let n = unat (prefix AND 3) in if n = 3 then 4 else n)"

fun hid_value :: "u8 list \<Rightarrow> nat" where
  "hid_value [] = 0"
| "hid_value (b # bs) = unat b + 256 * hid_value bs"

definition hid_item :: "u8 \<Rightarrow> u8 list \<Rightarrow> hid_state \<Rightarrow> hid_state" where
  "hid_item prefix data h =
     (let kind = prefix AND 0xFC; bits = hid_size h * hid_count h
      in if kind = 0x84 then h\<lparr>hid_id := hid_value data\<rparr>
         else if kind = 0x74 then h\<lparr>hid_size := hid_value data\<rparr>
         else if kind = 0x94 then h\<lparr>hid_count := hid_value data\<rparr>
         else if kind = 0x80 then h\<lparr>hid_inputs := add_bits (hid_id h) bits (hid_inputs h)\<rparr>
         else if kind = 0x90 then h\<lparr>hid_outputs := add_bits (hid_id h) bits (hid_outputs h)\<rparr>
         else h)"

function hid_parse :: "u8 list \<Rightarrow> hid_state \<Rightarrow> hid_state option" where
  "hid_parse [] h = Some h"
| "hid_parse (p # bs) h =
     (if length bs < hid_data_size p then None
      else hid_parse (drop (hid_data_size p) bs) (hid_item p (take (hid_data_size p) bs) h))"
  by pat_completeness auto

termination
  by (relation "measure (\<lambda>(bs, h). length bs)") auto

text \<open>The bits of the input and output reports a descriptor declares.\<close>

definition hid_reports :: "u8 list \<Rightarrow> ((nat \<times> nat) list \<times> (nat \<times> nat) list) option" where
  "hid_reports bs = map_option (\<lambda>h. (hid_inputs h, hid_outputs h)) (hid_parse bs hid_start)"

end
