(* ===== verification/Hids_Keyboard.thy ===== *)
theory Hids_Keyboard
  imports Hids_Pairing Hid_Descriptor "HOL-Library.Multiset"
begin

text \<open>
  \<open>samples/bluetooth/peripheral_hids_keyboard/src/main.c\<close>: the keys held down, the report
  made of them and its delivery to every client, the button that types a text and
  confirms pairings, connections and advertising. The answers of the Bluetooth stack
  are arguments.
\<close>

definition KEY_CTRL_CODE_MIN :: u8 where "KEY_CTRL_CODE_MIN = 224"
definition KEY_CTRL_CODE_MAX :: u8 where "KEY_CTRL_CODE_MAX = 231"
definition KEY_PRESS_MAX :: nat where "KEY_PRESS_MAX = 6"
definition INPUT_REPORT_KEYS_MAX_LEN :: nat where "INPUT_REPORT_KEYS_MAX_LEN = 1 + 1 + KEY_PRESS_MAX"
definition OUTPUT_REPORT_MAX_LEN :: nat where "OUTPUT_REPORT_MAX_LEN = 1"
definition OUTPUT_REPORT_BIT_MASK_CAPS_LOCK :: u8 where "OUTPUT_REPORT_BIT_MASK_CAPS_LOCK = 0x02"
definition INPUT_REP_KEYS_IDX :: nat where "INPUT_REP_KEYS_IDX = 0"
definition KEY_TEXT_MASK :: u32 where "KEY_TEXT_MASK = 1"
definition KEY_PAIRING_ACCEPT :: u32 where "KEY_PAIRING_ACCEPT = 1"

definition hello_world_str :: "u8 list" where
  "hello_world_str = [0x0b, 0x08, 0x0f, 0x0f, 0x12, 0x28]"

record keyboard_state =
  ctrl_keys_state :: u8
  keys_state :: "u8 list"

text \<open>\<open>kb_chr\<close> is the position of the static pointer \<open>chr\<close> in the text.\<close>

record 'q keyboard = "'q hids" +
  kb_state :: keyboard_state
  kb_chr :: nat
  kb_pairing_pressed :: bool
  kb_is_adv :: bool
  kb_blink :: nat

text \<open>What the stack answers: a report sent, a connection announced, advertising.\<close>

record keyboard_env =
  ke_send :: "bt_conn \<Rightarrow> int"
  ke_hids_connected :: int
  ke_adv_start :: int

definition keyboard_state_reset :: keyboard_state where
  "keyboard_state_reset = \<lparr>ctrl_keys_state = 0, keys_state = replicate KEY_PRESS_MAX 0\<rparr>"

definition keyboard_reset :: "'q \<Rightarrow> 'q keyboard" where
  "keyboard_reset q = \<lparr>hd_conn_mode = hids_conns_reset, hd_mitm = q, hd_calls = [], kb_state = keyboard_state_reset,
     kb_chr = 0, kb_pairing_pressed = False, kb_is_adv = False, kb_blink = 0\<rparr>"

section \<open>Keys\<close>

definition button_ctrl_code :: "u8 \<Rightarrow> u8" where
  [op_defs]: "button_ctrl_code key =
     (if KEY_CTRL_CODE_MIN \<le> key \<and> key \<le> KEY_CTRL_CODE_MAX then push_bit (unat (key - KEY_CTRL_CODE_MIN)) 1 else 0)"

text \<open>The loops over the six slots: the first free one, the first that holds the key.\<close>

fun slot_set :: "u8 \<Rightarrow> u8 list \<Rightarrow> u8 list option" where
  "slot_set key [] = None"
| "slot_set key (k # ks) = (if k = 0 then Some (key # ks) else map_option ((#) k) (slot_set key ks))"

fun slot_clear :: "u8 \<Rightarrow> u8 list \<Rightarrow> u8 list option" where
  "slot_clear key [] = None"
| "slot_clear key (k # ks) = (if k = key then Some (0 # ks) else map_option ((#) k) (slot_clear key ks))"

definition hid_kbd_state_key_set :: "u8 \<Rightarrow> keyboard_state \<Rightarrow> int \<times> keyboard_state" where
  [op_defs]: "hid_kbd_state_key_set key st =
     (let ctrl_mask = button_ctrl_code key
      in if ctrl_mask \<noteq> 0 then (0, st\<lparr>ctrl_keys_state := ctrl_keys_state st OR ctrl_mask\<rparr>)
         else case slot_set key (keys_state st) of
                Some ks \<Rightarrow> (0, st\<lparr>keys_state := ks\<rparr>)
              | None \<Rightarrow> (- EBUSY, st))"

definition hid_kbd_state_key_clear :: "u8 \<Rightarrow> keyboard_state \<Rightarrow> int \<times> keyboard_state" where
  [op_defs]: "hid_kbd_state_key_clear key st =
     (let ctrl_mask = button_ctrl_code key
      in if ctrl_mask \<noteq> 0 then (0, st\<lparr>ctrl_keys_state := ctrl_keys_state st AND NOT ctrl_mask\<rparr>)
         else case slot_clear key (keys_state st) of
                Some ks \<Rightarrow> (0, st\<lparr>keys_state := ks\<rparr>)
              | None \<Rightarrow> (- EINVAL, st))"

section \<open>Reports\<close>

definition key_report :: "keyboard_state \<Rightarrow> u8 list" where
  "key_report st = ctrl_keys_state st # 0 # take KEY_PRESS_MAX (keys_state st)"

definition key_report_con_send :: "keyboard_env \<Rightarrow> keyboard_state \<Rightarrow> bool \<Rightarrow> bt_conn \<Rightarrow> int \<times> hids_call" where
  [op_defs]: "key_report_con_send env st boot_mode c =
     (ke_send env c,
      if boot_mode then Boot_Report c (key_report st) else Input_Report c INPUT_REP_KEYS_IDX (key_report st))"

text \<open>The loop over the clients ends at the first error.\<close>

fun report_clients :: "keyboard_env \<Rightarrow> keyboard_state \<Rightarrow> conn_mode list \<Rightarrow> int \<times> hids_call list" where
  "report_clients env st [] = (0, [])"
| "report_clients env st (m # ms) =
     (case cm_conn m of
        None \<Rightarrow> report_clients env st ms
      | Some c \<Rightarrow>
          (let (err, call) = key_report_con_send env st (cm_in_boot_mode m) c
           in if err \<noteq> 0 then (err, [call])
              else (let (err', calls) = report_clients env st ms in (err', call # calls))))"

definition key_report_send :: "keyboard_env \<Rightarrow> 'q keyboard \<Rightarrow> int \<times> 'q keyboard" where
  [op_defs]: "key_report_send env kb =
     (let (err, calls) = report_clients env (kb_state kb) (hd_conn_mode kb) in (err, hids_called calls kb))"

fun set_keys :: "u8 list \<Rightarrow> keyboard_state \<Rightarrow> int \<times> keyboard_state" where
  "set_keys [] st = (0, st)"
| "set_keys (k # ks) st = (let (err, st1) = hid_kbd_state_key_set k st in if err \<noteq> 0 then (err, st1) else set_keys ks st1)"

fun clear_keys :: "u8 list \<Rightarrow> keyboard_state \<Rightarrow> int \<times> keyboard_state" where
  "clear_keys [] st = (0, st)"
| "clear_keys (k # ks) st = (let (err, st1) = hid_kbd_state_key_clear k st in if err \<noteq> 0 then (err, st1) else clear_keys ks st1)"

definition hid_buttons_press :: "keyboard_env \<Rightarrow> u8 list \<Rightarrow> 'q keyboard \<Rightarrow> int \<times> 'q keyboard" where
  [op_defs]: "hid_buttons_press env keys kb =
     (let (err, st) = set_keys keys (kb_state kb); kb1 = kb\<lparr>kb_state := st\<rparr>
      in if err \<noteq> 0 then (err, kb1) else key_report_send env kb1)"

definition hid_buttons_release :: "keyboard_env \<Rightarrow> u8 list \<Rightarrow> 'q keyboard \<Rightarrow> int \<times> 'q keyboard" where
  [op_defs]: "hid_buttons_release env keys kb =
     (let (err, st) = clear_keys keys (kb_state kb); kb1 = kb\<lparr>kb_state := st\<rparr>
      in if err \<noteq> 0 then (err, kb1) else key_report_send env kb1)"

section \<open>The button\<close>

definition button_text_changed :: "keyboard_env \<Rightarrow> bool \<Rightarrow> 'q keyboard \<Rightarrow> 'q keyboard" where
  [op_defs]: "button_text_changed env down kb =
     (let chr = hello_world_str ! kb_chr kb
      in if down then snd (hid_buttons_press env [chr] kb)
         else
           let kb1 = snd (hid_buttons_release env [chr] kb); n = kb_chr kb1 + 1
           in kb1\<lparr>kb_chr := (if n = length hello_world_str then 0 else n)\<rparr>)"

definition keyboard_button_changed ::
  "keyboard_env \<Rightarrow> (pairing_data_mitm, 'q) msgq_ops \<Rightarrow> u32 \<Rightarrow> u32 \<Rightarrow> 'q keyboard \<Rightarrow> 'q keyboard" where
  [op_defs]: "keyboard_button_changed env mq button_state has_changed kb =
     (let buttons = button_state AND has_changed
      in if msgq_used mq (hd_mitm kb) \<noteq> 0 \<and> buttons AND KEY_PAIRING_ACCEPT \<noteq> 0
         then num_comp_reply mq True (kb\<lparr>kb_pairing_pressed := True\<rparr>)
         else if kb_pairing_pressed kb \<and> has_changed AND KEY_PAIRING_ACCEPT \<noteq> 0
         then kb\<lparr>kb_pairing_pressed := False\<rparr>
         else if has_changed AND KEY_TEXT_MASK \<noteq> 0
         then button_text_changed env (button_state AND KEY_TEXT_MASK \<noteq> 0) kb
         else kb)"

section \<open>Connections\<close>

definition keyboard_advertising_start :: "keyboard_env \<Rightarrow> 'q keyboard \<Rightarrow> 'q keyboard" where
  [op_defs]: "keyboard_advertising_start env kb =
     (let kb1 = hids_called [Adv_Start None] kb
      in if ke_adv_start env \<noteq> 0 then kb1 else kb1\<lparr>kb_is_adv := True\<rparr>)"

definition keyboard_connected :: "keyboard_env \<Rightarrow> bt_conn \<Rightarrow> u8 \<Rightarrow> 'q keyboard \<Rightarrow> 'q keyboard" where
  [op_defs]: "keyboard_connected env c err kb =
     (if err \<noteq> 0 then kb
      else
        let kb1 = hids_called [Led_On] kb
        in if ke_hids_connected env \<noteq> 0 then kb1
           else kb1\<lparr>hd_conn_mode := table_insert c (hd_conn_mode kb1), kb_is_adv := False\<rparr>)"

definition keyboard_disconnected :: "keyboard_env \<Rightarrow> bt_conn \<Rightarrow> 'q keyboard \<Rightarrow> 'q keyboard" where
  [op_defs]: "keyboard_disconnected env c kb =
     (let is_any_dev_connected = list_ex (\<lambda>m. cm_conn m \<noteq> None \<and> cm_conn m \<noteq> Some c) (hd_conn_mode kb);
          kb1 = kb\<lparr>hd_conn_mode := table_clear c (hd_conn_mode kb)\<rparr>;
          kb2 = (if is_any_dev_connected then kb1 else hids_called [Led_Off] kb1)
      in keyboard_advertising_start env kb2)"

text \<open>The value printed for an output report, if one was written.\<close>

definition caps_lock_handler :: "u8 \<Rightarrow> nat" where
  [op_defs]: "caps_lock_handler b = (if b AND OUTPUT_REPORT_BIT_MASK_CAPS_LOCK \<noteq> 0 then 1 else 0)"

definition hids_outp_rep_handler :: "u8 \<Rightarrow> bool \<Rightarrow> nat option" where
  [op_defs]: "hids_outp_rep_handler b write = (if \<not> write then None else Some (caps_lock_handler b))"

definition hids_boot_kb_outp_rep_handler :: "u8 \<Rightarrow> bool \<Rightarrow> nat option" where
  [op_defs]: "hids_boot_kb_outp_rep_handler b write = (if \<not> write then None else Some (caps_lock_handler b))"

text \<open>A pass of the main loop: the status LED blinks while advertising; the battery level.\<close>

definition keyboard_main_pass :: "u8 \<Rightarrow> 'q keyboard \<Rightarrow> u8 \<times> 'q keyboard" where
  [op_defs]: "keyboard_main_pass battery kb =
     (bas_notify battery,
      if kb_is_adv kb then hids_called [Led_Set ((kb_blink kb + 1) mod 2)] (kb\<lparr>kb_blink := kb_blink kb + 1\<rparr>) else kb)"

section \<open>The report descriptor\<close>

definition keyboard_report_map :: "u8 list" where
  "keyboard_report_map =
    [0x05, 0x01, 0x09, 0x06, 0xA1, 0x01,
     0x05, 0x07, 0x19, 0xe0, 0x29, 0xe7, 0x15, 0x00, 0x25, 0x01, 0x75, 0x01, 0x95, 0x08, 0x81, 0x02,
     0x95, 0x01, 0x75, 0x08, 0x81, 0x01,
     0x95, 0x06, 0x75, 0x08, 0x15, 0x00, 0x25, 0x65, 0x05, 0x07, 0x19, 0x00, 0x29, 0x65, 0x81, 0x00,
     0x95, 0x05, 0x75, 0x01, 0x05, 0x08, 0x19, 0x01, 0x29, 0x05, 0x91, 0x02,
     0x95, 0x01, 0x75, 0x03, 0x91, 0x01,
     0xC0]"

text \<open>\<open>hid_init\<close>: the sizes of the reports it registers, by index.\<close>

definition keyboard_hid_init :: "nat list \<times> nat list" where
  "keyboard_hid_init = ([INPUT_REPORT_KEYS_MAX_LEN], [OUTPUT_REPORT_MAX_LEN])"

text \<open>
  The descriptor declares exactly the reports that the code registers and sends: an
  input report of eight bytes and an output report of one, without an id.
\<close>

theorem keyboard_report_map_sizes:
  "hid_reports keyboard_report_map =
     Some ([(0, 8 * hd (fst keyboard_hid_init))], [(0, 8 * hd (snd keyboard_hid_init))]) \<and>
   length (key_report keyboard_state_reset) = hd (fst keyboard_hid_init)"
  by (simp add: hid_reports_def keyboard_report_map_def hid_start_def hid_data_size_def hid_item_def
      keyboard_hid_init_def INPUT_REPORT_KEYS_MAX_LEN_def OUTPUT_REPORT_MAX_LEN_def KEY_PRESS_MAX_def Let_def
      key_report_def keyboard_state_reset_def)

section \<open>Keys: what is held down\<close>

text \<open>
  The keyboard as its user sees it: the modifiers held down, by number, and the bag of
  other keys, at most six. Key code 0 means no key.
\<close>

type_synonym held_keys = "nat set \<times> u8 multiset"

definition keyboard_abs :: "keyboard_state \<Rightarrow> held_keys" where
  "keyboard_abs st = ({i. i < 8 \<and> bit (ctrl_keys_state st) i}, mset (filter (\<lambda>k. k \<noteq> 0) (keys_state st)))"

definition is_modifier :: "u8 \<Rightarrow> bool" where
  "is_modifier k \<longleftrightarrow> 224 \<le> k \<and> k \<le> 231"

definition held_press :: "u8 \<Rightarrow> held_keys \<Rightarrow> int \<times> held_keys" where
  "held_press k h =
     (if is_modifier k then (0, insert (unat k - 224) (fst h), snd h)
      else if size (snd h) < 6 then (0, fst h, if k = 0 then snd h else add_mset k (snd h))
      else (- EBUSY, h))"

definition held_release :: "u8 \<Rightarrow> held_keys \<Rightarrow> int \<times> held_keys" where
  "held_release k h =
     (if is_modifier k then (0, fst h - {unat k - 224}, snd h)
      else if k = 0 then (if size (snd h) < 6 then (0, h) else (- EINVAL, h))
      else if k \<in># snd h then (0, fst h, snd h - {#k#})
      else (- EINVAL, h))"

datatype key_op = Press u8 | Release u8

fun key_exec :: "key_op \<Rightarrow> keyboard_state \<Rightarrow> int \<times> keyboard_state" where
  "key_exec (Press k) st = hid_kbd_state_key_set k st"
| "key_exec (Release k) st = hid_kbd_state_key_clear k st"

fun held_exec :: "key_op \<Rightarrow> held_keys \<Rightarrow> int \<times> held_keys" where
  "held_exec (Press k) h = held_press k h"
| "held_exec (Release k) h = held_release k h"

text \<open>A history: the values returned and the final state.\<close>

fun key_run :: "key_op list \<Rightarrow> keyboard_state \<Rightarrow> int list \<times> keyboard_state" where
  "key_run [] st = ([], st)"
| "key_run (op # ops) st = (let (r, st1) = key_exec op st; (rs, st2) = key_run ops st1 in (r # rs, st2))"

fun held_run :: "key_op list \<Rightarrow> held_keys \<Rightarrow> int list \<times> held_keys" where
  "held_run [] h = ([], h)"
| "held_run (op # ops) h = (let (r, h1) = held_exec op h; (rs, h2) = held_run ops h1 in (r # rs, h2))"

lemma slot_set_none: "slot_set k ks = None \<longleftrightarrow> 0 \<notin> set ks"
  by (induction ks) auto

lemma slot_set_some:
  "slot_set k ks = Some ks' \<Longrightarrow> length ks' = length ks \<and>
    mset (filter (\<lambda>k. k \<noteq> 0) ks') = mset (filter (\<lambda>k. k \<noteq> 0) ks) + (if k = 0 then {#} else {#k#})"
  by (induction ks arbitrary: ks') (auto split: if_splits)

lemma slot_clear_none: "slot_clear k ks = None \<longleftrightarrow> k \<notin> set ks"
  by (induction ks) auto

lemma slot_clear_zero: "slot_clear 0 ks = Some ks' \<Longrightarrow> ks' = ks"
  by (induction ks arbitrary: ks') (auto split: if_splits)

lemma slot_clear_some:
  "slot_clear k ks = Some ks' \<Longrightarrow> k \<noteq> 0 \<Longrightarrow> length ks' = length ks \<and>
    mset (filter (\<lambda>k. k \<noteq> 0) ks) = add_mset k (mset (filter (\<lambda>k. k \<noteq> 0) ks'))"
proof (induction ks arbitrary: ks')
  case (Cons a ks)
  show ?case
  proof (cases "a = k")
    case False
    then obtain ks'' where "slot_clear k ks = Some ks''" "ks' = a # ks''"
      using Cons.prems(1) by auto
    then show ?thesis
      using Cons.IH [of ks''] Cons.prems(2) by simp
  qed (use Cons.prems in auto)
qed simp

lemma free_slot:
  fixes ks :: "u8 list"
  assumes "length ks = 6"
  shows "0 \<in> set ks \<longleftrightarrow> size (mset (filter (\<lambda>k. k \<noteq> 0) ks)) < 6"
proof -
  have "length (filter (\<lambda>k. k \<noteq> 0) ks) = length ks \<longleftrightarrow> 0 \<notin> set ks"
    by (metis (mono_tags, lifting) filter_True length_filter_less less_irrefl)
  then show ?thesis
    using assms length_filter_le [of "\<lambda>k. k \<noteq> 0" ks] by (simp add: nat_less_le del: mset_filter)
qed

lemma modifier_bounds: "is_modifier k \<longleftrightarrow> 224 \<le> unat k \<and> unat k \<le> 231"
  by (simp add: is_modifier_def word_le_nat_alt)

lemma modifier_index: "is_modifier k \<Longrightarrow> unat k - 224 < 8"
  unfolding modifier_bounds by arith

lemma ctrl_code:
  "button_ctrl_code k = (if is_modifier k then 2 ^ (unat k - 224) else 0)"
proof -
  have "unat (k - 224) = unat k - 224" if "is_modifier k"
    using that by (simp add: modifier_bounds unat_sub word_le_nat_alt)
  then show ?thesis
    by (simp add: button_ctrl_code_def is_modifier_def KEY_CTRL_CODE_MIN_def KEY_CTRL_CODE_MAX_def)
qed

lemma ctrl_mask_bit: "i < 8 \<Longrightarrow> bit (2 ^ i :: u8) j \<longleftrightarrow> j = i"
  by (auto simp: bit_exp_iff)

lemma ctrl_mask_nonzero: "i < 8 \<Longrightarrow> (2 :: u8) ^ i \<noteq> 0"
  using ctrl_mask_bit [of i i] by auto

lemma key_set_abs:
  assumes "length (keys_state st) = 6" "hid_kbd_state_key_set k st = (r, st')"
  shows "(r, keyboard_abs st') = held_press k (keyboard_abs st) \<and> length (keys_state st') = 6"
proof (cases "is_modifier k")
  case True
  then have i: "unat k - 224 < 8"
    by (rule modifier_index)
  have "r = 0" "st' = st\<lparr>ctrl_keys_state := ctrl_keys_state st OR 2 ^ (unat k - 224)\<rparr>"
    using assms(2) True ctrl_mask_nonzero [OF i] by (simp_all add: hid_kbd_state_key_set_def ctrl_code)
  then show ?thesis
    using assms(1) True i by (auto simp: keyboard_abs_def held_press_def bit_or_iff ctrl_mask_bit)
next
  case False
  show ?thesis
  proof (cases "slot_set k (keys_state st)")
    case None
    then have "0 \<notin> set (keys_state st)"
      using slot_set_none by blast
    then show ?thesis
      using assms False None free_slot [OF assms(1)]
      by (auto simp: hid_kbd_state_key_set_def ctrl_code keyboard_abs_def held_press_def)
  next
    case (Some ks)
    then have "0 \<in> set (keys_state st)"
      using slot_set_none by (metis option.distinct(1))
    then show ?thesis
      using assms False Some slot_set_some [OF Some] free_slot [OF assms(1)]
      by (auto simp: hid_kbd_state_key_set_def ctrl_code keyboard_abs_def held_press_def)
  qed
qed

lemma key_clear_abs:
  assumes "length (keys_state st) = 6" "hid_kbd_state_key_clear k st = (r, st')"
  shows "(r, keyboard_abs st') = held_release k (keyboard_abs st) \<and> length (keys_state st') = 6"
proof (cases "is_modifier k")
  case True
  then have i: "unat k - 224 < 8"
    by (rule modifier_index)
  have "r = 0" "st' = st\<lparr>ctrl_keys_state := ctrl_keys_state st AND NOT (2 ^ (unat k - 224))\<rparr>"
    using assms(2) True ctrl_mask_nonzero [OF i] by (simp_all add: hid_kbd_state_key_clear_def ctrl_code)
  then show ?thesis
    using assms(1) True i
    by (auto simp: keyboard_abs_def held_release_def bit_and_iff bit_not_iff ctrl_mask_bit)
next
  case False
  show ?thesis
  proof (cases "slot_clear k (keys_state st)")
    case None
    then have "k \<notin> set (keys_state st)"
      using slot_clear_none by blast
    then show ?thesis
      using assms False None free_slot [OF assms(1)]
      by (auto simp: hid_kbd_state_key_clear_def ctrl_code keyboard_abs_def held_release_def)
  next
    case (Some ks)
    then have "k \<in> set (keys_state st)"
      using slot_clear_none by (metis option.distinct(1))
    then show ?thesis
      using assms False Some slot_clear_some [OF Some] slot_clear_zero [of "keys_state st" ks] free_slot [OF assms(1)]
      by (cases "k = 0") (auto simp: hid_kbd_state_key_clear_def ctrl_code keyboard_abs_def held_release_def)
  qed
qed

text \<open>
  C21. The six slots and the modifier byte implement the bag of keys held down: every history
  of presses and releases returns what it would return on the bag, with \<open>-EBUSY\<close> for a
  seventh key and \<open>-EINVAL\<close> for one that is not down, and ends in a state of that bag.
\<close>

theorem keyboard_keys_refine:
  assumes "length (keys_state st) = KEY_PRESS_MAX"
  shows "held_run ops (keyboard_abs st) = (fst (key_run ops st), keyboard_abs (snd (key_run ops st)))"
proof -
  have "length (keys_state st) = 6 \<Longrightarrow>
      held_run ops (keyboard_abs st) = (fst (key_run ops st), keyboard_abs (snd (key_run ops st)))"
  proof (induction ops arbitrary: st)
    case (Cons op ops)
    obtain r st1 where e: "key_exec op st = (r, st1)"
      by fastforce
    have "(r, keyboard_abs st1) = held_exec op (keyboard_abs st) \<and> length (keys_state st1) = 6"
      using e key_set_abs [OF Cons.prems] key_clear_abs [OF Cons.prems] by (cases op) auto
    then show ?case
      using Cons.IH [of st1] e by (auto simp: Let_def split: prod.split dest: sym)
  qed simp
  then show ?thesis
    using assms by (simp add: KEY_PRESS_MAX_def)
qed

section \<open>Typing\<close>

text \<open>The report with one key down, and the one with none.\<close>

definition one_key_report :: "u8 \<Rightarrow> u8 list" where
  "one_key_report k = [0, 0, k, 0, 0, 0, 0, 0]"

definition click :: "keyboard_env \<Rightarrow> (pairing_data_mitm, 'q) msgq_ops \<Rightarrow> 'q keyboard \<Rightarrow> 'q keyboard" where
  "click env mq kb =
     keyboard_button_changed env mq 0 KEY_TEXT_MASK (keyboard_button_changed env mq KEY_TEXT_MASK KEY_TEXT_MASK kb)"

definition typing_ok :: "bt_conn \<Rightarrow> nat \<Rightarrow> 'q keyboard \<Rightarrow> bool" where
  "typing_ok c n kb \<longleftrightarrow> hd_conn_mode kb = [\<lparr>cm_conn = Some c, cm_in_boot_mode = False\<rparr>, \<lparr>cm_conn = None, cm_in_boot_mode = False\<rparr>] \<and>
     \<not> kb_pairing_pressed kb \<and> kb_state kb = keyboard_state_reset \<and> kb_chr kb = n mod 6"

lemma reset_slots: "keyboard_state_reset = \<lparr>ctrl_keys_state = 0, keys_state = [0, 0, 0, 0, 0, 0]\<rparr>"
  by (simp add: keyboard_state_reset_def KEY_PRESS_MAX_def eval_nat_numeral)

lemma report_slots [simp]: "key_report \<lparr>ctrl_keys_state = m, keys_state = [a, b, c, d, e, f]\<rparr> = [m, 0, a, b, c, d, e, f]"
  by (simp add: key_report_def KEY_PRESS_MAX_def)

lemma length_hello: "length hello_world_str = 6"
  by (simp add: hello_world_str_def)

lemma next_chr: "Suc n mod 6 = (if n mod 6 = 5 then 0 else Suc (n mod 6))"
  by (simp add: mod_Suc)

lemma hello_keys: "k \<in> set hello_world_str \<Longrightarrow> k \<noteq> 0 \<and> button_ctrl_code k = 0"
  by (auto simp: hello_world_str_def button_ctrl_code_def KEY_CTRL_CODE_MIN_def)

lemma click_reports:
  assumes "typing_ok c n kb" "msgq_used mq (hd_mitm kb) = 0"
  shows "typing_ok c (Suc n) (click env mq kb) \<and> hd_mitm (click env mq kb) = hd_mitm kb \<and>
    hd_calls (click env mq kb) = hd_calls kb @
      [Input_Report c 0 (one_key_report (hello_world_str ! (n mod 6))), Input_Report c 0 (one_key_report 0)]"
proof -
  define k where "k = hello_world_str ! (n mod 6)"
  have "k \<in> set hello_world_str"
    unfolding k_def by (rule nth_mem) (simp add: hello_world_str_def)
  then have k: "k \<noteq> 0" "button_ctrl_code k = 0"
    using hello_keys by auto
  let ?down = "keyboard_button_changed env mq KEY_TEXT_MASK KEY_TEXT_MASK kb"
  have down: "?down = hids_called [Input_Report c 0 (one_key_report k)]
      (kb\<lparr>kb_state := \<lparr>ctrl_keys_state = 0, keys_state = [k, 0, 0, 0, 0, 0]\<rparr>\<rparr>)"
    using assms k
    by (simp add: keyboard_button_changed_def KEY_TEXT_MASK_def KEY_PAIRING_ACCEPT_def typing_ok_def button_text_changed_def
        hid_buttons_press_def hid_kbd_state_key_set_def reset_slots k_def [symmetric]
        key_report_send_def key_report_con_send_def one_key_report_def INPUT_REP_KEYS_IDX_def
        Let_def split_beta)
  have up: "click env mq kb = (hids_called [Input_Report c 0 (one_key_report 0)]
      (?down\<lparr>kb_state := keyboard_state_reset\<rparr>))\<lparr>kb_chr := (if n mod 6 = 5 then 0 else Suc (n mod 6))\<rparr>"
    using assms k unfolding click_def down
    by (simp add: keyboard_button_changed_def KEY_TEXT_MASK_def KEY_PAIRING_ACCEPT_def typing_ok_def button_text_changed_def
        hid_buttons_release_def hid_kbd_state_key_clear_def reset_slots k_def [symmetric]
        key_report_send_def key_report_con_send_def one_key_report_def INPUT_REP_KEYS_IDX_def
        hids_called_def length_hello Let_def split_beta)
  show ?thesis
    using assms unfolding up down by (simp add: typing_ok_def next_chr k_def hids_called_def)
qed

text \<open>
  The button types the text. With one client in report mode, no pairing in progress and
  no key down, \<open>n\<close> clicks of the button send the client the report of one key and the
  empty report, \<open>n\<close> times, for the keys of the text in order and round again, whatever
  the stack answers.
\<close>

theorem keyboard_types_text:
  assumes "msgq_spec mq contents depth" "contents (hd_mitm kb) = []" "typing_ok c 0 kb" "hd_calls kb = []"
  shows "hd_calls ((click env mq ^^ n) kb) =
    concat (map (\<lambda>i. [Input_Report c 0 (one_key_report (hello_world_str ! (i mod 6))), Input_Report c 0 (one_key_report 0)])
      [0..<n])"
proof -
  have used: "msgq_used mq (hd_mitm kb) = 0"
    using msgq_used_ok [OF assms(1)] assms(2) by simp
  have "typing_ok c n ((click env mq ^^ n) kb) \<and> hd_mitm ((click env mq ^^ n) kb) = hd_mitm kb \<and>
      hd_calls ((click env mq ^^ n) kb) =
        concat (map (\<lambda>i. [Input_Report c 0 (one_key_report (hello_world_str ! (i mod 6))), Input_Report c 0 (one_key_report 0)])
          [0..<n])"
  proof (induction n)
    case 0
    then show ?case using assms(3,4) by simp
  next
    case (Suc n)
    then show ?case
      using click_reports [of c n "(click env mq ^^ n) kb" mq env] used by simp
  qed
  then show ?thesis by blast
qed

text \<open>The battery level stays between 1 and 100 and comes back after 100 notifications.\<close>

lemma bas_notify_range:
  assumes "0 < b" "b \<le> 100"
  shows "0 < bas_notify b" "bas_notify b \<le> 100"
    "unat (bas_notify b) = (if unat b = 1 then 100 else unat b - 1)"
proof -
  have "0 < unat b" "unat b \<le> 100"
    using assms by (simp_all add: word_less_nat_alt word_le_nat_alt)
  moreover have "unat (b - 1) = unat b - 1"
    using assms(1) by (metis unat_minus_one word_neq_0_conv)
  moreover have "b - 1 = 0 \<longleftrightarrow> unat b = 1"
    by (metis calculation(1,3) diff_is_0_eq le_antisym less_eq_Suc_le One_nat_def unat_eq_zero diff_self_eq_0)
  ultimately show "0 < bas_notify b" "bas_notify b \<le> 100"
    "unat (bas_notify b) = (if unat b = 1 then 100 else unat b - 1)"
    by (auto simp: bas_notify_def Let_def word_less_nat_alt word_le_nat_alt)
qed

section \<open>Witnesses\<close>

lemma keyboard_keys_refine_witness:
  "held_run [Press 4, Press 225, Release 5, Press 6] (keyboard_abs keyboard_state_reset) =
    (fst (key_run [Press 4, Press 225, Release 5, Press 6] keyboard_state_reset),
     keyboard_abs (snd (key_run [Press 4, Press 225, Release 5, Press 6] keyboard_state_reset)))"
  by (rule keyboard_keys_refine) (simp add: keyboard_state_reset_def)

definition sample_keyboard :: "pairing_data_mitm list keyboard" where
  "sample_keyboard = (keyboard_reset [])\<lparr>hd_conn_mode :=
     [\<lparr>cm_conn = Some 7, cm_in_boot_mode = False\<rparr>, \<lparr>cm_conn = None, cm_in_boot_mode = False\<rparr>]\<rparr>"

definition sample_keyboard_env :: keyboard_env where
  "sample_keyboard_env = \<lparr>ke_send = \<lambda>c. 0, ke_hids_connected = 0, ke_adv_start = 0\<rparr>"

lemma keyboard_types_text_witness:
  "hd_calls ((click sample_keyboard_env (list_msgq 2) ^^ 2) sample_keyboard) =
    [Input_Report 7 0 [0, 0, 0x0b, 0, 0, 0, 0, 0], Input_Report 7 0 [0, 0, 0, 0, 0, 0, 0, 0],
     Input_Report 7 0 [0, 0, 0x08, 0, 0, 0, 0, 0], Input_Report 7 0 [0, 0, 0, 0, 0, 0, 0, 0]]"
proof -
  have "typing_ok 7 0 sample_keyboard" "hd_calls sample_keyboard = []" "hd_mitm sample_keyboard = []"
    by (simp_all add: typing_ok_def sample_keyboard_def keyboard_reset_def)
  then have "hd_calls ((click sample_keyboard_env (list_msgq 2) ^^ 2) sample_keyboard) =
      concat (map (\<lambda>i. [Input_Report 7 0 (one_key_report (hello_world_str ! (i mod 6))), Input_Report 7 0 (one_key_report 0)])
        [0..<2])"
    by (intro keyboard_types_text [OF list_msgq_spec])
  also have "[0..<2] = [0, Suc 0]"
    by (simp add: upt_rec)
  finally show ?thesis
    by (simp add: one_key_report_def hello_world_str_def)
qed

end
