(* ===== verification/Hids_Mouse.thy ===== *)
theory Hids_Mouse
  imports Hids_Pairing Hid_Descriptor
begin

text \<open>
  \<open>samples/bluetooth/peripheral_hids_mouse/src/main.c\<close>: movements queued by the button and
  sent to every client, packed into twelve bits per axis; the clients and the
  advertising, directed to the bonded peers first where that is configured. Three
  queues of the kernel are parameters. An address is a number; \<open>me_dst\<close> is the address of
  a connection's peer.
\<close>

definition MOVEMENT_SPEED :: i16 where "MOVEMENT_SPEED = 5"
definition INPUT_REP_BUTTONS_LEN :: nat where "INPUT_REP_BUTTONS_LEN = 3"
definition INPUT_REP_MOVEMENT_LEN :: nat where "INPUT_REP_MOVEMENT_LEN = 3"
definition INPUT_REP_MEDIA_PLAYER_LEN :: nat where "INPUT_REP_MEDIA_PLAYER_LEN = 1"
definition INPUT_REP_MOVEMENT_INDEX :: nat where "INPUT_REP_MOVEMENT_INDEX = 1"
definition KEY_LEFT_MASK :: u32 where "KEY_LEFT_MASK = 1"
definition BT_HCI_ERR_ADV_TIMEOUT :: u8 where "BT_HCI_ERR_ADV_TIMEOUT = 0x3c"

record mouse_pos =
  x_val :: i16
  y_val :: i16

record ('q, 'p, 'b) mouse = "'q hids" +
  mo_queue :: 'p
  mo_bonds :: 'b
  mo_adv_running :: bool

record mouse_env =
  me_directed :: bool
  me_security :: bool
  me_dst :: "bt_conn \<Rightarrow> nat"
  me_bonded :: "nat list"
  me_adv_start :: "nat option \<Rightarrow> int"
  me_adv_stop :: int
  me_hids_connected :: int

section \<open>Advertising\<close>

definition bond_find :: "mouse_env \<Rightarrow> (nat, 'b) msgq_ops \<Rightarrow> nat \<Rightarrow> ('q, 'p, 'b) mouse \<Rightarrow> ('q, 'p, 'b) mouse" where
  [op_defs]: "bond_find env bq addr m =
     (if list_ex (\<lambda>e. case cm_conn e of None \<Rightarrow> False | Some c \<Rightarrow> me_dst env c = addr) (hd_conn_mode m) then m
      else
        let (err, q) = msgq_put bq addr (mo_bonds m)
        in (if err \<noteq> 0 then hids_called [Queue_Full] (m\<lparr>mo_bonds := q\<rparr>) else m\<lparr>mo_bonds := q\<rparr>))"

definition adv_started :: "mouse_env \<Rightarrow> nat option \<Rightarrow> ('q, 'p, 'b) mouse \<Rightarrow> ('q, 'p, 'b) mouse" where
  "adv_started env target m =
     (let m1 = hids_called [Adv_Start target] m
      in if me_adv_start env target \<noteq> 0 then m1 else m1\<lparr>mo_adv_running := True\<rparr>)"

definition advertising_continue :: "mouse_env \<Rightarrow> (nat, 'b) msgq_ops \<Rightarrow> ('q, 'p, 'b) mouse \<Rightarrow> ('q, 'p, 'b) mouse" where
  [op_defs]: "advertising_continue env bq m =
     (case if me_directed env then msgq_get bq (mo_bonds m) else (Inl (- ENOMSG), mo_bonds m) of
        (Inr addr, q) \<Rightarrow>
          let m1 = m\<lparr>mo_bonds := q\<rparr>
          in if mo_adv_running m1 then
               (let m2 = hids_called [Adv_Stop] m1
                in if me_adv_stop env \<noteq> 0 then m2 else adv_started env (Some addr) (m2\<lparr>mo_adv_running := False\<rparr>))
             else adv_started env (Some addr) m1
      | (Inl err, q) \<Rightarrow>
          let m1 = m\<lparr>mo_bonds := q\<rparr>
          in if mo_adv_running m1 then m1 else adv_started env None m1)"

definition mouse_advertising_start :: "mouse_env \<Rightarrow> (nat, 'b) msgq_ops \<Rightarrow> ('q, 'p, 'b) mouse \<Rightarrow> ('q, 'p, 'b) mouse" where
  [op_defs]: "mouse_advertising_start env bq m =
     hids_called [Adv_Submit]
       (if me_directed env then fold (bond_find env bq) (me_bonded env) (m\<lparr>mo_bonds := msgq_purge bq (mo_bonds m)\<rparr>)
        else m)"

definition advertising_process :: "mouse_env \<Rightarrow> (nat, 'b) msgq_ops \<Rightarrow> ('q, 'p, 'b) mouse \<Rightarrow> ('q, 'p, 'b) mouse" where
  [op_defs]: "advertising_process env bq m = advertising_continue env bq m"

section \<open>Connections\<close>

definition insert_conn_object :: "bt_conn \<Rightarrow> ('q, 'p, 'b) mouse \<Rightarrow> ('q, 'p, 'b) mouse" where
  [op_defs]: "insert_conn_object c m = m\<lparr>hd_conn_mode := table_insert c (hd_conn_mode m)\<rparr>"

definition is_conn_slot_free :: "('q, 'p, 'b) mouse \<Rightarrow> bool" where
  [op_defs]: "is_conn_slot_free m \<longleftrightarrow> list_ex (\<lambda>e. cm_conn e = None) (hd_conn_mode m)"

definition mouse_connected ::
  "mouse_env \<Rightarrow> (nat, 'b) msgq_ops \<Rightarrow> bt_conn \<Rightarrow> u8 \<Rightarrow> ('q, 'p, 'b) mouse \<Rightarrow> ('q, 'p, 'b) mouse" where
  [op_defs]: "mouse_connected env bq c err m0 =
     (let m = m0\<lparr>mo_adv_running := False\<rparr>
      in if err \<noteq> 0 then (if err = BT_HCI_ERR_ADV_TIMEOUT then hids_called [Adv_Submit] m else m)
         else if me_hids_connected env \<noteq> 0 then m
         else
           let m1 = insert_conn_object c m
           in if is_conn_slot_free m1 then mouse_advertising_start env bq m1 else m1)"

text \<open>The loop of \<open>disconnected\<close> ends at the first entry that matches.\<close>

fun table_remove :: "bt_conn \<Rightarrow> conn_mode list \<Rightarrow> conn_mode list" where
  "table_remove c [] = []"
| "table_remove c (m # ms) = (if cm_conn m = Some c then m\<lparr>cm_conn := None\<rparr> # ms else m # table_remove c ms)"

definition mouse_disconnected ::
  "mouse_env \<Rightarrow> (nat, 'b) msgq_ops \<Rightarrow> bt_conn \<Rightarrow> ('q, 'p, 'b) mouse \<Rightarrow> ('q, 'p, 'b) mouse" where
  [op_defs]: "mouse_disconnected env bq c m =
     mouse_advertising_start env bq (m\<lparr>hd_conn_mode := table_remove c (hd_conn_mode m)\<rparr>)"

section \<open>Movements\<close>

definition clamp :: "int \<Rightarrow> int \<Rightarrow> i16 \<Rightarrow> i16" where
  "clamp lo hi v = word_of_int (max (min (sint v) hi) lo)"

text \<open>The report of a movement: twelve bits per axis, little-endian.\<close>

definition movement_report :: "i16 \<Rightarrow> i16 \<Rightarrow> u8 list" where
  "movement_report x_delta y_delta =
     (let x = clamp (- 0x07ff) 0x07ff x_delta; y = clamp (- 0x07ff) 0x07ff y_delta;
          x0 = ucast x :: u8; x1 = ucast (drop_bit 8 x) :: u8; y0 = ucast y :: u8; y1 = ucast (drop_bit 8 y) :: u8
      in [x0, push_bit 4 y0 OR (x1 AND 0x0f), push_bit 4 y1 OR drop_bit 4 y0])"

text \<open>
  The loop over the clients. For a client in boot mode the parameters themselves are
  limited to a byte, and the next clients are sent what is left of them.
\<close>

fun mouse_movement_send :: "i16 \<Rightarrow> i16 \<Rightarrow> conn_mode list \<Rightarrow> hids_call list" where
  "mouse_movement_send x_delta y_delta [] = []"
| "mouse_movement_send x_delta y_delta (m # ms) =
     (case cm_conn m of
        None \<Rightarrow> mouse_movement_send x_delta y_delta ms
      | Some c \<Rightarrow>
          if cm_in_boot_mode m then
            (let x = clamp (- 128) 127 x_delta; y = clamp (- 128) 127 y_delta
             in Boot_Mouse c (sint x) (sint y) # mouse_movement_send x y ms)
          else
            Input_Report c INPUT_REP_MOVEMENT_INDEX (movement_report x_delta y_delta) #
            mouse_movement_send x_delta y_delta ms)"

text \<open>The work item: \<open>k_msgq_get\<close> until the queue is empty; as many gets as entries succeed.\<close>

fun mouse_drain :: "nat \<Rightarrow> (mouse_pos, 'p) msgq_ops \<Rightarrow> ('q, 'p, 'b) mouse \<Rightarrow> ('q, 'p, 'b) mouse" where
  "mouse_drain 0 pq m = m"
| "mouse_drain (Suc n) pq m =
     (case msgq_get pq (mo_queue m) of
        (Inl err, q) \<Rightarrow> m\<lparr>mo_queue := q\<rparr>
      | (Inr pos, q) \<Rightarrow>
          mouse_drain n pq
            (hids_called (mouse_movement_send (x_val pos) (y_val pos) (hd_conn_mode m)) (m\<lparr>mo_queue := q\<rparr>)))"

definition mouse_handler :: "(mouse_pos, 'p) msgq_ops \<Rightarrow> ('q, 'p, 'b) mouse \<Rightarrow> ('q, 'p, 'b) mouse" where
  [op_defs]: "mouse_handler pq m = mouse_drain (Suc (msgq_used pq (mo_queue m))) pq m"

definition mouse_button_changed ::
  "mouse_env \<Rightarrow> (pairing_data_mitm, 'q) msgq_ops \<Rightarrow> (mouse_pos, 'p) msgq_ops \<Rightarrow> u32 \<Rightarrow> u32 \<Rightarrow>
   ('q, 'p, 'b) mouse \<Rightarrow> ('q, 'p, 'b) mouse" where
  [op_defs]: "mouse_button_changed env mq pq button_state has_changed m =
     (let buttons = button_state AND has_changed
      in if me_security env \<and> msgq_used mq (hd_mitm m) \<noteq> 0 \<and> buttons AND 1 \<noteq> 0 then num_comp_reply mq True m
         else if buttons AND KEY_LEFT_MASK \<noteq> 0 then
           (let (err, q) = msgq_put pq \<lparr>x_val = - MOVEMENT_SPEED, y_val = 0\<rparr> (mo_queue m); m1 = m\<lparr>mo_queue := q\<rparr>
            in if err \<noteq> 0 then hids_called [Queue_Full] m1
               else if msgq_used pq q = 1 then hids_called [Work_Submit] m1 else m1)
         else m)"

section \<open>The report descriptor\<close>

definition mouse_report_map :: "u8 list" where
  "mouse_report_map =
    [0x05, 0x01, 0x09, 0x02, 0xA1, 0x01,
     0x85, 0x01, 0x09, 0x01, 0xA1, 0x00, 0x95, 0x05, 0x75, 0x01, 0x05, 0x09, 0x19, 0x01, 0x29, 0x05,
     0x15, 0x00, 0x25, 0x01, 0x81, 0x02, 0x95, 0x01, 0x75, 0x03, 0x81, 0x01, 0x75, 0x08, 0x95, 0x01,
     0x05, 0x01, 0x09, 0x38, 0x15, 0x81, 0x25, 0x7F, 0x81, 0x06, 0x05, 0x0C, 0x0A, 0x38, 0x02, 0x95, 0x01, 0x81, 0x06, 0xC0,
     0x85, 0x02, 0x09, 0x01, 0xA1, 0x00, 0x75, 0x0C, 0x95, 0x02, 0x05, 0x01, 0x09, 0x30, 0x09, 0x31,
     0x16, 0x01, 0xF8, 0x26, 0xFF, 0x07, 0x81, 0x06, 0xC0, 0xC0,
     0x05, 0x0C, 0x09, 0x01, 0xA1, 0x01, 0x85, 0x03, 0x15, 0x00, 0x25, 0x01, 0x75, 0x01, 0x95, 0x01,
     0x09, 0xCD, 0x81, 0x06, 0x0A, 0x83, 0x01, 0x81, 0x06, 0x09, 0xB5, 0x81, 0x06, 0x09, 0xB6, 0x81, 0x06,
     0x09, 0xEA, 0x81, 0x06, 0x09, 0xE9, 0x81, 0x06, 0x0A, 0x25, 0x02, 0x81, 0x06, 0x0A, 0x24, 0x02, 0x81, 0x06, 0xC0]"

text \<open>\<open>hid_init\<close>: the input reports it registers, as id and size.\<close>

definition mouse_hid_init :: "(nat \<times> nat) list" where
  "mouse_hid_init = [(1, INPUT_REP_BUTTONS_LEN), (2, INPUT_REP_MOVEMENT_LEN), (3, INPUT_REP_MEDIA_PLAYER_LEN)]"

text \<open>The descriptor declares the three reports that the code registers, with their sizes.\<close>

theorem mouse_report_map_sizes:
  "hid_reports mouse_report_map = Some (map (\<lambda>(i, n). (i, 8 * n)) mouse_hid_init, [])"
  by (simp add: hid_reports_def mouse_report_map_def hid_start_def hid_data_size_def hid_item_def
      mouse_hid_init_def INPUT_REP_BUTTONS_LEN_def INPUT_REP_MOVEMENT_LEN_def INPUT_REP_MEDIA_PLAYER_LEN_def Let_def)

section \<open>What the host reads\<close>

text \<open>Two signed numbers of twelve bits.\<close>

definition movement_decode :: "u8 list \<Rightarrow> int \<times> int" where
  "movement_decode bs =
     (sint (ucast (bs ! 0) OR push_bit 8 (ucast (bs ! 1 AND 0x0f)) :: 12 word),
      sint (ucast (drop_bit 4 (bs ! 1)) OR push_bit 4 (ucast (bs ! 2)) :: 12 word))"

lemma nibble_mask: "(0x0f :: u8) = mask 4"
  by (simp add: mask_eq_exp_minus_1)

lemma sint_clamp:
  assumes "lo \<le> hi" "- 32768 \<le> lo" "hi \<le> 32767"
  shows "sint (clamp lo hi v) = max (min (sint v) hi) lo"
proof -
  have "- 32768 \<le> max (min (sint v) hi) lo" "max (min (sint v) hi) lo \<le> 32767"
    using assms by auto
  then show ?thesis
    by (simp add: clamp_def signed_of_int signed_take_bit_int_eq_self del: min_less_iff_conj)
qed

lemma sint_ucast_12:
  assumes "- 2048 \<le> sint (v :: i16)" "sint v \<le> 2047"
  shows "sint (ucast v :: 12 word) = sint v"
proof -
  have "sint (ucast v :: 12 word) = signed_take_bit 11 (sint v)"
    by (simp add: bit_eq_iff bit_simps) (auto simp: min_def bit_simps)
  then show ?thesis
    using assms by (simp add: signed_take_bit_int_eq_self)
qed

text \<open>
  C29. The movement report packs two numbers of twelve bits into three bytes, and a host that
  reads them as the report descriptor declares gets both movements back, limited to
  2047 either way.
\<close>

theorem movement_report_decodes:
  "length (movement_report x y) = INPUT_REP_MOVEMENT_LEN \<and>
   movement_decode (movement_report x y) =
     (max (min (sint x) 2047) (- 2047), max (min (sint y) 2047) (- 2047))"
proof -
  define cx cy where "cx = clamp (- 0x07ff) 0x07ff x" and "cy = clamp (- 0x07ff) 0x07ff y"
  have r: "movement_report x y =
      [ucast cx, push_bit 4 (ucast cy) OR (ucast (drop_bit 8 cx) AND 0x0f), push_bit 4 (ucast (drop_bit 8 cy)) OR drop_bit 4 (ucast cy)]"
    by (simp add: movement_report_def cx_def cy_def Let_def)
  have "ucast (ucast cx :: u8) OR push_bit 8 (ucast ((push_bit 4 (ucast cy) OR (ucast (drop_bit 8 cx) AND 0x0f) :: u8) AND 0x0f)) =
      (ucast cx :: 12 word)"
    unfolding nibble_mask by (rule bit_word_eqI) (auto simp: bit_simps)
  moreover have "ucast (drop_bit 4 (push_bit 4 (ucast cy) OR (ucast (drop_bit 8 cx) AND 0x0f) :: u8)) OR
      push_bit 4 (ucast (push_bit 4 (ucast (drop_bit 8 cy)) OR drop_bit 4 (ucast cy) :: u8)) = (ucast cy :: 12 word)"
    unfolding nibble_mask by (rule bit_word_eqI) (auto simp: bit_simps)
  ultimately have "movement_decode (movement_report x y) = (sint (ucast cx :: 12 word), sint (ucast cy :: 12 word))"
    by (simp add: movement_decode_def r)
  then show ?thesis
    by (simp add: r sint_ucast_12 sint_clamp cx_def cy_def INPUT_REP_MOVEMENT_LEN_def)
qed

section \<open>What the clients are sent\<close>

text \<open>
  Without a client in boot mode every client is sent the movement itself; with one, the
  clients after it are sent at most \<open>-128 .. 127\<close>, in whatever mode they are.
\<close>

definition in_report_mode :: "conn_mode \<Rightarrow> bool" where
  "in_report_mode e \<longleftrightarrow> cm_conn e \<noteq> None \<longrightarrow> \<not> cm_in_boot_mode e"

lemma movement_all_report:
  "list_all in_report_mode ms \<Longrightarrow>
   mouse_movement_send x y ms =
     map (\<lambda>c. Input_Report c INPUT_REP_MOVEMENT_INDEX (movement_report x y)) (List.map_filter cm_conn ms)"
  by (induction ms) (auto simp: in_report_mode_def List.map_filter_simps split: option.splits)

lemma movement_append_report:
  "list_all in_report_mode ms \<Longrightarrow>
   mouse_movement_send x y (ms @ ns) = mouse_movement_send x y ms @ mouse_movement_send x y ns"
  by (induction ms) (auto simp: in_report_mode_def split: option.splits)

theorem mouse_boot_clamps_next:
  assumes "list_all in_report_mode before" "cm_conn boot = Some b" "cm_in_boot_mode boot"
    "list_all in_report_mode later"
  shows "mouse_movement_send x y (before @ boot # later) =
    map (\<lambda>c. Input_Report c INPUT_REP_MOVEMENT_INDEX (movement_report x y)) (List.map_filter cm_conn before) @
    Boot_Mouse b (max (min (sint x) 127) (- 128)) (max (min (sint y) 127) (- 128)) #
    map (\<lambda>c. Input_Report c INPUT_REP_MOVEMENT_INDEX (movement_report (clamp (- 128) 127 x) (clamp (- 128) 127 y)))
      (List.map_filter cm_conn later)"
  using assms by (simp add: movement_append_report movement_all_report sint_clamp)

theorem mouse_boot_clamps_next_witness:
  "mouse_movement_send 300 5 ([] @ \<lparr>cm_conn = Some 1, cm_in_boot_mode = True\<rparr> # [\<lparr>cm_conn = Some 2, cm_in_boot_mode = False\<rparr>]) =
   [Boot_Mouse 1 127 5, Input_Report 2 INPUT_REP_MOVEMENT_INDEX (movement_report 127 5)]"
  by (subst mouse_boot_clamps_next) (simp_all add: in_report_mode_def List.map_filter_simps clamp_def)

text \<open>
  The work item sends every queued movement once, in order, and leaves the queue empty;
  the fuel of \<open>mouse_handler\<close> is what this takes.
\<close>

lemma mouse_drain_exact:
  assumes "msgq_spec pq contents depth" "length (contents (mo_queue m)) < n"
  shows "hd_calls (mouse_drain n pq m) =
      hd_calls m @ concat (map (\<lambda>p. mouse_movement_send (x_val p) (y_val p) (hd_conn_mode m)) (contents (mo_queue m))) \<and>
    contents (mo_queue (mouse_drain n pq m)) = []"
  using assms(2)
proof (induction n arbitrary: m)
  case (Suc n)
  obtain r q where g: "msgq_get pq (mo_queue m) = (r, q)"
    by fastforce
  note get = msgq_get_ok [OF assms(1) g]
  show ?case
  proof (cases "contents (mo_queue m)")
    case Nil
    then show ?thesis
      using get g by (cases r) auto
  next
    case (Cons p ps)
    then have "r = Inr p" "contents q = ps"
      using get by auto
    then show ?thesis
      using Suc.IH [of "hids_called (mouse_movement_send (x_val p) (y_val p) (hd_conn_mode m)) (m\<lparr>mo_queue := q\<rparr>)"]
        Suc.prems g Cons
      by (simp add: hids_called_def)
  qed
qed simp

theorem mouse_drains:
  assumes "msgq_spec pq contents depth"
  shows "hd_calls (mouse_handler pq m) =
      hd_calls m @ concat (map (\<lambda>p. mouse_movement_send (x_val p) (y_val p) (hd_conn_mode m)) (contents (mo_queue m)))"
    "contents (mo_queue (mouse_handler pq m)) = []"
  using mouse_drain_exact [OF assms, of m "Suc (msgq_used pq (mo_queue m))"]
  by (simp_all add: mouse_handler_def msgq_used_ok [OF assms])

end
