(* ===== verification/Quick_Start.thy ===== *)
theory Quick_Start
  imports Kernel
begin

text \<open>
  \<open>applications/quick_start_demo/src/main.c\<close>: start-up, with a return at the first call
  that fails, and the callbacks of the Bluetooth LED-button service; and the start-up of
  the two HID samples, which is of the same kind. What the drivers and the stack return is
  the argument \<open>ret\<close>; \<open>enc\<close> is \<open>nfc_ndef_uri_msg_encode\<close> for the prefix https.
\<close>

definition NDEF_MSG_BUF_SIZE :: nat where "NDEF_MSG_BUF_SIZE = 256"
definition USER_BUTTON :: u32 where "USER_BUTTON = 1"
definition m_url :: string where "m_url = ''makerdiary.com''"

datatype startup_call =
  Leds_Init | Buttons_Init | Nfc_Setup | Uri_Encode | Payload_Set "u8 list" | Emulation_Start
| Auth_Register | Auth_Info_Register | Hids_Init | Bt_Enable | Settings_Load | Lbs_Init | Work_Init | Advertise

text \<open>The calls made, in order.\<close>

definition quick_start_main ::
  "(string \<Rightarrow> nat \<Rightarrow> int \<times> u8 list) \<Rightarrow> bool \<Rightarrow> bool \<Rightarrow> (startup_call \<Rightarrow> int) \<Rightarrow> int \<times> startup_call list" where
  "quick_start_main enc security settings ret =
     (let (err, made) = first_error ret [Leds_Init, Buttons_Init, Nfc_Setup]
      in if err \<noteq> 0 then (0, made)
         else
           let (err, msg) = enc m_url NDEF_MSG_BUF_SIZE; made1 = made @ [Uri_Encode]
           in if err \<noteq> 0 then (0, made1)
              else
                let (err, made2) = first_error ret ([Payload_Set msg, Emulation_Start] @
                                     (if security then [Auth_Register, Auth_Info_Register] else []) @ [Bt_Enable])
                in if err \<noteq> 0 then (0, made1 @ made2)
                   else
                     let made3 = made1 @ made2 @ (if settings then [Settings_Load] else []) @ [Lbs_Init]
                     in if ret Lbs_Init \<noteq> 0 then (0, made3) else (0, made3 @ [Work_Init, Advertise]))"

text \<open>
  The HID samples: \<open>configure_gpio\<close> only reports its errors, and \<open>hid_init\<close> asserts, which
  stops the program only in a build with assertions.
\<close>

definition asserted :: "bool \<Rightarrow> (startup_call \<Rightarrow> int) \<Rightarrow> startup_call \<Rightarrow> int" where
  "asserted asserts ret c = (if c = Hids_Init \<and> \<not> asserts then 0 else ret c)"

definition keyboard_main_start :: "bool \<Rightarrow> bool \<Rightarrow> (startup_call \<Rightarrow> int) \<Rightarrow> bool \<times> startup_call list" where
  "keyboard_main_start asserts settings ret =
     (let made = [Buttons_Init, Leds_Init];
          (err, made1) = first_error (asserted asserts ret) [Auth_Register, Auth_Info_Register, Hids_Init, Bt_Enable]
      in if err \<noteq> 0 then (False, made @ made1)
         else (True, made @ made1 @ (if settings then [Settings_Load] else []) @ [Advertise, Work_Init]))"

definition mouse_main_start :: "bool \<Rightarrow> bool \<Rightarrow> bool \<Rightarrow> (startup_call \<Rightarrow> int) \<Rightarrow> bool \<times> startup_call list" where
  "mouse_main_start asserts security settings ret =
     (let (err, made) =
            first_error (asserted asserts ret) ((if security then [Auth_Register, Auth_Info_Register] else []) @ [Hids_Init, Bt_Enable])
      in if err \<noteq> 0 then (False, made)
         else (True, made @ [Work_Init] @ (if settings then [Settings_Load] else []) @ [Advertise, Buttons_Init]))"

section \<open>Start-up\<close>

text \<open>The calls of a start-up in which nothing fails.\<close>

definition quick_start_calls :: "u8 list \<Rightarrow> bool \<Rightarrow> bool \<Rightarrow> startup_call list" where
  "quick_start_calls msg security settings =
     [Leds_Init, Buttons_Init, Nfc_Setup, Uri_Encode, Payload_Set msg, Emulation_Start] @
     (if security then [Auth_Register, Auth_Info_Register] else []) @ [Bt_Enable] @
     (if settings then [Settings_Load] else []) @ [Lbs_Init, Work_Init, Advertise]"

lemma first_error_append:
  "first_error ret (as @ bs) =
     (let (r, made) = first_error ret as
      in if r \<noteq> 0 then (r, made) else let (r', made') = first_error ret bs in (r', made @ made'))"
  by (induction as) (auto split: prod.splits)

lemma first_error_cong:
  "(\<And>c. c \<in> set cs \<Longrightarrow> ret c = ret' c) \<Longrightarrow> first_error ret cs = first_error ret' cs"
  by (induction cs) auto

text \<open>The demo makes the calls of the list until one of those it checks fails.\<close>

definition checked :: "int \<Rightarrow> (startup_call \<Rightarrow> int) \<Rightarrow> startup_call \<Rightarrow> int" where
  "checked err ret c =
     (if c = Uri_Encode then err else if c \<in> {Settings_Load, Work_Init, Advertise} then 0 else ret c)"

lemma quick_start_calls_made:
  assumes "enc m_url NDEF_MSG_BUF_SIZE = (err, msg)"
  shows "snd (quick_start_main enc security settings ret) =
    snd (first_error (checked err ret) (quick_start_calls msg security settings))"
proof -
  let ?A = "[Leds_Init, Buttons_Init, Nfc_Setup]"
  let ?B = "[Payload_Set msg, Emulation_Start] @ (if security then [Auth_Register, Auth_Info_Register] else []) @ [Bt_Enable]"
  let ?C = "(if settings then [Settings_Load] else []) @ [Lbs_Init, Work_Init, Advertise]"
  have calls: "quick_start_calls msg security settings = ?A @ [Uri_Encode] @ ?B @ ?C"
    by (simp add: quick_start_calls_def)
  obtain r1 m1 r2 m2 where 1: "first_error ret ?A = (r1, m1)" and 2: "first_error ret ?B = (r2, m2)"
    by (metis surj_pair)
  have e1: "first_error (checked err ret) ?A = (r1, m1)"
    by (subst 1 [symmetric]) (rule first_error_cong, auto simp: checked_def)
  have e2: "first_error (checked err ret) ?B = (r2, m2)"
    by (subst 2 [symmetric]) (rule first_error_cong, auto simp: checked_def split: if_splits)
  have 3: "snd (first_error (checked err ret) ?C) =
      (if settings then [Settings_Load] else []) @ [Lbs_Init] @ (if ret Lbs_Init \<noteq> 0 then [] else [Work_Init, Advertise])"
    by (simp add: checked_def)
  obtain r3 m3 where c3: "first_error (checked err ret) ?C = (r3, m3)"
    by fastforce
  have u: "first_error (checked err ret) [Uri_Encode] = (err, [Uri_Encode])"
    by (simp add: checked_def)
  have "snd (quick_start_main enc security settings ret) =
      (if r1 \<noteq> 0 then m1 else if err \<noteq> 0 then m1 @ [Uri_Encode] else if r2 \<noteq> 0 then m1 @ [Uri_Encode] @ m2
       else m1 @ [Uri_Encode] @ m2 @ m3)"
    using 3 c3 unfolding quick_start_main_def assms Let_def prod.case 1 2 by simp
  then show ?thesis
    unfolding calls first_error_append [of _ ?A] first_error_append [of _ "[Uri_Encode]"]
      first_error_append [of _ ?B] e1 e2 u c3 Let_def prod.case by simp
qed

lemma advertise_in_made:
  "Advertise \<in> set (snd (first_error (checked err ret) (quick_start_calls msg security settings))) \<longleftrightarrow>
   fst (first_error (checked err ret) (quick_start_calls msg security settings)) = 0"
proof -
  let ?D = "[Leds_Init, Buttons_Init, Nfc_Setup, Uri_Encode, Payload_Set msg, Emulation_Start] @
     (if security then [Auth_Register, Auth_Info_Register] else []) @ [Bt_Enable] @
     (if settings then [Settings_Load] else []) @ [Lbs_Init, Work_Init]"
  have calls: "quick_start_calls msg security settings = ?D @ [Advertise]"
    by (simp add: quick_start_calls_def)
  obtain r m where d: "first_error (checked err ret) ?D = (r, m)"
    by fastforce
  have "set m \<subseteq> set ?D"
    using first_error_prefix [of "checked err ret" ?D] d by (metis set_take_subset snd_conv)
  then have "Advertise \<notin> set m"
    by (auto split: if_splits)
  then show ?thesis
    unfolding calls first_error_append d by (simp add: checked_def)
qed

text \<open>
  The demo advertises exactly if every call it checks succeeds; then it has made all its
  calls, in order and once, with the message the encoder built.
\<close>

theorem quick_start_advertises:
  assumes "enc m_url NDEF_MSG_BUF_SIZE = (err, msg)"
  shows "Advertise \<in> set (snd (quick_start_main enc security settings ret)) \<longleftrightarrow>
      (\<forall>c\<in>set (quick_start_calls msg security settings). checked err ret c = 0)"
    and "Advertise \<in> set (snd (quick_start_main enc security settings ret)) \<Longrightarrow>
      snd (quick_start_main enc security settings ret) = quick_start_calls msg security settings"
  by (simp_all add: quick_start_calls_made [of enc, OF assms] advertise_in_made first_error_ok first_error_all)

text \<open>
  The keyboard advertises before its pairing work item is initialised, the mouse after.
\<close>

theorem keyboard_advertises_before_work:
  "fst (keyboard_main_start asserts settings ret) \<Longrightarrow>
     Work_Init \<notin> set (takeWhile (\<lambda>c. c \<noteq> Advertise) (snd (keyboard_main_start asserts settings ret)))"
  "fst (mouse_main_start asserts security settings ret) \<Longrightarrow>
     Work_Init \<in> set (takeWhile (\<lambda>c. c \<noteq> Advertise) (snd (mouse_main_start asserts security settings ret)))"
  by (auto simp: keyboard_main_start_def mouse_main_start_def asserted_def split: if_splits)

section \<open>The LED-button service\<close>

datatype qs_call = Set_Led bool | Send_Button u32 | Adv_Submit | Adv_Start

record quick_start =
  qs_button_state :: bool
  qs_calls :: "qs_call list"

definition qs_called :: "qs_call \<Rightarrow> quick_start \<Rightarrow> quick_start" where
  "qs_called c s = s\<lparr>qs_calls := qs_calls s @ [c]\<rparr>"

definition app_led_cb :: "bool \<Rightarrow> quick_start \<Rightarrow> quick_start" where
  [op_defs]: "app_led_cb led_state s = qs_called (Set_Led led_state) s"

definition app_button_cb :: "quick_start \<Rightarrow> bool" where
  [op_defs]: "app_button_cb s = qs_button_state s"

definition qs_button_changed :: "u32 \<Rightarrow> u32 \<Rightarrow> quick_start \<Rightarrow> quick_start" where
  [op_defs]: "qs_button_changed button_state has_changed s =
     (if has_changed AND USER_BUTTON \<noteq> 0 then
        (let user_button_state = button_state AND USER_BUTTON
         in (qs_called (Send_Button user_button_state) s)\<lparr>qs_button_state := user_button_state \<noteq> 0\<rparr>)
      else s)"

definition qs_advertising_start :: "quick_start \<Rightarrow> quick_start" where
  [op_defs]: "qs_advertising_start s = qs_called Adv_Submit s"

definition recycled_cb :: "quick_start \<Rightarrow> quick_start" where
  [op_defs]: "recycled_cb s = qs_advertising_start s"

definition adv_work_handler :: "quick_start \<Rightarrow> quick_start" where
  [op_defs]: "adv_work_handler s = qs_called Adv_Start s"

datatype qs_event = Button u32 u32 | Led_Write bool | Recycled | Adv_Work

fun qs_step :: "qs_event \<Rightarrow> quick_start \<Rightarrow> quick_start" where
  "qs_step (Button st ch) s = qs_button_changed st ch s"
| "qs_step (Led_Write b) s = app_led_cb b s"
| "qs_step Recycled s = recycled_cb s"
| "qs_step Adv_Work s = adv_work_handler s"

fun sent_states :: "qs_call list \<Rightarrow> u32 list" where
  "sent_states [] = []"
| "sent_states (Send_Button v # cs) = v # sent_states cs"
| "sent_states (_ # cs) = sent_states cs"

lemma sent_append [simp]: "sent_states (cs @ ds) = sent_states cs @ sent_states ds"
  by (induction cs rule: sent_states.induct) simp_all

text \<open>
  A client that reads the button is told what the last notification said, or that it is
  not pressed when there was none; notifications carry 0 or 1.
\<close>

theorem button_read_agrees:
  assumes "\<not> qs_button_state s" "qs_calls s = []"
  shows "app_button_cb (fold qs_step es s) = (sent_states (qs_calls (fold qs_step es s)) \<noteq> [] \<and>
      last (sent_states (qs_calls (fold qs_step es s))) = 1) \<and>
    set (sent_states (qs_calls (fold qs_step es s))) \<subseteq> {0, 1}"
proof (induction es rule: rev_induct)
  case Nil
  then show ?case using assms by (simp add: app_button_cb_def)
next
  case (snoc e es)
  have "st AND (1 :: u32) = 0 \<or> st AND 1 = 1" for st
    by (simp add: and_one_eq mod_2_eq_odd)
  then have "button_state AND (1 :: u32) \<noteq> 0 \<Longrightarrow> button_state AND 1 = 1" for button_state
    by blast
  then show ?case
    using snoc by (cases e) (auto simp: qs_button_changed_def app_led_cb_def recycled_cb_def qs_advertising_start_def
        adv_work_handler_def app_button_cb_def qs_called_def USER_BUTTON_def Let_def)
qed

end
