(* ===== verification/Release_Receiver.thy ===== *)
theory Release_Receiver
  imports Spis_Worker
begin

text \<open>
  What \<open>releases/20261014/single_channel\<close> changes in the receiver:
  \<open>fpga_transport_service\<close> looks for a pending record before it copies the queue head,
  and \<open>spis_worker\<close> receives requests in a buffer of the size of a response, with five
  more counters. The rest of the two files is the text of the applications.

  Then the two workers against the master on the bus, transaction by transaction. A
  transaction is what the master clocks out; the peripheral reports the bytes it
  received, which its buffer caps (the comment at \<open>request_rx\<close> states it).
\<close>

section \<open>The service loop\<close>

definition release_service_pass ::
  "rx_config \<Rightarrow> clock_input \<Rightarrow> nat \<Rightarrow> rx_core \<Rightarrow> (int + nat) \<times> rx_core" where
  "release_service_pass cfg ci processed s =
     (let (sp, w) = s
      in if RF_LINK_FPGA_SPIS cfg \<and> fpga_spi_transport_pending sp then (Inl (int processed), s)
         else
           case frame_queue_peek False (queue_of w) of
             Inl _ \<Rightarrow> (Inl (int processed), s)
           | Inr source \<Rightarrow>
               let w1 = map_transport (\<lambda>t. t\<lparr>pending_extended_frame_seq :=
                          rec_extended_frame_seq source\<rparr>) w
               in case fpga_transport_build_record cfg (Some source)
                         (next_transport_seq (cl_transport w1)) False of
                    Inl e \<Rightarrow> (Inl e, sp, w1)
                  | Inr r \<Rightarrow>
                      let (ret, sp2, w2) = backend_submit cfg r (sp, w1)
                      in if ret \<noteq> 0 then (Inl ret, sp2, map_transport (count_submit_error ret) w2)
                         else
                           let w3 = count_submitted cfg ci w2
                           in if RF_LINK_FPGA_SPIS cfg then (Inl (int (processed + 1)), sp2, w3)
                              else
                                let (ret', s4) =
                                      release_record (rec_extended_frame_seq source) False (sp2, w3)
                                in (if ret' \<noteq> 0 then Inl ret' else Inr (processed + 1), s4))"

text \<open>Uninterrupted, the new order makes no difference.\<close>

lemma release_service_pass_eq: "release_service_pass cfg ci n s = service_pass cfg ci n s"
  by (cases s) (simp add: release_service_pass_def service_pass_def split: sum.split)

function release_service_loop ::
  "rx_config \<Rightarrow> (nat \<Rightarrow> clock_input) \<Rightarrow> nat \<Rightarrow> rx_core \<Rightarrow> int \<times> rx_core" where
  "release_service_loop cfg clk processed s =
     (case release_service_pass cfg (clk processed) processed s of
        (Inl result, s') \<Rightarrow> (result, s')
      | (Inr processed', s') \<Rightarrow> release_service_loop cfg clk processed' s')"
  by pat_completeness auto

termination
  by (relation "measure (\<lambda>(cfg, clk, n, s). record_count (queue_of (snd s)))")
    (simp, metis (no_types, lifting) case_prod_conv in_measure service_pass_decreases release_service_pass_eq)

declare release_service_loop.simps [simp del]

definition release_transport_service ::
  "rx_config \<Rightarrow> (nat \<Rightarrow> clock_input) \<Rightarrow> int \<Rightarrow> rx_core \<Rightarrow> int \<times> rx_core" where
  "release_transport_service cfg clk lock_ret s =
     (if lock_ret \<noteq> 0 then (lock_ret, s)
      else if \<not> transport_initialized (cl_transport (snd s)) \<or> \<not> backend_is_ready cfg (cl_backend (snd s))
      then (- EAGAIN, s)
      else release_service_loop cfg clk 0 s)"

lemma release_service_loop_eq: "release_service_loop cfg clk n s = service_loop cfg clk n s"
proof (induction cfg clk n s rule: release_service_loop.induct)
  case (1 cfg clk n s)
  then show ?case
    by (subst release_service_loop.simps, subst service_loop.simps)
      (auto simp: release_service_pass_eq split: prod.split sum.split)
qed

theorem release_service_same:
  "release_transport_service cfg clk lock_ret s = fpga_transport_service cfg clk lock_ret s"
  by (simp add: release_transport_service_def fpga_transport_service_def release_service_loop_eq)

section \<open>The worker of the release\<close>

record spis_physical =
  request_length_errors :: u32
  response_length_errors :: u32
  recovery_discards :: u32
  last_bad_request_length :: u32
  last_bad_response_length :: u32

text \<open>
  The two halves of a pass, one per \<open>spi_transceive\<close>. The first yields the response to
  arm, unless the pass ends there.
\<close>

definition answer_request :: "rx_config \<Rightarrow> worker_io \<Rightarrow> rx_core \<Rightarrow> fpga_response \<times> rx_core" where
  "answer_request cfg io s =
     (let command = fpga_command_of_bytes (io_request_bytes io);
          (resp, s1) =
            (if \<not> request_reserved_valid command
             then (zero_response\<lparr>resp_status := word_of_int (- EBADMSG)\<rparr>, inc_parser_errors s)
             else worker_execute cfg io command s)
      in (resp, worker_update_drdy s1))"

definition worker_request :: "rx_config \<Rightarrow> worker_io \<Rightarrow> rx_core \<Rightarrow> fpga_response option \<times> rx_core" where
  "worker_request cfg io s =
     (if io_request_result io < 0 then (None, inc_spi_errors s)
      else
        let s1 = inc_requests s
        in if io_request_result io \<noteq> int FPGA_SPI_REQUEST_SIZE then (None, inc_short s1)
           else let (resp, s2) = answer_request cfg io s1 in (Some resp, s2))"

definition worker_response :: "int \<Rightarrow> rx_core \<Rightarrow> rx_core" where
  "worker_response ret s =
     (if ret < 0 then inc_spi_errors s
      else
        let s1 = inc_responses s
        in if ret \<noteq> int FPGA_SPI_RESPONSE_SIZE then inc_short s1 else s1)"

definition release_request ::
  "rx_config \<Rightarrow> worker_io \<Rightarrow> rx_core \<times> spis_physical \<Rightarrow> fpga_response option \<times> rx_core \<times> spis_physical" where
  "release_request cfg io sp =
     (let (s, p) = sp
      in if io_request_result io < 0 then (None, inc_spi_errors s, p)
         else
           let s1 = inc_requests s
           in if io_request_result io \<noteq> int FPGA_SPI_REQUEST_SIZE then
                (let p1 = p\<lparr>request_length_errors := request_length_errors p + 1\<rparr>;
                     p2 = (if io_request_result io = int FPGA_SPI_RESPONSE_SIZE
                           then p1\<lparr>recovery_discards := recovery_discards p1 + 1\<rparr> else p1)
                 in (None, inc_short s1, p2\<lparr>last_bad_request_length := word_of_int (io_request_result io)\<rparr>))
              else let (resp, s2) = answer_request cfg io s1 in (Some resp, s2, p))"

definition release_response :: "int \<Rightarrow> rx_core \<times> spis_physical \<Rightarrow> rx_core \<times> spis_physical" where
  "release_response ret sp =
     (let (s, p) = sp
      in if ret < 0 then (inc_spi_errors s, p)
         else
           let s1 = inc_responses s
           in if ret \<noteq> int FPGA_SPI_RESPONSE_SIZE then
                (inc_short s1, p\<lparr>response_length_errors := response_length_errors p + 1,
                                 last_bad_response_length := word_of_int ret\<rparr>)
              else (s1, p))"

definition release_worker_pass ::
  "rx_config \<Rightarrow> worker_io \<Rightarrow> rx_core \<times> spis_physical \<Rightarrow> fpga_response option \<times> rx_core \<times> spis_physical" where
  "release_worker_pass cfg io sp =
     (case release_request cfg io sp of
        (None, sp1) \<Rightarrow> (None, sp1)
      | (Some resp, sp1) \<Rightarrow> (Some resp, release_response (io_response_result io) sp1))"

lemma worker_pass_halves:
  "worker_pass cfg io s =
     (case worker_request cfg io s of
        (None, s1) \<Rightarrow> (None, s1)
      | (Some resp, s1) \<Rightarrow> (Some resp, worker_response (io_response_result io) s1))"
  by (simp add: worker_pass_def worker_request_def worker_response_def answer_request_def Let_def split: prod.split)

text \<open>
  With the same transfers the release does what the applications do: the counters it
  adds are only written.
\<close>

lemma release_request_core: "fst (snd (release_request cfg io (s, p))) = snd (worker_request cfg io s)"
    "fst (release_request cfg io (s, p)) = fst (worker_request cfg io s)"
  by (simp_all add: release_request_def worker_request_def Let_def split: prod.split)

lemma release_response_core: "fst (release_response ret (s, p)) = worker_response ret s"
  by (simp add: release_response_def worker_response_def Let_def)

theorem release_worker_refines:
  "(fst (release_worker_pass cfg io (s, p)), fst (snd (release_worker_pass cfg io (s, p)))) = worker_pass cfg io s"
  using release_request_core [of cfg io s p] release_response_core
  by (auto simp: release_worker_pass_def worker_pass_halves split: prod.split option.split) 

section \<open>Transactions\<close>

text \<open>
  The peripheral between transactions: the response it has armed, if it awaits the
  response phase; the requests it took; the responses the master has read in full.
\<close>

record 's spis_bus =
  bus_armed :: "fpga_response option"
  bus_state :: 's
  bus_taken :: "u8 list list"
  bus_read :: "fpga_response list"

definition transaction ::
  "nat \<Rightarrow> (worker_io \<Rightarrow> 's \<Rightarrow> fpga_response option \<times> 's) \<Rightarrow> (int \<Rightarrow> 's \<Rightarrow> 's) \<Rightarrow> worker_io \<Rightarrow> u8 list \<Rightarrow>
   's spis_bus \<Rightarrow> 's spis_bus" where
  "transaction request_size req rsp io mosi b =
     (case bus_armed b of
        None \<Rightarrow>
          let bytes = take request_size mosi;
              (resp, s) = req (io\<lparr>io_request_result := int (length bytes), io_request_bytes := bytes\<rparr>) (bus_state b)
          in b\<lparr>bus_state := s, bus_armed := resp,
               bus_taken := (if resp = None then bus_taken b else bus_taken b @ [bytes])\<rparr>
      | Some resp \<Rightarrow>
          let n = min (length mosi) FPGA_SPI_RESPONSE_SIZE
          in b\<lparr>bus_state := rsp (int n) (bus_state b), bus_armed := None,
               bus_read := (if n = FPGA_SPI_RESPONSE_SIZE then bus_read b @ [resp] else bus_read b)\<rparr>)"

text \<open>An exchange of the master: a request, and the clocks that fetch the response.\<close>

record exchange =
  ex_io :: worker_io
  ex_request :: "u8 list"
  ex_clocks :: "u8 list"

definition wf_exchange :: "exchange \<Rightarrow> bool" where
  "wf_exchange x \<longleftrightarrow> length (ex_request x) = FPGA_SPI_REQUEST_SIZE \<and> length (ex_clocks x) = FPGA_SPI_RESPONSE_SIZE"

definition app_transaction :: "rx_config \<Rightarrow> worker_io \<Rightarrow> u8 list \<Rightarrow> rx_core spis_bus \<Rightarrow> rx_core spis_bus" where
  "app_transaction cfg = transaction FPGA_SPI_REQUEST_SIZE (worker_request cfg) worker_response"

definition release_transaction ::
  "rx_config \<Rightarrow> worker_io \<Rightarrow> u8 list \<Rightarrow> (rx_core \<times> spis_physical) spis_bus \<Rightarrow> (rx_core \<times> spis_physical) spis_bus" where
  "release_transaction cfg = transaction FPGA_SPI_RESPONSE_SIZE (release_request cfg) release_response"

definition run_exchanges ::
  "(worker_io \<Rightarrow> u8 list \<Rightarrow> 's spis_bus \<Rightarrow> 's spis_bus) \<Rightarrow> exchange list \<Rightarrow> 's spis_bus \<Rightarrow> 's spis_bus" where
  "run_exchanges tr xs b = fold (\<lambda>x b. tr (ex_io x) (ex_clocks x) (tr (ex_io x) (ex_request x) b)) xs b"

text \<open>What the proofs need of a worker: a request is answered exactly if it has the right length.\<close>

locale spis_worker =
  fixes req :: "worker_io \<Rightarrow> 's \<Rightarrow> fpga_response option \<times> 's" and rsp :: "int \<Rightarrow> 's \<Rightarrow> 's" and size :: nat
  assumes answers: "(fst (req io s) \<noteq> None) = (io_request_result io = int FPGA_SPI_REQUEST_SIZE)"
    and size: "FPGA_SPI_REQUEST_SIZE \<le> size"
begin

lemma taken:
  "length (take size mosi) = FPGA_SPI_REQUEST_SIZE \<Longrightarrow> bus_armed b = None \<Longrightarrow>
    bus_armed (transaction size req rsp io mosi b) \<noteq> None \<and>
    bus_taken (transaction size req rsp io mosi b) = bus_taken b @ [take size mosi] \<and>
    bus_read (transaction size req rsp io mosi b) = bus_read b"
  using answers [of "io\<lparr>io_request_result := int (length (take size mosi)), io_request_bytes := take size mosi\<rparr>" "bus_state b"]
  by (simp add: transaction_def Let_def split_beta)

lemma refused:
  "length (take size mosi) \<noteq> FPGA_SPI_REQUEST_SIZE \<Longrightarrow> bus_armed b = None \<Longrightarrow>
    bus_armed (transaction size req rsp io mosi b) = None \<and>
    bus_taken (transaction size req rsp io mosi b) = bus_taken b \<and>
    bus_read (transaction size req rsp io mosi b) = bus_read b"
  using answers [of "io\<lparr>io_request_result := int (length (take size mosi)), io_request_bytes := take size mosi\<rparr>" "bus_state b"]
  by (simp add: transaction_def Let_def split_beta)

lemma fetched:
  "bus_armed b = Some resp \<Longrightarrow> bus_armed (transaction size req rsp io mosi b) = None \<and>
    bus_taken (transaction size req rsp io mosi b) = bus_taken b \<and>
    bus_read (transaction size req rsp io mosi b) =
      (if FPGA_SPI_RESPONSE_SIZE \<le> length mosi then bus_read b @ [resp] else bus_read b)"
  by (simp add: transaction_def Let_def)

end

lemma worker_answers: "(fst (worker_request cfg io s) \<noteq> None) = (io_request_result io = int FPGA_SPI_REQUEST_SIZE)"
  by (simp add: worker_request_def FPGA_SPI_REQUEST_SIZE_def Let_def split: prod.split)

interpretation app: spis_worker "worker_request cfg" worker_response FPGA_SPI_REQUEST_SIZE for cfg
  by unfold_locales (simp_all only: worker_answers order_refl)

interpretation rel: spis_worker "release_request cfg" release_response FPGA_SPI_RESPONSE_SIZE for cfg
  by unfold_locales
    (metis prod.collapse release_request_core(2) worker_answers, simp add: FPGA_SPI_REQUEST_SIZE_def FPGA_SPI_RESPONSE_SIZE_def)

lemmas spi_sizes = FPGA_SPI_REQUEST_SIZE_def FPGA_SPI_RESPONSE_SIZE_def

lemma release_exchange:
  fixes b :: "(rx_core \<times> spis_physical) spis_bus" and cfg :: rx_config
  assumes "wf_exchange x"
  defines "b' \<equiv> run_exchanges (release_transaction (cfg :: rx_config)) [x] b"
  shows "bus_armed b' = None"
    "bus_taken b' = bus_taken b @ (if bus_armed b = None then [ex_request x] else [])"
    "length (bus_read b') = length (bus_read b) + (if bus_armed b = None then 1 else 0)"
proof -
  let ?b1 = "release_transaction cfg (ex_io x) (ex_request x) b"
  have b': "b' = release_transaction cfg (ex_io x) (ex_clocks x) ?b1"
    by (simp add: b'_def run_exchanges_def)
  have len: "length (ex_request x) = 8" "length (ex_clocks x) = 260"
    using assms(1) by (simp_all add: wf_exchange_def spi_sizes)
  have "bus_armed b' = None \<and> bus_taken b' = bus_taken b @ (if bus_armed b = None then [ex_request x] else []) \<and>
      length (bus_read b') = length (bus_read b) + (if bus_armed b = None then 1 else 0)"
  proof (cases "bus_armed b")
    case None
    have 1: "bus_armed ?b1 \<noteq> None \<and> bus_taken ?b1 = bus_taken b @ [ex_request x] \<and> bus_read ?b1 = bus_read b"
      using rel.taken [of "ex_request x" b cfg "ex_io x"] len None by (simp add: release_transaction_def spi_sizes)
    then obtain resp where "bus_armed ?b1 = Some resp"
      by blast
    then show ?thesis
      using rel.fetched [of ?b1 resp cfg "ex_io x" "ex_clocks x"] 1 len None b'
      by (simp add: release_transaction_def spi_sizes)
  next
    case (Some resp)
    have 1: "bus_armed ?b1 = None \<and> bus_taken ?b1 = bus_taken b \<and> bus_read ?b1 = bus_read b"
      using rel.fetched [OF Some, of cfg "ex_io x" "ex_request x"] len by (simp add: release_transaction_def spi_sizes)
    then show ?thesis
      using rel.refused [of "ex_clocks x" ?b1 cfg "ex_io x"] len Some b'
      by (simp add: release_transaction_def spi_sizes)
  qed
  then show "bus_armed b' = None" "bus_taken b' = bus_taken b @ (if bus_armed b = None then [ex_request x] else [])"
    "length (bus_read b') = length (bus_read b) + (if bus_armed b = None then 1 else 0)"
    by blast+
qed

lemma run_exchanges_Cons: "run_exchanges tr (x # xs) b = run_exchanges tr xs (run_exchanges tr [x] b)"
  by (simp add: run_exchanges_def)

text \<open>
  C22. The worker of the release finds back into step. Whichever half of a pass it is in when
  the master begins, from the second exchange on every request is taken, every
  response is read in full, and nothing else is ever taken for a request; a single
  transaction of 260 bytes brings it back to awaiting a request, from either half.
\<close>

theorem release_resyncs:
  assumes "\<forall>x\<in>set xs. wf_exchange x" "length clocks = FPGA_SPI_RESPONSE_SIZE"
  shows "bus_taken (run_exchanges (release_transaction cfg) xs b) =
      bus_taken b @ map ex_request (if bus_armed b = None then xs else tl xs) \<and>
    length (bus_read (run_exchanges (release_transaction cfg) xs b)) =
      length (bus_read b) + length (if bus_armed b = None then xs else tl xs) \<and>
    bus_armed (release_transaction cfg io clocks b) = None \<and>
    bus_taken (release_transaction cfg io clocks b) = bus_taken b"
proof -
  have insync: "bus_taken (run_exchanges (release_transaction cfg) xs b) = bus_taken b @ map ex_request xs \<and>
      length (bus_read (run_exchanges (release_transaction cfg) xs b)) = length (bus_read b) + length xs"
    if "bus_armed b = None" "\<forall>x\<in>set xs. wf_exchange x" for xs and b :: "(rx_core \<times> spis_physical) spis_bus"
    using that
  proof (induction xs arbitrary: b)
    case (Cons x xs)
    then show ?case
      using release_exchange [of x cfg b] Cons.IH [of "run_exchanges (release_transaction cfg) [x] b"]
      by (simp add: run_exchanges_Cons [of _ x xs])
  qed (simp add: run_exchanges_def)
  have "bus_taken (run_exchanges (release_transaction cfg) xs b) =
      bus_taken b @ map ex_request (if bus_armed b = None then xs else tl xs) \<and>
    length (bus_read (run_exchanges (release_transaction cfg) xs b)) =
      length (bus_read b) + length (if bus_armed b = None then xs else tl xs)"
  proof (cases "bus_armed b = None \<or> xs = []")
    case True
    then show ?thesis
      using insync [of b xs] assms(1) by (auto simp: run_exchanges_def)
  next
    case False
    then obtain x ys where xs: "xs = x # ys" by (cases xs) auto
    show ?thesis
      using release_exchange [of x cfg b] insync [of "run_exchanges (release_transaction cfg) [x] b" ys] False assms(1)
      by (simp add: xs run_exchanges_Cons [of _ x ys])
  qed
  moreover have "bus_armed (release_transaction cfg io clocks b) = None \<and>
      bus_taken (release_transaction cfg io clocks b) = bus_taken b"
  proof (cases "bus_armed b")
    case None
    then show ?thesis
      using rel.refused [of clocks b cfg io] assms(2) by (simp add: release_transaction_def spi_sizes)
  next
    case (Some resp)
    then show ?thesis
      using rel.fetched [OF Some, of cfg io clocks] by (simp add: release_transaction_def)
  qed
  ultimately show ?thesis by blast
qed

text \<open>
  C23. The worker of the applications does not: its request buffer has eight bytes, so that the
  260 clocks of a response look like a request. Once it awaits the response phase when
  the master sends a request, it never takes a request of the master's again; it takes
  the first bytes the master shifts out while it reads, and no response is read in full.
\<close>

theorem app_phase_lost:
  assumes "\<forall>x\<in>set xs. wf_exchange x" "bus_armed b \<noteq> None"
  shows "bus_taken (run_exchanges (app_transaction cfg) xs b) = bus_taken b @ map (take 8 \<circ> ex_clocks) xs \<and>
    bus_read (run_exchanges (app_transaction cfg) xs b) = bus_read b \<and>
    bus_armed (run_exchanges (app_transaction cfg) xs b) \<noteq> None"
  using assms
proof (induction xs arbitrary: b)
  case (Cons x xs)
  let ?b1 = "app_transaction cfg (ex_io x) (ex_request x) b"
  let ?b2 = "app_transaction cfg (ex_io x) (ex_clocks x) ?b1"
  have len: "length (ex_request x) = 8" "length (ex_clocks x) = 260"
    using Cons.prems(1) by (simp_all add: wf_exchange_def spi_sizes)
  obtain resp where "bus_armed b = Some resp"
    using Cons.prems(2) by blast
  then have 1: "bus_armed ?b1 = None \<and> bus_taken ?b1 = bus_taken b \<and> bus_read ?b1 = bus_read b"
    using app.fetched [of b resp cfg "ex_io x" "ex_request x"] len by (simp add: app_transaction_def spi_sizes)
  then have "bus_armed ?b2 \<noteq> None \<and> bus_taken ?b2 = bus_taken b @ [take 8 (ex_clocks x)] \<and> bus_read ?b2 = bus_read b"
    using app.taken [of "ex_clocks x" ?b1 cfg "ex_io x"] len by (simp add: app_transaction_def spi_sizes)
  then show ?case
    using Cons.IH [of ?b2] Cons.prems(1) by (simp add: run_exchanges_def)
qed (simp add: run_exchanges_def)

section \<open>Witnesses\<close>

definition sample_exchange :: exchange where
  "sample_exchange = \<lparr>ex_io = sample_io [], ex_request = request_bytes 1 0, ex_clocks = replicate 260 0\<rparr>"

definition sample_bus :: "'s \<Rightarrow> 's spis_bus" where
  "sample_bus s = \<lparr>bus_armed = Some zero_response, bus_state = s, bus_taken = [], bus_read = []\<rparr>"

definition zero_physical :: spis_physical where
  "zero_physical = \<lparr>request_length_errors = 0, response_length_errors = 0, recovery_discards = 0,
     last_bad_request_length = 0, last_bad_response_length = 0\<rparr>"

lemma sample_exchange_wf: "wf_exchange sample_exchange"
  by (simp add: wf_exchange_def sample_exchange_def request_bytes_def fpga_command_bytes_def spi_sizes)

lemma release_resyncs_witness:
  "bus_taken (run_exchanges (release_transaction (ch0_spis_conf sum16 sum32)) [sample_exchange, sample_exchange]
     (sample_bus (staged_start, zero_physical))) = [request_bytes 1 0]"
  using release_resyncs [of "[sample_exchange, sample_exchange]" "replicate 260 0" "ch0_spis_conf sum16 sum32"
      "sample_bus (staged_start, zero_physical)" "sample_io []"]
  by (simp add: sample_exchange_wf sample_bus_def spi_sizes) (simp add: sample_exchange_def)

lemma app_phase_lost_witness:
  "bus_taken (run_exchanges (app_transaction (ch0_spis_conf sum16 sum32)) [sample_exchange, sample_exchange]
     (sample_bus staged_start)) = [replicate 8 0, replicate 8 0]"
  using app_phase_lost [of "[sample_exchange, sample_exchange]" "sample_bus staged_start" "ch0_spis_conf sum16 sum32"]
  by (simp add: sample_exchange_wf) (simp add: sample_bus_def sample_exchange_def)

end
