(* ===== verification/Cs_Window.thy ===== *)
theory Cs_Window
  imports Prelude "HOL-Library.Multiset"
begin

text \<open>
  \<open>samples/bluetooth/channel_sounding_ras_initiator/src/main.c\<close>, the distance estimates:
  a ring of nine entries per antenna path, in which a report of good quality makes one
  entry for each of its good paths, and the median of the finite values of each estimate. A float is an element of an ordered type, \<open>None\<close> one that is not
  finite; \<open>mean\<close> is the float expression \<open>(a + b) / 2\<close>. The number of antenna paths is the
  length of the buffer.
\<close>

definition DE_SLIDING_WINDOW_SIZE :: nat where "DE_SLIDING_WINDOW_SIZE = 9"

record 'a dist_estimates =
  de_ifft :: "'a option"
  de_phase_slope :: "'a option"
  de_rtt :: "'a option"

record 'a cs_de_report =
  rp_n_ap :: nat
  rp_tone_ok :: "bool list"
  rp_estimates :: "'a dist_estimates list"

record 'a distance_window =
  buffer_index :: nat
  buffer_num_valid :: nat
  distance_estimate_buffer :: "'a dist_estimates list list"

definition no_estimates :: "'a::zero dist_estimates" where
  "no_estimates = \<lparr>de_ifft = Some 0, de_phase_slope = Some 0, de_rtt = Some 0\<rparr>"

definition window_reset :: "nat \<Rightarrow> 'a::zero distance_window" where
  "window_reset max_ap = \<lparr>buffer_index = 0, buffer_num_valid = 0,
     distance_estimate_buffer = replicate max_ap (replicate DE_SLIDING_WINDOW_SIZE no_estimates)\<rparr>"

section \<open>Operations\<close>

definition store_distance_estimates :: "'a cs_de_report \<Rightarrow> 'a distance_window \<Rightarrow> 'a distance_window" where
  [op_defs]: "store_distance_estimates rp w =
     (let buf = fold (\<lambda>ap buf. buf[ap := (buf ! ap)[buffer_index w := rp_estimates rp ! ap]]) [0..<rp_n_ap rp]
                  (distance_estimate_buffer w)
      in w\<lparr>distance_estimate_buffer := buf, buffer_index := (buffer_index w + 1) mod DE_SLIDING_WINDOW_SIZE,
           buffer_num_valid := (if buffer_num_valid w < DE_SLIDING_WINDOW_SIZE then buffer_num_valid w + 1
                                else buffer_num_valid w)\<rparr>)"

definition median_inplace :: "('a \<Rightarrow> 'a \<Rightarrow> 'a) \<Rightarrow> 'a::linorder list \<Rightarrow> 'a option" where
  [op_defs]: "median_inplace mean values =
     (let count = length values; sorted_values = sort values
      in if count = 0 then None
         else if count mod 2 = 0 then Some (mean (sorted_values ! (count div 2)) (sorted_values ! (count div 2 - 1)))
         else Some (sorted_values ! (count div 2)))"

definition get_distance ::
  "('a \<Rightarrow> 'a \<Rightarrow> 'a) \<Rightarrow> nat \<Rightarrow> 'a::linorder distance_window \<Rightarrow> 'a dist_estimates" where
  [op_defs]: "get_distance mean ap w =
     (let valid = take (buffer_num_valid w) (distance_estimate_buffer w ! ap)
      in \<lparr>de_ifft = median_inplace mean (List.map_filter de_ifft valid),
          de_phase_slope = median_inplace mean (List.map_filter de_phase_slope valid),
          de_rtt = median_inplace mean (List.map_filter de_rtt valid)\<rparr>)"

text \<open>The last step of \<open>ranging_data_cb\<close>: the loop over the paths of a report of good quality.\<close>

definition store_good_paths :: "'a cs_de_report \<Rightarrow> 'a distance_window \<Rightarrow> 'a distance_window" where
  [op_defs]: "store_good_paths rp w =
     fold (\<lambda>ap w. if rp_tone_ok rp ! ap then store_distance_estimates rp w else w) [0..<rp_n_ap rp] w"

section \<open>The ring\<close>

definition wf_report :: "nat \<Rightarrow> 'a cs_de_report \<Rightarrow> bool" where
  "wf_report max_ap rp \<longleftrightarrow> rp_n_ap rp \<le> max_ap \<and> length (rp_estimates rp) = rp_n_ap rp \<and> length (rp_tone_ok rp) = rp_n_ap rp"

lemma store_loop:
  "length (fold (\<lambda>ap buf. buf[ap := f ap (buf ! ap)]) [0..<n] buf) = length buf \<and>
   (n \<le> length buf \<longrightarrow> (\<forall>ap < length buf. fold (\<lambda>ap buf. buf[ap := f ap (buf ! ap)]) [0..<n] buf ! ap =
     (if ap < n then f ap (buf ! ap) else buf ! ap)))"
  by (induction n) (auto simp: nth_list_update less_Suc_eq)

lemma store_path:
  assumes "rp_n_ap rp \<le> length (distance_estimate_buffer w)" "ap < rp_n_ap rp"
  shows "distance_estimate_buffer (store_distance_estimates rp w) ! ap =
      (distance_estimate_buffer w ! ap)[buffer_index w := rp_estimates rp ! ap]"
    "length (distance_estimate_buffer (store_distance_estimates rp w)) = length (distance_estimate_buffer w)"
  using store_loop [of "\<lambda>ap slots. slots[buffer_index w := rp_estimates rp ! ap]" "rp_n_ap rp" "distance_estimate_buffer w"] assms
  by (simp_all add: store_distance_estimates_def Let_def)

text \<open>Overwriting the oldest of nine slots drops it from the front and appends the new one.\<close>

lemma ring_step:
  assumes "length buf = 9" "k < 9"
  shows "drop ((k + 1) mod 9) (buf[k := e]) @ take ((k + 1) mod 9) (buf[k := e]) = tl (drop k buf @ take k buf) @ [e]"
proof -
  have d: "drop k buf = buf ! k # drop (Suc k) buf"
    using assms by (simp add: Cons_nth_drop_Suc)
  show ?thesis
  proof (cases "k = 8")
    case True
    then show ?thesis
      using assms d by (simp add: list_update_append upd_conv_take_nth_drop)
  next
    case False
    then have "(k + 1) mod 9 = Suc k"
      using assms by simp
    then show ?thesis
      using assms d by (simp add: take_Suc_conv_app_nth upd_conv_take_nth_drop)
  qed
qed

definition last_reports :: "nat \<Rightarrow> 'b list \<Rightarrow> 'b list" where
  "last_reports n rs = drop (length rs - n) rs"

lemma last_reports_snoc:
  "last_reports 9 (rs @ [r]) = (if length rs < 9 then rs @ [r] else tl (last_reports 9 rs) @ [r])"
proof -
  have "drop (Suc (length rs) - 9) rs = tl (drop (length rs - 9) rs)" if "9 \<le> length rs"
  proof -
    have "Suc (length rs) - 9 = Suc (length rs - 9)"
      using that by simp
    then show ?thesis
      by (simp only: drop_Suc tl_drop)
  qed
  then show ?thesis
    by (simp add: last_reports_def)
qed

text \<open>The ring after a list of stores.\<close>

definition ring_of :: "nat \<Rightarrow> 'a cs_de_report list \<Rightarrow> 'a::zero distance_window" where
  "ring_of max_ap rs = fold store_distance_estimates rs (window_reset max_ap)"

lemma ring_snoc: "ring_of max_ap (rs @ [r]) = store_distance_estimates r (ring_of max_ap rs)"
  by (simp add: ring_of_def)

lemma ring_counters:
  "buffer_index (ring_of max_ap rs) = length rs mod 9 \<and> buffer_num_valid (ring_of max_ap rs) = min 9 (length rs)"
proof (induction rs rule: rev_induct)
  case Nil
  then show ?case by (simp add: ring_of_def window_reset_def)
next
  case (snoc r rs)
  then show ?case
    by (simp add: ring_snoc store_distance_estimates_def DE_SLIDING_WINDOW_SIZE_def Let_def mod_Suc_eq)
qed

lemma ring_slots:
  assumes "\<forall>r\<in>set rs. wf_report max_ap r \<and> ap < rp_n_ap r" "ap < max_ap"
  defines "slots \<equiv> distance_estimate_buffer (ring_of max_ap rs) ! ap"
    and "es \<equiv> map (\<lambda>r. rp_estimates r ! ap) (last_reports 9 rs)"
  shows "length (distance_estimate_buffer (ring_of max_ap rs)) = max_ap" "length slots = 9"
    "if length rs < 9 then take (length rs) slots = es
     else drop (length rs mod 9) slots @ take (length rs mod 9) slots = es"
proof -
  have "length (distance_estimate_buffer (ring_of max_ap rs)) = max_ap \<and>
      length (distance_estimate_buffer (ring_of max_ap rs) ! ap) = 9 \<and>
      (if length rs < 9 then take (length rs) (distance_estimate_buffer (ring_of max_ap rs) ! ap) =
          map (\<lambda>r. rp_estimates r ! ap) (last_reports 9 rs)
       else drop (length rs mod 9) (distance_estimate_buffer (ring_of max_ap rs) ! ap) @
          take (length rs mod 9) (distance_estimate_buffer (ring_of max_ap rs) ! ap) =
          map (\<lambda>r. rp_estimates r ! ap) (last_reports 9 rs))"
    using assms(1)
  proof (induction rs rule: rev_induct)
    case Nil
    then show ?case
      using assms(2) by (simp add: ring_of_def window_reset_def DE_SLIDING_WINDOW_SIZE_def last_reports_def)
  next
    case (snoc r rs)
    let ?w = "ring_of max_ap rs"
    let ?s = "distance_estimate_buffer ?w ! ap"
    have ih: "length (distance_estimate_buffer ?w) = max_ap" "length ?s = 9"
      "if length rs < 9 then take (length rs) ?s = map (\<lambda>r. rp_estimates r ! ap) (last_reports 9 rs)
       else drop (length rs mod 9) ?s @ take (length rs mod 9) ?s = map (\<lambda>r. rp_estimates r ! ap) (last_reports 9 rs)"
      using snoc by simp_all
    have r: "rp_n_ap r \<le> length (distance_estimate_buffer ?w)" "ap < rp_n_ap r"
      using snoc.prems ih(1) by (simp_all add: wf_report_def)
    have new: "distance_estimate_buffer (ring_of max_ap (rs @ [r])) ! ap = ?s[length rs mod 9 := rp_estimates r ! ap]"
      "length (distance_estimate_buffer (ring_of max_ap (rs @ [r]))) = max_ap"
      using store_path [OF r] ring_counters [of max_ap rs] ih(1) by (simp_all add: ring_snoc)
    have few: "last_reports 9 rs = rs" if "length rs < 9"
      using that by (simp add: last_reports_def)
    consider "length rs < 8" | "length rs = 8" | "9 \<le> length rs"
      by linarith
    then show ?case
    proof cases
      case 1
      then show ?thesis
        using ih new few by (simp add: last_reports_snoc take_Suc_conv_app_nth)
    next
      case 2
      have "take 8 ?s = map (\<lambda>r. rp_estimates r ! ap) rs"
        using ih(3) 2 few by simp
      then show ?thesis
        using ih new 2 few by (simp add: last_reports_snoc upd_conv_take_nth_drop)
    next
      case 3
      then show ?thesis
        using ih new ring_step [of ?s "length rs mod 9" "rp_estimates r ! ap"]
        by (simp add: last_reports_snoc map_tl mod_Suc_eq)
    qed
  qed
  then show "length (distance_estimate_buffer (ring_of max_ap rs)) = max_ap" "length slots = 9"
    "if length rs < 9 then take (length rs) slots = es
     else drop (length rs mod 9) slots @ take (length rs mod 9) slots = es"
    by (simp_all add: slots_def es_def)
qed

section \<open>Several antenna paths\<close>

text \<open>
  The loop of \<open>ranging_data_cb\<close> stores the whole report once per good path: with two good
  paths every report counts twice, and the estimates of a bad path are stored with those
  of a good one.
\<close>

definition good_paths :: "'a cs_de_report \<Rightarrow> nat" where
  "good_paths rp = length (filter (\<lambda>b. b) (rp_tone_ok rp))"

theorem report_stored_per_path:
  assumes "wf_report max_ap rp"
  shows "store_good_paths rp w = (store_distance_estimates rp ^^ good_paths rp) w"
proof -
  have "fold (\<lambda>ap w. if ok ! ap then store_distance_estimates rp w else w) [0..<n] w =
      (store_distance_estimates rp ^^ length (filter (\<lambda>b. b) (take n ok))) w" if "n \<le> length ok" for n ok
    using that by (induction n) (simp_all add: take_Suc_conv_app_nth)
  from this [of "rp_n_ap rp" "rp_tone_ok rp"] show ?thesis
    using assms by (simp add: store_good_paths_def wf_report_def good_paths_def)
qed

text \<open>The window after a list of reports of good quality, and what the calls have stored in it.\<close>

definition window_of :: "nat \<Rightarrow> 'a cs_de_report list \<Rightarrow> 'a::zero distance_window" where
  "window_of max_ap rs = fold store_good_paths rs (window_reset max_ap)"

definition window_entries :: "'a cs_de_report list \<Rightarrow> 'a cs_de_report list" where
  "window_entries rs = concat (map (\<lambda>r. replicate (good_paths r) r) rs)"

lemma window_of_ring:
  assumes "\<forall>r\<in>set rs. wf_report max_ap r"
  shows "window_of max_ap rs = ring_of max_ap (window_entries rs)"
proof -
  have "fold store_good_paths rs w = fold store_distance_estimates (window_entries rs) w" for w
    using assms
    by (induction rs arbitrary: w) (simp_all add: window_entries_def report_stored_per_path [of max_ap])
  then show ?thesis
    by (simp add: window_of_def ring_of_def)
qed

section \<open>Medians\<close>

text \<open>
  The value of rank \<open>k\<close>: at most \<open>k\<close> values are smaller, and more than \<open>k\<close> are not larger. A
  median of an odd number of values is the one of the middle rank, of an even number
  the mean of the two of the middle ranks; there is none of no values.
\<close>

definition has_rank :: "nat \<Rightarrow> 'a::linorder list \<Rightarrow> 'a \<Rightarrow> bool" where
  "has_rank k xs x \<longleftrightarrow> length (filter (\<lambda>y. y < x) xs) \<le> k \<and> k < length (filter (\<lambda>y. y \<le> x) xs)"

definition is_median :: "('a \<Rightarrow> 'a \<Rightarrow> 'a) \<Rightarrow> 'a::linorder list \<Rightarrow> 'a option \<Rightarrow> bool" where
  "is_median mean xs r \<longleftrightarrow>
     (if xs = [] then r = None
      else if odd (length xs) then \<exists>m\<in>set xs. has_rank (length xs div 2) xs m \<and> r = Some m
      else \<exists>a\<in>set xs. \<exists>b\<in>set xs. has_rank (length xs div 2) xs a \<and> has_rank (length xs div 2 - 1) xs b \<and>
             r = Some (mean a b))"

lemma has_rank_unique:
  assumes "has_rank k xs x" "has_rank k xs y"
  shows "x = y"
proof -
  have "\<not> a < b" if "has_rank k xs a" "has_rank k xs b" for a b
  proof
    assume "a < b"
    then have "length (filter (\<lambda>z. z \<le> a) xs) \<le> length (filter (\<lambda>z. z < b) xs)"
      by (induction xs) auto
    then show False
      using that by (simp add: has_rank_def)
  qed
  then show ?thesis
    using assms by (metis linorder_neqE)
qed

lemma sorted_has_rank:
  assumes "sorted xs" "k < length xs"
  shows "has_rank k xs (xs ! k)"
proof -
  have low: "filter (\<lambda>y. y < xs ! k) (drop k xs) = []"
    using assms by (auto simp: filter_empty_conv in_set_conv_nth not_less intro!: sorted_nth_mono)
  have "length (filter (\<lambda>y. y < xs ! k) xs) = length (filter (\<lambda>y. y < xs ! k) (take k xs))"
    by (metis append_take_drop_id append_Nil2 filter_append low)
  also have "\<dots> \<le> k"
    by (metis length_filter_le length_take min.bounded_iff)
  finally have below: "length (filter (\<lambda>y. y < xs ! k) xs) \<le> k" .
  have "filter (\<lambda>y. y \<le> xs ! k) (take (Suc k) xs) = take (Suc k) xs"
    using assms by (auto simp: filter_id_conv in_set_conv_nth intro!: sorted_nth_mono)
  then have "Suc k \<le> length (filter (\<lambda>y. y \<le> xs ! k) (take (Suc k) xs))"
    using assms(2) by simp
  also have "\<dots> \<le> length (filter (\<lambda>y. y \<le> xs ! k) xs)"
    by (metis append_take_drop_id filter_append le_add1 length_append)
  finally show ?thesis
    using below by (simp add: has_rank_def)
qed

lemma sort_has_rank:
  assumes "k < length xs"
  shows "has_rank k xs (sort xs ! k)" "sort xs ! k \<in> set xs"
proof -
  have perm: "length (filter P (sort xs)) = length (filter P xs)" for P
    by (metis mset_filter mset_sort size_mset)
  show "has_rank k xs (sort xs ! k)"
    using sorted_has_rank [OF sorted_sort, of k xs] assms by (simp add: has_rank_def perm)
  show "sort xs ! k \<in> set xs"
    using assms by (metis length_sort nth_mem set_sort)
qed

lemma median_inplace_median: "is_median mean xs (median_inplace mean xs)"
proof (cases "xs = []")
  case False
  then have "length xs div 2 < length xs" "length xs div 2 - 1 < length xs"
    by (simp_all add: less_imp_diff_less)
  note ranks = sort_has_rank [OF this(1)] sort_has_rank [OF this(2)]
  show ?thesis
    using False ranks by (auto simp: is_median_def median_inplace_def Let_def even_iff_mod_2_eq_zero)
qed (simp add: is_median_def median_inplace_def)

lemma median_mset:
  assumes "mset xs = mset ys"
  shows "median_inplace mean xs = median_inplace mean ys"
proof -
  have "sort xs = sort ys"
    by (rule properties_for_sort) (simp_all add: assms)
  moreover have "length xs = length ys"
    using assms by (metis size_mset)
  ultimately show ?thesis
    by (simp add: median_inplace_def)
qed

lemma map_filter_mset: "mset xs = mset ys \<Longrightarrow> mset (List.map_filter f xs) = mset (List.map_filter f ys)"
  by (simp add: List.map_filter_def)

lemma median_of_ring:
  "mset xs = mset ys \<Longrightarrow> is_median mean (List.map_filter f ys) (median_inplace mean (List.map_filter f xs))"
  using median_mset [OF map_filter_mset, of xs ys mean f] median_inplace_median [of mean "List.map_filter f ys"]
  by simp

text \<open>The valid part of a path's ring is the last nine entries, in some order.\<close>

lemma ring_last_nine:
  assumes "\<forall>r\<in>set rs. wf_report max_ap r \<and> ap < rp_n_ap r" "ap < max_ap"
  shows "mset (take (buffer_num_valid (ring_of max_ap rs)) (distance_estimate_buffer (ring_of max_ap rs) ! ap)) =
    mset (map (\<lambda>r. rp_estimates r ! ap) (last_reports 9 rs))"
proof -
  let ?s = "distance_estimate_buffer (ring_of max_ap rs) ! ap"
  let ?k = "length rs mod 9"
  note slots = ring_slots [OF assms]
  show ?thesis
  proof (cases "length rs < 9")
    case True
    then show ?thesis using slots ring_counters [of max_ap rs] by simp
  next
    case False
    have "mset ?s = mset (drop ?k ?s @ take ?k ?s)"
      by (metis append_take_drop_id mset_append add.commute)
    then show ?thesis
      using False slots ring_counters [of max_ap rs] by simp
  qed
qed

text \<open>
  C25. The estimates shown for a path are medians: of the values present in the last nine
  entries of the window, or in all of them when there are fewer, where a report of good
  quality makes one entry for each of its antenna paths that is good. Each of the three
  methods has its own median, and none when no entry has a value.
\<close>

theorem distance_is_window_median:
  assumes "\<forall>r\<in>set rs. wf_report max_ap r \<and> ap < rp_n_ap r" "ap < max_ap"
  defines "es \<equiv> map (\<lambda>r. rp_estimates r ! ap) (last_reports DE_SLIDING_WINDOW_SIZE (window_entries rs))"
  shows "is_median mean (List.map_filter de_ifft es) (de_ifft (get_distance mean ap (window_of max_ap rs))) \<and>
    is_median mean (List.map_filter de_phase_slope es) (de_phase_slope (get_distance mean ap (window_of max_ap rs))) \<and>
    is_median mean (List.map_filter de_rtt es) (de_rtt (get_distance mean ap (window_of max_ap rs)))"
proof -
  have ring: "window_of max_ap rs = ring_of max_ap (window_entries rs)"
    using assms(1) by (simp add: window_of_ring)
  have "\<forall>r\<in>set (window_entries rs). wf_report max_ap r \<and> ap < rp_n_ap r"
    using assms(1) by (auto simp: window_entries_def)
  note last = ring_last_nine [OF this assms(2)]
  show ?thesis
    unfolding es_def ring DE_SLIDING_WINDOW_SIZE_def
    by (simp add: get_distance_def Let_def median_of_ring [OF last])
qed

section \<open>Witnesses\<close>

text \<open>Reports with two paths, both good, so that each is stored twice.\<close>

definition sample_report :: "int \<Rightarrow> int cs_de_report" where
  "sample_report d = \<lparr>rp_n_ap = 2, rp_tone_ok = [True, True],
     rp_estimates = replicate 2 \<lparr>de_ifft = Some d, de_phase_slope = None, de_rtt = Some (d + 1)\<rparr>\<rparr>"

lemma distance_is_window_median_witness:
  "de_ifft (get_distance (\<lambda>a b. (a + b) div 2) 0 (window_of 2 (map sample_report [5, 1, 3]))) = Some 3"
proof -
  have "is_median (\<lambda>a b. (a + b) div 2) [5, 5, 1, 1, 3, 3]
      (de_ifft (get_distance (\<lambda>a b. (a + b) div 2) 0 (window_of 2 (map sample_report [5, 1, 3]))))"
    using distance_is_window_median [of "map sample_report [5, 1, 3]" 2 0 "\<lambda>a b. (a + b) div 2"]
    by (simp add: wf_report_def sample_report_def last_reports_def window_entries_def good_paths_def
        DE_SLIDING_WINDOW_SIZE_def List.map_filter_simps eval_nat_numeral)
  then show ?thesis
    by (auto simp: is_median_def has_rank_def)
qed

end
