(* ===== verification/Cs_Ranging.thy ===== *)
theory Cs_Ranging
  imports Cs_Window
begin

text \<open>
  \<open>samples/bluetooth/channel_sounding_ras_initiator/src/main.c\<close>, the callbacks that match
  the steps measured here with the ranging data of the peer. The buffer of local steps
  belongs to one procedure at a time: \<open>sem_local_steps\<close> is taken at its first subevent and
  given when the peer's data was used.

  Parameters of the library: the ranging counter of a procedure counter, the report made
  of local and peer steps with its quality, the size of the buffer. \<open>cs_reports\<close> records
  what reports were made of, \<open>cs_requests\<close> the ranging data asked for.
\<close>

definition PROCEDURE_COUNTER_NONE :: int where "PROCEDURE_COUNTER_NONE = - 1"

datatype procedure_done = Procedure_Partial | Procedure_Complete | Procedure_Aborted

record subevent_result =
  sr_counter :: u16
  sr_aborted :: bool
  sr_data :: "u8 list option"
  sr_done :: procedure_done

record 'a cs_env =
  en_size :: nat
  en_counter :: "u16 \<Rightarrow> u16"
  en_report :: "u8 list \<Rightarrow> u8 list \<Rightarrow> 'a cs_de_report \<times> bool"

record 'a cs_state =
  cs_most_recent :: int
  cs_dropped :: int
  cs_sem :: nat
  cs_local :: "u8 list"
  cs_peer :: "u8 list"
  cs_realtime :: bool
  cs_window :: "'a distance_window"
  cs_reports :: "(u8 list \<times> u8 list) list"
  cs_requests :: "u16 list"

definition give_local :: "'a cs_state \<Rightarrow> 'a cs_state" where
  "give_local s = s\<lparr>cs_local := [], cs_sem := 1\<rparr>"

section \<open>Callbacks\<close>

text \<open>The end of \<open>subevent_result_cb\<close>.\<close>

definition subevent_finish :: "'a cs_env \<Rightarrow> subevent_result \<Rightarrow> 'a cs_state \<Rightarrow> 'a cs_state" where
  "subevent_finish env r s =
     (let s1 = s\<lparr>cs_dropped := PROCEDURE_COUNTER_NONE\<rparr>
      in case sr_done r of
           Procedure_Complete \<Rightarrow> s1\<lparr>cs_most_recent := uint (en_counter env (sr_counter r))\<rparr>
         | Procedure_Aborted \<Rightarrow> give_local s1
         | Procedure_Partial \<Rightarrow> s1)"

definition subevent_result_cb :: "'a cs_env \<Rightarrow> subevent_result \<Rightarrow> 'a cs_state \<Rightarrow> 'a cs_state" where
  [op_defs]: "subevent_result_cb env r s =
     (let counter = uint (sr_counter r); ranging = uint (en_counter env (sr_counter r))
      in if cs_dropped s = counter then s
         else if cs_most_recent s \<noteq> ranging \<and> cs_sem s = 0 then s\<lparr>cs_dropped := counter\<rparr>
         else
           let s1 = (if cs_most_recent s \<noteq> ranging then s\<lparr>cs_sem := cs_sem s - 1, cs_most_recent := ranging\<rparr> else s)
           in case if sr_aborted r then None else sr_data r of
                None \<Rightarrow> subevent_finish env r s1
              | Some d \<Rightarrow>
                  if length d \<le> en_size env - length (cs_local s1)
                  then subevent_finish env r (s1\<lparr>cs_local := cs_local s1 @ d\<rparr>)
                  else s1\<lparr>cs_local := [], cs_dropped := counter\<rparr>)"

definition ranging_data_cb :: "'a cs_env \<Rightarrow> u16 \<Rightarrow> int \<Rightarrow> 'a cs_state \<Rightarrow> 'a cs_state" where
  [op_defs]: "ranging_data_cb env ranging_counter err s =
     (if err \<noteq> 0 then s
      else if uint ranging_counter \<noteq> cs_most_recent s then give_local s
      else
        let (rp, good) = en_report env (cs_local s) (cs_peer s);
            s1 = s\<lparr>cs_reports := cs_reports s @ [(cs_local s, cs_peer s)],
                   cs_peer := (if cs_realtime s then cs_peer s else [])\<rparr>;
            s2 = give_local s1
        in if good then s2\<lparr>cs_window := store_good_paths rp (cs_window s2)\<rparr> else s2)"

text \<open>\<open>err\<close> is the result of \<open>bt_ras_rreq_cp_get_ranging_data\<close>.\<close>

definition ranging_data_ready_cb :: "u16 \<Rightarrow> int \<Rightarrow> 'a cs_state \<Rightarrow> 'a cs_state" where
  [op_defs]: "ranging_data_ready_cb ranging_counter err s =
     (if uint ranging_counter \<noteq> cs_most_recent s then s
      else
        let s1 = s\<lparr>cs_requests := cs_requests s @ [ranging_counter]\<rparr>
        in if err \<noteq> 0 then give_local (s1\<lparr>cs_peer := []\<rparr>) else s1)"

text \<open>What happens to the sample: its callbacks, and the peer's steps that the library stores.\<close>

datatype cs_event =
  Subevent subevent_result | Ranging_Data u16 int | Data_Ready u16 int | Peer_Steps "u8 list"

fun cs_step :: "'a cs_env \<Rightarrow> cs_event \<Rightarrow> 'a cs_state \<Rightarrow> 'a cs_state" where
  "cs_step env (Subevent r) s = subevent_result_cb env r s"
| "cs_step env (Ranging_Data c err) s = ranging_data_cb env c err s"
| "cs_step env (Data_Ready c err) s = ranging_data_ready_cb c err s"
| "cs_step env (Peer_Steps bs) s = s\<lparr>cs_peer := cs_peer s @ bs\<rparr>"

definition cs_run :: "'a cs_env \<Rightarrow> cs_event list \<Rightarrow> 'a cs_state \<Rightarrow> 'a cs_state" where
  "cs_run env es s = fold (cs_step env) es s"

definition cs_reset :: "bool \<Rightarrow> nat \<Rightarrow> 'a::zero cs_state" where
  "cs_reset realtime max_ap = \<lparr>cs_most_recent = PROCEDURE_COUNTER_NONE, cs_dropped = PROCEDURE_COUNTER_NONE, cs_sem = 1,
     cs_local = [], cs_peer = [], cs_realtime = realtime, cs_window = window_reset max_ap, cs_reports = [], cs_requests = []\<rparr>"

lemma cs_run_append: "cs_run env (es @ fs) s = cs_run env fs (cs_run env es s)"
  by (simp add: cs_run_def)

lemma counter_not_none [simp]: "uint (c :: u16) \<noteq> PROCEDURE_COUNTER_NONE" "PROCEDURE_COUNTER_NONE \<noteq> uint (c :: u16)"
proof -
  have "0 \<le> uint c" by simp
  then show "uint c \<noteq> PROCEDURE_COUNTER_NONE" "PROCEDURE_COUNTER_NONE \<noteq> uint c"
    unfolding PROCEDURE_COUNTER_NONE_def by linarith+
qed

section \<open>One procedure after the other\<close>

text \<open>The subevents of a procedure that completes.\<close>

fun procedure_subevents :: "u16 \<Rightarrow> u8 list list \<Rightarrow> subevent_result list" where
  "procedure_subevents c [] = []"
| "procedure_subevents c [d] = [\<lparr>sr_counter = c, sr_aborted = False, sr_data = Some d, sr_done = Procedure_Complete\<rparr>]"
| "procedure_subevents c (d # ds) =
     \<lparr>sr_counter = c, sr_aborted = False, sr_data = Some d, sr_done = Procedure_Partial\<rparr> # procedure_subevents c ds"

lemma procedure_tail:
  assumes "cs_most_recent s = uint (en_counter env c)" "cs_dropped s = PROCEDURE_COUNTER_NONE"
    "length (cs_local s) + length (concat ds) \<le> en_size env"
  shows "cs_run env (map Subevent (procedure_subevents c ds)) s = s\<lparr>cs_local := cs_local s @ concat ds\<rparr>"
  using assms
proof (induction c ds arbitrary: s rule: procedure_subevents.induct)
  case (3 c d e ds)
  have "cs_step env (Subevent \<lparr>sr_counter = c, sr_aborted = False, sr_data = Some d, sr_done = Procedure_Partial\<rparr>) s =
      s\<lparr>cs_local := cs_local s @ d\<rparr>"
    using "3.prems" by (simp add: subevent_result_cb_def subevent_finish_def Let_def)
  then show ?case
    using "3.IH" [of "s\<lparr>cs_local := cs_local s @ d\<rparr>"] "3.prems" by (simp add: cs_run_def)
qed (simp_all add: cs_run_def subevent_result_cb_def subevent_finish_def Let_def)

lemma procedure_run:
  assumes "cs_sem s = 1" "cs_local s = []" "cs_dropped s \<noteq> uint c" "cs_most_recent s \<noteq> uint (en_counter env c)"
    "ds \<noteq> []" "length (concat ds) \<le> en_size env"
  shows "cs_run env (map Subevent (procedure_subevents c ds)) s =
    s\<lparr>cs_sem := 0, cs_most_recent := uint (en_counter env c), cs_dropped := PROCEDURE_COUNTER_NONE, cs_local := concat ds\<rparr>"
proof -
  obtain d es where ds: "ds = d # es"
    using assms(5) by (cases ds) auto
  let ?s1 = "s\<lparr>cs_sem := 0, cs_most_recent := uint (en_counter env c), cs_dropped := PROCEDURE_COUNTER_NONE, cs_local := d\<rparr>"
  show ?thesis
  proof (cases es)
    case Nil
    then show ?thesis
      using assms by (simp add: ds cs_run_def subevent_result_cb_def subevent_finish_def Let_def)
  next
    case (Cons e fs)
    have "cs_step env (Subevent \<lparr>sr_counter = c, sr_aborted = False, sr_data = Some d, sr_done = Procedure_Partial\<rparr>) s = ?s1"
      using assms by (simp add: ds subevent_result_cb_def subevent_finish_def Let_def)
    then show ?thesis
      using procedure_tail [of ?s1 env c es] assms Cons by (simp add: ds cs_run_def)
  qed
qed

text \<open>Subevents of other procedures are dropped while the buffer is in use.\<close>

lemma busy_drops:
  assumes "cs_sem s = 0" "\<forall>r\<in>set rs. uint (en_counter env (sr_counter r)) \<noteq> cs_most_recent s"
  shows "\<exists>d. cs_run env (map Subevent rs) s = s\<lparr>cs_dropped := d\<rparr>"
  using assms
proof (induction rs arbitrary: s)
  case Nil
  then show ?case by (auto simp: cs_run_def intro: exI [of _ "cs_dropped s"])
next
  case (Cons r rs)
  define s1 where "s1 = cs_step env (Subevent r) s"
  have "\<exists>d. s1 = s\<lparr>cs_dropped := d\<rparr>"
    using Cons.prems by (auto simp: s1_def subevent_result_cb_def Let_def intro: exI [of _ "cs_dropped s"])
  then obtain d where d: "s1 = s\<lparr>cs_dropped := d\<rparr>" ..
  then obtain d' where "cs_run env (map Subevent rs) s1 = s1\<lparr>cs_dropped := d'\<rparr>"
    using Cons.IH [of s1] Cons.prems by auto
  then show ?case
    using d by (auto simp: cs_run_def s1_def)
qed

text \<open>
  C26. Undisturbed, one procedure makes one report: of the steps of all its subevents in
  order and of the peer's steps, whatever procedures come in between; then the buffer
  is free and empty again.
\<close>

theorem procedure_makes_report:
  fixes p :: "u8 list"
  assumes "cs_sem s = 1" "cs_local s = []" "cs_dropped s \<noteq> uint c" "cs_most_recent s \<noteq> uint (en_counter env c)"
    "ds \<noteq> []" "length (concat ds) \<le> en_size env"
    "\<forall>r\<in>set others. en_counter env (sr_counter r) \<noteq> en_counter env c"
  defines "s' \<equiv> cs_run env (map Subevent (procedure_subevents c ds) @ map Subevent others @
      [Peer_Steps p, Ranging_Data (en_counter env c) 0]) s"
  shows "cs_reports s' = cs_reports s @ [(concat ds, cs_peer s @ p)] \<and> cs_sem s' = 1 \<and> cs_local s' = [] \<and>
    cs_window s' = (let (rp, good) = en_report env (concat ds) (cs_peer s @ p)
                    in if good then store_good_paths rp (cs_window s) else cs_window s)"
proof -
  let ?s1 = "s\<lparr>cs_sem := 0, cs_most_recent := uint (en_counter env c), cs_dropped := PROCEDURE_COUNTER_NONE, cs_local := concat ds\<rparr>"
  note 1 = procedure_run [where env = env, OF assms(1-6)]
  have "\<forall>r\<in>set others. uint (en_counter env (sr_counter r)) \<noteq> cs_most_recent ?s1"
    using assms(7) by (simp add: word_uint_eq_iff)
  then obtain d where "cs_run env (map Subevent others) ?s1 = ?s1\<lparr>cs_dropped := d\<rparr>"
    using busy_drops [of ?s1 others env] by auto
  then show ?thesis
    unfolding s'_def cs_run_append 1
    by (auto simp: cs_run_def ranging_data_cb_def give_local_def Let_def split: prod.split)
qed

section \<open>Ranging data that fails\<close>

text \<open>Anything but data delivered or a subevent or notification of procedure \<open>k\<close>.\<close>

definition other_event :: "'a cs_env \<Rightarrow> int \<Rightarrow> cs_event \<Rightarrow> bool" where
  "other_event env k e =
     (case e of
        Subevent r \<Rightarrow> uint (en_counter env (sr_counter r)) \<noteq> k
      | Data_Ready c err \<Rightarrow> uint c \<noteq> k
      | Ranging_Data c err \<Rightarrow> False
      | Peer_Steps bs \<Rightarrow> True)"

text \<open>
  C27. The error path of \<open>ranging_data_cb\<close> keeps the semaphore. In the on-demand mode, where data
  comes only when asked for, nothing gives it afterwards: subevents of other procedures
  are dropped and their ready notifications ignored, so that no report is ever made
  again, until the ranging counter comes round to the same value.
\<close>

theorem ranging_error_wedges:
  assumes "cs_sem s = 0" "err \<noteq> 0" "\<forall>e\<in>set es. other_event env (cs_most_recent s) e"
  shows "cs_sem (cs_run env (Ranging_Data c err # es) s) = 0 \<and>
    cs_reports (cs_run env (Ranging_Data c err # es) s) = cs_reports s \<and>
    cs_requests (cs_run env (Ranging_Data c err # es) s) = cs_requests s \<and>
    cs_window (cs_run env (Ranging_Data c err # es) s) = cs_window s"
proof -
  have "cs_sem (cs_run env es t) = 0 \<and> cs_reports (cs_run env es t) = cs_reports t \<and>
      cs_requests (cs_run env es t) = cs_requests t \<and> cs_window (cs_run env es t) = cs_window t"
    if "cs_sem t = 0" "\<forall>e\<in>set es. other_event env (cs_most_recent t) e" for t es
    using that
  proof (induction es arbitrary: t)
    case (Cons e es)
    have "cs_sem (cs_step env e t) = 0 \<and> cs_most_recent (cs_step env e t) = cs_most_recent t \<and>
        cs_reports (cs_step env e t) = cs_reports t \<and> cs_requests (cs_step env e t) = cs_requests t \<and>
        cs_window (cs_step env e t) = cs_window t"
      using Cons.prems
      by (cases e) (auto simp: other_event_def subevent_result_cb_def ranging_data_ready_cb_def Let_def)
    then show ?case
      using Cons.IH [of "cs_step env e t"] Cons.prems by (simp add: cs_run_def)
  qed (simp add: cs_run_def)
  from this [of s es] show ?thesis
    using assms by (simp add: cs_run_def ranging_data_cb_def)
qed

section \<open>Ranging data that comes late\<close>

definition subevent :: "u16 \<Rightarrow> u8 list \<Rightarrow> procedure_done \<Rightarrow> cs_event" where
  "subevent c d done = Subevent \<lparr>sr_counter = c, sr_aborted = False, sr_data = Some d, sr_done = done\<rparr>"

text \<open>
  Ranging data of an aborted procedure that arrives while the next one is being measured
  empties the buffer of that one and gives its semaphore; the procedure after it then
  enters the buffer too, and a report is made of the steps of two procedures.
\<close>

theorem stale_data_mixes_procedures:
  assumes "cs_sem s = 1" "cs_local s = []" "cs_dropped s = PROCEDURE_COUNTER_NONE"
    "cs_most_recent s \<noteq> uint (en_counter env c1)"
    "distinct [en_counter env c1, en_counter env c2, en_counter env c3]"
    "length a \<le> en_size env" "length b + length d \<le> en_size env"
  shows "cs_reports (cs_run env
      [subevent c1 [] Procedure_Aborted, subevent c2 a Procedure_Partial, Ranging_Data (en_counter env c1) 0,
       subevent c2 b Procedure_Complete, subevent c3 d Procedure_Complete, Ranging_Data (en_counter env c3) 0] s) =
    cs_reports s @ [(b @ d, cs_peer s)]"
proof -
  let ?k = "\<lambda>c. uint (en_counter env c)"
  have k: "?k c1 \<noteq> ?k c2" "?k c2 \<noteq> ?k c1" "?k c3 \<noteq> ?k c2" "?k c2 \<noteq> ?k c3"
    using assms(5) by (auto simp: word_uint_eq_iff)
  define st where "st sem c steps = s\<lparr>cs_sem := sem, cs_most_recent := ?k c, cs_dropped := PROCEDURE_COUNTER_NONE,
      cs_local := steps\<rparr>" for sem c steps
  note cb = subevent_def subevent_result_cb_def subevent_finish_def give_local_def ranging_data_cb_def st_def Let_def
  have 1: "cs_step env (subevent c1 [] Procedure_Aborted) s = st 1 c1 []"
    using assms(1-4) by (simp add: cb)
  have 2: "cs_step env (subevent c2 a Procedure_Partial) (st 1 c1 []) = st 0 c2 a"
    using assms(6) k by (simp add: cb)
  have 3: "cs_step env (Ranging_Data (en_counter env c1) 0) (st 0 c2 a) = st 1 c2 []"
    using k by (simp add: cb)
  have 4: "cs_step env (subevent c2 b Procedure_Complete) (st 1 c2 []) = st 1 c2 b"
    using assms(7) by (simp add: cb)
  have 5: "cs_step env (subevent c3 d Procedure_Complete) (st 1 c2 b) = st 0 c3 (b @ d)"
    using assms(7) k by (simp add: cb)
  have 6: "cs_reports (cs_step env (Ranging_Data (en_counter env c3) 0) (st 0 c3 (b @ d))) =
      cs_reports s @ [(b @ d, cs_peer s)]"
    by (simp add: cb split: prod.split)
  show ?thesis
    by (simp only: cs_run_def fold.simps comp_apply id_apply 1 2 3 4 5 6)
qed

section \<open>Connection\<close>

text \<open>
  The connection object of the sample, the references it holds and whether \<open>main\<close> may go on.
\<close>

record cs_link =
  ln_connection :: "nat option"
  ln_refs :: int
  ln_connected :: bool
  ln_led :: bool
  ln_reboot :: bool

definition connected_cb :: "nat \<Rightarrow> u8 \<Rightarrow> cs_link \<Rightarrow> cs_link" where
  [op_defs]: "connected_cb conn err l =
     (let l1 = (if err \<noteq> 0 then l\<lparr>ln_refs := ln_refs l - 1, ln_connection := None\<rparr> else l)
      in l1\<lparr>ln_connection := Some conn, ln_refs := ln_refs l1 + 1, ln_connected := True, ln_led := True\<rparr>)"

definition disconnected_cb :: "cs_link \<Rightarrow> cs_link" where
  [op_defs]: "disconnected_cb l =
     l\<lparr>ln_refs := ln_refs l - 1, ln_connection := None, ln_led := False, ln_reboot := True\<rparr>"

text \<open>
  A connection that failed is treated as one that succeeded: \<open>main\<close> goes on with an
  object on which the sample holds no reference of its own.
\<close>

theorem failed_connection_goes_on:
  "err \<noteq> 0 \<Longrightarrow> ln_connection (connected_cb conn err l) = Some conn \<and> ln_connected (connected_cb conn err l) \<and>
    ln_refs (connected_cb conn err l) = ln_refs l"
  by (simp add: connected_cb_def)

section \<open>Witnesses\<close>

definition sample_cs_env :: "int cs_env" where
  "sample_cs_env = \<lparr>en_size = 100, en_counter = \<lambda>c. c AND 0xfff, en_report = \<lambda>l p. (sample_report (int (length l)), True)\<rparr>"

lemma procedure_makes_report_witness:
  "cs_reports (cs_run sample_cs_env (map Subevent (procedure_subevents 7 [[1, 2], [3]]) @
      map Subevent (procedure_subevents 8 [[9]]) @ [Peer_Steps [4], Ranging_Data 7 0]) (cs_reset False 1)) = [([1, 2, 3], [4])]"
proof -
  have c: "en_counter sample_cs_env 7 = 7" "en_counter sample_cs_env 8 = 8" "en_size sample_cs_env = 100"
    by (simp_all add: sample_cs_env_def)
  show ?thesis
    using procedure_makes_report [of "cs_reset False 1" 7 sample_cs_env "[[1, 2], [3]]" "procedure_subevents 8 [[9]]" "[4]"]
    by (simp add: c) (simp add: cs_reset_def PROCEDURE_COUNTER_NONE_def)
qed

lemma ranging_error_wedges_witness:
  "cs_reports (cs_run sample_cs_env [Ranging_Data 7 (- 5), Subevent \<lparr>sr_counter = 8, sr_aborted = False, sr_data = Some [1],
      sr_done = Procedure_Complete\<rparr>, Data_Ready 8 0] ((cs_reset False 1)\<lparr>cs_sem := 0, cs_most_recent := 7\<rparr>)) = []"
  using ranging_error_wedges [of "(cs_reset False 1)\<lparr>cs_sem := 0, cs_most_recent := 7\<rparr>" "- 5"
      "[Subevent \<lparr>sr_counter = 8, sr_aborted = False, sr_data = Some [1], sr_done = Procedure_Complete\<rparr>, Data_Ready 8 0]"
      sample_cs_env 7]
  by (simp add: other_event_def sample_cs_env_def) (simp add: cs_reset_def)

end
