(* ===== verification/Cs_Start.thy ===== *)
theory Cs_Start
  imports Prelude
begin

text \<open>
  \<open>samples/bluetooth/channel_sounding_ras_initiator/src/main.c\<close>, the start-up in \<open>main\<close>: calls
  of the stack, each followed by a wait for the callback that completes it. \<open>ret\<close> is what
  the calls return, \<open>status\<close> the status a callback is called with, \<open>None\<close> if it never is.
\<close>

datatype cs_sem =
  Sem_Connected | Sem_Security | Sem_Mtu_Exchange_Done | Sem_Discovery_Done | Sem_Ras_Features
| Sem_Remote_Capabilities_Obtained | Sem_Config_Created | Sem_Cs_Security_Enabled

datatype cs_call =
  Cs_Leds_Init | Cs_Bt_Enable | Scan_Filter_Add | Scan_Filter_Enable | Scan_Start | Set_Security | Exchange_Mtu | Dm_Start
| Set_Default_Settings | Read_Features | Realtime_Subscribe | Overwritten_Subscribe | Ready_Subscribe | On_Demand_Subscribe
| Cp_Subscribe | Read_Capabilities | Create_Config | Security_Enable | Set_Procedure_Parameters | Procedure_Enable

datatype cs_action = Check cs_call | Ignore cs_call | Wait cs_sem

datatype cs_outcome = Returned cs_call | Blocked cs_sem | Measuring

text \<open>
  Whether a callback gives its semaphore: those of the connection (\<open>Cs_Ranging\<close>), the
  discovery and the features do in any case, the others only when they report success.
\<close>

definition mtu_exchange_cb :: "u8 \<Rightarrow> bool" where "mtu_exchange_cb err \<longleftrightarrow> err = 0"
definition discovery_completed_cb :: bool where "discovery_completed_cb \<longleftrightarrow> True"
definition cs_security_changed :: "u8 \<Rightarrow> bool" where "cs_security_changed err \<longleftrightarrow> err = 0"
definition remote_capabilities_cb :: "u8 \<Rightarrow> bool" where "remote_capabilities_cb st \<longleftrightarrow> st = 0"
definition config_create_cb :: "u8 \<Rightarrow> bool" where "config_create_cb st \<longleftrightarrow> st = 0"
definition security_enable_cb :: "u8 \<Rightarrow> bool" where "security_enable_cb st \<longleftrightarrow> st = 0"
definition ras_features_read_cb :: bool where "ras_features_read_cb \<longleftrightarrow> True"

lemmas callback_defs = mtu_exchange_cb_def discovery_completed_cb_def cs_security_changed_def remote_capabilities_cb_def
  config_create_cb_def security_enable_cb_def ras_features_read_cb_def

fun gives :: "cs_sem \<Rightarrow> u8 \<Rightarrow> bool" where
  "gives Sem_Connected st = True"
| "gives Sem_Security st = cs_security_changed st"
| "gives Sem_Mtu_Exchange_Done st = mtu_exchange_cb st"
| "gives Sem_Discovery_Done st = discovery_completed_cb"
| "gives Sem_Ras_Features st = ras_features_read_cb"
| "gives Sem_Remote_Capabilities_Obtained st = remote_capabilities_cb st"
| "gives Sem_Config_Created st = config_create_cb st"
| "gives Sem_Cs_Security_Enabled st = security_enable_cb st"

definition scan_init :: "cs_action list" where
  "scan_init = [Check Scan_Filter_Add, Check Scan_Filter_Enable]"

definition initiator_actions :: "bool \<Rightarrow> cs_action list" where
  "initiator_actions realtime_rd =
     [Ignore Cs_Leds_Init, Check Cs_Bt_Enable] @ scan_init @
     [Check Scan_Start, Wait Sem_Connected, Check Set_Security, Wait Sem_Security,
      Ignore Exchange_Mtu, Wait Sem_Mtu_Exchange_Done, Check Dm_Start, Wait Sem_Discovery_Done,
      Check Set_Default_Settings, Check Read_Features, Wait Sem_Ras_Features] @
     (if realtime_rd then [Check Realtime_Subscribe]
      else [Check Overwritten_Subscribe, Check Ready_Subscribe, Check On_Demand_Subscribe, Check Cp_Subscribe]) @
     [Check Read_Capabilities, Wait Sem_Remote_Capabilities_Obtained, Check Create_Config, Wait Sem_Config_Created,
      Check Security_Enable, Wait Sem_Cs_Security_Enabled, Check Set_Procedure_Parameters, Check Procedure_Enable]"

fun cs_exec :: "(cs_call \<Rightarrow> int) \<Rightarrow> (cs_sem \<Rightarrow> u8 option) \<Rightarrow> cs_action list \<Rightarrow> cs_outcome \<times> cs_call list" where
  "cs_exec ret status [] = (Measuring, [])"
| "cs_exec ret status (Check c # as) =
     (if ret c \<noteq> 0 then (Returned c, [c]) else let (r, made) = cs_exec ret status as in (r, c # made))"
| "cs_exec ret status (Ignore c # as) = (let (r, made) = cs_exec ret status as in (r, c # made))"
| "cs_exec ret status (Wait s # as) =
     (case status s of
        None \<Rightarrow> (Blocked s, [])
      | Some st \<Rightarrow> if gives s st then cs_exec ret status as else (Blocked s, []))"

definition initiator_main :: "bool \<Rightarrow> (cs_call \<Rightarrow> int) \<Rightarrow> (cs_sem \<Rightarrow> u8 option) \<Rightarrow> cs_outcome \<times> cs_call list" where
  "initiator_main realtime_rd ret status = cs_exec ret status (initiator_actions realtime_rd)"

section \<open>Properties\<close>

definition completes :: "(cs_call \<Rightarrow> int) \<Rightarrow> (cs_sem \<Rightarrow> u8 option) \<Rightarrow> cs_action \<Rightarrow> bool" where
  "completes ret status a =
     (case a of Check c \<Rightarrow> ret c = 0 | Ignore c \<Rightarrow> True
              | Wait s \<Rightarrow> (case status s of None \<Rightarrow> False | Some st \<Rightarrow> gives s st))"

lemma completes_simps [simp]:
  "completes ret status (Check c) = (ret c = 0)" "completes ret status (Ignore c)"
  "completes ret status (Wait s) = (case status s of None \<Rightarrow> False | Some st \<Rightarrow> gives s st)"
  by (simp_all add: completes_def)

lemma exec_measuring: "fst (cs_exec ret status as) = Measuring \<longleftrightarrow> (\<forall>a\<in>set as. completes ret status a)"
  by (induction ret status as rule: cs_exec.induct) (auto split: prod.splits option.splits)

text \<open>
  Procedures are enabled only on a connection that is encrypted, with services
  discovered, a configuration and channel-sounding security: the sample measures exactly
  if every call it checks succeeds and every callback it waits for reports what is needed.
\<close>

theorem initiator_measures:
  "fst (initiator_main realtime_rd ret status) = Measuring \<longleftrightarrow>
     (\<forall>a\<in>set (initiator_actions realtime_rd). completes ret status a)"
  "fst (initiator_main realtime_rd ret status) = Measuring \<Longrightarrow>
     status Sem_Security = Some 0 \<and> status Sem_Config_Created = Some 0 \<and> status Sem_Cs_Security_Enabled = Some 0 \<and>
     ret Procedure_Enable = 0"
  unfolding initiator_main_def exec_measuring
  by (auto simp: initiator_actions_def scan_init_def callback_defs split: option.splits)

text \<open>
  An MTU exchange that fails, at once or in its callback, is not noticed: \<open>main\<close> ignores
  the result of the call, and waits forever for a semaphore that only success gives.
\<close>

theorem mtu_failure_blocks:
  assumes "\<forall>c\<in>{Cs_Bt_Enable, Scan_Filter_Add, Scan_Filter_Enable, Scan_Start, Set_Security}. ret c = 0"
    "status Sem_Connected \<noteq> None" "status Sem_Security = Some 0" "status Sem_Mtu_Exchange_Done \<noteq> Some 0"
  shows "initiator_main realtime_rd ret status = (Blocked Sem_Mtu_Exchange_Done,
    [Cs_Leds_Init, Cs_Bt_Enable, Scan_Filter_Add, Scan_Filter_Enable, Scan_Start, Set_Security, Exchange_Mtu])"
  using assms by (auto simp: initiator_main_def initiator_actions_def scan_init_def callback_defs split: option.splits)

theorem mtu_failure_blocks_witness:
  "fst (initiator_main False (\<lambda>c. if c = Exchange_Mtu then - 12 else 0)
     (\<lambda>s. if s = Sem_Mtu_Exchange_Done then None else Some 0)) = Blocked Sem_Mtu_Exchange_Done"
  by (subst mtu_failure_blocks) simp_all

end
