(* ===== verification/Coap_Utils.thy ===== *)
theory Coap_Utils
  imports Kernel
begin

text \<open>
  \<open>samples/openthread/coap/src/coap_utils.c\<close>: sending requests and responses, dispatching a
  request to the handlers of a resource, the device id. OpenThread is a parameter: which
  of its calls succeed (\<open>ot_env\<close>), with the calls made recorded. A write outside an object,
  or the use of a null message, is a \<open>fault\<close>.
\<close>

definition COAP_MAX_BUF_SIZE :: nat where "COAP_MAX_BUF_SIZE = 128"
definition COAP_DEVICE_ID_SIZE :: nat where "COAP_DEVICE_ID_SIZE = 25"

datatype coap_type = Confirmable | Non_Confirmable | Acknowledgment | Other_Type
datatype coap_code = Code_Get | Code_Put | Code_Content | Code_Changed | Other_Code

record ot_message =
  om_type :: coap_type
  om_code :: coap_code
  om_payload :: "u8 list"

datatype ot_call =
  New_Message | Append_Uri | Set_Payload_Marker | Append_Payload | Send_Request | Init_Response | Send_Response | Free_Message

record ot_env =
  ot_instance :: bool
  ot_alloc :: bool
  ot_ok :: "ot_call \<Rightarrow> bool"

datatype fault = Buffer_Overrun | Out_Of_Bounds | Null_Message

section \<open>Sending\<close>

text \<open>The calls on a message, each with the value returned when it fails; then it is freed.\<close>

fun ot_chain :: "(ot_call \<Rightarrow> bool) \<Rightarrow> (ot_call \<times> int) list \<Rightarrow> int \<times> ot_call list" where
  "ot_chain ok [] = (0, [])"
| "ot_chain ok ((c, e) # cs) =
     (if \<not> ok c then (e, [c, Free_Message]) else let (r, made) = ot_chain ok cs in (r, c # made))"

definition coap_req_send :: "ot_env \<Rightarrow> int \<times> ot_call list" where
  [op_defs]: "coap_req_send env =
     (if \<not> ot_instance env then (- ENODEV, [])
      else if \<not> ot_alloc env then (- ENOMEM, [New_Message])
      else let (r, made) = ot_chain (ot_ok env) [(Append_Uri, - EBADMSG), (Set_Payload_Marker, - EBADMSG),
                             (Append_Payload, - EBADMSG), (Send_Request, - EIO)]
           in (r, New_Message # made))"

definition response_type :: "coap_type \<Rightarrow> coap_type option" where
  [op_defs]: "response_type t = (case t of Confirmable \<Rightarrow> Some Acknowledgment | Non_Confirmable \<Rightarrow> Some Non_Confirmable | _ \<Rightarrow> None)"

definition response_code :: "coap_code \<Rightarrow> coap_code option" where
  [op_defs]: "response_code c = (case c of Code_Get \<Rightarrow> Some Code_Content | Code_Put \<Rightarrow> Some Code_Changed | _ \<Rightarrow> None)"

text \<open>The value returned, the calls, and the response if it was sent.\<close>

definition coap_resp_send :: "ot_env \<Rightarrow> ot_message \<Rightarrow> u8 list \<Rightarrow> int \<times> ot_call list \<times> ot_message option" where
  [op_defs]: "coap_resp_send env req buf =
     (if \<not> ot_instance env then (- ENODEV, [], None)
      else if \<not> ot_alloc env then (- ENOMEM, [New_Message], None)
      else
        case response_type (om_type req) of
          None \<Rightarrow> (- EINVAL, [New_Message, Free_Message], None)
        | Some t \<Rightarrow>
            case response_code (om_code req) of
              None \<Rightarrow> (- EINVAL, [New_Message, Free_Message], None)
            | Some c \<Rightarrow>
                let (r, made) = ot_chain (ot_ok env) [(Init_Response, - EBADMSG), (Set_Payload_Marker, - EBADMSG),
                                  (Append_Payload, - EBADMSG), (Send_Response, - EIO)]
                in (r, New_Message # made,
                    if r = 0 then Some \<lparr>om_type = t, om_code = c, om_payload = buf\<rparr> else None))"

section \<open>Requests\<close>

text \<open>
  \<open>coap_req_handler\<close>: \<open>otMessageRead\<close> copies the whole payload to \<open>coap_buf\<close>, whatever its
  length.
\<close>

definition coap_req_handler ::
  "(u8 list \<Rightarrow> 's \<Rightarrow> fault + int \<times> 's) option \<Rightarrow> (ot_message \<Rightarrow> 's \<Rightarrow> fault + int \<times> 's) \<Rightarrow> ot_message \<Rightarrow> 's \<Rightarrow>
   fault + int \<times> 's" where
  [op_defs]: "coap_req_handler put_fn get_fn msg s =
     (if om_type msg \<noteq> Confirmable \<and> om_type msg \<noteq> Non_Confirmable then Inr (- EINVAL, s)
      else if om_code msg = Code_Put \<and> put_fn \<noteq> None then
        (if COAP_MAX_BUF_SIZE < length (om_payload msg) then Inl Buffer_Overrun
         else
           case the put_fn (om_payload msg) s of
             Inl f \<Rightarrow> Inl f
           | Inr (ret, s1) \<Rightarrow>
               if ret \<noteq> 0 then Inr (ret, s1)
               else if om_type msg = Confirmable then get_fn msg s1 else Inr (ret, s1))
      else if om_code msg = Code_Get then get_fn msg s
      else Inr (- EINVAL, s))"

text \<open>\<open>coap_get_data\<close> checks the length first.\<close>

definition coap_get_data :: "ot_message \<Rightarrow> nat \<Rightarrow> int + u8 list" where
  [op_defs]: "coap_get_data msg len =
     (if len < length (om_payload msg) then Inl (- ENOMEM) else Inr (om_payload msg))"

section \<open>The device id\<close>

definition hex2 :: "u8 \<Rightarrow> string" where
  "hex2 b = [''0123456789abcdef'' ! (unat b div 16), ''0123456789abcdef'' ! (unat b mod 16)]"

text \<open>The loop over the eight bytes, from byte \<open>i\<close>, with the string written so far.\<close>

function device_id_loop :: "u8 list \<Rightarrow> nat \<Rightarrow> string \<Rightarrow> string" where
  "device_id_loop eui i acc =
     (if 8 \<le> i then acc else if COAP_DEVICE_ID_SIZE \<le> i * 2 then acc else device_id_loop eui (i + 1) (acc @ hex2 (eui ! i)))"
  by pat_completeness auto

termination
  by (relation "measure (\<lambda>(eui, i, acc). 8 - i)") auto

declare device_id_loop.simps [simp del]

definition coap_device_id :: "u8 list \<Rightarrow> string \<Rightarrow> string" where
  [op_defs]: "coap_device_id eui dev_id = (if dev_id \<noteq> [] then dev_id else device_id_loop eui 0 [])"

section \<open>Start-up\<close>

definition coap_init :: "bool \<Rightarrow> bool \<Rightarrow> int" where
  [op_defs]: "coap_init inst start_ok = (if \<not> inst then - ENODEV else if \<not> start_ok then - EBADMSG else 0)"

section \<open>Properties\<close>

text \<open>
  A message is never leaked and never freed twice: every one allocated is handed to the
  send call that succeeds, or freed exactly once; 0 is returned exactly in the first case.
\<close>

definition sent :: "ot_env \<Rightarrow> ot_call list \<Rightarrow> nat" where
  "sent env cs = length (filter (\<lambda>c. c \<in> {Send_Request, Send_Response} \<and> ot_ok env c) cs)"

theorem message_accounting:
  "fst (coap_req_send env) = 0 \<longleftrightarrow> sent env (snd (coap_req_send env)) = 1"
  "fst (coap_resp_send env req buf) = 0 \<longleftrightarrow> sent env (fst (snd (coap_resp_send env req buf))) = 1"
  "ot_alloc env \<Longrightarrow> count_list (snd (coap_req_send env)) New_Message =
     count_list (snd (coap_req_send env)) Free_Message + sent env (snd (coap_req_send env))"
  "ot_alloc env \<Longrightarrow> count_list (fst (snd (coap_resp_send env req buf))) New_Message =
     count_list (fst (snd (coap_resp_send env req buf))) Free_Message + sent env (fst (snd (coap_resp_send env req buf)))"
  by (auto simp: coap_req_send_def coap_resp_send_def response_type_def response_code_def sent_def
      split: coap_type.split coap_code.split option.split)

text \<open>The id of a device is the sixteen hexadecimal digits of its EUI-64, and fits its buffer.\<close>

theorem device_id_exact:
  assumes "length eui = 8"
  shows "coap_device_id eui [] = concat (map hex2 eui)" "length (coap_device_id eui []) < COAP_DEVICE_ID_SIZE"
    "coap_device_id eui (coap_device_id eui []) = coap_device_id eui []"
proof -
  obtain a b c d e f g h where eui: "eui = [a, b, c, d, e, f, g, h]"
    using assms by (auto simp: numeral_eq_Suc length_Suc_conv)
  show id: "coap_device_id eui [] = concat (map hex2 eui)"
    by (simp add: coap_device_id_def eui device_id_loop.simps COAP_DEVICE_ID_SIZE_def)
  show "length (coap_device_id eui []) < COAP_DEVICE_ID_SIZE"
    unfolding id by (simp add: eui hex2_def COAP_DEVICE_ID_SIZE_def)
  show "coap_device_id eui (coap_device_id eui []) = coap_device_id eui []"
    by (simp add: coap_device_id_def)
qed

text \<open>A payload longer than the buffer of a resource that takes PUT overruns it.\<close>

theorem long_put_overruns:
  assumes "om_type msg = Confirmable \<or> om_type msg = Non_Confirmable" "om_code msg = Code_Put"
    "COAP_MAX_BUF_SIZE < length (om_payload msg)"
  shows "coap_req_handler (Some put_fn) get_fn msg s = Inl Buffer_Overrun"
  using assms by (auto simp: coap_req_handler_def)

end
