(* ===== verification/Coap_Server.thy ===== *)
theory Coap_Server
  imports Coap_Utils
begin

text \<open>
  \<open>samples/openthread/coap/src/led.c\<close> and \<open>button.c\<close>, the server: the LED and button
  resources. The JSON library and the GPIO driver are parameters: \<open>js_parse_state\<close> is what
  \<open>json_obj_parse\<close> stores of a state, from the junk the structure held before;
  \<open>js_encode_list\<close> is the text made of the list of states, with its final zero. A GPIO call is
  recorded with its level.
\<close>

definition LED_MSG_STATE_OFF :: int where "LED_MSG_STATE_OFF = 0"
definition LED_MSG_STATE_ON :: int where "LED_MSG_STATE_ON = 1"
definition LED_MSG_STATE_TOGGLE :: int where "LED_MSG_STATE_TOGGLE = 2"
definition JSON_MAX_LED :: nat where "JSON_MAX_LED = 4"
definition JSON_MAX_BTN :: nat where "JSON_MAX_BTN = 4"

record json_ops =
  js_parse_state :: "u8 list \<Rightarrow> int \<times> int \<Rightarrow> int \<times> int"
  js_encode_state :: "int \<times> int \<Rightarrow> u8 list"
  js_encode_list :: "string \<Rightarrow> (int \<times> int) list \<Rightarrow> u8 list"
  js_parse_list :: "u8 list \<Rightarrow> (int \<times> int) list \<Rightarrow> (int \<times> int) list"

record coap_server =
  sv_leds :: "int list"
  sv_gpio :: "(nat \<times> int) list"
  sv_sent :: "ot_message list"

record server_env =
  se_json :: json_ops
  se_ot :: ot_env
  se_device_id :: string
  se_junk :: "int \<times> int"
  se_gpio_set :: "nat \<Rightarrow> int"
  se_buttons :: "int list"

section \<open>LEDs\<close>

definition led_write :: "server_env \<Rightarrow> nat \<Rightarrow> int \<Rightarrow> int \<Rightarrow> coap_server \<Rightarrow> int \<times> coap_server" where
  "led_write env i level state s =
     (se_gpio_set env i, s\<lparr>sv_gpio := sv_gpio s @ [(i, level)], sv_leds := (sv_leds s)[i := state]\<rparr>)"

definition led_handler_put :: "server_env \<Rightarrow> u8 list \<Rightarrow> coap_server \<Rightarrow> fault + int \<times> coap_server" where
  [op_defs]: "led_handler_put env buf s =
     (let (led_id, state) = js_parse_state (se_json env) buf (se_junk env)
      in if led_id \<ge> int (length (sv_leds s)) then Inr (- EINVAL, s)
         else if led_id < 0 then Inl Out_Of_Bounds
         else
           let i = nat led_id
           in Inr (if state = LED_MSG_STATE_ON then led_write env i 1 1 s
                   else if state = LED_MSG_STATE_OFF then led_write env i 0 0 s
                   else if state = LED_MSG_STATE_TOGGLE then
                     (let new = 1 - sv_leds s ! i in led_write env i new new s)
                   else (- EINVAL, s)))"

text \<open>The states as numbered in a reply; a structure holds four.\<close>

definition numbered_states :: "int list \<Rightarrow> (int \<times> int) list" where
  "numbered_states xs = zip (map int [0..<length xs]) xs"

definition respond :: "server_env \<Rightarrow> ot_message \<Rightarrow> u8 list \<Rightarrow> coap_server \<Rightarrow> int \<times> coap_server" where
  "respond env msg buf s =
     (let (ret, calls, resp) = coap_resp_send (se_ot env) msg buf
      in (ret, case resp of None \<Rightarrow> s | Some m \<Rightarrow> s\<lparr>sv_sent := sv_sent s @ [m]\<rparr>))"

definition led_handler_get :: "server_env \<Rightarrow> ot_message \<Rightarrow> coap_server \<Rightarrow> fault + int \<times> coap_server" where
  [op_defs]: "led_handler_get env msg s =
     (if JSON_MAX_LED < length (sv_leds s) then Inl Out_Of_Bounds
      else Inr (respond env msg (js_encode_list (se_json env) (se_device_id env) (numbered_states (sv_leds s))) s))"

definition led_handler :: "server_env \<Rightarrow> ot_message \<Rightarrow> coap_server \<Rightarrow> fault + int \<times> coap_server" where
  [op_defs]: "led_handler env msg s = coap_req_handler (Some (led_handler_put env)) (led_handler_get env) msg s"

section \<open>Buttons\<close>

definition btn_handler_get :: "server_env \<Rightarrow> ot_message \<Rightarrow> coap_server \<Rightarrow> fault + int \<times> coap_server" where
  [op_defs]: "btn_handler_get env msg s =
     (if JSON_MAX_BTN < length (se_buttons env) then Inl Out_Of_Bounds
      else Inr (respond env msg (js_encode_list (se_json env) (se_device_id env) (numbered_states (se_buttons env))) s))"

definition btn_handler :: "server_env \<Rightarrow> ot_message \<Rightarrow> coap_server \<Rightarrow> fault + int \<times> coap_server" where
  [op_defs]: "btn_handler env msg s = coap_req_handler None (btn_handler_get env) msg s"

section \<open>Initialisation\<close>

datatype pin_call = Pin_Output nat | Pin_Input nat | Pin_Interrupt nat

text \<open>\<open>ready\<close> and \<open>ret\<close> are the driver's answers.\<close>

fun led_init :: "(nat \<Rightarrow> bool) \<Rightarrow> (pin_call \<Rightarrow> int) \<Rightarrow> nat list \<Rightarrow> int \<times> pin_call list" where
  "led_init ready ret [] = (0, [])"
| "led_init ready ret (i # is) =
     (if \<not> ready i then (- ENODEV, [])
      else if ret (Pin_Output i) \<noteq> 0 then (ret (Pin_Output i), [Pin_Output i])
      else let (r, made) = led_init ready ret is in (r, Pin_Output i # made))"

definition button_init :: "(nat \<Rightarrow> bool) \<Rightarrow> (pin_call \<Rightarrow> int) \<Rightarrow> nat \<Rightarrow> int \<times> pin_call list" where
  [op_defs]: "button_init ready ret i =
     (if \<not> ready i then (- ENODEV, []) else first_error ret [Pin_Input i, Pin_Interrupt i])"

fun button_init_rsc :: "(nat \<Rightarrow> bool) \<Rightarrow> (pin_call \<Rightarrow> int) \<Rightarrow> nat list \<Rightarrow> int \<times> pin_call list" where
  "button_init_rsc ready ret [] = (0, [])"
| "button_init_rsc ready ret (i # is) =
     (let (r, made) = button_init ready ret i
      in if r \<noteq> 0 then (r, made) else let (r', made') = button_init_rsc ready ret is in (r', made @ made'))"

section \<open>Properties\<close>

definition led_bits :: "int list \<Rightarrow> bool" where
  "led_bits xs \<longleftrightarrow> set xs \<subseteq> {0, 1} \<and> length xs \<le> JSON_MAX_LED"

text \<open>The LEDs as their user sees them.\<close>

definition lit :: "coap_server \<Rightarrow> bool list" where
  "lit s = map (\<lambda>x. x = 1) (sv_leds s)"

text \<open>What a request asks for; \<open>None\<close> asks for nothing.\<close>

definition asked :: "int \<Rightarrow> bool \<Rightarrow> bool option" where
  "asked state old =
     (if state = 1 then Some True else if state = 0 then Some False else if state = 2 then Some (\<not> old) else None)"

lemma numbered_nth: "i < length xs \<Longrightarrow> numbered_states xs ! i = (int i, xs ! i)"
  by (simp add: numbered_states_def)

lemma respond_frame: "sv_leds (snd (respond env msg buf s)) = sv_leds s" "sv_gpio (snd (respond env msg buf s)) = sv_gpio s"
  by (simp_all add: respond_def Let_def split: prod.split option.split)

lemma led_bits_update: "led_bits xs \<Longrightarrow> x \<in> {0, 1} \<Longrightarrow> led_bits (xs[i := x])"
  using set_update_subset_insert [of xs i x] by (auto simp: led_bits_def)

lemma put_effect:
  assumes "led_bits (sv_leds s)" "js_parse_state (se_json env) buf (se_junk env) = (k, state)" "0 \<le> k"
  shows "\<exists>ret s'. led_handler_put env buf s = Inr (ret, s') \<and> led_bits (sv_leds s') \<and> length (sv_leds s') = length (sv_leds s) \<and>
    (case (if k < int (length (sv_leds s)) then asked state (lit s ! nat k) else None) of
       None \<Rightarrow> ret = - EINVAL \<and> s' = s
     | Some b \<Rightarrow> ret = se_gpio_set env (nat k) \<and> lit s' = (lit s)[nat k := b] \<and>
         sv_gpio s' = sv_gpio s @ [(nat k, if b then 1 else 0)])"
proof (cases "k < int (length (sv_leds s))")
  case False
  then show ?thesis
    using assms by (simp add: led_handler_put_def)
next
  case True
  then have i: "nat k < length (sv_leds s)"
    using assms(3) by linarith
  then have "sv_leds s ! nat k \<in> {0, 1}"
    using assms(1) nth_mem by (fastforce simp: led_bits_def)
  then show ?thesis
    using assms(1-3) i True led_bits_update [OF assms(1)]
    by (auto simp: led_handler_put_def led_write_def asked_def lit_def map_update Let_def
        LED_MSG_STATE_ON_def LED_MSG_STATE_OFF_def LED_MSG_STATE_TOGGLE_def)
qed

text \<open>
  The LED resource does what its requests ask: a PUT with an id that is not negative, in a
  payload that fits, sets, clears or toggles that LED and no other, on the pin and in the
  state kept, or is refused with \<open>-EINVAL\<close> and changes nothing; a confirmable one is
  answered with the states after it.
\<close>

theorem led_put_exact:
  assumes "led_bits (sv_leds s)" "js_parse_state (se_json env) (om_payload msg) (se_junk env) = (k, state)" "0 \<le> k"
    "length (om_payload msg) \<le> COAP_MAX_BUF_SIZE" "om_type msg = Confirmable" "om_code msg = Code_Put"
    "\<forall>i. se_gpio_set env i = 0" "ot_instance (se_ot env)" "ot_alloc (se_ot env)" "\<forall>c. ot_ok (se_ot env) c"
  shows "\<exists>ret s'. led_handler env msg s = Inr (ret, s') \<and> led_bits (sv_leds s') \<and> length (sv_leds s') = length (sv_leds s) \<and>
    (case (if k < int (length (sv_leds s)) then asked state (lit s ! nat k) else None) of
       None \<Rightarrow> ret = - EINVAL \<and> s' = s
     | Some b \<Rightarrow> ret = 0 \<and> lit s' = (lit s)[nat k := b] \<and> sv_gpio s' = sv_gpio s @ [(nat k, if b then 1 else 0)] \<and>
         sv_sent s' = sv_sent s @ [\<lparr>om_type = Acknowledgment, om_code = Code_Changed,
           om_payload = js_encode_list (se_json env) (se_device_id env) (numbered_states (sv_leds s'))\<rparr>])"
proof -
  obtain ret s1 where put: "led_handler_put env (om_payload msg) s = Inr (ret, s1)" "led_bits (sv_leds s1)"
      "length (sv_leds s1) = length (sv_leds s)" "case (if k < int (length (sv_leds s)) then asked state (lit s ! nat k) else None) of
         None \<Rightarrow> ret = - EINVAL \<and> s1 = s
       | Some b \<Rightarrow> ret = se_gpio_set env (nat k) \<and> lit s1 = (lit s)[nat k := b] \<and>
           sv_gpio s1 = sv_gpio s @ [(nat k, if b then 1 else 0)]"
    using put_effect [OF assms(1-3)] by blast
  have sent: "sv_sent s1 = sv_sent s"
    using put(1) by (auto simp: led_handler_put_def led_write_def Let_def split: prod.splits if_splits)
  have chain: "ot_chain (ot_ok (se_ot env)) [(Init_Response, - EBADMSG), (Set_Payload_Marker, - EBADMSG),
      (Append_Payload, - EBADMSG), (Send_Response, - EIO)] =
      (0, [Init_Response, Set_Payload_Marker, Append_Payload, Send_Response])"
    using assms(10) by simp
  have get: "led_handler_get env msg s1 = Inr (0, s1\<lparr>sv_sent := sv_sent s1 @ [\<lparr>om_type = Acknowledgment, om_code = Code_Changed,
      om_payload = js_encode_list (se_json env) (se_device_id env) (numbered_states (sv_leds s1))\<rparr>]\<rparr>)"
    using put(2) assms(5,6,8,9) chain
    by (simp add: led_handler_get_def led_bits_def respond_def coap_resp_send_def response_type_def response_code_def Let_def)
  show ?thesis
  proof (cases "if k < int (length (sv_leds s)) then asked state (lit s ! nat k) else None")
    case None
    then show ?thesis
      using put assms(1,4-6) by (simp add: led_handler_def coap_req_handler_def)
  next
    case (Some b)
    then have "ret = 0"
      using put(4) assms(7) by simp
    then have "led_handler env msg s = led_handler_get env msg s1"
      using put(1) assms(4-6) by (simp add: led_handler_def coap_req_handler_def)
    then show ?thesis
      using Some put get sent by (simp add: lit_def)
  qed
qed

text \<open>A negative id passes the check of the handler and is used as an index.\<close>

theorem led_put_negative_id:
  assumes "js_parse_state (se_json env) (om_payload msg) (se_junk env) = (k, state)" "k < 0"
    "length (om_payload msg) \<le> COAP_MAX_BUF_SIZE" "om_type msg = Confirmable \<or> om_type msg = Non_Confirmable"
    "om_code msg = Code_Put"
  shows "led_handler env msg s = Inl Out_Of_Bounds"
  using assms by (auto simp: led_handler_def coap_req_handler_def led_handler_put_def)

text \<open>The button resource never changes anything but the replies it sends, and refuses PUT.\<close>

theorem btn_read_only:
  "btn_handler env msg s = Inr (ret, s') \<Longrightarrow> sv_leds s' = sv_leds s \<and> sv_gpio s' = sv_gpio s \<and>
    (om_code msg = Code_Put \<longrightarrow> ret = - EINVAL \<and> s' = s)"
  using respond_frame
  by (auto simp: btn_handler_def coap_req_handler_def btn_handler_get_def split: if_splits) (metis snd_conv)+

end
