(* ===== verification/Coap_Client.thy ===== *)
theory Coap_Client
  imports Coap_Server Bytes
begin

text \<open>
  The client side of \<open>led.c\<close> and \<open>button.c\<close>, and \<open>coap_shell.c\<close>. A request that was sent ends in
  a call of the response handler, with no message when no response came; the handler
  fills the caller's structure, whose contents before are \<open>junk\<close>.
\<close>

datatype answer = No_Response | Response ot_message

definition coap_led_set_state :: "ot_env \<Rightarrow> json_ops \<Rightarrow> int \<Rightarrow> int \<Rightarrow> int \<times> ot_message option" where
  [op_defs]: "coap_led_set_state env js led_id state =
     (let (ret, calls) = coap_req_send env
      in (ret, if ret = 0 then Some \<lparr>om_type = Confirmable, om_code = Code_Put, om_payload = js_encode_state js (led_id, state)\<rparr>
               else None))"

definition get_request :: ot_message where
  "get_request = \<lparr>om_type = Confirmable, om_code = Code_Get, om_payload = []\<rparr>"

definition coap_led_get_state_cb :: "json_ops \<Rightarrow> (int \<times> int) list \<Rightarrow> answer \<Rightarrow> fault + (int \<times> int) list" where
  [op_defs]: "coap_led_get_state_cb js junk a =
     (case a of
        No_Response \<Rightarrow> Inl Null_Message
      | Response m \<Rightarrow>
          case coap_get_data m COAP_MAX_BUF_SIZE of
            Inl e \<Rightarrow> Inr []
          | Inr buf \<Rightarrow> Inr (js_parse_list js buf junk))"

definition coap_led_get_state ::
  "ot_env \<Rightarrow> json_ops \<Rightarrow> (int \<times> int) list \<Rightarrow> answer \<Rightarrow> int \<Rightarrow> fault + int \<times> int option" where
  [op_defs]: "coap_led_get_state env js junk a led_id =
     (let (ret, calls) = coap_req_send env
      in if ret \<noteq> 0 then Inr (ret, None)
         else
           case coap_led_get_state_cb js junk a of
             Inl f \<Rightarrow> Inl f
           | Inr leds \<Rightarrow>
               if led_id \<ge> int (length leds) then Inr (- ENODEV, None)
               else if led_id < 0 then Inl Out_Of_Bounds
               else Inr (0, Some (snd (leds ! nat led_id))))"

definition coap_btn_get_state_cb :: "json_ops \<Rightarrow> (int \<times> int) list \<Rightarrow> answer \<Rightarrow> fault + (int \<times> int) list" where
  [op_defs]: "coap_btn_get_state_cb js junk a =
     (case a of
        No_Response \<Rightarrow> Inl Null_Message
      | Response m \<Rightarrow>
          case coap_get_data m COAP_MAX_BUF_SIZE of
            Inl e \<Rightarrow> Inr []
          | Inr buf \<Rightarrow> Inr (js_parse_list js buf junk))"

definition coap_btn_get_state ::
  "ot_env \<Rightarrow> json_ops \<Rightarrow> (int \<times> int) list \<Rightarrow> answer \<Rightarrow> int \<Rightarrow> fault + int \<times> int option" where
  [op_defs]: "coap_btn_get_state env js junk a btn_id =
     (let (ret, calls) = coap_req_send env
      in if ret \<noteq> 0 then Inr (ret, None)
         else
           case coap_btn_get_state_cb js junk a of
             Inl f \<Rightarrow> Inl f
           | Inr btns \<Rightarrow>
               if btn_id \<ge> int (length btns) then Inr (- ENODEV, None)
               else if btn_id < 0 then Inl Out_Of_Bounds
               else Inr (0, Some (snd (btns ! nat btn_id))))"

section \<open>Shell commands\<close>

text \<open>
  What a command asks for: an error, or an address with an id (and a state).
  \<open>strtol\<close> is \<open>shell_strtol\<close>, an error on the left.
\<close>

definition coap_cmd_led_set :: "(string \<Rightarrow> int + int) \<Rightarrow> string list \<Rightarrow> int + string \<times> int \<times> int" where
  [op_defs]: "coap_cmd_led_set strtol argv =
     (case strtol (argv ! 1) of
        Inl err \<Rightarrow> Inl err
      | Inr led_id \<Rightarrow>
          let addr = (if length argv \<le> 3 then ''ff03::1'' else argv ! 3)
          in if argv ! 2 = ''on'' then Inr (addr, led_id, LED_MSG_STATE_ON)
             else if argv ! 2 = ''off'' then Inr (addr, led_id, LED_MSG_STATE_OFF)
             else if argv ! 2 = ''toggle'' then Inr (addr, led_id, LED_MSG_STATE_TOGGLE)
             else Inl (- EINVAL))"

definition coap_cmd_led_get :: "(string \<Rightarrow> int + int) \<Rightarrow> string list \<Rightarrow> int + string \<times> int" where
  [op_defs]: "coap_cmd_led_get strtol argv =
     (case strtol (argv ! 1) of
        Inl err \<Rightarrow> Inl err
      | Inr led_id \<Rightarrow> Inr (if length argv \<le> 3 then ''ff03::1'' else argv ! 3, led_id))"

definition coap_cmd_btn_get :: "(string \<Rightarrow> int + int) \<Rightarrow> string list \<Rightarrow> int + string \<times> int" where
  [op_defs]: "coap_cmd_btn_get strtol argv =
     (case strtol (argv ! 1) of
        Inl err \<Rightarrow> Inl err
      | Inr btn_id \<Rightarrow> Inr (if length argv \<le> 3 then ''ff03::1'' else argv ! 3, btn_id))"

text \<open>The number of arguments, the command's own name included, that the shell lets through.\<close>

definition led_set_args :: "nat set" where "led_set_args = {3, 4}"
definition led_get_args :: "nat set" where "led_get_args = {2, 3}"
definition btn_get_args :: "nat set" where "btn_get_args = {2, 3}"

section \<open>Properties\<close>

text \<open>
  What the JSON library promises: a text it made of C integers is read back, whatever was
  there before. \<open>fits\<close>: the texts for \<open>n\<close> LEDs fit the buffers of the sample.
\<close>

definition c_int :: "int \<Rightarrow> bool" where
  "c_int x \<longleftrightarrow> - (2 ^ 31) \<le> x \<and> x < 2 ^ 31"

definition led_entries :: "nat \<Rightarrow> (int \<times> int) list \<Rightarrow> bool" where
  "led_entries n xs \<longleftrightarrow> length xs \<le> n \<and> set xs \<subseteq> {0..<int JSON_MAX_LED} \<times> {0, 1}"

definition json_spec :: "json_ops \<Rightarrow> bool" where
  "json_spec js \<longleftrightarrow> (\<forall>a b j. c_int a \<and> c_int b \<longrightarrow> js_parse_state js (js_encode_state js (a, b)) j = (a, b)) \<and>
     (\<forall>d xs j. led_entries JSON_MAX_LED xs \<longrightarrow> js_parse_list js (js_encode_list js d xs) j = xs)"

definition fits :: "json_ops \<Rightarrow> string \<Rightarrow> nat \<Rightarrow> bool" where
  "fits js d n \<longleftrightarrow> (\<forall>a b. c_int a \<and> c_int b \<longrightarrow> length (js_encode_state js (a, b)) \<le> COAP_MAX_BUF_SIZE) \<and>
     (\<forall>xs. led_entries n xs \<longrightarrow> length (js_encode_list js d xs) \<le> COAP_MAX_BUF_SIZE)"

lemma numbered_entries: "led_bits xs \<Longrightarrow> led_entries (length xs) (numbered_states xs) \<and> led_entries JSON_MAX_LED (numbered_states xs)"
proof -
  assume bits: "led_bits xs"
  then have "xs ! i \<in> {0, 1}" if "i < length xs" for i
    using bits nth_mem [OF that] unfolding led_bits_def by blast
  then show ?thesis
    using bits by (auto simp: led_entries_def numbered_states_def led_bits_def set_zip)
qed

definition ot_works :: "ot_env \<Rightarrow> bool" where
  "ot_works env \<longleftrightarrow> ot_instance env \<and> ot_alloc env \<and> (\<forall>c. ot_ok env c)"

lemma req_send_works: "ot_works env \<Longrightarrow> fst (coap_req_send env) = 0"
  by (simp add: ot_works_def coap_req_send_def)

lemma get_replies:
  assumes "ot_works (se_ot env)" "led_bits (sv_leds s)"
  shows "led_handler env get_request s = Inr (0, s\<lparr>sv_sent := sv_sent s @ [\<lparr>om_type = Acknowledgment, om_code = Code_Content,
    om_payload = js_encode_list (se_json env) (se_device_id env) (numbered_states (sv_leds s))\<rparr>]\<rparr>)"
  using assms
  by (simp add: led_handler_def coap_req_handler_def get_request_def led_handler_get_def led_bits_def respond_def
      coap_resp_send_def response_type_def response_code_def ot_works_def Let_def)

text \<open>
  C24. Client and server together: after a client has set an LED that exists, and the server
  has handled the request, a client that asks is told the state set; an LED that does not
  exist is refused at both ends.
\<close>

theorem set_then_get:
  assumes "json_spec (se_json env)" "fits (se_json env) (se_device_id env) (length (sv_leds s))" "ot_works client" "ot_works (se_ot env)"
    "led_bits (sv_leds s)" "\<forall>i. se_gpio_set env i = 0" "0 \<le> k" "k < 2 ^ 31" "state \<in> {0, 1}"
  shows "\<exists>m ret s' reply. coap_led_set_state client (se_json env) k state = (0, Some m) \<and>
    led_handler env m s = Inr (ret, s') \<and>
    led_handler env get_request s' = Inr (0, s'\<lparr>sv_sent := sv_sent s' @ [reply]\<rparr>) \<and>
    coap_led_get_state client (se_json env) junk (Response reply) k =
      (if k < int (length (sv_leds s)) then Inr (0, Some state) else Inr (- ENODEV, None)) \<and>
    ret = (if k < int (length (sv_leds s)) then 0 else - EINVAL)"
proof -
  let ?js = "se_json env"
  let ?m = "\<lparr>om_type = Confirmable, om_code = Code_Put, om_payload = js_encode_state ?js (k, state)\<rparr>"
  have m: "coap_led_set_state client ?js k state = (0, Some ?m)"
    using req_send_works [OF assms(3)] by (simp add: coap_led_set_state_def split_beta)
  have ints: "c_int k" "c_int state"
    using assms(7-9) by (auto simp: c_int_def)
  have parse: "js_parse_state ?js (om_payload ?m) (se_junk env) = (k, state)"
    using assms(1) ints unfolding json_spec_def by (cases "se_junk env") simp
  have len: "length (om_payload ?m) \<le> COAP_MAX_BUF_SIZE"
    using assms(2) ints by (simp add: fits_def)
  obtain ret s' where put: "led_handler env ?m s = Inr (ret, s')" "led_bits (sv_leds s')"
      "length (sv_leds s') = length (sv_leds s)" "case (if k < int (length (sv_leds s)) then asked state (lit s ! nat k) else None) of
         None \<Rightarrow> ret = - EINVAL \<and> s' = s
       | Some b \<Rightarrow> ret = 0 \<and> lit s' = (lit s)[nat k := b]"
  proof -
    have "\<forall>c. ot_ok (se_ot env) c" "ot_instance (se_ot env)" "ot_alloc (se_ot env)"
      using assms(4) by (simp_all add: ot_works_def)
    from led_put_exact [OF assms(5) parse assms(7) len _ _ assms(6) this(2,3,1)]
    obtain ret s' where 1: "led_handler env ?m s = Inr (ret, s')" "led_bits (sv_leds s')"
      "length (sv_leds s') = length (sv_leds s)"
      "case (if k < int (length (sv_leds s)) then asked state (lit s ! nat k) else None) of
         None \<Rightarrow> ret = - EINVAL \<and> s' = s
       | Some b \<Rightarrow> ret = 0 \<and> lit s' = (lit s)[nat k := b] \<and> sv_gpio s' = sv_gpio s @ [(nat k, if b then 1 else 0)] \<and>
         sv_sent s' = sv_sent s @ [\<lparr>om_type = Acknowledgment, om_code = Code_Changed,
           om_payload = js_encode_list (se_json env) (se_device_id env) (numbered_states (sv_leds s'))\<rparr>]"
      by auto
    show thesis
      by (rule that [OF 1(1-3)]) (use 1(4) in \<open>auto split: option.splits if_splits\<close>)
  qed
  let ?reply = "\<lparr>om_type = Acknowledgment, om_code = Code_Content,
    om_payload = js_encode_list ?js (se_device_id env) (numbered_states (sv_leds s'))\<rparr>"
  have cb: "coap_led_get_state_cb ?js junk (Response ?reply) = Inr (numbered_states (sv_leds s'))"
  proof -
    have "length (om_payload ?reply) \<le> COAP_MAX_BUF_SIZE"
      using assms(2) numbered_entries [OF put(2)] put(3) by (simp add: fits_def)
    moreover have "js_parse_list ?js (om_payload ?reply) junk = numbered_states (sv_leds s')"
      using assms(1) numbered_entries [OF put(2)] by (simp add: json_spec_def)
    ultimately show ?thesis
      by (simp add: coap_led_get_state_cb_def coap_get_data_def)
  qed
  have get: "coap_led_get_state client ?js junk (Response ?reply) k =
      (if int (length (sv_leds s')) \<le> k then Inr (- ENODEV, None) else Inr (0, Some (sv_leds s' ! nat k)))"
    using req_send_works [OF assms(3)] assms(7)
    by (simp add: coap_led_get_state_def cb split_beta numbered_nth) (simp add: numbered_states_def)
  have "coap_led_get_state client ?js junk (Response ?reply) k =
      (if k < int (length (sv_leds s)) then Inr (0, Some state) else Inr (- ENODEV, None)) \<and>
    ret = (if k < int (length (sv_leds s)) then 0 else - EINVAL)"
  proof (cases "k < int (length (sv_leds s))")
    case False
    then show ?thesis using put(3,4) get by simp
  next
    case True
    then have i: "nat k < length (sv_leds s)"
      using assms(7) by linarith
    have "ret = 0" "lit s' = (lit s)[nat k := state = 1]"
      using put(4) True assms(9) by (auto simp: asked_def)
    have on: "(sv_leds s' ! nat k = 1) = (state = 1)"
    proof -
      have "lit s' ! nat k = (state = 1)"
        unfolding \<open>lit s' = (lit s)[nat k := state = 1]\<close> by (rule nth_list_update_eq) (simp add: lit_def i)
      then show ?thesis
        using i put(3) by (simp add: lit_def)
    qed
    have "sv_leds s' ! nat k \<in> {0, 1}"
      using put(2) nth_mem [of "nat k" "sv_leds s'"] i unfolding put(3) led_bits_def by blast
    then have "sv_leds s' ! nat k = state"
      using assms(9) on by auto
    then show ?thesis
      using get True \<open>ret = 0\<close> put(3) by simp
  qed
  then show ?thesis
    using m put(1) get_replies [OF assms(4) put(2)] by blast
qed

text \<open>
  The commands that read take an address in their help text but never use one: the shell
  passes at most three arguments, and the address is taken from the fourth.
\<close>

theorem get_ignores_address:
  "length argv \<in> led_get_args \<Longrightarrow> coap_cmd_led_get strtol argv = map_sum id (Pair ''ff03::1'') (strtol (argv ! 1))"
  "length argv \<in> btn_get_args \<Longrightarrow> coap_cmd_btn_get strtol argv = map_sum id (Pair ''ff03::1'') (strtol (argv ! 1))"
  "coap_cmd_led_set strtol [''set'', n, ''on'', addr] = map_sum id (\<lambda>k. (addr, k, 1)) (strtol n)"
  by (auto simp: coap_cmd_led_get_def coap_cmd_btn_get_def coap_cmd_led_set_def led_get_args_def btn_get_args_def
      LED_MSG_STATE_ON_def split: sum.split)

text \<open>A request that gets no response is answered to the handler without a message, which it uses.\<close>

theorem no_response_faults:
  "ot_works env \<Longrightarrow> coap_led_get_state env js junk No_Response k = Inl Null_Message"
  "ot_works env \<Longrightarrow> coap_btn_get_state env js junk No_Response k = Inl Null_Message"
  using req_send_works [of env]
  by (simp_all add: coap_led_get_state_def coap_btn_get_state_def coap_led_get_state_cb_def coap_btn_get_state_cb_def split_beta)

section \<open>Witnesses\<close>

text \<open>A JSON library that writes bytes.\<close>

fun byte_pairs :: "u8 list \<Rightarrow> (int \<times> int) list" where
  "byte_pairs (a # b # bs) = (uint a, uint b) # byte_pairs bs"
| "byte_pairs _ = []"

definition byte_json :: json_ops where
  "byte_json = \<lparr>js_parse_state = \<lambda>bs j. (sint (of_le (take 4 bs) :: u32), sint (of_le (drop 4 bs) :: u32)),
     js_encode_state = \<lambda>(a, b). le32 (word_of_int a) @ le32 (word_of_int b),
     js_encode_list = \<lambda>d xs. concat (map (\<lambda>(a, b). [word_of_int a, word_of_int b]) xs),
     js_parse_list = \<lambda>bs j. byte_pairs bs\<rparr>"

lemma byte_pairs_back:
  "set xs \<subseteq> {0..<4} \<times> {0, 1} \<Longrightarrow> byte_pairs (concat (map (\<lambda>(a, b). [word_of_int a, word_of_int b]) xs)) = xs"
  by (induction xs) (auto simp: uint_word_of_int)

lemma sint_c_int: "c_int x \<Longrightarrow> sint (word_of_int x :: u32) = x"
  by (simp add: c_int_def signed_of_int signed_take_bit_int_eq_self)

lemma length_pairs: "length (concat (map (\<lambda>(a, b). [f a, g b]) xs)) = 2 * length xs"
  by (induction xs) auto

lemma byte_json_ok: "json_spec byte_json" "n \<le> 4 \<Longrightarrow> fits byte_json d n"
  by (simp_all add: json_spec_def fits_def byte_json_def led_entries_def JSON_MAX_LED_def byte_pairs_back le32_def
      of_le_le_bytes sint_c_int COAP_MAX_BUF_SIZE_def length_pairs)

definition works :: ot_env where
  "works = \<lparr>ot_instance = True, ot_alloc = True, ot_ok = \<lambda>c. True\<rparr>"

definition sample_server :: server_env where
  "sample_server = \<lparr>se_json = byte_json, se_ot = works, se_device_id = ''id'', se_junk = (7, 7),
     se_gpio_set = \<lambda>i. 0, se_buttons = []\<rparr>"

lemma works_ok: "ot_works works"
  by (simp add: ot_works_def works_def)

lemma set_then_get_witness:
  "\<exists>m ret s' reply. led_handler sample_server m \<lparr>sv_leds = [0, 0], sv_gpio = [], sv_sent = []\<rparr> = Inr (ret, s') \<and>
    led_handler sample_server get_request s' = Inr (0, s'\<lparr>sv_sent := sv_sent s' @ [reply]\<rparr>) \<and>
    coap_led_get_state works byte_json [] (Response reply) 1 = Inr (0, Some 1)"
  using set_then_get [of sample_server "\<lparr>sv_leds = [0, 0], sv_gpio = [], sv_sent = []\<rparr>" works 1 1 "[]"] byte_json_ok works_ok
  by (fastforce simp: sample_server_def led_bits_def JSON_MAX_LED_def)

end
