(* ===== verification/Retained.thy ===== *)
theory Retained
  imports Bytes
begin

text \<open>
  \<open>samples/system_off/src/retained.c\<close> and its use in \<open>main.c\<close>: data that survives SYSTEM OFF,
  with a checksum over its image. The retained memory is a list of bytes; \<open>crc\<close> is
  \<open>crc32_ieee\<close>, with the residue the comment in the code states.
\<close>

record retained_data =
  rt_uptime_latest :: u64
  rt_uptime_sum :: u64
  rt_boots :: u32
  rt_off_count :: u32
  rt_crc :: u32

definition RETAINED_CRC_OFFSET :: nat where "RETAINED_CRC_OFFSET = 24"
definition RETAINED_CHECKED_SIZE :: nat where "RETAINED_CHECKED_SIZE = RETAINED_CRC_OFFSET + 4"
definition CRC_RESIDUE :: u32 where "CRC_RESIDUE = 0x2144df1c"

definition zero_retained :: retained_data where
  "zero_retained = \<lparr>rt_uptime_latest = 0, rt_uptime_sum = 0, rt_boots = 0, rt_off_count = 0, rt_crc = 0\<rparr>"

text \<open>The image, with the four bytes that pad it to a multiple of eight.\<close>

definition retained_prefix :: "retained_data \<Rightarrow> u8 list" where
  "retained_prefix r = le64 (rt_uptime_latest r) @ le64 (rt_uptime_sum r) @ le32 (rt_boots r) @ le32 (rt_off_count r)"

definition retained_bytes :: "retained_data \<Rightarrow> u8 list" where
  "retained_bytes r = retained_prefix r @ le32 (rt_crc r) @ [0, 0, 0, 0]"

definition retained_of_bytes :: "u8 list \<Rightarrow> retained_data" where
  "retained_of_bytes bs = \<lparr>rt_uptime_latest = field bs 0 8, rt_uptime_sum = field bs 8 8, rt_boots = field bs 16 4,
     rt_off_count = field bs 20 4, rt_crc = field bs 24 4\<rparr>"

definition retained_validate :: "(u8 list \<Rightarrow> u32) \<Rightarrow> u8 list \<Rightarrow> bool \<times> retained_data" where
  [op_defs]: "retained_validate crc mem =
     (let r = retained_of_bytes mem; valid = (crc (take RETAINED_CHECKED_SIZE mem) = CRC_RESIDUE);
          r1 = (if valid then r else zero_retained)
      in (valid, r1\<lparr>rt_uptime_latest := 0\<rparr>))"

text \<open>The data and the memory written.\<close>

definition retained_update :: "(u8 list \<Rightarrow> u32) \<Rightarrow> u64 \<Rightarrow> retained_data \<Rightarrow> retained_data \<times> u8 list" where
  [op_defs]: "retained_update crc now r =
     (let r1 = r\<lparr>rt_uptime_sum := rt_uptime_sum r + (now - rt_uptime_latest r), rt_uptime_latest := now\<rparr>;
          r2 = r1\<lparr>rt_crc := crc (retained_prefix r1)\<rparr>
      in (r2, retained_bytes r2))"

text \<open>
  \<open>main\<close> with retained memory: the start, up to the first update, and the part before
  \<open>sys_poweroff\<close>. \<open>cold\<close>: the reset cause is not a wake-up.
\<close>

definition system_off_boot :: "(u8 list \<Rightarrow> u32) \<Rightarrow> bool \<Rightarrow> u64 \<Rightarrow> u8 list \<Rightarrow> retained_data \<times> u8 list" where
  [op_defs]: "system_off_boot crc cold now mem =
     (let r = snd (retained_validate crc mem);
          r1 = (if cold then r\<lparr>rt_boots := 0, rt_off_count := 0, rt_uptime_sum := 0, rt_uptime_latest := 0\<rparr> else r)
      in retained_update crc now (r1\<lparr>rt_boots := rt_boots r1 + 1\<rparr>))"

definition system_off_sleep :: "(u8 list \<Rightarrow> u32) \<Rightarrow> u64 \<Rightarrow> retained_data \<Rightarrow> retained_data \<times> u8 list" where
  [op_defs]: "system_off_sleep crc now r = retained_update crc now (r\<lparr>rt_off_count := rt_off_count r + 1\<rparr>)"

section \<open>Properties\<close>

text \<open>A session from a wake-up to SYSTEM OFF, with the uptimes of its two updates.\<close>

definition session :: "(u8 list \<Rightarrow> u32) \<Rightarrow> u64 \<times> u64 \<Rightarrow> u8 list \<Rightarrow> u8 list" where
  "session crc t mem = snd (system_off_sleep crc (snd t) (fst (system_off_boot crc False (fst t) mem)))"

definition crc_residue :: "(u8 list \<Rightarrow> u32) \<Rightarrow> bool" where
  "crc_residue crc \<longleftrightarrow> (\<forall>bs. crc (bs @ le32 (crc bs)) = CRC_RESIDUE)"

lemma length_prefix [simp]: "length (retained_prefix r) = 24"
  by (simp add: retained_prefix_def)

lemma retained_back [simp]: "retained_of_bytes (retained_bytes r) = r"
  by (simp add: retained_of_bytes_def retained_bytes_def retained_prefix_def)

lemma update_valid:
  assumes "crc_residue crc" "retained_update crc now r = (r', mem)"
  shows "retained_validate crc mem = (True, r'\<lparr>rt_uptime_latest := 0\<rparr>)"
proof -
  have mem: "mem = retained_bytes r'" and crc: "rt_crc r' = crc (retained_prefix r')"
    using assms(2) by (auto simp: retained_update_def Let_def retained_prefix_def)
  have "take RETAINED_CHECKED_SIZE mem = retained_prefix r' @ le32 (crc (retained_prefix r'))"
    by (simp add: mem retained_bytes_def RETAINED_CHECKED_SIZE_def RETAINED_CRC_OFFSET_def crc)
  then show ?thesis
    using assms(1) by (simp add: retained_validate_def mem crc_residue_def Let_def)
qed

definition counted :: "u64 \<Rightarrow> nat \<Rightarrow> u8 list \<Rightarrow> (u8 list \<Rightarrow> u32) \<Rightarrow> bool" where
  "counted ticks n mem crc \<longleftrightarrow> (\<exists>r. retained_validate crc mem = (True, r) \<and> rt_uptime_latest r = 0 \<and> rt_uptime_sum r = ticks \<and>
     rt_boots r = of_nat n \<and> rt_off_count r = of_nat n)"

lemma session_counts:
  assumes "crc_residue crc" "counted ticks n mem crc"
  shows "counted (ticks + snd t) (Suc n) (session crc t mem) crc"
proof -
  obtain r where r: "retained_validate crc mem = (True, r)" "rt_uptime_latest r = 0" "rt_uptime_sum r = ticks"
      "rt_boots r = of_nat n" "rt_off_count r = of_nat n"
    using assms(2) unfolding counted_def by blast
  obtain r1 m1 where b: "system_off_boot crc False (fst t) mem = (r1, m1)"
    by fastforce
  obtain r2 m2 where s: "system_off_sleep crc (snd t) r1 = (r2, m2)"
    by fastforce
  have r1: "rt_uptime_latest r1 = fst t" "rt_uptime_sum r1 = ticks + fst t" "rt_boots r1 = of_nat (Suc n)"
      "rt_off_count r1 = of_nat n"
    using b r by (auto simp: system_off_boot_def retained_update_def Let_def)
  have r2: "rt_uptime_sum r2 = ticks + snd t" "rt_boots r2 = of_nat (Suc n)" "rt_off_count r2 = of_nat (Suc n)"
    using s r1 by (auto simp: system_off_sleep_def retained_update_def Let_def)
  have "retained_validate crc m2 = (True, r2\<lparr>rt_uptime_latest := 0\<rparr>)"
    using update_valid [OF assms(1)] s unfolding system_off_sleep_def .
  then show ?thesis
    using b s r2 by (simp add: counted_def session_def)
qed

text \<open>
  C30. The counters survive SYSTEM OFF: after a cold start and \<open>n\<close> further sessions the data is
  valid, it counts \<open>n + 1\<close> boots and as many times off, and the uptimes add up, whatever the
  memory held before the cold start.
\<close>

theorem retained_accumulates:
  fixes t1 t2 :: u64 and mem :: "u8 list"
  assumes "crc_residue crc"
  defines "start \<equiv> snd (system_off_sleep crc t2 (fst (system_off_boot crc True t1 mem)))"
  shows "\<exists>r. retained_validate crc (fold (session crc) ts start) = (True, r) \<and>
    rt_boots r = of_nat (Suc (length ts)) \<and> rt_off_count r = of_nat (Suc (length ts)) \<and>
    rt_uptime_sum r = t2 + sum_list (map snd ts)"
proof -
  obtain r1 m1 where b: "system_off_boot crc True t1 mem = (r1, m1)"
    by fastforce
  obtain r2 m2 where s: "system_off_sleep crc t2 r1 = (r2, m2)"
    by fastforce
  have r1: "rt_uptime_latest r1 = t1" "rt_uptime_sum r1 = t1" "rt_boots r1 = 1" "rt_off_count r1 = 0"
    using b by (auto simp: system_off_boot_def retained_update_def Let_def)
  have r2: "rt_uptime_sum r2 = t2" "rt_boots r2 = 1" "rt_off_count r2 = 1"
    using s r1 by (auto simp: system_off_sleep_def retained_update_def Let_def)
  have "retained_validate crc m2 = (True, r2\<lparr>rt_uptime_latest := 0\<rparr>)"
    using update_valid [OF assms(1)] s unfolding system_off_sleep_def .
  then have "counted t2 1 start crc"
    using b s r2 by (simp add: counted_def start_def)
  then have "counted (t2 + sum_list (map snd ts)) (Suc (length ts)) (fold (session crc) ts start) crc"
  proof (induction ts rule: rev_induct)
    case (snoc t ts)
    then show ?case
      using session_counts [OF assms(1), of "t2 + sum_list (map snd ts)" "Suc (length ts)" _ t] by (simp add: add.assoc)
  qed simp
  then show ?thesis
    unfolding counted_def by blast
qed

text \<open>Data whose checksum is wrong is not used: the counters start again from zero.\<close>

theorem corrupt_starts_again:
  "crc (take RETAINED_CHECKED_SIZE mem) \<noteq> CRC_RESIDUE \<Longrightarrow>
    rt_boots (fst (system_off_boot crc False now mem)) = 1 \<and> rt_uptime_sum (fst (system_off_boot crc False now mem)) = now"
  by (simp add: system_off_boot_def retained_validate_def retained_update_def zero_retained_def Let_def)

lemma retained_accumulates_witness:
  "\<exists>r. retained_validate (\<lambda>bs. CRC_RESIDUE) (fold (session (\<lambda>bs. CRC_RESIDUE)) [(1, 5), (2, 7)]
      (snd (system_off_sleep (\<lambda>bs. CRC_RESIDUE) 10 (fst (system_off_boot (\<lambda>bs. CRC_RESIDUE) True 3 []))))) = (True, r) \<and>
    rt_boots r = 3 \<and> rt_uptime_sum r = 22"
  using retained_accumulates [of "\<lambda>bs. CRC_RESIDUE" "[(1, 5), (2, 7)]" 10 3 "[]"] by (auto simp: crc_residue_def)

end
