(* ===== verification/Ndef_Flash.thy ===== *)
theory Ndef_Flash
  imports Prelude
begin

text \<open>
  \<open>samples/nfc/writable_ndef_msg\<close>: the NDEF file in flash (\<open>src/ndef_file_m.c\<close>) and the
  handover of an updated message from the NFC callback to the main loop (\<open>src/main.c\<close>),
  which is a state machine on the atomic \<open>op_flags\<close> with the two contexts interleaved. The
  callback runs in the context in which the NFC library writes, so that its copy is one
  step.
  The file system and the NDEF encoder are parameters.
\<close>

definition FLASH_URL_ADDRESS_ID :: nat where "FLASH_URL_ADDRESS_ID = 1"
definition NFC_NDEF_FILE_NLEN_FIELD_SIZE :: nat where "NFC_NDEF_FILE_NLEN_FIELD_SIZE = 2"

section \<open>The file\<close>

record 'f ndef_fs =
  nf_mount :: int
  nf_write :: "nat \<Rightarrow> u8 list \<Rightarrow> 'f \<Rightarrow> int \<times> 'f"
  nf_read :: "nat \<Rightarrow> nat \<Rightarrow> 'f \<Rightarrow> int \<times> u8 list"

text \<open>
  What the encoders return for a buffer of a size: the value of the URI encoder, that of
  the file encoder, and the file.
\<close>

type_synonym ndef_encoder = "nat \<Rightarrow> int \<times> int \<times> u8 list"

definition overwrite :: "u8 list \<Rightarrow> u8 list \<Rightarrow> u8 list" where
  "overwrite bs buff = bs @ drop (length bs) buff"

definition ndef_file_setup :: "bool \<Rightarrow> 'f ndef_fs \<Rightarrow> int" where
  [op_defs]: "ndef_file_setup device fs = (if \<not> device then - ENODEV else nf_mount fs)"

definition ndef_file_update :: "'f ndef_fs \<Rightarrow> u8 list \<Rightarrow> nat \<Rightarrow> 'f \<Rightarrow> int \<times> 'f" where
  [op_defs]: "ndef_file_update fs buff room f = nf_write fs FLASH_URL_ADDRESS_ID (take room buff) f"

text \<open>The value returned, the buffer and the size it holds.\<close>

definition ndef_file_default_message :: "ndef_encoder \<Rightarrow> u8 list \<Rightarrow> nat \<Rightarrow> int \<times> u8 list \<times> nat" where
  [op_defs]: "ndef_file_default_message enc buff room =
     (let (err, err2, file) = enc room
      in if err \<noteq> 0 then (err, buff, room)
         else if err2 \<noteq> 0 then (err2, buff, room)
         else (0, overwrite file buff, length file))"

definition ndef_restore_default :: "'f ndef_fs \<Rightarrow> ndef_encoder \<Rightarrow> u8 list \<Rightarrow> nat \<Rightarrow> 'f \<Rightarrow> int \<times> u8 list \<times> 'f" where
  [op_defs]: "ndef_restore_default fs enc buff room f =
     (let (err, buff1, room1) = ndef_file_default_message enc buff room
      in if err < 0 then (err, buff1, f)
         else let (err2, f1) = ndef_file_update fs buff1 room1 f in (err2, buff1, f1))"

definition ndef_file_load :: "'f ndef_fs \<Rightarrow> ndef_encoder \<Rightarrow> u8 list \<Rightarrow> nat \<Rightarrow> 'f \<Rightarrow> int \<times> u8 list \<times> 'f" where
  [op_defs]: "ndef_file_load fs enc buff room f =
     (let (err, data) = nf_read fs FLASH_URL_ADDRESS_ID room f
      in if err > 0 then (err, overwrite data buff, f) else ndef_restore_default fs enc buff room f)"

text \<open>
  What the file system promises: an entry written is read back, cut to the size asked for,
  with its length as result; no entry gives an error. \<open>get\<close> reads the state.
\<close>

definition fs_spec :: "'f ndef_fs \<Rightarrow> ('f \<Rightarrow> nat \<Rightarrow> u8 list option) \<Rightarrow> bool" where
  "fs_spec fs get \<longleftrightarrow>
     (\<forall>i bs f. bs \<noteq> [] \<and> 0 \<le> fst (nf_write fs i bs f) \<longrightarrow> get (snd (nf_write fs i bs f)) i = Some bs) \<and>
     (\<forall>i n f. case get f i of
        Some bs \<Rightarrow> nf_read fs i n f = (int (length bs), take n bs)
      | None \<Rightarrow> fst (nf_read fs i n f) < 0)"

lemma fs_read:
  "fs_spec fs get \<Longrightarrow> get f i = Some bs \<Longrightarrow> nf_read fs i n f = (int (length bs), take n bs)"
  "fs_spec fs get \<Longrightarrow> get f i = None \<Longrightarrow> fst (nf_read fs i n f) < 0"
proof -
  assume spec: "fs_spec fs get"
  then have "case get f i of Some bs \<Rightarrow> nf_read fs i n f = (int (length bs), take n bs) | None \<Rightarrow> fst (nf_read fs i n f) < 0"
    unfolding fs_spec_def by blast
  then show "get f i = Some bs \<Longrightarrow> nf_read fs i n f = (int (length bs), take n bs)"
    "get f i = None \<Longrightarrow> fst (nf_read fs i n f) < 0"
    by simp_all
qed

text \<open>
  The first start writes the default message, and every later start loads the same:
  after a load that succeeded, a restart yields the message that is in the buffer.
\<close>

theorem load_then_load:
  assumes "fs_spec fs get" "enc room = (0, 0, file)" "file \<noteq> []" "length file \<le> room" "length buff = room" "length buff2 = room"
    "\<forall>bs. get f FLASH_URL_ADDRESS_ID = Some bs \<longrightarrow> bs \<noteq> [] \<and> length bs \<le> room"
    "ndef_file_load fs enc buff room f = (ret, buff1, f1)" "0 \<le> ret"
  shows "\<exists>bs. get f1 FLASH_URL_ADDRESS_ID = Some bs \<and> take (length bs) buff1 = bs \<and>
    (get f FLASH_URL_ADDRESS_ID = Some bs \<or> get f FLASH_URL_ADDRESS_ID = None \<and> bs = file) \<and>
    ndef_file_load fs enc buff2 room f1 = (int (length bs), overwrite bs buff2, f1)"
proof (cases "get f FLASH_URL_ADDRESS_ID")
  case (Some bs)
  then have "bs \<noteq> []" "length bs \<le> room"
    using assms(7) by auto
  then show ?thesis
    using fs_read(1) [OF assms(1) Some] assms(8) Some by (auto simp: ndef_file_load_def overwrite_def)
next
  case None
  obtain err data where rd: "nf_read fs FLASH_URL_ADDRESS_ID room f = (err, data)"
    by fastforce
  then have "err < 0"
    using fs_read(2) [OF assms(1) None, of room] by simp
  then have restore: "ndef_restore_default fs enc buff room f = (ret, buff1, f1)"
    using assms(8) rd by (simp add: ndef_file_load_def)
  have w: "nf_write fs FLASH_URL_ADDRESS_ID file f = (ret, f1)" "buff1 = overwrite file buff"
    using restore assms(2)
    by (auto simp: ndef_restore_default_def ndef_file_default_message_def ndef_file_update_def overwrite_def split: prod.splits)
  then have g: "get f1 FLASH_URL_ADDRESS_ID = Some file"
    using assms(1,3,9) unfolding fs_spec_def by (metis fst_conv snd_conv)
  show ?thesis
    using fs_read(1) [OF assms(1) g, of room] w(2) assms(3,4) None g by (auto simp: ndef_file_load_def overwrite_def)
qed

section \<open>The handover\<close>

datatype op_flags = Flash_Write_Finished | Flash_Buf_Prep_Started | Flash_Buf_Prep_Finished | Flash_Write_Started

text \<open>Where the callback and the main loop are.\<close>

datatype cb_pc = Cb_Idle | Cb_Copy nat | Cb_Finish
datatype main_pc = Main_Idle | Main_Write | Main_Finish

text \<open>
  \<open>nd_captured\<close> is the message of the last update taken, with the length the library
  reported; \<open>nd_flashed\<close> is what was handed to \<open>ndef_file_update\<close>, with the update it was for;
  \<open>nd_discarded\<close> counts the updates refused.
\<close>

record ndef_sys =
  nd_flags :: op_flags
  nd_msg_buf :: "u8 list"
  nd_flash_buf :: "u8 list"
  nd_flash_len :: u8
  nd_cb :: cb_pc
  nd_main :: main_pc
  nd_captured :: "nat \<times> u8 list"
  nd_flashed :: "(u8 list \<times> nat \<times> u8 list) list"
  nd_discarded :: nat

definition prepare_begin :: "nat \<Rightarrow> ndef_sys \<Rightarrow> ndef_sys" where
  [op_defs]: "prepare_begin data_length s =
     (if nd_flags s = Flash_Write_Finished then s\<lparr>nd_flags := Flash_Buf_Prep_Started, nd_cb := Cb_Copy data_length\<rparr>
      else s\<lparr>nd_discarded := nd_discarded s + 1\<rparr>)"

definition prepare_copy :: "nat \<Rightarrow> ndef_sys \<Rightarrow> ndef_sys" where
  [op_defs]: "prepare_copy data_length s =
     s\<lparr>nd_flash_len := of_nat (data_length + NFC_NDEF_FILE_NLEN_FIELD_SIZE), nd_flash_buf := nd_msg_buf s,
       nd_captured := (data_length, nd_msg_buf s), nd_cb := Cb_Finish\<rparr>"

definition prepare_finish :: "ndef_sys \<Rightarrow> ndef_sys" where
  [op_defs]: "prepare_finish s = s\<lparr>nd_flags := Flash_Buf_Prep_Finished, nd_cb := Cb_Idle\<rparr>"

definition loop_begin :: "ndef_sys \<Rightarrow> ndef_sys" where
  [op_defs]: "loop_begin s =
     (if nd_flags s = Flash_Buf_Prep_Finished then s\<lparr>nd_flags := Flash_Write_Started, nd_main := Main_Write\<rparr> else s)"

definition loop_write :: "ndef_sys \<Rightarrow> ndef_sys" where
  [op_defs]: "loop_write s =
     s\<lparr>nd_flashed := nd_flashed s @ [(take (unat (nd_flash_len s)) (nd_flash_buf s), nd_captured s)], nd_main := Main_Finish\<rparr>"

definition loop_finish :: "ndef_sys \<Rightarrow> ndef_sys" where
  [op_defs]: "loop_finish s = s\<lparr>nd_flags := Flash_Write_Finished, nd_main := Main_Idle\<rparr>"

inductive ndef_step :: "ndef_sys \<Rightarrow> ndef_sys \<Rightarrow> bool" where
  Reader_Writes: "length bs = length (nd_msg_buf s) \<Longrightarrow> ndef_step s (s\<lparr>nd_msg_buf := bs\<rparr>)"
| Updated: "nd_cb s = Cb_Idle \<Longrightarrow> 0 < n \<Longrightarrow> ndef_step s (prepare_begin n s)"
| Copies: "nd_cb s = Cb_Copy n \<Longrightarrow> ndef_step s (prepare_copy n s)"
| Prepared: "nd_cb s = Cb_Finish \<Longrightarrow> ndef_step s (prepare_finish s)"
| Wakes: "nd_main s = Main_Idle \<Longrightarrow> ndef_step s (loop_begin s)"
| Flashes: "nd_main s = Main_Write \<Longrightarrow> ndef_step s (loop_write s)"
| Flashed: "nd_main s = Main_Finish \<Longrightarrow> ndef_step s (loop_finish s)"

inductive ndef_reach :: "ndef_sys \<Rightarrow> ndef_sys \<Rightarrow> bool" for s where
  ndef_start: "ndef_reach s s"
| ndef_next: "ndef_reach s t \<Longrightarrow> ndef_step t u \<Longrightarrow> ndef_reach s u"

lemma ndef_reach_ind:
  "ndef_reach s t \<Longrightarrow> P s \<Longrightarrow> (\<And>t u. ndef_reach s t \<Longrightarrow> P t \<Longrightarrow> ndef_step t u \<Longrightarrow> P u) \<Longrightarrow> P t"
  by (induct rule: ndef_reach.induct) blast+

interpretation ndef: reach_system ndef_step ndef_reach
  by unfold_locales (rule ndef_start, erule (1) ndef_next, erule (1) ndef_reach_ind)

inductive_cases ndef_stepE: "ndef_step s t"

definition ndef_boot :: "u8 list \<Rightarrow> ndef_sys" where
  "ndef_boot buf = \<lparr>nd_flags = Flash_Write_Finished, nd_msg_buf = buf, nd_flash_buf = replicate (length buf) 0, nd_flash_len = 0,
     nd_cb = Cb_Idle, nd_main = Main_Idle, nd_captured = (0, []), nd_flashed = [], nd_discarded = 0\<rparr>"

text \<open>The flag says whose turn it is, and a prepared buffer is the captured update.\<close>

definition ndef_inv :: "ndef_sys \<Rightarrow> bool" where
  "ndef_inv s \<longleftrightarrow> (nd_cb s \<noteq> Cb_Idle \<longleftrightarrow> nd_flags s = Flash_Buf_Prep_Started) \<and>
     (nd_main s \<noteq> Main_Idle \<longleftrightarrow> nd_flags s = Flash_Write_Started) \<and>
     (nd_cb s = Cb_Finish \<or> nd_flags s = Flash_Buf_Prep_Finished \<or> nd_main s = Main_Write \<longrightarrow>
        nd_flash_len s = of_nat (fst (nd_captured s) + 2) \<and> nd_flash_buf s = snd (nd_captured s)) \<and>
     (\<forall>(bs, n, buf)\<in>set (nd_flashed s). bs = take ((n + 2) mod 256) buf)"

lemma flash_len: "unat (2 + word_of_nat n :: u8) = Suc (Suc n) mod 256"
proof -
  have "unat (of_nat (n + 2) :: u8) = (n + 2) mod 256"
    by (simp only: unat_of_nat) simp
  then show ?thesis by simp
qed

lemma ndef_step_inv: "ndef_step s t \<Longrightarrow> ndef_inv s \<Longrightarrow> ndef_inv t"
  by (elim ndef_stepE)
    (auto simp: ndef_inv_def prepare_begin_def prepare_copy_def prepare_finish_def loop_begin_def loop_write_def
      loop_finish_def NFC_NDEF_FILE_NLEN_FIELD_SIZE_def flash_len split: if_splits)

text \<open>
  C31. Handover: the callback and the main loop are never at work on the flash buffer at the
  same time, and everything flashed is the file of one update, captured when it was
  reported, however the reader goes on writing; but cut to its length modulo 256, which is
  the width of \<open>flash_buf_len\<close>.
\<close>

theorem ndef_handover:
  assumes "ndef_reach (ndef_boot buf) s"
  shows "(nd_cb s = Cb_Idle \<or> nd_main s = Main_Idle) \<and>
    (\<forall>(bs, n, file)\<in>set (nd_flashed s). bs = take ((n + NFC_NDEF_FILE_NLEN_FIELD_SIZE) mod 256) file)"
proof -
  have "ndef_inv s"
    by (rule ndef.invariant [OF assms _ ndef_step_inv]) (simp add: ndef_inv_def ndef_boot_def)
  then show ?thesis
    by (auto simp: ndef_inv_def NFC_NDEF_FILE_NLEN_FIELD_SIZE_def)
qed

text \<open>A message of 254 bytes, the largest in a file of 256, is flashed as nothing.\<close>

theorem long_message_lost:
  assumes "length buf = 256"
  shows "\<exists>s. ndef_reach (ndef_boot buf) s \<and> nd_flashed s = [([], 254, buf)]"
proof -
  let ?s1 = "prepare_begin 254 (ndef_boot buf)"
  let ?s2 = "prepare_copy 254 ?s1"
  let ?s3 = "prepare_finish ?s2"
  let ?s4 = "loop_begin ?s3"
  have "ndef_step (ndef_boot buf) ?s1" by (rule Updated) (simp_all add: ndef_boot_def)
  moreover have "ndef_step ?s1 ?s2" by (rule Copies) (simp add: prepare_begin_def ndef_boot_def)
  moreover have "ndef_step ?s2 ?s3" by (rule Prepared) (simp add: prepare_copy_def)
  moreover have "ndef_step ?s3 ?s4"
    by (rule Wakes) (simp add: prepare_finish_def prepare_copy_def prepare_begin_def ndef_boot_def)
  moreover have "ndef_step ?s4 (loop_write ?s4)" by (rule Flashes) (simp add: loop_begin_def prepare_finish_def)
  ultimately have "ndef_reach (ndef_boot buf) (loop_write ?s4)"
    by (meson ndef.one ndef_next)
  moreover have "nd_flashed (loop_write ?s4) = [([], 254, buf)]"
    by (simp add: loop_write_def loop_begin_def prepare_finish_def prepare_copy_def prepare_begin_def ndef_boot_def
        NFC_NDEF_FILE_NLEN_FIELD_SIZE_def)
  ultimately show ?thesis by blast
qed

lemma ndef_handover_witness:
  "nd_main (prepare_begin 3 (ndef_boot [0, 0, 0, 0, 0])) = Main_Idle"
  using ndef_handover [OF ndef.one [OF Updated [of "ndef_boot [0, 0, 0, 0, 0]" 3]]]
  by (auto simp: ndef_boot_def prepare_begin_def)

lemma long_message_lost_witness: "\<exists>s. ndef_reach (ndef_boot (replicate 256 7)) s \<and> nd_flashed s = [([], 254, replicate 256 7)]"
  by (rule long_message_lost) simp

end
