(* ===== verification/Ndef_Start.thy ===== *)
theory Ndef_Start
  imports Ndef_Flash
begin

text \<open>
  \<open>samples/nfc/writable_ndef_msg/src/main.c\<close>: the start-up in \<open>main\<close>, which fills the
  message buffer from the file in flash before the tag is emulated, and the NFC callback
  that feeds the handover of \<open>Ndef_Flash\<close>. What the drivers and the NFC library answer
  are the fields of \<open>ndef_start\<close>.
\<close>

definition NDEF_RESTORE_BTN_MSK :: u32 where "NDEF_RESTORE_BTN_MSK = 1"

record ndef_start =
  ns_buttons_init :: int
  ns_leds_init :: int
  ns_flash_device :: bool
  ns_button_state :: u32
  ns_t4t_setup :: int
  ns_rwpayload_set :: int
  ns_emulation_start :: int

definition ndef_board_init :: "ndef_start \<Rightarrow> int" where
  [op_defs]: "ndef_board_init env = (if ns_buttons_init env \<noteq> 0 then ns_buttons_init env else ns_leds_init env)"

text \<open>
  \<open>room\<close> is \<open>CONFIG_NDEF_FILE_SIZE\<close>. The result is the state in which the main loop starts,
  or \<open>None\<close> where \<open>main\<close> goes to \<open>fail\<close>, and the file system.
\<close>

definition ndef_main_start ::
  "ndef_start \<Rightarrow> 'f ndef_fs \<Rightarrow> ndef_encoder \<Rightarrow> nat \<Rightarrow> 'f \<Rightarrow> ndef_sys option \<times> 'f" where
  "ndef_main_start env fs enc room f =
     (if ndef_board_init env < 0 then (None, f)
      else if ndef_file_setup (ns_flash_device env) fs < 0 then (None, f)
      else
        let (err, buff, f1) = ndef_file_load fs enc (replicate room 0) room f
        in if err < 0 then (None, f1)
           else
             let (err2, buff2, f2) =
                   (if ns_button_state env AND NDEF_RESTORE_BTN_MSK \<noteq> 0 then ndef_restore_default fs enc buff room f1
                    else (0, buff, f1))
             in if err2 < 0 then (None, f2)
                else if ns_t4t_setup env < 0 then (None, f2)
                else if ns_rwpayload_set env < 0 then (None, f2)
                else if ns_emulation_start env < 0 then (None, f2)
                else (Some (ndef_boot buff2), f2))"

datatype nfc_t4t_event = Field_On | Field_Off | Ndef_Read | Ndef_Updated | Other_Event

text \<open>The LED and the state of the handover.\<close>

definition nfc_callback :: "nfc_t4t_event \<Rightarrow> nat \<Rightarrow> bool \<times> ndef_sys \<Rightarrow> bool \<times> ndef_sys" where
  [op_defs]: "nfc_callback event data_length ls =
     (let (led, s) = ls
      in case event of
           Field_On \<Rightarrow> (True, s)
         | Field_Off \<Rightarrow> (False, s)
         | Ndef_Read \<Rightarrow> (led, s)
         | Ndef_Updated \<Rightarrow> (led, if 0 < data_length then prepare_begin data_length s else s)
         | Other_Event \<Rightarrow> (led, s))"

section \<open>Properties\<close>

lemma restore_default_stores:
  assumes "fs_spec fs get" "enc room = (0, 0, file)" "file \<noteq> []"
    "ndef_restore_default fs enc buff room f = (ret, buff1, f1)" "0 \<le> ret" "length file \<le> room"
  shows "get f1 FLASH_URL_ADDRESS_ID = Some file \<and> buff1 = overwrite file buff"
proof -
  have w: "nf_write fs FLASH_URL_ADDRESS_ID file f = (ret, f1)" "buff1 = overwrite file buff"
    using assms(2,4)
    by (auto simp: ndef_restore_default_def ndef_file_default_message_def ndef_file_update_def overwrite_def split: prod.splits)
  then show ?thesis
    using assms(1,3,5) unfolding fs_spec_def by (metis fst_conv snd_conv)
qed

text \<open>
  The tag is emulated only with the message that is in flash: the default one when the
  button is held or when there was none, otherwise the one stored; and the handover
  starts in its initial state.
\<close>

theorem ndef_start_serves_flash:
  assumes "fs_spec fs get" "enc room = (0, 0, file)" "file \<noteq> []" "length file \<le> room"
    "\<forall>bs. get f FLASH_URL_ADDRESS_ID = Some bs \<longrightarrow> bs \<noteq> [] \<and> length bs \<le> room"
    "ndef_main_start env fs enc room f = (Some s, f1)"
  defines "served \<equiv> if ns_button_state env AND NDEF_RESTORE_BTN_MSK \<noteq> 0 then file
                      else case get f FLASH_URL_ADDRESS_ID of None \<Rightarrow> file | Some bs \<Rightarrow> bs"
  shows "get f1 FLASH_URL_ADDRESS_ID = Some served \<and> take (length served) (nd_msg_buf s) = served \<and>
    s = ndef_boot (nd_msg_buf s)"
proof -
  obtain err buff g where load: "ndef_file_load fs enc (replicate room 0) room f = (err, buff, g)"
    by (metis prod_cases3)
  then have ok: "0 \<le> err"
    using assms(6) by (auto simp: ndef_main_start_def split: if_splits)
  have loaded: "\<exists>bs. get g FLASH_URL_ADDRESS_ID = Some bs \<and> take (length bs) buff = bs \<and>
      (get f FLASH_URL_ADDRESS_ID = Some bs \<or> get f FLASH_URL_ADDRESS_ID = None \<and> bs = file)"
    using load_then_load [OF assms(1-4) _ _ assms(5) load ok, of "replicate room 0"] by auto
  show ?thesis
  proof (cases "ns_button_state env AND NDEF_RESTORE_BTN_MSK = 0")
    case True
    then have "f1 = g" "s = ndef_boot buff"
      using assms(6) load ok by (auto simp: ndef_main_start_def split: if_splits)
    then show ?thesis
      using loaded True by (auto simp: served_def ndef_boot_def)
  next
    case False
    obtain err2 buff2 g2 where restore: "ndef_restore_default fs enc buff room g = (err2, buff2, g2)"
      by (metis prod_cases3)
    then have s: "0 \<le> err2" "f1 = g2" "s = ndef_boot buff2"
      using assms(6) load ok False by (auto simp: ndef_main_start_def split: if_splits)
    show ?thesis
      using restore_default_stores [OF assms(1-3) restore s(1) assms(4)] False s
      by (simp add: served_def ndef_boot_def overwrite_def)
  qed
qed

text \<open>The callback makes steps of the handover only.\<close>

lemma nfc_callback_steps:
  "nd_cb s = Cb_Idle \<Longrightarrow> snd (nfc_callback event n (led, s)) = s \<or> ndef_step s (snd (nfc_callback event n (led, s)))"
  by (auto simp: nfc_callback_def intro: Updated split: nfc_t4t_event.split)

end
