(* ===== verification/Spec2Isabelle.thy ===== *)
theory Spec2Isabelle
  imports Rx_Main Transport_Race Adc_Stream Link Sync_Minimal If_Bridge_Props If_Power If_Settings If_Bulk If_Msos Async_Uart
    Hids_Keyboard Hids_Mouse Quick_Start Release_Receiver Cs_Ranging Cs_Start Coap_Client Retained Ndef_Start
begin

text \<open>
  A verification library of the 2.4 GHz sensor link of this repository: the
  transmitter \<open>applications/rf_link_tx\<close> (two cores), the receiver
  \<open>applications/rf_link_rx\<close>, what they share (\<open>applications/rf_link_common\<close>), the
  synchronisation prototype \<open>applications/sync_minimal\<close>, and of the programs of the board
  beside it: the firmware of the interface MCU (\<open>applications/ifmcu_firmware\<close>), the
  changes of \<open>releases/20261014\<close>, \<open>applications/quick_start_demo\<close> and six of the
  \<open>samples\<close>. Names of directories of the link are relative to \<open>src/applications\<close>, the
  others to \<open>src\<close>.

  THE PROGRAM. On the transmitter the FLPR core reads a three-axis accelerometer
  through its FIFO, fills a batch of 4096 samples in one of two slots of shared memory
  and announces it over ICMsg; the application core checks the batch, cuts it into 43
  radio frames of at most 96 samples, sends them over Enhanced ShockBurst (ESB)
  without acknowledgement and gives the slot back. The receiver timestamps each
  payload in the radio interrupt, queues it, and its main thread validates it,
  extends the 16-bit sequence number to 32 bits, accounts for losses, keeps a logical
  sample index, aligns the stream to a hardware sync signal and pushes a record on a
  ring. A transport offers the oldest record, wrapped with two CRCs, to an FPGA that
  polls over SPI and commits each record by number.

  HOW IT IS MODELLED. Shallow embedding: a struct is a \<open>record\<close>, an enum a \<open>datatype\<close>,
  integers have their width (\<open>u8\<close> to \<open>u64\<close>), a C \<open>int\<close> that holds an errno is an \<open>int\<close>,
  a pointer that may be null an option or a flag, an out-parameter the right side of
  a sum. A file's static variables are one state record, a function takes and returns
  it. A section under a spinlock or in an interrupt is one step. What the kernel, the
  drivers, ESB and the IPC service answer are inputs; a kernel message queue is a
  record of operations with the hypothesis \<open>msgq_spec\<close> (its documented behaviour), the
  CRC functions are fields of the configuration or parameters, and the sensor is a
  device behind \<open>mems_bus\<close> with the hypotheses \<open>fifo_bus\<close> and \<open>fifo_ready\<close>. Build options
  are the fields of \<open>rx_config\<close> and \<open>sync_conf\<close>.

  FOUNDATION. \<open>Prelude\<close>: widths, errno values, word and list lemmas, the locale
  \<open>reach_system\<close> of a step relation with its reachable states. \<open>Bytes\<close>: little-endian
  images and their round trips. \<open>Wire_Formats\<close>: the structs of \<open>rf_link_proto.h\<close>,
  \<open>rf_link_future.h\<close> and the FPGA header, with their images. \<open>Kernel\<close>: message queues,
  sequences of driver calls, the clock start. \<open>Debug_Uart\<close>: \<open>debug_uart.c\<close> of both ends,
  decimal output. \<open>Esb\<close>: both \<open>radio_link_init\<close>.

  RECEIVER (\<open>rf_link_rx/src\<close>). \<open>Rx_Config\<close>: the Kconfig options. \<open>Rx_Radio\<close>:
  \<open>radio_link.c\<close>, event handler and packet queue. \<open>Rx_Reorder\<close>: \<open>rx_reorder.c\<close>.
  \<open>Timebase\<close>: \<open>timebase.c\<close>, the 64-bit extension of the timer, with the locale
  \<open>tick_clock\<close>. \<open>Sync_Manager\<close>: \<open>sync_manager.c\<close> as operations and as a step relation.
  \<open>Fifo_Interface\<close> (locale \<open>bounded_fifo\<close>) and \<open>Frame_Queue\<close>, its interpretation on
  \<open>frame_queue.c\<close>. \<open>Link_Control\<close>: \<open>link_control.c\<close>. \<open>Spi_Wire\<close>, \<open>Fpga_Record\<close>,
  \<open>Spi_Transport\<close> (locale \<open>release_client\<close>): \<open>fpga_spi_transport.c\<close> and its formats.
  \<open>Fpga_Transport\<close>: \<open>fpga_transport.c\<close>. \<open>Spis_Backend\<close>, \<open>Spis_Worker\<close>:
  \<open>fpga_spis_backend.c\<close>. \<open>Rx_Stream\<close>: \<open>rx_sample_stream.c\<close>. \<open>Rx_Main\<close>: \<open>main.c\<close>, start-up,
  the record pipeline and a pass of the main loop. \<open>Delivery\<close>: the contract of queue,
  service and SPI commands together. \<open>Transport_Race\<close>: the main thread and the SPI
  worker interleaved at critical sections, in the order of the applications and in
  the order of \<open>releases/20261014\<close>.

  TRANSMITTER (\<open>rf_link_tx/src\<close>, \<open>rf_link_tx/flpr_app/src\<close>). \<open>Mems_Batch\<close>:
  \<open>mems_batch.h\<close>. \<open>Lp_Trace\<close>: \<open>lp_trace.h\<close>. \<open>Adc_Sampler\<close>: \<open>adc_sampler.c\<close>, with
  \<open>Adc_Stream\<close> for what it delivers. \<open>Ipc_Endpoint\<close>, \<open>Ipc_Tx\<close>, \<open>Ipc_Bridge\<close>: the two ends
  of the link, \<open>ipc_tx.c\<close> and \<open>ipc_bridge.c\<close>. \<open>Flpr_Main\<close>: the sensor core's \<open>main.c\<close>.
  \<open>Tx_Radio\<close>: \<open>radio_link.c\<close>. \<open>Tx_Main\<close>: the application core's \<open>main.c\<close>. \<open>Tx_Frames\<close>: the
  frames of a batch and the account of their transmission. \<open>Slot_Protocol\<close>,
  \<open>Slot_Properties\<close>: the two cores, the shared memory and the link as a step relation,
  an interpretation of \<open>reach_system\<close>, with the ownership of the two slots.
  \<open>Slot_Refinement\<close>: a pass of each core's main loop is a run of that system.

  BOTH. \<open>Link\<close>: consecutive batches, the air, and the receiver's records. The air may
  drop payloads; it does not change, reorder or invent them. \<open>Sync_Minimal\<close>:
  \<open>sync_minimal/src/main.c\<close>, both roles.

  INTERFACE MCU (\<open>applications/ifmcu_firmware/src\<close>). A USB serial port bridged to a UART
  and a CMSIS-DAP probe. \<open>If_Kernel\<close>: slabs and ring buffers, by their documented laws.
  \<open>If_Events\<close>: the application events. \<open>If_Buffers\<close>, \<open>If_Uart\<close>, \<open>If_Uart_Tx\<close>:
  \<open>uart_handler.c\<close>, its reference-counted receive buffers, its event handler and callback,
  and its transmit path with the interrupt. \<open>If_Cdc\<close>: \<open>usb_cdc_handler.c\<close>. \<open>If_Bridge\<close>,
  \<open>If_Bridge_Props\<close>: both as one system, with what it carries. \<open>If_Conn\<close>: how connections
  are counted. \<open>If_Power\<close>: \<open>power_handler.c\<close>. \<open>If_Settings\<close>: the supply selection,
  \<open>utils.c\<close> and \<open>usb_bulk_commands.c\<close>. \<open>If_Dap\<close>, \<open>If_Bulk\<close>, \<open>If_Msos\<close>: the probe's vendor
  commands, its request and reply queues and its descriptor set. \<open>If_Led\<close>: \<open>led_state.c\<close>.

  RELEASE (\<open>releases/20261014/single_channel\<close>). Apart from \<open>main.c\<close> of both ends its C
  files are those of the applications, except three. \<open>Release_Receiver\<close>: the service
  loop of \<open>fpga_transport.c\<close> and the worker of \<open>fpga_spis_backend.c\<close>, with the locale
  \<open>spis_worker\<close> of a worker that alternates requests and responses, interpreted on the
  workers of release and applications. \<open>Async_Uart\<close>: \<open>debug_uart.c\<close> of the transmitter,
  which sends from a ring in the background.

  SAMPLES. \<open>Hids_Pairing\<close>, \<open>Hids_Keyboard\<close>, \<open>Hids_Mouse\<close>: the keyboard and mouse of
  \<open>samples/bluetooth\<close>, with \<open>Hid_Descriptor\<close>, a reader of report descriptors.
  \<open>Quick_Start\<close>: \<open>quick_start_demo\<close>, and the start-up of both HID samples. \<open>Cs_Window\<close>,
  \<open>Cs_Ranging\<close>, \<open>Cs_Start\<close>: \<open>channel_sounding_ras_initiator\<close>, its distance estimates, its
  callbacks and its start-up. \<open>Coap_Utils\<close>, \<open>Coap_Server\<close>, \<open>Coap_Client\<close>:
  \<open>samples/openthread/coap\<close>. \<open>Retained\<close>: \<open>samples/system_off\<close>. \<open>Ndef_Flash\<close>,
  \<open>Ndef_Start\<close>: \<open>samples/nfc/writable_ndef_msg\<close>, an interpretation of \<open>reach_system\<close>, and
  its start-up. What the
  Bluetooth, OpenThread, JSON, NFC and file system libraries answer is a parameter.

  WHAT THE THEOREMS SHOW.
  Delivery to the FPGA: records are delivered exactly once and in order, for every
  interleaving of pushes, service calls and SPI commands (\<open>delivery_exactly_once\<close>); the
  ring refines a bounded queue; the release's order of the two tests is safe without
  flushes, the applications' order is not: a COMMIT between copying the head and looking for a
  pending record leaves a copy staged that no command can release, from any state with a
  pending record; and a flush breaks both.
  Reception: extended numbers, loss counts and the logical index are exact for every
  pattern of loss of fewer than 32768 frames in a row; old frames are refused; the
  record pipeline and the main loop keep their invariants; timer readings extend
  exactly within 2^31 ticks; the sync manager locks only on a capture it armed for.
  Capture: the calls of the sampler cut the sensor's stream into consecutive pieces; a
  call that succeeds returns its piece, one that fails loses it, although the counter of
  captured samples has it; a read returns once the FIFO delivers.
  Slots: each slot has one owner in every reachable state, no message is refused, the
  batch the application core holds is the one announced and passes its checks, the
  sensor core can always get a slot again while not both are lost, and a slot whose
  release failed three times never comes back.
  Radio: a batch is cut into 43 frames that carry exactly its samples; frame, batch
  and latency statistics are exact; nothing that fails a check is sent.
  End to end: without loss the receiver's records carry exactly the samples of the
  batches with the right index; with loss the index is late by 32 for every lost
  frame that ended a batch.
  Prototype: the responder reports what the coordinator sent, and the prototype and
  the sensor link do not take each other's frames.
  Interface MCU: the bytes received are delivered in order and exactly once; the USB
  driver is given those of the deliveries made while the terminal was open, the ring of
  the UART takes of each delivery what it has room for; a pointer into a receive buffer always has its reference
  and no buffer is leaked; bytes are sent in the order of their events; replies of the
  probe come in the order of the requests; the selected supply survives a restart; the
  cases in which the bridge gets stuck are stated as such.
  Release: its service loop does what the applications' loop does when nothing runs in
  between; its worker comes back into step with the master, the applications' worker
  does not.
  Samples: six report slots implement a bag of keys; reports agree with their
  descriptors; references on connections are accounted for; a distance is the median
  of the last nine entries, one for each good path of a report, and one undisturbed procedure makes one report; an LED that
  was set is read back as set; uptime and boots accumulate over SYSTEM OFF; callback and
  main loop share the flash buffer safely. Where an error path loses something, a
  theorem says what.

  BOUNDS AND FUEL. Loops over a buffer recurse on it; \<open>frame_loop\<close>, \<open>service_loop\<close> and
  \<open>u32_digits\<close> have measures. A loop that waits for hardware consumes a list of answers
  and is \<open>None\<close> when the list ends first (\<open>send_loop\<close>, \<open>clock_wait\<close>, \<open>wait_tx_done\<close>); the
  answers the callers need are hypotheses. The sampler's loop is a
  \<open>partial_function\<close>, so that a sensor that never delivers is \<open>None\<close>; that it returns is
  a theorem of its own; so are the loops of the interface MCU that wait for another
  module (\<open>overflow_loop\<close>, \<open>cdc_rx_loop\<close>). \<open>mouse_drain\<close> has one more step of fuel than
  there are entries in its queue, which is enough because every step takes one out;
  \<open>device_id_loop\<close> has a measure. Counters are 32-bit and wrap; statements about them are
  modular or bound the number of events.

  NOT MODELLED. \<open>fatal_diag.c\<close> of both cores (register dumps), cache and barrier calls
  (the shared memory is taken to be coherent once a message has been received), the
  contents of samples a failing sensor read has stored, late ESB events between two
  sends other than as events of the next wait, the nrfx, ESB, IPC and kernel code
  itself, device trees and build files, log output. Copying the NDEF message is one
  step: a reader that writes during the copy is not seen. Of the release, \<open>main.c\<close> of the
  receiver differs from the applications in one line of its report, and \<open>main.c\<close> of the
  transmitter in treating a debug UART that does not start as an error; neither is
  repeated. The other samples (\<open>blinky\<close>, \<open>button\<close>, \<open>adc\<close>, \<open>sensor\<close>, \<open>peripheral_lbs\<close>,
  \<open>shell_bt_nus\<close>, \<open>beacon\<close>, \<open>observer\<close>, the NFC records, the reflector, the OpenThread
  command line) consist of calls to their libraries, and \<open>tests\<close> exercise
  the code modelled here; both are left out.
\<close>

end
